(* ===== verification/Prelude.thy ===== *)
theory Prelude
  imports Complex_Main "HOL-Library.Multiset" "HOL-Library.Sublist" "HOL-Library.AList"
    "HOL-Library.Char_ord" "HOL-Library.List_Lexorder" "HOL-Library.Product_Lexorder"
begin

text \<open>
  Shared vocabulary of the development: the exceptions the program raises, the result
  type of a call that may raise, loops that stop at the first exception, JSON values
  with Python's conversions, the parts of \<open>str\<close> and \<open>PurePosixPath\<close> the program uses,
  and the generic list lemmas the components share.
\<close>

named_theorems result_simps \<open>unfolding of calls that may raise\<close>

section \<open>Exceptions and results\<close>

text \<open>
  One constructor per exception class that a modelled function raises or catches.
  Classes with a stable code (\<open>ReceiverTransferError\<close>, \<open>BackupCatalogError\<close>) keep the
  code. A static message is kept; the interpolated part of an f-string is dropped.
\<close>

datatype exn =
    ValueError string
  | KeyError
  | TypeError
  | OverflowError
  | OSError
  | RuntimeError string
  | DomainInvariantError string
  | InvalidStateTransition
  | InvalidTransition
  | CapacityPlanningError string
  | BundleInspectionError string
  | RetentionReclaimError string
  | ReclaimExecutionError string
  | ReclaimRecoveryRequiredError string
  | ReclaimInsufficientSpaceError
  | ReceiverTransferError string
  | ReceiverResolverError string
  | LibvirtExecutionSafetyError string
  | BackupCatalogError string
  | ReplicaSenderError string
  | ReplicaTransferCancelledError
  | ReplicaPublishRejectedError string
  | ReceivedRestoreError string
  | ReceiverReclaimDeleteError string
  | ReceiverPublishError string
  | BundlePurgeError string
  | NameError
  | OtherException

type_synonym 'a result = "exn + 'a"

definition bnd :: "'a result \<Rightarrow> ('a \<Rightarrow> 'b result) \<Rightarrow> 'b result" where
  "bnd m f = (case m of Inl e \<Rightarrow> Inl e | Inr x \<Rightarrow> f x)"

lemma bnd_simps [simp]: "bnd (Inl e) f = Inl e" "bnd (Inr x) f = f x"
  by (simp_all add: bnd_def)

lemma bnd_eq_Inr [result_simps]: "bnd m f = Inr y \<longleftrightarrow> (\<exists>x. m = Inr x \<and> f x = Inr y)"
  by (cases m) simp_all

lemma bnd_eq_Inl [result_simps]:
  "bnd m f = Inl e \<longleftrightarrow> m = Inl e \<or> (\<exists>x. m = Inr x \<and> f x = Inl e)"
  by (cases m) simp_all

lemma Inr_projr: "\<not> isl m \<Longrightarrow> m = Inr (projr m)"
  by (cases m) simp_all

lemma bnd_cong [fundef_cong]:
  "m = m' \<Longrightarrow> (\<And>x. m' = Inr x \<Longrightarrow> f x = g x) \<Longrightarrow> bnd m f = bnd m' g"
  by (cases m') simp_all

text \<open>A comprehension whose element expression may raise, and a loop over a state.\<close>

fun map_result :: "('a \<Rightarrow> 'b result) \<Rightarrow> 'a list \<Rightarrow> 'b list result" where
  "map_result f [] = Inr []"
| "map_result f (x # xs) =
     bnd (f x) (\<lambda>y. bnd (map_result f xs) (\<lambda>ys. Inr (y # ys)))"

fun fold_result :: "('a \<Rightarrow> 's \<Rightarrow> 's result) \<Rightarrow> 'a list \<Rightarrow> 's \<Rightarrow> 's result" where
  "fold_result f [] s = Inr s"
| "fold_result f (x # xs) s = bnd (f x s) (fold_result f xs)"

lemma map_result_Inr:
  "map_result f xs = Inr ys \<longleftrightarrow> list_all2 (\<lambda>x y. f x = Inr y) xs ys"
  by (induction xs arbitrary: ys) (auto simp: bnd_eq_Inr list_all2_Cons1)

lemma map_result_length: "map_result f xs = Inr ys \<Longrightarrow> length ys = length xs"
  by (simp add: map_result_Inr list_all2_lengthD)

lemma map_result_all:
  assumes "map_result f xs = Inr ys" and "\<And>x y. x \<in> set xs \<Longrightarrow> f x = Inr y \<Longrightarrow> P y"
  shows "\<forall>y \<in> set ys. P y"
  using assms by (induction xs arbitrary: ys) (auto simp: bnd_eq_Inr, blast+)

lemma map_result_total:
  "(\<And>x. x \<in> set xs \<Longrightarrow> \<exists>y. f x = Inr y) \<Longrightarrow> \<exists>ys. map_result f xs = Inr ys"
  by (induction xs) (fastforce simp: bnd_eq_Inr)+

lemma fold_result_inv:
  assumes "fold_result f xs s = Inr t" and "P s"
    and "\<And>x s s'. x \<in> set xs \<Longrightarrow> P s \<Longrightarrow> f x s = Inr s' \<Longrightarrow> P s'"
  shows "P t"
  using assms by (induction xs arbitrary: s) (auto simp: bnd_eq_Inr)

section \<open>JSON values and Python's conversions\<close>

text \<open>
  What \<open>json.loads\<close> returns. Objects keep insertion order; keys are distinct, as in a
  dict. Finite floats are rationals; the two infinities and NaN are separate values.
  A string holds code points below 256.
\<close>

datatype json =
    JNull
  | JBool bool
  | JInt int
  | JFloat rat
  | JInf bool
  | JNaN
  | JStr string
  | JList "json list"
  | JObj "(string \<times> json) list"

type_synonym dict = "(string \<times> json) list"

abbreviation dget :: "dict \<Rightarrow> string \<Rightarrow> json option" where
  "dget d k \<equiv> map_of d k"

definition dget_or :: "dict \<Rightarrow> string \<Rightarrow> json \<Rightarrow> json" where
  "dget_or d k v = (case dget d k of None \<Rightarrow> v | Some w \<Rightarrow> w)"

abbreviation dset :: "dict \<Rightarrow> string \<Rightarrow> json \<Rightarrow> dict" where
  "dset d k v \<equiv> AList.update k v d"

definition dkeys :: "dict \<Rightarrow> string set" where
  "dkeys d = set (map fst d)"

lemma dget_dset [simp]: "dget (dset d k v) k' = (if k' = k then Some v else dget d k')"
  by (simp add: update_conv')

lemma dget_or_dset [simp]:
  "dget_or (dset d k v) k' w = (if k' = k then v else dget_or d k' w)"
  by (simp add: dget_or_def)

lemma dget_in_keys: "k \<in> dkeys d \<Longrightarrow> \<exists>v. dget d k = Some v"
  by (auto simp: dkeys_def dest: weak_map_of_SomeI)

text \<open>\<open>d[k]\<close>: a missing key raises \<open>KeyError\<close>.\<close>

definition dindex :: "dict \<Rightarrow> string \<Rightarrow> json result" where
  "dindex d k = (case dget d k of None \<Rightarrow> Inl KeyError | Some v \<Rightarrow> Inr v)"

lemma dindex_Inr [simp]: "dindex d k = Inr v \<longleftrightarrow> dget d k = Some v"
  by (simp add: dindex_def split: option.splits)

text \<open>Truth value, and \<open>v == n\<close> for an integer constant: \<open>True == 1 == 1.0\<close> in Python.\<close>

fun truthy :: "json \<Rightarrow> bool" where
  "truthy JNull = False"
| "truthy (JBool b) = b"
| "truthy (JInt i) = (i \<noteq> 0)"
| "truthy (JFloat r) = (r \<noteq> 0)"
| "truthy (JInf _) = True"
| "truthy JNaN = True"
| "truthy (JStr s) = (s \<noteq> [])"
| "truthy (JList xs) = (xs \<noteq> [])"
| "truthy (JObj d) = (d \<noteq> [])"

fun py_eq_int :: "json \<Rightarrow> int \<Rightarrow> bool" where
  "py_eq_int (JInt i) n = (i = n)"
| "py_eq_int (JBool b) n = ((if b then 1 else 0) = n)"
| "py_eq_int (JFloat r) n = (r = of_int n)"
| "py_eq_int _ n = False"

definition opt_json :: "string option \<Rightarrow> json" where
  "opt_json v = (case v of None \<Rightarrow> JNull | Some s \<Rightarrow> JStr s)"

text \<open>Character classes of \<open>str.strip\<close>, \<open>str.isdigit\<close> and \<open>int\<close> below code point 256.\<close>

definition is_space :: "char \<Rightarrow> bool" where
  "is_space c = (let n = (of_char c :: nat) in
     (9 \<le> n \<and> n \<le> 13) \<or> (28 \<le> n \<and> n \<le> 32) \<or> n = 133 \<or> n = 160)"

definition strip :: "string \<Rightarrow> string" where
  "strip s = rev (dropWhile is_space (rev (dropWhile is_space s)))"

definition is_decimal :: "char \<Rightarrow> bool" where
  "is_decimal c = (let n = (of_char c :: nat) in 48 \<le> n \<and> n \<le> 57)"

definition is_digit :: "char \<Rightarrow> bool" where
  "is_digit c = (is_decimal c \<or> (of_char c :: nat) \<in> {178, 179, 185})"

definition str_isdigit :: "string \<Rightarrow> bool" where
  "str_isdigit s = (s \<noteq> [] \<and> list_all is_digit s)"

definition digits_value :: "string \<Rightarrow> int" where
  "digits_value s = foldl (\<lambda>a c. 10 * a + (of_char c - 48)) 0 s"

fun int_digits :: "bool \<Rightarrow> string \<Rightarrow> string option" where
  "int_digits p [] = (if p then Some [] else None)"
| "int_digits p (c # cs) =
     (if is_decimal c then map_option (\<lambda>ds. c # ds) (int_digits True cs)
      else if c = CHR ''_'' \<and> p then int_digits False cs else None)"

definition int_of_str :: "string \<Rightarrow> int result" where
  "int_of_str s =
     (let t = strip s;
          neg = (case t of [] \<Rightarrow> False | c # _ \<Rightarrow> c = CHR ''-'');
          u = (case t of [] \<Rightarrow> [] | c # cs \<Rightarrow> if c = CHR ''-'' \<or> c = CHR ''+'' then cs else t)
      in case int_digits False u of
           None \<Rightarrow> Inl (ValueError ''invalid literal for int() with base 10'')
         | Some ds \<Rightarrow> Inr (if neg then - digits_value ds else digits_value ds))"

definition trunc :: "rat \<Rightarrow> int" where
  "trunc r = (if 0 \<le> r then \<lfloor>r\<rfloor> else \<lceil>r\<rceil>)"

fun py_int :: "json \<Rightarrow> int result" where
  "py_int (JInt i) = Inr i"
| "py_int (JBool b) = Inr (if b then 1 else 0)"
| "py_int (JFloat r) = Inr (trunc r)"
| "py_int (JInf _) = Inl OverflowError"
| "py_int JNaN = Inl (ValueError ''cannot convert float NaN to integer'')"
| "py_int (JStr s) = int_of_str s"
| "py_int _ = Inl TypeError"

lemma digits_value_nonneg: "list_all is_decimal s \<Longrightarrow> 0 \<le> digits_value s"
proof -
  have "0 \<le> a \<Longrightarrow> list_all is_decimal s \<Longrightarrow>
    0 \<le> foldl (\<lambda>a c. 10 * a + ((of_char c :: int) - 48)) a s" for a
  proof (induction s arbitrary: a)
    case (Cons c s)
    have "48 \<le> (of_char c :: int)"
    proof -
      have "48 \<le> (of_char c :: nat)" using Cons.prems by (simp add: is_decimal_def Let_def)
      then have "int 48 \<le> int (of_char c)" by (simp only: zle_int)
      then show ?thesis by (simp add: of_nat_of_char)
    qed
    with Cons show ?case by simp
  qed simp
  then show "list_all is_decimal s \<Longrightarrow> 0 \<le> digits_value s" by (simp add: digits_value_def)
qed

text \<open>\<open>str(n)\<close> of an integer.\<close>

fun nat_text :: "nat \<Rightarrow> string" where
  "nat_text n = (if n < 10 then [char_of (48 + n)] else nat_text (n div 10) @ [char_of (48 + n mod 10)])"

declare nat_text.simps [simp del]

definition int_text :: "int \<Rightarrow> string" where
  "int_text i = (if i < 0 then CHR ''-'' # nat_text (nat (- i)) else nat_text (nat i))"

lemma digits_value_snoc: "digits_value (s @ [c]) = 10 * digits_value s + (of_char c - 48)"
  by (simp add: digits_value_def)

lemma digits_value_nat_text [simp]: "digits_value (nat_text n) = int n"
proof (induction n rule: nat_text.induct)
  case (1 n)
  have digit: "(of_char (char_of (48 + d) :: char) :: int) = 48 + int d" if "d < 10" for d :: nat
  proof -
    have "(of_char (char_of (48 + d) :: char) :: nat) = 48 + d" using that by simp
    then show ?thesis by (metis of_nat_add of_nat_numeral of_nat_of_char)
  qed
  show ?case
  proof (cases "n < 10")
    case True
    then show ?thesis by (subst nat_text.simps) (simp add: digits_value_def digit)
  next
    case False
    have "n mod 10 < 10" by simp
    have "digits_value (nat_text n) = 10 * int (n div 10) + int (n mod 10)"
      using False 1 digit [OF \<open>n mod 10 < 10\<close>] by (subst nat_text.simps) (simp add: digits_value_snoc)
    also have "\<dots> = int n" by (simp add: zdiv_int zmod_int)
    finally show ?thesis .
  qed
qed

lemma nat_text_inject [simp]: "nat_text m = nat_text n \<longleftrightarrow> m = n"
  by (metis digits_value_nat_text of_nat_eq_iff)

section \<open>Posix paths\<close>

text \<open>
  \<open>PurePosixPath\<close>: the text is split at slashes; empty and single-dot components vanish;
  the root is one slash, or two when the text starts with exactly two.
\<close>

fun split_on :: "char \<Rightarrow> string \<Rightarrow> string list" where
  "split_on d [] = [[]]"
| "split_on d (c # cs) =
     (if c = d then [] # split_on d cs
      else case split_on d cs of [] \<Rightarrow> [[c]] | w # ws \<Rightarrow> (c # w) # ws)"

fun join_with :: "char \<Rightarrow> string list \<Rightarrow> string" where
  "join_with d [] = []"
| "join_with d [w] = w"
| "join_with d (w # ws) = w @ d # join_with d ws"

definition path_root :: "string \<Rightarrow> string" where
  "path_root s =
     (if prefix ''//'' s \<and> \<not> prefix ''///'' s then ''//''
      else if prefix ''/'' s then ''/'' else [])"

definition path_names :: "string \<Rightarrow> string list" where
  "path_names s = filter (\<lambda>w. w \<noteq> [] \<and> w \<noteq> ''.'') (split_on CHR ''/'' s)"

definition path_parts :: "string \<Rightarrow> string list" where
  "path_parts s = (if path_root s = [] then path_names s else path_root s # path_names s)"

definition path_is_absolute :: "string \<Rightarrow> bool" where
  "path_is_absolute s = (path_root s \<noteq> [])"

definition path_str :: "string \<Rightarrow> string" where
  "path_str s =
     (let t = path_root s @ join_with CHR ''/'' (path_names s) in if t = [] then ''.'' else t)"

definition path_parent :: "string \<Rightarrow> string" where
  "path_parent p = path_str (path_root p @ join_with CHR ''/'' (butlast (path_names p)))"

text \<open>\<open>p / q\<close> for a relative \<open>q\<close>.\<close>

definition joined :: "string \<Rightarrow> string \<Rightarrow> string" where
  "joined p q = (if suffix ''/'' p then p @ q else p @ CHR ''/'' # q)"

definition path_chain :: "string \<Rightarrow> string list" where
  "path_chain p =
     (let names = path_names p
      in map (\<lambda>k. path_root p @ join_with CHR ''/'' (take k names)) [0..<Suc (length names)])"

text \<open>\<open>rename\<close> of a folder to a path that is free, or holds nothing that matters.\<close>

definition moved_tree :: "string \<Rightarrow> string \<Rightarrow> (string \<Rightarrow> 'n option) \<Rightarrow> string \<Rightarrow> 'n option" where
  "moved_tree a b fs p =
     (if p = b \<or> prefix (b @ ''/'') p then fs (a @ drop (length b) p)
      else if p = a \<or> prefix (a @ ''/'') p then None else fs p)"

lemma split_on_nonempty [simp]: "split_on d s \<noteq> []"
  by (induction s) (auto split: list.splits)

lemma split_on_no_sep: "w \<in> set (split_on d s) \<Longrightarrow> d \<notin> set w"
proof (induction s arbitrary: w)
  case (Cons c s)
  then show ?case by (cases "split_on d s") (auto split: if_splits)
qed simp

lemma join_split [simp]: "join_with d (split_on d s) = s"
proof (induction s)
  case (Cons c s)
  then show ?case
  proof (cases "split_on d s")
    case (Cons w ws)
    with Cons.IH show ?thesis by (cases ws) auto
  qed simp
qed simp

section \<open>Sorting as \<open>sorted\<close> does\<close>

text \<open>\<open>sorted(xs, key=k)\<close> is stable, and so is \<open>reverse=True\<close>.\<close>

definition sort_key_desc :: "('a \<Rightarrow> 'k::linorder) \<Rightarrow> 'a list \<Rightarrow> 'a list" where
  "sort_key_desc k xs = rev (sort_key k (rev xs))"

lemma set_sort_key_desc [simp]: "set (sort_key_desc k xs) = set xs"
  by (simp add: sort_key_desc_def)

lemma mset_sort_key_desc [simp]: "mset (sort_key_desc k xs) = mset xs"
  by (simp add: sort_key_desc_def)

lemma length_sort_key_desc [simp]: "length (sort_key_desc k xs) = length xs"
  by (simp add: sort_key_desc_def)

lemma distinct_sort_key_desc [simp]: "distinct (sort_key_desc k xs) = distinct xs"
  by (simp add: sort_key_desc_def)

lemma sorted_sort_key_desc: "sorted (rev (map k (sort_key_desc k xs)))"
  by (simp add: sort_key_desc_def rev_map)

lemma find_SomeD: "find P xs = Some x \<Longrightarrow> x \<in> set xs \<and> P x"
  by (metis find_Some_iff nth_mem)

lemma in_set_take_or_drop: "x \<in> set xs \<Longrightarrow> x \<notin> set (take n xs) \<Longrightarrow> x \<in> set (drop n xs)"
proof -
  have "set xs = set (take n xs) \<union> set (drop n xs)"
    by (simp only: set_append [symmetric] append_take_drop_id)
  then show "x \<in> set xs \<Longrightarrow> x \<notin> set (take n xs) \<Longrightarrow> x \<in> set (drop n xs)" by blast
qed

text \<open>Among the first \<open>n\<close> of a descending list nothing is smaller than what follows.\<close>

lemma take_drop_desc:
  assumes "x \<in> set (take n (sort_key_desc k xs))" and "y \<in> set (drop n (sort_key_desc k xs))"
  shows "k y \<le> k x"
proof -
  let ?l = "sort_key_desc k xs"
  have "sorted_wrt (\<ge>) (map k ?l)"
    using sorted_sort_key_desc [of k xs] by (simp add: sorted_wrt_rev)
  then have "sorted_wrt (\<ge>) (map k (take n ?l) @ map k (drop n ?l))"
    by (simp flip: map_append)
  with assms show ?thesis by (auto simp: sorted_wrt_append)
qed

lemma take_drop_sorted:
  assumes "x \<in> set (take n (sort_key k xs))" and "y \<in> set (drop n (sort_key k xs))"
  shows "k x \<le> k y"
proof -
  let ?l = "sort_key k xs"
  have "sorted (map k (take n ?l) @ map k (drop n ?l))" by (simp flip: map_append)
  with assms show ?thesis by (auto simp: sorted_append)
qed

section \<open>Slices and floating-point numbers\<close>

text \<open>\<open>xs[:n]\<close>: a negative \<open>n\<close> counts from the end.\<close>

definition slice_to :: "int \<Rightarrow> 'a list \<Rightarrow> 'a list" where
  "slice_to n xs = (if 0 \<le> n then take (nat n) xs else take (length xs - nat (- n)) xs)"

text \<open>
  The double nearest to a rational, ties to even, without the limits of the exponent:
  \<open>e\<close> is the exponent of the leading bit, and 52 more bits are kept.
\<close>

definition scale2 :: "rat \<Rightarrow> int \<Rightarrow> rat" where
  "scale2 r s = (if 0 \<le> s then r * 2 ^ nat s else r / 2 ^ nat (- s))"

definition round_even :: "rat \<Rightarrow> int" where
  "round_even r =
     (let f = \<lfloor>r\<rfloor>; d = r - of_int f in
      if d < 1 / 2 then f else if d > 1 / 2 then f + 1 else if even f then f else f + 1)"

function bit_count :: "int \<Rightarrow> int" where
  "bit_count n = (if n \<le> 0 then 0 else 1 + bit_count (n div 2))"
  by pat_completeness auto
termination by (relation "measure nat") auto

declare bit_count.simps [simp del]

definition fl :: "rat \<Rightarrow> rat" where
  "fl r =
     (if r = 0 then 0
      else let (n, d) = quotient_of \<bar>r\<bar>;
               e = bit_count n - bit_count d;
               e = (if scale2 \<bar>r\<bar> (- e) < 1 then e - 1 else e);
               m = scale2 (of_int (round_even (scale2 \<bar>r\<bar> (52 - e)))) (e - 52)
           in if r < 0 then - m else m)"

lemma round_even_nonneg: "0 \<le> r \<Longrightarrow> 0 \<le> round_even r"
  by (simp add: round_even_def Let_def)

lemma scale2_nonneg: "0 \<le> r \<Longrightarrow> 0 \<le> scale2 r s"
  by (simp add: scale2_def)

lemma fl_nonneg:
  assumes "0 \<le> r"
  shows "0 \<le> fl r"
  using assms
  by (auto simp: fl_def Let_def case_prod_unfold intro!: scale2_nonneg round_even_nonneg)

lemma trunc_nonneg: "0 \<le> r \<Longrightarrow> 0 \<le> trunc r"
  by (simp add: trunc_def)

section \<open>Loops that accumulate a set\<close>

lemma foldl_grows: "(\<And>r x. r \<subseteq> f r x) \<Longrightarrow> r \<subseteq> foldl f r xs"
  by (induction xs arbitrary: r) (simp, metis foldl_Cons subset_trans)

lemma foldl_covers:
  assumes "\<And>r x. r \<subseteq> f r x" and "x \<in> set xs" and "\<And>r. S \<subseteq> f r x"
  shows "S \<subseteq> foldl f r xs"
  using assms(2)
proof (induction xs arbitrary: r)
  case (Cons y xs)
  then show ?case
    using assms(3) foldl_grows [of f "f r x" xs, OF assms(1)] by auto
qed simp

lemma foldl_inv_after:
  assumes "x \<in> set xs" and "\<And>r. P (f r x)" and "\<And>r y. y \<in> set xs \<Longrightarrow> P r \<Longrightarrow> P (f r y)"
  shows "P (foldl f r xs)"
proof -
  have keep: "P r \<Longrightarrow> set ys \<subseteq> set xs \<Longrightarrow> P (foldl f r ys)" for ys r
    by (induction ys arbitrary: r) (simp_all add: assms(3))
  from assms(1) obtain us vs where "xs = us @ x # vs" by (auto dest: split_list)
  with keep [of "f (foldl f r us) x" vs] assms(2) show ?thesis by auto
qed

section \<open>Calls that read and update a state and may raise\<close>

text \<open>
  When such a call raises, the updates made before the exception stay. \<open>keeps P m\<close> says
  that \<open>m\<close> preserves \<open>P\<close> also when it raises; \<open>yields P m Q\<close> says what holds when it
  returns.
\<close>

type_synonym ('s, 'a) op = "'s \<Rightarrow> 'a result \<times> 's"

definition ret :: "'a \<Rightarrow> ('s, 'a) op" where "ret x = (\<lambda>s. (Inr x, s))"

definition raise :: "exn \<Rightarrow> ('s, 'a) op" where "raise e = (\<lambda>s. (Inl e, s))"

definition lift :: "'a result \<Rightarrow> ('s, 'a) op" where "lift r = (\<lambda>s. (r, s))"

definition update :: "('s \<Rightarrow> 's) \<Rightarrow> ('s, unit) op" where "update g = (\<lambda>s. (Inr (), g s))"

definition reading :: "('s \<Rightarrow> ('s, 'a) op) \<Rightarrow> ('s, 'a) op" where "reading f = (\<lambda>s. f s s)"

definition andthen :: "('s, 'a) op \<Rightarrow> ('a \<Rightarrow> ('s, 'b) op) \<Rightarrow> ('s, 'b) op" where
  "andthen m f = (\<lambda>s. case m s of (Inl e, s') \<Rightarrow> (Inl e, s') | (Inr x, s') \<Rightarrow> f x s')"

text \<open>\<open>except Exception: raise e\<close>: every exception becomes the given one.\<close>

definition rethrow :: "exn \<Rightarrow> ('s, 'a) op \<Rightarrow> ('s, 'a) op" where
  "rethrow e m = (\<lambda>s. case m s of (Inl _, s') \<Rightarrow> (Inl e, s') | (Inr x, s') \<Rightarrow> (Inr x, s'))"

fun each :: "('a \<Rightarrow> ('s, unit) op) \<Rightarrow> 'a list \<Rightarrow> ('s, unit) op" where
  "each f [] = ret ()"
| "each f (x # xs) = andthen (f x) (\<lambda>_. each f xs)"

lemmas op_defs = ret_def raise_def lift_def update_def reading_def andthen_def rethrow_def

definition keeps :: "('s \<Rightarrow> bool) \<Rightarrow> ('s, 'a) op \<Rightarrow> bool" where
  "keeps P m \<longleftrightarrow> (\<forall>s. P s \<longrightarrow> P (snd (m s)))"

definition yields :: "('s \<Rightarrow> bool) \<Rightarrow> ('s, 'a) op \<Rightarrow> ('a \<Rightarrow> 's \<Rightarrow> bool) \<Rightarrow> bool" where
  "yields P m Q \<longleftrightarrow> (\<forall>s x s'. P s \<longrightarrow> m s = (Inr x, s') \<longrightarrow> Q x s')"

named_theorems keeps_intros \<open>rules for preserved properties of stateful calls\<close>

lemma keeps_basic [keeps_intros]: "keeps P (ret x)" "keeps P (raise e)" "keeps P (lift r)"
  by (simp_all add: keeps_def ret_def raise_def lift_def)

lemma keeps_update [keeps_intros]: "(\<And>s. P s \<Longrightarrow> P (g s)) \<Longrightarrow> keeps P (update g)"
  by (simp add: keeps_def update_def)

lemma keeps_reading [keeps_intros]: "(\<And>t. P t \<Longrightarrow> keeps P (f t)) \<Longrightarrow> keeps P (reading f)"
  by (simp add: keeps_def reading_def)

lemma keeps_andthen [keeps_intros]:
  "keeps P m \<Longrightarrow> (\<And>x. keeps P (f x)) \<Longrightarrow> keeps P (andthen m f)"
  unfolding keeps_def andthen_def by (force split: prod.split sum.split)

lemma keeps_rethrow [keeps_intros]: "keeps P m \<Longrightarrow> keeps P (rethrow e m)"
  unfolding keeps_def rethrow_def by (force split: prod.split sum.split)

lemma keeps_each [keeps_intros]: "(\<And>x. x \<in> set xs \<Longrightarrow> keeps P (f x)) \<Longrightarrow> keeps P (each f xs)"
  by (induction xs) (auto intro!: keeps_intros)

lemma keeps_if [keeps_intros]: "(b \<Longrightarrow> keeps P m) \<Longrightarrow> (\<not> b \<Longrightarrow> keeps P n) \<Longrightarrow> keeps P (if b then m else n)"
  by simp

lemma keeps_option [keeps_intros]:
  "(x = None \<Longrightarrow> keeps P m) \<Longrightarrow> (\<And>y. x = Some y \<Longrightarrow> keeps P (f y)) \<Longrightarrow>
     keeps P (case x of None \<Rightarrow> m | Some y \<Rightarrow> f y)"
  by (cases x) simp_all

lemma keepsD: "keeps P m \<Longrightarrow> P s \<Longrightarrow> m s = (r, s') \<Longrightarrow> P s'"
  unfolding keeps_def by (metis snd_conv)

lemma andthen_Inr:
  "andthen m f s = (Inr y, s'') \<longleftrightarrow> (\<exists>x s'. m s = (Inr x, s') \<and> f x s' = (Inr y, s''))"
  by (auto simp: andthen_def split: prod.splits sum.splits)

lemma op_Inr:
  "ret x s = (Inr y, s') \<longleftrightarrow> y = x \<and> s' = s" "raise e s = (Inr y, s') \<longleftrightarrow> False"
  "lift r s = (Inr y, s') \<longleftrightarrow> r = Inr y \<and> s' = s" "update g s = (Inr u, s') \<longleftrightarrow> s' = g s"
  "reading f' s = (Inr y, s') \<longleftrightarrow> f' s s = (Inr y, s')"
  by (auto simp: op_defs)

lemma rethrow_Inr: "rethrow e m s = (Inr x, s') \<longleftrightarrow> m s = (Inr x, s')"
  by (auto simp: rethrow_def split: prod.splits sum.splits)

text \<open>The state after a call, whether it returned or raised, step by step.\<close>

lemma after_andthen:
  assumes "\<And>e s'. m s = (Inl e, s') \<Longrightarrow> P s'" and "\<And>x s'. m s = (Inr x, s') \<Longrightarrow> P (snd (f x s'))"
  shows "P (snd (andthen m f s))"
proof (cases "m s")
  case (Pair r s')
  with assms show ?thesis by (cases r) (simp_all add: andthen_def)
qed

lemma after_basic: "P s \<Longrightarrow> P (snd (ret x s))" "P s \<Longrightarrow> P (snd (raise e s))" "P s \<Longrightarrow> P (snd (lift r s))"
  "P (g s) \<Longrightarrow> P (snd (update g s))" "P (snd (f s s)) \<Longrightarrow> P (snd (reading f s))"
  by (simp_all add: op_defs)

lemma op_result:
  "ret x s = (r, s') \<longleftrightarrow> r = Inr x \<and> s' = s" "raise e s = (r, s') \<longleftrightarrow> r = Inl e \<and> s' = s"
  "lift q s = (r, s') \<longleftrightarrow> r = q \<and> s' = s" "update g s = (r, s') \<longleftrightarrow> r = Inr () \<and> s' = g s"
  "reading f' s = (r, s') \<longleftrightarrow> f' s s = (r, s')"
  by (auto simp: op_defs)

text \<open>Computing a call step by step, without unfolding its parts.\<close>

lemma op_run:
  "ret x s = (Inr x, s)" "raise e s = (Inl e, s)" "lift r s = (r, s)" "update g s = (Inr (), g s)"
  "reading f s = f s s"
  "andthen (ret x) h s = h x s" "andthen (raise e) h s = (Inl e, s)" "andthen (lift (Inr x)) h s = h x s"
  "andthen (lift (Inl e)) h s = (Inl e, s)" "andthen (update g) h' s = h' () (g s)"
  "andthen (reading f) h s = andthen (f s) h s"
  "andthen (andthen m f') h s = andthen m (\<lambda>x. andthen (f' x) h) s"
  by (simp_all add: op_defs split: prod.split sum.split)

lemma snd_andthen_ret [simp]: "snd (andthen m (\<lambda>_. ret x) s) = snd (m s)"
  by (simp add: op_defs split: prod.split sum.split)

text \<open>What holds of every value a call returns, whatever the state.\<close>

definition gives :: "('s, 'a) op \<Rightarrow> ('a \<Rightarrow> bool) \<Rightarrow> bool" where
  "gives m Q \<longleftrightarrow> (\<forall>s x s'. m s = (Inr x, s') \<longrightarrow> Q x)"

lemma gives_ret: "Q x \<Longrightarrow> gives (ret x) Q"
  by (simp add: gives_def ret_def)

lemma gives_andthen: "(\<And>x. gives (f x) Q) \<Longrightarrow> gives (andthen m f) Q"
  unfolding gives_def andthen_Inr by blast

lemma gives_lift_then: "(\<And>x. q = Inr x \<Longrightarrow> gives (f x) Q) \<Longrightarrow> gives (andthen (lift q) f) Q"
  unfolding gives_def andthen_Inr by (auto simp: lift_def)

lemma givesD: "gives m Q \<Longrightarrow> m s = (Inr x, s') \<Longrightarrow> Q x"
  unfolding gives_def by blast

end
