(* ===== verification/Models.thy ===== *)
theory Models
  imports Prelude
begin

text \<open>
  The domain records of \<open>models.py\<close>. An enum is a datatype (its constructors carry the
  enum's name as a prefix, because members such as \<open>FAILED\<close> occur in several enums); the
  text stored in the database is the member's value. A dataclass is a record; where
  \<open>__post_init__\<close> validates, a function \<open>make_...\<close> performs its checks in order and
  raises what it raises. A \<open>datetime\<close> is its instant in microseconds.
\<close>

section \<open>Run states and failure classes\<close>

datatype run_state =
    Run_SCHEDULED | Run_QUEUED | Run_PRECHECK | Run_PREPARING | Run_BACKING_UP
  | Run_TRANSFERRING | Run_VERIFYING | Run_FINALIZING | Run_RECOVERING
  | Run_SUCCESS | Run_CLEANUP | Run_FAILED

fun run_state_value :: "run_state \<Rightarrow> string" where
  "run_state_value Run_SCHEDULED = ''SCHEDULED''"
| "run_state_value Run_QUEUED = ''QUEUED''"
| "run_state_value Run_PRECHECK = ''PRECHECK''"
| "run_state_value Run_PREPARING = ''PREPARING''"
| "run_state_value Run_BACKING_UP = ''BACKING_UP''"
| "run_state_value Run_TRANSFERRING = ''TRANSFERRING''"
| "run_state_value Run_VERIFYING = ''VERIFYING''"
| "run_state_value Run_FINALIZING = ''FINALIZING''"
| "run_state_value Run_RECOVERING = ''RECOVERING''"
| "run_state_value Run_SUCCESS = ''SUCCESS''"
| "run_state_value Run_CLEANUP = ''CLEANUP''"
| "run_state_value Run_FAILED = ''FAILED''"

definition all_run_states :: "run_state list" where
  "all_run_states =
     [Run_SCHEDULED, Run_QUEUED, Run_PRECHECK, Run_PREPARING, Run_BACKING_UP,
      Run_TRANSFERRING, Run_VERIFYING, Run_FINALIZING, Run_RECOVERING,
      Run_SUCCESS, Run_CLEANUP, Run_FAILED]"

text \<open>\<open>RunState(text)\<close>: a text that names no member raises \<open>ValueError\<close>.\<close>

definition run_state_of :: "string \<Rightarrow> run_state result" where
  "run_state_of s =
     (case find (\<lambda>r. run_state_value r = s) all_run_states of
        None \<Rightarrow> Inl (ValueError ''not a valid RunState'')
      | Some r \<Rightarrow> Inr r)"

lemma run_state_of_value [simp]: "run_state_of (run_state_value r) = Inr r"
  by (cases r) (simp_all add: run_state_of_def all_run_states_def)

section \<open>Backup chains, restore points and artifacts\<close>

datatype backup_kind = FULL | INCREMENTAL

datatype chain_status = Chain_ACTIVE | Chain_CLOSED

record backup_chain =
  bc_id :: string
  bc_vm_id :: string
  bc_status :: chain_status
  bc_created_at :: int
  bc_closed_at :: "int option"

record restore_point =
  rp_id :: string
  rp_chain_id :: string
  rp_job_run_id :: string
  rp_kind :: backup_kind
  rp_sequence :: int
  rp_backup_object_id :: "string option"
  rp_bundle_object_id :: "string option"
  rp_parent :: "string option"
  rp_checkpoint_name :: "string option"
  rp_created_at :: int

datatype artifact_kind = DISK | DOMAIN_XML | MANIFEST

datatype artifact_state =
  Art_PLANNED | Art_WRITING | Art_COMPLETE | Art_VERIFIED | Art_PUBLISHED

record backup_artifact =
  ba_id :: string
  ba_job_run_id :: string
  ba_kind :: artifact_kind
  ba_object_id :: string
  ba_published_object_id :: "string option"
  ba_state :: artifact_state
  ba_disk_target :: "string option"
  ba_restore_point_id :: "string option"
  ba_format :: "string option"
  ba_size_bytes :: "int option"
  ba_planned_capacity :: "int option"

text \<open>The checks of \<open>BackupArtifact.__post_init__\<close>; an empty disk target is falsy.\<close>

definition check_backup_artifact :: "backup_artifact \<Rightarrow> backup_artifact result" where
  "check_backup_artifact a =
     (if ba_kind a = DISK \<and> (ba_disk_target a = None \<or> ba_disk_target a = Some [])
      then Inl (ValueError ''DISK artifact requires disk_target'')
      else if ba_kind a \<noteq> DISK \<and> ba_disk_target a \<noteq> None
      then Inl (ValueError ''non-DISK artifact cannot have disk_target'')
      else if (\<exists>n. ba_size_bytes a = Some n \<and> n < 0)
      then Inl (ValueError ''artifact size_bytes must be non-negative'')
      else if (\<exists>n. ba_planned_capacity a = Some n \<and> n \<le> 0)
      then Inl (ValueError ''artifact planned_capacity must be positive'')
      else Inr a)"

section \<open>Policies\<close>

datatype space_reclaim_mode = SAFE | SPACE_OPTIMIZED

record retention_policy =
  restore_points_to_retain :: int
  minimum_full_chains :: int
  full_chains_to_retain :: int
  reclaim_mode :: space_reclaim_mode
  backup_size_margin_percent :: rat

definition space_reclaim_mode_of :: "string \<Rightarrow> space_reclaim_mode option" where
  "space_reclaim_mode_of s =
     (if s = ''SAFE'' then Some SAFE
      else if s = ''SPACE_OPTIMIZED'' then Some SPACE_OPTIMIZED else None)"

definition make_retention_policy ::
  "int \<Rightarrow> int \<Rightarrow> int \<Rightarrow> string \<Rightarrow> rat \<Rightarrow> retention_policy result" where
  "make_retention_policy points minimum fulls mode margin =
     (if points < 0 then Inl (ValueError ''restore_points_to_retain must be non-negative'')
      else if minimum < 1 then Inl (ValueError ''minimum_full_chains must be at least 1'')
      else if fulls < minimum
      then Inl (ValueError ''full_chains_to_retain must be at least minimum_full_chains'')
      else case space_reclaim_mode_of mode of
        None \<Rightarrow> Inl (ValueError ''invalid space_reclaim_mode'')
      | Some m \<Rightarrow>
          if \<not> (0 \<le> margin \<and> margin \<le> 100)
          then Inl (ValueError ''backup_size_margin_percent must be between 0 and 100'')
          else Inr \<lparr>restore_points_to_retain = points, minimum_full_chains = minimum,
                    full_chains_to_retain = fulls, reclaim_mode = m,
                    backup_size_margin_percent = margin\<rparr>)"

definition retention_policy_wf :: "retention_policy \<Rightarrow> bool" where
  "retention_policy_wf p \<longleftrightarrow>
     0 \<le> restore_points_to_retain p \<and> 1 \<le> minimum_full_chains p \<and>
     minimum_full_chains p \<le> full_chains_to_retain p \<and>
     0 \<le> backup_size_margin_percent p \<and> backup_size_margin_percent p \<le> 100"

lemma make_retention_policy_wf:
  "make_retention_policy points minimum fulls mode margin = Inr p \<Longrightarrow> retention_policy_wf p"
  by (auto simp: make_retention_policy_def retention_policy_wf_def split: if_splits option.splits)

text \<open>\<open>BackupPolicy\<close>: its only field is checked to be non-negative.\<close>

definition make_backup_policy :: "int \<Rightarrow> int result" where
  "make_backup_policy n =
     (if n < 0 then Inl (ValueError ''max_incrementals_per_chain must be non-negative'')
      else Inr n)"

section \<open>Machines, jobs and storage\<close>

record vm =
  vm_id :: string
  vm_node_id :: string
  vm_name :: string

datatype storage_type = LOCAL | SSH

record storage_destination =
  sd_id :: string
  sd_node_id :: string
  sd_name :: string
  sd_backup_data_root :: string
  sd_minimum_free_bytes :: int
  sd_minimum_free_percent :: rat
  sd_storage_type :: storage_type

record backup_job =
  bj_id :: string
  bj_vm_id :: string
  bj_storage_destination_id :: "string option"
  bj_max_incrementals_per_chain :: int
  bj_retention_policy :: retention_policy
  bj_next_run_at :: "int option"
  bj_enabled :: bool

record job_run =
  jr_id :: string
  jr_job_id :: string
  jr_storage_destination_id :: "string option"
  jr_state :: run_state
  jr_recovery_required :: bool

end
