(* ===== verification/RunStates.thy ===== *)
theory RunStates
  imports Models
begin

text \<open>
  The two run state machines: \<open>state_machine.py\<close> (over the \<open>RunState\<close> enum) and
  \<open>state_machine_v2.py\<close> (over state texts). Both are transition tables behind one
  contract, the locale \<open>transition_table\<close>: a terminal state has no successor.
\<close>

section \<open>The first-generation machine\<close>

definition success_path :: "run_state list" where
  "success_path =
     [Run_SCHEDULED, Run_QUEUED, Run_PRECHECK, Run_PREPARING, Run_BACKING_UP,
      Run_TRANSFERRING, Run_VERIFYING, Run_FINALIZING, Run_SUCCESS]"

text \<open>
  \<open>_TRANSITIONS\<close>: the dict comprehension over \<open>zip(_SUCCESS_PATH, _SUCCESS_PATH[1:])\<close>,
  then the four assignments that follow it, in order.
\<close>

definition transitions_table :: "(run_state \<times> run_state list) list" where
  "transitions_table =
     (let t = map (\<lambda>(s, n). (s, [n, Run_CLEANUP])) (zip success_path (tl success_path));
          t = AList.update Run_CLEANUP [Run_FAILED] t;
          t = AList.update Run_SUCCESS [] t;
          t = AList.update Run_RECOVERING [Run_BACKING_UP, Run_CLEANUP] t
      in AList.update Run_FAILED [] t)"

definition allowed_transitions :: "run_state \<Rightarrow> run_state list result" where
  "allowed_transitions s =
     (case map_of transitions_table s of None \<Rightarrow> Inl KeyError | Some ts \<Rightarrow> Inr ts)"

definition validate_transition :: "run_state \<Rightarrow> run_state \<Rightarrow> unit result" where
  "validate_transition current target =
     bnd (allowed_transitions current)
       (\<lambda>ts. if target \<in> set ts then Inr () else Inl InvalidStateTransition)"

section \<open>The compact-schema machine\<close>

definition allowed_v2 :: "(string \<times> string list) list" where
  "allowed_v2 =
     [(''SCHEDULED'', [''PREPARING'', ''FAILED'']),
      (''PREPARING'', [''BACKING_UP'', ''FAILED'']),
      (''BACKING_UP'', [''VERIFYING'', ''FAILED'']),
      (''VERIFYING'', [''FINALIZING'', ''FAILED'']),
      (''FINALIZING'', [''SUCCESS'', ''FAILED'']),
      (''FAILED'', [''RECOVERING'', ''WAITING'']),
      (''RECOVERING'', [''PREPARING'', ''FAILED'', ''WAITING'']),
      (''WAITING'', [''PREPARING'']),
      (''SUCCESS'', [])]"

definition can_transition_v2 :: "string \<Rightarrow> string \<Rightarrow> bool" where
  "can_transition_v2 old new =
     (new \<in> set (case map_of allowed_v2 old of None \<Rightarrow> [] | Some ts \<Rightarrow> ts))"

definition transition_v2 :: "string \<Rightarrow> string \<Rightarrow> string result" where
  "transition_v2 old new =
     (if \<not> can_transition_v2 old new then Inl InvalidTransition else Inr new)"

section \<open>The contract of a transition table\<close>

text \<open>
  A run of a machine is a list of states, each a permitted successor of the one before.
  The laws: terminal states have no successor, and from every state that is not terminal
  some state can be entered next.
\<close>

locale transition_table =
  fixes may :: "'s \<Rightarrow> 's \<Rightarrow> bool" and known :: "'s set" and terminal :: "'s set"
  assumes terminal_stuck: "s \<in> terminal \<Longrightarrow> \<not> may s t"
    and known_progress: "s \<in> known \<Longrightarrow> s \<notin> terminal \<Longrightarrow> \<exists>t. may s t"
    and known_closed: "may s t \<Longrightarrow> s \<in> known \<and> t \<in> known"
begin

inductive reaches :: "'s \<Rightarrow> 's \<Rightarrow> bool" where
  refl: "reaches s s"
| step: "reaches s t \<Longrightarrow> may t u \<Longrightarrow> reaches s u"

lemma reaches_terminal: "reaches s t \<Longrightarrow> s \<in> terminal \<Longrightarrow> t = s"
  by (induction rule: reaches.induct) (auto dest: terminal_stuck)

lemma reaches_known: "reaches s t \<Longrightarrow> s \<in> known \<Longrightarrow> t \<in> known"
  by (induction rule: reaches.induct) (auto dest: known_closed)

lemma stuck_iff_terminal: "s \<in> known \<Longrightarrow> (\<forall>t. \<not> may s t) \<longleftrightarrow> s \<in> terminal"
  using terminal_stuck known_progress by blast

lemma reaches_trans: "reaches t u \<Longrightarrow> reaches s t \<Longrightarrow> reaches s u"
  by (induction rule: reaches.induct) (auto intro: reaches.step)

lemma measure_bounded:
  fixes f :: "'s \<Rightarrow> nat"
  assumes "\<And>s t. may s t \<Longrightarrow> f t < f s" and "reaches s t"
  shows "t = s \<or> f t < f s"
  using assms(2) by (induction rule: reaches.induct) (auto dest: assms(1))

end

text \<open>Both machines satisfy the contract.\<close>

definition may_v1 :: "run_state \<Rightarrow> run_state \<Rightarrow> bool" where
  "may_v1 s t = (validate_transition s t = Inr ())"

lemma may_v1_table [code]:
  "may_v1 s t = (case s of
       Run_SCHEDULED \<Rightarrow> t \<in> {Run_QUEUED, Run_CLEANUP}
     | Run_QUEUED \<Rightarrow> t \<in> {Run_PRECHECK, Run_CLEANUP}
     | Run_PRECHECK \<Rightarrow> t \<in> {Run_PREPARING, Run_CLEANUP}
     | Run_PREPARING \<Rightarrow> t \<in> {Run_BACKING_UP, Run_CLEANUP}
     | Run_BACKING_UP \<Rightarrow> t \<in> {Run_TRANSFERRING, Run_CLEANUP}
     | Run_TRANSFERRING \<Rightarrow> t \<in> {Run_VERIFYING, Run_CLEANUP}
     | Run_VERIFYING \<Rightarrow> t \<in> {Run_FINALIZING, Run_CLEANUP}
     | Run_FINALIZING \<Rightarrow> t \<in> {Run_SUCCESS, Run_CLEANUP}
     | Run_RECOVERING \<Rightarrow> t \<in> {Run_BACKING_UP, Run_CLEANUP}
     | Run_CLEANUP \<Rightarrow> t = Run_FAILED
     | _ \<Rightarrow> False)"
  by (cases s)
    (simp_all add: may_v1_def validate_transition_def allowed_transitions_def
      transitions_table_def success_path_def)

lemma can_transition_v2_iff:
  "can_transition_v2 s t \<longleftrightarrow> (\<exists>ts. (s, ts) \<in> set allowed_v2 \<and> t \<in> set ts)"
proof -
  have "distinct (map fst allowed_v2)" by (simp add: allowed_v2_def)
  then show ?thesis
    by (auto simp: can_transition_v2_def split: option.splits dest: map_of_SomeD)
qed

lemma v2_successors_known:
  "\<forall>(s, ts) \<in> set allowed_v2. \<forall>t \<in> set ts. t \<in> set (map fst allowed_v2)"
  by (simp add: allowed_v2_def)

lemma v2_only_success_stuck:
  "\<forall>(s, ts) \<in> set allowed_v2. (ts = []) = (s = ''SUCCESS'')"
  by (simp add: allowed_v2_def)

interpretation machine_v1: transition_table may_v1 UNIV "{Run_SUCCESS, Run_FAILED}"
  by unfold_locales (auto simp: may_v1_table split: run_state.splits)

interpretation machine_v2: transition_table can_transition_v2
    "set (map fst allowed_v2)" "{''SUCCESS''}"
proof unfold_locales
  fix s t :: string
  show "s \<in> {''SUCCESS''} \<Longrightarrow> \<not> can_transition_v2 s t"
    using v2_only_success_stuck by (auto simp: can_transition_v2_iff)
  show "s \<in> set (map fst allowed_v2) \<Longrightarrow> s \<notin> {''SUCCESS''} \<Longrightarrow> \<exists>t. can_transition_v2 s t"
    using v2_only_success_stuck by (fastforce simp: can_transition_v2_iff neq_Nil_conv)
  assume "can_transition_v2 s t"
  then obtain ts where ts: "(s, ts) \<in> set allowed_v2" "t \<in> set ts"
    by (auto simp: can_transition_v2_iff)
  from bspec [OF v2_successors_known ts(1)] ts(2) have "t \<in> set (map fst allowed_v2)" by blast
  moreover from imageI [OF ts(1), of fst] have "s \<in> set (map fst allowed_v2)"
    by (simp only: set_map fst_conv)
  ultimately show "s \<in> set (map fst allowed_v2) \<and> t \<in> set (map fst allowed_v2)" by blast
qed

text \<open>
  A success is only reached through \<open>FINALIZING\<close>, and the first-generation machine has no
  cycle: every permitted transition lowers this rank.
\<close>

fun rank_v1 :: "run_state \<Rightarrow> nat" where
  "rank_v1 Run_SCHEDULED = 9" | "rank_v1 Run_QUEUED = 8" | "rank_v1 Run_PRECHECK = 7"
| "rank_v1 Run_PREPARING = 6" | "rank_v1 Run_RECOVERING = 6" | "rank_v1 Run_BACKING_UP = 5"
| "rank_v1 Run_TRANSFERRING = 4" | "rank_v1 Run_VERIFYING = 3" | "rank_v1 Run_FINALIZING = 2"
| "rank_v1 Run_CLEANUP = 1" | "rank_v1 Run_SUCCESS = 0" | "rank_v1 Run_FAILED = 0"

lemma rank_v1_decreases: "may_v1 s t \<Longrightarrow> rank_v1 t < rank_v1 s"
  by (cases s) (auto simp: may_v1_table)

lemma into_failed_v1: "may_v1 s Run_FAILED \<longleftrightarrow> s = Run_CLEANUP"
  by (auto simp: may_v1_table split: run_state.splits)

lemma into_success_v1: "may_v1 s Run_SUCCESS \<longleftrightarrow> s = Run_FINALIZING"
  by (auto simp: may_v1_table split: run_state.splits)

section \<open>Runs of the two machines\<close>

text \<open>A run is a list of states, each transition of which the machine's validation accepts.\<close>

lemma successively_measure:
  fixes f :: "'a \<Rightarrow> nat"
  assumes "\<And>s t. r s t \<Longrightarrow> f t < f s"
  shows "successively r (s # ss) \<Longrightarrow> length ss \<le> f s"
proof (induction ss arbitrary: s)
  case (Cons t ss)
  then have "r s t" "length ss \<le> f t" by simp_all
  with assms [of s t] show ?case by simp
qed simp

text \<open>The only run from a state of the success path to \<open>SUCCESS\<close> is the rest of the path.\<close>

lemma run_to_success_v1:
  "successively may_v1 (s # ss) \<Longrightarrow> last (s # ss) = Run_SUCCESS \<Longrightarrow> s \<noteq> Run_RECOVERING \<Longrightarrow>
     s # ss = dropWhile (\<lambda>x. x \<noteq> s) success_path"
proof (induction ss arbitrary: s)
  case Nil
  then show ?case by (simp add: success_path_def)
next
  case (Cons t ss)
  then have st: "may_v1 s t" "successively may_v1 (t # ss)" "last (t # ss) = Run_SUCCESS" by simp_all
  have t: "t \<noteq> Run_RECOVERING" using st(1) by (auto simp: may_v1_table split: run_state.splits)
  have "t \<noteq> Run_CLEANUP \<and> t \<noteq> Run_FAILED"
    using Cons.IH [OF st(2,3) t] by (auto simp: success_path_def)
  with Cons.IH [OF st(2,3) t] st(1) Cons.prems(3) show ?case
    by (cases s) (auto simp: may_v1_table success_path_def)
qed

lemma suffix_predecessor:
  assumes "successively r xs" and "suffix (t # ts) xs" and "hd xs \<noteq> t" and "\<And>s. r s t \<Longrightarrow> s = p"
  shows "suffix (p # t # ts) xs"
proof -
  from assms(2) obtain us where us: "xs = us @ t # ts" by (auto simp: suffix_def)
  with assms(3) have "us \<noteq> []" by auto
  then obtain vs s where vs: "us = vs @ [s]" by (cases us rule: rev_cases) auto
  with us assms(1) have "r s t" by (simp add: successively_append_iff)
  with assms(4) us vs show ?thesis by (auto simp: suffix_def)
qed

lemma v2_predecessors:
  "can_transition_v2 s ''SUCCESS'' \<Longrightarrow> s = ''FINALIZING''"
  "can_transition_v2 s ''FINALIZING'' \<Longrightarrow> s = ''VERIFYING''"
  "can_transition_v2 s ''VERIFYING'' \<Longrightarrow> s = ''BACKING_UP''"
  "can_transition_v2 s ''BACKING_UP'' \<Longrightarrow> s = ''PREPARING''"
  by (auto simp: can_transition_v2_iff allowed_v2_def)

text \<open>a first-generation run terminates: along transitions that \<open>validate_transition\<close>
  accepts at most nine steps can be taken, and a run that cannot be continued has ended in
  \<open>SUCCESS\<close> or in \<open>FAILED\<close>.\<close>

theorem run_v1_terminates:
  assumes "successively (\<lambda>s t. validate_transition s t = Inr ()) (s # ss)"
  shows "length ss \<le> 9 \<and>
    (\<forall>t. validate_transition (last (s # ss)) t \<noteq> Inr ()) = (last (s # ss) \<in> {Run_SUCCESS, Run_FAILED})"
proof -
  have run: "successively may_v1 (s # ss)" using assms by (simp add: may_v1_def)
  have "rank_v1 s \<le> 9" by (cases s) simp_all
  moreover have "length ss \<le> rank_v1 s"
    by (rule successively_measure [OF rank_v1_decreases run])
  ultimately have "length ss \<le> 9" by simp
  moreover have "(\<forall>t. validate_transition (last (s # ss)) t \<noteq> Inr ()) = (last (s # ss) \<in> {Run_SUCCESS, Run_FAILED})"
    using machine_v1.stuck_iff_terminal [of "last (s # ss)"] by (simp only: may_v1_def) simp
  ultimately show ?thesis ..
qed

theorem run_v1_terminates_witness:
  "length [Run_CLEANUP, Run_FAILED] \<le> 9 \<and> (\<forall>t. validate_transition Run_FAILED t \<noteq> Inr ())"
proof -
  have run: "successively (\<lambda>s t. validate_transition s t = Inr ()) (Run_PRECHECK # [Run_CLEANUP, Run_FAILED])"
    by code_simp
  from run_v1_terminates [OF run] show ?thesis by simp
qed

text \<open>a first-generation run that starts as scheduled and ends in \<open>SUCCESS\<close> has gone
  through every stage in order: it is exactly the success path, with no detour and no stage
  skipped.\<close>

theorem run_v1_success_path:
  assumes "successively (\<lambda>s t. validate_transition s t = Inr ()) (Run_SCHEDULED # ss)"
    and "last (Run_SCHEDULED # ss) = Run_SUCCESS"
  shows "Run_SCHEDULED # ss = success_path"
proof -
  have "successively may_v1 (Run_SCHEDULED # ss)" using assms(1) by (simp add: may_v1_def)
  from run_to_success_v1 [OF this assms(2)] show ?thesis by (simp add: success_path_def)
qed

theorem run_v1_success_path_witness: "Run_SCHEDULED # tl success_path = success_path"
proof (rule run_v1_success_path)
  show "successively (\<lambda>s t. validate_transition s t = Inr ()) (Run_SCHEDULED # tl success_path)"
    by code_simp
  show "last (Run_SCHEDULED # tl success_path) = Run_SUCCESS" by code_simp
qed

text \<open>a compact-schema run, however often it failed and was recovered, reaches
  \<open>SUCCESS\<close> only by passing through preparation, backup, verification and finalisation
  uninterrupted at the end.\<close>

theorem run_v2_success_suffix:
  assumes "successively (\<lambda>s t. transition_v2 s t = Inr t) (''SCHEDULED'' # ss)"
    and "last (''SCHEDULED'' # ss) = ''SUCCESS''"
  shows "suffix [''PREPARING'', ''BACKING_UP'', ''VERIFYING'', ''FINALIZING'', ''SUCCESS'']
    (''SCHEDULED'' # ss)"
proof -
  let ?run = "''SCHEDULED'' # ss"
  have "(\<lambda>s t. transition_v2 s t = Inr t) = can_transition_v2"
    by (auto simp: transition_v2_def fun_eq_iff)
  with assms(1) have run: "successively can_transition_v2 ?run" by (simp only:)
  have hd: "hd ?run = ''SCHEDULED''" by simp
  have "suffix [''SUCCESS''] ?run"
    using append_butlast_last_id [of ?run] assms(2) unfolding suffix_def by (metis list.distinct(1))
  from suffix_predecessor [OF run this _ v2_predecessors(1)] hd
  have "suffix [''FINALIZING'', ''SUCCESS''] ?run" by simp
  from suffix_predecessor [OF run this _ v2_predecessors(2)] hd
  have "suffix [''VERIFYING'', ''FINALIZING'', ''SUCCESS''] ?run" by simp
  from suffix_predecessor [OF run this _ v2_predecessors(3)] hd
  have "suffix [''BACKING_UP'', ''VERIFYING'', ''FINALIZING'', ''SUCCESS''] ?run" by simp
  from suffix_predecessor [OF run this _ v2_predecessors(4)] hd show ?thesis by simp
qed

theorem run_v2_success_suffix_witness:
  "suffix [''PREPARING'', ''BACKING_UP'', ''VERIFYING'', ''FINALIZING'', ''SUCCESS'']
    (''SCHEDULED'' # [''FAILED'', ''RECOVERING'', ''PREPARING'', ''BACKING_UP'', ''VERIFYING'',
       ''FINALIZING'', ''SUCCESS''])"
proof (rule run_v2_success_suffix)
  show "successively (\<lambda>s t. transition_v2 s t = Inr t)
    (''SCHEDULED'' # [''FAILED'', ''RECOVERING'', ''PREPARING'', ''BACKING_UP'', ''VERIFYING'',
       ''FINALIZING'', ''SUCCESS''])"
    by (simp add: transition_v2_def can_transition_v2_def allowed_v2_def)
qed simp



end
