(* ===== verification/Retention.thy ===== *)
theory Retention
  imports Models
begin

text \<open>
  Retention and capacity-reclaim planning (\<open>retention.py\<close>): pure planners over the
  catalog. \<open>retention_plan\<close> is \<open>RetentionPlanner.plan\<close>; \<open>capacity_plan\<close> is
  \<open>CapacityReclaimPlanner.plan\<close>. A dict of lists keyed by chain is the function that
  filters the points of a chain; frozen sets of ids are sets.
\<close>

section \<open>The retention plan\<close>

record retention_plan_result =
  rp_retained :: "string set"
  rp_expired_chains :: "string list"
  rp_legacy_objects :: "string list"
  rp_candidate_artifacts :: "string list"
  rp_candidate_objects :: "string list"

text \<open>\<open>members_by_chain[chain_id]\<close> after the sort by sequence.\<close>

definition members_of :: "restore_point list \<Rightarrow> string \<Rightarrow> restore_point list" where
  "members_of points cid = sort_key rp_sequence (filter (\<lambda>p. rp_chain_id p = cid) points)"

definition parents_ok :: "restore_point list \<Rightarrow> bool" where
  "parents_ok members =
     (map rp_parent members = take (length members) (None # map (Some \<circ> rp_id) members))"

definition check_members :: "restore_point list \<Rightarrow> unit result" where
  "check_members members =
     (case members of
        [] \<Rightarrow> Inr ()
      | first # _ \<Rightarrow>
          if rp_kind first \<noteq> FULL \<or> rp_sequence first \<noteq> 0
          then Inl (ValueError ''every populated chain must start with FULL at sequence 0'')
          else if map rp_sequence members \<noteq> map int [0..<length members]
          then Inl (ValueError ''backup chain sequences must be contiguous'')
          else if \<not> parents_ok members
          then Inl (ValueError ''restore point dependency chain is invalid'')
          else Inr ())"

text \<open>\<open>max(p.created_at for p in members)\<close>.\<close>

definition newest_created :: "restore_point list \<Rightarrow> string \<Rightarrow> int" where
  "newest_created points cid = Max (set (map rp_created_at (members_of points cid)))"

definition populated_chains :: "backup_chain list \<Rightarrow> restore_point list \<Rightarrow> backup_chain list" where
  "populated_chains catalog points =
     filter (\<lambda>c. case members_of points (bc_id c) of
                   [] \<Rightarrow> False | first # _ \<Rightarrow> rp_kind first = FULL) catalog"

definition newest_chains :: "backup_chain list \<Rightarrow> restore_point list \<Rightarrow> backup_chain list" where
  "newest_chains catalog points =
     sort_key_desc (\<lambda>c. newest_created points (bc_id c)) (populated_chains catalog points)"

definition ids_of :: "restore_point list \<Rightarrow> string set" where
  "ids_of points = set (map rp_id points)"

text \<open>One round of the loop that retains the dependency prefix of a chain's members.\<close>

definition close_prefix :: "restore_point list \<Rightarrow> string set \<Rightarrow> string set" where
  "close_prefix members retained =
     (let seqs = map rp_sequence (filter (\<lambda>p. rp_id p \<in> retained) members) in
      if seqs = [] then retained
      else retained \<union> ids_of (filter (\<lambda>p. rp_sequence p \<le> Max (set seqs)) members))"

definition retained_ids ::
  "backup_chain list \<Rightarrow> restore_point list \<Rightarrow> retention_policy \<Rightarrow> string set" where
  "retained_ids catalog points policy =
     (let newest_points = sort_key_desc rp_created_at points;
          has_incremental = list_ex (\<lambda>p. rp_kind p = INCREMENTAL) points;
          r0 = (if has_incremental
                then ids_of (slice_to (restore_points_to_retain policy) newest_points) else {});
          r1 = foldl (\<lambda>r c. if bc_status c = Chain_ACTIVE
                              then r \<union> ids_of (members_of points (bc_id c)) else r) r0 catalog;
          r2 = foldl (\<lambda>r c. r \<union> ids_of (members_of points (bc_id c))) r1
                 (slice_to (full_chains_to_retain policy) (newest_chains catalog points))
      in foldl (\<lambda>r cid. close_prefix (members_of points cid) r) r2 (map bc_id catalog))"

definition expired_chains ::
  "backup_chain list \<Rightarrow> restore_point list \<Rightarrow> string set \<Rightarrow> backup_chain list" where
  "expired_chains catalog points retained =
     filter (\<lambda>c. bc_status c = Chain_CLOSED \<and>
                  \<not> list_ex (\<lambda>p. rp_id p \<in> retained) (members_of points (bc_id c)))
       (newest_chains catalog points)"

definition object_of :: "backup_artifact \<Rightarrow> string" where
  "object_of a =
     (case ba_published_object_id a of
        Some q \<Rightarrow> if q = [] then ba_object_id a else q | None \<Rightarrow> ba_object_id a)"

definition selected_artifacts ::
  "backup_artifact list \<Rightarrow> string set \<Rightarrow> backup_artifact list" where
  "selected_artifacts artifacts expired_points =
     sort_key (\<lambda>a. (case ba_restore_point_id a of None \<Rightarrow> [] | Some i \<Rightarrow> i, ba_id a))
       (filter (\<lambda>a. \<exists>i \<in> set_option (ba_restore_point_id a). i \<in> expired_points) artifacts)"

definition retention_plan ::
  "backup_chain list \<Rightarrow> restore_point list \<Rightarrow> retention_policy \<Rightarrow> backup_artifact list option \<Rightarrow>
   retention_plan_result result" where
  "retention_plan catalog points policy artifacts =
     (if \<not> list_all (\<lambda>p. rp_chain_id p \<in> set (map bc_id catalog)) points
      then Inl (ValueError ''restore point has no supplied chain metadata'')
      else bnd (map_result (\<lambda>c. check_members (members_of points (bc_id c))) catalog) (\<lambda>_.
        let retained = retained_ids catalog points policy;
            expired = expired_chains catalog points retained;
            expired_points = concat (map (\<lambda>c. members_of points (bc_id c)) expired);
            legacy = concat (map (\<lambda>p. case rp_backup_object_id p of None \<Rightarrow> [] | Some i \<Rightarrow> [i])
                               expired_points);
            selected = selected_artifacts (case artifacts of None \<Rightarrow> [] | Some l \<Rightarrow> l)
                         (ids_of expired_points)
        in Inr \<lparr>rp_retained = retained, rp_expired_chains = map bc_id expired,
                rp_legacy_objects = legacy, rp_candidate_artifacts = map ba_id selected,
                rp_candidate_objects =
                  (if artifacts \<noteq> None then map object_of selected else legacy)\<rparr>))"

section \<open>Capacity reclaim\<close>

record full_chain_capacity =
  fc_chain_id :: string
  fc_status :: chain_status
  fc_created_at :: int
  fc_physical_bytes :: "int option"

definition make_full_chain_capacity ::
  "string \<Rightarrow> chain_status \<Rightarrow> int \<Rightarrow> int option \<Rightarrow> full_chain_capacity result" where
  "make_full_chain_capacity cid status created physical =
     (if cid = [] then Inl (ValueError ''chain_id must not be empty'')
      else if (case physical of Some n \<Rightarrow> n < 0 | None \<Rightarrow> False)
      then Inl (ValueError ''physical_bytes must be non-negative'')
      else Inr \<lparr>fc_chain_id = cid, fc_status = status, fc_created_at = created,
                fc_physical_bytes = physical\<rparr>)"

record capacity_reclaim_plan =
  cp_possible_now :: bool
  cp_reclaim_required :: bool
  cp_possible_after :: bool
  cp_required :: int
  cp_free :: int
  cp_reserve :: int
  cp_usable :: int
  cp_shortfall :: int
  cp_candidates :: "string list"
  cp_candidate_bytes :: int
  cp_selected :: "string list"
  cp_selected_bytes :: int
  cp_full_before :: int
  cp_protected_remaining :: int

definition size_of :: "full_chain_capacity \<Rightarrow> int" where
  "size_of c = (case fc_physical_bytes c of None \<Rightarrow> 0 | Some n \<Rightarrow> n)"

definition reclaim_candidates ::
  "full_chain_capacity list \<Rightarrow> retention_policy \<Rightarrow> full_chain_capacity list" where
  "reclaim_candidates catalog policy =
     take (nat (max 0 (int (length catalog) - minimum_full_chains policy)))
       (sort_key (\<lambda>c. (fc_created_at c, fc_chain_id c))
         (filter (\<lambda>c. fc_status c = Chain_CLOSED \<and> fc_physical_bytes c \<noteq> None) catalog))"

text \<open>The selection loop: chains are added oldest first until the shortfall is covered.\<close>

fun select_until ::
  "int \<Rightarrow> full_chain_capacity list \<Rightarrow> full_chain_capacity list \<Rightarrow> int \<Rightarrow> full_chain_capacity list \<times> int"
where
  "select_until shortfall [] selected reclaimed = (selected, reclaimed)"
| "select_until shortfall (c # cs) selected reclaimed =
     (let selected' = selected @ [c]; reclaimed' = reclaimed + size_of c in
      if reclaimed' \<ge> shortfall then (selected', reclaimed')
      else select_until shortfall cs selected' reclaimed')"

definition capacity_plan ::
  "full_chain_capacity list \<Rightarrow> int \<Rightarrow> int \<Rightarrow> int \<Rightarrow> retention_policy \<Rightarrow> capacity_reclaim_plan result"
where
  "capacity_plan catalog free reserve required policy =
     (if free < 0 then Inl (ValueError ''free_bytes must be non-negative'')
      else if reserve < 0 then Inl (ValueError ''reserve_bytes must be non-negative'')
      else if required < 0 then Inl (ValueError ''required_backup_bytes must be non-negative'')
      else if \<not> distinct (map fc_chain_id catalog)
      then Inl (ValueError ''full chain capacity facts contain duplicate chain IDs'')
      else
        let full_count = int (length catalog);
            shortfall = max 0 (required + reserve - free);
            usable = max 0 (free - reserve);
            candidates = reclaim_candidates catalog policy;
            base = \<lparr>cp_possible_now = False, cp_reclaim_required = True,
                    cp_possible_after = False, cp_required = required, cp_free = free,
                    cp_reserve = reserve, cp_usable = usable, cp_shortfall = shortfall,
                    cp_candidates = map fc_chain_id candidates,
                    cp_candidate_bytes = sum_list (map size_of candidates),
                    cp_selected = [], cp_selected_bytes = 0, cp_full_before = full_count,
                    cp_protected_remaining = full_count\<rparr>
        in if shortfall = 0
           then Inr (base\<lparr>cp_possible_now := True, cp_reclaim_required := False,
                          cp_possible_after := True\<rparr>)
           else if reclaim_mode policy = SAFE then Inr base
           else
             let (selected, reclaimed) = select_until shortfall candidates [] 0;
                 (selected, reclaimed) =
                   (if reclaimed < shortfall then ([], 0) else (selected, reclaimed))
             in Inr (base\<lparr>cp_possible_after := (selected \<noteq> []),
                          cp_selected := map fc_chain_id selected,
                          cp_selected_bytes := reclaimed,
                          cp_protected_remaining := full_count - int (length selected)\<rparr>))"

section \<open>Facts about retention\<close>

lemma members_of_set [simp]: "set (members_of points cid) = {p \<in> set points. rp_chain_id p = cid}"
  by (auto simp: members_of_def)

lemma ids_of_iff: "i \<in> ids_of points \<longleftrightarrow> (\<exists>p \<in> set points. rp_id p = i)"
  by (auto simp: ids_of_def)

lemma retention_plan_Inr:
  assumes "retention_plan catalog points policy artifacts = Inr p"
  shows "rp_retained p = retained_ids catalog points policy"
    and "rp_expired_chains p = map bc_id (expired_chains catalog points (retained_ids catalog points policy))"
    and "rp_candidate_artifacts p =
      map ba_id (selected_artifacts (case artifacts of None \<Rightarrow> [] | Some l \<Rightarrow> l)
        (ids_of (concat (map (\<lambda>c. members_of points (bc_id c))
          (expired_chains catalog points (retained_ids catalog points policy))))))"
    and "q \<in> set points \<Longrightarrow> \<exists>c \<in> set catalog. bc_id c = rp_chain_id q"
    and "c \<in> set catalog \<Longrightarrow> check_members (members_of points (bc_id c)) = Inr ()"
proof -
  from assms show "rp_retained p = retained_ids catalog points policy"
    "rp_expired_chains p = map bc_id (expired_chains catalog points (retained_ids catalog points policy))"
    "rp_candidate_artifacts p =
      map ba_id (selected_artifacts (case artifacts of None \<Rightarrow> [] | Some l \<Rightarrow> l)
        (ids_of (concat (map (\<lambda>c. members_of points (bc_id c))
          (expired_chains catalog points (retained_ids catalog points policy))))))"
    unfolding retention_plan_def by (auto simp: bnd_eq_Inr Let_def split: if_splits)
  from assms show "q \<in> set points \<Longrightarrow> \<exists>c \<in> set catalog. bc_id c = rp_chain_id q"
    unfolding retention_plan_def by (force simp: list_all_iff split: if_splits)
  from assms obtain us where "map_result (\<lambda>c. check_members (members_of points (bc_id c))) catalog = Inr us"
    unfolding retention_plan_def by (auto simp: bnd_eq_Inr split: if_splits)
  then show "c \<in> set catalog \<Longrightarrow> check_members (members_of points (bc_id c)) = Inr ()"
    by (auto simp: map_result_Inr list_all2_conv_all_nth in_set_conv_nth)
qed

lemma close_prefix_grows: "r \<subseteq> close_prefix members r"
  by (auto simp: close_prefix_def Let_def)

text \<open>The four stages of \<open>retained_ids\<close> only add, so each stage's ids are in the result.\<close>

lemma retained_ids_stages:
  shows "list_ex (\<lambda>p. rp_kind p = INCREMENTAL) points \<Longrightarrow>
      ids_of (slice_to (restore_points_to_retain policy) (sort_key_desc rp_created_at points))
        \<subseteq> retained_ids catalog points policy"
    and "c \<in> set catalog \<Longrightarrow> bc_status c = Chain_ACTIVE \<Longrightarrow>
      ids_of (members_of points (bc_id c)) \<subseteq> retained_ids catalog points policy"
    and "c \<in> set (slice_to (full_chains_to_retain policy) (newest_chains catalog points)) \<Longrightarrow>
      ids_of (members_of points (bc_id c)) \<subseteq> retained_ids catalog points policy"
proof -
  let ?f1 = "\<lambda>r c. if bc_status c = Chain_ACTIVE then r \<union> ids_of (members_of points (bc_id c)) else r"
  let ?f2 = "\<lambda>r c. r \<union> ids_of (members_of points (bc_id c))"
  let ?f3 = "\<lambda>r cid. close_prefix (members_of points cid) r"
  have g1: "r \<subseteq> foldl ?f1 r cs" for r cs by (rule foldl_grows) auto
  have g2: "r \<subseteq> foldl ?f2 r cs" for r cs by (rule foldl_grows) auto
  have g3: "r \<subseteq> foldl ?f3 r cs" for r cs by (rule foldl_grows) (rule close_prefix_grows)
  show "list_ex (\<lambda>p. rp_kind p = INCREMENTAL) points \<Longrightarrow>
      ids_of (slice_to (restore_points_to_retain policy) (sort_key_desc rp_created_at points))
        \<subseteq> retained_ids catalog points policy"
    unfolding retained_ids_def Let_def
    by (simp, rule subset_trans [OF g1 subset_trans [OF g2 g3]])
  show "c \<in> set catalog \<Longrightarrow> bc_status c = Chain_ACTIVE \<Longrightarrow>
      ids_of (members_of points (bc_id c)) \<subseteq> retained_ids catalog points policy"
    unfolding retained_ids_def Let_def
    by (rule subset_trans [OF foldl_covers [of ?f1 c] subset_trans [OF g2 g3]]) auto
  show "c \<in> set (slice_to (full_chains_to_retain policy) (newest_chains catalog points)) \<Longrightarrow>
      ids_of (members_of points (bc_id c)) \<subseteq> retained_ids catalog points policy"
    unfolding retained_ids_def Let_def
    by (rule subset_trans [OF foldl_covers [of ?f2 c] g3]) auto
qed

definition prefix_closed :: "restore_point list \<Rightarrow> string set \<Rightarrow> bool" where
  "prefix_closed members r \<longleftrightarrow>
     (\<forall>p \<in> set members. \<forall>q \<in> set members.
        rp_id p \<in> r \<and> rp_sequence q \<le> rp_sequence p \<longrightarrow> rp_id q \<in> r)"

lemma close_prefix_iff:
  "i \<in> close_prefix members r \<longleftrightarrow>
     i \<in> r \<or> (\<exists>p \<in> set members. \<exists>q \<in> set members.
       rp_id p \<in> r \<and> rp_sequence q \<le> rp_sequence p \<and> rp_id q = i)"
proof (cases "\<exists>p \<in> set members. rp_id p \<in> r")
  case False
  then show ?thesis by (auto simp: close_prefix_def Let_def filter_empty_conv)
next
  case True
  let ?hits = "filter (\<lambda>p. rp_id p \<in> r) members"
  from True have ne: "?hits \<noteq> []" by (simp add: filter_empty_conv)
  have "n \<le> Max (rp_sequence ` set ?hits) \<longleftrightarrow> (\<exists>p \<in> set ?hits. n \<le> rp_sequence p)" for n
    using True by (subst Max_ge_iff) auto
  with ne show ?thesis by (auto simp: close_prefix_def Let_def ids_of_iff)
qed

lemma close_prefix_closed:
  assumes "inj_on rp_id (set members)"
  shows "prefix_closed members (close_prefix members r)"
  unfolding prefix_closed_def
proof (intro ballI impI, elim conjE)
  fix p q
  assume pq: "p \<in> set members" "q \<in> set members" and seq: "rp_sequence q \<le> rp_sequence p"
    and "rp_id p \<in> close_prefix members r"
  then obtain e where "e \<in> set members" "rp_id e \<in> r" "rp_sequence p \<le> rp_sequence e"
    unfolding close_prefix_iff using assms pq(1) by (metis inj_onD order_refl)
  moreover from this seq have "rp_sequence q \<le> rp_sequence e" by simp
  ultimately show "rp_id q \<in> close_prefix members r"
    unfolding close_prefix_iff using pq(2) by blast
qed

lemma close_prefix_other:
  assumes inj: "inj_on rp_id (set points)" and closed: "prefix_closed (members_of points cid) r"
    and other: "cid' \<noteq> cid"
  shows "prefix_closed (members_of points cid) (close_prefix (members_of points cid') r)"
  unfolding prefix_closed_def
proof (intro ballI impI, elim conjE)
  fix p q
  assume p: "p \<in> set (members_of points cid)" and q: "q \<in> set (members_of points cid)"
    and seq: "rp_sequence q \<le> rp_sequence p"
    and in_r: "rp_id p \<in> close_prefix (members_of points cid') r"
  have "e \<noteq> p" if "e \<in> set (members_of points cid')" for e using that p other by auto
  then have "rp_id e \<noteq> rp_id p" if "e \<in> set (members_of points cid')" for e
    using that p inj by (auto dest: inj_onD)
  with in_r have "rp_id p \<in> r" unfolding close_prefix_iff by blast
  with closed p q seq have "rp_id q \<in> r" unfolding prefix_closed_def by blast
  then show "rp_id q \<in> close_prefix (members_of points cid') r" by (simp add: close_prefix_iff)
qed

lemma retained_ids_prefix_closed:
  assumes inj: "inj_on rp_id (set points)" and cid: "cid \<in> set (map bc_id catalog)"
  shows "prefix_closed (members_of points cid) (retained_ids catalog points policy)"
proof -
  have closed: "prefix_closed (members_of points cid) (close_prefix (members_of points cid) r)" for r
    using inj by (intro close_prefix_closed) (auto intro: inj_on_subset)
  show ?thesis
    unfolding retained_ids_def Let_def
    by (rule foldl_inv_after [OF cid])
      (use closed close_prefix_other [OF inj] in \<open>metis\<close>)+
qed

lemma check_members_parent:
  assumes "check_members members = Inr ()" and "p \<in> set members" and "rp_parent p = Some pid"
  shows "\<exists>q \<in> set members. rp_id q = pid \<and> rp_sequence q \<le> rp_sequence p"
proof -
  from assms have seq: "map rp_sequence members = map int [0..<length members]"
    and par: "map rp_parent members = take (length members) (None # map (Some \<circ> rp_id) members)"
    by (auto simp: check_members_def parents_ok_def split: list.splits if_splits)
  from assms(2) obtain i where i: "i < length members" "p = members ! i"
    by (auto simp: in_set_conv_nth)
  from arg_cong [OF par, of "\<lambda>l. l ! i"] i assms(3)
  have "(None # map (Some \<circ> rp_id) members) ! i = Some pid" by simp
  then obtain j where j: "i = Suc j" "rp_id (members ! j) = pid" using i(1) by (cases i) auto
  from arg_cong [OF seq, of "\<lambda>l. l ! i"] arg_cong [OF seq, of "\<lambda>l. l ! j"] i j
  have "rp_sequence (members ! j) \<le> rp_sequence p" by simp
  with i j show ?thesis by (metis Suc_lessD nth_mem)
qed

lemma newest_chains_set [simp]:
  "set (newest_chains catalog points) = set (populated_chains catalog points)"
  by (simp add: newest_chains_def)

lemma populated_member:
  "c \<in> set (populated_chains catalog points) \<Longrightarrow> \<exists>p. p \<in> set (members_of points (bc_id c))"
  unfolding populated_chains_def
  by (cases "members_of points (bc_id c)") (auto simp del: members_of_set)

section \<open>Properties of retention\<close>

text \<open>C3: an expired chain is a CLOSED chain of the catalog none of whose restore points is
  retained, and every candidate artifact belongs to a restore point of an expired chain, so
  that nothing of a retained point is ever proposed for deletion.\<close>

theorem retention_expired_safe:
  assumes "retention_plan catalog points policy artifacts = Inr p"
  shows "(\<forall>cid \<in> set (rp_expired_chains p).
      (\<exists>c \<in> set catalog. bc_id c = cid \<and> bc_status c = Chain_CLOSED) \<and>
      (\<forall>q \<in> set points. rp_chain_id q = cid \<longrightarrow> rp_id q \<notin> rp_retained p)) \<and>
    (\<forall>aid \<in> set (rp_candidate_artifacts p). \<exists>a l i. artifacts = Some l \<and> a \<in> set l \<and>
      ba_id a = aid \<and> ba_restore_point_id a = Some i \<and> i \<notin> rp_retained p \<and>
      (\<exists>q \<in> set points. rp_id q = i \<and> rp_chain_id q \<in> set (rp_expired_chains p)))"
proof -
  note plan = retention_plan_Inr [OF assms]
  have expired: "c \<in> set (expired_chains catalog points (rp_retained p)) \<Longrightarrow>
      c \<in> set catalog \<and> bc_status c = Chain_CLOSED \<and>
      (\<forall>q \<in> set points. rp_chain_id q = bc_id c \<longrightarrow> rp_id q \<notin> rp_retained p)" for c
    by (auto simp: expired_chains_def populated_chains_def list_ex_iff)
  show ?thesis
    using expired
    by (fastforce simp: plan(1) [symmetric] plan(2,3) selected_artifacts_def ids_of_iff
        split: option.splits)
qed

text \<open>an ACTIVE chain is never touched: all its restore points are retained, and with
  distinct chain ids it is not among the expired ones.\<close>

theorem retention_active_protected:
  assumes "retention_plan catalog points policy artifacts = Inr p"
    and "c \<in> set catalog" and "bc_status c = Chain_ACTIVE" and "distinct (map bc_id catalog)"
  shows "(\<forall>q \<in> set points. rp_chain_id q = bc_id c \<longrightarrow> rp_id q \<in> rp_retained p) \<and>
    bc_id c \<notin> set (rp_expired_chains p)"
proof -
  note plan = retention_plan_Inr [OF assms(1)]
  from retained_ids_stages(2) [OF assms(2,3)]
  have "\<forall>q \<in> set points. rp_chain_id q = bc_id c \<longrightarrow> rp_id q \<in> rp_retained p"
    unfolding plan(1) by (auto simp: ids_of_def)
  moreover have "e = c" if "e \<in> set catalog" "bc_id e = bc_id c" for e
    using that assms(2,4) by (auto simp: distinct_map dest: inj_onD)
  ultimately show ?thesis
    using assms(3) by (fastforce simp: plan(2) expired_chains_def populated_chains_def)
qed

text \<open>C5: the floor of normal retention. The newest \<open>full_chains_to_retain\<close> populated chains
  (or all, when there are fewer) survive with all their restore points, and none of the
  expired chains is newer than one of them.\<close>

theorem retention_keeps_newest_fulls:
  assumes "retention_plan catalog points policy artifacts = Inr p" and "retention_policy_wf policy"
  shows "\<exists>kept. mset kept \<subseteq># mset (populated_chains catalog points) \<and>
    length kept = min (nat (full_chains_to_retain policy)) (length (populated_chains catalog points)) \<and>
    (\<forall>c \<in> set kept. bc_id c \<notin> set (rp_expired_chains p) \<and>
       (\<forall>q \<in> set points. rp_chain_id q = bc_id c \<longrightarrow> rp_id q \<in> rp_retained p) \<and>
       (\<forall>cid \<in> set (rp_expired_chains p). newest_created points cid \<le> newest_created points (bc_id c)))"
proof -
  note plan = retention_plan_Inr [OF assms(1)]
  let ?n = "nat (full_chains_to_retain policy)"
  let ?all = "newest_chains catalog points"
  from assms(2) have sl: "slice_to (full_chains_to_retain policy) ?all = take ?n ?all"
    by (simp add: slice_to_def retention_policy_wf_def)
  have kept: "\<forall>q \<in> set points. rp_chain_id q = bc_id c \<longrightarrow> rp_id q \<in> rp_retained p"
    if "c \<in> set (take ?n ?all)" for c
    using retained_ids_stages(3) [of c policy catalog points, unfolded sl, OF that]
    unfolding plan(1) by (auto simp: ids_of_def)
  have not_expired: "bc_id c \<notin> set (rp_expired_chains p)" if c: "c \<in> set (take ?n ?all)" for c
  proof -
    from in_set_takeD [OF c] populated_member obtain q where
      "q \<in> set points" "rp_chain_id q = bc_id c" by fastforce
    with kept [OF c] show ?thesis
      by (fastforce simp: plan(1) [symmetric] plan(2) expired_chains_def list_ex_iff)
  qed
  have older: "newest_created points cid \<le> newest_created points (bc_id c)"
    if c: "c \<in> set (take ?n ?all)" and e: "cid \<in> set (rp_expired_chains p)" for c cid
  proof -
    from e obtain x where x: "x \<in> set ?all" "bc_id x = cid"
      by (auto simp: plan(2) expired_chains_def simp del: newest_chains_set)
    with not_expired e have "x \<notin> set (take ?n ?all)" by blast
    with x(1) have "x \<in> set (drop ?n ?all)" by (rule in_set_take_or_drop)
    with c show ?thesis unfolding newest_chains_def x(2) [symmetric] by (rule take_drop_desc)
  qed
  have "mset (take ?n ?all) \<subseteq># mset ?all"
    by (metis append_take_drop_id mset_append mset_subset_eq_add_left)
  then have "mset (take ?n ?all) \<subseteq># mset (populated_chains catalog points)"
    by (simp add: newest_chains_def)
  moreover have "length (take ?n ?all) = min ?n (length (populated_chains catalog points))"
    by (simp add: newest_chains_def min.commute)
  ultimately show ?thesis using kept not_expired older by blast
qed

text \<open>C4: retention is dependency-closed: with distinct restore point ids, whatever a
  retained point depends on - its parent, and every earlier point of its chain - is
  retained as well.\<close>

theorem retention_dependency_closed:
  assumes "retention_plan catalog points policy artifacts = Inr p" and "inj_on rp_id (set points)"
    and "q \<in> set points" and "rp_id q \<in> rp_retained p"
  shows "(\<forall>pid. rp_parent q = Some pid \<longrightarrow> pid \<in> rp_retained p) \<and>
    (\<forall>e \<in> set points. rp_chain_id e = rp_chain_id q \<and> rp_sequence e \<le> rp_sequence q \<longrightarrow>
       rp_id e \<in> rp_retained p)"
proof -
  note plan = retention_plan_Inr [OF assms(1)]
  from plan(4) [OF assms(3)] obtain c where c: "c \<in> set catalog" "bc_id c = rp_chain_id q" by blast
  then have "rp_chain_id q \<in> set (map bc_id catalog)" by force
  from retained_ids_prefix_closed [OF assms(2) this] assms(3,4)
  have closed: "\<forall>e \<in> set points. rp_chain_id e = rp_chain_id q \<and> rp_sequence e \<le> rp_sequence q \<longrightarrow>
      rp_id e \<in> rp_retained p"
    unfolding prefix_closed_def plan(1) by simp
  have "pid \<in> rp_retained p" if "rp_parent q = Some pid" for pid
  proof -
    from assms(3) c(2) have "q \<in> set (members_of points (bc_id c))" by simp
    from check_members_parent [OF plan(5) [OF c(1)] this that] closed c(2) show ?thesis by auto
  qed
  with closed show ?thesis by blast
qed

text \<open>in a catalog with incremental points, a restore point with at most
  \<open>restore_points_to_retain\<close> points as new as itself is retained.\<close>

theorem retention_newest_points:
  assumes "retention_plan catalog points policy artifacts = Inr p" and "retention_policy_wf policy"
    and "list_ex (\<lambda>q. rp_kind q = INCREMENTAL) points" and "q \<in> set points"
    and "int (length (filter (\<lambda>e. rp_created_at q \<le> rp_created_at e) points))
      \<le> restore_points_to_retain policy"
  shows "rp_id q \<in> rp_retained p"
proof -
  let ?n = "nat (restore_points_to_retain policy)"
  let ?l = "sort_key_desc rp_created_at points"
  have "q \<in> set (take ?n ?l)"
  proof (rule ccontr)
    assume "q \<notin> set (take ?n ?l)"
    moreover have "q \<in> set ?l" using assms(4) by simp
    ultimately have q: "q \<in> set (drop ?n ?l)" by (rule in_set_take_or_drop [rotated])
    let ?P = "\<lambda>e. rp_created_at q \<le> rp_created_at e"
    have "filter ?P (take ?n ?l) = take ?n ?l" using take_drop_desc [OF _ q] by simp
    moreover have "?n < length ?l" using q by (metis drop_all emptyE list.set(1) not_less)
    moreover have "filter ?P (drop ?n ?l) \<noteq> []" using q by (auto simp: filter_empty_conv)
    ultimately have "?n < length (filter ?P (take ?n ?l @ drop ?n ?l))"
      by (simp del: append_take_drop_id)
    also have "\<dots> = length (filter ?P points)"
      by (simp only: append_take_drop_id) (metis mset_filter mset_sort_key_desc size_mset)
    finally show False using assms(5) by simp
  qed
  with assms(2) retained_ids_stages(1) [OF assms(3), of policy catalog] show ?thesis
    by (auto simp: retention_plan_Inr(1) [OF assms(1)] slice_to_def retention_policy_wf_def ids_of_def)
qed

section \<open>Properties of capacity reclaim\<close>

abbreviation total_size :: "full_chain_capacity list \<Rightarrow> int" where
  "total_size cs \<equiv> sum_list (map size_of cs)"

lemma select_until_prefix:
  "\<exists>k. select_until s cs sel r = (sel @ take k cs, r + total_size (take k cs)) \<and> k \<le> length cs \<and>
     (\<forall>j. 0 < j \<and> j < k \<longrightarrow> r + total_size (take j cs) < s) \<and>
     (k = length cs \<or> s \<le> r + total_size (take k cs))"
proof (induction s cs sel r rule: select_until.induct)
  case (2 s c cs sel r)
  show ?case
  proof (cases "s \<le> r + size_of c")
    case True
    then show ?thesis by (intro exI [of _ 1]) simp
  next
    case False
    then obtain k where k: "select_until s cs (sel @ [c]) (r + size_of c) =
        ((sel @ [c]) @ take k cs, r + size_of c + total_size (take k cs))" "k \<le> length cs"
      "\<forall>j. 0 < j \<and> j < k \<longrightarrow> r + size_of c + total_size (take j cs) < s"
      "k = length cs \<or> s \<le> r + size_of c + total_size (take k cs)"
      using 2 [OF refl refl] by blast
    have "r + total_size (take j (c # cs)) < s" if "0 < j" "j < Suc k" for j
    proof (cases j)
      case (Suc i)
      with that False k(3) show ?thesis by (cases "i = 0") (simp_all add: add.assoc)
    qed (use that in simp)
    with False k show ?thesis by (intro exI [of _ "Suc k"]) (simp add: Let_def add.assoc)
  qed
qed simp

lemma total_size_take:
  assumes "\<forall>c \<in> set cs. 0 \<le> size_of c"
  shows "total_size (take k cs) \<le> total_size cs"
proof -
  have "0 \<le> total_size (drop k cs)"
    using assms by (intro sum_list_nonneg) (auto dest: in_set_dropD)
  moreover have "total_size cs = total_size (take k cs) + total_size (drop k cs)"
    by (metis append_take_drop_id map_append sum_list_append)
  ultimately show ?thesis by simp
qed

text \<open>The chains a plan selects: none, or the shortest prefix of the candidates that suffices.\<close>

definition selection ::
  "int \<Rightarrow> space_reclaim_mode \<Rightarrow> full_chain_capacity list \<Rightarrow> full_chain_capacity list" where
  "selection short mode cands =
     (if short \<le> 0 \<or> mode = SAFE then []
      else let (sel, r) = select_until short cands [] 0 in if r < short then [] else sel)"

lemma selection_cases:
  "selection short mode cands = [] \<and> (short \<le> 0 \<or> mode = SAFE \<or> total_size cands < short) \<or>
   0 < short \<and> mode = SPACE_OPTIMIZED \<and>
     (\<exists>k. 0 < k \<and> k \<le> length cands \<and> selection short mode cands = take k cands \<and>
       short \<le> total_size (take k cands) \<and> (\<forall>j < k. total_size (take j cands) < short))"
proof (cases "short \<le> 0 \<or> mode = SAFE")
  case False
  then have active: "0 < short" "mode = SPACE_OPTIMIZED" by (cases mode; simp)+
  obtain k where k: "select_until short cands [] 0 = (take k cands, total_size (take k cands))"
    "k \<le> length cands" "\<And>j. 0 < j \<Longrightarrow> j < k \<Longrightarrow> total_size (take j cands) < short"
    "k = length cands \<or> short \<le> total_size (take k cands)"
    using select_until_prefix [of short cands "[]" 0] by auto
  show ?thesis
  proof (cases "total_size (take k cands) < short")
    case True
    with k False show ?thesis by (auto simp: selection_def)
  next
    case enough: False
    with active(1) have "0 < k" by (cases k) simp_all
    moreover have "total_size (take j cands) < short" if "j < k" for j
      using k(3) [of j] that active(1) by (cases j) simp_all
    ultimately show ?thesis using k(1,2) enough False active by (auto simp: selection_def)
  qed
qed (auto simp: selection_def)

lemma capacity_plan_Inr:
  assumes "capacity_plan catalog free reserve required policy = Inr p"
  defines "short \<equiv> required + reserve - free" and "cands \<equiv> reclaim_candidates catalog policy"
  defines "sel \<equiv> selection short (reclaim_mode policy) cands"
  shows "cp_possible_now p = (short \<le> 0)" and "cp_candidates p = map fc_chain_id cands"
    and "cp_candidate_bytes p = total_size cands" and "cp_selected p = map fc_chain_id sel"
    and "cp_selected_bytes p = total_size sel"
    and "cp_possible_after p = (short \<le> 0 \<or> sel \<noteq> [])"
    and "cp_protected_remaining p = int (length catalog) - int (length sel)"
    and "distinct (map fc_chain_id catalog)"
proof -
  obtain s r where su: "select_until short cands [] 0 = (s, r)" by fastforce
  moreover from this select_until_prefix [of short cands "[]" 0] have "r = total_size s" by auto
  ultimately have sel: "sel = (if short \<le> 0 \<or> reclaim_mode policy = SAFE then []
      else if r < short then [] else s)" "r = total_size s"
    by (simp_all add: sel_def selection_def)
  note unf = assms(1) [unfolded capacity_plan_def Let_def, folded cands_def, folded short_def]
  have "distinct (map fc_chain_id catalog)" using unf by (auto split: if_splits)
  moreover have "p = \<lparr>cp_possible_now = (short \<le> 0), cp_reclaim_required = (0 < short),
      cp_possible_after = (short \<le> 0 \<or> sel \<noteq> []), cp_required = required, cp_free = free,
      cp_reserve = reserve, cp_usable = max 0 (free - reserve), cp_shortfall = max 0 short,
      cp_candidates = map fc_chain_id cands, cp_candidate_bytes = total_size cands,
      cp_selected = map fc_chain_id sel, cp_selected_bytes = total_size sel,
      cp_full_before = int (length catalog),
      cp_protected_remaining = int (length catalog) - int (length sel)\<rparr>"
    using unf su by (cases "short \<le> 0"; cases "reclaim_mode policy = SAFE"; cases "r < short")
      (simp_all add: sel max_def split: if_splits)
  ultimately show "cp_possible_now p = (short \<le> 0)" "cp_candidates p = map fc_chain_id cands"
    "cp_candidate_bytes p = total_size cands" "cp_selected p = map fc_chain_id sel"
    "cp_selected_bytes p = total_size sel" "cp_possible_after p = (short \<le> 0 \<or> sel \<noteq> [])"
    "cp_protected_remaining p = int (length catalog) - int (length sel)"
    "distinct (map fc_chain_id catalog)"
    by simp_all
qed

lemma reclaim_candidates_set:
  "c \<in> set (take k (reclaim_candidates catalog policy)) \<Longrightarrow>
     c \<in> set catalog \<and> fc_status c = Chain_CLOSED \<and> fc_physical_bytes c \<noteq> None"
  by (auto simp: reclaim_candidates_def dest!: in_set_takeD)

lemma reclaim_candidates_length:
  "1 \<le> minimum_full_chains policy \<Longrightarrow> reclaim_candidates catalog policy \<noteq> [] \<Longrightarrow>
     int (length (reclaim_candidates catalog policy)) \<le> int (length catalog) - minimum_full_chains policy"
  by (auto simp: reclaim_candidates_def max_def split: if_splits)

text \<open>The age order in which chains are given up.\<close>

definition older_eq :: "full_chain_capacity \<Rightarrow> full_chain_capacity \<Rightarrow> bool" where
  "older_eq c d \<longleftrightarrow> (fc_created_at c, fc_chain_id c) \<le> (fc_created_at d, fc_chain_id d)"

lemma candidates_oldest_first:
  assumes c: "c \<in> set (take k (reclaim_candidates catalog policy))"
    and d: "d \<in> set catalog" "fc_status d = Chain_CLOSED" "fc_physical_bytes d \<noteq> None"
      "d \<notin> set (take k (reclaim_candidates catalog policy))"
  shows "older_eq c d"
proof -
  let ?key = "\<lambda>c. (fc_created_at c, fc_chain_id c)"
  let ?elig = "filter (\<lambda>c. fc_status c = Chain_CLOSED \<and> fc_physical_bytes c \<noteq> None) catalog"
  obtain n where n: "take k (reclaim_candidates catalog policy) = take n (sort_key ?key ?elig)"
    unfolding reclaim_candidates_def take_take by blast
  have "d \<in> set (sort_key ?key ?elig)" using d by simp
  then have "d \<in> set (drop n (sort_key ?key ?elig))"
    using d(4) unfolding n by (rule in_set_take_or_drop)
  with c have "?key c \<le> ?key d" unfolding n by (rule take_drop_sorted)
  then show ?thesis by (simp add: older_eq_def)
qed

text \<open>C6: what capacity reclaim selects may be deleted and suffices. The selected chains are
  CLOSED with known size, they go oldest first without skipping, deleting them makes room for
  the backup and the reserve while deleting one fewer would not, and at least
  \<open>minimum_full_chains\<close> chains remain.\<close>

theorem capacity_selection_safe:
  assumes "capacity_plan catalog free reserve required policy = Inr p"
    and "retention_policy_wf policy" and "cp_selected p \<noteq> []"
  shows "\<exists>sel. cp_selected p = map fc_chain_id sel \<and> set sel \<subseteq> set catalog \<and>
    (\<forall>c \<in> set sel. fc_status c = Chain_CLOSED \<and> fc_physical_bytes c \<noteq> None) \<and>
    (\<forall>c \<in> set sel. \<forall>d \<in> set catalog - set sel.
       fc_status d = Chain_CLOSED \<and> fc_physical_bytes d \<noteq> None \<longrightarrow> older_eq c d) \<and>
    required + reserve \<le> free + total_size sel \<and>
    free + total_size (butlast sel) < required + reserve \<and>
    minimum_full_chains policy \<le> int (length catalog) - int (length sel) \<and>
    cp_protected_remaining p = int (length catalog) - int (length sel)"
proof -
  note plan = capacity_plan_Inr [OF assms(1)]
  let ?cands = "reclaim_candidates catalog policy"
  define sel where "sel = selection (required + reserve - free) (reclaim_mode policy) ?cands"
  from assms(3) have "sel \<noteq> []" by (simp add: plan(4) sel_def)
  then obtain k where k: "0 < k" "k \<le> length ?cands" "sel = take k ?cands"
    "required + reserve - free \<le> total_size (take k ?cands)"
    "\<And>j. j < k \<Longrightarrow> total_size (take j ?cands) < required + reserve - free"
    using selection_cases [of "required + reserve - free" "reclaim_mode policy" ?cands]
    unfolding sel_def by blast
  have "butlast sel = take (k - 1) ?cands" using k(2,3) by (simp add: butlast_take)
  with k(5) [of "k - 1"] k(1) have "total_size (butlast sel) < required + reserve - free" by simp
  moreover have "minimum_full_chains policy \<le> int (length catalog) - int (length sel)"
    using reclaim_candidates_length [of policy catalog] assms(2) k(1-3)
    by (cases "?cands = []") (auto simp: retention_policy_wf_def)
  moreover have "older_eq c d" if "c \<in> set sel" "d \<in> set catalog - set sel"
      "fc_status d = Chain_CLOSED \<and> fc_physical_bytes d \<noteq> None" for c d
    using candidates_oldest_first [of c k catalog policy d] that k(3) by simp
  ultimately show ?thesis
    using plan(4,7) k(3,4) reclaim_candidates_set [of _ k catalog policy]
    by (intro exI [of _ sel]) (auto simp: sel_def [symmetric])
qed

text \<open>the verdict is exact. A backup is declared possible if and only if it fits now, or
  the policy is SPACE_OPTIMIZED and the candidates together cover the shortfall; a SAFE
  policy never selects anything, and nothing is selected in vain.\<close>

theorem capacity_verdict_exact:
  assumes "capacity_plan catalog free reserve required policy = Inr p"
    and "\<forall>c \<in> set catalog. \<forall>n. fc_physical_bytes c = Some n \<longrightarrow> 0 \<le> n"
  shows "(cp_possible_now p \<longleftrightarrow> required + reserve \<le> free) \<and>
    (cp_possible_after p \<longleftrightarrow> required + reserve \<le> free \<or>
       reclaim_mode policy = SPACE_OPTIMIZED \<and> required + reserve \<le> free + cp_candidate_bytes p) \<and>
    (reclaim_mode policy = SAFE \<or> required + reserve \<le> free \<longrightarrow> cp_selected p = []) \<and>
    (cp_selected p = [] \<longrightarrow> cp_selected_bytes p = 0 \<and>
       cp_protected_remaining p = int (length catalog))"
proof -
  note plan = capacity_plan_Inr [OF assms(1)]
  let ?cands = "reclaim_candidates catalog policy"
  have "\<forall>c \<in> set ?cands. 0 \<le> size_of c"
    using assms(2) reclaim_candidates_set [of _ "length ?cands" catalog policy]
    by (fastforce simp: size_of_def split: option.splits)
  note sizes = total_size_take [OF this]
  from selection_cases [of "required + reserve - free" "reclaim_mode policy" ?cands]
  show ?thesis
  proof (elim disjE conjE exE)
    fix k
    assume "selection (required + reserve - free) (reclaim_mode policy) ?cands = take k ?cands"
      and "0 < k" and "k \<le> length ?cands" and "0 < required + reserve - free"
      and "required + reserve - free \<le> total_size (take k ?cands)"
      and "reclaim_mode policy = SPACE_OPTIMIZED"
    with sizes [of k] plan show ?thesis by auto
  qed (use plan in \<open>auto, (cases "reclaim_mode policy"; simp)?\<close>)
qed

section \<open>Examples\<close>

definition example_chain :: "string \<Rightarrow> chain_status \<Rightarrow> int \<Rightarrow> backup_chain" where
  "example_chain cid status created =
     \<lparr>bc_id = cid, bc_vm_id = ''vm'', bc_status = status, bc_created_at = created,
      bc_closed_at = None\<rparr>"

definition example_point ::
  "string \<Rightarrow> string \<Rightarrow> backup_kind \<Rightarrow> int \<Rightarrow> string option \<Rightarrow> int \<Rightarrow> restore_point" where
  "example_point pid cid kind seq parent created =
     \<lparr>rp_id = pid, rp_chain_id = cid, rp_job_run_id = ''run'', rp_kind = kind, rp_sequence = seq,
      rp_backup_object_id = None, rp_bundle_object_id = Some (pid @ ''-bundle''), rp_parent = parent,
      rp_checkpoint_name = None, rp_created_at = created\<rparr>"

definition example_catalog :: "backup_chain list" where
  "example_catalog =
     [example_chain ''a'' Chain_CLOSED 1, example_chain ''b'' Chain_CLOSED 3,
      example_chain ''c'' Chain_ACTIVE 5]"

definition example_points :: "restore_point list" where
  "example_points =
     [example_point ''a0'' ''a'' FULL 0 None 1, example_point ''a1'' ''a'' INCREMENTAL 1 (Some ''a0'') 2,
      example_point ''b0'' ''b'' FULL 0 None 3, example_point ''b1'' ''b'' INCREMENTAL 1 (Some ''b0'') 4,
      example_point ''c0'' ''c'' FULL 0 None 5]"

definition example_policy :: retention_policy where
  "example_policy =
     \<lparr>restore_points_to_retain = 2, minimum_full_chains = 1, full_chains_to_retain = 1,
      reclaim_mode = SPACE_OPTIMIZED, backup_size_margin_percent = 10\<rparr>"

definition example_artifact :: backup_artifact where
  "example_artifact =
     \<lparr>ba_id = ''art'', ba_job_run_id = ''run'', ba_kind = MANIFEST, ba_object_id = ''obj'',
      ba_published_object_id = None, ba_state = Art_PUBLISHED, ba_disk_target = None,
      ba_restore_point_id = Some ''a0'', ba_format = None, ba_size_bytes = None,
      ba_planned_capacity = None\<rparr>"

definition example_plan :: "retention_plan_result result" where
  "example_plan = retention_plan example_catalog example_points example_policy (Some [example_artifact])"

lemma example_plan_value:
  "\<not> isl example_plan" "rp_expired_chains (projr example_plan) = [''a'']"
  "rp_retained (projr example_plan) = {''b0'', ''b1'', ''c0''}"
  "rp_candidate_artifacts (projr example_plan) = [''art'']"
  by code_simp+

lemma example_plan_ok:
  "retention_plan example_catalog example_points example_policy (Some [example_artifact])
     = Inr (projr example_plan)"
  using Inr_projr [OF example_plan_value(1)] by (simp add: example_plan_def)

lemma example_policy_wf: "retention_policy_wf example_policy"
  by code_simp

lemma example_ids: "inj_on rp_id (set example_points)" "distinct (map bc_id example_catalog)"
proof -
  have "distinct (map rp_id example_points)" by code_simp
  then show "inj_on rp_id (set example_points)" by (simp only: distinct_map)
  show "distinct (map bc_id example_catalog)" by code_simp
qed

theorem retention_expired_safe_witness:
  "''a'' \<in> set (rp_expired_chains (projr example_plan)) \<and>
   (\<exists>c \<in> set example_catalog. bc_id c = ''a'' \<and> bc_status c = Chain_CLOSED)"
  using retention_expired_safe [OF example_plan_ok] example_plan_value(2) by simp

theorem retention_active_protected_witness: "''c'' \<notin> set (rp_expired_chains (projr example_plan))"
proof -
  have "example_chain ''c'' Chain_ACTIVE 5 \<in> set example_catalog"
    "bc_status (example_chain ''c'' Chain_ACTIVE 5) = Chain_ACTIVE"
    "bc_id (example_chain ''c'' Chain_ACTIVE 5) = ''c''"
    by (simp_all add: example_catalog_def example_chain_def)
  with retention_active_protected [OF example_plan_ok this(1,2) example_ids(2)] show ?thesis by simp
qed

theorem retention_keeps_newest_fulls_witness:
  "\<exists>kept :: backup_chain list. length kept = 1 \<and> (\<forall>c \<in> set kept. bc_id c \<notin> set (rp_expired_chains (projr example_plan)))"
proof -
  have "min (nat (full_chains_to_retain example_policy))
      (length (populated_chains example_catalog example_points)) = 1" by code_simp
  moreover from retention_keeps_newest_fulls [OF example_plan_ok example_policy_wf] obtain kept :: "backup_chain list" where
    "length kept = min (nat (full_chains_to_retain example_policy))
      (length (populated_chains example_catalog example_points))"
    "\<forall>c \<in> set kept. bc_id c \<notin> set (rp_expired_chains (projr example_plan))" by blast
  ultimately show ?thesis by (intro exI [of _ kept]) simp
qed

theorem retention_dependency_closed_witness: "''b0'' \<in> rp_retained (projr example_plan)"
proof -
  let ?q = "example_point ''b1'' ''b'' INCREMENTAL 1 (Some ''b0'') 4"
  have "?q \<in> set example_points" "rp_parent ?q = Some ''b0''" "rp_id ?q = ''b1''"
    by (simp_all add: example_points_def example_point_def)
  with retention_dependency_closed [OF example_plan_ok example_ids(1) this(1)] example_plan_value(3)
  show ?thesis by simp
qed

theorem retention_newest_points_witness: "''c0'' \<in> rp_retained (projr example_plan)"
proof -
  let ?q = "example_point ''c0'' ''c'' FULL 0 None 5"
  have inc: "list_ex (\<lambda>q. rp_kind q = INCREMENTAL) example_points" by code_simp
  have few: "int (length (filter (\<lambda>e. rp_created_at ?q \<le> rp_created_at e) example_points))
      \<le> restore_points_to_retain example_policy" by code_simp
  have q: "?q \<in> set example_points" "rp_id ?q = ''c0''"
    by (simp_all add: example_points_def example_point_def)
  from retention_newest_points [OF example_plan_ok example_policy_wf inc q(1) few] q(2)
  show ?thesis by simp
qed

definition example_facts :: "full_chain_capacity list" where
  "example_facts =
     [\<lparr>fc_chain_id = ''a'', fc_status = Chain_CLOSED, fc_created_at = 1, fc_physical_bytes = Some 40\<rparr>,
      \<lparr>fc_chain_id = ''b'', fc_status = Chain_CLOSED, fc_created_at = 3, fc_physical_bytes = Some 50\<rparr>,
      \<lparr>fc_chain_id = ''c'', fc_status = Chain_ACTIVE, fc_created_at = 5, fc_physical_bytes = None\<rparr>]"

definition example_capacity :: "capacity_reclaim_plan result" where
  "example_capacity = capacity_plan example_facts 30 10 50 example_policy"

lemma example_capacity_value:
  "\<not> isl example_capacity" "cp_selected (projr example_capacity) = [''a'']"
  "cp_possible_after (projr example_capacity)"
  by code_simp+

lemma example_capacity_ok:
  "capacity_plan example_facts 30 10 50 example_policy = Inr (projr example_capacity)"
  using Inr_projr [OF example_capacity_value(1)] by (simp add: example_capacity_def)

theorem capacity_selection_safe_witness:
  "\<exists>sel. cp_selected (projr example_capacity) = map fc_chain_id sel \<and> 60 \<le> 30 + total_size sel"
proof -
  have "cp_selected (projr example_capacity) \<noteq> []" by (simp add: example_capacity_value(2))
  from capacity_selection_safe [OF example_capacity_ok example_policy_wf this] obtain sel where
    "cp_selected (projr example_capacity) = map fc_chain_id sel" "50 + 10 \<le> 30 + total_size sel"
    by blast
  then show ?thesis by (intro exI [of _ sel]) simp
qed

theorem capacity_verdict_exact_witness: "\<not> cp_possible_now (projr example_capacity)"
proof -
  have "\<forall>c \<in> set example_facts. \<forall>n. fc_physical_bytes c = Some n \<longrightarrow> 0 \<le> n"
    by (simp add: example_facts_def)
  from capacity_verdict_exact [OF example_capacity_ok this] show ?thesis by simp
qed

end
