(* ===== verification/Capacity.thy ===== *)
theory Capacity
  imports Retention
begin

text \<open>
  Physical capacity facts and the capacity decision of a job (\<open>capacity.py\<close>). The
  filesystem is behind the parameter \<open>inspect\<close>, the physical size of a published bundle;
  the repository queries of \<open>plan_job\<close> are the fields of the record \<open>capacity_repo\<close>.
\<close>

section \<open>Collecting facts\<close>

record inspection_issue =
  ii_chain_id :: string
  ii_reason :: string

record capacity_collection =
  cc_chains :: "full_chain_capacity list"
  cc_issues :: "inspection_issue list"

definition bundle_refs :: "restore_point list \<Rightarrow> string list" where
  "bundle_refs points =
     concat (map (\<lambda>p. case rp_bundle_object_id p of None \<Rightarrow> [] | Some b \<Rightarrow> [b]) points)"

definition duplicate_bundles :: "restore_point list \<Rightarrow> string set" where
  "duplicate_bundles points =
     set (filter (\<lambda>b. 1 < count_list (bundle_refs points) b) (bundle_refs points))"

text \<open>The loop of \<open>_closed_chain_problem\<close>; \<open>parent\<close> is the id of the member before.\<close>

fun member_problem ::
  "string set \<Rightarrow> string option \<Rightarrow> restore_point list \<Rightarrow> string option" where
  "member_problem dups parent [] = None"
| "member_problem dups parent (p # ps) =
     (if rp_parent p \<noteq> parent then Some ''closed chain restore point dependency is invalid''
      else case rp_bundle_object_id p of
        None \<Rightarrow> Some ''closed chain restore point has no published bundle''
      | Some b \<Rightarrow>
          if b \<in> dups then Some ''published bundle identity is reused''
          else member_problem dups (Some (rp_id p)) ps)"

definition closed_chain_problem :: "restore_point list \<Rightarrow> string set \<Rightarrow> string option" where
  "closed_chain_problem members dups =
     (case members of
        [] \<Rightarrow> Some ''closed chain has no restore points''
      | first # _ \<Rightarrow>
          if rp_kind first \<noteq> FULL \<or> rp_sequence first \<noteq> 0
          then Some ''closed chain does not start with FULL sequence 0''
          else if map rp_sequence members \<noteq> map int [0..<length members]
          then Some ''closed chain restore point sequence is not contiguous''
          else member_problem dups None members)"

text \<open>
  The sum over the members' bundles stops at the first exception; only a
  \<open>BundleInspectionError\<close> becomes an issue, any other exception leaves the collector.
\<close>

definition physical_sum :: "(string \<Rightarrow> int result) \<Rightarrow> restore_point list \<Rightarrow> int result" where
  "physical_sum inspect members =
     bnd (map_result inspect (bundle_refs members)) (\<lambda>sizes. Inr (sum_list sizes))"

definition chain_fact ::
  "(string \<Rightarrow> int result) \<Rightarrow> restore_point list \<Rightarrow> backup_chain \<Rightarrow>
   (full_chain_capacity \<times> inspection_issue list) result" where
  "chain_fact inspect points c =
     (let fact = (\<lambda>physical issues.
            bnd (make_full_chain_capacity (bc_id c) (bc_status c) (bc_created_at c) physical)
              (\<lambda>f. Inr (f, issues)));
          issue = (\<lambda>reason. \<lparr>ii_chain_id = bc_id c, ii_reason = reason\<rparr>)
      in if bc_status c \<noteq> Chain_CLOSED then fact None []
         else
           let members = members_of points (bc_id c) in
           case closed_chain_problem members (duplicate_bundles points) of
             Some problem \<Rightarrow> fact None [issue problem]
           | None \<Rightarrow>
               (case physical_sum inspect members of
                  Inr n \<Rightarrow> fact (Some n) []
                | Inl (BundleInspectionError text) \<Rightarrow> fact None [issue text]
                | Inl e \<Rightarrow> Inl e))"

definition collect_capacity ::
  "(string \<Rightarrow> int result) \<Rightarrow> backup_chain list \<Rightarrow> restore_point list \<Rightarrow> capacity_collection result" where
  "collect_capacity inspect catalog points =
     (if \<not> distinct (map bc_id catalog) then Inl (ValueError ''duplicate backup chain IDs'')
      else if \<not> list_all (\<lambda>p. rp_chain_id p \<in> set (map bc_id catalog)) points
      then Inl (ValueError ''restore point has no supplied chain metadata'')
      else bnd (map_result (chain_fact inspect points)
                 (sort_key (\<lambda>c. (bc_created_at c, bc_id c)) catalog))
        (\<lambda>rs. Inr \<lparr>cc_chains = map fst rs, cc_issues = concat (map snd rs)\<rparr>))"

section \<open>The capacity plan of a job\<close>

record capacity_repo =
  cr_job :: "string \<Rightarrow> backup_job option"
  cr_vm :: "string \<Rightarrow> vm option"
  cr_storage :: "string \<Rightarrow> string \<Rightarrow> storage_destination option"
  cr_chains :: "string \<Rightarrow> backup_chain list"
  cr_points :: "string \<Rightarrow> restore_point list"

record job_capacity_plan =
  jc_job_id :: string
  jc_vm_id :: string
  jc_storage_id :: string
  jc_total_bytes :: int
  jc_chains :: "full_chain_capacity list"
  jc_issues :: "inspection_issue list"
  jc_plan :: capacity_reclaim_plan

definition lookup_or_key :: "'a option \<Rightarrow> 'a result" where
  "lookup_or_key r = (case r of None \<Rightarrow> Inl KeyError | Some x \<Rightarrow> Inr x)"

text \<open>\<open>int(total_bytes * percent / 100)\<close>: the percentage is a double.\<close>

definition percent_of :: "int \<Rightarrow> rat \<Rightarrow> int" where
  "percent_of total_bytes percent = trunc (fl (fl (fl (of_int total_bytes) * percent) / 100))"

definition reserve_bytes :: "storage_destination \<Rightarrow> int \<Rightarrow> int" where
  "reserve_bytes d total_bytes =
     max (sd_minimum_free_bytes d) (percent_of total_bytes (sd_minimum_free_percent d))"

definition plan_job ::
  "(string \<Rightarrow> int result) \<Rightarrow> capacity_repo \<Rightarrow> string \<Rightarrow> int \<Rightarrow> int \<Rightarrow> int \<Rightarrow> job_capacity_plan result"
where
  "plan_job inspect repo job_id free total_bytes required =
     (if total_bytes \<le> 0 then Inl (CapacityPlanningError ''total_bytes must be positive'')
      else if free < 0 \<or> free > total_bytes
      then Inl (CapacityPlanningError ''free_bytes must be between zero and total_bytes'')
      else if required < 0
      then Inl (CapacityPlanningError ''required_backup_bytes must be non-negative'')
      else bnd (lookup_or_key (cr_job repo job_id)) (\<lambda>job.
        bnd (lookup_or_key (cr_vm repo (bj_vm_id job))) (\<lambda>v.
        case bj_storage_destination_id job of
          None \<Rightarrow> Inl (CapacityPlanningError ''backup job has no storage destination'')
        | Some sid \<Rightarrow>
          (case cr_storage repo (vm_node_id v) sid of
             None \<Rightarrow> Inl (CapacityPlanningError ''backup job storage destination is missing'')
           | Some d \<Rightarrow>
             if sd_minimum_free_bytes d < 0 \<or>
                \<not> (0 \<le> sd_minimum_free_percent d \<and> sd_minimum_free_percent d \<le> 100)
             then Inl (CapacityPlanningError ''storage destination reserve policy is invalid'')
             else bnd (collect_capacity inspect (cr_chains repo (vm_id v)) (cr_points repo (vm_id v)))
               (\<lambda>collection.
               bnd (capacity_plan (cc_chains collection) free (reserve_bytes d total_bytes) required
                      (bj_retention_policy job)) (\<lambda>plan.
               Inr \<lparr>jc_job_id = bj_id job, jc_vm_id = vm_id v, jc_storage_id = sd_id d,
                    jc_total_bytes = total_bytes, jc_chains = cc_chains collection,
                    jc_issues = cc_issues collection, jc_plan = plan\<rparr>))))))"

section \<open>Facts\<close>

lemma member_problem_None:
  "member_problem dups parent ps = None \<Longrightarrow> p \<in> set ps \<Longrightarrow>
     \<exists>b. rp_bundle_object_id p = Some b \<and> b \<notin> dups"
  by (induction ps arbitrary: parent) (auto split: if_splits option.splits)

lemma closed_chain_problem_None:
  assumes "closed_chain_problem members dups = None"
  shows "members \<noteq> []" and "rp_kind (hd members) = FULL"
    and "map rp_sequence members = map int [0..<length members]"
    and "p \<in> set members \<Longrightarrow> \<exists>b. rp_bundle_object_id p = Some b \<and> b \<notin> dups"
proof -
  from assms obtain first rest where m: "members = first # rest" "rp_kind first = FULL"
    "map rp_sequence members = map int [0..<length members]" "member_problem dups None members = None"
    by (auto simp: closed_chain_problem_def split: list.splits if_splits)
  then show "members \<noteq> []" "rp_kind (hd members) = FULL"
    "map rp_sequence members = map int [0..<length members]" by simp_all
  from m(4) show "p \<in> set members \<Longrightarrow> \<exists>b. rp_bundle_object_id p = Some b \<and> b \<notin> dups"
    by (rule member_problem_None)
qed

lemma make_full_chain_capacity_Inr:
  "make_full_chain_capacity cid status created physical = Inr f \<Longrightarrow>
     fc_chain_id f = cid \<and> fc_status f = status \<and> fc_created_at f = created \<and>
     fc_physical_bytes f = physical \<and> (\<forall>n. physical = Some n \<longrightarrow> 0 \<le> n)"
  by (auto simp: make_full_chain_capacity_def split: if_splits option.splits)

lemma chain_fact_Inr:
  assumes "chain_fact inspect points c = Inr (f, issues)"
  shows "fc_chain_id f = bc_id c \<and> fc_status f = bc_status c \<and> fc_created_at f = bc_created_at c \<and>
    (\<forall>n. fc_physical_bytes f = Some n \<longrightarrow> 0 \<le> n \<and> bc_status c = Chain_CLOSED \<and>
       closed_chain_problem (members_of points (bc_id c)) (duplicate_bundles points) = None \<and>
       physical_sum inspect (members_of points (bc_id c)) = Inr n) \<and>
    (fc_physical_bytes f = None \<longrightarrow> issues \<noteq> [] \<or> bc_status c = Chain_ACTIVE)"
  using assms unfolding chain_fact_def Let_def
  by (cases "bc_status c")
    (auto simp: bnd_eq_Inr dest!: make_full_chain_capacity_Inr
      split: if_splits option.splits sum.splits exn.splits)

lemma referenced_once:
  assumes "p \<in> set points" and "rp_bundle_object_id p = Some b" and "b \<notin> duplicate_bundles points"
  shows "count_list (bundle_refs points) b = 1"
proof -
  have b: "b \<in> set (bundle_refs points)" using assms(1,2) by (force simp: bundle_refs_def)
  then have "count_list (bundle_refs points) b \<noteq> 0" by (simp add: count_list_0_iff)
  moreover have "\<not> 1 < count_list (bundle_refs points) b"
    using assms(3) b by (simp add: duplicate_bundles_def)
  ultimately show ?thesis by linarith
qed

lemma collect_capacity_Inr:
  assumes "collect_capacity inspect catalog points = Inr col"
  shows "map fc_chain_id (cc_chains col) =
      map bc_id (sort_key (\<lambda>c. (bc_created_at c, bc_id c)) catalog) \<and>
    (\<forall>f \<in> set (cc_chains col). \<exists>c \<in> set catalog. \<exists>issues.
       chain_fact inspect points c = Inr (f, issues))"
proof -
  let ?sorted = "sort_key (\<lambda>c. (bc_created_at c, bc_id c)) catalog"
  from assms obtain rs where rs: "list_all2 (\<lambda>c r. chain_fact inspect points c = Inr r) ?sorted rs"
    and col: "cc_chains col = map fst rs"
    by (auto simp: collect_capacity_def bnd_eq_Inr map_result_Inr split: if_splits)
  have "list_all2 (\<lambda>c r. bc_id c = fc_chain_id (fst r)) ?sorted rs"
    using rs by (rule list_all2_mono) (metis chain_fact_Inr prod.collapse)
  then have "map fc_chain_id (map fst rs) = map bc_id ?sorted"
    by (simp add: list_all2_conv_all_nth list_eq_iff_nth_eq)
  moreover have "\<exists>c \<in> set catalog. \<exists>issues. chain_fact inspect points c = Inr (f, issues)"
    if "f \<in> set (map fst rs)" for f
  proof -
    from that obtain i where i: "i < length rs" "f = fst (rs ! i)" by (auto simp: in_set_conv_nth)
    with rs have "chain_fact inspect points (?sorted ! i) = Inr (rs ! i)" "i < length ?sorted"
      by (auto simp: list_all2_conv_all_nth)
    moreover from this(2) have "?sorted ! i \<in> set catalog" by (metis nth_mem set_sort)
    ultimately show ?thesis using i(2) by (metis prod.collapse)
  qed
  ultimately show ?thesis by (simp add: col)
qed

lemma collect_capacity_size:
  assumes "collect_capacity inspect catalog points = Inr col" and "f \<in> set (cc_chains col)"
    and "fc_physical_bytes f = Some n"
  shows "\<exists>c \<in> set catalog. bc_id c = fc_chain_id f \<and> bc_status c = Chain_CLOSED \<and>
    fc_status f = Chain_CLOSED \<and> 0 \<le> n \<and>
    closed_chain_problem (members_of points (bc_id c)) (duplicate_bundles points) = None \<and>
    physical_sum inspect (members_of points (bc_id c)) = Inr n"
proof -
  from collect_capacity_Inr [OF assms(1)] assms(2) obtain c issues where
    "c \<in> set catalog" "chain_fact inspect points c = Inr (f, issues)" by blast
  with chain_fact_Inr [OF this(2)] assms(3) show ?thesis by (intro bexI [of _ c]) auto
qed


lemma plan_job_Inr:
  assumes "plan_job inspect repo job_id free total_bytes required = Inr jp"
  shows "\<exists>job v sid d col. cr_job repo job_id = Some job \<and> cr_vm repo (bj_vm_id job) = Some v \<and>
    bj_storage_destination_id job = Some sid \<and> cr_storage repo (vm_node_id v) sid = Some d \<and>
    collect_capacity inspect (cr_chains repo (vm_id v)) (cr_points repo (vm_id v)) = Inr col \<and>
    capacity_plan (cc_chains col) free (reserve_bytes d total_bytes) required
      (bj_retention_policy job) = Inr (jc_plan jp)"
  using assms unfolding plan_job_def
  by (auto simp: bnd_eq_Inr lookup_or_key_def split: if_splits option.splits)

text \<open>C7: when \<open>plan_job\<close> says a backup is possible, now or after reclaim, then after deleting
  what it selected and writing the backup at least the reserve (the larger of the minimum
  bytes and the minimum percentage) is free; everything selected is a CLOSED, intact chain of
  the job's machine, and the floor of full chains remains.\<close>

theorem plan_job_keeps_reserve:
  assumes "plan_job inspect repo job_id free total_bytes required = Inr jp"
    and "cr_job repo job_id = Some job" and "retention_policy_wf (bj_retention_policy job)"
    and "cp_possible_after (jc_plan jp)"
  shows "\<exists>v sid d. cr_vm repo (bj_vm_id job) = Some v \<and> bj_storage_destination_id job = Some sid \<and>
    cr_storage repo (vm_node_id v) sid = Some d \<and>
    sd_minimum_free_bytes d \<le> free + cp_selected_bytes (jc_plan jp) - required \<and>
    percent_of total_bytes (sd_minimum_free_percent d)
      \<le> free + cp_selected_bytes (jc_plan jp) - required \<and>
    (\<forall>cid \<in> set (cp_selected (jc_plan jp)). \<exists>c \<in> set (cr_chains repo (vm_id v)).
       bc_id c = cid \<and> bc_status c = Chain_CLOSED \<and>
       closed_chain_problem (members_of (cr_points repo (vm_id v)) cid)
         (duplicate_bundles (cr_points repo (vm_id v))) = None) \<and>
    (cp_selected (jc_plan jp) = [] \<or>
       minimum_full_chains (bj_retention_policy job)
         \<le> int (length (cr_chains repo (vm_id v))) - int (length (cp_selected (jc_plan jp))))"
proof -
  from plan_job_Inr [OF assms(1)] assms(2) obtain v sid d col where
    repo: "cr_vm repo (bj_vm_id job) = Some v" "bj_storage_destination_id job = Some sid"
      "cr_storage repo (vm_node_id v) sid = Some d" and
    col: "collect_capacity inspect (cr_chains repo (vm_id v)) (cr_points repo (vm_id v)) = Inr col" and
    plan: "capacity_plan (cc_chains col) free (reserve_bytes d total_bytes) required
      (bj_retention_policy job) = Inr (jc_plan jp)" by auto
  have len: "length (cc_chains col) = length (cr_chains repo (vm_id v))"
    using arg_cong [OF conjunct1 [OF collect_capacity_Inr [OF col]], of length] by simp
  let ?short = "required + reserve_bytes d total_bytes - free"
  let ?cands = "reclaim_candidates (cc_chains col) (bj_retention_policy job)"
  define sel where "sel = selection ?short (reclaim_mode (bj_retention_policy job)) ?cands"
  note facts = capacity_plan_Inr [OF plan, folded sel_def]
  have "\<exists>k. sel = take k ?cands \<and> (?short \<le> 0 \<or> ?short \<le> total_size sel)"
  proof (cases "sel = []")
    case True
    with facts(6) assms(4) show ?thesis by (intro exI [of _ 0]) auto
  next
    case False
    with selection_cases [of ?short "reclaim_mode (bj_retention_policy job)" ?cands]
    show ?thesis unfolding sel_def by force
  qed
  then obtain k where k: "sel = take k ?cands" and short: "?short \<le> 0 \<or> ?short \<le> total_size sel"
    by blast
  have known: "f \<in> set (cc_chains col) \<and> (\<exists>m. fc_physical_bytes f = Some m)"
    if f: "f \<in> set sel" for f
    using reclaim_candidates_set [OF f [unfolded k]] by blast
  have pos: "0 \<le> total_size sel"
  proof (intro sum_list_nonneg)
    fix n assume "n \<in> set (map size_of sel)"
    then obtain f where f: "f \<in> set sel" "n = size_of f" by auto
    with known obtain m where "f \<in> set (cc_chains col)" "fc_physical_bytes f = Some m" by blast
    from collect_capacity_size [OF col this] this(2) f(2) show "0 \<le> n" by (auto simp: size_of_def)
  qed
  have "\<exists>c \<in> set (cr_chains repo (vm_id v)). bc_id c = cid \<and> bc_status c = Chain_CLOSED \<and>
       closed_chain_problem (members_of (cr_points repo (vm_id v)) cid)
         (duplicate_bundles (cr_points repo (vm_id v))) = None"
    if "cid \<in> set (cp_selected (jc_plan jp))" for cid
  proof -
    from that facts(4) obtain f where f: "f \<in> set sel" "cid = fc_chain_id f" by auto
    with known obtain m where "f \<in> set (cc_chains col)" "fc_physical_bytes f = Some m" by blast
    from collect_capacity_size [OF col this] f(2) show ?thesis by auto
  qed
  moreover have "minimum_full_chains (bj_retention_policy job)
      \<le> int (length (cc_chains col)) - int (length sel)" if "sel \<noteq> []"
  proof -
    have "length sel \<le> length ?cands" "?cands \<noteq> []" using k that by auto
    with reclaim_candidates_length [of "bj_retention_policy job" "cc_chains col"] assms(3)
    show ?thesis by (simp add: retention_policy_wf_def)
  qed
  moreover have "reserve_bytes d total_bytes \<le> free + total_size sel - required"
    using short pos by linarith
  ultimately show ?thesis
    using repo facts(4,5) len unfolding reserve_bytes_def by auto
qed

section \<open>Examples\<close>

definition example_inspect :: "string \<Rightarrow> int result" where
  "example_inspect b =
     (if b = ''b1-bundle'' then Inl (BundleInspectionError ''cannot enumerate published bundle'')
      else Inr 20)"

definition example_collection :: "capacity_collection result" where
  "example_collection = collect_capacity example_inspect example_catalog example_points"

lemma example_collection_value:
  "\<not> isl example_collection"
  "map fc_physical_bytes (cc_chains (projr example_collection)) = [Some 40, None, None]"
  "map ii_chain_id (cc_issues (projr example_collection)) = [''b'']"
  by code_simp+

lemma example_collection_ok:
  "collect_capacity example_inspect example_catalog example_points = Inr (projr example_collection)"
  using Inr_projr [OF example_collection_value(1)] by (simp add: example_collection_def)


definition example_job :: backup_job where
  "example_job =
     \<lparr>bj_id = ''job'', bj_vm_id = ''vm'', bj_storage_destination_id = Some ''dst'',
      bj_max_incrementals_per_chain = 2, bj_retention_policy = example_policy,
      bj_next_run_at = None, bj_enabled = True\<rparr>"

definition example_repo :: capacity_repo where
  "example_repo =
     \<lparr>cr_job = (\<lambda>i. if i = ''job'' then Some example_job else None),
      cr_vm = (\<lambda>i. if i = ''vm'' then
        Some \<lparr>vm_id = ''vm'', vm_node_id = ''node'', vm_name = ''web''\<rparr> else None),
      cr_storage = (\<lambda>n i. if i = ''dst'' then
        Some \<lparr>sd_id = ''dst'', sd_node_id = n, sd_name = ''main'', sd_backup_data_root = ''/backup'',
              sd_minimum_free_bytes = 5, sd_minimum_free_percent = 10,
              sd_storage_type = LOCAL\<rparr> else None),
      cr_chains = (\<lambda>_. example_catalog), cr_points = (\<lambda>_. example_points)\<rparr>"

definition example_job_plan :: "job_capacity_plan result" where
  "example_job_plan = plan_job example_inspect example_repo ''job'' 20 100 45"

lemma example_job_plan_value:
  "\<not> isl example_job_plan" "cp_possible_after (jc_plan (projr example_job_plan))"
  "cp_selected (jc_plan (projr example_job_plan)) = [''a'']"
  by code_simp+

lemma example_job_plan_ok:
  "plan_job example_inspect example_repo ''job'' 20 100 45 = Inr (projr example_job_plan)"
  using Inr_projr [OF example_job_plan_value(1)] by (simp add: example_job_plan_def)

theorem plan_job_keeps_reserve_witness:
  "\<exists>d. cr_storage example_repo ''node'' ''dst'' = Some d \<and>
     sd_minimum_free_bytes d \<le> 20 + cp_selected_bytes (jc_plan (projr example_job_plan)) - 45"
proof -
  have job: "cr_job example_repo ''job'' = Some example_job" by (simp add: example_repo_def)
  have wf: "retention_policy_wf (bj_retention_policy example_job)"
    by (simp add: example_job_def example_policy_wf)
  from plan_job_keeps_reserve [OF example_job_plan_ok job wf example_job_plan_value(2)]
  show ?thesis by (auto simp: example_repo_def example_job_def)
qed

end
