(* ===== verification/Schedule.thy ===== *)
theory Schedule
  imports Models
begin

text \<open>
  The calendar of FULL and INCREMENTAL slots (\<open>chain_schedule_v2.py\<close>) and the per-job
  \<open>SchedulePolicy\<close> of \<open>models.py\<close>.

  A zone-aware \<open>datetime\<close> is its wall-clock reading in microseconds since 1970-01-01
  00:00, its \<open>fold\<close> and its zone; a zone is the pair of conversions that \<open>tzinfo\<close>
  provides. Which zone an IANA name denotes is not in the repository: the zone database
  is the parameter \<open>tzdb\<close>. What the schedule relies on is stated as \<open>zone_wf\<close>: offsets
  below one day, and after any wall time a wall minute that exists within a day.
  The limits of \<open>datetime\<close> (years 1 to 9999) are not modelled.
\<close>

section \<open>Times\<close>

record zone =
  z_local :: "int \<Rightarrow> int"
  z_utc :: "int \<Rightarrow> bool \<Rightarrow> int"

record aware =
  dt_naive :: int
  dt_fold :: bool
  dt_zone :: zone

definition second_us :: int where "second_us = 1000000"
definition minute_us :: int where "minute_us = 60 * second_us"
definition day_us :: int where "day_us = 24 * 60 * minute_us"

lemmas us_defs = day_us_def minute_us_def second_us_def

text \<open>\<open>value.astimezone(timezone.utc)\<close> and \<open>value.astimezone(zone)\<close>'s wall clock.\<close>

definition utc :: "aware \<Rightarrow> int" where
  "utc d = z_utc (dt_zone d) (dt_naive d) (dt_fold d)"

definition local_naive :: "zone \<Rightarrow> aware \<Rightarrow> int" where
  "local_naive z d = z_local z (utc d)"

definition in_zone :: "zone \<Rightarrow> int \<Rightarrow> bool \<Rightarrow> aware" where
  "in_zone z n f = \<lparr>dt_naive = n, dt_fold = f, dt_zone = z\<rparr>"

lemma in_zone_simps [simp]:
  "dt_naive (in_zone z n f) = n" "dt_fold (in_zone z n f) = f" "dt_zone (in_zone z n f) = z"
  "utc (in_zone z n f) = z_utc z n f"
  by (simp_all add: in_zone_def utc_def)

text \<open>\<open>value + timedelta\<close> moves the wall clock and clears the fold.\<close>

definition plus_wall :: "aware \<Rightarrow> int \<Rightarrow> aware" where
  "plus_wall d us = in_zone (dt_zone d) (dt_naive d + us) False"

definition day_of :: "int \<Rightarrow> int" where "day_of n = n div day_us"

text \<open>\<open>date.weekday()\<close>: Monday is 0, and 1970-01-01 was a Thursday.\<close>

definition weekday :: "int \<Rightarrow> int" where "weekday day = (day + 3) mod 7"

text \<open>A zone with a constant offset, and a text \<open>isoformat\<close> wrote read back.\<close>

definition fixed_zone :: "int \<Rightarrow> zone" where
  "fixed_zone off = \<lparr>z_local = (\<lambda>u. u + off), z_utc = (\<lambda>n f. n - off)\<rparr>"

definition reparsed :: "aware \<Rightarrow> aware" where
  "reparsed d = in_zone (fixed_zone (dt_naive d - utc d)) (dt_naive d) False"

lemma utc_reparsed [simp]: "utc (reparsed d) = utc d"
  by (simp add: reparsed_def fixed_zone_def)

text \<open>A wall time exists in a zone when converting to UTC and back returns it.\<close>

definition wall_exists :: "zone \<Rightarrow> int \<Rightarrow> bool \<Rightarrow> bool" where
  "wall_exists z n f = (z_local z (z_utc z n f) = n)"

definition zone_wf :: "zone \<Rightarrow> bool" where
  "zone_wf z \<longleftrightarrow>
     (\<forall>u. \<bar>z_local z u - u\<bar> < day_us) \<and> (\<forall>n f. \<bar>z_utc z n f - n\<bar> < day_us) \<and>
     (\<forall>n. \<exists>k f. 0 \<le> k \<and> k \<le> 24 * 60 \<and> wall_exists z (n + k * minute_us) f)"

lemma fixed_zone_wf: "\<bar>off\<bar> < day_us \<Longrightarrow> zone_wf (fixed_zone off)"
  unfolding zone_wf_def fixed_zone_def wall_exists_def by (auto intro!: exI [of _ 0])

section \<open>Validation of a chain schedule\<close>

definition slice_from :: "nat \<Rightarrow> string \<Rightarrow> string" where "slice_from n s = drop n s"

definition require_time :: "json \<Rightarrow> (int \<times> int) result" where
  "require_time value =
     (case value of
        JStr s \<Rightarrow>
          (if length s \<noteq> 5 \<or> s ! 2 \<noteq> CHR '':'' then Inl (ValueError ''schedule time must be HH:MM'')
           else let hh = take 2 s; mm = slice_from 3 s in
             if \<not> str_isdigit hh \<or> \<not> str_isdigit mm
             then Inl (ValueError ''schedule time must be HH:MM'')
             else bnd (int_of_str hh) (\<lambda>hour. bnd (int_of_str mm) (\<lambda>minute.
               if \<not> (0 \<le> hour \<and> hour \<le> 23 \<and> 0 \<le> minute \<and> minute \<le> 59)
               then Inl (ValueError ''schedule time must be valid HH:MM'')
               else Inr (hour, minute))))
      | _ \<Rightarrow> Inl (ValueError ''schedule time must be HH:MM''))"

record chain_schedule =
  cs_timezone :: string
  cs_full_weekday :: int
  cs_full_time :: string
  cs_incremental_times :: "string list"

text \<open>The loop over \<open>incremental_times\<close>: each is checked, a repeated one is skipped.\<close>

fun normalize_times :: "json list \<Rightarrow> string list \<Rightarrow> string list result" where
  "normalize_times [] acc = Inr acc"
| "normalize_times (v # vs) acc =
     bnd (require_time v) (\<lambda>_.
       case v of
         JStr s \<Rightarrow> normalize_times vs (if s \<in> set acc then acc else acc @ [s])
       | _ \<Rightarrow> Inl TypeError)"

definition validate_chain_schedule ::
  "(string \<Rightarrow> zone option) \<Rightarrow> json \<Rightarrow> json \<Rightarrow> json \<Rightarrow> json \<Rightarrow> chain_schedule result" where
  "validate_chain_schedule tzdb timezone_name full_weekday full_time incremental_times =
     (case timezone_name of
        JStr tz \<Rightarrow>
          (if strip tz = [] then Inl (ValueError ''chain schedule requires timezone'')
           else if tzdb tz = None
           then Inl (ValueError ''chain schedule requires valid IANA timezone'')
           else if (case full_weekday of JBool _ \<Rightarrow> True | _ \<Rightarrow> False)
           then Inl (ValueError ''full_weekday must be 0..6'')
           else bnd (py_int full_weekday) (\<lambda>wd.
             if \<not> (0 \<le> wd \<and> wd \<le> 6) then Inl (ValueError ''full_weekday must be 0..6'')
             else bnd (require_time full_time) (\<lambda>_.
             case (incremental_times, full_time) of
               (JList ts, JStr ft) \<Rightarrow>
                 (if \<not> (1 \<le> length ts \<and> length ts \<le> 4)
                  then Inl (ValueError ''incremental_times must contain 1..4 HH:MM values'')
                  else bnd (normalize_times ts []) (\<lambda>normalized.
                    if normalized = []
                    then Inl (ValueError ''incremental_times must not be empty'')
                    else Inr \<lparr>cs_timezone = strip tz, cs_full_weekday = wd,
                              cs_full_time = ft, cs_incremental_times = sort normalized\<rparr>))
             | _ \<Rightarrow> Inl (ValueError ''incremental_times must contain 1..4 HH:MM values''))))
      | _ \<Rightarrow> Inl (ValueError ''chain schedule requires timezone''))"

section \<open>The slot of a day\<close>

definition wall_candidates :: "zone \<Rightarrow> int \<Rightarrow> aware list" where
  "wall_candidates z n = map (in_zone z n) (filter (wall_exists z n) [False, True])"

text \<open>The probes of the spring-forward gap: minutes 1 to 1440 after the wall time.\<close>

definition probe_minutes :: "nat list" where "probe_minutes = [1..<24 * 60 + 1]"

definition gap_probes :: "zone \<Rightarrow> int \<Rightarrow> aware list" where
  "gap_probes z n =
     concat (map (\<lambda>k. wall_candidates z (n + int k * minute_us)) probe_minutes)"

definition local_candidate :: "int \<Rightarrow> string \<Rightarrow> zone \<Rightarrow> aware result" where
  "local_candidate day time_text z =
     bnd (require_time (JStr time_text)) (\<lambda>(hour, minute).
       let naive = day * day_us + (hour * 60 + minute) * minute_us;
           candidates = wall_candidates z naive
       in if candidates \<noteq> [] then Inr (arg_min_list utc candidates)
          else case gap_probes z naive of
                 c # _ \<Rightarrow> Inr c
               | [] \<Rightarrow> Inl (ValueError ''cannot resolve schedule wall-clock time''))"

section \<open>The next slot after a cursor\<close>

text \<open>\<open>ZoneInfo(name)\<close>; the schedule's zone was checked when it was stored.\<close>

definition zone_info :: "(string \<Rightarrow> zone option) \<Rightarrow> string \<Rightarrow> zone result" where
  "zone_info tzdb name =
     (case tzdb name of None \<Rightarrow> Inl (ValueError ''No time zone found'') | Some z \<Rightarrow> Inr z)"

text \<open>One scan over candidate slots: the first whose instant is after the cursor.\<close>

fun first_after :: "(int \<times> string) list \<Rightarrow> zone \<Rightarrow> int \<Rightarrow> aware option result" where
  "first_after [] z v = Inr None"
| "first_after ((day, time_text) # rest) z v =
     bnd (local_candidate day time_text z) (\<lambda>c.
       if v < utc c then Inr (Some c) else first_after rest z v)"

definition full_slots :: "int \<Rightarrow> chain_schedule \<Rightarrow> (int \<times> string) list" where
  "full_slots day0 s =
     map (\<lambda>day. (day, cs_full_time s))
       (filter (\<lambda>day. weekday day = cs_full_weekday s)
         (map (\<lambda>delta. day0 + int delta) [0..<15]))"

definition next_full_after ::
  "(string \<Rightarrow> zone option) \<Rightarrow> aware \<Rightarrow> chain_schedule \<Rightarrow> aware result" where
  "next_full_after tzdb value s =
     bnd (zone_info tzdb (cs_timezone s)) (\<lambda>z.
       bnd (first_after (full_slots (day_of (local_naive z value)) s) z (utc value)) (\<lambda>r.
         case r of Some c \<Rightarrow> Inr c
                 | None \<Rightarrow> Inl (ValueError ''cannot determine next FULL schedule slot'')))"

text \<open>The scan of at most 3700 days, day by day.\<close>

fun incremental_scan ::
  "nat \<Rightarrow> int \<Rightarrow> chain_schedule \<Rightarrow> zone \<Rightarrow> int \<Rightarrow> aware result" where
  "incremental_scan 0 day s z v =
     Inl (ValueError ''cannot determine next INCREMENTAL schedule slot'')"
| "incremental_scan (Suc days) day s z v =
     bnd (first_after (map (\<lambda>t. (day, t)) (cs_incremental_times s)) z v) (\<lambda>r.
       case r of Some c \<Rightarrow> Inr c | None \<Rightarrow> incremental_scan days (day + 1) s z v)"

definition next_incremental_after ::
  "(string \<Rightarrow> zone option) \<Rightarrow> aware \<Rightarrow> chain_schedule \<Rightarrow> aware result" where
  "next_incremental_after tzdb value s =
     bnd (zone_info tzdb (cs_timezone s)) (\<lambda>z.
       incremental_scan 3700 (day_of (local_naive z value)) s z (utc value))"

text \<open>
  A stored cadence: the schedule, and the two cursors, kept as \<open>isoformat\<close> texts and
  read back with \<open>fromisoformat\<close>.
\<close>

record cadence = chain_schedule +
  cd_enabled :: bool
  cd_next_full_at :: aware
  cd_next_incremental_at :: aware

definition initialize_chain_schedule ::
  "(string \<Rightarrow> zone option) \<Rightarrow> aware \<Rightarrow> json \<Rightarrow> json \<Rightarrow> json \<Rightarrow> json \<Rightarrow> cadence result" where
  "initialize_chain_schedule tzdb now timezone_name full_weekday full_time incremental_times =
     bnd (validate_chain_schedule tzdb timezone_name full_weekday full_time incremental_times)
       (\<lambda>base. bnd (next_full_after tzdb now base) (\<lambda>f.
         bnd (next_incremental_after tzdb now base) (\<lambda>i.
           Inr (chain_schedule.extend base
                  (cadence.fields True (reparsed f) (reparsed i))))))"

section \<open>Coalescing missed slots\<close>

text \<open>
  The loop shared by \<open>advance_cursor\<close> and \<open>SchedulePolicy.advance_due\<close>: it counts the
  occurrences up to \<open>now\<close> and gives up above a limit.
\<close>

function coalesce_loop ::
  "nat \<Rightarrow> string \<Rightarrow> (aware \<Rightarrow> aware result) \<Rightarrow> int \<Rightarrow> nat \<Rightarrow> aware \<Rightarrow> (nat \<times> aware) result" where
  "coalesce_loop limit msg step now represented current =
     (if utc current \<le> now then
        (if represented + 1 > limit then Inl (ValueError msg)
         else case step current of
                Inl e \<Rightarrow> Inl e
              | Inr nxt \<Rightarrow> coalesce_loop limit msg step now (represented + 1) nxt)
      else Inr (represented, current))"
  by pat_completeness auto
termination
  by (relation "measure (\<lambda>(limit, msg, step, now, represented, current). limit - represented)") auto

declare coalesce_loop.simps [simp del]

definition advance_cursor ::
  "(string \<Rightarrow> zone option) \<Rightarrow> aware \<Rightarrow> aware \<Rightarrow> string \<Rightarrow> chain_schedule \<Rightarrow> (nat \<times> aware) result" where
  "advance_cursor tzdb cursor now kind s =
     (if utc cursor > utc now then Inl (ValueError ''schedule cursor is not due'')
      else coalesce_loop 100000 ''schedule backlog is unreasonably large''
             (if kind = ''FULL'' then (\<lambda>v. next_full_after tzdb v s)
              else (\<lambda>v. next_incremental_after tzdb v s))
             (utc now) 0 cursor)"

section \<open>The schedule policy of a job\<close>

datatype schedule_type = INTERVAL | DAILY

record schedule_policy =
  sp_interval_seconds :: int
  sp_misfire_grace_seconds :: int
  sp_schedule_type :: schedule_type
  sp_daily_time :: "string option"
  sp_schedule_timezone :: "string option"

definition schedule_type_of :: "string \<Rightarrow> schedule_type option" where
  "schedule_type_of s =
     (if s = ''INTERVAL'' then Some INTERVAL else if s = ''DAILY'' then Some DAILY else None)"

definition check_daily_time :: "json \<Rightarrow> string result" where
  "check_daily_time daily_time =
     (case daily_time of
        JStr s \<Rightarrow>
          (if length s \<noteq> 5 \<or> s ! 2 \<noteq> CHR '':''
           then Inl (ValueError ''DAILY schedule requires HH:MM daily_time'')
           else let hh = take 2 s; mm = slice_from 3 s in
             if \<not> str_isdigit hh \<or> \<not> str_isdigit mm
             then Inl (ValueError ''DAILY schedule requires HH:MM daily_time'')
             else bnd (int_of_str hh) (\<lambda>hour. bnd (int_of_str mm) (\<lambda>minute.
               if \<not> (0 \<le> hour \<and> hour \<le> 23) \<or> \<not> (0 \<le> minute \<and> minute \<le> 59)
               then Inl (ValueError ''DAILY schedule requires valid HH:MM daily_time'')
               else Inr s)))
      | _ \<Rightarrow> Inl (ValueError ''DAILY schedule requires HH:MM daily_time''))"

text \<open>
  \<open>SchedulePolicy.__post_init__\<close>: each enum has one supported member besides the type.
\<close>

definition make_schedule_policy ::
  "(string \<Rightarrow> zone option) \<Rightarrow> int \<Rightarrow> int \<Rightarrow> string \<Rightarrow> string \<Rightarrow> string \<Rightarrow> json \<Rightarrow> json \<Rightarrow>
   schedule_policy result" where
  "make_schedule_policy tzdb interval grace catch_up overlap stype daily_time timezone_name =
     (if interval < 60 then Inl (ValueError ''interval_seconds must be at least 60'')
      else if grace < 0 then Inl (ValueError ''misfire_grace_seconds must be non-negative'')
      else if catch_up \<noteq> ''RUN_ONCE'' then Inl (ValueError ''invalid catch_up_mode'')
      else if overlap \<noteq> ''SKIP_IF_BUSY'' then Inl (ValueError ''invalid overlap_policy'')
      else case schedule_type_of stype of
        None \<Rightarrow> Inl (ValueError ''invalid schedule_type'')
      | Some INTERVAL \<Rightarrow>
          (if daily_time \<noteq> JNull \<or> timezone_name \<noteq> JNull
           then Inl (ValueError ''INTERVAL schedule cannot define daily time or timezone'')
           else Inr \<lparr>sp_interval_seconds = interval, sp_misfire_grace_seconds = grace,
                     sp_schedule_type = INTERVAL, sp_daily_time = None,
                     sp_schedule_timezone = None\<rparr>)
      | Some DAILY \<Rightarrow>
          bnd (check_daily_time daily_time) (\<lambda>t.
            case timezone_name of
              JStr tz \<Rightarrow>
                (if strip tz = []
                 then Inl (ValueError ''DAILY schedule requires schedule_timezone'')
                 else if tzdb tz = None
                 then Inl (ValueError ''DAILY schedule requires valid IANA timezone'')
                 else Inr \<lparr>sp_interval_seconds = interval, sp_misfire_grace_seconds = grace,
                           sp_schedule_type = DAILY, sp_daily_time = Some t,
                           sp_schedule_timezone = Some tz\<rparr>)
            | _ \<Rightarrow> Inl (ValueError ''DAILY schedule requires schedule_timezone'')))"

text \<open>
  The dict keyed by instant keeps the first candidate of each instant; the result is in
  the order of the instants.
\<close>

definition valid_local_candidates :: "int \<Rightarrow> zone \<Rightarrow> aware list" where
  "valid_local_candidates naive z =
     (let candidates =
        foldl (\<lambda>d c. if map_of d (utc c) = None then d @ [(utc c, c)] else d) []
          (map (in_zone z naive) (filter (wall_exists z naive) [False, True]))
      in map (\<lambda>key. the (map_of candidates key)) (sort (map fst candidates)))"

definition daily_slot_for_date ::
  "(string \<Rightarrow> zone option) \<Rightarrow> schedule_policy \<Rightarrow> int \<Rightarrow> aware result" where
  "daily_slot_for_date tzdb p local_date =
     (case (sp_schedule_type p, sp_daily_time p, sp_schedule_timezone p) of
        (DAILY, Some t, Some tz) \<Rightarrow>
          bnd (int_of_str (take 2 t)) (\<lambda>hour. bnd (int_of_str (slice_from 3 t)) (\<lambda>minute.
            bnd (zone_info tzdb tz) (\<lambda>z.
              let naive = local_date * day_us + (hour * 60 + minute) * minute_us in
              case valid_local_candidates naive z of
                c # _ \<Rightarrow> Inr c
              | [] \<Rightarrow>
                  (case concat (map (\<lambda>k. valid_local_candidates (naive + int k * minute_us) z)
                                  probe_minutes) of
                     c # _ \<Rightarrow> Inr c
                   | [] \<Rightarrow> Inl (ValueError ''cannot resolve DAILY schedule wall-clock time'')))))
      | _ \<Rightarrow> Inl (ValueError ''daily slot requested for non-DAILY schedule''))"

fun daily_scan ::
  "nat \<Rightarrow> (string \<Rightarrow> zone option) \<Rightarrow> schedule_policy \<Rightarrow> int \<Rightarrow> int \<Rightarrow> aware result" where
  "daily_scan 0 tzdb p local_date v =
     Inl (ValueError ''cannot determine next DAILY schedule slot'')"
| "daily_scan (Suc days) tzdb p local_date v =
     bnd (daily_slot_for_date tzdb p local_date) (\<lambda>candidate.
       if utc candidate > v then Inr candidate
       else daily_scan days tzdb p (local_date + 1) v)"

definition next_daily_after ::
  "(string \<Rightarrow> zone option) \<Rightarrow> schedule_policy \<Rightarrow> aware \<Rightarrow> aware result" where
  "next_daily_after tzdb p value =
     (case sp_schedule_timezone p of
        None \<Rightarrow> Inl OtherException
      | Some tz \<Rightarrow> bnd (zone_info tzdb tz) (\<lambda>z.
          daily_scan 3700 tzdb p (day_of (local_naive z value)) (utc value)))"

definition next_run_after ::
  "(string \<Rightarrow> zone option) \<Rightarrow> schedule_policy \<Rightarrow> aware \<Rightarrow> aware result" where
  "next_run_after tzdb p value =
     (case sp_schedule_type p of
        INTERVAL \<Rightarrow> Inr (plus_wall value (sp_interval_seconds p * second_us))
      | DAILY \<Rightarrow> next_daily_after tzdb p value)"

text \<open>
  \<open>advance_due\<close>. The float quotient of the source is exact for spans below 2^53
  microseconds (285 years), where it is this integer quotient.
\<close>

definition advance_due ::
  "(string \<Rightarrow> zone option) \<Rightarrow> schedule_policy \<Rightarrow> aware \<Rightarrow> aware \<Rightarrow> (nat \<times> aware) result" where
  "advance_due tzdb p due now =
     (if utc due > utc now then Inl (ValueError ''scheduled due time is still in the future'')
      else case sp_schedule_type p of
        INTERVAL \<Rightarrow>
          (let represented =
                 (utc now - utc due) div (sp_interval_seconds p * second_us) + 1
           in Inr (nat represented,
                   plus_wall due (represented * sp_interval_seconds p * second_us)))
      | DAILY \<Rightarrow>
          coalesce_loop 1000000 ''DAILY schedule backlog is unreasonably large''
            (next_run_after tzdb p) (utc now) 0 due)"

section \<open>Facts about single slots\<close>

text \<open>
  \<open>c\<close> is the slot of wall time \<open>n\<close>: the first existing wall minute at or after \<open>n\<close>, and
  when \<open>n\<close> itself exists the earliest instant that reads \<open>n\<close>.
\<close>

definition slot_of :: "zone \<Rightarrow> int \<Rightarrow> aware \<Rightarrow> bool" where
  "slot_of z n c \<longleftrightarrow>
     dt_zone c = z \<and> wall_exists z (dt_naive c) (dt_fold c) \<and>
     (\<exists>k. 0 \<le> k \<and> k \<le> 24 * 60 \<and> dt_naive c = n + k * minute_us \<and>
       (\<forall>j f. 0 \<le> j \<and> j < k \<longrightarrow> \<not> wall_exists z (n + j * minute_us) f) \<and>
       (\<forall>f. k = 0 \<and> wall_exists z n f \<longrightarrow> utc c \<le> z_utc z n f))"

lemma set_filter_bools: "set (filter P [False, True]) = {f. P f}"
  unfolding set_filter using UNIV_bool by auto

lemma wall_candidates_set:
  "c \<in> set (wall_candidates z n) \<longleftrightarrow> (\<exists>f. c = in_zone z n f \<and> wall_exists z n f)"
  unfolding wall_candidates_def set_map set_filter_bools by auto

lemma wall_candidates_empty: "wall_candidates z n = [] \<longleftrightarrow> (\<forall>f. \<not> wall_exists z n f)"
  by (auto simp: wall_candidates_def filter_empty_conv all_bool_eq)

lemma arg_min_list_in_le:
  "xs \<noteq> [] \<Longrightarrow> arg_min_list f xs \<in> set xs \<and> (\<forall>x \<in> set xs. f (arg_min_list f xs) \<le> f x)"
  by (simp add: arg_min_list_in f_arg_min_list_f)

text \<open>The first non-empty block of a search over minutes.\<close>

lemma concat_upt_first:
  assumes "concat (map g [a..<b]) = c # cs"
  shows "\<exists>k. a \<le> k \<and> k < b \<and> (\<exists>rest. g k = c # rest) \<and> (\<forall>j. a \<le> j \<and> j < k \<longrightarrow> g j = [])"
  using assms
proof (induction "b - a" arbitrary: a)
  case 0
  then show ?case by simp
next
  case (Suc n)
  then have up: "[a..<b] = a # [Suc a..<b]" by (simp add: upt_rec)
  show ?case
  proof (cases "g a")
    case Nil
    with Suc.prems up have "concat (map g [Suc a..<b]) = c # cs" by simp
    moreover from Suc.hyps(2) have "n = b - Suc a" by simp
    ultimately obtain k where
      "Suc a \<le> k" "k < b" "\<exists>rest. g k = c # rest" "\<forall>j. Suc a \<le> j \<and> j < k \<longrightarrow> g j = []"
      using Suc.hyps(1) [of "Suc a"] by blast
    moreover from this Nil have "g j = []" if "a \<le> j" "j < k" for j
      using that by (cases "j = a") auto
    ultimately show ?thesis by (intro exI [of _ k]) auto
  next
    case (Cons x xs)
    with Suc.prems up Suc.hyps(2) show ?thesis by (intro exI [of _ a]) auto
  qed
qed

lemma gap_probes_first:
  assumes "gap_probes z n = c # cs"
  shows "\<exists>k f. 1 \<le> k \<and> k \<le> 24 * 60 \<and> c = in_zone z (n + int k * minute_us) f \<and>
    wall_exists z (n + int k * minute_us) f \<and>
    (\<forall>j. 1 \<le> j \<and> j < k \<longrightarrow> (\<forall>f. \<not> wall_exists z (n + int j * minute_us) f))"
proof -
  from concat_upt_first [OF assms [unfolded gap_probes_def probe_minutes_def]] obtain k rest where
    k: "1 \<le> k" "k < 24 * 60 + 1" and c: "wall_candidates z (n + int k * minute_us) = c # rest" and
    before: "\<And>j. 1 \<le> j \<and> j < k \<Longrightarrow> wall_candidates z (n + int j * minute_us) = []"
    by blast
  from c have "c \<in> set (wall_candidates z (n + int k * minute_us))" by simp
  then obtain f where "c = in_zone z (n + int k * minute_us) f"
      "wall_exists z (n + int k * minute_us) f"
    by (auto simp: wall_candidates_set)
  with k before show ?thesis
    by (intro exI [of _ k] exI [of _ f]) (simp add: wall_candidates_empty)
qed

lemma local_candidate_slot:
  assumes "local_candidate day t z = Inr c"
  shows "\<exists>h m. require_time (JStr t) = Inr (h, m) \<and>
    slot_of z (day * day_us + (h * 60 + m) * minute_us) c"
proof -
  from assms obtain h m where hm: "require_time (JStr t) = Inr (h, m)"
    by (auto simp: local_candidate_def bnd_eq_Inr)
  define n where "n = day * day_us + (h * 60 + m) * minute_us"
  have "slot_of z n c"
  proof (cases "wall_candidates z n = []")
    case False
    with assms hm have c: "c = arg_min_list utc (wall_candidates z n)"
      by (simp add: local_candidate_def n_def)
    from arg_min_list_in_le [OF False, of utc] obtain f where
      "c = in_zone z n f" "wall_exists z n f" "\<forall>x \<in> set (wall_candidates z n). utc c \<le> utc x"
      unfolding c [symmetric] by (auto simp: wall_candidates_set)
    moreover from this have "utc c \<le> z_utc z n g" if "wall_exists z n g" for g
      using that by (metis in_zone_simps(4) wall_candidates_set)
    ultimately show ?thesis
      unfolding slot_of_def by (intro conjI exI [of _ 0]) auto
  next
    case True
    with assms hm obtain cs where "gap_probes z n = c # cs"
      by (auto simp: local_candidate_def n_def Let_def split: list.splits)
    from gap_probes_first [OF this] obtain k f where kf: "1 \<le> k" "k \<le> 24 * 60"
      "c = in_zone z (n + int k * minute_us) f" "wall_exists z (n + int k * minute_us) f"
      and before: "\<And>j f. 1 \<le> j \<Longrightarrow> j < k \<Longrightarrow> \<not> wall_exists z (n + int j * minute_us) f"
      by blast
    have "\<not> wall_exists z (n + j * minute_us) f'" if "0 \<le> j" "j < int k" for j f'
    proof (cases "j = 0")
      case False
      with that before [of "nat j" f'] show ?thesis by simp
    qed (use True in \<open>simp add: wall_candidates_empty\<close>)
    with kf show ?thesis unfolding slot_of_def by (intro conjI exI [of _ "int k"]) auto
  qed
  with hm show ?thesis unfolding n_def by blast
qed

lemma local_candidate_total:
  assumes "zone_wf z" and "require_time (JStr t) = Inr (h, m)"
  shows "\<exists>c. local_candidate day t z = Inr c"
proof -
  define n where "n = day * day_us + (h * 60 + m) * minute_us"
  from assms(1) obtain k f where k: "0 \<le> k" "k \<le> 24 * 60" "wall_exists z (n + k * minute_us) f"
    unfolding zone_wf_def by blast
  have "wall_candidates z n \<noteq> [] \<or> gap_probes z n \<noteq> []"
  proof (cases "k = 0")
    case True
    with k show ?thesis by (auto simp: wall_candidates_empty)
  next
    case False
    with k have "nat k \<in> set probe_minutes"
      unfolding probe_minutes_def set_upt by (simp add: nat_less_iff Suc_le_eq)
    moreover from k have "wall_candidates z (n + int (nat k) * minute_us) \<noteq> []"
      by (auto simp: wall_candidates_empty)
    ultimately show ?thesis unfolding gap_probes_def concat_eq_Nil_conv set_map by blast
  qed
  with assms(2) show ?thesis
    by (auto simp: local_candidate_def n_def Let_def split: list.splits)
qed

lemma require_time_range:
  "require_time v = Inr (h, m) \<Longrightarrow> 0 \<le> h \<and> h \<le> 23 \<and> 0 \<le> m \<and> m \<le> 59"
  by (auto simp: require_time_def bnd_eq_Inr Let_def split: json.splits if_splits)

lemma slot_utc_bound:
  assumes "zone_wf z" and "slot_of z n c"
  shows "n - day_us < utc c" and "utc c < n + 2 * day_us"
proof -
  from assms(2) obtain k where k: "0 \<le> k" "k \<le> 24 * 60" "dt_naive c = n + k * minute_us"
    and z: "dt_zone c = z"
    unfolding slot_of_def by blast
  have near: "\<bar>utc c - dt_naive c\<bar> < day_us"
    using assms(1) z unfolding zone_wf_def utc_def by blast
  from k show "n - day_us < utc c" "utc c < n + 2 * day_us"
    using near by (simp_all add: us_defs)
qed

section \<open>Facts about the scans\<close>

lemma first_after_Some:
  assumes "first_after xs z v = Inr (Some c)"
  shows "v < utc c \<and> (\<exists>ys day t zs. xs = ys @ (day, t) # zs \<and> local_candidate day t z = Inr c \<and>
    (\<forall>(day', t') \<in> set ys. \<exists>c'. local_candidate day' t' z = Inr c' \<and> utc c' \<le> v))"
  using assms
proof (induction xs)
  case (Cons x xs)
  obtain day t where x: "x = (day, t)" by (cases x)
  with Cons.prems obtain c' where c': "local_candidate day t z = Inr c'"
    by (auto simp: bnd_eq_Inr)
  show ?case
  proof (cases "v < utc c'")
    case True
    with Cons.prems x c' show ?thesis by (intro conjI exI [of _ "[]"]) auto
  next
    case False
    with Cons.prems x c' have "first_after xs z v = Inr (Some c)" by simp
    from Cons.IH [OF this] obtain ys day2 t2 zs where ih:
      "v < utc c" "xs = ys @ (day2, t2) # zs" "local_candidate day2 t2 z = Inr c"
      "\<forall>(day', t') \<in> set ys. \<exists>c'. local_candidate day' t' z = Inr c' \<and> utc c' \<le> v" by blast
    with x c' False show ?thesis by (intro conjI exI [of _ "x # ys"]) auto
  qed
qed simp

lemma first_after_None:
  "first_after xs z v = Inr None \<Longrightarrow> (day, t) \<in> set xs \<Longrightarrow>
     \<exists>c. local_candidate day t z = Inr c \<and> utc c \<le> v"
  by (induction xs z v rule: first_after.induct) (auto simp: bnd_eq_Inr split: if_splits)

lemma first_after_total:
  "(\<And>day t. (day, t) \<in> set xs \<Longrightarrow> \<exists>c. local_candidate day t z = Inr c) \<Longrightarrow>
     \<exists>r. first_after xs z v = Inr r"
proof (induction xs z v rule: first_after.induct)
  case (2 day t rest z v)
  from "2.prems" have "\<exists>c. local_candidate day t z = Inr c" by simp
  then obtain c where c: "local_candidate day t z = Inr c" ..
  show ?case
  proof (cases "v < utc c")
    case False
    moreover from 2 False c have "\<exists>r. first_after rest z v = Inr r" by auto
    ultimately show ?thesis using c by simp
  qed (use c in simp)
qed simp

lemma next_full_after_later: "next_full_after tzdb v s = Inr c \<Longrightarrow> utc v < utc c"
  by (auto simp: next_full_after_def bnd_eq_Inr split: option.splits dest: first_after_Some)

lemma incremental_scan_later: "incremental_scan n day s z v = Inr c \<Longrightarrow> v < utc c"
proof (induction n arbitrary: day)
  case (Suc n)
  then show ?case by (auto simp: bnd_eq_Inr split: option.splits dest: first_after_Some)
qed simp

lemma next_incremental_after_later: "next_incremental_after tzdb v s = Inr c \<Longrightarrow> utc v < utc c"
  by (auto simp: next_incremental_after_def bnd_eq_Inr dest: incremental_scan_later)

lemma daily_scan_later: "daily_scan n tzdb p day v = Inr c \<Longrightarrow> v < utc c"
  by (induction n tzdb p day v rule: daily_scan.induct) (auto simp: bnd_eq_Inr split: if_splits)

lemma next_daily_after_later: "next_daily_after tzdb p v = Inr c \<Longrightarrow> utc v < utc c"
  by (auto simp: next_daily_after_def bnd_eq_Inr split: option.splits dest: daily_scan_later)

lemma weekday_in_window:
  assumes "0 \<le> wd" and "wd \<le> 6"
  shows "\<exists>k::nat. 7 \<le> k \<and> k < 15 \<and> weekday (day0 + int k) = wd"
proof -
  define k where "k = 7 + nat ((wd - (day0 + 10)) mod 7)"
  have "int k = 7 + (wd - (day0 + 10)) mod 7" by (simp add: k_def)
  then have "weekday (day0 + int k) = (day0 + 10 + (wd - (day0 + 10)) mod 7) mod 7"
    by (simp add: weekday_def ac_simps)
  also have "\<dots> = wd mod 7" by (simp add: mod_simps)
  finally have "weekday (day0 + int k) = wd" using assms by simp
  moreover have "7 \<le> k" "k < 15" unfolding k_def by auto
  ultimately show ?thesis by blast
qed

lemma day_of_bounds: "day_of n * day_us \<le> n" "n < (day_of n + 1) * day_us"
  by (simp_all add: day_of_def us_defs)

section \<open>Slot steppers\<close>

text \<open>
  What the coalescing loop asks of the calendar: the slot after a time is later than it.
  Each of the three calendars provides it.
\<close>

fun nth_slot :: "(aware \<Rightarrow> aware result) \<Rightarrow> nat \<Rightarrow> aware \<Rightarrow> aware result" where
  "nth_slot step 0 t = Inr t"
| "nth_slot step (Suc k) t = bnd (step t) (nth_slot step k)"

locale slot_stepper =
  fixes step :: "aware \<Rightarrow> aware result"
  assumes later: "step t = Inr u \<Longrightarrow> utc t < utc u"
begin

lemma nth_slot_later: "nth_slot step k t = Inr u \<Longrightarrow> utc t + int k \<le> utc u"
  by (induction k arbitrary: t) (force simp: bnd_eq_Inr dest: later)+

lemma nth_slot_mono: "nth_slot step (j + k) t = Inr u \<Longrightarrow>
    \<exists>s. nth_slot step j t = Inr s \<and> nth_slot step k s = Inr u"
  by (induction j arbitrary: t) (auto simp: bnd_eq_Inr)

lemma coalesce_exact:
  assumes "coalesce_loop limit msg step now r t = Inr (n, u)"
  shows "r \<le> n \<and> nth_slot step (n - r) t = Inr u \<and> now < utc u \<and>
    (\<forall>k < n - r. \<exists>s. nth_slot step k t = Inr s \<and> utc s \<le> now) \<and> n \<le> max r limit"
  using assms
proof (induction "limit - r" arbitrary: r t rule: less_induct)
  case less
  show ?case
  proof (cases "utc t \<le> now")
    case True
    with less.prems obtain nxt where nx: "r + 1 \<le> limit" "step t = Inr nxt"
      "coalesce_loop limit msg step now (r + 1) nxt = Inr (n, u)"
      by (subst (asm) coalesce_loop.simps) (auto split: if_splits sum.splits)
    from nx(1) have "limit - (r + 1) < limit - r" by simp
    from less.hyps [OF this nx(3)] have ih: "r + 1 \<le> n" "nth_slot step (n - (r + 1)) nxt = Inr u"
      "now < utc u" "n \<le> max (r + 1) limit"
      "\<And>k. k < n - (r + 1) \<Longrightarrow> \<exists>s. nth_slot step k nxt = Inr s \<and> utc s \<le> now" by blast+
    have "\<exists>s. nth_slot step k t = Inr s \<and> utc s \<le> now" if "k < n - r" for k
    proof (cases k)
      case (Suc j)
      with that ih(1) have "j < n - (r + 1)" by simp
      with ih(5) nx(2) Suc show ?thesis by simp
    qed (use True in simp)
    moreover have "n - r = Suc (n - (r + 1))" using ih(1) by simp
    ultimately show ?thesis using ih nx by simp
  next
    case False
    with less.prems show ?thesis by (subst (asm) coalesce_loop.simps) auto
  qed
qed

text \<open>The occurrences up to \<open>now\<close> are exactly the first \<open>n\<close> slots.\<close>

lemma coalesce_counts:
  assumes "coalesce_loop limit msg step now 0 t = Inr (n, u)" and "nth_slot step k t = Inr s"
  shows "utc s \<le> now \<longleftrightarrow> k < n"
proof
  assume le: "utc s \<le> now"
  show "k < n"
  proof (rule ccontr)
    assume "\<not> k < n"
    then have "nth_slot step (n + (k - n)) t = Inr s" using assms(2) by simp
    then obtain s' where s': "nth_slot step n t = Inr s'" "nth_slot step (k - n) s' = Inr s"
      using nth_slot_mono by blast
    moreover from coalesce_exact [OF assms(1)] have "nth_slot step n t = Inr u" "now < utc u" by auto
    ultimately show False using nth_slot_later [OF s'(2)] le by simp
  qed
next
  assume "k < n"
  with coalesce_exact [OF assms(1)] assms(2) show "utc s \<le> now" by force
qed

end

interpretation full: slot_stepper "\<lambda>v. next_full_after tzdb v s" for tzdb s
  by unfold_locales (rule next_full_after_later)

interpretation incremental: slot_stepper "\<lambda>v. next_incremental_after tzdb v s" for tzdb s
  by unfold_locales (rule next_incremental_after_later)

interpretation daily: slot_stepper "next_daily_after tzdb p" for tzdb p
  by unfold_locales (rule next_daily_after_later)

abbreviation cursor_step ::
  "(string \<Rightarrow> zone option) \<Rightarrow> string \<Rightarrow> chain_schedule \<Rightarrow> aware \<Rightarrow> aware result" where
  "cursor_step tzdb kind s \<equiv>
     (if kind = ''FULL'' then (\<lambda>v. next_full_after tzdb v s)
      else (\<lambda>v. next_incremental_after tzdb v s))"

interpretation cursor: slot_stepper "cursor_step tzdb kind s" for tzdb kind s
  by unfold_locales (simp split: if_splits, (rule full.later incremental.later; assumption)+)

section \<open>The calendars\<close>

lemma full_slots_set:
  "(day, t) \<in> set (full_slots day0 s) \<longleftrightarrow>
     t = cs_full_time s \<and> weekday day = cs_full_weekday s \<and> day0 \<le> day \<and> day < day0 + 15"
proof -
  have "day \<in> (\<lambda>k. day0 + int k) ` {0..<15} \<longleftrightarrow> day0 \<le> day \<and> day < day0 + 15"
    by (auto intro!: image_eqI [of _ _ "nat (day - day0)"])
  then show ?thesis by (auto simp: full_slots_def)
qed

lemma full_slots_sorted: "sorted_wrt (\<lambda>x y. fst x < fst y) (full_slots day0 s)"
proof -
  have "sorted_wrt (<) (map (\<lambda>k. day0 + int k) [0..<15])"
    by (simp add: sorted_wrt_map sorted_wrt_upt)
  then show ?thesis by (simp add: full_slots_def sorted_wrt_map sorted_wrt_filter del: upt_rec_numeral)
qed

lemma sorted_before:
  assumes "sorted_wrt (\<lambda>x y. fst x < (fst y :: int)) (ys @ x # zs)"
    and "y \<in> set (ys @ x # zs)" and "fst y < fst x"
  shows "y \<in> set ys"
  using assms by (auto simp: sorted_wrt_append)

text \<open>C10: \<open>next_full_after\<close> returns the first FULL slot strictly after the cursor: it is
  the slot of \<open>full_time\<close> on a day with the wanted weekday, not before the cursor's local
  day, and the slot of every earlier such day is not after the cursor.\<close>

theorem next_full_after_first:
  assumes "tzdb (cs_timezone s) = Some z" and "next_full_after tzdb v s = Inr c"
  shows "utc v < utc c \<and> (\<exists>day h m.
    require_time (JStr (cs_full_time s)) = Inr (h, m) \<and>
    weekday day = cs_full_weekday s \<and> day_of (local_naive z v) \<le> day \<and>
    slot_of z (day * day_us + (h * 60 + m) * minute_us) c \<and>
    (\<forall>day'. day_of (local_naive z v) \<le> day' \<and> day' < day \<and> weekday day' = cs_full_weekday s \<longrightarrow>
       (\<exists>c'. local_candidate day' (cs_full_time s) z = Inr c' \<and> utc c' \<le> utc v)))"
proof -
  let ?d0 = "day_of (local_naive z v)"
  from assms have "first_after (full_slots ?d0 s) z (utc v) = Inr (Some c)"
    by (auto simp: next_full_after_def zone_info_def bnd_eq_Inr split: option.splits)
  from first_after_Some [OF this] obtain ys day t zs where
    later: "utc v < utc c" and split: "full_slots ?d0 s = ys @ (day, t) # zs"
    and cand: "local_candidate day t z = Inr c"
    and before: "\<And>day' t'. (day', t') \<in> set ys \<Longrightarrow>
      \<exists>c'. local_candidate day' t' z = Inr c' \<and> utc c' \<le> utc v" by blast
  have "(day, t) \<in> set (full_slots ?d0 s)" by (simp add: split)
  then have day: "t = cs_full_time s" "weekday day = cs_full_weekday s" "?d0 \<le> day" "day < ?d0 + 15"
    by (simp_all add: full_slots_set)
  have "\<exists>c'. local_candidate day' t z = Inr c' \<and> utc c' \<le> utc v"
    if "?d0 \<le> day' \<and> day' < day \<and> weekday day' = cs_full_weekday s" for day'
  proof -
    from that day have "(day', t) \<in> set (full_slots ?d0 s)" by (simp add: full_slots_set)
    from sorted_before [OF full_slots_sorted [of ?d0 s, unfolded split] this [unfolded split]] that
    have "(day', t) \<in> set ys" by simp
    then show ?thesis by (rule before)
  qed
  moreover from local_candidate_slot [OF cand] obtain h m where
    "require_time (JStr t) = Inr (h, m)" "slot_of z (day * day_us + (h * 60 + m) * minute_us) c"
    by blast
  ultimately show ?thesis using later day by blast
qed

lemma slot_after_cursor:
  assumes wf: "zone_wf z" and hm: "require_time (JStr t) = Inr (h, m)"
    and far: "day_of (local_naive z v) + 3 \<le> day" and c: "local_candidate day t z = Inr c"
  shows "utc v < utc c"
proof -
  let ?d0 = "day_of (local_naive z v)"
  from local_candidate_slot [OF c] hm
  have slot: "slot_of z (day * day_us + (h * 60 + m) * minute_us) c" by auto
  have "\<bar>local_naive z v - utc v\<bar> < day_us"
    using wf unfolding zone_wf_def local_naive_def by blast
  moreover have "local_naive z v < (?d0 + 1) * day_us" by (rule day_of_bounds)
  moreover have "(?d0 + 1) * day_us + 2 * day_us \<le> day * day_us"
    using mult_right_mono [OF far, of day_us] by (simp add: us_defs)
  moreover have "0 \<le> (h * 60 + m) * minute_us"
    using require_time_range [OF hm] by (simp add: us_defs)
  moreover note slot_utc_bound(1) [OF wf slot]
  ultimately show ?thesis by linarith
qed

lemma next_full_after_total:
  assumes tz: "tzdb (cs_timezone s) = Some z" and wf: "zone_wf z"
    and wd: "0 \<le> cs_full_weekday s" "cs_full_weekday s \<le> 6"
    and hm: "require_time (JStr (cs_full_time s)) = Inr (h, m)"
  shows "\<exists>c. next_full_after tzdb v s = Inr c"
proof -
  let ?d0 = "day_of (local_naive z v)"
  have "\<exists>r. first_after (full_slots ?d0 s) z (utc v) = Inr r"
    by (rule first_after_total) (simp add: full_slots_set local_candidate_total [OF wf hm])
  then obtain r where r: "first_after (full_slots ?d0 s) z (utc v) = Inr r" by blast
  have "r \<noteq> None"
  proof
    assume none: "r = None"
    from weekday_in_window [OF wd] obtain k where
      k: "7 \<le> k" "k < 15" "weekday (?d0 + int k) = cs_full_weekday s" by blast
    then have "(?d0 + int k, cs_full_time s) \<in> set (full_slots ?d0 s)" by (simp add: full_slots_set)
    from first_after_None [OF r [unfolded none] this] obtain c where
      c: "local_candidate (?d0 + int k) (cs_full_time s) z = Inr c" "utc c \<le> utc v" by blast
    from slot_after_cursor [OF wf hm _ c(1), of v] k(1) c(2) show False by force
  qed
  with r tz show ?thesis by (auto simp: next_full_after_def zone_info_def)
qed

lemma incremental_scan_total:
  assumes wf: "zone_wf z" and t: "t \<in> set (cs_incremental_times s)"
    and hms: "\<And>t. t \<in> set (cs_incremental_times s) \<Longrightarrow> \<exists>h m. require_time (JStr t) = Inr (h, m)"
  shows "day_of (local_naive z v) + 3 < day + int n \<Longrightarrow> \<exists>c. incremental_scan n day s z (utc v) = Inr c \<or>
    n = 0"
proof (induction n arbitrary: day)
  case (Suc n)
  let ?xs = "map (\<lambda>t. (day, t)) (cs_incremental_times s)"
  have "\<exists>r. first_after ?xs z (utc v) = Inr r"
    using hms local_candidate_total [OF wf] by (intro first_after_total) fastforce
  then obtain r where r: "first_after ?xs z (utc v) = Inr r" by blast
  show ?case
  proof (cases r)
    case None
    from t have "(day, t) \<in> set ?xs" by simp
    from first_after_None [OF r [unfolded None] this] obtain c where
      c: "local_candidate day t z = Inr c" "utc c \<le> utc v" by blast
    from hms [OF t] obtain h m where hm: "require_time (JStr t) = Inr (h, m)" by blast
    have near: "day < day_of (local_naive z v) + 3"
      using slot_after_cursor [OF wf hm _ c(1), of v] c(2) by force
    with Suc.prems have "n \<noteq> 0" by simp
    with Suc.IH [of "day + 1"] Suc.prems r None show ?thesis by auto
  qed (use r in simp)
qed simp

lemma next_incremental_after_total:
  assumes tz: "tzdb (cs_timezone s) = Some z" and wf: "zone_wf z"
    and ts: "cs_incremental_times s \<noteq> []"
    and hms: "\<And>t. t \<in> set (cs_incremental_times s) \<Longrightarrow> \<exists>h m. require_time (JStr t) = Inr (h, m)"
  shows "\<exists>c. next_incremental_after tzdb v s = Inr c"
proof -
  from ts obtain t where "t \<in> set (cs_incremental_times s)" by (cases "cs_incremental_times s") auto
  from incremental_scan_total [OF wf this hms, of v "day_of (local_naive z v)" 3700] tz
  show ?thesis by (simp add: next_incremental_after_def zone_info_def)
qed

section \<open>Validated schedules\<close>

definition schedule_wf :: "chain_schedule \<Rightarrow> bool" where
  "schedule_wf s \<longleftrightarrow>
     0 \<le> cs_full_weekday s \<and> cs_full_weekday s \<le> 6 \<and>
     (\<exists>hm. require_time (JStr (cs_full_time s)) = Inr hm) \<and>
     1 \<le> length (cs_incremental_times s) \<and> length (cs_incremental_times s) \<le> 4 \<and>
     sorted (cs_incremental_times s) \<and> distinct (cs_incremental_times s) \<and>
     (\<forall>t \<in> set (cs_incremental_times s). \<exists>hm. require_time (JStr t) = Inr hm)"

lemma normalize_times_Inr:
  "normalize_times vs acc = Inr ts \<Longrightarrow> distinct acc \<Longrightarrow>
     (\<forall>t \<in> set acc. \<exists>hm. require_time (JStr t) = Inr hm) \<Longrightarrow>
     distinct ts \<and> JStr ` set ts = JStr ` set acc \<union> set vs \<and> length ts \<le> length acc + length vs \<and>
     (\<forall>t \<in> set ts. \<exists>hm. require_time (JStr t) = Inr hm)"
proof (induction vs acc rule: normalize_times.induct)
  case (2 v vs acc)
  then obtain t hm where v: "v = JStr t" "require_time (JStr t) = Inr hm"
    by (auto simp: bnd_eq_Inr split: json.splits)
  let ?acc = "if t \<in> set acc then acc else acc @ [t]"
  have "normalize_times vs ?acc = Inr ts" using "2.prems"(1) v by simp
  moreover have "distinct ?acc" using "2.prems"(2) by simp
  moreover have "\<forall>t \<in> set ?acc. \<exists>hm. require_time (JStr t) = Inr hm"
    using "2.prems"(3) v by simp
  ultimately have ih: "distinct ts" "JStr ` set ts = JStr ` set ?acc \<union> set vs"
    "length ts \<le> length ?acc + length vs"
    "\<forall>t \<in> set ts. \<exists>hm. require_time (JStr t) = Inr hm"
    using "2.IH" [OF v(2) [folded v(1)] v(1)] by blast+
  have "JStr ` set ?acc \<union> set vs = JStr ` set acc \<union> set (v # vs)" using v(1) by auto
  moreover have "length ?acc + length vs \<le> length acc + length (v # vs)" by simp
  ultimately show ?case using ih by (metis le_trans)
qed auto

lemma validate_chain_schedule_Inr:
  assumes "validate_chain_schedule tzdb tz wd ft ts = Inr s"
  shows "schedule_wf s \<and> ft = JStr (cs_full_time s) \<and>
    (\<exists>vs. ts = JList vs \<and> set vs = JStr ` set (cs_incremental_times s))"
proof -
  from assms obtain w fs vs normalized where s: "0 \<le> w" "w \<le> 6" "ft = JStr fs" "ts = JList vs"
    "1 \<le> length vs" "length vs \<le> 4" "\<exists>hm. require_time (JStr fs) = Inr hm"
    "normalize_times vs [] = Inr normalized" "normalized \<noteq> []"
    "cs_full_weekday s = w" "cs_full_time s = fs" "cs_incremental_times s = sort normalized"
    unfolding validate_chain_schedule_def
    by (auto simp: bnd_eq_Inr split: json.splits if_splits)
  from normalize_times_Inr [OF s(8)] have "distinct normalized"
    "JStr ` set normalized = set vs" "length normalized \<le> length vs"
    "\<forall>t \<in> set normalized. \<exists>hm. require_time (JStr t) = Inr hm" by auto
  moreover have "1 \<le> length normalized" using s(9) by (simp add: Suc_le_eq)
  ultimately show ?thesis using s by (auto simp: schedule_wf_def)
qed

text \<open>a schedule that \<open>validate_chain_schedule\<close> accepts is normal: weekday in 0..6, one
  to four distinct HH:MM values in ascending order, every one (and the FULL time) a time of
  day; and they are exactly the values that were passed.\<close>

theorem validate_chain_schedule_normal:
  assumes "validate_chain_schedule tzdb tz wd ft ts = Inr s"
  shows "schedule_wf s \<and> ft = JStr (cs_full_time s) \<and>
    (\<exists>vs. ts = JList vs \<and> set vs = JStr ` set (cs_incremental_times s))"
  using assms by (rule validate_chain_schedule_Inr)

text \<open>C11: initialising a schedule succeeds in every zone of the database whose offsets are
  below a day and whose gaps are: both cursors are then strictly in the future.\<close>

theorem initialize_chain_schedule_total:
  assumes "validate_chain_schedule tzdb tz wd ft ts = Inr base"
    and "tzdb (cs_timezone base) = Some z" and "zone_wf z"
  shows "\<exists>cad. initialize_chain_schedule tzdb now tz wd ft ts = Inr cad \<and> cd_enabled cad \<and>
    schedule_wf (chain_schedule.truncate cad) \<and>
    utc now < utc (cd_next_full_at cad) \<and> utc now < utc (cd_next_incremental_at cad)"
proof -
  from validate_chain_schedule_Inr [OF assms(1)] have wf: "schedule_wf base" by blast
  then obtain h m where hm: "require_time (JStr (cs_full_time base)) = Inr (h, m)"
    by (auto simp: schedule_wf_def)
  from wf have wd: "0 \<le> cs_full_weekday base" "cs_full_weekday base \<le> 6"
    and ts: "cs_incremental_times base \<noteq> []"
    and hms: "\<And>t. t \<in> set (cs_incremental_times base) \<Longrightarrow> \<exists>h m. require_time (JStr t) = Inr (h, m)"
    by (auto simp: schedule_wf_def)
  from next_full_after_total [where v = now, of tzdb base z, OF assms(2,3) wd hm] obtain f where
    f: "next_full_after tzdb now base = Inr f" by blast
  from next_incremental_after_total [where v = now, of tzdb base z, OF assms(2,3) ts hms] obtain i where
    i: "next_incremental_after tzdb now base = Inr i" by blast
  from assms(1) f i wf next_full_after_later [OF f] next_incremental_after_later [OF i]
  show ?thesis
    by (simp add: initialize_chain_schedule_def chain_schedule.defs cadence.defs schedule_wf_def)
qed

section \<open>Advancing a cursor\<close>

text \<open>C9: \<open>advance_cursor\<close> consumes each missed slot exactly once: counting from the cursor,
  slot number \<open>k\<close> is at or before \<open>now\<close> if and only if \<open>k\<close> is below the returned count,
  and the returned cursor is the slot after them, strictly after \<open>now\<close>.\<close>

theorem advance_cursor_exact:
  assumes "advance_cursor tzdb cursor now kind s = Inr (n, next_cursor)"
  shows "1 \<le> n \<and> n \<le> 100000 \<and> nth_slot (cursor_step tzdb kind s) n cursor = Inr next_cursor \<and>
    utc now < utc next_cursor \<and>
    (\<forall>k slot. nth_slot (cursor_step tzdb kind s) k cursor = Inr slot \<longrightarrow>
       (utc slot \<le> utc now \<longleftrightarrow> k < n))"
proof -
  from assms have due: "utc cursor \<le> utc now"
    and run: "coalesce_loop 100000 ''schedule backlog is unreasonably large''
      (cursor_step tzdb kind s) (utc now) 0 cursor = Inr (n, next_cursor)"
    by (simp_all add: advance_cursor_def split: if_splits)
  note exact = cursor.coalesce_exact [OF run] and counts = cursor.coalesce_counts [OF run]
  have "0 < n" using counts [of 0 cursor] due by simp
  with exact counts show ?thesis by auto
qed

text \<open>for an INTERVAL policy \<open>advance_due\<close> counts the due occurrences exactly: the last
  one represented is at or before \<open>now\<close>, and the next run is one interval later, after
  \<open>now\<close>; the time must carry a constant offset, as a stored time does.\<close>

theorem advance_due_interval:
  assumes "60 \<le> sp_interval_seconds p" and "sp_schedule_type p = INTERVAL"
    and "dt_zone due = fixed_zone off" and "utc due \<le> utc now"
  shows "\<exists>n next_run. advance_due tzdb p due now = Inr (n, next_run) \<and> 1 \<le> n \<and>
    utc next_run = utc due + int n * (sp_interval_seconds p * second_us) \<and>
    utc due + (int n - 1) * (sp_interval_seconds p * second_us) \<le> utc now \<and>
    utc now < utc next_run"
proof -
  define i where "i = sp_interval_seconds p * second_us"
  define q where "q = (utc now - utc due) div i"
  have i: "0 < i" using assms(1) by (simp add: i_def us_defs)
  then have q: "0 \<le> q" using assms(4) by (simp add: q_def pos_imp_zdiv_nonneg_iff)
  have "utc now - utc due = q * i + (utc now - utc due) mod i" by (simp add: q_def)
  moreover have "0 \<le> (utc now - utc due) mod i" "(utc now - utc due) mod i < i"
    using i by simp_all
  ultimately have low: "q * i \<le> utc now - utc due" and high: "utc now - utc due < (q + 1) * i"
    by (simp_all add: algebra_simps)
  have run: "advance_due tzdb p due now = Inr (nat (q + 1), plus_wall due ((q + 1) * i))"
    using assms by (simp add: advance_due_def i_def q_def Let_def mult.assoc)
  moreover have "utc (plus_wall due ((q + 1) * i)) = utc due + (q + 1) * i"
    using assms(3) by (simp add: plus_wall_def utc_def fixed_zone_def)
  ultimately show ?thesis using q low high unfolding i_def [symmetric] by simp
qed

text \<open>The two slot computations compared.\<close>

lemma valid_local_candidates_cases:
  "valid_local_candidates n z =
     (if wall_exists z n False \<and> wall_exists z n True then
        (if z_utc z n False = z_utc z n True then [in_zone z n False]
         else if z_utc z n False < z_utc z n True then [in_zone z n False, in_zone z n True]
         else [in_zone z n True, in_zone z n False])
      else wall_candidates z n)"
  by (auto simp: valid_local_candidates_def wall_candidates_def)

lemma valid_local_candidates_head:
  assumes "\<And>n. wall_exists z n False \<Longrightarrow> wall_exists z n True \<Longrightarrow> z_utc z n False \<le> z_utc z n True"
  shows "(valid_local_candidates n z = [] \<longleftrightarrow> wall_candidates z n = []) \<and>
    (wall_candidates z n \<noteq> [] \<longrightarrow> hd (valid_local_candidates n z) = hd (wall_candidates z n))"
  using assms [of n] by (auto simp: valid_local_candidates_cases wall_candidates_def)

lemma hd_concat_cong:
  assumes "\<And>x. (f x = [] \<longleftrightarrow> g x = []) \<and> (g x \<noteq> [] \<longrightarrow> hd (f x) = hd (g x))"
  shows "(concat (map f xs) = [] \<longleftrightarrow> concat (map g xs) = []) \<and>
    (concat (map g xs) \<noteq> [] \<longrightarrow> hd (concat (map f xs)) = hd (concat (map g xs)))"
proof (induction xs)
  case (Cons x xs)
  with assms [of x] show ?case by (cases "g x = []") (simp_all add: hd_append)
qed simp

lemma arg_min_list_wall:
  assumes "\<And>n. wall_exists z n False \<Longrightarrow> wall_exists z n True \<Longrightarrow> z_utc z n False \<le> z_utc z n True"
    and "wall_candidates z n \<noteq> []"
  shows "arg_min_list utc (wall_candidates z n) = hd (wall_candidates z n)"
  using assms(2) assms(1) [of n] by (auto simp: wall_candidates_def)

lemma hd_case: "(case xs of c # _ \<Rightarrow> Inr c | [] \<Rightarrow> e) = (if xs = [] then e else Inr (hd xs))"
  by (cases xs) simp_all

text \<open>C12: the DAILY slot of a date and the chain slot of the same date and time are the
  same datetime, in every zone where of two readings of one wall time the one with fold 0
  comes first: the two routines agree on the gap and on the ambiguous hour.\<close>

theorem daily_slot_is_chain_slot:
  assumes "\<And>n. wall_exists z n False \<Longrightarrow> wall_exists z n True \<Longrightarrow> z_utc z n False \<le> z_utc z n True"
    and "sp_schedule_type p = DAILY" and "sp_daily_time p = Some t"
    and "sp_schedule_timezone p = Some tz" and "tzdb tz = Some z"
    and "require_time (JStr t) = Inr (h, m)" and "local_candidate day t z = Inr c"
  shows "daily_slot_for_date tzdb p day = Inr c"
proof -
  define n where "n = day * day_us + (h * 60 + m) * minute_us"
  from assms(6) have hm: "int_of_str (take 2 t) = Inr h" "int_of_str (slice_from 3 t) = Inr m"
    by (auto simp: require_time_def bnd_eq_Inr Let_def split: if_splits)
  note heads = valid_local_candidates_head [OF assms(1)]
  note gaps = hd_concat_cong [of "\<lambda>k. valid_local_candidates (n + int k * minute_us) z"
    "\<lambda>k. wall_candidates z (n + int k * minute_us)" probe_minutes, OF heads]
  show ?thesis
  proof (cases "wall_candidates z n = []")
    case True
    with assms(6,7) have "gap_probes z n \<noteq> []" "c = hd (gap_probes z n)"
      by (auto simp: local_candidate_def n_def Let_def hd_case split: if_splits)
    with True heads [of n] gaps show ?thesis
      using assms(2-5) hm
      by (simp add: daily_slot_for_date_def zone_info_def Let_def hd_case n_def gap_probes_def)
  next
    case False
    with assms(6,7) arg_min_list_wall [OF assms(1) False] have "c = hd (wall_candidates z n)"
      by (simp add: local_candidate_def n_def)
    with False heads [of n] show ?thesis
      using assms(2-5) hm by (simp add: daily_slot_for_date_def zone_info_def Let_def hd_case n_def)
  qed
qed

section \<open>Examples\<close>

text \<open>A database of one zone, a schedule with Monday FULLs, and Thursday 1970-01-01.\<close>

definition example_tzdb :: "string \<Rightarrow> zone option" where
  "example_tzdb name = (if name = ''UTC'' then Some (fixed_zone 0) else None)"

definition example_schedule :: chain_schedule where
  "example_schedule = \<lparr>cs_timezone = ''UTC'', cs_full_weekday = 0, cs_full_time = ''02:00'',
     cs_incremental_times = [''06:30'', ''18:00'']\<rparr>"

definition example_time :: "int \<Rightarrow> aware" where
  "example_time hours = in_zone (fixed_zone 0) (hours * 60 * minute_us) False"

lemma example_times:
  "require_time (JStr ''02:00'') = Inr (2, 0)"
  "require_time (JStr ''06:30'') = Inr (6, 30)"
  "require_time (JStr ''18:00'') = Inr (18, 0)"
  by code_simp+

lemma example_validated:
  "validate_chain_schedule example_tzdb (JStr ''UTC'') (JInt 0) (JStr ''02:00'')
     (JList [JStr ''18:00'', JStr ''06:30'', JStr ''18:00'']) = Inr example_schedule"
  by code_simp

lemma example_zone_wf: "zone_wf (fixed_zone 0)"
  by (rule fixed_zone_wf) (simp add: us_defs)

theorem validate_chain_schedule_normal_witness:
  "schedule_wf example_schedule"
  using validate_chain_schedule_normal [OF example_validated] by blast

theorem next_full_after_first_witness:
  "\<exists>c. next_full_after example_tzdb (example_time 5) example_schedule = Inr c \<and>
     utc (example_time 5) < utc c \<and> utc c = 4 * day_us + 2 * 60 * minute_us"
proof -
  let ?r = "next_full_after example_tzdb (example_time 5) example_schedule"
  have ok: "\<not> isl ?r" and v: "utc (projr ?r) = 4 * day_us + 2 * 60 * minute_us" by code_simp+
  have "example_tzdb (cs_timezone example_schedule) = Some (fixed_zone 0)"
    by (simp add: example_tzdb_def example_schedule_def)
  from next_full_after_first [OF this Inr_projr [OF ok]] v show ?thesis
    using Inr_projr [OF ok] by blast
qed

theorem initialize_chain_schedule_total_witness:
  "\<exists>cad. initialize_chain_schedule example_tzdb (example_time 5) (JStr ''UTC'') (JInt 0)
     (JStr ''02:00'') (JList [JStr ''18:00'', JStr ''06:30'', JStr ''18:00'']) = Inr cad \<and>
     utc (example_time 5) < utc (cd_next_full_at cad)"
proof -
  have "example_tzdb (cs_timezone example_schedule) = Some (fixed_zone 0)"
    by (simp add: example_tzdb_def example_schedule_def)
  from initialize_chain_schedule_total [OF example_validated this example_zone_wf]
  show ?thesis by blast
qed

theorem advance_cursor_exact_witness:
  "\<exists>c. advance_cursor example_tzdb (example_time 98) (example_time 100) ''FULL'' example_schedule
     = Inr (1, c) \<and> utc (example_time 100) < utc c"
proof -
  let ?r = "next_full_after example_tzdb (example_time 98) example_schedule"
  have ok: "\<not> isl ?r" and v: "utc (projr ?r) = 11 * day_us + 2 * 60 * minute_us" by code_simp+
  then obtain c where c: "?r = Inr c" "utc c = 11 * day_us + 2 * 60 * minute_us"
    using Inr_projr by metis
  have t: "utc (example_time n) = n * 60 * minute_us" for n
    by (simp add: example_time_def fixed_zone_def)
  have "advance_cursor example_tzdb (example_time 98) (example_time 100) ''FULL'' example_schedule
      = Inr (1, c)"
    using c by (simp add: advance_cursor_def t coalesce_loop.simps us_defs)
  from advance_cursor_exact [OF this] this show ?thesis by blast
qed

definition hourly :: schedule_policy where
  "hourly = \<lparr>sp_interval_seconds = 3600, sp_misfire_grace_seconds = 0,
     sp_schedule_type = INTERVAL, sp_daily_time = None, sp_schedule_timezone = None\<rparr>"

definition nightly :: schedule_policy where
  "nightly = \<lparr>sp_interval_seconds = 3600, sp_misfire_grace_seconds = 0,
     sp_schedule_type = DAILY, sp_daily_time = Some ''02:00'', sp_schedule_timezone = Some ''UTC''\<rparr>"

theorem advance_due_interval_witness:
  "\<exists>n next_run. advance_due example_tzdb hourly (example_time 5) (example_time 9) = Inr (n, next_run) \<and>
     utc (example_time 9) < utc next_run"
  using advance_due_interval [of hourly "example_time 5" 0 "example_time 9" example_tzdb]
  by (auto simp: hourly_def example_time_def fixed_zone_def us_defs)

theorem daily_slot_is_chain_slot_witness:
  "\<exists>c. local_candidate 3 ''02:00'' (fixed_zone 0) = Inr c \<and>
     daily_slot_for_date example_tzdb nightly 3 = Inr c"
proof -
  let ?r = "local_candidate 3 ''02:00'' (fixed_zone 0)"
  have ok: "\<not> isl ?r" by code_simp
  show ?thesis
    using daily_slot_is_chain_slot [of "fixed_zone 0" nightly "''02:00''" "''UTC''" example_tzdb,
        OF _ _ _ _ _ example_times(1) Inr_projr [OF ok]] Inr_projr [OF ok]
    by (auto simp: fixed_zone_def nightly_def example_tzdb_def)
qed

end
