(* ===== verification/Store.thy ===== *)
theory Store
  imports Schedule
begin

text \<open>
  The compact database behind \<open>RepositoryV2\<close> (\<open>repository_v2.py\<close>, tables of
  \<open>schema_v2.py\<close>): one list of rows per table, in the order of insertion. A JSON column is
  the object \<open>json.loads\<close> returns for it; the \<open>chain_schedule\<close> entry of a job's policy is
  kept decoded, as the cadence that \<open>initialize_chain_schedule\<close> returned. Timestamps that
  SQL compares are texts. A method is a state operation (\<open>op\<close> of the prelude); the calls it
  makes inside one SQLite transaction are one update of the state.

  Which text \<open>isoformat\<close> writes for a time, and what \<open>fromisoformat\<close> and \<open>float\<close> read from
  a text, are fields of \<open>text_env\<close>; \<open>iso_ok\<close> states the documented round trip, and that what is read carries a
  constant offset.
\<close>

section \<open>Rows\<close>

record vm_row =
  vr_id :: string
  vr_node_id :: string
  vr_name :: string
  vr_external_id :: "string option"
  vr_domain_uuid :: "string option"

record storage_row =
  sr_id :: string
  sr_node_id :: string
  sr_name :: string
  sr_type :: string
  sr_config :: dict
  sr_created_at :: string

record job_row =
  jo_id :: string
  jo_vm_id :: string
  jo_storage_id :: string
  jo_name :: string
  jo_enabled :: bool
  jo_policy :: dict
  jo_chain :: "cadence option"
  jo_created_at :: string

record run_row =
  rr_id :: string
  rr_job_id :: string
  rr_storage_id :: string
  rr_state :: string
  rr_context :: dict
  rr_created_at :: string
  rr_updated_at :: string

record event_row =
  er_run_id :: string
  er_type :: string
  er_data :: dict

record point_row =
  pr_id :: string
  pr_run_id :: string
  pr_kind :: string
  pr_status :: string
  pr_metadata :: dict
  pr_created_at :: string

record task_row =
  ta_id :: string
  ta_run_id :: string
  ta_type :: string
  ta_state :: string
  ta_attempts :: int
  ta_error :: "string option"
  ta_details :: dict

record artifact_row =
  ar_id :: string
  ar_run_id :: string
  ar_kind :: string
  ar_metadata :: dict
  ar_created_at :: string

record restore_row =
  rs_id :: string
  rs_point_id :: string
  rs_source_destination_id :: string
  rs_target_node_id :: string
  rs_source_role :: string
  rs_bundle_object_id :: string
  rs_target_vm_name :: string
  rs_target_domain_uuid :: string
  rs_target_root :: string
  rs_network_mode :: string
  rs_start_after_restore :: bool
  rs_state :: string
  rs_error :: "string option"
  rs_recovery_reason :: "string option"
  rs_created_at :: string
  rs_updated_at :: string

record db =
  db_nodes :: "string list"
  db_vms :: "vm_row list"
  db_storages :: "storage_row list"
  db_jobs :: "job_row list"
  db_runs :: "run_row list"
  db_events :: "event_row list"
  db_points :: "point_row list"
  db_tasks :: "task_row list"
  db_artifacts :: "artifact_row list"
  db_restores :: "restore_row list"

type_synonym 'a dbop = "(db, 'a) op"

abbreviation domain_error :: "string \<Rightarrow> 'a result" where
  "domain_error code \<equiv> Inl (DomainInvariantError code)"

record text_env =
  te_tzdb :: "string \<Rightarrow> zone option"
  te_iso :: "aware \<Rightarrow> string"
  te_from_iso :: "string \<Rightarrow> aware result"
  te_float :: "string \<Rightarrow> rat option"

definition iso_ok :: "text_env \<Rightarrow> bool" where
  "iso_ok te \<longleftrightarrow>
     (\<forall>d. te_iso te d \<noteq> [] \<and> te_from_iso te (te_iso te d) = Inr (reparsed d)) \<and>
     (\<forall>s d. te_from_iso te s = Inr d \<longrightarrow> (\<exists>off. dt_zone d = fixed_zone off))"

section \<open>The job record and its JSON policy\<close>

record job =
  jb_id :: string
  jb_vm_id :: string
  jb_name :: string
  jb_storage_id :: string
  jb_enabled :: bool
  jb_max_incrementals :: int
  jb_retention :: retention_policy
  jb_schedule :: schedule_policy
  jb_next_run_at :: "aware option"
  jb_created_at :: string

fun reclaim_mode_value :: "space_reclaim_mode \<Rightarrow> string" where
  "reclaim_mode_value SAFE = ''SAFE''"
| "reclaim_mode_value SPACE_OPTIMIZED = ''SPACE_OPTIMIZED''"

fun schedule_type_value :: "schedule_type \<Rightarrow> string" where
  "schedule_type_value INTERVAL = ''INTERVAL''"
| "schedule_type_value DAILY = ''DAILY''"

definition job_policy :: "text_env \<Rightarrow> job \<Rightarrow> string list \<Rightarrow> dict" where
  "job_policy te v replicas =
     [(''backup'', JObj [(''max_incrementals_per_chain'', JInt (jb_max_incrementals v))]),
      (''retention'', JObj
         [(''restore_points_to_retain'', JInt (restore_points_to_retain (jb_retention v))),
          (''minimum_full_chains'', JInt (minimum_full_chains (jb_retention v))),
          (''full_chains_to_retain'', JInt (full_chains_to_retain (jb_retention v))),
          (''space_reclaim_mode'', JStr (reclaim_mode_value (reclaim_mode (jb_retention v)))),
          (''backup_size_margin_percent'', JFloat (backup_size_margin_percent (jb_retention v)))]),
      (''schedule'', JObj
         [(''interval_seconds'', JInt (sp_interval_seconds (jb_schedule v))),
          (''misfire_grace_seconds'', JInt (sp_misfire_grace_seconds (jb_schedule v))),
          (''catch_up_mode'', JStr ''RUN_ONCE''), (''overlap_policy'', JStr ''SKIP_IF_BUSY''),
          (''schedule_type'', JStr (schedule_type_value (sp_schedule_type (jb_schedule v)))),
          (''daily_time'', opt_json (sp_daily_time (jb_schedule v))),
          (''schedule_timezone'', opt_json (sp_schedule_timezone (jb_schedule v)))]),
      (''next_run_at'', (case jb_next_run_at v of None \<Rightarrow> JNull | Some d \<Rightarrow> JStr (te_iso te d))),
      (''replica_destination_ids'', JList (map JStr replicas))]"

text \<open>\<open>policy.get(name, {})\<close> followed by \<open>.get\<close>: a value that is no object has no \<open>get\<close>.\<close>

definition section_of :: "dict \<Rightarrow> string \<Rightarrow> dict result" where
  "section_of policy name =
     (case dget_or policy name (JObj []) of JObj d \<Rightarrow> Inr d | _ \<Rightarrow> Inl OtherException)"

text \<open>The text of an enum argument; a value that is no text names no member.\<close>

definition enum_text :: "json \<Rightarrow> string" where
  "enum_text v = (case v of JStr s \<Rightarrow> s | _ \<Rightarrow> [])"

text \<open>\<open>float(value)\<close>; an infinity or NaN is outside every range that is checked.\<close>

fun py_float :: "text_env \<Rightarrow> json \<Rightarrow> rat result" where
  "py_float te (JInt i) = Inr (fl (of_int i))"
| "py_float te (JBool b) = Inr (if b then 1 else 0)"
| "py_float te (JFloat r) = Inr r"
| "py_float te (JInf pos) = Inr (if pos then 101 else - 1)"
| "py_float te JNaN = Inr (- 1)"
| "py_float te (JStr s) =
     (case te_float te s of None \<Rightarrow> Inl (ValueError ''could not convert string to float'') | Some r \<Rightarrow> Inr r)"
| "py_float te _ = Inl TypeError"

text \<open>\<open>except (TypeError, ValueError, KeyError)\<close> around the conversion.\<close>

definition policy_guard :: "string \<Rightarrow> 'a result \<Rightarrow> 'a result" where
  "policy_guard code r =
     (case r of
        Inl TypeError \<Rightarrow> domain_error code
      | Inl (ValueError _) \<Rightarrow> domain_error code
      | Inl KeyError \<Rightarrow> domain_error code
      | _ \<Rightarrow> r)"

definition read_retention :: "text_env \<Rightarrow> dict \<Rightarrow> retention_policy result" where
  "read_retention te retention =
     bnd (py_int (dget_or retention ''restore_points_to_retain'' (JInt 7))) (\<lambda>points.
     bnd (py_int (dget_or retention ''minimum_full_chains'' (JInt 1))) (\<lambda>minimum.
     bnd (py_int (dget_or retention ''full_chains_to_retain'' (JInt 2))) (\<lambda>fulls.
     bnd (py_float te (dget_or retention ''backup_size_margin_percent'' (JFloat 20))) (\<lambda>margin.
     make_retention_policy points minimum fulls
       (enum_text (dget_or retention ''space_reclaim_mode'' (JStr ''SAFE''))) margin))))"

definition read_schedule :: "text_env \<Rightarrow> dict \<Rightarrow> schedule_policy result" where
  "read_schedule te schedule =
     bnd (py_int (dget_or schedule ''interval_seconds'' (JInt 3600))) (\<lambda>interval.
     bnd (py_int (dget_or schedule ''misfire_grace_seconds'' (JInt 0))) (\<lambda>grace.
     let catch_up = enum_text (dget_or schedule ''catch_up_mode'' (JStr ''RUN_ONCE''));
         overlap = enum_text (dget_or schedule ''overlap_policy'' (JStr ''SKIP_IF_BUSY''))
     in if catch_up \<noteq> ''RUN_ONCE'' then Inl (ValueError ''invalid catch_up_mode'')
        else if overlap \<noteq> ''SKIP_IF_BUSY'' then Inl (ValueError ''invalid overlap_policy'')
        else make_schedule_policy (te_tzdb te) interval grace catch_up overlap
               (enum_text (dget_or schedule ''schedule_type'' (JStr ''INTERVAL'')))
               (dget_or schedule ''daily_time'' JNull) (dget_or schedule ''schedule_timezone'' JNull)))"

definition read_next_run :: "text_env \<Rightarrow> dict \<Rightarrow> aware option result" where
  "read_next_run te policy =
     (let v = dget_or policy ''next_run_at'' JNull in
      if \<not> truthy v then Inr None
      else case v of JStr s \<Rightarrow> bnd (te_from_iso te s) (\<lambda>d. Inr (Some d)) | _ \<Rightarrow> Inl TypeError)"

text \<open>\<open>_job_record\<close>: every conversion failure becomes \<open>JOB_POLICY_INVALID\<close>.\<close>

definition job_record :: "text_env \<Rightarrow> job_row \<Rightarrow> job result" where
  "job_record te row =
     policy_guard ''JOB_POLICY_INVALID''
       (bnd (section_of (jo_policy row) ''backup'') (\<lambda>backup.
        bnd (section_of (jo_policy row) ''retention'') (\<lambda>retention.
        bnd (section_of (jo_policy row) ''schedule'') (\<lambda>schedule.
        bnd (py_int (dget_or backup ''max_incrementals_per_chain'' (JInt 0))) (\<lambda>n.
        bnd (make_backup_policy n) (\<lambda>max_incrementals.
        bnd (read_retention te retention) (\<lambda>r.
        bnd (read_schedule te schedule) (\<lambda>s.
        bnd (read_next_run te (jo_policy row)) (\<lambda>next_run.
        Inr \<lparr>jb_id = jo_id row, jb_vm_id = jo_vm_id row, jb_name = jo_name row,
             jb_storage_id = jo_storage_id row, jb_enabled = jo_enabled row,
             jb_max_incrementals = max_incrementals, jb_retention = r, jb_schedule = s,
             jb_next_run_at = next_run, jb_created_at = jo_created_at row\<rparr>)))))))))"

text \<open>\<open>_job_replica_destination_ids\<close> after the row was found.\<close>

definition replica_ids :: "dict \<Rightarrow> string list result" where
  "replica_ids policy =
     (case dget_or policy ''replica_destination_ids'' (JList []) of
        JList vs \<Rightarrow>
          (if \<exists>v \<in> set vs. \<not> (case v of JStr s \<Rightarrow> s \<noteq> [] | _ \<Rightarrow> False)
           then domain_error ''JOB_REPLICA_POLICY_INVALID''
           else if \<not> distinct (map enum_text vs) then domain_error ''JOB_REPLICA_POLICY_INVALID''
           else Inr (map enum_text vs))
      | _ \<Rightarrow> domain_error ''JOB_REPLICA_POLICY_INVALID'')"

section \<open>Lookups\<close>

definition key_lookup :: "'a option \<Rightarrow> 'a result" where
  "key_lookup r = (case r of None \<Rightarrow> Inl KeyError | Some x \<Rightarrow> Inr x)"

definition vm_by_id :: "db \<Rightarrow> string \<Rightarrow> vm_row result" where
  "vm_by_id d i = key_lookup (find (\<lambda>r. vr_id r = i) (db_vms d))"

definition job_row_by_id :: "db \<Rightarrow> string \<Rightarrow> job_row result" where
  "job_row_by_id d i = key_lookup (find (\<lambda>r. jo_id r = i) (db_jobs d))"

definition get_job :: "text_env \<Rightarrow> db \<Rightarrow> string \<Rightarrow> job result" where
  "get_job te d i = bnd (job_row_by_id d i) (job_record te)"

definition run_by_id :: "db \<Rightarrow> string \<Rightarrow> run_row result" where
  "run_by_id d i = key_lookup (find (\<lambda>r. rr_id r = i) (db_runs d))"

definition set_job_row :: "string \<Rightarrow> (job_row \<Rightarrow> job_row) \<Rightarrow> unit dbop" where
  "set_job_row i f = update (\<lambda>d. d\<lparr>db_jobs := map (\<lambda>r. if jo_id r = i then f r else r) (db_jobs d)\<rparr>)"

definition append_event :: "string \<Rightarrow> string \<Rightarrow> dict \<Rightarrow> unit dbop" where
  "append_event run_id etype data =
     update (\<lambda>d. d\<lparr>db_events :=
       db_events d @ [\<lparr>er_run_id = run_id, er_type = etype, er_data = data\<rparr>]\<rparr>)"

section \<open>The round trip of a job\<close>

definition schedule_stored :: "text_env \<Rightarrow> schedule_policy \<Rightarrow> bool" where
  "schedule_stored te p \<longleftrightarrow>
     (\<exists>i g c ov ty t z. make_schedule_policy (te_tzdb te) i g c ov ty t z = Inr p)"

definition job_wf :: "text_env \<Rightarrow> job \<Rightarrow> bool" where
  "job_wf te v \<longleftrightarrow> 0 \<le> jb_max_incrementals v \<and> retention_policy_wf (jb_retention v) \<and>
     schedule_stored te (jb_schedule v)"

lemma make_schedule_policy_again:
  assumes "make_schedule_policy tzdb i g c ov ty t z = Inr p"
  shows "make_schedule_policy tzdb (sp_interval_seconds p) (sp_misfire_grace_seconds p) ''RUN_ONCE''
    ''SKIP_IF_BUSY'' (schedule_type_value (sp_schedule_type p)) (opt_json (sp_daily_time p))
    (opt_json (sp_schedule_timezone p)) = Inr p"
proof -
  from assms have ok: "\<not> i < 60" "\<not> g < 0" "c = ''RUN_ONCE''" "ov = ''SKIP_IF_BUSY''"
    by (auto simp: make_schedule_policy_def split: if_splits)
  show ?thesis
  proof (cases "schedule_type_of ty")
    case None
    with assms ok show ?thesis by (simp add: make_schedule_policy_def)
  next
    case (Some st)
    show ?thesis
    proof (cases st)
      case INTERVAL
      with Some assms ok show ?thesis
        by (auto simp: make_schedule_policy_def schedule_type_of_def opt_json_def split: if_splits)
    next
      case DAILY
      with Some assms ok obtain t' tz where
        t: "check_daily_time t = Inr t'" and z: "z = JStr tz" "strip tz \<noteq> []" "tzdb tz \<noteq> None" and
        p: "p = \<lparr>sp_interval_seconds = i, sp_misfire_grace_seconds = g, sp_schedule_type = DAILY,
          sp_daily_time = Some t', sp_schedule_timezone = Some tz\<rparr>"
        by (cases z) (auto simp: make_schedule_policy_def bnd_eq_Inr split: if_splits)
      from t have "t = JStr t'"
        by (auto simp: check_daily_time_def Let_def bnd_eq_Inr split: json.splits if_splits)
      with t have "check_daily_time (JStr t') = Inr t'" by simp
      with ok z p show ?thesis
        by (simp add: make_schedule_policy_def schedule_type_of_def opt_json_def)
    qed
  qed
qed

lemma section_of_policy:
  "section_of (job_policy te v ids) ''backup'' = Inr
     [(''max_incrementals_per_chain'', JInt (jb_max_incrementals v))]"
  "section_of (job_policy te v ids) ''retention'' = Inr
     [(''restore_points_to_retain'', JInt (restore_points_to_retain (jb_retention v))),
      (''minimum_full_chains'', JInt (minimum_full_chains (jb_retention v))),
      (''full_chains_to_retain'', JInt (full_chains_to_retain (jb_retention v))),
      (''space_reclaim_mode'', JStr (reclaim_mode_value (reclaim_mode (jb_retention v)))),
      (''backup_size_margin_percent'', JFloat (backup_size_margin_percent (jb_retention v)))]"
  "section_of (job_policy te v ids) ''schedule'' = Inr
     [(''interval_seconds'', JInt (sp_interval_seconds (jb_schedule v))),
      (''misfire_grace_seconds'', JInt (sp_misfire_grace_seconds (jb_schedule v))),
      (''catch_up_mode'', JStr ''RUN_ONCE''), (''overlap_policy'', JStr ''SKIP_IF_BUSY''),
      (''schedule_type'', JStr (schedule_type_value (sp_schedule_type (jb_schedule v)))),
      (''daily_time'', opt_json (sp_daily_time (jb_schedule v))),
      (''schedule_timezone'', opt_json (sp_schedule_timezone (jb_schedule v)))]"
  by (simp_all add: section_of_def dget_or_def job_policy_def)

lemma read_retention_again:
  "retention_policy_wf r \<Longrightarrow>
     read_retention te
     [(''restore_points_to_retain'', JInt (restore_points_to_retain r)),
      (''minimum_full_chains'', JInt (minimum_full_chains r)),
      (''full_chains_to_retain'', JInt (full_chains_to_retain r)),
      (''space_reclaim_mode'', JStr (reclaim_mode_value (reclaim_mode r))),
      (''backup_size_margin_percent'', JFloat (backup_size_margin_percent r))] = Inr r"
  by (cases "reclaim_mode r")
    (simp_all add: read_retention_def dget_or_def enum_text_def make_retention_policy_def
      space_reclaim_mode_of_def retention_policy_wf_def)

lemma read_schedule_again:
  assumes "schedule_stored te p"
  shows "read_schedule te
     [(''interval_seconds'', JInt (sp_interval_seconds p)),
      (''misfire_grace_seconds'', JInt (sp_misfire_grace_seconds p)),
      (''catch_up_mode'', JStr ''RUN_ONCE''), (''overlap_policy'', JStr ''SKIP_IF_BUSY''),
      (''schedule_type'', JStr (schedule_type_value (sp_schedule_type p))),
      (''daily_time'', opt_json (sp_daily_time p)),
      (''schedule_timezone'', opt_json (sp_schedule_timezone p))] = Inr p"
proof -
  from assms obtain i g c ov ty t z where "make_schedule_policy (te_tzdb te) i g c ov ty t z = Inr p"
    unfolding schedule_stored_def by blast
  from make_schedule_policy_again [OF this] show ?thesis
    by (simp add: read_schedule_def dget_or_def enum_text_def)
qed

lemma read_next_run_again:
  "iso_ok te \<Longrightarrow> read_next_run te (job_policy te v ids) = Inr (map_option reparsed (jb_next_run_at v))"
  by (auto simp: read_next_run_def job_policy_def dget_or_def iso_ok_def split: option.splits)

lemma job_record_policy:
  assumes "iso_ok te" and "job_wf te v" and "jo_policy row = job_policy te v ids"
  shows "job_record te row = Inr
    \<lparr>jb_id = jo_id row, jb_vm_id = jo_vm_id row, jb_name = jo_name row, jb_storage_id = jo_storage_id row,
     jb_enabled = jo_enabled row, jb_max_incrementals = jb_max_incrementals v,
     jb_retention = jb_retention v, jb_schedule = jb_schedule v,
     jb_next_run_at = map_option reparsed (jb_next_run_at v), jb_created_at = jo_created_at row\<rparr>"
proof -
  have n: "make_backup_policy (jb_max_incrementals v) = Inr (jb_max_incrementals v)"
    and r: "retention_policy_wf (jb_retention v)" and s: "schedule_stored te (jb_schedule v)"
    using assms(2) by (simp_all add: make_backup_policy_def job_wf_def)
  show ?thesis
    unfolding job_record_def assms(3) section_of_policy
    by (simp add: dget_or_def n read_retention_again [OF r] read_schedule_again [OF s]
        read_next_run_again [OF assms(1)] policy_guard_def)
qed

lemma replica_ids_policy:
  "distinct ids \<Longrightarrow> [] \<notin> set ids \<Longrightarrow> replica_ids (job_policy te v ids) = Inr ids"
  by (auto simp: replica_ids_def job_policy_def dget_or_def enum_text_def comp_def)

lemma policy_guard_Inr [simp]: "policy_guard code r = Inr x \<longleftrightarrow> r = Inr x"
  by (auto simp: policy_guard_def split: sum.splits exn.splits)

text \<open>What is read from the store is always well formed.\<close>

lemma job_record_wf:
  assumes "job_record te row = Inr v"
  shows "job_wf te v" and "jb_id v = jo_id row" and "jb_vm_id v = jo_vm_id row"
    and "jb_storage_id v = jo_storage_id row" and "jb_enabled v = jo_enabled row"
    and "jb_name v = jo_name row" and "jb_created_at v = jo_created_at row"
proof -
  from assms obtain backup retention schedule n r s nr where
    n: "make_backup_policy n = Inr (jb_max_incrementals v)" and
    r: "read_retention te retention = Inr (jb_retention v)" and
    s: "read_schedule te schedule = Inr (jb_schedule v)" and
    v: "v = \<lparr>jb_id = jo_id row, jb_vm_id = jo_vm_id row, jb_name = jo_name row,
      jb_storage_id = jo_storage_id row, jb_enabled = jo_enabled row,
      jb_max_incrementals = jb_max_incrementals v, jb_retention = jb_retention v,
      jb_schedule = jb_schedule v, jb_next_run_at = nr, jb_created_at = jo_created_at row\<rparr>"
    unfolding job_record_def policy_guard_Inr bnd_eq_Inr by auto
  from v show "jb_id v = jo_id row" "jb_vm_id v = jo_vm_id row" "jb_storage_id v = jo_storage_id row"
    "jb_enabled v = jo_enabled row" "jb_name v = jo_name row" "jb_created_at v = jo_created_at row"
    by (metis job.select_convs)+
  have "0 \<le> jb_max_incrementals v" using n by (auto simp: make_backup_policy_def split: if_splits)
  moreover have "retention_policy_wf (jb_retention v)"
    using r by (auto simp: read_retention_def bnd_eq_Inr intro: make_retention_policy_wf)
  moreover have "schedule_stored te (jb_schedule v)"
  proof -
    from s obtain i g c ov ty t z where
      "make_schedule_policy (te_tzdb te) i g c ov ty t z = Inr (jb_schedule v)"
      unfolding read_schedule_def by (simp add: bnd_eq_Inr Let_def split: if_splits) blast
    then show ?thesis unfolding schedule_stored_def by blast
  qed
  ultimately show "job_wf te v" by (simp add: job_wf_def)
qed

end
