(* ===== verification/Storages.thy ===== *)
theory Storages
  imports Store
begin

text \<open>
  Storage destinations (\<open>repository_v2.py\<close>): their configuration object, creation, update,
  deletion and the default of a node. The fields that are only passed through stay JSON
  values; \<open>storage_fields\<close> lists them with the defaults that \<open>_storage_record\<close> fills in.
\<close>

section \<open>Records and configurations\<close>

record storage =
  st_id :: string
  st_node_id :: string
  st_name :: string
  st_type :: storage_type
  st_values :: dict
  st_is_default :: bool
  st_created_at :: string

definition storage_fields :: dict where
  "storage_fields =
     [(''backup_data_root'', JStr []), (''backup_data_mode'', JInt 488),
      (''backup_data_uid'', JNull), (''backup_data_gid'', JNull),
      (''minimum_free_bytes'', JInt 0), (''minimum_free_percent'', JInt 0),
      (''ssh_host'', JNull), (''ssh_port'', JNull), (''ssh_user'', JNull),
      (''ssh_remote_root'', JNull), (''remote_storage_id'', JNull), (''remote_node_id'', JNull)]"

definition local_config_keys :: "string list" where
  "local_config_keys =
     [''backup_data_root'', ''backup_data_mode'', ''backup_data_uid'', ''backup_data_gid'',
      ''minimum_free_bytes'', ''minimum_free_percent'', ''is_default'']"

definition ssh_config_keys :: "string list" where
  "ssh_config_keys = local_config_keys @
     [''ssh_host'', ''ssh_port'', ''ssh_user'', ''ssh_remote_root'', ''remote_storage_id'', ''remote_node_id'']"

definition storage_type_of :: "string \<Rightarrow> storage_type option" where
  "storage_type_of s = (if s = ''LOCAL'' then Some LOCAL else if s = ''SSH'' then Some SSH else None)"

fun storage_type_value :: "storage_type \<Rightarrow> string" where
  "storage_type_value LOCAL = ''LOCAL''" | "storage_type_value SSH = ''SSH''"

definition row_is_default :: "storage_row \<Rightarrow> bool" where
  "row_is_default r = truthy (dget_or (sr_config r) ''is_default'' (JBool False))"

definition storage_record :: "storage_row \<Rightarrow> storage result" where
  "storage_record r =
     (case storage_type_of (sr_type r) of
        None \<Rightarrow> domain_error ''STORAGE_CONFIG_INVALID''
      | Some t \<Rightarrow> Inr
          \<lparr>st_id = sr_id r, st_node_id = sr_node_id r, st_name = sr_name r, st_type = t,
           st_values = map (\<lambda>(k, v). (k, dget_or (sr_config r) k v)) storage_fields,
           st_is_default = row_is_default r, st_created_at = sr_created_at r\<rparr>)"

text \<open>\<open>{key: values[key] for key in keys}\<close>; an unset field of the record is \<open>None\<close>.\<close>

definition config_for_storage :: "storage \<Rightarrow> bool \<Rightarrow> dict" where
  "config_for_storage s is_default =
     map (\<lambda>k. (k, if k = ''is_default'' then JBool is_default else dget_or (st_values s) k JNull))
       (if st_type s = SSH then ssh_config_keys else local_config_keys)"

section \<open>Lookups\<close>

definition storage_at :: "db \<Rightarrow> string \<Rightarrow> string \<Rightarrow> storage_row option" where
  "storage_at d node sid = find (\<lambda>r. sr_node_id r = node \<and> sr_id r = sid) (db_storages d)"

definition get_storage_destination :: "db \<Rightarrow> string \<Rightarrow> string \<Rightarrow> storage result" where
  "get_storage_destination d node sid = bnd (key_lookup (storage_at d node sid)) storage_record"

definition get_storage_by_name :: "db \<Rightarrow> string \<Rightarrow> string \<Rightarrow> storage option result" where
  "get_storage_by_name d node name =
     (case find (\<lambda>r. sr_node_id r = node \<and> sr_name r = name) (db_storages d) of
        None \<Rightarrow> Inr None
      | Some r \<Rightarrow> bnd (storage_record r) (\<lambda>s. Inr (Some s)))"

definition list_storages :: "db \<Rightarrow> string \<Rightarrow> storage list result" where
  "list_storages d node =
     map_result storage_record
       (sort_key (\<lambda>r. (sr_created_at r, sr_id r)) (filter (\<lambda>r. sr_node_id r = node) (db_storages d)))"

definition get_default_storage :: "db \<Rightarrow> string \<Rightarrow> storage option result" where
  "get_default_storage d node =
     bnd (list_storages d node) (\<lambda>values.
       case values of
         [] \<Rightarrow> Inr None
       | first # _ \<Rightarrow>
           (let defaults = filter st_is_default values in
            if length defaults > 1 then domain_error ''STORAGE_DEFAULT_AMBIGUOUS''
            else Inr (Some (if defaults \<noteq> [] then hd defaults else first))))"

section \<open>Updates\<close>

definition set_storage_row :: "string \<Rightarrow> (storage_row \<Rightarrow> storage_row) \<Rightarrow> unit dbop" where
  "set_storage_row sid f =
     update (\<lambda>d. d\<lparr>db_storages := map (\<lambda>r. if sr_id r = sid then f r else r) (db_storages d)\<rparr>)"

text \<open>\<open>_clear_storage_default\<close>: a row is rewritten when popping the key returned a value.\<close>

definition drop_default :: "storage_row \<Rightarrow> storage_row" where
  "drop_default r =
     (if dget_or (sr_config r) ''is_default'' JNull \<noteq> JNull
      then r\<lparr>sr_config := AList.delete ''is_default'' (sr_config r)\<rparr> else r)"

definition clear_default :: "string \<Rightarrow> unit dbop" where
  "clear_default node =
     update (\<lambda>d. d\<lparr>db_storages :=
       map (\<lambda>r. if sr_node_id r = node then drop_default r else r) (db_storages d)\<rparr>)"

definition mark_default :: "storage_row \<Rightarrow> storage_row" where
  "mark_default r = r\<lparr>sr_config := dset (sr_config r) ''is_default'' (JBool True)\<rparr>"

definition set_default :: "string \<Rightarrow> string \<Rightarrow> unit dbop" where
  "set_default node sid =
     reading (\<lambda>d. andthen (lift (key_lookup (storage_at d node sid))) (\<lambda>_.
       set_storage_row sid mark_default))"

definition set_default_storage_destination :: "string \<Rightarrow> string \<Rightarrow> storage dbop" where
  "set_default_storage_destination node sid =
     reading (\<lambda>d. andthen (lift (get_storage_destination d node sid)) (\<lambda>_.
       andthen (clear_default node) (\<lambda>_.
       andthen (set_default node sid) (\<lambda>_.
       reading (\<lambda>d'. lift (get_storage_destination d' node sid))))))"

text \<open>A comparison with a number: a value that is no number raises \<open>TypeError\<close>.\<close>

fun json_number :: "json \<Rightarrow> rat result" where
  "json_number (JInt i) = Inr (of_int i)"
| "json_number (JBool b) = Inr (if b then 1 else 0)"
| "json_number (JFloat r) = Inr r"
| "json_number (JInf pos) = Inr (if pos then 101 else - 1)"
| "json_number JNaN = Inr 101"
| "json_number _ = Inl TypeError"

definition check_reserve :: "json \<Rightarrow> json \<Rightarrow> unit result" where
  "check_reserve bytes percent =
     bnd (json_number bytes) (\<lambda>b.
       if b < 0 then domain_error ''STORAGE_RESERVE_INVALID''
       else bnd (json_number percent) (\<lambda>p.
         if \<not> (0 \<le> p \<and> p \<le> 100) then domain_error ''STORAGE_RESERVE_INVALID'' else Inr ()))"

definition insert_storage :: "storage_row \<Rightarrow> unit dbop" where
  "insert_storage r =
     reading (\<lambda>d. if sr_id r \<in> set (map sr_id (db_storages d)) then raise OtherException
       else update (\<lambda>d. d\<lparr>db_storages := db_storages d @ [r]\<rparr>))"

text \<open>
  \<open>create_storage_destination\<close>: the name is checked and looked up as given but stored
  stripped.
\<close>

definition new_storage_row :: "storage \<Rightarrow> bool \<Rightarrow> storage_row" where
  "new_storage_row s make_default =
     \<lparr>sr_id = st_id s, sr_node_id = st_node_id s, sr_name = strip (st_name s),
      sr_type = storage_type_value (st_type s),
      sr_config = config_for_storage s make_default, sr_created_at = st_created_at s\<rparr>"

definition refuse_create :: "storage \<Rightarrow> db \<Rightarrow> exn option" where
  "refuse_create s d =
     (if strip (st_name s) = [] then Some (DomainInvariantError ''STORAGE_NAME_INVALID'')
      else case check_reserve (dget_or (st_values s) ''minimum_free_bytes'' (JInt 0))
             (dget_or (st_values s) ''minimum_free_percent'' (JInt 0)) of
        Inl e \<Rightarrow> Some e
      | Inr _ \<Rightarrow>
          if st_node_id s \<notin> set (db_nodes d) then Some (DomainInvariantError ''STORAGE_NODE_NOT_FOUND'')
          else if list_ex (\<lambda>r. sr_node_id r = st_node_id s \<and> sr_name r = st_name s) (db_storages d)
          then Some (DomainInvariantError ''STORAGE_NAME_EXISTS'') else None)"

definition create_storage_destination :: "storage \<Rightarrow> bool \<Rightarrow> storage option dbop" where
  "create_storage_destination s make_default =
     reading (\<lambda>d. case refuse_create s d of
       Some e \<Rightarrow> raise e
     | None \<Rightarrow>
         andthen (if make_default then clear_default (st_node_id s) else ret ()) (\<lambda>_.
         andthen (insert_storage (new_storage_row s make_default)) (\<lambda>_.
         reading (\<lambda>d'. lift (get_storage_by_name d' (st_node_id s) (st_name s))))))"

definition update_fields :: "string list" where
  "update_fields =
     [''name'', ''backup_data_root'', ''minimum_free_bytes'', ''minimum_free_percent'', ''ssh_host'',
      ''ssh_port'', ''ssh_user'', ''ssh_remote_root'', ''remote_storage_id'', ''remote_node_id'']"

text \<open>The optional fields given as \<open>None\<close> are dropped.\<close>

definition drop_none :: "dict \<Rightarrow> dict" where
  "drop_none kw =
     filter (\<lambda>(k, v). \<not> (k \<in> {''backup_data_root'', ''minimum_free_bytes'', ''minimum_free_percent''} \<and>
                          v = JNull)) kw"

definition check_update :: "dict \<Rightarrow> unit result" where
  "check_update kw =
     bnd (case dget kw ''minimum_free_bytes'' of None \<Rightarrow> Inr ()
          | Some v \<Rightarrow> check_reserve v (JInt 0)) (\<lambda>_.
     case dget kw ''minimum_free_percent'' of None \<Rightarrow> Inr () | Some v \<Rightarrow> check_reserve (JInt 0) v)"

definition new_name :: "dict \<Rightarrow> string option result" where
  "new_name kw =
     (case dget_or kw ''name'' JNull of
        JNull \<Rightarrow> Inr None
      | JStr s \<Rightarrow> if strip s = [] then domain_error ''STORAGE_NAME_INVALID'' else Inr (Some (strip s))
      | _ \<Rightarrow> domain_error ''STORAGE_NAME_INVALID'')"

definition read_update :: "db \<Rightarrow> string \<Rightarrow> string \<Rightarrow> dict \<Rightarrow> (storage \<times> string option \<times> dict) result" where
  "read_update d node sid kwargs =
     bnd (get_storage_destination d node sid) (\<lambda>current.
       if \<not> dkeys kwargs \<subseteq> set update_fields then Inl TypeError
       else
         bnd (new_name kwargs) (\<lambda>name.
         let kw = drop_none (filter (\<lambda>(k, v). k \<noteq> ''name'') kwargs) in
         bnd (check_update kw) (\<lambda>_.
         if (case name of None \<Rightarrow> False | Some n \<Rightarrow>
               list_ex (\<lambda>r. sr_node_id r = node \<and> sr_name r = n \<and> sr_id r \<noteq> sid) (db_storages d))
         then domain_error ''STORAGE_NAME_EXISTS''
         else Inr (current, name, kw))))"

text \<open>The row written by \<open>update_storage_destination\<close>.\<close>

definition updated_config :: "storage \<Rightarrow> dict \<Rightarrow> bool \<Rightarrow> dict" where
  "updated_config current kw make_default =
     (let config = foldl (\<lambda>c (k, v). dset c k v) (config_for_storage current (st_is_default current)) kw in
      if make_default then dset config ''is_default'' (JBool True) else config)"

definition updated_row :: "storage \<Rightarrow> string option \<Rightarrow> dict \<Rightarrow> bool \<Rightarrow> storage_row \<Rightarrow> storage_row" where
  "updated_row current name kw make_default r =
     r\<lparr>sr_name := (case name of None \<Rightarrow> sr_name r | Some n \<Rightarrow> n),
       sr_config := updated_config current kw make_default\<rparr>"

definition update_storage_destination :: "string \<Rightarrow> string \<Rightarrow> dict \<Rightarrow> bool \<Rightarrow> storage dbop" where
  "update_storage_destination node sid kwargs make_default =
     reading (\<lambda>d. andthen (lift (read_update d node sid kwargs)) (\<lambda>(current, name, kw).
       andthen (if make_default then clear_default node else ret ()) (\<lambda>_.
       andthen (set_storage_row sid
         (\<lambda>r. if sr_node_id r = node then updated_row current name kw make_default r else r)) (\<lambda>_.
       reading (\<lambda>d'. lift (get_storage_destination d' node sid))))))"

text \<open>The destination that becomes the default when the default is deleted.\<close>

definition replacement :: "db \<Rightarrow> string \<Rightarrow> string option" where
  "replacement d node =
     (case sort_key sr_created_at (filter (\<lambda>r. sr_node_id r = node) (db_storages d)) of
        [] \<Rightarrow> None | r # _ \<Rightarrow> Some (sr_id r))"

definition delete_storage_destination :: "string \<Rightarrow> string \<Rightarrow> storage dbop" where
  "delete_storage_destination node sid =
     reading (\<lambda>d. andthen (lift (get_storage_destination d node sid)) (\<lambda>current.
       if list_ex (\<lambda>j. jo_storage_id j = sid) (db_jobs d) \<or> list_ex (\<lambda>r. rr_storage_id r = sid) (db_runs d)
       then raise (DomainInvariantError ''STORAGE_IN_USE'')
       else
         andthen (update (\<lambda>d. d\<lparr>db_storages :=
           filter (\<lambda>r. \<not> (sr_node_id r = node \<and> sr_id r = sid)) (db_storages d)\<rparr>)) (\<lambda>_.
         reading (\<lambda>d'. andthen
           (case (if st_is_default current then replacement d' node else None) of
              None \<Rightarrow> ret () | Some i \<Rightarrow> set_default node i) (\<lambda>_. ret current)))))"

text \<open>The loop over the configured destinations, then the configured default.\<close>

definition bootstrap_one :: "string \<Rightarrow> string option \<Rightarrow> storage \<Rightarrow> unit dbop" where
  "bootstrap_one node default_name item =
     reading (\<lambda>d. andthen (lift (get_storage_by_name d node (st_name item))) (\<lambda>existing.
       if existing = None
       then andthen (create_storage_destination item (default_name = Some (st_name item))) (\<lambda>_. ret ())
       else ret ()))"

definition bootstrap_storage_destinations :: "string \<Rightarrow> storage list \<Rightarrow> string option \<Rightarrow> unit dbop" where
  "bootstrap_storage_destinations node items default_name =
     andthen (each (bootstrap_one node default_name) items) (\<lambda>_.
       case default_name of
         None \<Rightarrow> ret ()
       | Some name \<Rightarrow>
           reading (\<lambda>d. andthen (lift (get_storage_by_name d node name)) (\<lambda>found.
             case found of
               None \<Rightarrow> raise (DomainInvariantError ''STORAGE_DEFAULT_NOT_FOUND'')
             | Some s \<Rightarrow> andthen (set_default_storage_destination node (st_id s)) (\<lambda>_. ret ()))))"

section \<open>One default per node\<close>

definition single_default :: "db \<Rightarrow> bool" where
  "single_default d \<longleftrightarrow>
     distinct (map sr_id (db_storages d)) \<and>
     (\<forall>r \<in> set (db_storages d). \<forall>r' \<in> set (db_storages d).
        row_is_default r \<and> row_is_default r' \<and> sr_node_id r = sr_node_id r' \<longrightarrow> sr_id r = sr_id r')"

lemma map_of_delete_same: "map_of (AList.delete k d) k = None"
  by (simp add: delete_conv')

lemma drop_default_simps [simp]:
  "sr_id (drop_default r) = sr_id r" "sr_node_id (drop_default r) = sr_node_id r"
  "sr_name (drop_default r) = sr_name r"
  by (simp_all add: drop_default_def)

lemma drop_default_off [simp]: "\<not> row_is_default (drop_default r)"
proof (cases "map_of (sr_config r) ''is_default''")
  case None
  then show ?thesis by (simp add: drop_default_def row_is_default_def dget_or_def)
next
  case (Some v)
  then show ?thesis
    by (cases "v = JNull") (simp_all add: drop_default_def row_is_default_def dget_or_def map_of_delete_same)
qed

lemma mark_default_simps [simp]:
  "sr_id (mark_default r) = sr_id r" "sr_node_id (mark_default r) = sr_node_id r"
  "sr_name (mark_default r) = sr_name r" "row_is_default (mark_default r)"
  by (simp_all add: mark_default_def row_is_default_def)

lemma map_sr_id: "(\<And>r. sr_id (f r) = sr_id r) \<Longrightarrow> map sr_id (map f xs) = map sr_id xs"
  by simp

text \<open>
  Three shapes of change to the table: a row loses its default mark, one row of a node without
  other defaults is rewritten, and a row is added to such a node.
\<close>

definition others_off :: "string \<Rightarrow> string \<Rightarrow> db \<Rightarrow> bool" where
  "others_off node sid d \<longleftrightarrow>
     (\<forall>r \<in> set (db_storages d). sr_node_id r = node \<and> sr_id r \<noteq> sid \<longrightarrow> \<not> row_is_default r)"

lemma single_defaultI:
  assumes "distinct (map sr_id (db_storages d))"
    and "\<And>r r'. r \<in> set (db_storages d) \<Longrightarrow> r' \<in> set (db_storages d) \<Longrightarrow> row_is_default r \<Longrightarrow>
      row_is_default r' \<Longrightarrow> sr_node_id r = sr_node_id r' \<Longrightarrow> sr_id r = sr_id r'"
  shows "single_default d"
  unfolding single_default_def using assms by blast

lemma single_defaultD:
  assumes "single_default d" and "r \<in> set (db_storages d)" and "r' \<in> set (db_storages d)"
    and "row_is_default r" and "row_is_default r'" and "sr_node_id r = sr_node_id r'"
  shows "sr_id r = sr_id r'"
  using assms unfolding single_default_def by blast

lemma others_offD:
  "others_off node sid d \<Longrightarrow> r \<in> set (db_storages d) \<Longrightarrow> sr_node_id r = node \<Longrightarrow> row_is_default r \<Longrightarrow>
     sr_id r = sid"
  unfolding others_off_def by blast

lemma single_default_map:
  assumes "single_default d" and "db_storages d' = map f (db_storages d)"
    and ids: "\<And>r. sr_id (f r) = sr_id r"
    and two: "\<And>r r'. r \<in> set (db_storages d) \<Longrightarrow> r' \<in> set (db_storages d) \<Longrightarrow>
      row_is_default (f r) \<Longrightarrow> row_is_default (f r') \<Longrightarrow> sr_node_id (f r) = sr_node_id (f r') \<Longrightarrow>
      sr_id r = sr_id r'"
  shows "single_default d'"
proof (rule single_defaultI)
  have "map sr_id (db_storages d') = map sr_id (db_storages d)"
    by (simp add: assms(2) ids)
  then show "distinct (map sr_id (db_storages d'))"
    using assms(1) unfolding single_default_def by metis
next
  fix r r' assume a: "r \<in> set (db_storages d')" "r' \<in> set (db_storages d')" "row_is_default r"
    "row_is_default r'" "sr_node_id r = sr_node_id r'"
  from a(1,2) obtain q q' where q: "q \<in> set (db_storages d)" "r = f q"
    and q': "q' \<in> set (db_storages d)" "r' = f q'"
    unfolding assms(2) set_map by blast
  from two [OF q(1) q'(1)] a(3-5) have "sr_id q = sr_id q'" unfolding q(2) q'(2) by blast
  then show "sr_id r = sr_id r'" by (simp only: q(2) q'(2) ids)
qed

lemma single_default_rewrite:
  assumes "single_default d" and "others_off node sid d"
    and node: "\<And>r. r \<in> set (db_storages d) \<Longrightarrow> sr_id r = sid \<Longrightarrow> sr_node_id r = node"
    and "db_storages d' = map (\<lambda>r. if sr_id r = sid then f r else r) (db_storages d)"
    and ids: "\<And>r. sr_id (f r) = sr_id r" and nodes: "\<And>r. sr_node_id (f r) = sr_node_id r"
  shows "single_default d'"
proof (rule single_default_map [OF assms(1,4)])
  fix r show "sr_id (if sr_id r = sid then f r else r) = sr_id r" by (simp add: ids)
next
  let ?g = "\<lambda>r. if sr_id r = sid then f r else r"
  fix r r' assume a: "r \<in> set (db_storages d)" "r' \<in> set (db_storages d)" "row_is_default (?g r)"
    "row_is_default (?g r')" "sr_node_id (?g r) = sr_node_id (?g r')"
  have n: "sr_node_id (?g q) = sr_node_id q" for q by (simp add: nodes)
  with a(5) have same: "sr_node_id r = sr_node_id r'" by (simp only: n)
  show "sr_id r = sr_id r'"
  proof (cases "sr_id r = sid"; cases "sr_id r' = sid")
    assume c: "sr_id r = sid" "sr_id r' \<noteq> sid"
    then have "sr_node_id r' = node" using node [OF a(1)] same by simp
    moreover have "row_is_default r'" using a(4) c(2) by simp
    ultimately show ?thesis using others_offD [OF assms(2) a(2)] c by blast
  next
    assume c: "sr_id r \<noteq> sid" "sr_id r' = sid"
    then have "sr_node_id r = node" using node [OF a(2)] same by simp
    moreover have "row_is_default r" using a(3) c(1) by simp
    ultimately show ?thesis using others_offD [OF assms(2) a(1)] c by blast
  next
    assume c: "sr_id r \<noteq> sid" "sr_id r' \<noteq> sid"
    then have "row_is_default r" "row_is_default r'" using a(3,4) by simp_all
    then show ?thesis using single_defaultD [OF assms(1) a(1,2)] same by blast
  qed simp
qed

lemma storage_at_Some:
  "storage_at d node sid = Some r \<Longrightarrow> r \<in> set (db_storages d) \<and> sr_node_id r = node \<and> sr_id r = sid"
  unfolding storage_at_def find_Some_iff by force

lemma one_node:
  assumes "single_default d" and "storage_at d node sid = Some q" and "r \<in> set (db_storages d)"
    and "sr_id r = sid"
  shows "sr_node_id r = node"
proof -
  from storage_at_Some [OF assms(2)] have q: "q \<in> set (db_storages d)" "sr_node_id q = node" "sr_id q = sid" by auto
  have "inj_on sr_id (set (db_storages d))"
    using assms(1) unfolding single_default_def distinct_map by blast
  then have "r = q" by (rule inj_onD) (use assms(3,4) q(1,3) in simp_all)
  with q(2) show ?thesis by simp
qed

lemma clear_default_storages:
  "clear_default node d = (r, d') \<Longrightarrow> r = Inr () \<and>
     db_storages d' = map (\<lambda>r. if sr_node_id r = node then drop_default r else r) (db_storages d)"
  unfolding clear_default_def update_def by fastforce

lemma clear_default_off:
  assumes "clear_default node d = (r, d')" shows "others_off node sid d'"
  unfolding others_off_def
proof (intro ballI impI)
  fix q assume "q \<in> set (db_storages d')" and n: "sr_node_id q = node \<and> sr_id q \<noteq> sid"
  then obtain p where "q = (if sr_node_id p = node then drop_default p else p)"
    unfolding clear_default_storages [OF assms, THEN conjunct2] set_map by blast
  with n show "\<not> row_is_default q" by (cases "sr_node_id p = node") simp_all
qed

lemma clear_default_single:
  assumes "single_default d" and "clear_default node d = (r, d')"
  shows "single_default d'"
proof (rule single_default_map [OF assms(1) clear_default_storages [OF assms(2), THEN conjunct2]])
  let ?g = "\<lambda>r. if sr_node_id r = node then drop_default r else r"
  show "sr_id (?g r) = sr_id r" for r by simp
  fix r r' assume a: "r \<in> set (db_storages d)" "r' \<in> set (db_storages d)" "row_is_default (?g r)"
    "row_is_default (?g r')" "sr_node_id (?g r) = sr_node_id (?g r')"
  have off: "sr_node_id q \<noteq> node \<and> row_is_default q" if "row_is_default (?g q)" for q
    using that by (cases "sr_node_id q = node") simp_all
  from off [OF a(3)] have "row_is_default r" "sr_node_id (?g r) = sr_node_id r" by simp_all
  moreover from off [OF a(4)] have "row_is_default r'" "sr_node_id (?g r') = sr_node_id r'" by simp_all
  ultimately show "sr_id r = sr_id r'" using single_defaultD [OF assms(1) a(1,2)] a(5) by metis
qed

lemma set_default_single:
  assumes "single_default d" and "others_off node sid d" and "set_default node sid d = (r, d')"
  shows "single_default d'"
proof (cases "storage_at d node sid")
  case None
  with assms(1,3) show ?thesis
    by (simp add: set_default_def reading_def lift_def andthen_def key_lookup_def)
next
  case (Some q)
  have "set_default node sid d = set_storage_row sid mark_default d"
    by (simp add: set_default_def reading_def lift_def andthen_def key_lookup_def Some)
  with assms(3) have rows: "db_storages d' =
      map (\<lambda>r. if sr_id r = sid then mark_default r else r) (db_storages d)"
    unfolding set_storage_row_def update_def by fastforce
  show ?thesis
    by (rule single_default_rewrite [OF assms(1,2) one_node [OF assms(1) Some] rows]) simp_all
qed

lemma single_default_append:
  assumes "single_default d" and "db_storages d' = db_storages d @ [r]"
    and "sr_id r \<notin> set (map sr_id (db_storages d))"
    and "row_is_default r \<Longrightarrow> others_off (sr_node_id r) (sr_id r) d"
  shows "single_default d'"
proof (rule single_defaultI)
  show "distinct (map sr_id (db_storages d'))"
    using assms(1,3) unfolding single_default_def assms(2) by simp
next
  fix p q assume a: "p \<in> set (db_storages d')" "q \<in> set (db_storages d')" "row_is_default p"
    "row_is_default q" "sr_node_id p = sr_node_id q"
  have in_d: "x \<in> set (db_storages d) \<or> x = r" if "x \<in> set (db_storages d')" for x
    using that unfolding assms(2) by auto
  have no: False if "x \<in> set (db_storages d)" "row_is_default x" "row_is_default r" "sr_node_id x = sr_node_id r" for x
    using others_offD [OF assms(4) that(1)] that assms(3) by (metis image_eqI list.set_map)
  show "sr_id p = sr_id q"
    using in_d [OF a(1)] in_d [OF a(2)] no [of p] no [of q] single_defaultD [OF assms(1)] a(3-5) by metis
qed

lemma config_for_storage_default [simp]:
  "dget_or (config_for_storage s b) ''is_default'' v = JBool b"
  by (simp add: dget_or_def config_for_storage_def ssh_config_keys_def local_config_keys_def)

lemma row_is_default_config: "row_is_default (r\<lparr>sr_config := c\<rparr>) \<longleftrightarrow> truthy (dget_or c ''is_default'' (JBool False))"
  by (simp add: row_is_default_def)

lemma update_keeps_default:
  "''is_default'' \<notin> dkeys kw \<Longrightarrow> dget_or (foldl (\<lambda>c (k, v). dset c k v) c kw) ''is_default'' w = dget_or c ''is_default'' w"
  by (induction kw arbitrary: c) (auto simp: dkeys_def)

text \<open>The state after each operation, with the state operations unfolded.\<close>

lemma clear_default_run: "clear_default node d = (Inr (), snd (clear_default node d))"
  by (simp add: clear_default_def update_def)

lemma set_default_run:
  "set_default node sid d = (key_lookup (map_option (\<lambda>_. ()) (storage_at d node sid)), snd (set_default node sid d))"
  by (cases "storage_at d node sid")
    (simp_all add: set_default_def reading_def lift_def andthen_def key_lookup_def set_storage_row_def update_def)

lemma clear_then_set_single:
  "single_default d \<Longrightarrow> single_default (snd (set_default node sid (snd (clear_default node d))))"
  using set_default_single [OF clear_default_single clear_default_off prod.collapse [symmetric]]
    clear_default_run by blast

lemma set_default_storage_run:
  "snd (set_default_storage_destination node sid d) =
     (case get_storage_destination d node sid of Inl _ \<Rightarrow> d
      | Inr _ \<Rightarrow> snd (set_default node sid (snd (clear_default node d))))"
proof (cases "get_storage_destination d node sid")
  case (Inr s)
  obtain d1 where c: "clear_default node d = (Inr (), d1)" using clear_default_run by blast
  obtain r d2 where "set_default node sid d1 = (r, d2)" by fastforce
  with c Inr show ?thesis
    by (cases r) (simp_all add: set_default_storage_destination_def reading_def lift_def andthen_def)
qed (simp add: set_default_storage_destination_def reading_def lift_def andthen_def)

lemma set_default_storage_single:
  "single_default d \<Longrightarrow> single_default (snd (set_default_storage_destination node sid d))"
  by (simp add: set_default_storage_run clear_then_set_single split: sum.split)

lemma insert_storage_run:
  "insert_storage r d = (if sr_id r \<in> set (map sr_id (db_storages d)) then (Inl OtherException, d)
     else (Inr (), d\<lparr>db_storages := db_storages d @ [r]\<rparr>))"
  by (simp add: insert_storage_def reading_def raise_def update_def)

lemma insert_storage_single:
  assumes "single_default d" and "row_is_default r \<Longrightarrow> others_off (sr_node_id r) (sr_id r) d"
  shows "single_default (snd (insert_storage r d))"
proof (cases "sr_id r \<in> set (map sr_id (db_storages d))")
  case False
  have "single_default (d\<lparr>db_storages := db_storages d @ [r]\<rparr>)"
    by (rule single_default_append [OF assms(1) _ False assms(2)]) simp
  with False show ?thesis by (simp add: insert_storage_run)
qed (simp add: insert_storage_run assms(1))

lemma create_storage_run:
  "create_storage_destination s mk d =
     (case refuse_create s d of
        Some e \<Rightarrow> (Inl e, d)
      | None \<Rightarrow>
          (case insert_storage (new_storage_row s mk) (if mk then snd (clear_default (st_node_id s) d) else d) of
             (Inl e, d') \<Rightarrow> (Inl e, d')
           | (Inr _, d') \<Rightarrow> (get_storage_by_name d' (st_node_id s) (st_name s), d')))"
proof -
  obtain d1 where c: "clear_default (st_node_id s) d = (Inr (), d1)" using clear_default_run by blast
  show ?thesis
    by (cases "refuse_create s d"; cases mk)
      (simp_all add: create_storage_destination_def andthen_def lift_def reading_def raise_def ret_def c)
qed

lemma create_storage_single:
  assumes "single_default d"
  shows "single_default (snd (create_storage_destination s mk d))"
proof (cases "refuse_create s d")
  case None
  let ?d = "if mk then snd (clear_default (st_node_id s) d) else d"
  let ?r = "new_storage_row s mk"
  have off: "row_is_default ?r \<longleftrightarrow> mk" by (simp add: row_is_default_def new_storage_row_def)
  have one: "single_default ?d" using assms clear_default_single [OF assms clear_default_run] by simp
  have "row_is_default ?r \<Longrightarrow> others_off (sr_node_id ?r) (sr_id ?r) ?d"
    using clear_default_off [OF clear_default_run] off by (simp add: new_storage_row_def)
  from insert_storage_single [OF one this] show ?thesis
    by (cases mk) (auto simp: create_storage_run None split: prod.split sum.split)
qed (simp add: create_storage_run assms)

lemma set_storage_row_run:
  "set_storage_row sid f d =
     (Inr (), d\<lparr>db_storages := map (\<lambda>r. if sr_id r = sid then f r else r) (db_storages d)\<rparr>)"
  by (simp add: set_storage_row_def update_def)

lemma storage_record_default:
  "storage_record r = Inr s \<Longrightarrow> st_is_default s = row_is_default r \<and> st_id s = sr_id r \<and> st_node_id s = sr_node_id r"
  by (auto simp: storage_record_def split: option.splits)

lemma get_storage_Inr:
  assumes "get_storage_destination d node sid = Inr s"
  obtains q where "storage_at d node sid = Some q" and "storage_record q = Inr s"
  using assms by (cases "storage_at d node sid") (auto simp: get_storage_destination_def key_lookup_def)

lemma storage_rows_id:
  assumes "single_default d" and "q \<in> set (db_storages d)" and "r \<in> set (db_storages d)" and "sr_id r = sr_id q"
  shows "r = q"
proof -
  have "inj_on sr_id (set (db_storages d))"
    using assms(1) unfolding single_default_def distinct_map by blast
  then show ?thesis by (rule inj_onD) (use assms(2-4) in simp_all)
qed

text \<open>An update that leaves the mark of the row as it was.\<close>

lemma single_default_weaken:
  assumes "single_default d" and "q \<in> set (db_storages d)"
    and "row_is_default (f q) \<Longrightarrow> row_is_default q" 
    and "\<And>r. sr_id (f r) = sr_id r" and nodes: "\<And>r. sr_node_id (f r) = sr_node_id r"
    and "db_storages d' = map (\<lambda>r. if sr_id r = sr_id q then f r else r) (db_storages d)"
  shows "single_default d'"
proof (rule single_default_map [OF assms(1,6)])
  let ?g = "\<lambda>r. if sr_id r = sr_id q then f r else r"
  show "sr_id (?g r) = sr_id r" for r by (simp add: assms(4))
  fix r r' assume a: "r \<in> set (db_storages d)" "r' \<in> set (db_storages d)" "row_is_default (?g r)"
    "row_is_default (?g r')" "sr_node_id (?g r) = sr_node_id (?g r')"
  have mark: "row_is_default x" if "x \<in> set (db_storages d)" "row_is_default (?g x)" for x
  proof (cases "sr_id x = sr_id q")
    case True
    with storage_rows_id [OF assms(1,2) that(1)] that(2) assms(3) show ?thesis by simp
  qed (use that in simp)
  have "sr_node_id r = sr_node_id r'" using a(5) by (simp add: nodes split: if_splits)
  then show "sr_id r = sr_id r'"
    using single_defaultD [OF assms(1) a(1,2) mark [OF a(1,3)] mark [OF a(2,4)]] by simp
qed

lemma updated_row_simps [simp]:
  "sr_id (updated_row c n kw mk r) = sr_id r" "sr_node_id (updated_row c n kw mk r) = sr_node_id r"
  by (simp_all add: updated_row_def)

lemma updated_row_default:
  "''is_default'' \<notin> dkeys kw \<Longrightarrow> row_is_default (updated_row c n kw mk r) \<longleftrightarrow> mk \<or> st_is_default c"
  by (simp add: updated_row_def row_is_default_def updated_config_def Let_def update_keeps_default)

lemma read_update_Inr:
  assumes "read_update d node sid kwargs = Inr (current, name, kw)"
  shows "get_storage_destination d node sid = Inr current" and "''is_default'' \<notin> dkeys kw"
proof -
  from assms show "get_storage_destination d node sid = Inr current"
    by (auto simp: read_update_def bnd_eq_Inr Let_def split: if_splits)
  from assms have "dkeys kwargs \<subseteq> set update_fields"
    and kw: "kw = drop_none (filter (\<lambda>(k, v). k \<noteq> ''name'') kwargs)"
    by (auto simp: read_update_def bnd_eq_Inr Let_def split: if_splits)
  moreover have "dkeys kw \<subseteq> dkeys kwargs" unfolding kw by (auto simp: dkeys_def drop_none_def)
  moreover have "''is_default'' \<notin> set update_fields" by (simp add: update_fields_def)
  ultimately show "''is_default'' \<notin> dkeys kw" by blast
qed

lemma update_storage_run:
  "snd (update_storage_destination node sid kwargs mk d) =
     (case read_update d node sid kwargs of
        Inl e \<Rightarrow> d
      | Inr (current, name, kw) \<Rightarrow>
          snd (set_storage_row sid (\<lambda>r. if sr_node_id r = node then updated_row current name kw mk r else r)
            (if mk then snd (clear_default node d) else d)))"
proof -
  obtain d1 where c: "clear_default node d = (Inr (), d1)" using clear_default_run by blast
  show ?thesis
    by (cases "read_update d node sid kwargs"; cases mk)
      (simp_all add: update_storage_destination_def andthen_def lift_def reading_def ret_def c
        set_storage_row_run split: prod.split)
qed

lemma clear_default_at:
  assumes "storage_at d node sid = Some q"
  shows "\<exists>p. storage_at (snd (clear_default node d)) node sid = Some p"
proof -
  from storage_at_Some [OF assms]
  have "drop_default q \<in> set (db_storages (snd (clear_default node d)))"
    "sr_node_id (drop_default q) = node" "sr_id (drop_default q) = sid"
    by (auto simp: clear_default_def update_def)
  then have "storage_at (snd (clear_default node d)) node sid \<noteq> None"
    unfolding storage_at_def find_None_iff by blast
  then show ?thesis by simp
qed

lemma update_storage_single:
  assumes "single_default d"
  shows "single_default (snd (update_storage_destination node sid kwargs mk d))"
proof (cases "read_update d node sid kwargs")
  case (Inr v)
  obtain current name kw where v: "v = (current, name, kw)" by (cases v)
  let ?f = "\<lambda>r. if sr_node_id r = node then updated_row current name kw mk r else r"
  from read_update_Inr [OF Inr [unfolded v]] have cur: "get_storage_destination d node sid = Inr current"
    and kw: "''is_default'' \<notin> dkeys kw" by blast+
  from get_storage_Inr [OF cur] obtain q where q: "storage_at d node sid = Some q" "storage_record q = Inr current" .
  have f: "sr_id (?f r) = sr_id r" "sr_node_id (?f r) = sr_node_id r" for r by simp_all
  show ?thesis
  proof (cases mk)
    case True
    let ?d = "snd (clear_default node d)"
    have one: "single_default ?d" using clear_default_single [OF assms clear_default_run] .
    from clear_default_at [OF q(1)] obtain p where p: "storage_at ?d node sid = Some p" ..
    have "single_default (snd (set_storage_row sid ?f ?d))"
    proof (rule single_default_rewrite [OF one clear_default_off [OF clear_default_run] one_node [OF one p]])
      show "db_storages (snd (set_storage_row sid ?f ?d)) =
        map (\<lambda>r. if sr_id r = sid then ?f r else r) (db_storages ?d)"
        by (simp add: set_storage_row_run)
    qed (simp_all add: f)
    then show ?thesis unfolding update_storage_run Inr v sum.case prod.case if_P [OF True] .
  next
    case False
    from storage_at_Some [OF q(1)] have in_d: "q \<in> set (db_storages d)" and q': "sr_node_id q = node" "sr_id q = sid"
      by blast+
    have "single_default (snd (set_storage_row sid ?f d))"
      by (rule single_default_weaken [OF assms in_d, where f = ?f])
        (use False storage_record_default [OF q(2)] updated_row_default [OF kw] q' in
          \<open>simp_all add: set_storage_row_run\<close>)
    then show ?thesis unfolding update_storage_run Inr v sum.case prod.case if_not_P [OF False] .
  qed
qed (simp add: update_storage_run assms)

lemma single_default_filter:
  assumes "single_default d" and "db_storages d' = filter P (db_storages d)"
  shows "single_default d'"
proof (rule single_defaultI)
  show "distinct (map sr_id (db_storages d'))"
    using assms(1) unfolding single_default_def assms(2) by (simp add: distinct_map_filter)
next
  fix r r' assume a: "r \<in> set (db_storages d')" "r' \<in> set (db_storages d')" "row_is_default r"
    "row_is_default r'" "sr_node_id r = sr_node_id r'"
  from a(1,2) have "r \<in> set (db_storages d)" "r' \<in> set (db_storages d)" unfolding assms(2) by auto
  from single_defaultD [OF assms(1) this] a(3-5) show "sr_id r = sr_id r'" by simp
qed

definition without_storage :: "string \<Rightarrow> string \<Rightarrow> db \<Rightarrow> db" where
  "without_storage node sid d =
     d\<lparr>db_storages := filter (\<lambda>r. \<not> (sr_node_id r = node \<and> sr_id r = sid)) (db_storages d)\<rparr>"

lemma without_default_off:
  assumes "single_default d" and "storage_at d node sid = Some q" and "row_is_default q"
  shows "others_off node other (without_storage node sid d)"
  unfolding others_off_def
proof (intro ballI impI notI)
  fix r assume r: "r \<in> set (db_storages (without_storage node sid d))" "sr_node_id r = node \<and> sr_id r \<noteq> other"
    and "row_is_default r"
  from r have in_d: "r \<in> set (db_storages d)" "sr_id r \<noteq> sid" by (auto simp: without_storage_def)
  from storage_at_Some [OF assms(2)] have "q \<in> set (db_storages d)" "sr_node_id q = node" "sr_id q = sid" by blast+
  with single_defaultD [OF assms(1) in_d(1) this(1) \<open>row_is_default r\<close> assms(3)] r(2) in_d(2)
  show False by simp
qed

lemma delete_storage_run:
  "snd (delete_storage_destination node sid d) =
     (case get_storage_destination d node sid of
        Inl e \<Rightarrow> d
      | Inr current \<Rightarrow>
          if list_ex (\<lambda>j. jo_storage_id j = sid) (db_jobs d) \<or> list_ex (\<lambda>r. rr_storage_id r = sid) (db_runs d)
          then d
          else if st_is_default current
          then (case replacement (without_storage node sid d) node of
                  None \<Rightarrow> without_storage node sid d
                | Some i \<Rightarrow> snd (set_default node i (without_storage node sid d)))
          else without_storage node sid d)"
proof (cases "get_storage_destination d node sid")
  case (Inr current)
  then show ?thesis
    by (simp add: delete_storage_destination_def op_run without_storage_def split: option.split)
qed (simp add: delete_storage_destination_def reading_def lift_def andthen_def)

lemma delete_storage_single:
  assumes "single_default d"
  shows "single_default (snd (delete_storage_destination node sid d))"
proof (cases "get_storage_destination d node sid")
  case (Inr current)
  from get_storage_Inr [OF Inr] obtain q where q: "storage_at d node sid = Some q" "storage_record q = Inr current" .
  have one: "single_default (without_storage node sid d)"
    by (rule single_default_filter [OF assms]) (simp add: without_storage_def)
  have "single_default (snd (set_default node i (without_storage node sid d)))" if "st_is_default current" for i
    using set_default_single [OF one without_default_off [OF assms q(1)] prod.collapse [symmetric]]
      storage_record_default [OF q(2)] that by blast
  with Inr one assms show ?thesis by (simp add: delete_storage_run split: option.split)
qed (simp add: delete_storage_run assms)

lemma keeps_bootstrap: "keeps single_default (bootstrap_storage_destinations node items def)"
proof -
  have k: "keeps single_default (create_storage_destination s mk)"
    "keeps single_default (set_default_storage_destination node sid)" for s mk sid
    by (simp_all add: keeps_def create_storage_single set_default_storage_single)
  show ?thesis
    unfolding bootstrap_storage_destinations_def bootstrap_one_def by (intro keeps_intros k)
qed

section \<open>The contract of the destination operations\<close>

text \<open>C19: every operation on storage destinations (creation, update, making one the default,
  deletion, bootstrap) keeps at most one default destination per node and unique identifiers,
  whether the call returns or raises.\<close>

theorem storage_operations_keep_one_default:
  "single_default d \<Longrightarrow>
     single_default (snd (create_storage_destination s mk d)) \<and>
     single_default (snd (update_storage_destination node sid kwargs mk d)) \<and>
     single_default (snd (set_default_storage_destination node sid d)) \<and>
     single_default (snd (delete_storage_destination node sid d)) \<and>
     single_default (snd (bootstrap_storage_destinations node items dname d))"
  using create_storage_single update_storage_single set_default_storage_single delete_storage_single
    keeps_bootstrap [unfolded keeps_def] by simp

definition empty_db :: db where
  "empty_db = \<lparr>db_nodes = [''n''], db_vms = [], db_storages = [], db_jobs = [], db_runs = [],
     db_events = [], db_points = [], db_tasks = [], db_artifacts = [], db_restores = []\<rparr>"

definition sample_storage :: "string \<Rightarrow> string \<Rightarrow> storage" where
  "sample_storage sid name = \<lparr>st_id = sid, st_node_id = ''n'', st_name = name, st_type = LOCAL,
     st_values = storage_fields, st_is_default = False, st_created_at = ''2024-01-01''\<rparr>"

definition two_storages :: db where
  "two_storages = snd (create_storage_destination (sample_storage ''b'' ''new'') True
     (snd (create_storage_destination (sample_storage ''a'' ''old'') True empty_db)))"

lemma single_default_empty: "single_default empty_db"
  by (simp add: single_default_def empty_db_def)

lemma single_default_two: "single_default two_storages"
  unfolding two_storages_def by (intro create_storage_single single_default_empty)

theorem storage_operations_keep_one_default_witness:
  "single_default (snd (delete_storage_destination ''n'' ''b'' two_storages)) \<and>
   map (\<lambda>r. (sr_id r, row_is_default r)) (db_storages two_storages) = [(''a'', False), (''b'', True)] \<and>
   map (\<lambda>r. (sr_id r, row_is_default r))
     (db_storages (snd (delete_storage_destination ''n'' ''b'' two_storages))) = [(''a'', True)]"
proof (intro conjI)
  show "single_default (snd (delete_storage_destination ''n'' ''b'' two_storages))"
    using storage_operations_keep_one_default [OF single_default_two] by blast
qed code_simp+

lemma distinct_all_equal: "distinct xs \<Longrightarrow> (\<And>x y. x \<in> set xs \<Longrightarrow> y \<in> set xs \<Longrightarrow> x = y) \<Longrightarrow> length xs \<le> 1"
proof (induction xs)
  case (Cons x xs)
  have "xs = []"
  proof (cases xs)
    case (Cons y ys)
    with Cons.prems(2) [of x y] Cons.prems(1) show ?thesis by simp
  qed
  then show ?case by simp
qed simp

lemma list_all2_in: "list_all2 P xs ys \<Longrightarrow> y \<in> set ys \<Longrightarrow> \<exists>x \<in> set xs. P x y"
  by (induction rule: list_all2_induct) auto

lemma list_storages_default:
  assumes "single_default d" and "list_storages d node = Inr values"
  shows "length (filter st_is_default values) \<le> 1"
proof -
  let ?rows = "sort_key (\<lambda>r. (sr_created_at r, sr_id r)) (filter (\<lambda>r. sr_node_id r = node) (db_storages d))"
  from assms(2) have rel: "list_all2 (\<lambda>r s. storage_record r = Inr s) ?rows values"
    by (simp add: list_storages_def map_result_Inr)
  have "list_all2 (\<lambda>r s. sr_id r = st_id s) ?rows values"
    by (rule list_all2_mono [OF rel]) (use storage_record_default in force)
  then have ids: "map st_id values = map sr_id ?rows"
    by (simp add: list_all2_conv_all_nth list_eq_iff_nth_eq)
  have "distinct (map sr_id (filter (\<lambda>r. sr_node_id r = node) (db_storages d)))"
    using assms(1) unfolding single_default_def by (simp add: distinct_map_filter)
  then have "distinct (map st_id values)" unfolding ids by (simp add: distinct_map)
  then have "distinct (map st_id (filter st_is_default values))" by (rule distinct_map_filter)
  moreover have "i = j" if "i \<in> set (map st_id (filter st_is_default values))"
    "j \<in> set (map st_id (filter st_is_default values))" for i j
  proof -
    have row: "\<exists>r \<in> set (db_storages d). sr_node_id r = node \<and> row_is_default r \<and> sr_id r = k"
      if k: "k \<in> set (map st_id (filter st_is_default values))" for k
    proof -
      from k obtain s where s: "s \<in> set values" "st_is_default s" "st_id s = k" by auto
      then obtain r where "r \<in> set ?rows" "storage_record r = Inr s"
        using list_all2_in [OF rel s(1)] by blast
      then have "r \<in> set (db_storages d)" "sr_node_id r = node" "row_is_default r" "sr_id r = k"
        using storage_record_default [of r s] s by simp_all
      then show ?thesis by blast
    qed
    from row [OF that(1)] obtain r where r: "r \<in> set (db_storages d)" "sr_node_id r = node"
      "row_is_default r" "sr_id r = i" by blast
    from row [OF that(2)] obtain q where q: "q \<in> set (db_storages d)" "sr_node_id q = node"
      "row_is_default q" "sr_id q = j" by blast
    from single_defaultD [OF assms(1) r(1) q(1) r(3) q(3)] r(2,4) q(2,4) show ?thesis by simp
  qed
  ultimately have "length (map st_id (filter st_is_default values)) \<le> 1" by (rule distinct_all_equal)
  then show ?thesis by simp
qed

text \<open>with at most one default per node the default destination of a node is never
  ambiguous: \<open>get_default_storage_destination\<close> gives the marked destination when the listing
  has one, else the first of the listing, and nothing only when the node has no destination.\<close>

theorem default_storage_unambiguous:
  assumes "single_default d" and "list_storages d node = Inr listed"
  shows "get_default_storage d node = Inr (case find st_is_default listed of
     Some s \<Rightarrow> Some s | None \<Rightarrow> (case listed of [] \<Rightarrow> None | s # _ \<Rightarrow> Some s))"
proof (cases listed)
  case (Cons first rest)
  have "find st_is_default listed = (case filter st_is_default listed of [] \<Rightarrow> None | s # _ \<Rightarrow> Some s)"
    by (induction listed) auto
  with list_storages_default [OF assms] assms(2) Cons show ?thesis
    by (auto simp: get_default_storage_def Let_def split: list.splits)
qed (simp add: get_default_storage_def assms(2))

definition marked_storage :: storage where
  "marked_storage = (sample_storage ''b'' ''new'')\<lparr>st_is_default := True\<rparr>"

lemma two_storages_listed:
  "list_storages two_storages ''n'' = Inr [sample_storage ''a'' ''old'', marked_storage]"
  by code_simp

theorem default_storage_unambiguous_witness:
  "get_default_storage two_storages ''n'' = Inr (Some marked_storage)"
  using default_storage_unambiguous [OF single_default_two two_storages_listed]
  by (simp add: marked_storage_def sample_storage_def)

text \<open>
  A name with blanks around it passes the duplicate check of \<open>create_storage_destination\<close>: the
  node then has two destinations of one name, and the call returns \<open>None\<close>.
\<close>

lemma create_storage_padded_name:
  "let (r, d) = create_storage_destination (sample_storage ''c'' '' new'') False two_storages
   in r = Inr None \<and> map sr_name (db_storages d) = [''old'', ''new'', ''new'']"
  by code_simp

end
