(* ===== verification/JobScheduling.thy ===== *)
theory JobScheduling
  imports Storages "HOL-Library.Countable"
begin

text \<open>
  Backup jobs and the persisted scheduler (\<open>repository_v2.py\<close>, \<open>scheduler_v2.py\<close>): adding and
  changing a job, its chain schedule, manual runs, and the consumption of a due slot. The
  identifier that \<open>uuid4\<close> gives a new run is a parameter (\<open>run_id\<close>, or \<open>fresh\<close> where
  several are drawn). Stored times are zone-aware: they are written by \<open>isoformat\<close> from
  aware times.
\<close>

section \<open>Runs\<close>

record run =
  ru_id :: string
  ru_job_id :: string
  ru_storage_id :: string
  ru_state :: run_state
  ru_planned_kind :: "backup_kind option"
  ru_planned_chain_id :: json
  ru_planned_sequence :: json
  ru_parent_restore_point_id :: json
  ru_error :: json
  ru_cleanup_error :: json
  ru_cleanup_attempts :: int
  ru_scheduled_for :: "aware option"
  ru_is_catch_up :: bool
  ru_missed_schedule_slots :: int
  ru_recovery_required :: bool
  ru_recovery_reason :: json
  ru_cleanup_authorized :: bool
  ru_created_at :: string
  ru_updated_at :: string

definition backup_kind_of :: "json \<Rightarrow> backup_kind result" where
  "backup_kind_of v =
     (if v = JStr ''FULL'' then Inr FULL else if v = JStr ''INCREMENTAL'' then Inr INCREMENTAL
      else Inl (ValueError ''not a valid BackupKind''))"

definition read_time :: "text_env \<Rightarrow> json \<Rightarrow> aware option result" where
  "read_time te v =
     (if \<not> truthy v then Inr None
      else case v of JStr s \<Rightarrow> bnd (te_from_iso te s) (\<lambda>d. Inr (Some d)) | _ \<Rightarrow> Inl TypeError)"

definition run_record :: "text_env \<Rightarrow> run_row \<Rightarrow> run result" where
  "run_record te row =
     (let c = rr_context row in
      policy_guard ''RUN_CONTEXT_INVALID''
       (bnd (run_state_of (rr_state row)) (\<lambda>state.
        bnd (if truthy (dget_or c ''planned_kind'' JNull)
             then bnd (backup_kind_of (dget_or c ''planned_kind'' JNull)) (\<lambda>k. Inr (Some k))
             else Inr None) (\<lambda>kind.
        bnd (py_int (dget_or c ''cleanup_attempts'' (JInt 0))) (\<lambda>attempts.
        bnd (read_time te (dget_or c ''scheduled_for'' JNull)) (\<lambda>scheduled.
        bnd (py_int (dget_or c ''missed_schedule_slots'' (JInt 0))) (\<lambda>missed.
        Inr \<lparr>ru_id = rr_id row, ru_job_id = rr_job_id row, ru_storage_id = rr_storage_id row,
             ru_state = state, ru_planned_kind = kind,
             ru_planned_chain_id = dget_or c ''planned_chain_id'' JNull,
             ru_planned_sequence = dget_or c ''planned_sequence'' JNull,
             ru_parent_restore_point_id = dget_or c ''parent_restore_point_id'' JNull,
             ru_error = dget_or c ''error'' JNull, ru_cleanup_error = dget_or c ''cleanup_error'' JNull,
             ru_cleanup_attempts = attempts, ru_scheduled_for = scheduled,
             ru_is_catch_up = truthy (dget_or c ''is_catch_up'' (JBool False)),
             ru_missed_schedule_slots = missed,
             ru_recovery_required = truthy (dget_or c ''recovery_required'' (JBool False)),
             ru_recovery_reason = dget_or c ''recovery_reason'' JNull,
             ru_cleanup_authorized = truthy (dget_or c ''cleanup_authorized'' (JBool False)),
             ru_created_at = rr_created_at row, ru_updated_at = rr_updated_at row\<rparr>)))))))"

definition get_run :: "text_env \<Rightarrow> db \<Rightarrow> string \<Rightarrow> run result" where
  "get_run te d i = bnd (run_by_id d i) (run_record te)"

definition insert_run :: "run_row \<Rightarrow> unit dbop" where
  "insert_run r =
     reading (\<lambda>d. if rr_id r \<in> set (map rr_id (db_runs d)) then raise OtherException
       else update (\<lambda>d. d\<lparr>db_runs := db_runs d @ [r]\<rparr>))"

text \<open>\<open>create_run\<close> with the state \<open>SCHEDULED\<close> that every caller passes.\<close>

definition create_run :: "text_env \<Rightarrow> string \<Rightarrow> string \<Rightarrow> string \<Rightarrow> aware \<Rightarrow> dict \<Rightarrow> run_row dbop" where
  "create_run te run_id job_id storage_id created_at context =
     (let r = \<lparr>rr_id = run_id, rr_job_id = job_id, rr_storage_id = storage_id,
               rr_state = ''SCHEDULED'', rr_context = context,
               rr_created_at = te_iso te created_at, rr_updated_at = te_iso te created_at\<rparr>
      in andthen (insert_run r) (\<lambda>_. ret r))"

section \<open>Replica destinations of a job\<close>

definition validate_replicas :: "db \<Rightarrow> string \<Rightarrow> string \<Rightarrow> string list \<Rightarrow> string list result" where
  "validate_replicas d node primary replicas =
     (if \<not> distinct replicas then domain_error ''JOB_REPLICA_DUPLICATE''
      else if primary \<in> set replicas then domain_error ''JOB_REPLICA_MATCHES_PRIMARY''
      else bnd (map_result (\<lambda>i. bnd (get_storage_destination d node i) (\<lambda>s.
             if st_name s = ''__vmbackupd_ssh_identity__''
             then domain_error ''JOB_REPLICA_DESTINATION_INTERNAL'' else Inr i)) replicas)
        (\<lambda>_. Inr replicas))"

definition job_replica_ids :: "db \<Rightarrow> string \<Rightarrow> string list result" where
  "job_replica_ids d i = bnd (job_row_by_id d i) (\<lambda>row. replica_ids (jo_policy row))"

section \<open>Adding and changing jobs\<close>

definition job_row_of :: "text_env \<Rightarrow> job \<Rightarrow> string list \<Rightarrow> cadence option \<Rightarrow> job_row" where
  "job_row_of te v replicas chain =
     \<lparr>jo_id = jb_id v, jo_vm_id = jb_vm_id v, jo_storage_id = jb_storage_id v, jo_name = jb_name v,
      jo_enabled = jb_enabled v, jo_policy = job_policy te v replicas, jo_chain = chain,
      jo_created_at = jb_created_at v\<rparr>"

definition add_job :: "text_env \<Rightarrow> job \<Rightarrow> string list \<Rightarrow> job dbop" where
  "add_job te v replicas =
     reading (\<lambda>d.
       andthen (lift (vm_by_id d (jb_vm_id v))) (\<lambda>vm.
       andthen (lift (get_storage_destination d (vr_node_id vm) (jb_storage_id v))) (\<lambda>_.
       andthen (lift (validate_replicas d (vr_node_id vm) (jb_storage_id v) replicas)) (\<lambda>ids.
       if jb_id v \<in> set (map jo_id (db_jobs d)) then raise OtherException
       else andthen (update (\<lambda>d. d\<lparr>db_jobs := db_jobs d @ [job_row_of te v ids None]\<rparr>)) (\<lambda>_. ret v)))))"

text \<open>The keyword arguments of \<open>update_job\<close>; an argument left out is \<open>None\<close>.\<close>

record job_changes =
  jc_name :: "string option"
  jc_enabled :: "bool option"
  jc_storage_id :: "string option"
  jc_storage_name :: "string option"
  jc_replicas :: "string list option"
  jc_schedule_type :: "string option"
  jc_interval_seconds :: "int option"
  jc_misfire_grace_seconds :: "int option"
  jc_daily_time :: "string option"
  jc_schedule_timezone :: "string option"
  jc_schedule_enabled :: "bool option"
  jc_max_incrementals :: "int option"
  jc_restore_points :: "int option"
  jc_minimum_full_chains :: "int option"
  jc_full_chains :: "int option"
  jc_reclaim_mode :: "string option"
  jc_margin :: "rat option"

definition given :: "'a option \<Rightarrow> 'a \<Rightarrow> 'a" where
  "given v w = (case v of None \<Rightarrow> w | Some x \<Rightarrow> x)"

definition changed_destination :: "db \<Rightarrow> string \<Rightarrow> job \<Rightarrow> job_changes \<Rightarrow> string result" where
  "changed_destination d node current kw =
     (case (jc_storage_id kw, jc_storage_name kw) of
        (Some _, Some _) \<Rightarrow> domain_error ''STORAGE_DESTINATION_AMBIGUOUS''
      | (Some i, None) \<Rightarrow> bnd (get_storage_destination d node i) (\<lambda>_. Inr i)
      | (None, Some n) \<Rightarrow>
          bnd (get_storage_by_name d node n) (\<lambda>s. case s of None \<Rightarrow> Inl KeyError | Some s \<Rightarrow> Inr (st_id s))
      | (None, None) \<Rightarrow> Inr (jb_storage_id current))"

definition changed_schedule :: "text_env \<Rightarrow> schedule_policy \<Rightarrow> job_changes \<Rightarrow> schedule_policy result" where
  "changed_schedule te s kw =
     (let stype = (case jc_schedule_type kw of
                     None \<Rightarrow> schedule_type_value (sp_schedule_type s)
                   | Some t \<Rightarrow> if t = [] then schedule_type_value (sp_schedule_type s) else t)
      in make_schedule_policy (te_tzdb te)
           (given (jc_interval_seconds kw) (sp_interval_seconds s))
           (given (jc_misfire_grace_seconds kw) (sp_misfire_grace_seconds s))
           ''RUN_ONCE'' ''SKIP_IF_BUSY'' stype
           (if stype = ''INTERVAL'' then JNull
            else given (map_option JStr (jc_daily_time kw)) (opt_json (sp_daily_time s)))
           (if stype = ''INTERVAL'' then JNull
            else given (map_option JStr (jc_schedule_timezone kw)) (opt_json (sp_schedule_timezone s))))"

definition changed_next_run ::
  "text_env \<Rightarrow> job \<Rightarrow> schedule_policy \<Rightarrow> aware \<Rightarrow> job_changes \<Rightarrow> aware option result" where
  "changed_next_run te current target changed_at kw =
     (case jc_schedule_enabled kw of
        None \<Rightarrow>
          (if jc_enabled kw = Some True \<and> \<not> jb_enabled current \<and> jb_next_run_at current \<noteq> None
           then bnd (next_run_after (te_tzdb te) target changed_at) (\<lambda>n. Inr (Some n))
           else Inr (jb_next_run_at current))
      | Some True \<Rightarrow> bnd (next_run_after (te_tzdb te) target changed_at) (\<lambda>n. Inr (Some n))
      | Some False \<Rightarrow> Inr None)"

definition changed_retention :: "retention_policy \<Rightarrow> job_changes \<Rightarrow> retention_policy result" where
  "changed_retention r kw =
     make_retention_policy
       (given (jc_restore_points kw) (restore_points_to_retain r))
       (given (jc_minimum_full_chains kw) (minimum_full_chains r))
       (given (jc_full_chains kw) (full_chains_to_retain r))
       (given (jc_reclaim_mode kw) (reclaim_mode_value (reclaim_mode r)))
       (given (jc_margin kw) (backup_size_margin_percent r))"

definition changed_job ::
  "text_env \<Rightarrow> db \<Rightarrow> string \<Rightarrow> string \<Rightarrow> aware \<Rightarrow> job_changes \<Rightarrow> (job \<times> string list) result" where
  "changed_job te d job_id node changed_at kw =
     bnd (get_job te d job_id) (\<lambda>current.
     bnd (vm_by_id d (jb_vm_id current)) (\<lambda>vm.
     if vr_node_id vm \<noteq> node then domain_error ''JOB_NOT_LOCAL''
     else
       bnd (changed_destination d node current kw) (\<lambda>destination.
       bnd (case jc_replicas kw of None \<Rightarrow> job_replica_ids d job_id | Some v \<Rightarrow> Inr v) (\<lambda>ids.
       bnd (validate_replicas d node destination ids) (\<lambda>replicas.
       bnd (changed_schedule te (jb_schedule current) kw) (\<lambda>target.
       bnd (changed_next_run te current target changed_at kw) (\<lambda>next_run.
       bnd (make_backup_policy (given (jc_max_incrementals kw) (jb_max_incrementals current))) (\<lambda>maximum.
       bnd (changed_retention (jb_retention current) kw) (\<lambda>retention.
       Inr (current\<lparr>jb_name := given (jc_name kw) (jb_name current), jb_storage_id := destination,
                    jb_enabled := given (jc_enabled kw) (jb_enabled current),
                    jb_max_incrementals := maximum, jb_retention := retention,
                    jb_schedule := target, jb_next_run_at := next_run\<rparr>, replicas))))))))))"

text \<open>
  \<open>update_job\<close>; \<open>_merge_job_extensions\<close> carries the chain schedule of the row over to the
  new policy.
\<close>

definition update_job :: "text_env \<Rightarrow> string \<Rightarrow> string \<Rightarrow> aware \<Rightarrow> job_changes \<Rightarrow> job dbop" where
  "update_job te job_id node changed_at kw =
     reading (\<lambda>d.
       andthen (lift (changed_job te d job_id node changed_at kw)) (\<lambda>(updated, replicas).
       andthen (set_job_row (jb_id updated) (\<lambda>row. row\<lparr>jo_name := jb_name updated,
         jo_storage_id := jb_storage_id updated, jo_enabled := jb_enabled updated,
         jo_policy := job_policy te updated replicas\<rparr>)) (\<lambda>_.
       ret updated)))"

definition list_jobs_for_node :: "text_env \<Rightarrow> db \<Rightarrow> string \<Rightarrow> job list result" where
  "list_jobs_for_node te d node =
     map_result (job_record te)
       (filter (\<lambda>j. list_ex (\<lambda>v. vr_id v = jo_vm_id j \<and> vr_node_id v = node) (db_vms d)) (db_jobs d))"

definition list_jobs :: "text_env \<Rightarrow> db \<Rightarrow> job list result" where
  "list_jobs te d = map_result (job_record te) (sort_key jo_created_at (db_jobs d))"

section \<open>Chain schedules\<close>

text \<open>\<open>min\<close> of the two cursors by instant; the FULL cursor at a tie.\<close>

definition earlier_cursor :: "cadence \<Rightarrow> aware" where
  "earlier_cursor c =
     (if utc (cd_next_incremental_at c) < utc (cd_next_full_at c) then cd_next_incremental_at c
      else cd_next_full_at c)"

definition get_chain_schedule :: "db \<Rightarrow> string \<Rightarrow> cadence option result" where
  "get_chain_schedule d job_id =
     bnd (job_row_by_id d job_id) (\<lambda>row.
       Inr (case jo_chain row of None \<Rightarrow> None | Some c \<Rightarrow> if cd_enabled c then Some c else None))"

definition next_run_json :: "text_env \<Rightarrow> aware option \<Rightarrow> json" where
  "next_run_json te n = (case n of None \<Rightarrow> JNull | Some v \<Rightarrow> JStr (te_iso te v))"

definition configure_chain_schedule ::
  "text_env \<Rightarrow> string \<Rightarrow> aware \<Rightarrow> bool \<Rightarrow> json \<Rightarrow> json \<Rightarrow> json \<Rightarrow> json \<Rightarrow> job dbop" where
  "configure_chain_schedule te job_id changed_at enabled timezone_name full_weekday full_time inc_times =
     reading (\<lambda>d.
       andthen (lift (get_job te d job_id)) (\<lambda>v.
       andthen (lift (job_replica_ids d job_id)) (\<lambda>replicas.
       andthen (lift (job_row_by_id d job_id)) (\<lambda>row.
       andthen (lift
         (if enabled then
            if jb_max_incrementals v \<le> 0 then domain_error ''CHAIN_SCHEDULE_REQUIRES_INCREMENTALS''
            else bnd (initialize_chain_schedule (te_tzdb te) changed_at timezone_name full_weekday
                        full_time inc_times) (\<lambda>c. Inr (Some c, Some (earlier_cursor c)))
          else Inr (None, jb_next_run_at v))) (\<lambda>(chain, next_run).
       andthen (set_job_row job_id (\<lambda>r. r\<lparr>jo_chain := chain,
         jo_policy := dset (dset (jo_policy row) ''next_run_at'' (next_run_json te next_run))
           ''replica_destination_ids'' (JList (map JStr replicas))\<rparr>)) (\<lambda>_.
       reading (\<lambda>d'. lift (get_job te d' job_id))))))))"

section \<open>The scheduler\<close>

definition terminal_states :: "string list" where
  "terminal_states = [''SUCCESS'', ''FAILED'']"

text \<open>The join of runs and jobs behind the busy test.\<close>

definition run_of_vm :: "db \<Rightarrow> string \<Rightarrow> run_row \<Rightarrow> bool" where
  "run_of_vm d vm r = list_ex (\<lambda>j. jo_id j = rr_job_id r \<and> jo_vm_id j = vm) (db_jobs d)"

definition active_runs :: "db \<Rightarrow> string \<Rightarrow> run_row list" where
  "active_runs d vm = filter (\<lambda>r. run_of_vm d vm r \<and> rr_state r \<notin> set terminal_states) (db_runs d)"

definition busy_run :: "db \<Rightarrow> string \<Rightarrow> run_row option" where
  "busy_run d vm = (case sort_key rr_created_at (active_runs d vm) of [] \<Rightarrow> None | r # _ \<Rightarrow> Some r)"

record due_slot =
  du_kind :: "string option"
  du_scheduled_for :: aware
  du_represented :: nat
  du_next_run_at :: aware
  du_chain :: "cadence option"

text \<open>
  The slot that a chain schedule has due: FULL wins, and an incremental cursor that is due as
  well is advanced past \<open>now\<close>. The new cursors are stored as texts and read back.
\<close>

definition chain_due :: "(string \<Rightarrow> zone option) \<Rightarrow> cadence \<Rightarrow> aware \<Rightarrow> due_slot option result" where
  "chain_due tzdb c now =
     (let full_is_due = utc (cd_next_full_at c) \<le> utc now;
          inc_is_due = utc (cd_next_incremental_at c) \<le> utc now;
          schedule = chain_schedule.truncate c
      in if \<not> full_is_due \<and> \<not> inc_is_due then Inr None
         else if full_is_due then
           bnd (advance_cursor tzdb (cd_next_full_at c) now ''FULL'' schedule) (\<lambda>(represented, next_full).
           bnd (if inc_is_due
                then bnd (advance_cursor tzdb (cd_next_incremental_at c) now ''INCREMENTAL'' schedule)
                       (\<lambda>(_, next_inc). Inr (reparsed next_inc))
                else Inr (cd_next_incremental_at c)) (\<lambda>inc.
           let c' = c\<lparr>cd_next_full_at := reparsed next_full, cd_next_incremental_at := inc\<rparr>
           in Inr (Some \<lparr>du_kind = Some ''FULL'', du_scheduled_for = cd_next_full_at c,
                du_represented = represented, du_next_run_at = earlier_cursor c', du_chain = Some c'\<rparr>)))
         else
           bnd (advance_cursor tzdb (cd_next_incremental_at c) now ''INCREMENTAL'' schedule)
             (\<lambda>(represented, next_inc).
           let c' = c\<lparr>cd_next_incremental_at := reparsed next_inc\<rparr>
           in Inr (Some \<lparr>du_kind = Some ''INCREMENTAL'', du_scheduled_for = cd_next_incremental_at c,
                du_represented = represented, du_next_run_at = earlier_cursor c', du_chain = Some c'\<rparr>)))"

definition policy_due :: "(string \<Rightarrow> zone option) \<Rightarrow> schedule_policy \<Rightarrow> aware \<Rightarrow> aware \<Rightarrow> due_slot option result" where
  "policy_due tzdb p due now =
     bnd (advance_due tzdb p due now) (\<lambda>(represented, next_run).
       Inr (Some \<lparr>du_kind = None, du_scheduled_for = due, du_represented = represented,
         du_next_run_at = next_run, du_chain = None\<rparr>))"

text \<open>The guards of \<open>schedule_due_job\<close> and the slot to consume, when one is due.\<close>

definition due_for_job :: "text_env \<Rightarrow> db \<Rightarrow> string \<Rightarrow> aware \<Rightarrow> (job \<times> due_slot option) result" where
  "due_for_job te d job_id now =
     bnd (get_job te d job_id) (\<lambda>v.
       case jb_next_run_at v of
         None \<Rightarrow> Inr (v, None)
       | Some due \<Rightarrow>
           if \<not> jb_enabled v \<or> utc now < utc due then Inr (v, None)
           else bnd (get_chain_schedule d job_id) (\<lambda>chain.
             bnd (case chain of None \<Rightarrow> policy_due (te_tzdb te) (jb_schedule v) due now
                  | Some c \<Rightarrow> chain_due (te_tzdb te) c now) (\<lambda>slot. Inr (v, slot))))"

definition due_context :: "text_env \<Rightarrow> due_slot \<Rightarrow> string option \<Rightarrow> dict" where
  "due_context te s daemon_id =
     [(''scheduled_for'', JStr (te_iso te (du_scheduled_for s))),
      (''is_catch_up'', JBool (du_represented s > 1))] @
     (case du_kind s of None \<Rightarrow> [] | Some k \<Rightarrow>
        [(''requested_backup_kind'', JStr k), (''requested_backup_kind_source'', JStr ''SCHEDULE'')]) @
     [(''missed_schedule_slots'', JInt (if du_represented s > 1 then int (du_represented s) else 0))] @
     (case daemon_id of None \<Rightarrow> [] | Some i \<Rightarrow> [(''scheduler_daemon_instance_id'', JStr i)])"

definition announce_run :: "text_env \<Rightarrow> string \<Rightarrow> due_slot \<Rightarrow> run option dbop" where
  "announce_run te run_id s =
     andthen (append_event run_id ''JOB_SCHEDULED''
       [(''scheduled_for'', JStr (te_iso te (du_scheduled_for s))),
        (''due_occurrences'', JInt (int (du_represented s)))]) (\<lambda>_.
     andthen (if du_represented s > 1
       then append_event run_id ''JOB_CATCH_UP'' [(''missed_schedule_slots'', JInt (int (du_represented s)))]
       else ret ()) (\<lambda>_.
     reading (\<lambda>d. lift (bnd (get_run te d run_id) (\<lambda>r. Inr (Some r))))))"

definition start_due_run ::
  "text_env \<Rightarrow> string \<Rightarrow> job \<Rightarrow> due_slot \<Rightarrow> aware \<Rightarrow> string option \<Rightarrow> run option dbop" where
  "start_due_run te run_id v s now daemon_id =
     andthen (insert_run \<lparr>rr_id = run_id, rr_job_id = jb_id v, rr_storage_id = jb_storage_id v,
       rr_state = ''SCHEDULED'', rr_context = due_context te s daemon_id,
       rr_created_at = te_iso te now, rr_updated_at = te_iso te now\<rparr>) (\<lambda>_.
     announce_run te run_id s)"

definition skip_busy :: "text_env \<Rightarrow> run_row \<Rightarrow> job \<Rightarrow> due_slot \<Rightarrow> run option dbop" where
  "skip_busy te busy v s =
     andthen (append_event (rr_id busy) ''JOB_SCHEDULE_SKIPPED_BUSY''
       [(''job_id'', JStr (jb_id v)), (''scheduled_for'', JStr (te_iso te (du_scheduled_for s))),
        (''due_occurrences'', JInt (int (du_represented s))),
        (''message'', JStr ''skipped due occurrence(s): VM busy'')]) (\<lambda>_. ret None)"

text \<open>The row that \<open>schedule_due_job\<close> writes.\<close>

definition consumed_row :: "text_env \<Rightarrow> job \<Rightarrow> due_slot \<Rightarrow> string list \<Rightarrow> job_row \<Rightarrow> job_row" where
  "consumed_row te v s replicas row = row\<lparr>jo_chain := du_chain s,
     jo_policy := job_policy te (v\<lparr>jb_next_run_at := Some (du_next_run_at s)\<rparr>) replicas\<rparr>"

definition schedule_due_job ::
  "text_env \<Rightarrow> string \<Rightarrow> string \<Rightarrow> aware \<Rightarrow> string option \<Rightarrow> run option dbop" where
  "schedule_due_job te run_id job_id now daemon_id =
     reading (\<lambda>d.
       andthen (lift (due_for_job te d job_id now)) (\<lambda>(v, slot).
       case slot of
         None \<Rightarrow> ret None
       | Some s \<Rightarrow>
           andthen (lift (vm_by_id d (jb_vm_id v))) (\<lambda>vm.
           andthen (lift (job_replica_ids d job_id)) (\<lambda>replicas.
           andthen (set_job_row job_id (consumed_row te v s replicas)) (\<lambda>_.
           case busy_run d (vr_id vm) of
             Some busy \<Rightarrow> skip_busy te busy v s
           | None \<Rightarrow> start_due_run te run_id v s now daemon_id)))))"

text \<open>\<open>SchedulerV2.tick\<close>: the jobs are listed once, then scheduled one after another.\<close>

fun tick_jobs ::
  "text_env \<Rightarrow> (db \<Rightarrow> string) \<Rightarrow> aware \<Rightarrow> string option \<Rightarrow> job list \<Rightarrow> run list \<Rightarrow> run list dbop" where
  "tick_jobs te fresh now daemon_id [] created = ret created"
| "tick_jobs te fresh now daemon_id (v # vs) created =
     reading (\<lambda>d. andthen (schedule_due_job te (fresh d) (jb_id v) now daemon_id) (\<lambda>r.
       tick_jobs te fresh now daemon_id vs (case r of None \<Rightarrow> created | Some x \<Rightarrow> created @ [x])))"

definition tick ::
  "text_env \<Rightarrow> (db \<Rightarrow> string) \<Rightarrow> string option \<Rightarrow> aware \<Rightarrow> string option \<Rightarrow> run list dbop" where
  "tick te fresh node now daemon_id =
     reading (\<lambda>d. andthen (lift (case node of Some n \<Rightarrow> list_jobs_for_node te d n | None \<Rightarrow> list_jobs te d))
       (\<lambda>vs. tick_jobs te fresh now daemon_id vs []))"

text \<open>\<open>str.upper\<close> over ASCII letters.\<close>

definition upper_char :: "char \<Rightarrow> char" where
  "upper_char c = (let n = (of_char c :: nat) in if 97 \<le> n \<and> n \<le> 122 then char_of (n - 32) else c)"

definition create_manual_run :: "text_env \<Rightarrow> string \<Rightarrow> string \<Rightarrow> string \<Rightarrow> aware \<Rightarrow> string \<Rightarrow> run_row dbop" where
  "create_manual_run te run_id job_id node created_at requested =
     reading (\<lambda>d.
       andthen (lift (get_job te d job_id)) (\<lambda>v.
       andthen (lift (vm_by_id d (jb_vm_id v))) (\<lambda>vm.
       if vr_node_id vm \<noteq> node then raise (DomainInvariantError ''VM_NOT_LOCAL'')
       else if \<not> jb_enabled v then raise (DomainInvariantError ''JOB_DISABLED'')
       else if busy_run d (vr_id vm) \<noteq> None then raise (DomainInvariantError ''VM_BUSY'')
       else
         andthen (lift (get_storage_destination d node (jb_storage_id v))) (\<lambda>_.
         let kind = map upper_char (if requested = [] then ''AUTO'' else requested) in
         if kind \<notin> {''AUTO'', ''FULL'', ''INCREMENTAL''} then raise (DomainInvariantError ''INVALID_BACKUP_KIND'')
         else create_run te run_id (jb_id v) (jb_storage_id v) created_at
           [(''requested_backup_kind'', JStr kind), (''requested_backup_kind_source'', JStr ''MANUAL'')]))))"

text \<open>The recovery path puts a run back whatever its state and whatever else runs.\<close>

definition resume_run_after_recovery :: "string \<Rightarrow> string \<Rightarrow> unit dbop" where
  "resume_run_after_recovery now run_id =
     andthen (update (\<lambda>d. d\<lparr>db_runs := map (\<lambda>r. if rr_id r = run_id
       then r\<lparr>rr_state := ''SCHEDULED'', rr_updated_at := now\<rparr> else r) (db_runs d)\<rparr>)) (\<lambda>_.
     append_event run_id ''RECOVERY_RECLAIM_COMPLETED'' [(''action'', JStr ''resume_backup'')])"

section \<open>Consuming a slot\<close>

lemma schedule_stored_interval:
  assumes "schedule_stored te p"
  shows "60 \<le> sp_interval_seconds p"
proof (rule ccontr)
  assume "\<not> 60 \<le> sp_interval_seconds p"
  moreover from assms obtain i g c ov ty t z where "make_schedule_policy (te_tzdb te) i g c ov ty t z = Inr p"
    unfolding schedule_stored_def by blast
  note make_schedule_policy_again [OF this]
  ultimately show False by (simp add: make_schedule_policy_def)
qed

lemma advance_due_later:
  assumes "schedule_stored te p" and "dt_zone due = fixed_zone off"
    and "advance_due tzdb p due now = Inr (n, u)"
  shows "utc now < utc u"
proof -
  from assms(3) have due: "utc due \<le> utc now" by (simp add: advance_due_def split: if_splits)
  have i: "60 \<le> sp_interval_seconds p" by (rule schedule_stored_interval [OF assms(1)])
  show ?thesis
  proof (cases "sp_schedule_type p")
    case INTERVAL
    define w where "w = sp_interval_seconds p * second_us"
    have w: "0 < w" using i by (simp add: w_def us_defs)
    define q where "q = (utc now - utc due) div w"
    have "u = plus_wall due ((q + 1) * w)"
      using assms(3) due INTERVAL by (simp add: advance_due_def Let_def q_def w_def mult.assoc)
    then have "utc u = utc due + (q + 1) * w"
      using assms(2) by (simp add: plus_wall_def utc_def fixed_zone_def)
    moreover have "utc now - utc due < (q + 1) * w"
      using w unfolding q_def by (metis add.commute div_mult_mod_eq mult.commute distrib_left mult.right_neutral pos_mod_bound add_less_cancel_right)
    ultimately show ?thesis by simp
  next
    case DAILY
    then have "next_run_after tzdb p = next_daily_after tzdb p" by (simp add: next_run_after_def fun_eq_iff)
    with assms(3) due DAILY have
      "coalesce_loop 1000000 ''DAILY schedule backlog is unreasonably large''
         (next_daily_after tzdb p) (utc now) 0 due = Inr (n, u)"
      by (simp add: advance_due_def)
    from daily.coalesce_exact [OF this] show ?thesis by blast
  qed
qed

lemma advance_cursor_later:
  assumes "advance_cursor tzdb cur now kind s = Inr (n, u)"
  shows "utc now < utc u"
proof -
  from assms have "coalesce_loop 100000 ''schedule backlog is unreasonably large''
      (cursor_step tzdb kind s) (utc now) 0 cur = Inr (n, u)"
    by (simp add: advance_cursor_def split: if_splits)
  from cursor.coalesce_exact [OF this] show ?thesis by blast
qed

lemma chain_due_cases:
  assumes "chain_due tzdb c now = Inr (Some s)"
  obtains (full) n f inc where "utc (cd_next_full_at c) \<le> utc now"
      "advance_cursor tzdb (cd_next_full_at c) now ''FULL'' (chain_schedule.truncate c) = Inr (n, f)"
      "if utc (cd_next_incremental_at c) \<le> utc now
       then \<exists>m i. advance_cursor tzdb (cd_next_incremental_at c) now ''INCREMENTAL''
              (chain_schedule.truncate c) = Inr (m, i) \<and> inc = reparsed i
       else inc = cd_next_incremental_at c"
      "du_chain s = Some (c\<lparr>cd_next_full_at := reparsed f, cd_next_incremental_at := inc\<rparr>)"
      "du_kind s = Some ''FULL''" "du_scheduled_for s = cd_next_full_at c" "du_represented s = n"
      "du_next_run_at s = earlier_cursor (c\<lparr>cd_next_full_at := reparsed f, cd_next_incremental_at := inc\<rparr>)"
    | (incremental) n i where "utc now < utc (cd_next_full_at c)" "utc (cd_next_incremental_at c) \<le> utc now"
      "advance_cursor tzdb (cd_next_incremental_at c) now ''INCREMENTAL'' (chain_schedule.truncate c) = Inr (n, i)"
      "du_chain s = Some (c\<lparr>cd_next_incremental_at := reparsed i\<rparr>)"
      "du_kind s = Some ''INCREMENTAL''" "du_scheduled_for s = cd_next_incremental_at c" "du_represented s = n"
      "du_next_run_at s = earlier_cursor (c\<lparr>cd_next_incremental_at := reparsed i\<rparr>)"
proof (cases "utc (cd_next_full_at c) \<le> utc now")
  case True
  with assms that(1) show ?thesis
    by (cases "utc (cd_next_incremental_at c) \<le> utc now")
      (auto simp: chain_due_def Let_def bnd_eq_Inr)
next
  case False
  with assms that(2) show ?thesis
    by (cases "utc (cd_next_incremental_at c) \<le> utc now") (auto simp: chain_due_def Let_def bnd_eq_Inr)
qed

lemma chain_due_later:
  assumes "chain_due tzdb c now = Inr (Some s)"
  shows "utc now < utc (du_next_run_at s) \<and> (\<exists>c'. du_chain s = Some c' \<and>
    utc now < utc (cd_next_full_at c') \<and> utc now < utc (cd_next_incremental_at c') \<and>
    cd_enabled c' = cd_enabled c)"
  using assms
proof (cases rule: chain_due_cases)
  case (full n f inc)
  have "utc now < utc f" by (rule advance_cursor_later [OF full(2)])
  moreover have "utc now < utc inc"
  proof (cases "utc (cd_next_incremental_at c) \<le> utc now")
    case True
    with full(3) advance_cursor_later show ?thesis by auto
  qed (use full(3) in auto)
  ultimately show ?thesis using full by (simp add: earlier_cursor_def)
next
  case (incremental n i)
  have "utc now < utc i" by (rule advance_cursor_later [OF incremental(3)])
  then show ?thesis using incremental by (simp add: earlier_cursor_def)
qed

lemma due_for_job_later:
  assumes "iso_ok te" and "due_for_job te d job_id now = Inr (v, Some s)"
  shows "get_job te d job_id = Inr v \<and> utc now < utc (du_next_run_at s) \<and>
    (\<forall>c. du_chain s = Some c \<longrightarrow> utc now < utc (cd_next_full_at c) \<and> utc now < utc (cd_next_incremental_at c))"
proof -
  from assms(2) obtain w where w: "get_job te d job_id = Inr w"
    and after: "(case jb_next_run_at w of None \<Rightarrow> Inr (w, None)
       | Some due \<Rightarrow>
           if \<not> jb_enabled w \<or> utc now < utc due then Inr (w, None)
           else bnd (get_chain_schedule d job_id) (\<lambda>chain.
             bnd (case chain of None \<Rightarrow> policy_due (te_tzdb te) (jb_schedule w) due now
                  | Some c \<Rightarrow> chain_due (te_tzdb te) c now) (\<lambda>slot. Inr (w, slot)))) = Inr (v, Some s)"
    unfolding due_for_job_def bnd_eq_Inr by blast
  from after obtain due chain where v: "w = v" "jb_next_run_at w = Some due"
    and slot: "(case chain of None \<Rightarrow> policy_due (te_tzdb te) (jb_schedule v) due now
         | Some c \<Rightarrow> chain_due (te_tzdb te) c now) = Inr (Some s)"
    by (cases "jb_next_run_at w") (auto simp: bnd_eq_Inr split: if_splits)
  note v = w [unfolded v(1)] v(2) [unfolded v(1)]
  show ?thesis
  proof (cases chain)
    case None
    with slot obtain n u where u: "advance_due (te_tzdb te) (jb_schedule v) due now = Inr (n, u)"
      and s: "du_next_run_at s = u" "du_chain s = None"
      by (auto simp: policy_due_def bnd_eq_Inr)
    from v(1) obtain row where row: "job_record te row = Inr v" by (auto simp: get_job_def bnd_eq_Inr)
    then have wf: "job_wf te v" by (rule job_record_wf)
    from row v(2) have "read_next_run te (jo_policy row) = Inr (Some due)"
      by (auto simp: job_record_def bnd_eq_Inr)
    then obtain t where "te_from_iso te t = Inr due"
      by (auto simp: read_next_run_def Let_def bnd_eq_Inr split: if_splits json.splits)
    with assms(1) obtain off where "dt_zone due = fixed_zone off" unfolding iso_ok_def by blast
    moreover have "schedule_stored te (jb_schedule v)" using wf by (simp add: job_wf_def)
    ultimately show ?thesis using advance_due_later u v(1) s by fastforce
  next
    case (Some c)
    with slot chain_due_later v(1) show ?thesis by fastforce
  qed
qed

lemma get_job_set:
  "job_row_by_id d i = Inr row \<Longrightarrow> (\<And>r. jo_id (f r) = jo_id r) \<Longrightarrow>
   job_row_by_id (snd (set_job_row i f d)) i = Inr (f row)"
proof -
  assume row: "job_row_by_id d i = Inr row" and id: "\<And>r. jo_id (f r) = jo_id r"
  have "find (\<lambda>r. jo_id r = i) (map (\<lambda>r. if jo_id r = i then f r else r) rs) =
      map_option f (find (\<lambda>r. jo_id r = i) rs)" for rs
    by (induction rs) (simp_all add: id)
  then show ?thesis
    using row by (auto simp: job_row_by_id_def set_job_row_def update_def key_lookup_def split: option.splits)
qed

lemma set_job_row_run:
  "set_job_row i f d = (Inr (), d\<lparr>db_jobs := map (\<lambda>r. if jo_id r = i then f r else r) (db_jobs d)\<rparr>)"
  by (simp add: set_job_row_def update_def)

lemma keeps_jobs [keeps_intros]:
  "keeps (\<lambda>d. db_jobs d = js) (insert_run r)" "keeps (\<lambda>d. db_jobs d = js) (append_event i t e)"
  by (simp_all add: insert_run_def append_event_def keeps_def op_defs)

lemma keeps_jobs_start: "keeps (\<lambda>d. db_jobs d = js) (start_due_run te i v s now di)"
  "keeps (\<lambda>d. db_jobs d = js) (skip_busy te b v s)"
  unfolding start_due_run_def announce_run_def skip_busy_def by (intro keeps_intros)+

lemma schedule_due_job_run:
  "schedule_due_job te run_id job_id now di d =
     (case due_for_job te d job_id now of
        Inl e \<Rightarrow> (Inl e, d)
      | Inr (v, None) \<Rightarrow> (Inr None, d)
      | Inr (v, Some s) \<Rightarrow>
          (case vm_by_id d (jb_vm_id v) of Inl e \<Rightarrow> (Inl e, d) | Inr vm \<Rightarrow>
           (case job_replica_ids d job_id of Inl e \<Rightarrow> (Inl e, d) | Inr replicas \<Rightarrow>
             (case busy_run d (vr_id vm) of Some b \<Rightarrow> skip_busy te b v s
              | None \<Rightarrow> start_due_run te run_id v s now di)
             (snd (set_job_row job_id (consumed_row te v s replicas) d)))))"
  by (auto simp: schedule_due_job_def set_job_row_run op_defs split: sum.split prod.split option.split)

lemma due_for_job_earlier:
  assumes "due_for_job te d job_id now = Inr (v, None)" and "utc now' \<le> utc now"
  shows "due_for_job te d job_id now' = Inr (v, None)"
proof -
  from assms(1) have v: "get_job te d job_id = Inr v"
    by (auto simp: due_for_job_def bnd_eq_Inr split: option.splits if_splits)
  show ?thesis
  proof (cases "jb_next_run_at v")
    case (Some due)
    show ?thesis
    proof (cases "\<not> jb_enabled v \<or> utc now' < utc due")
      case False
      then have due: "jb_enabled v" "\<not> utc now < utc due" using assms(2) by simp_all
      with assms(1) v Some obtain chain where chain: "get_chain_schedule d job_id = Inr chain"
        and slot: "(case chain of None \<Rightarrow> policy_due (te_tzdb te) (jb_schedule v) due now
           | Some c \<Rightarrow> chain_due (te_tzdb te) c now) = Inr None"
        by (auto simp: due_for_job_def bnd_eq_Inr)
      from slot obtain c where c: "chain = Some c" "chain_due (te_tzdb te) c now = Inr None"
        by (cases chain) (auto simp: policy_due_def bnd_eq_Inr)
      from c(2) have "\<not> utc (cd_next_full_at c) \<le> utc now" "\<not> utc (cd_next_incremental_at c) \<le> utc now"
        by (auto simp: chain_due_def Let_def bnd_eq_Inr split: if_splits)
      with assms(2) have "chain_due (te_tzdb te) c now' = Inr None" by (simp add: chain_due_def)
      with v Some False chain c(1) show ?thesis by (simp add: due_for_job_def)
    qed (simp add: due_for_job_def v Some)
  qed (simp add: due_for_job_def v)
qed

lemma schedule_due_job_again:
  assumes "iso_ok te" and "schedule_due_job te run_id job_id now di d = (Inr r, d')"
    and "utc now' \<le> utc now"
  shows "schedule_due_job te run_id' job_id now' di' d' = (Inr None, d')"
proof -
  from assms(2) obtain v slot where due: "due_for_job te d job_id now = Inr (v, slot)"
    by (auto simp: schedule_due_job_run split: sum.splits)
  show ?thesis
  proof (cases slot)
    case None
    with assms(2) due have "d' = d" by (simp add: schedule_due_job_run)
    with due_for_job_earlier [OF due [unfolded None] assms(3)] show ?thesis by (simp add: schedule_due_job_run)
  next
    case (Some s)
    note later = due_for_job_later [OF assms(1) due [unfolded Some]]
    from later obtain row where row: "job_row_by_id d job_id = Inr row" "job_record te row = Inr v"
      by (auto simp: get_job_def bnd_eq_Inr)
    from assms(2) due Some obtain vm replicas where
      vm: "vm_by_id d (jb_vm_id v) = Inr vm" and replicas: "job_replica_ids d job_id = Inr replicas"
      by (auto simp: schedule_due_job_run split: sum.splits)
    define d1 where "d1 = snd (set_job_row job_id (consumed_row te v s replicas) d)"
    from assms(2) due Some vm replicas have
      step: "(case busy_run d (vr_id vm) of Some b \<Rightarrow> skip_busy te b v s
         | None \<Rightarrow> start_due_run te run_id v s now di) d1 = (Inr r, d')"
      by (simp add: schedule_due_job_run d1_def)
    have jobs: "db_jobs d' = db_jobs d1"
    proof (cases "busy_run d (vr_id vm)")
      case None
      with step have "start_due_run te run_id v s now di d1 = (Inr r, d')" by simp
      then show ?thesis by (rule keepsD [OF keeps_jobs_start(1) refl])
    next
      case (Some b)
      with step have "skip_busy te b v s d1 = (Inr r, d')" by simp
      then show ?thesis by (rule keepsD [OF keeps_jobs_start(2) refl])
    qed
    have "job_row_by_id d1 job_id = Inr (consumed_row te v s replicas row)"
      unfolding d1_def by (rule get_job_set [OF row(1)]) (simp add: consumed_row_def)
    then have row': "job_row_by_id d' job_id = Inr (consumed_row te v s replicas row)"
      by (simp add: job_row_by_id_def jobs)
    let ?v = "v\<lparr>jb_next_run_at := Some (du_next_run_at s)\<rparr>"
    have "job_wf te ?v" using job_record_wf(1) [OF row(2)] by (simp add: job_wf_def)
    from job_record_policy [OF assms(1) this] have
      "\<exists>w. job_record te (consumed_row te v s replicas row) = Inr w \<and>
         jb_next_run_at w = Some (reparsed (du_next_run_at s))"
      by (simp add: consumed_row_def)
    then obtain w where w: "get_job te d' job_id = Inr w" "jb_next_run_at w = Some (reparsed (du_next_run_at s))"
      using row' by (auto simp: get_job_def)
    from later assms(3) have "utc now' < utc (reparsed (du_next_run_at s))" by simp
    with w show ?thesis by (simp add: schedule_due_job_run due_for_job_def)
  qed
qed

text \<open>C20: a due slot is consumed once: after a successful \<open>schedule_due_job\<close> (a run created, a
  busy machine skipped, or nothing due), calling it again at the same or an earlier time
  returns \<open>None\<close> and changes nothing, whatever the daemon or the fresh identifier.\<close>

theorem due_slot_consumed_once:
  assumes "iso_ok te" and "schedule_due_job te run_id job_id now di d = (Inr r, d')"
    and "utc now' \<le> utc now"
  shows "schedule_due_job te run_id' job_id now' di' d' = (Inr None, d')"
  using assms by (rule schedule_due_job_again)

text \<open>which slot a chain schedule consumes: FULL exactly when its cursor is due, even if the
  incremental cursor is due as well; the run is scheduled for the cursor it consumes, and both
  cursors and the next run are then strictly after \<open>now\<close>.\<close>

theorem chain_due_full_first:
  assumes "chain_due tzdb c now = Inr (Some s)"
  shows "(du_kind s = Some ''FULL'' \<longleftrightarrow> utc (cd_next_full_at c) \<le> utc now) \<and>
    (du_kind s \<noteq> Some ''FULL'' \<longrightarrow> du_kind s = Some ''INCREMENTAL'' \<and> utc (cd_next_incremental_at c) \<le> utc now) \<and>
    du_scheduled_for s = (if du_kind s = Some ''FULL'' then cd_next_full_at c else cd_next_incremental_at c) \<and>
    (\<exists>c'. du_chain s = Some c' \<and> du_next_run_at s = earlier_cursor c' \<and>
       utc now < utc (cd_next_full_at c') \<and> utc now < utc (cd_next_incremental_at c'))"
proof -
  from chain_due_later [OF assms] obtain c' where c': "du_chain s = Some c'"
    "utc now < utc (cd_next_full_at c')" "utc now < utc (cd_next_incremental_at c')" by blast
  from assms show ?thesis by (cases rule: chain_due_cases) (use c' in simp_all)
qed

section \<open>One active run per machine\<close>

definition one_active :: "db \<Rightarrow> bool" where
  "one_active d \<longleftrightarrow> distinct (map jo_id (db_jobs d)) \<and>
     (\<forall>r \<in> set (db_runs d). rr_job_id r \<in> set (map jo_id (db_jobs d))) \<and>
     (\<forall>vm. length (active_runs d vm) \<le> 1)"

text \<open>Changes to the jobs that leave identifiers and machines alone.\<close>

definition job_pairs :: "db \<Rightarrow> (string \<times> string) list" where
  "job_pairs d = map (\<lambda>j. (jo_id j, jo_vm_id j)) (db_jobs d)"

lemma run_of_vm_pairs: "run_of_vm d vm r \<longleftrightarrow> (rr_job_id r, vm) \<in> set (job_pairs d)"
  unfolding run_of_vm_def list_ex_iff job_pairs_def by force

lemma active_runs_same:
  "db_runs d' = db_runs d \<Longrightarrow> job_pairs d' = job_pairs d \<Longrightarrow> active_runs d' vm = active_runs d vm"
  by (simp add: active_runs_def run_of_vm_pairs)

lemma one_active_same:
  assumes "one_active d" and "db_runs d' = db_runs d" and "job_pairs d' = job_pairs d"
  shows "one_active d'"
proof -
  have "map jo_id (db_jobs d') = map jo_id (db_jobs d)"
    using arg_cong [OF assms(3), of "map fst"] by (simp add: job_pairs_def comp_def)
  with assms active_runs_same [OF assms(2,3)] show ?thesis unfolding one_active_def by simp
qed

lemma job_pairs_set_job_row:
  assumes "\<And>r. jo_id (f r) = jo_id r" and "\<And>r. jo_vm_id (f r) = jo_vm_id r"
  shows "job_pairs (snd (set_job_row i f d)) = job_pairs d"
  by (simp add: job_pairs_def set_job_row_run assms)

lemma job_row_in: "job_row_by_id d i = Inr row \<Longrightarrow> row \<in> set (db_jobs d) \<and> jo_id row = i"
  by (auto simp: job_row_by_id_def key_lookup_def find_Some_iff split: option.splits)

lemma run_of_vm_unique:
  assumes "one_active d" and "job_row_by_id d (rr_job_id r) = Inr row" and "run_of_vm d vm r"
  shows "vm = jo_vm_id row"
proof -
  from assms(2) have row: "row \<in> set (db_jobs d)" "jo_id row = rr_job_id r"
    by (blast dest: job_row_in)+
  from assms(3) obtain j where j: "j \<in> set (db_jobs d)" "jo_id j = rr_job_id r" "jo_vm_id j = vm"
    unfolding run_of_vm_def list_ex_iff by blast
  have "inj_on jo_id (set (db_jobs d))" using assms(1) unfolding one_active_def distinct_map by blast
  then have "j = row" by (rule inj_onD) (use row j in simp_all)
  with j(3) show ?thesis by simp
qed

lemma one_active_new_run:
  assumes "one_active d" and "db_runs d' = db_runs d @ [r]" and "db_jobs d' = db_jobs d"
    and "job_row_by_id d (rr_job_id r) = Inr row" and "active_runs d (jo_vm_id row) = []"
  shows "one_active d'"
proof -
  have same: "run_of_vm d' = run_of_vm d" by (simp add: run_of_vm_def assms(3) fun_eq_iff)
  have "length (active_runs d' vm) \<le> 1" for vm
  proof (cases "run_of_vm d vm r")
    case True
    from run_of_vm_unique [OF assms(1,4) this] assms(5) have "active_runs d vm = []" by simp
    then show ?thesis by (simp add: active_runs_def same assms(2))
  next
    case False
    then have "active_runs d' vm = active_runs d vm" by (simp add: active_runs_def same assms(2))
    with assms(1) show ?thesis by (simp add: one_active_def)
  qed
  moreover have "rr_job_id r \<in> set (map jo_id (db_jobs d))"
    using job_row_in [OF assms(4)] by (metis image_eqI list.set_map)
  ultimately show ?thesis using assms(1) unfolding one_active_def assms(2,3) by auto
qed

lemma set_job_row_one_active:
  assumes "\<And>r. jo_id (f r) = jo_id r" and "\<And>r. jo_vm_id (f r) = jo_vm_id r" and "one_active d"
  shows "one_active (snd (set_job_row i f d))"
  by (rule one_active_same [OF assms(3) _ job_pairs_set_job_row [OF assms(1,2)]])
    (simp add: set_job_row_run)

lemma keeps_runs_event [keeps_intros]:
  "keeps one_active (append_event i t e)"
  unfolding append_event_def by (rule keeps_update) (erule one_active_same; simp add: job_pairs_def)

lemma busy_run_None: "busy_run d vm = None \<longleftrightarrow> active_runs d vm = []"
proof -
  have "sort_key rr_created_at (active_runs d vm) = [] \<longleftrightarrow> active_runs d vm = []"
    by (metis length_0_conv length_sort)
  then show ?thesis by (auto simp: busy_run_def split: list.split)
qed

lemma insert_run_one_active:
  assumes "one_active d" and "job_row_by_id d (rr_job_id r) = Inr row" and "active_runs d (jo_vm_id row) = []"
  shows "one_active (snd (insert_run r d))"
proof (cases "rr_id r \<in> set (map rr_id (db_runs d))")
  case False
  have "one_active (d\<lparr>db_runs := db_runs d @ [r]\<rparr>)"
    by (rule one_active_new_run [OF assms(1) _ _ assms(2,3)]) simp_all
  with False show ?thesis by (simp add: insert_run_def op_run)
qed (simp add: insert_run_def op_run assms(1))

lemma start_due_run_one_active:
  assumes "one_active d" and "job_row_by_id d (jb_id v) = Inr row" and "active_runs d (jo_vm_id row) = []"
  shows "one_active (snd (start_due_run te run_id v s now di d))"
proof -
  let ?r = "\<lparr>rr_id = run_id, rr_job_id = jb_id v, rr_storage_id = jb_storage_id v,
       rr_state = ''SCHEDULED'', rr_context = due_context te s di,
       rr_created_at = te_iso te now, rr_updated_at = te_iso te now\<rparr>"
  obtain r d1 where ins: "insert_run ?r d = (r, d1)" by fastforce
  have one: "one_active d1" using insert_run_one_active [of d ?r row] assms ins by simp
  have "keeps one_active (announce_run te run_id s)"
    unfolding announce_run_def by (intro keeps_intros)
  with one have "one_active (snd (announce_run te run_id s d1))" unfolding keeps_def by blast
  with one ins show ?thesis by (cases r) (simp_all add: start_due_run_def andthen_def)
qed

lemma schedule_due_job_one_active:
  assumes "one_active d"
  shows "one_active (snd (schedule_due_job te run_id job_id now di d))"
proof (cases "due_for_job te d job_id now")
  case (Inr w)
  obtain v slot where w: "w = (v, slot)" by (cases w)
  show ?thesis
  proof (cases slot)
    case (Some s)
    from Inr w have "get_job te d job_id = Inr v"
      by (auto simp: due_for_job_def bnd_eq_Inr split: option.splits if_splits)
    then obtain row where row: "job_row_by_id d job_id = Inr row" "job_record te row = Inr v"
      by (auto simp: get_job_def bnd_eq_Inr)
    note v = job_record_wf(2,3) [OF row(2)] and in_d = job_row_in [OF row(1)]
    show ?thesis
    proof (cases "vm_by_id d (jb_vm_id v)"; cases "job_replica_ids d job_id")
      fix vm replicas assume vm: "vm_by_id d (jb_vm_id v) = Inr vm" and rep: "job_replica_ids d job_id = Inr replicas"
      let ?d = "snd (set_job_row job_id (consumed_row te v s replicas) d)"
      have one: "one_active ?d"
        by (rule set_job_row_one_active [OF _ _ assms]) (simp_all add: consumed_row_def)
      from vm have "vr_id vm = jb_vm_id v"
        by (auto simp: vm_by_id_def key_lookup_def find_Some_iff split: option.splits)
      then have vmid: "vr_id vm = jo_vm_id row" using v(2) by simp
      have after: "job_row_by_id ?d (jb_id v) = Inr (consumed_row te v s replicas row)"
        using get_job_set [OF row(1), of "consumed_row te v s replicas"] v(1) in_d by (simp add: consumed_row_def)
      show ?thesis
      proof (cases "busy_run d (vr_id vm)")
        case None
        have "active_runs ?d (vr_id vm) = active_runs d (vr_id vm)"
          by (rule active_runs_same [OF _ job_pairs_set_job_row])
            (simp_all add: set_job_row_run consumed_row_def)
        then have "active_runs ?d (jo_vm_id (consumed_row te v s replicas row)) = []"
          using None vmid by (simp add: busy_run_None consumed_row_def)
        from start_due_run_one_active [OF one after this] show ?thesis
          by (simp add: schedule_due_job_run Inr w Some vm rep None)
      next
        case (Some b)
        have "keeps one_active (skip_busy te b v s)" unfolding skip_busy_def by (intro keeps_intros)
        with one Some \<open>slot = Some s\<close> show ?thesis
          by (simp add: schedule_due_job_run Inr w vm rep keeps_def)
      qed
    qed (use assms Some in \<open>simp_all add: schedule_due_job_run Inr w\<close>)
  qed (simp add: schedule_due_job_run Inr w assms)
qed (simp add: schedule_due_job_run assms)

lemma tick_one_active: "keeps one_active (tick te fresh node now di)"
proof -
  have one: "keeps one_active (schedule_due_job te i j now di)" for i j
    by (simp add: keeps_def schedule_due_job_one_active)
  have "keeps one_active (tick_jobs te fresh now di vs created)" for vs created
    by (induction vs arbitrary: created) (simp_all, (intro keeps_intros one | assumption)+)
  then show ?thesis unfolding tick_def by (intro keeps_intros)
qed

lemma create_run_one_active:
  assumes "one_active d" and "job_row_by_id d job_id = Inr row" and "active_runs d (jo_vm_id row) = []"
  shows "one_active (snd (create_run te run_id job_id sid tm c d))"
  using insert_run_one_active [OF assms(1) _ assms(3)] assms(2) by (simp add: create_run_def Let_def)

lemma create_manual_run_one_active:
  assumes "one_active d"
  shows "one_active (snd (create_manual_run te run_id job_id node tm requested d))"
proof (cases "get_job te d job_id")
  case (Inr v)
  then obtain row where row: "job_row_by_id d job_id = Inr row" "job_record te row = Inr v"
    by (auto simp: get_job_def bnd_eq_Inr)
  note v = job_record_wf(2,3) [OF row(2)] and in_d = job_row_in [OF row(1)]
  show ?thesis
  proof (cases "vm_by_id d (jb_vm_id v)")
    case vm: (Inr vm)
    then have vmid: "vr_id vm = jo_vm_id row"
      using v(2) by (auto simp: vm_by_id_def key_lookup_def find_Some_iff split: option.splits)
    have "busy_run d (vr_id vm) = None \<Longrightarrow> one_active (snd (create_run te run_id (jb_id v) sid tm c d))" for sid c
      using create_run_one_active [OF assms row(1)] v(1) in_d vmid by (simp add: busy_run_None)
    then show ?thesis
      using assms by (cases "get_storage_destination d node (jb_storage_id v)")
        (simp_all add: create_manual_run_def op_run Inr vm Let_def)
  qed (simp add: create_manual_run_def op_run Inr assms)
qed (simp add: create_manual_run_def op_run assms)

lemma add_job_one_active:
  assumes "one_active d"
  shows "one_active (snd (add_job te v replicas d))"
proof (cases "jb_id v \<in> set (map jo_id (db_jobs d))")
  case False
  let ?d = "\<lambda>ids. d\<lparr>db_jobs := db_jobs d @ [job_row_of te v ids None]\<rparr>"
  have "run_of_vm (?d ids) vm r = run_of_vm d vm r" if "r \<in> set (db_runs d)" for vm r ids
  proof -
    have "rr_job_id r \<in> set (map jo_id (db_jobs d))" using assms that unfolding one_active_def by blast
    with False have "rr_job_id r \<noteq> jb_id v" by metis
    then show ?thesis by (simp add: run_of_vm_def job_row_of_def)
  qed
  then have "active_runs (?d ids) vm = active_runs d vm" for vm ids
    by (simp add: active_runs_def cong: filter_cong)
  with assms False have "one_active (?d ids)" for ids
    unfolding one_active_def by (auto simp: job_row_of_def)
  then show ?thesis
    using assms by (simp add: add_job_def op_run andthen_def lift_def split: sum.split)
qed (simp add: add_job_def op_run andthen_def lift_def raise_def assms split: sum.split)

lemma update_job_run:
  "update_job te job_id node tm kw d =
     (case changed_job te d job_id node tm kw of
        Inl e \<Rightarrow> (Inl e, d)
      | Inr (u, replicas) \<Rightarrow>
          (Inr u, snd (set_job_row (jb_id u) (\<lambda>row. row\<lparr>jo_name := jb_name u,
             jo_storage_id := jb_storage_id u, jo_enabled := jb_enabled u,
             jo_policy := job_policy te u replicas\<rparr>) d)))"
  by (simp add: update_job_def op_defs set_job_row_run split: sum.split prod.split)

lemma update_job_one_active: "one_active d \<Longrightarrow> one_active (snd (update_job te job_id node tm kw d))"
  by (simp add: update_job_run set_job_row_one_active split: sum.split prod.split)

lemma configure_one_active: "keeps one_active (configure_chain_schedule te job_id tm en tz wd ft ts)"
proof -
  have "keeps one_active (set_job_row job_id (\<lambda>r. r\<lparr>jo_chain := c, jo_policy := p\<rparr>))" for c p
    unfolding keeps_def by (simp add: set_job_row_one_active)
  then show ?thesis unfolding configure_chain_schedule_def case_prod_unfold by (intro keeps_intros)
qed

text \<open>C21: a machine never gets a second active run: adding and changing jobs, configuring their
  chain schedule, scheduling a due job, a whole scheduler tick and starting a manual run all
  preserve that each machine has at most one run outside SUCCESS and FAILED, also when the call
  raises.\<close>

theorem one_active_run_per_machine:
  "one_active d \<Longrightarrow>
     one_active (snd (add_job te v replicas d)) \<and>
     one_active (snd (update_job te job_id node now kw d)) \<and>
     one_active (snd (configure_chain_schedule te job_id now enabled tz wd ft inc_times d)) \<and>
     one_active (snd (schedule_due_job te run_id job_id now di d)) \<and>
     one_active (snd (tick te fresh opt_node now di d)) \<and>
     one_active (snd (create_manual_run te run_id job_id node now requested d))"
  by (simp add: add_job_one_active update_job_one_active configure_one_active [unfolded keeps_def]
      schedule_due_job_one_active tick_one_active [unfolded keeps_def] create_manual_run_one_active)

section \<open>Stored jobs\<close>

lemma changed_job_wf:
  assumes "changed_job te d job_id node tm kw = Inr (u, replicas)"
  shows "job_wf te u" and "\<exists>row. job_row_by_id d job_id = Inr row \<and> jb_id u = jo_id row \<and>
    jb_vm_id u = jo_vm_id row \<and> jb_created_at u = jo_created_at row" and "distinct replicas"
proof -
  from assms obtain current ids s n r x where
    current: "get_job te d job_id = Inr current" and
    s: "changed_schedule te (jb_schedule current) kw = Inr s" and
    n: "make_backup_policy (given (jc_max_incrementals kw) (jb_max_incrementals current)) = Inr n" and
    r: "changed_retention (jb_retention current) kw = Inr r" and
    rep: "validate_replicas d node (jb_storage_id u) ids = Inr replicas" and
    u: "u = current\<lparr>jb_name := given (jc_name kw) (jb_name current), jb_storage_id := jb_storage_id u,
      jb_enabled := given (jc_enabled kw) (jb_enabled current), jb_max_incrementals := n,
      jb_retention := r, jb_schedule := s, jb_next_run_at := x\<rparr>"
    unfolding changed_job_def bnd_eq_Inr by (auto split: if_splits simp: bnd_eq_Inr)
  have "0 \<le> n" using n by (auto simp: make_backup_policy_def split: if_splits)
  moreover have "schedule_stored te s" using s unfolding changed_schedule_def schedule_stored_def Let_def by blast
  moreover have "retention_policy_wf r" using r unfolding changed_retention_def by (rule make_retention_policy_wf)
  ultimately show "job_wf te u" by (subst u) (simp add: job_wf_def)
  from current obtain row where "job_row_by_id d job_id = Inr row" "job_record te row = Inr current"
    by (auto simp: get_job_def bnd_eq_Inr)
  then show "\<exists>row. job_row_by_id d job_id = Inr row \<and> jb_id u = jo_id row \<and>
    jb_vm_id u = jo_vm_id row \<and> jb_created_at u = jo_created_at row"
    using job_record_wf(2,3,7) by (subst u, subst u, subst u) simp
  show "distinct replicas" using rep by (auto simp: validate_replicas_def bnd_eq_Inr split: if_splits)
qed

lemma update_job_read_back:
  assumes "iso_ok te" and "update_job te job_id node tm kw d = (Inr u, d')"
  shows "get_job te d' job_id = Inr (u\<lparr>jb_next_run_at := map_option reparsed (jb_next_run_at u)\<rparr>)"
proof -
  from assms(2) obtain replicas where c: "changed_job te d job_id node tm kw = Inr (u, replicas)"
    by (auto simp: update_job_run split: sum.splits)
  let ?f = "\<lambda>row. row\<lparr>jo_name := jb_name u, jo_storage_id := jb_storage_id u, jo_enabled := jb_enabled u,
     jo_policy := job_policy te u replicas\<rparr>"
  from changed_job_wf(2) [OF c] obtain row where row: "job_row_by_id d job_id = Inr row"
    "jb_id u = jo_id row" "jb_vm_id u = jo_vm_id row" "jb_created_at u = jo_created_at row" by blast
  from assms(2) c have "d' = snd (set_job_row (jb_id u) ?f d)" by (simp add: update_job_run)
  then have "d' = snd (set_job_row job_id ?f d)" using row(2) job_row_in [OF row(1)] by simp
  with get_job_set [OF row(1), of ?f] have "job_row_by_id d' job_id = Inr (?f row)" by simp
  then show ?thesis
    using job_record_policy [OF assms(1) changed_job_wf(1) [OF c], of "?f row" replicas] row
    by (simp add: get_job_def)
qed

lemma add_job_read_back:
  assumes "iso_ok te" and "job_wf te v" and "add_job te v replicas d = (Inr u, d')"
  shows "get_job te d' (jb_id v) = Inr (v\<lparr>jb_next_run_at := map_option reparsed (jb_next_run_at v)\<rparr>)"
proof -
  from assms(3) obtain ids where new: "jb_id v \<notin> set (map jo_id (db_jobs d))"
    and d': "d' = d\<lparr>db_jobs := db_jobs d @ [job_row_of te v ids None]\<rparr>"
    by (auto simp: add_job_def op_run andthen_Inr op_Inr split: if_splits)
  have "find (\<lambda>r. jo_id r = jb_id v) (xs @ [job_row_of te v ids None]) = Some (job_row_of te v ids None)"
    if "jb_id v \<notin> set (map jo_id xs)" for xs
    using that by (induction xs) (auto simp: job_row_of_def)
  with new have "job_row_by_id d' (jb_id v) = Inr (job_row_of te v ids None)"
    by (simp add: d' job_row_by_id_def key_lookup_def)
  then show ?thesis
    using job_record_policy [OF assms(1,2), of "job_row_of te v ids None" ids]
    by (simp add: get_job_def job_row_of_def)
qed

text \<open>C22: what is stored is read back: a job that \<open>add_job\<close> stored and a job that \<open>update_job\<close>
  returned are what \<open>get_job\<close> then reads, up to the zone of the next run, which is read as a
  constant offset with the same instant.\<close>

theorem stored_job_read_back:
  assumes "iso_ok te"
  shows "(job_wf te v \<and> add_job te v replicas d = (Inr u, d1) \<longrightarrow>
      get_job te d1 (jb_id v) = Inr (v\<lparr>jb_next_run_at := map_option reparsed (jb_next_run_at v)\<rparr>)) \<and>
    (update_job te job_id node now kw d = (Inr w, d2) \<longrightarrow>
      get_job te d2 job_id = Inr (w\<lparr>jb_next_run_at := map_option reparsed (jb_next_run_at w)\<rparr>))"
  using add_job_read_back [OF assms] update_job_read_back [OF assms] by blast

section \<open>A concrete environment\<close>

text \<open>Times written in unary, with the pair of wall clock and offset encoded as a number.\<close>

definition unary_env :: text_env where
  "unary_env = \<lparr>te_tzdb = example_tzdb,
     te_iso = (\<lambda>d. replicate (Suc (to_nat (dt_naive d, dt_naive d - utc d))) CHR ''t''),
     te_from_iso = (\<lambda>s. case s of [] \<Rightarrow> Inl (ValueError ''Invalid isoformat string'')
       | _ # t \<Rightarrow> (case from_nat (length t) of (n, off) \<Rightarrow> Inr (in_zone (fixed_zone off) n False))),
     te_float = (\<lambda>_. None)\<rparr>"

lemma iso_ok_unary: "iso_ok unary_env"
  unfolding iso_ok_def unary_env_def
  by (auto simp: reparsed_def split: list.splits prod.splits)

definition sample_job :: "aware option \<Rightarrow> job" where
  "sample_job n = \<lparr>jb_id = ''j'', jb_vm_id = ''v'', jb_name = ''nightly'', jb_storage_id = ''a'',
     jb_enabled = True, jb_max_incrementals = 6,
     jb_retention = \<lparr>restore_points_to_retain = 7, minimum_full_chains = 1, full_chains_to_retain = 2,
       reclaim_mode = SAFE, backup_size_margin_percent = 20\<rparr>,
     jb_schedule = hourly, jb_next_run_at = n, jb_created_at = ''2024-01-01''\<rparr>"

definition job_store :: db where
  "job_store = two_storages\<lparr>db_vms := [\<lparr>vr_id = ''v'', vr_node_id = ''n'', vr_name = ''vm'', vr_external_id = None, vr_domain_uuid = None\<rparr>],
     db_jobs := [job_row_of unary_env (sample_job (Some (example_time 5))) [] None]\<rparr>"

lemma sample_job_simps:
  "jb_id (sample_job n) = ''j''" "jb_vm_id (sample_job n) = ''v''" "jb_storage_id (sample_job n) = ''a''"
  "jb_enabled (sample_job n)" "jb_next_run_at (sample_job n) = n" "jb_schedule (sample_job n) = hourly"
  by (simp_all add: sample_job_def)

lemma hourly_stored: "schedule_stored unary_env hourly"
  unfolding schedule_stored_def
  by (rule exI [of _ 3600], rule exI [of _ 0], rule exI [of _ "''RUN_ONCE''"],
      rule exI [of _ "''SKIP_IF_BUSY''"], rule exI [of _ "''INTERVAL''"], rule exI [of _ JNull], rule exI [of _ JNull])
    (simp add: make_schedule_policy_def schedule_type_of_def hourly_def)

lemma sample_job_wf: "job_wf unary_env (sample_job n)"
  by (simp add: job_wf_def sample_job_def hourly_stored retention_policy_wf_def)

lemma example_time_simps [simp]:
  "utc (example_time n) = n * 60 * minute_us" "dt_zone (example_time n) = fixed_zone 0"
  "reparsed (example_time n) = example_time n"
  by (simp_all add: example_time_def reparsed_def fixed_zone_def)

lemma job_store_job: "get_job unary_env job_store ''j'' = Inr (sample_job (Some (example_time 5)))"
proof -
  have "job_row_by_id job_store ''j'' = Inr (job_row_of unary_env (sample_job (Some (example_time 5))) [] None)"
    by (simp add: job_row_by_id_def job_store_def job_row_of_def sample_job_def key_lookup_def)
  with job_record_policy [OF iso_ok_unary sample_job_wf,
      of "job_row_of unary_env (sample_job (Some (example_time 5))) [] None" "Some (example_time 5)" "[]"]
  show ?thesis by (simp add: get_job_def job_row_of_def) (simp add: sample_job_def)
qed

definition due_hourly :: due_slot where
  "due_hourly = \<lparr>du_kind = None, du_scheduled_for = example_time 5, du_represented = 5,
     du_next_run_at = example_time 10, du_chain = None\<rparr>"

lemma job_store_due:
  "due_for_job unary_env job_store ''j'' (example_time 9) =
     Inr (sample_job (Some (example_time 5)), Some due_hourly)"
proof -
  have "advance_due t hourly (example_time 5) (example_time 9) = Inr (5, example_time 10)" for t
    by (simp add: advance_due_def hourly_def us_defs plus_wall_def example_time_def fixed_zone_def)
  moreover have "get_chain_schedule job_store ''j'' = Inr None"
    by (simp add: get_chain_schedule_def job_row_by_id_def job_store_def job_row_of_def sample_job_def key_lookup_def)
  moreover from calculation(1) have
    "policy_due t hourly (example_time 5) (example_time 9) = Inr (Some due_hourly)" for t
    by (simp add: policy_due_def due_hourly_def)
  ultimately show ?thesis
    by (simp add: due_for_job_def job_store_job sample_job_simps us_defs)
qed

lemma unary_iso: "te_iso unary_env t \<noteq> []" "te_from_iso unary_env (te_iso unary_env t) = Inr (reparsed t)"
  using iso_ok_unary unfolding iso_ok_def by blast+

lemma job_store_scheduled:
  "\<exists>r d'. schedule_due_job unary_env ''r'' ''j'' (example_time 9) None job_store = (Inr (Some r), d') \<and>
     ru_missed_schedule_slots r = 5 \<and> ru_scheduled_for r = Some (example_time 5)"
proof -
  have "vm_by_id job_store ''v'' = Inr \<lparr>vr_id = ''v'', vr_node_id = ''n'', vr_name = ''vm'', vr_external_id = None, vr_domain_uuid = None\<rparr>"
    by (simp add: vm_by_id_def job_store_def key_lookup_def)
  moreover have "job_replica_ids job_store ''j'' = Inr []"
    by (simp add: job_replica_ids_def job_row_by_id_def job_store_def job_row_of_def sample_job_simps
        key_lookup_def replica_ids_policy)
  moreover have none: "db_runs job_store = []" by code_simp
  then have "busy_run job_store ''v'' = None" by (simp add: busy_run_None active_runs_def)
  ultimately show ?thesis
    using none
    by (simp add: schedule_due_job_run job_store_due sample_job_simps start_due_run_def announce_run_def
        op_run insert_run_def append_event_def set_job_row_run due_hourly_def get_run_def run_by_id_def
        key_lookup_def run_record_def due_context_def Let_def dget_or_def run_state_of_def
        all_run_states_def read_time_def unary_iso policy_guard_def)
qed

theorem due_slot_consumed_once_witness:
  "\<exists>r d'. schedule_due_job unary_env ''r'' ''j'' (example_time 9) None job_store = (Inr (Some r), d') \<and>
     schedule_due_job unary_env ''q'' ''j'' (example_time 9) None d' = (Inr None, d')"
  using job_store_scheduled due_slot_consumed_once [OF iso_ok_unary _ order_refl] by blast

lemma job_store_one_active: "one_active job_store"
proof -
  have "db_runs job_store = []" by code_simp
  moreover have "map jo_id (db_jobs job_store) = [''j'']" by (simp add: job_store_def job_row_of_def sample_job_simps)
  ultimately show ?thesis by (simp add: one_active_def active_runs_def)
qed

theorem one_active_run_per_machine_witness:
  "one_active (snd (schedule_due_job unary_env ''r'' ''j'' (example_time 9) None job_store))"
  using one_active_run_per_machine [OF job_store_one_active] by blast

theorem stored_job_read_back_witness:
  "add_job unary_env (sample_job None\<lparr>jb_id := ''k''\<rparr>) [] job_store =
     (Inr (sample_job None\<lparr>jb_id := ''k''\<rparr>), snd (add_job unary_env (sample_job None\<lparr>jb_id := ''k''\<rparr>) [] job_store)) \<and>
   get_job unary_env (snd (add_job unary_env (sample_job None\<lparr>jb_id := ''k''\<rparr>) [] job_store)) ''k'' =
     Inr (sample_job None\<lparr>jb_id := ''k''\<rparr>)"
proof -
  let ?v = "sample_job None\<lparr>jb_id := ''k''\<rparr>"
  have "vm_by_id job_store ''v'' = Inr \<lparr>vr_id = ''v'', vr_node_id = ''n'', vr_name = ''vm'', vr_external_id = None, vr_domain_uuid = None\<rparr>"
    by (simp add: vm_by_id_def job_store_def key_lookup_def)
  moreover have "\<not> isl (get_storage_destination job_store ''n'' ''a'')" by code_simp
  then obtain st where "get_storage_destination job_store ''n'' ''a'' = Inr st" by (metis Inr_projr)
  ultimately have run: "add_job unary_env ?v [] job_store = (Inr ?v, snd (add_job unary_env ?v [] job_store))"
    by (simp add: add_job_def op_run validate_replicas_def sample_job_simps job_store_def job_row_of_def)
  moreover have "job_wf unary_env ?v" using sample_job_wf by (simp add: job_wf_def)
  ultimately show ?thesis
    using stored_job_read_back [OF iso_ok_unary, of ?v "[]" job_store ?v] by (simp add: sample_job_simps)
qed

definition weekly_cadence :: cadence where
  "weekly_cadence = chain_schedule.extend example_schedule
     (cadence.fields True (example_time 98) (example_time 102))"

lemma advance_cursor_one:
  "cursor_step tzdb kind s cur = Inr c \<Longrightarrow> utc cur \<le> utc now \<Longrightarrow> utc now < utc c \<Longrightarrow>
     advance_cursor tzdb cur now kind s = Inr (1, c)"
  by (simp add: advance_cursor_def coalesce_loop.simps split: if_splits)

lemma weekly_cadence_due: "\<exists>s. chain_due example_tzdb weekly_cadence (example_time 100) = Inr (Some s)"
proof -
  let ?f = "next_full_after example_tzdb (example_time 98) example_schedule"
  have "\<not> isl ?f" "utc (projr ?f) = 11 * day_us + 2 * 60 * minute_us" by code_simp+
  then obtain f where f: "?f = Inr f" "utc f = 11 * day_us + 2 * 60 * minute_us" using Inr_projr by metis
  have "advance_cursor example_tzdb (example_time 98) (example_time 100) ''FULL'' example_schedule = Inr (1, f)"
    by (rule advance_cursor_one) (simp_all add: f us_defs)
  moreover have "chain_schedule.truncate weekly_cadence = example_schedule"
    by (simp add: weekly_cadence_def chain_schedule.defs cadence.defs)
  ultimately show ?thesis
    by (simp add: chain_due_def Let_def us_defs) (simp add: weekly_cadence_def chain_schedule.defs cadence.defs us_defs)
qed

theorem chain_due_full_first_witness:
  "\<exists>s. chain_due example_tzdb weekly_cadence (example_time 100) = Inr (Some s) \<and> du_kind s = Some ''FULL''"
proof -
  obtain s where s: "chain_due example_tzdb weekly_cadence (example_time 100) = Inr (Some s)"
    using weekly_cadence_due by blast
  have "utc (cd_next_full_at weekly_cadence) \<le> utc (example_time 100)"
    by (simp add: weekly_cadence_def chain_schedule.defs cadence.defs us_defs)
  with chain_due_full_first [OF s] s show ?thesis by blast
qed

text \<open>
  \<open>resume_run_after_recovery\<close> is not among them: it can revive a finished run while the machine
  has another active run.
\<close>

definition finished_and_active :: db where
  "finished_and_active = job_store\<lparr>db_runs :=
     [\<lparr>rr_id = ''r1'', rr_job_id = ''j'', rr_storage_id = ''a'', rr_state = ''FAILED'', rr_context = [],
       rr_created_at = ''1'', rr_updated_at = ''1''\<rparr>,
      \<lparr>rr_id = ''r2'', rr_job_id = ''j'', rr_storage_id = ''a'', rr_state = ''TRANSFERRING'', rr_context = [],
       rr_created_at = ''2'', rr_updated_at = ''2''\<rparr>]\<rparr>"

lemma resume_breaks_one_active:
  "length (active_runs finished_and_active ''v'') = 1 \<and>
   length (active_runs (snd (resume_run_after_recovery ''3'' ''r1'' finished_and_active)) ''v'') = 2"
proof -
  have "db_jobs finished_and_active = [job_row_of unary_env (sample_job (Some (example_time 5))) [] None]"
    by (simp add: finished_and_active_def job_store_def)
  then show ?thesis
    by (simp add: active_runs_def run_of_vm_def terminal_states_def resume_run_after_recovery_def
        append_event_def op_run finished_and_active_def job_row_of_def sample_job_simps job_store_def)
qed

end
