(* ===== verification/Replicas.thy ===== *)
theory Replicas
  imports JobScheduling
begin

text \<open>
  Replicas of restore points (\<open>repository_v2.py\<close>, \<open>replica_v2.py\<close>). The state of a replica is an
  entry of the object \<open>replicas\<close> in the metadata of its restore point, keyed by the
  destination. The calls between \<open>BEGIN IMMEDIATE\<close> and the commit see and change the same
  connection, and an exception rolls them back (\<open>atomically\<close>).

  The sender (the SSH client) is a parameter: what it calls back while it transfers, and the
  receipts it returns.
\<close>

section \<open>Entries\<close>

definition atomically :: "('s, 'a) op \<Rightarrow> ('s, 'a) op" where
  "atomically m = (\<lambda>s. case m s of (Inl e, _) \<Rightarrow> (Inl e, s) | (Inr x, s') \<Rightarrow> (Inr x, s'))"

definition point_by_id :: "db \<Rightarrow> string \<Rightarrow> point_row option" where
  "point_by_id d i = find (\<lambda>p. pr_id p = i) (db_points d)"

definition set_metadata :: "string \<Rightarrow> dict \<Rightarrow> unit dbop" where
  "set_metadata i m = update (\<lambda>d. d\<lparr>db_points :=
     map (\<lambda>p. if pr_id p = i then p\<lparr>pr_metadata := m\<rparr> else p) (db_points d)\<rparr>)"

definition replicas_of :: "dict \<Rightarrow> dict option" where
  "replicas_of m = (case dget_or m ''replicas'' (JObj []) of JObj r \<Rightarrow> Some r | _ \<Rightarrow> None)"

definition entry_of :: "dict \<Rightarrow> string \<Rightarrow> dict option" where
  "entry_of m dest =
     (case replicas_of m of
        None \<Rightarrow> None
      | Some r \<Rightarrow> (case dget r dest of Some (JObj v) \<Rightarrow> Some v | _ \<Rightarrow> None))"

definition put_entry :: "dict \<Rightarrow> string \<Rightarrow> dict \<Rightarrow> dict" where
  "put_entry m dest v =
     dset m ''replicas'' (JObj (dset (case replicas_of m of None \<Rightarrow> [] | Some r \<Rightarrow> r) dest (JObj v)))"

text \<open>\<open>str(value.get("state") or default).upper()\<close>; a state is a text.\<close>

definition state_or :: "string \<Rightarrow> dict \<Rightarrow> string" where
  "state_or default_state v =
     (let s = dget_or v ''state'' JNull
      in map upper_char (if truthy s then enum_text s else default_state))"

abbreviation entry_state :: "dict \<Rightarrow> string" where "entry_state \<equiv> state_or ''PENDING''"

definition is_incremental :: "point_row \<Rightarrow> bool" where
  "is_incremental p = (map upper_char (pr_kind p) = ''INCREMENTAL'')"

definition parent_id :: "dict \<Rightarrow> string option" where
  "parent_id m =
     (let v = dget_or m ''parent_restore_point_id'' JNull in if truthy v then Some (enum_text v) else None)"

definition replica_parent_state :: "db \<Rightarrow> dict \<Rightarrow> string \<Rightarrow> string option" where
  "replica_parent_state d m dest =
     (case parent_id m of
        None \<Rightarrow> None
      | Some i \<Rightarrow>
          Some (case point_by_id d i of
             None \<Rightarrow> ''MISSING''
           | Some p \<Rightarrow>
               if pr_status p \<noteq> ''AVAILABLE'' then ''MISSING''
               else (case entry_of (pr_metadata p) dest of
                       None \<Rightarrow> ''NOT_CONFIGURED'' | Some v \<Rightarrow> entry_state v)))"

text \<open>
  \<open>_compact_restore_point\<close>: \<open>RestorePointStatus\<close> has the single member \<open>AVAILABLE\<close>, so any
  other status raises.
\<close>

record rpoint =
  po_id :: string
  po_run_id :: string
  po_chain_id :: json
  po_kind :: backup_kind
  po_sequence :: int
  po_bundle_object_id :: json
  po_parent :: json
  po_checkpoint :: json
  po_created_at :: aware

definition compact_point :: "text_env \<Rightarrow> point_row \<Rightarrow> rpoint result" where
  "compact_point te p =
     (let m = pr_metadata p in
      bnd (backup_kind_of (JStr (pr_kind p))) (\<lambda>kind.
      bnd (py_int (dget_or m ''sequence'' (JInt 0))) (\<lambda>sequence.
      if pr_status p \<noteq> ''AVAILABLE'' then Inl (ValueError ''not a valid RestorePointStatus'')
      else bnd (te_from_iso te (pr_created_at p)) (\<lambda>created.
      Inr \<lparr>po_id = pr_id p, po_run_id = pr_run_id p,
           po_chain_id = dget_or m ''chain_id'' (JStr (pr_run_id p)), po_kind = kind,
           po_sequence = sequence, po_bundle_object_id = dget_or m ''bundle_object_id'' JNull,
           po_parent = dget_or m ''parent_restore_point_id'' JNull,
           po_checkpoint = dget_or m ''libvirt_checkpoint_name'' JNull, po_created_at = created\<rparr>))))"

definition get_restore_point :: "text_env \<Rightarrow> db \<Rightarrow> string \<Rightarrow> rpoint option result" where
  "get_restore_point te d i =
     (case point_by_id d i of
        None \<Rightarrow> Inr None | Some p \<Rightarrow> bnd (compact_point te p) (\<lambda>v. Inr (Some v)))"

section \<open>Claiming the next replica\<close>

definition vm_of_run :: "db \<Rightarrow> string \<Rightarrow> vm_row option" where
  "vm_of_run d run_id =
     (case find (\<lambda>r. rr_id r = run_id) (db_runs d) of
        None \<Rightarrow> None
      | Some r \<Rightarrow> (case find (\<lambda>j. jo_id j = rr_job_id r) (db_jobs d) of
          None \<Rightarrow> None | Some j \<Rightarrow> find (\<lambda>v. vr_id v = jo_vm_id j) (db_vms d)))"

definition on_node :: "db \<Rightarrow> string \<Rightarrow> string \<Rightarrow> bool" where
  "on_node d node run_id = (case vm_of_run d run_id of None \<Rightarrow> False | Some v \<Rightarrow> vr_node_id v = node)"

definition available_points :: "db \<Rightarrow> string \<Rightarrow> point_row list" where
  "available_points d node =
     sort_key (\<lambda>p. (pr_created_at p, pr_id p))
       (filter (\<lambda>p. on_node d node (pr_run_id p) \<and> pr_status p = ''AVAILABLE'') (db_points d))"

definition is_ssh :: "db \<Rightarrow> string \<Rightarrow> string \<Rightarrow> bool" where
  "is_ssh d node dest =
     (case storage_at d node dest of None \<Rightarrow> False | Some s \<Rightarrow> map upper_char (sr_type s) = ''SSH'')"

definition blocked_entry :: "string \<Rightarrow> string option \<Rightarrow> dict \<Rightarrow> dict" where
  "blocked_entry stamp parent_state v =
     dset (dset (dset v ''state'' (JStr ''BLOCKED'')) ''updated_at'' (JStr stamp)) ''last_error''
       (JStr (''PARENT_REPLICA_UNAVAILABLE: direct parent replica state is '' @
          (case parent_state of None \<Rightarrow> ''MISSING'' | Some s \<Rightarrow> if s = [] then ''MISSING'' else s)))"

definition claimed_entry :: "string \<Rightarrow> int \<Rightarrow> dict \<Rightarrow> dict" where
  "claimed_entry stamp attempts v =
     dset (dset (dset (dset v ''state'' (JStr ''TRANSFERRING'')) ''attempts'' (JInt (attempts + 1)))
       ''updated_at'' (JStr stamp)) ''last_error'' JNull"

text \<open>
  One row: the loop over its entries, \<open>m\<close> being the metadata as changed so far. The result is
  the entry that was claimed.
\<close>

fun claim_entries ::
  "string \<Rightarrow> string \<Rightarrow> point_row \<Rightarrow> dict \<Rightarrow> dict \<Rightarrow> (string \<times> dict) option dbop" where
  "claim_entries node stamp row m [] = ret None"
| "claim_entries node stamp row m ((dest, e) # es) =
     reading (\<lambda>d. case e of
       JObj v \<Rightarrow>
         (if entry_state v \<notin> {''PENDING'', ''BLOCKED''} \<or> \<not> is_ssh d node dest
          then claim_entries node stamp row m es
          else if is_incremental row \<and> replica_parent_state d m dest \<noteq> Some ''SUCCESS''
          then
            let m' = put_entry m dest (blocked_entry stamp (replica_parent_state d m dest) v)
            in andthen (set_metadata (pr_id row) m') (\<lambda>_. claim_entries node stamp row m' es)
          else
            andthen (lift (py_int (dget_or v ''attempts'' (JInt 0)))) (\<lambda>attempts.
            let v' = claimed_entry stamp attempts v
            in andthen (set_metadata (pr_id row) (put_entry m dest v')) (\<lambda>_. ret (Some (dest, v')))))
     | _ \<Rightarrow> claim_entries node stamp row m es)"

fun claim_rows :: "string \<Rightarrow> string \<Rightarrow> point_row list \<Rightarrow> (point_row \<times> string \<times> dict) option dbop" where
  "claim_rows node stamp [] = ret None"
| "claim_rows node stamp (row # rows) =
     (case replicas_of (pr_metadata row) of
        None \<Rightarrow> claim_rows node stamp rows
      | Some r \<Rightarrow>
          andthen (claim_entries node stamp row (pr_metadata row) r) (\<lambda>found.
            case found of
              None \<Rightarrow> claim_rows node stamp rows
            | Some (dest, v) \<Rightarrow> ret (Some (row, dest, v))))"

record claim =
  cl_task_id :: json
  cl_restore_point_id :: string
  cl_destination_id :: string
  cl_attempts :: json
  cl_created_at :: aware
  cl_updated_at :: aware

definition claim_of :: "text_env \<Rightarrow> string \<Rightarrow> point_row \<times> string \<times> dict \<Rightarrow> claim result" where
  "claim_of te stamp = (\<lambda>(row, dest, v).
     bnd (dindex v ''task_id'') (\<lambda>task.
     let created = dget_or v ''created_at'' JNull in
     bnd (if truthy created
          then (case created of JStr s \<Rightarrow> te_from_iso te s | _ \<Rightarrow> Inl TypeError)
          else te_from_iso te (pr_created_at row)) (\<lambda>created_at.
     bnd (te_from_iso te stamp) (\<lambda>updated_at.
     Inr \<lparr>cl_task_id = task, cl_restore_point_id = pr_id row, cl_destination_id = dest,
          cl_attempts = dget_or v ''attempts'' JNull, cl_created_at = created_at,
          cl_updated_at = updated_at\<rparr>))))"

text \<open>The claim is committed before its result is built.\<close>

definition claim_next_replica :: "text_env \<Rightarrow> string \<Rightarrow> string \<Rightarrow> claim option dbop" where
  "claim_next_replica te node stamp =
     andthen (atomically (reading (\<lambda>d. claim_rows node stamp (available_points d node)))) (\<lambda>found.
       case found of
         None \<Rightarrow> ret None
       | Some x \<Rightarrow> lift (bnd (claim_of te stamp x) (\<lambda>c. Inr (Some c))))"

section \<open>Retrying a chain\<close>

text \<open>
  The walk to the oldest available ancestor; \<open>unseen\<close> are the identifiers of the table that
  the walk has not visited yet.
\<close>

function retry_root :: "text_env \<Rightarrow> db \<Rightarrow> string list \<Rightarrow> rpoint \<Rightarrow> string \<Rightarrow> string result" where
  "retry_root te d unseen current root_id =
     (if \<not> truthy (po_parent current) \<or> po_id current \<notin> set unseen then Inr root_id
      else case get_restore_point te d (enum_text (po_parent current)) of
             Inl e \<Rightarrow> Inl e
           | Inr None \<Rightarrow> Inr root_id
           | Inr (Some p) \<Rightarrow>
               retry_root te d (filter (\<lambda>x. x \<noteq> po_id current) unseen) p (po_id p))"
  by pat_completeness auto
termination
  by (relation "measure (\<lambda>(te, d, unseen, current, root_id). length unseen)")
    (auto intro: length_filter_less)

declare retry_root.simps [simp del]

text \<open>The recursive query: available points reached from the root along parent links.\<close>

definition add_children :: "db \<Rightarrow> string list \<Rightarrow> string list" where
  "add_children d ids =
     ids @ filter (\<lambda>i. i \<notin> set ids)
       (map pr_id (filter (\<lambda>p. pr_status p = ''AVAILABLE'' \<and>
          (case parent_id (pr_metadata p) of None \<Rightarrow> False | Some i \<Rightarrow> i \<in> set ids)) (db_points d)))"

definition descendants :: "db \<Rightarrow> string \<Rightarrow> string list" where
  "descendants d root_id = (add_children d ^^ length (db_points d)) [root_id]"

definition retry_entry :: "string \<Rightarrow> string \<Rightarrow> dict \<Rightarrow> dict" where
  "retry_entry task stamp v =
     dset (dset (dset (dset (dset (dset v ''task_id'' (JStr task)) ''state'' (JStr ''PENDING''))
       ''last_error'' JNull) ''remote_bundle_object_id'' JNull) ''verified_at'' JNull)
       ''updated_at'' (JStr stamp)"

fun retry_rows ::
  "(db \<Rightarrow> string) \<Rightarrow> string \<Rightarrow> string \<Rightarrow> point_row list \<Rightarrow> string list \<Rightarrow> string list dbop" where
  "retry_rows fresh dest stamp [] done = ret done"
| "retry_rows fresh dest stamp (row # rows) done =
     reading (\<lambda>d. case entry_of (pr_metadata row) dest of
       None \<Rightarrow> retry_rows fresh dest stamp rows done
     | Some v \<Rightarrow>
         (if entry_state v \<in> {''SUCCESS'', ''TRANSFERRING'', ''VERIFYING''}
          then retry_rows fresh dest stamp rows done
          else andthen (set_metadata (pr_id row)
                 (put_entry (pr_metadata row) dest (retry_entry (fresh d) stamp v))) (\<lambda>_.
               retry_rows fresh dest stamp rows (done @ [pr_id row]))))"

definition retry_replica_chain ::
  "text_env \<Rightarrow> (db \<Rightarrow> string) \<Rightarrow> string \<Rightarrow> string \<Rightarrow> string \<Rightarrow> (string \<times> string list) dbop" where
  "retry_replica_chain te fresh point_id dest stamp =
     reading (\<lambda>d. andthen (lift (get_restore_point te d point_id)) (\<lambda>found. case found of
       None \<Rightarrow> raise KeyError
     | Some p \<Rightarrow>
         andthen (lift (retry_root te d (map pr_id (db_points d)) p (po_id p))) (\<lambda>root_id.
         let rows = sort_key (\<lambda>q. (pr_created_at q, pr_id q))
                      (filter (\<lambda>q. pr_id q \<in> set (descendants d root_id)) (db_points d))
         in if rows = [] then raise KeyError
            else andthen (atomically (retry_rows fresh dest stamp rows [])) (\<lambda>ids. ret (root_id, ids)))))"

section \<open>Updates of an entry\<close>

text \<open>The shared part of the three update methods: look the entry up and write it back.\<close>

definition change_entry :: "string \<Rightarrow> string \<Rightarrow> (dict \<Rightarrow> dict) \<Rightarrow> dict dbop" where
  "change_entry point_id dest f =
     reading (\<lambda>d. case point_by_id d point_id of
       None \<Rightarrow> raise KeyError
     | Some p \<Rightarrow>
         (case entry_of (pr_metadata p) dest of
            None \<Rightarrow> raise (DomainInvariantError ''REPLICA_STATUS_NOT_FOUND'')
          | Some v \<Rightarrow> andthen (set_metadata point_id (put_entry (pr_metadata p) dest (f v))) (\<lambda>_. ret (f v))))"

definition dset_some :: "dict \<Rightarrow> string \<Rightarrow> json option \<Rightarrow> dict" where
  "dset_some d k v = (case v of None \<Rightarrow> d | Some x \<Rightarrow> dset d k x)"

definition replica_change :: "string \<Rightarrow> string \<Rightarrow> json \<Rightarrow> json option \<Rightarrow> json option \<Rightarrow> dict \<Rightarrow> dict" where
  "replica_change state stamp last_error remote verified v =
     dset_some (dset_some (dset (dset (dset v ''state'' (JStr state)) ''updated_at'' (JStr stamp))
       ''last_error'' last_error) ''remote_bundle_object_id'' remote) ''verified_at'' verified"

definition update_replica ::
  "string \<Rightarrow> string \<Rightarrow> string \<Rightarrow> string \<Rightarrow> json \<Rightarrow> json option \<Rightarrow> json option \<Rightarrow> dict dbop" where
  "update_replica point_id dest state stamp last_error remote verified =
     change_entry point_id dest (replica_change state stamp last_error remote verified)"

definition update_transfer_plan ::
  "string \<Rightarrow> string \<Rightarrow> string \<Rightarrow> int \<Rightarrow> int \<Rightarrow> json \<Rightarrow> string \<Rightarrow> dict dbop" where
  "update_transfer_plan point_id dest mode source_bytes nbytes seed stamp =
     change_entry point_id dest (\<lambda>v.
       dset (dset (dset (dset (dset (dset v ''transport_mode'' (JStr mode))
         ''source_payload_bytes'' (JInt (max 0 source_bytes))) ''bytes_processed'' (JInt 0))
         ''bytes_total'' (JInt (max 0 nbytes))) ''seed_restore_point_id'' seed) ''updated_at'' (JStr stamp))"

definition update_progress :: "string \<Rightarrow> string \<Rightarrow> int \<Rightarrow> int \<Rightarrow> string \<Rightarrow> dict dbop" where
  "update_progress point_id dest processed nbytes stamp =
     change_entry point_id dest (\<lambda>v.
       dset (dset (dset v ''bytes_processed'' (JInt (max 0 processed))) ''bytes_total'' (JInt (max 0 nbytes)))
         ''updated_at'' (JStr stamp))"

section \<open>The executor\<close>

record send_plan =
  sp_payload_bytes :: "int list"
  sp_seed :: "string option"

definition payload_total :: "send_plan \<Rightarrow> int" where
  "payload_total p = sum_list (map (max 0) (sp_payload_bytes p))"

text \<open>
  What the client calls back during a transfer: the plan it selected after the seed
  negotiation, and bytes sent, with the fact whether a second has passed since the progress
  was last stored.
\<close>

datatype callback = Plan_selected send_plan | Bytes_sent int bool

record client =
  cl_plan :: "claim \<Rightarrow> rpoint \<Rightarrow> string \<Rightarrow> storage \<Rightarrow> send_plan result"
  cl_transfer :: "send_plan \<Rightarrow> storage \<Rightarrow> callback list \<times> json result"
  cl_publish :: "json \<Rightarrow> string \<Rightarrow> storage \<Rightarrow> json result"

definition storage_value :: "storage \<Rightarrow> string \<Rightarrow> json" where
  "storage_value s k = dget_or (st_values s) k JNull"

text \<open>\<open>bundle.relative_to(root)\<close>: the components of the root are a prefix.\<close>

definition bundle_inside :: "string \<Rightarrow> string \<Rightarrow> bool" where
  "bundle_inside root_path bundle = prefix (path_parts root_path) (path_parts bundle)"

definition point_context ::
  "text_env \<Rightarrow> db \<Rightarrow> string \<Rightarrow> claim \<Rightarrow> rpoint \<Rightarrow> (rpoint \<times> string \<times> storage) result" where
  "point_context te d node w point =
     bnd (get_run te d (po_run_id point)) (\<lambda>r.
     bnd (get_job te d (ru_job_id r)) (\<lambda>v.
     bnd (vm_by_id d (jb_vm_id v)) (\<lambda>vm.
     if vr_node_id vm \<noteq> node then domain_error ''REPLICA_TASK_VM_NOT_LOCAL''
     else
       bnd (get_storage_destination d node (cl_destination_id w)) (\<lambda>destination.
       if st_type destination \<noteq> SSH then domain_error ''REPLICA_TASK_DESTINATION_NOT_SSH''
       else if \<not> truthy (storage_value destination ''remote_storage_id'')
       then domain_error ''REPLICA_REMOTE_STORAGE_ID_MISSING''
       else
         bnd (get_storage_destination d node (ru_storage_id r)) (\<lambda>primary.
         if st_type primary \<noteq> LOCAL then domain_error ''REPLICA_PRIMARY_MUST_BE_LOCAL''
         else
           let root_path = enum_text (storage_value primary ''backup_data_root'');
               bundle = enum_text (po_bundle_object_id point)
           in if \<not> path_is_absolute root_path \<or> \<not> path_is_absolute bundle \<or> ''..'' \<in> set (path_parts bundle)
              then domain_error ''REPLICA_PRIMARY_BUNDLE_UNSAFE''
              else if \<not> bundle_inside root_path bundle
              then domain_error ''REPLICA_PRIMARY_BUNDLE_OUTSIDE_STORAGE''
              else Inr (point, vr_id vm, destination))))))"

definition replica_context :: "text_env \<Rightarrow> db \<Rightarrow> string \<Rightarrow> claim \<Rightarrow> (rpoint \<times> string \<times> storage) result" where
  "replica_context te d node w =
     bnd (get_restore_point te d (cl_restore_point_id w)) (\<lambda>found. case found of
       None \<Rightarrow> domain_error ''REPLICA_RESTORE_POINT_NOT_FOUND''
     | Some point \<Rightarrow> point_context te d node w point)"

definition receipt_matches :: "json \<Rightarrow> rpoint \<Rightarrow> storage \<Rightarrow> dict \<Rightarrow> bool" where
  "receipt_matches task point destination r \<longleftrightarrow>
     dget_or r ''transfer_id'' JNull = task \<and>
     dget_or r ''storage_id'' JNull = storage_value destination ''remote_storage_id'' \<and>
     dget_or r ''restore_point_id'' JNull = JStr (po_id point)"

definition runtime_error :: "'a result" where "runtime_error = Inl OtherException"

definition validate_transfer_receipt :: "json \<Rightarrow> rpoint \<Rightarrow> storage \<Rightarrow> json \<Rightarrow> unit result" where
  "validate_transfer_receipt task point destination receipt =
     (case receipt of
        JObj r \<Rightarrow> if receipt_matches task point destination r then Inr () else runtime_error
      | _ \<Rightarrow> runtime_error)"

definition validate_publish_receipt :: "json \<Rightarrow> rpoint \<Rightarrow> storage \<Rightarrow> json \<Rightarrow> string result" where
  "validate_publish_receipt task point destination receipt =
     (case receipt of
        JObj r \<Rightarrow>
          (if dget_or r ''status'' JNull \<noteq> JStr ''PUBLISHED'' \<or> \<not> receipt_matches task point destination r
           then runtime_error
           else case dget_or r ''bundle_object_id'' JNull of
             JStr i \<Rightarrow>
               (if i = [] \<or> prefix ''/'' i then runtime_error
                else if ''..'' \<in> set (path_parts i) then runtime_error else Inr i)
           | _ \<Rightarrow> runtime_error)
      | _ \<Rightarrow> runtime_error)"

definition transport_mode :: "rpoint \<Rightarrow> send_plan \<Rightarrow> string" where
  "transport_mode point p =
     (if po_kind point = FULL
      then (case sp_seed p of None \<Rightarrow> ''FULL'' | Some i \<Rightarrow> if i = [] then ''FULL'' else ''SEEDED_FULL'')
      else ''INCREMENTAL'')"

text \<open>The callbacks of one transfer, with the totals they share.\<close>

fun run_callbacks ::
  "(db \<Rightarrow> string) \<Rightarrow> rpoint \<Rightarrow> storage \<Rightarrow> int \<Rightarrow> callback list \<Rightarrow> int \<Rightarrow> int \<Rightarrow> int dbop" where
  "run_callbacks clock point destination source_bytes [] nbytes processed = ret nbytes"
| "run_callbacks clock point destination source_bytes (Plan_selected p # cs) nbytes processed =
     reading (\<lambda>d. andthen (update_transfer_plan (po_id point) (st_id destination) (transport_mode point p)
         source_bytes (payload_total p) (opt_json (sp_seed p)) (clock d)) (\<lambda>_.
       run_callbacks clock point destination source_bytes cs (payload_total p) 0))"
| "run_callbacks clock point destination source_bytes (Bytes_sent delta second_passed # cs) nbytes processed =
     (if nbytes \<le> 0 then run_callbacks clock point destination source_bytes cs nbytes processed
      else
        let processed' = min nbytes (processed + max 0 delta) in
        if processed' \<ge> nbytes \<or> second_passed
        then reading (\<lambda>d. andthen (update_progress (po_id point) (st_id destination) processed' nbytes (clock d)) (\<lambda>_.
               run_callbacks clock point destination source_bytes cs nbytes processed'))
        else run_callbacks clock point destination source_bytes cs nbytes processed')"

text \<open>The work up to the last update, then the last update.\<close>

definition transfer_replica ::
  "client \<Rightarrow> (db \<Rightarrow> string) \<Rightarrow> claim \<Rightarrow> rpoint \<Rightarrow> string \<Rightarrow> storage \<Rightarrow> string dbop" where
  "transfer_replica cl clock w point vm destination =
     andthen (lift (cl_plan cl w point vm destination)) (\<lambda>plan.
     let (callbacks, receipt) = cl_transfer cl plan destination in
     andthen (run_callbacks clock point destination (payload_total plan) callbacks (payload_total plan) 0) (\<lambda>nbytes.
     andthen (lift receipt) (\<lambda>staged.
     andthen (if nbytes > 0
              then reading (\<lambda>d. andthen (update_progress (po_id point) (st_id destination) nbytes nbytes (clock d))
                     (\<lambda>_. ret ()))
              else ret ()) (\<lambda>_.
     andthen (lift (validate_transfer_receipt (cl_task_id w) point destination staged)) (\<lambda>_.
     andthen (reading (\<lambda>d. update_replica (po_id point) (st_id destination) ''VERIFYING'' (clock d) JNull None None)) (\<lambda>_.
     andthen (lift (cl_publish cl (cl_task_id w) (po_id point) destination)) (\<lambda>published.
     lift (validate_publish_receipt (cl_task_id w) point destination published))))))))"

definition stage_replica ::
  "text_env \<Rightarrow> client \<Rightarrow> (db \<Rightarrow> string) \<Rightarrow> string \<Rightarrow> claim \<Rightarrow> (rpoint \<times> storage \<times> string) dbop" where
  "stage_replica te cl clock node w =
     reading (\<lambda>d. andthen (lift (replica_context te d node w)) (\<lambda>(point, vm, destination).
       andthen (transfer_replica cl clock w point vm destination) (\<lambda>remote.
       ret (point, destination, remote))))"

definition send_replica :: "text_env \<Rightarrow> client \<Rightarrow> (db \<Rightarrow> string) \<Rightarrow> string \<Rightarrow> claim \<Rightarrow> dict dbop" where
  "send_replica te cl clock node w =
     andthen (stage_replica te cl clock node w) (\<lambda>(point, destination, remote).
       reading (\<lambda>d. update_replica (po_id point) (st_id destination) ''SUCCESS'' (clock d) JNull
         (Some (JStr remote)) (Some (JStr (clock d)))))"

text \<open>\<open>run_once\<close>: every exception after the claim marks the entry FAILED.\<close>

definition run_replica_once ::
  "text_env \<Rightarrow> client \<Rightarrow> (db \<Rightarrow> string) \<Rightarrow> string \<Rightarrow> dict option dbop" where
  "run_replica_once te cl clock node =
     reading (\<lambda>d. andthen (claim_next_replica te node (clock d)) (\<lambda>found. case found of
       None \<Rightarrow> ret None
     | Some w \<Rightarrow>
         andthen (lift (bnd (py_int (cl_attempts w)) (\<lambda>n. if n < 0
           then Inl (ValueError ''replica attempts must be non-negative'') else Inr ()))) (\<lambda>_.
         (\<lambda>d1. case send_replica te cl clock node w d1 of
            (Inr v, d2) \<Rightarrow> (Inr (Some v), d2)
          | (Inl e, d2) \<Rightarrow>
              andthen (update_replica (cl_restore_point_id w) (cl_destination_id w) ''FAILED'' (clock d2)
                (JStr ''transfer failed'') None None) (\<lambda>v. ret (Some v)) d2))))"

section \<open>Deleting remote copies\<close>

definition run_context :: "db \<Rightarrow> string \<Rightarrow> dict result" where
  "run_context d run_id = bnd (run_by_id d run_id) (\<lambda>r. Inr (rr_context r))"

definition set_context :: "string \<Rightarrow> dict \<Rightarrow> string \<Rightarrow> unit dbop" where
  "set_context run_id c stamp = update (\<lambda>d. d\<lparr>db_runs :=
     map (\<lambda>r. if rr_id r = run_id then r\<lparr>rr_context := c, rr_updated_at := stamp\<rparr> else r) (db_runs d)\<rparr>)"

definition non_empty_text :: "json \<Rightarrow> bool" where
  "non_empty_text v = (case v of JStr s \<Rightarrow> s \<noteq> [] | _ \<Rightarrow> False)"

definition task_states :: "string list" where
  "task_states = [''PENDING'', ''RUNNING'', ''COMPLETED'', ''FAILED'']"

definition or_text :: "json \<Rightarrow> string \<Rightarrow> string" where
  "or_text v other = (if truthy v then enum_text v else other)"

definition or_zero :: "json \<Rightarrow> int result" where
  "or_zero v = (if truthy v then py_int v else Inr 0)"

text \<open>The remote storage of a replica that has to be deleted, if the entry has one.\<close>

definition remote_copy :: "db \<Rightarrow> string \<Rightarrow> dict \<Rightarrow> (json \<times> json) option" where
  "remote_copy d dest v =
     (if state_or [] v \<noteq> ''SUCCESS'' \<or> \<not> non_empty_text (dget_or v ''remote_bundle_object_id'' JNull) then None
      else case find (\<lambda>r. sr_id r = dest) (db_storages d) of
             None \<Rightarrow> None
           | Some r \<Rightarrow>
               (let remote = dget_or (sr_config r) ''remote_storage_id'' JNull in
                if sr_type r \<noteq> ''SSH'' \<or> \<not> non_empty_text remote then None
                else Some (remote, dget_or v ''remote_bundle_object_id'' JNull)))"

definition delete_task :: "point_row \<Rightarrow> string \<Rightarrow> json \<Rightarrow> json \<Rightarrow> int \<Rightarrow> string \<Rightarrow> dict" where
  "delete_task p dest remote_storage remote_object sequence stamp =
     [(''restore_point_id'', JStr (pr_id p)), (''destination_id'', JStr dest),
      (''remote_storage_id'', remote_storage), (''remote_bundle_object_id'', remote_object),
      (''kind'', JStr (pr_kind p)), (''sequence'', JInt sequence),
      (''chain_id'', dget_or (pr_metadata p) ''chain_id'' JNull), (''state'', JStr ''PENDING''),
      (''attempts'', JInt 0), (''max_attempts'', JInt 3), (''last_error'', JNull),
      (''next_attempt_at'', JStr stamp), (''created_at'', JStr stamp), (''updated_at'', JStr stamp)]"

definition task_known :: "dict \<Rightarrow> string \<Rightarrow> bool" where
  "task_known tasks dest =
     (case dget tasks dest of
        Some (JObj t) \<Rightarrow> (case dget_or t ''state'' JNull of JStr s \<Rightarrow> s \<in> set task_states | _ \<Rightarrow> False)
      | _ \<Rightarrow> False)"

fun enqueue_entries ::
  "db \<Rightarrow> point_row \<Rightarrow> string \<Rightarrow> dict \<Rightarrow> dict \<Rightarrow> nat \<Rightarrow> (dict \<times> nat) result" where
  "enqueue_entries d p stamp [] tasks created = Inr (tasks, created)"
| "enqueue_entries d p stamp ((dest, e) # es) tasks created =
     (case e of
        JObj v \<Rightarrow>
          (case remote_copy d dest v of
             None \<Rightarrow> enqueue_entries d p stamp es tasks created
           | Some (remote_storage, remote_object) \<Rightarrow>
               if task_known tasks dest then enqueue_entries d p stamp es tasks created
               else bnd (or_zero (dget_or (pr_metadata p) ''sequence'' JNull)) (\<lambda>sequence.
                 enqueue_entries d p stamp es
                   (dset tasks dest (JObj (delete_task p dest remote_storage remote_object sequence stamp)))
                   (created + 1)))
      | _ \<Rightarrow> enqueue_entries d p stamp es tasks created)"

definition delete_tasks_of :: "dict \<Rightarrow> dict option" where
  "delete_tasks_of c = (case dget_or c ''replica_delete_tasks'' (JObj []) of JObj t \<Rightarrow> Some t | _ \<Rightarrow> None)"

definition enqueue_replica_deletes :: "string \<Rightarrow> string \<Rightarrow> nat dbop" where
  "enqueue_replica_deletes point_id stamp =
     reading (\<lambda>d. case point_by_id d point_id of
       None \<Rightarrow> ret 0
     | Some p \<Rightarrow>
         (case replicas_of (pr_metadata p) of
            None \<Rightarrow> ret 0
          | Some replicas \<Rightarrow>
              andthen (lift (run_context d (pr_run_id p))) (\<lambda>c.
              andthen (lift (enqueue_entries d p stamp replicas
                (case delete_tasks_of c of None \<Rightarrow> [] | Some t \<Rightarrow> t) 0)) (\<lambda>(tasks, created).
              if created = 0 then ret 0
              else andthen (set_context (pr_run_id p) (dset c ''replica_delete_tasks'' (JObj tasks)) stamp)
                     (\<lambda>_. ret created)))))"

record candidate =
  ca_sequence :: int
  ca_created :: string
  ca_run_id :: string
  ca_dest :: string
  ca_context :: dict
  ca_task :: dict

fun run_candidates :: "run_row \<Rightarrow> string \<Rightarrow> dict \<Rightarrow> candidate list result" where
  "run_candidates r stamp [] = Inr []"
| "run_candidates r stamp ((dest, t) # ts) =
     (case t of
        JObj v \<Rightarrow>
          (if entry_state v \<notin> {''PENDING'', ''RUNNING''}
              \<or> stamp < or_text (dget_or v ''next_attempt_at'' JNull)
                          (or_text (dget_or v ''updated_at'' JNull) (rr_created_at r))
           then run_candidates r stamp ts
           else
             bnd (or_zero (dget_or v ''sequence'' JNull)) (\<lambda>sequence.
             bnd (run_candidates r stamp ts) (\<lambda>cs.
             Inr (\<lparr>ca_sequence = sequence, ca_created = or_text (dget_or v ''created_at'' JNull) (rr_created_at r),
                   ca_run_id = rr_id r, ca_dest = dest, ca_context = rr_context r, ca_task = v\<rparr> # cs))))
      | _ \<Rightarrow> run_candidates r stamp ts)"

definition delete_candidates :: "db \<Rightarrow> string \<Rightarrow> string \<Rightarrow> candidate list result" where
  "delete_candidates d node stamp =
     bnd (map_result (\<lambda>r. case dget (rr_context r) ''replica_delete_tasks'' of
            Some (JObj t) \<Rightarrow> run_candidates r stamp t | _ \<Rightarrow> Inr [])
          (filter (\<lambda>r. on_node d node (rr_id r)) (db_runs d))) (\<lambda>css. Inr (concat css))"

text \<open>\<open>sorted(candidates)[0]\<close>: the run and the destination make the order strict.\<close>

definition candidate_key :: "candidate \<Rightarrow> int \<times> string \<times> string \<times> string" where
  "candidate_key c = (- ca_sequence c, ca_created c, ca_run_id c, ca_dest c)"

definition claim_next_delete :: "string \<Rightarrow> string \<Rightarrow> (string \<times> dict) option dbop" where
  "claim_next_delete node stamp =
     reading (\<lambda>d. andthen (lift (delete_candidates d node stamp)) (\<lambda>cs.
       case sort_key candidate_key cs of
         [] \<Rightarrow> ret None
       | c # _ \<Rightarrow>
           andthen (lift (or_zero (dget_or (ca_task c) ''attempts'' JNull))) (\<lambda>attempts.
           let v = dset (dset (dset (ca_task c) ''state'' (JStr ''RUNNING'')) ''attempts'' (JInt (attempts + 1)))
                     ''updated_at'' (JStr stamp);
               tasks = (case delete_tasks_of (ca_context c) of None \<Rightarrow> [] | Some t \<Rightarrow> t)
           in andthen (set_context (ca_run_id c)
                (dset (ca_context c) ''replica_delete_tasks'' (JObj (dset tasks (ca_dest c) (JObj v)))) stamp)
                (\<lambda>_. ret (Some (ca_run_id c, v))))))"

definition finished_task :: "text_env \<Rightarrow> dict \<Rightarrow> aware \<Rightarrow> bool \<Rightarrow> string \<Rightarrow> int \<Rightarrow> int \<Rightarrow> int \<Rightarrow> dict" where
  "finished_task te t moment success err delay attempts maximum =
     (let stamp = JStr (te_iso te moment) in
      if success then
        dset (dset (dset (dset t ''state'' (JStr ''COMPLETED'')) ''last_error'' JNull)
          ''completed_at'' stamp) ''updated_at'' stamp
      else
        dset (dset (dset (dset t ''state'' (JStr (if attempts \<ge> maximum then ''FAILED'' else ''PENDING'')))
          ''last_error'' (JStr (if err = [] then ''remote replica delete failed'' else err)))
          ''updated_at'' stamp)
          ''next_attempt_at'' (if attempts \<ge> maximum then stamp
             else JStr (te_iso te (plus_wall moment (max 1 delay * second_us)))))"

definition finish_delete ::
  "text_env \<Rightarrow> string \<Rightarrow> string \<Rightarrow> bool \<Rightarrow> string \<Rightarrow> aware \<Rightarrow> int \<Rightarrow> dict dbop" where
  "finish_delete te run_id dest success err moment delay =
     reading (\<lambda>d.
       andthen (lift (run_context d run_id)) (\<lambda>c.
       case delete_tasks_of c of
         None \<Rightarrow> raise OtherException
       | Some tasks \<Rightarrow>
           (case dget tasks dest of
              Some (JObj t) \<Rightarrow>
                (if t = [] then raise (DomainInvariantError ''REPLICA_DELETE_TASK_NOT_FOUND'')
                 else
                   andthen (lift (or_zero (dget_or t ''attempts'' JNull))) (\<lambda>attempts.
                   andthen (lift (if truthy (dget_or t ''max_attempts'' JNull)
                     then py_int (dget_or t ''max_attempts'' JNull) else Inr 3)) (\<lambda>maximum.
                   let t' = finished_task te t moment success err delay attempts maximum in
                   andthen (set_context run_id (dset c ''replica_delete_tasks''
                     (JObj (dset tasks dest (JObj t')))) (te_iso te moment)) (\<lambda>_. ret t'))))
            | Some v \<Rightarrow> if truthy v then raise OtherException
                        else raise (DomainInvariantError ''REPLICA_DELETE_TASK_NOT_FOUND'')
            | None \<Rightarrow> raise (DomainInvariantError ''REPLICA_DELETE_TASK_NOT_FOUND''))))"

text \<open>\<open>CompactReplicaDeleteExecutor.run_once\<close>; \<open>remote_delete\<close> is the client's call.\<close>

definition delete_context :: "db \<Rightarrow> string \<Rightarrow> string \<Rightarrow> dict \<Rightarrow> storage result" where
  "delete_context d node dest work =
     bnd (get_storage_destination d node dest) (\<lambda>s.
       if st_type s \<noteq> SSH then domain_error ''REPLICA_DELETE_DESTINATION_NOT_SSH''
       else if \<not> truthy (storage_value s ''remote_storage_id'')
       then domain_error ''REPLICA_DELETE_REMOTE_STORAGE_ID_MISSING''
       else if storage_value s ''remote_storage_id'' \<noteq> dget_or work ''remote_storage_id'' JNull
       then domain_error ''REPLICA_DELETE_REMOTE_STORAGE_CHANGED''
       else Inr s)"

definition run_delete_once ::
  "text_env \<Rightarrow> (storage \<Rightarrow> dict \<Rightarrow> unit result) \<Rightarrow> (db \<Rightarrow> aware) \<Rightarrow> string \<Rightarrow> dict option dbop" where
  "run_delete_once te remote_delete clock node =
     reading (\<lambda>d. andthen (claim_next_delete node (te_iso te (clock d))) (\<lambda>found. case found of
       None \<Rightarrow> ret None
     | Some (run_id, work) \<Rightarrow>
         reading (\<lambda>d1. andthen (lift (dindex work ''destination_id'')) (\<lambda>key.
           let dest = enum_text key;
               outcome = bnd (delete_context d1 node dest work) (\<lambda>s. remote_delete s work)
           in andthen (finish_delete te run_id dest (outcome = Inr ())
                (case outcome of Inl _ \<Rightarrow> ''delete failed'' | Inr _ \<Rightarrow> []) (clock d1) 30) (\<lambda>v. ret (Some v))))))"

section \<open>No incremental before its parent\<close>

definition active_states :: "string list" where
  "active_states = [''TRANSFERRING'', ''VERIFYING'', ''SUCCESS'']"

text \<open>The parent's replica was successful, or the parent is no longer there.\<close>

definition parent_done :: "db \<Rightarrow> dict \<Rightarrow> string \<Rightarrow> bool" where
  "parent_done d m dest =
     (case parent_id m of
        None \<Rightarrow> False
      | Some i \<Rightarrow>
          (case point_by_id d i of
             None \<Rightarrow> True
           | Some p \<Rightarrow> pr_status p \<noteq> ''AVAILABLE'' \<or>
               (case entry_of (pr_metadata p) dest of None \<Rightarrow> False | Some v \<Rightarrow> entry_state v = ''SUCCESS'')))"

lemma parent_done_state: "replica_parent_state d m dest = Some ''SUCCESS'' \<Longrightarrow> parent_done d m dest"
  by (auto simp: parent_done_def replica_parent_state_def split: option.splits if_splits)

definition chain_safe :: "db \<Rightarrow> bool" where
  "chain_safe d \<longleftrightarrow> distinct (map pr_id (db_points d)) \<and>
     (\<forall>p \<in> set (db_points d). \<forall>r. replicas_of (pr_metadata p) = Some r \<longrightarrow> distinct (map fst r)) \<and>
     (\<forall>p \<in> set (db_points d). \<forall>dest v.
        is_incremental p \<and> entry_of (pr_metadata p) dest = Some v \<and> entry_state v \<in> set active_states \<longrightarrow>
        parent_done d (pr_metadata p) dest)"

lemma chain_safeD:
  "chain_safe d \<Longrightarrow> p \<in> set (db_points d) \<Longrightarrow> is_incremental p \<Longrightarrow> entry_of (pr_metadata p) dest = Some v \<Longrightarrow>
     entry_state v \<in> set active_states \<Longrightarrow> parent_done d (pr_metadata p) dest"
  unfolding chain_safe_def by blast

lemma point_by_id_Some: "point_by_id d i = Some p \<Longrightarrow> p \<in> set (db_points d) \<and> pr_id p = i"
  by (auto simp: point_by_id_def find_Some_iff)

lemma point_by_id_in:
  assumes "distinct (map pr_id (db_points d))" and "p \<in> set (db_points d)"
  shows "point_by_id d (pr_id p) = Some p"
proof -
  have "distinct (map pr_id ps) \<Longrightarrow> p \<in> set ps \<Longrightarrow> find (\<lambda>q. pr_id q = pr_id p) ps = Some p" for ps
    by (induction ps) (auto simp: rev_image_eqI)
  with assms show ?thesis by (simp add: point_by_id_def)
qed

lemma put_entry_simps:
  assumes "replicas_of m = Some r"
  shows "entry_of (put_entry m dest v) dest' = (if dest' = dest then Some v else entry_of m dest')"
    and "replicas_of (put_entry m dest v) = Some (dset r dest (JObj v))"
    and "parent_id (put_entry m dest v) = parent_id m"
  using assms by (simp_all add: put_entry_def entry_of_def replicas_of_def parent_id_def)

lemma entry_of_replicas: "entry_of m dest = Some v \<Longrightarrow> \<exists>r. replicas_of m = Some r"
  by (auto simp: entry_of_def split: option.splits)

lemma set_metadata_run:
  "set_metadata i m d = (Inr (), d\<lparr>db_points :=
     map (\<lambda>p. if pr_id p = i then p\<lparr>pr_metadata := m\<rparr> else p) (db_points d)\<rparr>)"
  by (simp add: set_metadata_def update_def)

lemma point_by_id_set:
  "point_by_id (snd (set_metadata i m d)) j =
     map_option (\<lambda>p. if pr_id p = i then p\<lparr>pr_metadata := m\<rparr> else p) (point_by_id d j)"
proof -
  have "find (\<lambda>p. pr_id p = j) (map (\<lambda>p. if pr_id p = i then p\<lparr>pr_metadata := m\<rparr> else p) ps) =
      map_option (\<lambda>p. if pr_id p = i then p\<lparr>pr_metadata := m\<rparr> else p) (find (\<lambda>p. pr_id p = j) ps)" for ps
    by (induction ps) auto
  then show ?thesis by (simp add: point_by_id_def set_metadata_run)
qed

text \<open>
  What one change of an entry does to the view its children have: a parent that was
  successful stays so, and nothing else becomes done.
\<close>

lemma parent_done_set:
  assumes p: "point_by_id d i = Some p" and e: "entry_of (pr_metadata p) dest = Some v"
    and keep: "entry_state v = ''SUCCESS'' \<Longrightarrow> entry_state v' = ''SUCCESS''"
    and before: "parent_done d m to"
  shows "parent_done (snd (set_metadata i (put_entry (pr_metadata p) dest v') d)) m to"
proof (cases "parent_id m")
  case (Some j)
  from entry_of_replicas [OF e] obtain r where r: "replicas_of (pr_metadata p) = Some r" by blast
  show ?thesis
  proof (cases "point_by_id d j")
    case None
    with Some show ?thesis by (simp add: parent_done_def point_by_id_set)
  next
    case j: (Some q)
    show ?thesis
    proof (cases "j = i")
      case True
      with j p have "q = p" by simp
      moreover have "pr_id p = i" using point_by_id_Some [OF p] by simp
      ultimately show ?thesis
        using Some j True before keep e
        by (auto simp: parent_done_def point_by_id_set put_entry_simps [OF r])
    next
      case False
      moreover have "pr_id q = j" using point_by_id_Some [OF j] by simp
      ultimately show ?thesis using Some j before
        by (simp add: parent_done_def point_by_id_set)
    qed
  qed
qed (use before in \<open>simp add: parent_done_def replica_parent_state_def\<close>)

lemma put_entry_safe:
  assumes safe: "chain_safe d" and p: "point_by_id d i = Some p" and e: "entry_of (pr_metadata p) dest = Some v"
    and keep: "entry_state v = ''SUCCESS'' \<Longrightarrow> entry_state v' = ''SUCCESS''"
    and new: "is_incremental p \<Longrightarrow> entry_state v' \<in> set active_states \<Longrightarrow> parent_done d (pr_metadata p) dest"
  shows "chain_safe (snd (set_metadata i (put_entry (pr_metadata p) dest v') d))"
proof -
  let ?m = "put_entry (pr_metadata p) dest v'" and ?d = "snd (set_metadata i (put_entry (pr_metadata p) dest v') d)"
  from entry_of_replicas [OF e] obtain r where r: "replicas_of (pr_metadata p) = Some r" by blast
  note in_d = point_by_id_Some [OF p]
  have dist: "distinct (map pr_id (db_points d))" using safe unfolding chain_safe_def by blast
  have "map pr_id (db_points ?d) = map pr_id (db_points d)" by (simp add: set_metadata_run)
  moreover have "parent_done ?d (pr_metadata q) to"
    if q: "q \<in> set (db_points ?d)" "is_incremental q" "entry_of (pr_metadata q) to = Some w"
      "entry_state w \<in> set active_states" for q to w
  proof -
    from q(1) obtain q0 where q0: "q0 \<in> set (db_points d)"
      "q = (if pr_id q0 = i then q0\<lparr>pr_metadata := ?m\<rparr> else q0)" by (auto simp: set_metadata_run)
    have "parent_done d (pr_metadata q) to"
    proof (cases "pr_id q0 = i")
      case True
      then have "q0 = p" using point_by_id_in [OF dist q0(1)] p by simp
      with True q0(2) have eq: "q = p\<lparr>pr_metadata := ?m\<rparr>" by simp
      then have inc: "is_incremental p" using q(2) by (simp add: is_incremental_def)
      have "parent_done d (pr_metadata p) to"
      proof (cases "to = dest")
        case True
        with q(3,4) eq new inc show ?thesis by (simp add: put_entry_simps [OF r])
      next
        case False
        with q(3) eq have "entry_of (pr_metadata p) to = Some w" by (simp add: put_entry_simps [OF r])
        with chain_safeD [OF safe _ inc _ q(4)] in_d show ?thesis by blast
      qed
      then show ?thesis using eq by (simp add: parent_done_def put_entry_simps [OF r])
    next
      case False
      with q0(2) have "q = q0" by simp
      with chain_safeD [OF safe, of q] q0(1) q(2-4) show ?thesis by simp
    qed
    with parent_done_set [OF p e keep] show ?thesis by blast
  qed
  moreover have "distinct (map fst r')"
    if q: "q \<in> set (db_points ?d)" "replicas_of (pr_metadata q) = Some r'" for q r'
  proof -
    have old: "distinct (map fst r0)" if "q0 \<in> set (db_points d)" "replicas_of (pr_metadata q0) = Some r0" for q0 r0
      using safe that unfolding chain_safe_def by blast
    from q(1) obtain q0 where q0: "q0 \<in> set (db_points d)"
      "q = (if pr_id q0 = i then q0\<lparr>pr_metadata := ?m\<rparr> else q0)" by (auto simp: set_metadata_run)
    show ?thesis
    proof (cases "pr_id q0 = i")
      case True
      with q(2) q0(2) have "r' = dset r dest (JObj v')" by (simp add: put_entry_simps [OF r])
      moreover have "distinct (map fst r)" using old [OF _ r] in_d by blast
      ultimately show ?thesis by (simp add: distinct_update)
    next
      case False
      with q q0 old show ?thesis by simp
    qed
  qed
  ultimately show ?thesis using dist unfolding chain_safe_def by metis
qed

text \<open>The entries whose state satisfies \<open>Q\<close> are left as they were.\<close>

definition kept :: "(string \<Rightarrow> bool) \<Rightarrow> db \<Rightarrow> db \<Rightarrow> bool" where
  "kept Q d d' \<longleftrightarrow> (\<forall>i p dest v. point_by_id d i = Some p \<and> entry_of (pr_metadata p) dest = Some v \<and> Q (entry_state v) \<longrightarrow>
     (\<exists>p'. point_by_id d' i = Some p' \<and> entry_of (pr_metadata p') dest = Some v))"

lemma kept_refl [simp]: "kept Q d d"
  unfolding kept_def by blast

lemma kept_trans: "kept Q d d' \<Longrightarrow> kept Q d' d'' \<Longrightarrow> kept Q d d''"
  unfolding kept_def by blast

lemma keptD:
  "kept Q d d' \<Longrightarrow> point_by_id d i = Some p \<Longrightarrow> entry_of (pr_metadata p) dest = Some v \<Longrightarrow> Q (entry_state v) \<Longrightarrow>
     \<exists>p'. point_by_id d' i = Some p' \<and> entry_of (pr_metadata p') dest = Some v"
  unfolding kept_def by blast

lemma put_entry_kept:
  assumes p: "point_by_id d i = Some p" and e: "entry_of (pr_metadata p) dest = Some v" and q: "\<not> Q (entry_state v)"
  shows "kept Q d (snd (set_metadata i (put_entry (pr_metadata p) dest v') d))"
  unfolding kept_def
proof (intro allI impI, elim conjE)
  fix j q to w assume j: "point_by_id d j = Some q" "entry_of (pr_metadata q) to = Some w" "Q (entry_state w)"
  from entry_of_replicas [OF e] obtain r where r: "replicas_of (pr_metadata p) = Some r" by blast
  show "\<exists>p'. point_by_id (snd (set_metadata i (put_entry (pr_metadata p) dest v') d)) j = Some p' \<and>
      entry_of (pr_metadata p') to = Some w"
  proof (cases "pr_id q = i")
    case True
    with point_by_id_Some [OF j(1)] p j(1) have "q = p" by simp
    moreover have "to \<noteq> dest" using j(2,3) e q \<open>q = p\<close> by auto
    ultimately show ?thesis using j True by (simp add: point_by_id_set put_entry_simps [OF r])
  qed (use j in \<open>simp add: point_by_id_set\<close>)
qed

section \<open>Claims\<close>

definition claimable :: "string \<Rightarrow> bool" where
  "claimable s \<longleftrightarrow> s \<in> {''PENDING'', ''BLOCKED''}"

lemma entry_state_dset [simp]:
  "state_or s (dset v ''state'' (JStr t)) = map upper_char (if t = [] then s else t)"
  "k \<noteq> ''state'' \<Longrightarrow> state_or s (dset v k w) = state_or s v"
  by (simp_all add: state_or_def enum_text_def)

lemma claimed_entry_state: "entry_state (claimed_entry stamp n v) = ''TRANSFERRING''"
proof -
  have "map upper_char ''TRANSFERRING'' = ''TRANSFERRING''" by code_simp
  then show ?thesis by (simp add: claimed_entry_def)
qed

lemma blocked_entry_state: "entry_state (blocked_entry stamp ps v) = ''BLOCKED''"
proof -
  have "map upper_char ''BLOCKED'' = ''BLOCKED''" by code_simp
  then show ?thesis by (simp add: blocked_entry_def)
qed

text \<open>What the inner loop does, the table holding the row with its metadata as changed so far.\<close>

lemma claim_entries_spec:
  assumes "chain_safe d" and "point_by_id d (pr_id row) = Some (row\<lparr>pr_metadata := m\<rparr>)"
    and "distinct (map fst es)" and "\<And>dest v. (dest, JObj v) \<in> set es \<Longrightarrow> entry_of m dest = Some v"
    and "claim_entries node stamp row m es d = (r, d')"
  shows "chain_safe d' \<and> kept (\<lambda>s. \<not> claimable s) d d' \<and> db_storages d' = db_storages d \<and>
    (\<forall>j. j \<noteq> pr_id row \<longrightarrow> point_by_id d' j = point_by_id d j) \<and>
    (\<forall>dest v. r = Inr (Some (dest, v)) \<longrightarrow> is_ssh d node dest \<and> entry_state v = ''TRANSFERRING'' \<and>
       (\<exists>m'. point_by_id d' (pr_id row) = Some (row\<lparr>pr_metadata := m'\<rparr>) \<and> entry_of m' dest = Some v))"
  using assms
proof (induction es arbitrary: d m)
  case Nil
  then show ?case by (auto simp: ret_def)
next
  case (Cons x es)
  obtain dest e where x: "x = (dest, e)" by (cases x)
  let ?p = "row\<lparr>pr_metadata := m\<rparr>"
  show ?case
  proof (cases "\<exists>v. e = JObj v \<and> claimable (entry_state v) \<and> is_ssh d node dest")
    case False
    then have "claim_entries node stamp row m es d = (r, d')"
      using Cons.prems(5) x by (auto simp: op_run claimable_def split: json.splits if_splits)
    from Cons.IH [OF Cons.prems(1,2) _ _ this] Cons.prems(3,4) show ?thesis by simp
  next
    case True
    then obtain v where e: "e = JObj v" "claimable (entry_state v)" and ssh: "is_ssh d node dest" by blast
    have v: "entry_of m dest = Some v" using Cons.prems(4) x e(1) by simp
    then have pv: "entry_of (pr_metadata ?p) dest = Some v" by simp
    from entry_of_replicas [OF v] obtain rs where rs: "replicas_of m = Some rs" by blast
    have step: "chain_safe d1 \<and> kept (\<lambda>s. \<not> claimable s) d d1 \<and> db_storages d1 = db_storages d \<and>
        (\<forall>j. j \<noteq> pr_id row \<longrightarrow> point_by_id d1 j = point_by_id d j) \<and>
        point_by_id d1 (pr_id row) = Some (row\<lparr>pr_metadata := put_entry m dest v'\<rparr>)"
      if d1: "d1 = snd (set_metadata (pr_id row) (put_entry m dest v') d)"
        and new: "is_incremental row \<Longrightarrow> entry_state v' \<in> set active_states \<Longrightarrow> parent_done d m dest" for v' d1
    proof -
      have "entry_state v \<noteq> ''SUCCESS''" using e(2) by (auto simp: claimable_def)
      then have "chain_safe (snd (set_metadata (pr_id row) (put_entry (pr_metadata ?p) dest v') d))"
        by (intro put_entry_safe [OF Cons.prems(1,2) pv]) (use new in \<open>auto simp: is_incremental_def\<close>)
      moreover have "kept (\<lambda>s. \<not> claimable s) d (snd (set_metadata (pr_id row) (put_entry (pr_metadata ?p) dest v') d))"
        by (rule put_entry_kept [OF Cons.prems(2) pv]) (use e(2) in simp)
      moreover have "point_by_id d1 j = point_by_id d j" if "j \<noteq> pr_id row" for j
        using that point_by_id_Some [of d j] by (cases "point_by_id d j") (auto simp: d1 point_by_id_set)
      moreover have "db_storages d1 = db_storages d" by (simp add: d1 set_metadata_run)
      ultimately show ?thesis using Cons.prems(2) by (simp add: d1 point_by_id_set)
    qed
    show ?thesis
    proof (cases "is_incremental row \<and> replica_parent_state d m dest \<noteq> Some ''SUCCESS''")
      case True
      define v' where "v' = blocked_entry stamp (replica_parent_state d m dest) v"
      define d1 where "d1 = snd (set_metadata (pr_id row) (put_entry m dest v') d)"
      have s: "chain_safe d1 \<and> kept (\<lambda>s. \<not> claimable s) d d1 \<and> db_storages d1 = db_storages d \<and>
        (\<forall>j. j \<noteq> pr_id row \<longrightarrow> point_by_id d1 j = point_by_id d j) \<and>
        point_by_id d1 (pr_id row) = Some (row\<lparr>pr_metadata := put_entry m dest v'\<rparr>)"
        by (rule step [OF d1_def]) (simp add: v'_def blocked_entry_state active_states_def)
      have rest: "claim_entries node stamp row (put_entry m dest v') es d1 = (r, d')"
        using Cons.prems(5) x e ssh True
        by (auto simp: op_run claimable_def v'_def d1_def andthen_def set_metadata_run Let_def)
      have es: "entry_of (put_entry m dest v') to = Some w" if "(to, JObj w) \<in> set es" for to w
      proof -
        have "to \<noteq> dest" using Cons.prems(3) x that by force
        with that Cons.prems(4) show ?thesis by (simp add: put_entry_simps [OF rs])
      qed
      have ih: "chain_safe d' \<and> kept (\<lambda>s. \<not> claimable s) d1 d' \<and> db_storages d' = db_storages d1 \<and>
        (\<forall>j. j \<noteq> pr_id row \<longrightarrow> point_by_id d' j = point_by_id d1 j) \<and>
        (\<forall>dest v. r = Inr (Some (dest, v)) \<longrightarrow> is_ssh d1 node dest \<and> entry_state v = ''TRANSFERRING'' \<and>
          (\<exists>m'. point_by_id d' (pr_id row) = Some (row\<lparr>pr_metadata := m'\<rparr>) \<and> entry_of m' dest = Some v))"
        by (rule Cons.IH [OF _ _ _ es rest]) (use s Cons.prems(3) in simp_all)
      have "is_ssh d1 node to = is_ssh d node to" for to using s by (simp add: is_ssh_def storage_at_def)
      with ih s show ?thesis by (auto intro: kept_trans)
    next
      case False
      have par: "is_incremental row \<Longrightarrow> parent_done d m dest" using False parent_done_state by blast
      show ?thesis
      proof (cases "py_int (dget_or v ''attempts'' (JInt 0))")
        case (Inl err)
        then have "d' = d" "r = Inl err"
          using Cons.prems(5) x e ssh False by (auto simp: op_run claimable_def)
        with Cons.prems(1) show ?thesis by simp
      next
        case (Inr n)
        define v' where "v' = claimed_entry stamp n v"
        have d': "d' = snd (set_metadata (pr_id row) (put_entry m dest v') d)" and r: "r = Inr (Some (dest, v'))"
          using Cons.prems(5) x e ssh False Inr
          by (auto simp: op_run claimable_def v'_def andthen_def set_metadata_run ret_def Let_def)
        have "chain_safe d' \<and> kept (\<lambda>s. \<not> claimable s) d d' \<and> db_storages d' = db_storages d \<and>
          (\<forall>j. j \<noteq> pr_id row \<longrightarrow> point_by_id d' j = point_by_id d j) \<and>
          point_by_id d' (pr_id row) = Some (row\<lparr>pr_metadata := put_entry m dest v'\<rparr>)"
          by (rule step [OF d' par])
        moreover have "entry_of (put_entry m dest v') dest = Some v'" by (simp add: put_entry_simps [OF rs])
        moreover have "entry_state v' = ''TRANSFERRING''" by (simp add: v'_def claimed_entry_state)
        ultimately show ?thesis using r ssh by blast
      qed
    qed
  qed
qed

lemma replicas_distinct:
  "chain_safe d \<Longrightarrow> point_by_id d i = Some p \<Longrightarrow> replicas_of (pr_metadata p) = Some r \<Longrightarrow> distinct (map fst r)"
  unfolding chain_safe_def using point_by_id_Some by blast

lemma claim_rows_spec:
  assumes "chain_safe d" and "distinct (map pr_id rows)"
    and "\<And>row. row \<in> set rows \<Longrightarrow> point_by_id d (pr_id row) = Some row"
    and "claim_rows node stamp rows d = (r, d')"
  shows "chain_safe d' \<and> kept (\<lambda>s. \<not> claimable s) d d' \<and> db_storages d' = db_storages d \<and>
    (\<forall>row dest v. r = Inr (Some (row, dest, v)) \<longrightarrow> row \<in> set rows \<and> is_ssh d node dest \<and>
       entry_state v = ''TRANSFERRING'' \<and>
       (\<exists>m. point_by_id d' (pr_id row) = Some (row\<lparr>pr_metadata := m\<rparr>) \<and> entry_of m dest = Some v))"
  using assms
proof (induction rows arbitrary: d)
  case Nil
  then show ?case by (auto simp: ret_def)
next
  case (Cons row rows)
  show ?case
  proof (cases "replicas_of (pr_metadata row)")
    case None
    then have "claim_rows node stamp rows d = (r, d')" using Cons.prems(4) by simp
    from Cons.IH [OF Cons.prems(1) _ _ this] Cons.prems(2,3) show ?thesis by simp
  next
    case (Some rs)
    have here: "point_by_id d (pr_id row) = Some (row\<lparr>pr_metadata := pr_metadata row\<rparr>)" using Cons.prems(3) by simp
    have dist: "distinct (map fst rs)" by (rule replicas_distinct [OF Cons.prems(1) here]) (simp add: Some)
    obtain q d1 where run: "claim_entries node stamp row (pr_metadata row) rs d = (q, d1)" by fastforce
    have es: "entry_of (pr_metadata row) dest = Some v" if "(dest, JObj v) \<in> set rs" for dest v
      using that dist Some by (simp add: entry_of_def map_of_eq_Some_iff)
    note spec = claim_entries_spec [OF Cons.prems(1) here dist es run]
    show ?thesis
    proof (cases "q = Inr None")
      case True
      with Cons.prems(4) Some run have rest: "claim_rows node stamp rows d1 = (r, d')" by (simp add: andthen_def)
      have others: "point_by_id d1 (pr_id x) = Some x" if "x \<in> set rows" for x
      proof -
        have "pr_id x \<noteq> pr_id row" using that Cons.prems(2) by (auto simp: rev_image_eqI)
        with spec Cons.prems(3) that show ?thesis by simp
      qed
      have "distinct (map pr_id rows)" using Cons.prems(2) by simp
      with Cons.IH [OF _ _ others rest] spec have ih: "chain_safe d' \<and> kept (\<lambda>s. \<not> claimable s) d1 d' \<and>
        db_storages d' = db_storages d1 \<and> (\<forall>row dest v. r = Inr (Some (row, dest, v)) \<longrightarrow> row \<in> set rows \<and>
        is_ssh d1 node dest \<and> entry_state v = ''TRANSFERRING'' \<and>
        (\<exists>m. point_by_id d' (pr_id row) = Some (row\<lparr>pr_metadata := m\<rparr>) \<and> entry_of m dest = Some v))" by blast
      have "is_ssh d1 node to = is_ssh d node to" for to using spec by (simp add: is_ssh_def storage_at_def)
      with ih spec show ?thesis by (auto intro: kept_trans)
    next
      case False
      then have "d' = d1" "\<And>w dest v. r = Inr (Some (w, dest, v)) \<Longrightarrow> w = row \<and> q = Inr (Some (dest, v))"
        using Cons.prems(4) Some run by (auto simp: andthen_def ret_def split: sum.splits option.splits prod.splits)
      with spec show ?thesis by fastforce
    qed
  qed
qed

lemma available_points_spec:
  assumes "chain_safe d"
  shows "distinct (map pr_id (available_points d node))"
    and "row \<in> set (available_points d node) \<Longrightarrow> point_by_id d (pr_id row) = Some row \<and> pr_status row = ''AVAILABLE''"
proof -
  have d: "distinct (map pr_id (db_points d))" using assms unfolding chain_safe_def by blast
  then have "distinct (map pr_id (filter (\<lambda>p. on_node d node (pr_run_id p) \<and> pr_status p = ''AVAILABLE'') (db_points d)))"
    by (simp add: distinct_map_filter)
  then show "distinct (map pr_id (available_points d node))" by (simp add: available_points_def distinct_map)
  show "row \<in> set (available_points d node) \<Longrightarrow> point_by_id d (pr_id row) = Some row \<and> pr_status row = ''AVAILABLE''"
    using point_by_id_in [OF d] by (simp add: available_points_def)
qed

lemma claim_next_replica_spec:
  assumes "chain_safe d" and "claim_next_replica te node stamp d = (r, d')"
  shows "chain_safe d' \<and> kept (\<lambda>s. \<not> claimable s) d d' \<and>
    (\<forall>c. r = Inr (Some c) \<longrightarrow> is_ssh d' node (cl_destination_id c) \<and>
       (\<exists>p v. point_by_id d' (cl_restore_point_id c) = Some p \<and> pr_status p = ''AVAILABLE'' \<and>
          entry_of (pr_metadata p) (cl_destination_id c) = Some v \<and> entry_state v = ''TRANSFERRING''))"
proof -
  obtain q d1 where run: "claim_rows node stamp (available_points d node) d = (q, d1)" by fastforce
  have spec: "chain_safe d1 \<and> kept (\<lambda>s. \<not> claimable s) d d1 \<and> db_storages d1 = db_storages d \<and>
    (\<forall>row dest v. q = Inr (Some (row, dest, v)) \<longrightarrow> row \<in> set (available_points d node) \<and> is_ssh d node dest \<and>
       entry_state v = ''TRANSFERRING'' \<and>
       (\<exists>m. point_by_id d1 (pr_id row) = Some (row\<lparr>pr_metadata := m\<rparr>) \<and> entry_of m dest = Some v))"
    by (rule claim_rows_spec [OF assms(1) available_points_spec(1) [OF assms(1)] _ run])
      (use available_points_spec(2) [OF assms(1)] in blast)
  show ?thesis
  proof (cases q)
    case (Inl e)
    with assms run show ?thesis by (auto simp: claim_next_replica_def atomically_def op_defs)
  next
    case (Inr found)
    show ?thesis
    proof (cases found)
      case None
      with assms run Inr spec show ?thesis by (auto simp: claim_next_replica_def atomically_def op_defs)
    next
      case (Some x)
      obtain row dest v where x: "x = (row, dest, v)" by (cases x)
      from assms(2) run Inr Some x have d': "d' = d1"
        and r: "r = bnd (claim_of te stamp (row, dest, v)) (\<lambda>c. Inr (Some c))"
        by (auto simp: claim_next_replica_def atomically_def op_defs)
      from spec Inr Some x obtain m where m: "row \<in> set (available_points d node)" "is_ssh d node dest"
        "entry_state v = ''TRANSFERRING''" "point_by_id d1 (pr_id row) = Some (row\<lparr>pr_metadata := m\<rparr>)"
        "entry_of m dest = Some v" by blast
      have "is_ssh d' node dest" using m(2) spec d' by (simp add: is_ssh_def storage_at_def)
      moreover have "cl_restore_point_id c = pr_id row \<and> cl_destination_id c = dest" if "r = Inr (Some c)" for c
        using that r by (auto simp: claim_of_def bnd_eq_Inr Let_def)
      ultimately show ?thesis using spec d' m available_points_spec(2) [OF assms(1) m(1)] by fastforce
    qed
  qed
qed


section \<open>Retries and updates\<close>

definition in_progress :: "string \<Rightarrow> bool" where
  "in_progress s \<longleftrightarrow> s \<in> {''SUCCESS'', ''TRANSFERRING'', ''VERIFYING''}"

lemma retry_entry_state: "entry_state (retry_entry task stamp v) = ''PENDING''"
proof -
  have "map upper_char ''PENDING'' = ''PENDING''" by code_simp
  then show ?thesis by (simp add: retry_entry_def)
qed

lemma retry_rows_spec:
  assumes "chain_safe d" and "distinct (map pr_id rows)"
    and "\<And>row. row \<in> set rows \<Longrightarrow> point_by_id d (pr_id row) = Some row"
    and "retry_rows fresh dest stamp rows acc d = (r, d')"
  shows "chain_safe d' \<and> kept in_progress d d' \<and>
    (\<exists>ids. r = Inr (acc @ ids) \<and> set ids \<subseteq> pr_id ` set rows)"
  using assms
proof (induction rows arbitrary: d acc)
  case Nil
  then show ?case by (auto simp: ret_def)
next
  case (Cons row rows)
  have dist: "distinct (map pr_id rows)" "pr_id row \<notin> pr_id ` set rows" using Cons.prems(2) by simp_all
  have here: "point_by_id d (pr_id row) = Some row" using Cons.prems(3) by simp
  show ?case
  proof (cases "\<exists>v. entry_of (pr_metadata row) dest = Some v \<and> \<not> in_progress (entry_state v)")
    case False
    then have "retry_rows fresh dest stamp rows acc d = (r, d')"
      using Cons.prems(4) by (auto simp: op_run in_progress_def split: option.splits if_splits)
    from Cons.IH [OF Cons.prems(1) dist(1) _ this] Cons.prems(3) show ?thesis by (auto simp: image_iff)
  next
    case True
    then obtain v where v: "entry_of (pr_metadata row) dest = Some v" "\<not> in_progress (entry_state v)" by blast
    define v' where "v' = retry_entry (fresh d) stamp v"
    define d1 where "d1 = snd (set_metadata (pr_id row) (put_entry (pr_metadata row) dest v') d)"
    have rest: "retry_rows fresh dest stamp rows (acc @ [pr_id row]) d1 = (r, d')"
      using Cons.prems(4) v by (auto simp: op_run in_progress_def v'_def d1_def andthen_def set_metadata_run)
    have safe: "chain_safe d1"
      unfolding d1_def using v(2)
      by (intro put_entry_safe [OF Cons.prems(1) here v(1)])
        (auto simp: v'_def retry_entry_state active_states_def in_progress_def)
    have others: "point_by_id d1 (pr_id x) = Some x" if "x \<in> set rows" for x
    proof -
      have "pr_id x \<noteq> pr_id row" using that dist(2) by (auto simp: rev_image_eqI)
      with Cons.prems(3) that show ?thesis by (simp add: d1_def point_by_id_set)
    qed
    have "kept in_progress d d1" unfolding d1_def by (rule put_entry_kept [OF here v(1)]) (rule v(2))
    moreover have "chain_safe d' \<and> kept in_progress d1 d' \<and>
      (\<exists>ids. r = Inr ((acc @ [pr_id row]) @ ids) \<and> set ids \<subseteq> pr_id ` set rows)"
      by (rule Cons.IH [OF safe dist(1) others rest])
    ultimately show ?thesis by (auto intro: kept_trans intro!: exI [of _ "pr_id row # _"])
  qed
qed

lemma retry_replica_chain_spec:
  assumes "chain_safe d" and "retry_replica_chain te fresh point_id dest stamp d = (r, d')"
  shows "chain_safe d' \<and> kept in_progress d d'"
proof (cases "get_restore_point te d point_id")
  case (Inr found)
  show ?thesis
  proof (cases found)
    case (Some p)
    show ?thesis
    proof (cases "retry_root te d (map pr_id (db_points d)) p (po_id p)")
      case root: (Inr root_id)
      let ?rows = "sort_key (\<lambda>q. (pr_created_at q, pr_id q)) (filter (\<lambda>q. pr_id q \<in> set (descendants d root_id)) (db_points d))"
      have d: "distinct (map pr_id (db_points d))" using assms(1) unfolding chain_safe_def by blast
      then have "distinct (map pr_id (filter (\<lambda>q. pr_id q \<in> set (descendants d root_id)) (db_points d)))"
        by (simp add: distinct_map_filter)
      then have dist: "distinct (map pr_id ?rows)" by (simp add: distinct_map)
      have sync: "point_by_id d (pr_id row) = Some row" if "row \<in> set ?rows" for row
        using point_by_id_in [OF d] that by simp
      obtain q d1 where run: "retry_rows fresh dest stamp ?rows [] d = (q, d1)" by fastforce
      from retry_rows_spec [OF assms(1) dist sync run] have spec: "chain_safe d1" "kept in_progress d d1" by blast+
      have "d' = d \<or> d' = d1"
        using assms(2) Inr Some root run
        by (auto simp: retry_replica_chain_def op_run Let_def andthen_def atomically_def ret_def
            split: if_splits sum.splits)
      with spec assms(1) show ?thesis by auto
    qed (use assms Inr Some in \<open>simp add: retry_replica_chain_def op_run\<close>)
  qed (use assms Inr in \<open>simp add: retry_replica_chain_def op_run\<close>)
qed (use assms in \<open>simp add: retry_replica_chain_def op_run\<close>)

section \<open>One pass of the executor\<close>

text \<open>The entry that is being sent.\<close>

definition sending :: "string \<Rightarrow> string \<Rightarrow> db \<Rightarrow> bool" where
  "sending i dest d \<longleftrightarrow> chain_safe d \<and>
     (\<exists>p v. point_by_id d i = Some p \<and> entry_of (pr_metadata p) dest = Some v \<and>
        entry_state v \<in> {''TRANSFERRING'', ''VERIFYING''})"

lemma change_entry_run:
  assumes "point_by_id d i = Some p" and "entry_of (pr_metadata p) dest = Some v"
  shows "change_entry i dest f d = (Inr (f v), snd (set_metadata i (put_entry (pr_metadata p) dest (f v)) d))"
  using assms by (simp add: change_entry_def reading_def andthen_def ret_def set_metadata_run)

lemma change_entry_settles:
  assumes "sending i dest d" and "\<And>v. entry_state (f v) \<in> set (''FAILED'' # active_states)"
  shows "\<exists>v d'. change_entry i dest f d = (Inr v, d') \<and> chain_safe d' \<and> (\<exists>w. v = f w) \<and>
    (\<exists>p. point_by_id d' i = Some p \<and> entry_of (pr_metadata p) dest = Some v)"
proof -
  from assms(1) obtain p v where p: "point_by_id d i = Some p" and e: "entry_of (pr_metadata p) dest = Some v"
    and act: "entry_state v \<in> {''TRANSFERRING'', ''VERIFYING''}" and safe: "chain_safe d"
    unfolding sending_def by blast
  from entry_of_replicas [OF e] obtain r where r: "replicas_of (pr_metadata p) = Some r" by blast
  have par: "is_incremental p \<Longrightarrow> parent_done d (pr_metadata p) dest"
    using chain_safeD [OF safe _ _ e] point_by_id_Some [OF p] act by (auto simp: active_states_def)
  have "chain_safe (snd (set_metadata i (put_entry (pr_metadata p) dest (f v)) d))"
    by (rule put_entry_safe [OF safe p e]) (use act par in auto)
  moreover have "\<exists>q. point_by_id (snd (set_metadata i (put_entry (pr_metadata p) dest (f v)) d)) i = Some q \<and>
      entry_of (pr_metadata q) dest = Some (f v)"
    using p point_by_id_Some [OF p] by (simp add: point_by_id_set put_entry_simps [OF r])
  ultimately show ?thesis using change_entry_run [OF p e] by blast
qed

lemma keeps_sending_change:
  assumes "\<And>v. entry_state v \<in> {''TRANSFERRING'', ''VERIFYING''} \<Longrightarrow> entry_state (f v) \<in> {''TRANSFERRING'', ''VERIFYING''}"
  shows "keeps (sending i dest) (change_entry i dest f)"
  unfolding keeps_def
proof (intro allI impI)
  fix d assume s: "sending i dest d"
  from s obtain p v where p: "point_by_id d i = Some p" and e: "entry_of (pr_metadata p) dest = Some v"
    and act: "entry_state v \<in> {''TRANSFERRING'', ''VERIFYING''}" and safe: "chain_safe d"
    unfolding sending_def by blast
  from entry_of_replicas [OF e] obtain r where r: "replicas_of (pr_metadata p) = Some r" by blast
  have par: "is_incremental p \<Longrightarrow> parent_done d (pr_metadata p) dest"
    using chain_safeD [OF safe _ _ e] point_by_id_Some [OF p] act by (auto simp: active_states_def)
  have "chain_safe (snd (set_metadata i (put_entry (pr_metadata p) dest (f v)) d))"
    by (rule put_entry_safe [OF safe p e]) (use act par in auto)
  then show "sending i dest (snd (change_entry i dest f d))"
    using p point_by_id_Some [OF p] assms [OF act]
    by (simp add: change_entry_run [OF p e] sending_def point_by_id_set put_entry_simps [OF r])
qed

lemma keeps_sending_updates [keeps_intros]:
  "keeps (sending i dest) (update_transfer_plan i dest mode sb nb seed stamp)"
  "keeps (sending i dest) (update_progress i dest pb nb stamp)"
  "keeps (sending i dest) (update_replica i dest ''VERIFYING'' stamp err None None)"
proof -
  show "keeps (sending i dest) (update_transfer_plan i dest mode sb nb seed stamp)"
    unfolding update_transfer_plan_def by (rule keeps_sending_change) simp
  show "keeps (sending i dest) (update_progress i dest pb nb stamp)"
    unfolding update_progress_def by (rule keeps_sending_change) simp
  show "keeps (sending i dest) (update_replica i dest ''VERIFYING'' stamp err None None)"
    unfolding update_replica_def by (rule keeps_sending_change) (simp add: replica_change_def dset_some_def upper_char_def)
qed

lemma keeps_sending_callbacks [keeps_intros]:
  "keeps (sending (po_id point) (st_id dest)) (run_callbacks clock point dest sb cs nb processed)"
  by (induction clock point dest sb cs nb processed rule: run_callbacks.induct)
    (auto simp: Let_def intro!: keeps_intros)

lemma get_restore_point_id: "get_restore_point te d i = Inr (Some p) \<Longrightarrow> po_id p = i"
  by (auto simp: get_restore_point_def compact_point_def bnd_eq_Inr Let_def point_by_id_def find_Some_iff
      split: option.splits if_splits)

lemma get_storage_id: "get_storage_destination d node i = Inr s \<Longrightarrow> st_id s = i"
  by (auto elim!: get_storage_Inr dest!: storage_record_default storage_at_Some)

lemma replica_context_ids:
  assumes "replica_context te d node w = Inr (point, vm, destination)"
  shows "po_id point = cl_restore_point_id w \<and> st_id destination = cl_destination_id w"
proof -
  from assms obtain found where f: "get_restore_point te d (cl_restore_point_id w) = Inr (Some found)"
    and rest: "point_context te d node w found = Inr (point, vm, destination)"
    by (auto simp: replica_context_def bnd_eq_Inr split: option.splits)
  from rest have "point = found \<and> get_storage_destination d node (cl_destination_id w) = Inr destination"
    by (auto simp: point_context_def bnd_eq_Inr Let_def split: if_splits)
  with get_restore_point_id [OF f] get_storage_id show ?thesis by blast
qed

definition safe_remote :: "string \<Rightarrow> bool" where
  "safe_remote i \<longleftrightarrow> i \<noteq> [] \<and> \<not> prefix ''/'' i \<and> ''..'' \<notin> set (path_parts i)"

lemma transfer_replica_sending:
  "keeps (sending (po_id point) (st_id destination)) (transfer_replica cl clock w point vm destination)"
  unfolding transfer_replica_def Let_def case_prod_unfold by (intro keeps_intros)

lemma transfer_replica_remote: "gives (transfer_replica cl clock w point vm destination) safe_remote"
proof -
  have "gives (lift (validate_publish_receipt t point destination p)) safe_remote" for t p
    by (auto simp: gives_def lift_def validate_publish_receipt_def safe_remote_def runtime_error_def split: json.splits if_splits)
  then show ?thesis unfolding transfer_replica_def Let_def case_prod_unfold by (intro gives_andthen)
qed

lemma stage_replica_sending:
  assumes s: "sending (cl_restore_point_id w) (cl_destination_id w) d"
    and run: "stage_replica te cl clock node w d = (r, d')"
  shows "sending (cl_restore_point_id w) (cl_destination_id w) d' \<and>
    (\<forall>point destination remote. r = Inr (point, destination, remote) \<longrightarrow>
       po_id point = cl_restore_point_id w \<and> st_id destination = cl_destination_id w \<and> safe_remote remote)"
proof (cases "replica_context te d node w")
  case (Inl e)
  with s run show ?thesis by (auto simp: stage_replica_def op_run)
next
  case (Inr x)
  obtain point vm destination where x: "x = (point, vm, destination)" by (cases x)
  note ids = replica_context_ids [OF Inr [unfolded x]]
  obtain q d1 where t: "transfer_replica cl clock w point vm destination d = (q, d1)" by fastforce
  have "sending (po_id point) (st_id destination) d1"
    by (rule keepsD [OF transfer_replica_sending _ t]) (simp add: s ids)
  moreover have "q = Inr remote \<Longrightarrow> safe_remote remote" for remote
    using givesD [OF transfer_replica_remote] t by blast
  ultimately show ?thesis
    using run Inr x t ids by (auto simp: stage_replica_def op_run andthen_def ret_def split: sum.splits)
qed

lemma replica_pass_spec:
  assumes "chain_safe d" and "claim_next_replica te node (clock d) d = (Inr (Some w), d1)"
    and "py_int (cl_attempts w) = Inr n" and "0 \<le> n"
  shows "\<exists>v d' p. run_replica_once te cl clock node d = (Inr (Some v), d') \<and> chain_safe d' \<and>
    point_by_id d' (cl_restore_point_id w) = Some p \<and> entry_of (pr_metadata p) (cl_destination_id w) = Some v \<and>
    (entry_state v = ''FAILED'' \<or>
     entry_state v = ''SUCCESS'' \<and>
     (\<exists>i. dget_or v ''remote_bundle_object_id'' JNull = JStr i \<and> safe_remote i))"
proof -
  let ?i = "cl_restore_point_id w" and ?dest = "cl_destination_id w"
  have s1: "sending ?i ?dest d1"
    using claim_next_replica_spec [OF assms(1,2)] unfolding sending_def by blast
  obtain r d2 where stage: "stage_replica te cl clock node w d1 = (r, d2)" by fastforce
  note st = stage_replica_sending [OF s1 stage]
  have run: "run_replica_once te cl clock node d =
      (case send_replica te cl clock node w d1 of
         (Inr v, d2) \<Rightarrow> (Inr (Some v), d2)
       | (Inl e, d2) \<Rightarrow> andthen (update_replica ?i ?dest ''FAILED'' (clock d2) (JStr ''transfer failed'') None None)
           (\<lambda>v. ret (Some v)) d2)"
    using assms(2-4) by (simp add: run_replica_once_def op_run andthen_def [of "claim_next_replica _ _ _"])
  show ?thesis
  proof (cases r)
    case (Inl e)
    then have send: "send_replica te cl clock node w d1 = (Inl e, d2)" by (simp add: send_replica_def andthen_def stage)
    let ?f = "replica_change ''FAILED'' (clock d2) (JStr ''transfer failed'') None None"
    have f: "entry_state (?f v) = ''FAILED''" for v by (simp add: replica_change_def dset_some_def upper_char_def)
    then obtain v d3 where "change_entry ?i ?dest ?f d2 = (Inr v, d3)" "chain_safe d3" "entry_state v = ''FAILED''"
      "\<exists>p. point_by_id d3 ?i = Some p \<and> entry_of (pr_metadata p) ?dest = Some v"
      using change_entry_settles [OF st [THEN conjunct1], of ?f] by auto
    with send run show ?thesis by (auto simp: update_replica_def andthen_def ret_def)
  next
    case (Inr x)
    obtain point destination remote where x: "x = (point, destination, remote)" by (cases x)
    note ids = st [THEN conjunct2, rule_format, OF Inr [unfolded x]]
    let ?f = "replica_change ''SUCCESS'' (clock d2) JNull (Some (JStr remote)) (Some (JStr (clock d2)))"
    have f: "entry_state (?f v) = ''SUCCESS''" "dget_or (?f v) ''remote_bundle_object_id'' JNull = JStr remote" for v
      by (simp_all add: replica_change_def dset_some_def upper_char_def)
    then obtain v d3 where c: "change_entry ?i ?dest ?f d2 = (Inr v, d3)" "chain_safe d3" "entry_state v = ''SUCCESS''"
      "dget_or v ''remote_bundle_object_id'' JNull = JStr remote"
      "\<exists>p. point_by_id d3 ?i = Some p \<and> entry_of (pr_metadata p) ?dest = Some v"
      using change_entry_settles [OF st [THEN conjunct1], of ?f] by (auto simp: active_states_def)
    have "send_replica te cl clock node w d1 = (Inr v, d3)"
      using stage Inr x ids c(1) by (simp add: send_replica_def andthen_def reading_def update_replica_def)
    with run c ids show ?thesis by auto
  qed
qed

text \<open>C25: one pass of the executor settles the entry it claimed: unless the claim itself raises
  or the stored attempt count is negative, the call returns, the entry ends SUCCESS or FAILED
  (never TRANSFERRING or VERIFYING), and a successful entry names a remote object that is
  relative and has no parent component; the invariant of the chains is preserved.\<close>

theorem replica_pass_settles:
  assumes "chain_safe d" and "claim_next_replica te node (clock d) d = (Inr (Some w), d1)"
    and "py_int (cl_attempts w) = Inr n" and "0 \<le> n"
  shows "\<exists>v d' p. run_replica_once te cl clock node d = (Inr (Some v), d') \<and> chain_safe d' \<and>
    point_by_id d' (cl_restore_point_id w) = Some p \<and> entry_of (pr_metadata p) (cl_destination_id w) = Some v \<and>
    (entry_state v = ''FAILED'' \<or>
     entry_state v = ''SUCCESS'' \<and>
     (\<exists>i. dget_or v ''remote_bundle_object_id'' JNull = JStr i \<and> safe_remote i))"
  using assms by (rule replica_pass_spec)

section \<open>Publishing and deleting restore points\<close>

text \<open>
  \<open>_compact_artifact\<close> followed by \<open>_artifact_metadata\<close>: the object is rebuilt from its
  known keys, the stored verification time in the form that \<open>isoformat\<close> writes.
\<close>

definition artifact_kind_of :: "string \<Rightarrow> artifact_kind result" where
  "artifact_kind_of s =
     (if s = ''DISK'' then Inr DISK else if s = ''DOMAIN_XML'' then Inr DOMAIN_XML
      else if s = ''MANIFEST'' then Inr MANIFEST else Inl (ValueError ''not a valid ArtifactKind''))"

definition artifact_states :: "string list" where
  "artifact_states = [''PLANNED'', ''WRITING'', ''COMPLETE'', ''VERIFIED'', ''PUBLISHED'']"

definition check_artifact :: "artifact_kind \<Rightarrow> dict \<Rightarrow> unit result" where
  "check_artifact kind m =
     (let target = dget_or m ''disk_target'' JNull;
          below = (\<lambda>k n. (case dget_or m k JNull of JInt i \<Rightarrow> i < n | _ \<Rightarrow> False))
      in if kind = DISK \<and> \<not> truthy target then Inl (ValueError ''DISK artifact requires disk_target'')
         else if kind \<noteq> DISK \<and> target \<noteq> JNull
         then Inl (ValueError ''non-DISK artifact cannot have disk_target'')
         else if below ''size_bytes'' 0 then Inl (ValueError ''artifact size_bytes must be non-negative'')
         else if below ''planned_capacity'' 1
         then Inl (ValueError ''artifact planned_capacity must be positive'')
         else Inr ())"

definition artifact_fields :: "text_env \<Rightarrow> artifact_row \<Rightarrow> dict result" where
  "artifact_fields te a =
     (let m = ar_metadata a in
      bnd (artifact_kind_of (ar_kind a)) (\<lambda>kind.
      bnd (dindex m ''object_id'') (\<lambda>object_id.
      let state = dget_or m ''state'' (JStr ''PLANNED'') in
      if enum_text state \<notin> set artifact_states then Inl (ValueError ''not a valid ArtifactState'')
      else
        bnd (te_from_iso te (ar_created_at a)) (\<lambda>_.
        bnd (read_time te (dget_or m ''verified_at'' JNull)) (\<lambda>verified.
        bnd (check_artifact kind m) (\<lambda>_.
        Inr ((''object_id'', object_id) #
             map (\<lambda>k. (k, dget_or m k JNull)) [''published_object_id''] @ [(''state'', state)] @
             map (\<lambda>k. (k, dget_or m k JNull)) [''disk_target'', ''format'', ''size_bytes'',
               ''planned_capacity'', ''prepared_device'', ''prepared_inode''] @
             [(''verified_at'', next_run_json te verified)])))))))"

definition set_artifact :: "string \<Rightarrow> dict \<Rightarrow> unit dbop" where
  "set_artifact i m = update (\<lambda>d. d\<lparr>db_artifacts :=
     map (\<lambda>a. if ar_id a = i then a\<lparr>ar_metadata := m\<rparr> else a) (db_artifacts d)\<rparr>)"

text \<open>\<open>published\<close> maps artifacts to paths, \<open>size_of\<close> is the \<open>st_size\<close> of a path.\<close>

definition publish_artifact ::
  "(string \<Rightarrow> string option) \<Rightarrow> (string \<Rightarrow> int result) \<Rightarrow> string \<Rightarrow> string \<times> dict \<Rightarrow> unit dbop" where
  "publish_artifact published size_of stamp = (\<lambda>(i, fields).
     (case published i of
        None \<Rightarrow> raise (DomainInvariantError ''ARTIFACT_PUBLICATION_INCOMPLETE'')
      | Some path \<Rightarrow>
          if path = [] then raise (DomainInvariantError ''ARTIFACT_PUBLICATION_INCOMPLETE'')
          else andthen (lift (size_of path)) (\<lambda>size.
            set_artifact i (dset (dset (dset (dset fields ''published_object_id'' (JStr path))
              ''state'' (JStr ''PUBLISHED'')) ''size_bytes'' (JInt size)) ''verified_at'' (JStr stamp)))))"

definition list_artifacts :: "text_env \<Rightarrow> db \<Rightarrow> string \<Rightarrow> (string \<times> dict) list result" where
  "list_artifacts te d run_id =
     map_result (\<lambda>a. bnd (artifact_fields te a) (\<lambda>m. Inr (ar_id a, m)))
       (sort_key (\<lambda>a. (ar_created_at a, ar_id a)) (filter (\<lambda>a. ar_run_id a = run_id) (db_artifacts d)))"

definition new_entry :: "string \<Rightarrow> string \<Rightarrow> dict" where
  "new_entry task stamp =
     [(''task_id'', JStr task), (''state'', JStr ''PENDING''), (''attempts'', JInt 0), (''last_error'', JNull),
      (''remote_bundle_object_id'', JNull), (''created_at'', JStr stamp), (''updated_at'', JStr stamp),
      (''verified_at'', JNull)]"

fun new_replicas ::
  "text_env \<Rightarrow> db \<Rightarrow> (string \<Rightarrow> string) \<Rightarrow> string \<Rightarrow> job \<Rightarrow> string list \<Rightarrow> dict result" where
  "new_replicas te d fresh stamp v [] = Inr []"
| "new_replicas te d fresh stamp v (i # ids) =
     bnd (vm_by_id d (jb_vm_id v)) (\<lambda>vm.
     bnd (get_storage_destination d (vr_node_id vm) i) (\<lambda>s.
     bnd (new_replicas te d fresh stamp v ids) (\<lambda>rest.
     Inr (if st_type s \<noteq> SSH then rest else (i, JObj (new_entry (fresh i) stamp)) # rest))))"

definition insert_point :: "point_row \<Rightarrow> unit dbop" where
  "insert_point p = reading (\<lambda>d. if pr_id p \<in> set (map pr_id (db_points d)) then raise OtherException
     else update (\<lambda>d. d\<lparr>db_points := db_points d @ [p]\<rparr>))"

definition finish_run :: "string \<Rightarrow> string \<Rightarrow> string \<Rightarrow> string \<Rightarrow> unit dbop" where
  "finish_run run_id point_id bundle stamp =
     reading (\<lambda>d. andthen (lift (run_context d run_id)) (\<lambda>c.
       update (\<lambda>d. d\<lparr>db_runs := map (\<lambda>row. if rr_id row = run_id
         then row\<lparr>rr_state := ''SUCCESS'', rr_updated_at := stamp,
                  rr_context := dset (dset c ''restore_point_id'' (JStr point_id)) ''bundle_object_id'' (JStr bundle)\<rparr>
         else row) (db_runs d)\<rparr>)))"

definition store_point :: "text_env \<Rightarrow> db \<Rightarrow> (string \<Rightarrow> string) \<Rightarrow> string \<Rightarrow> string \<Rightarrow> string \<Rightarrow> string \<Rightarrow> string \<Rightarrow> dict \<Rightarrow> unit dbop" where
  "store_point te d fresh stamp job_id run_id point_id bundle restore_metadata =
     andthen (lift (job_replica_ids d job_id)) (\<lambda>ids.
     andthen (lift (if ids = [] then Inr [] else
         bnd (get_job te d job_id) (\<lambda>v. new_replicas te d fresh stamp v ids))) (\<lambda>replicas.
     let m = dset (dset restore_metadata ''bundle_object_id'' (JStr bundle)) ''replicas'' (JObj replicas) in
     insert_point \<lparr>pr_id = point_id, pr_run_id = run_id,
       pr_kind = enum_text (dget_or m ''backup_kind'' (JStr ''FULL'')), pr_status = ''AVAILABLE'',
       pr_metadata = m, pr_created_at = stamp\<rparr>))"

definition publish_backup ::
  "text_env \<Rightarrow> db \<Rightarrow> (string \<Rightarrow> string) \<Rightarrow> (string \<Rightarrow> int result) \<Rightarrow> string \<Rightarrow> string \<Rightarrow> string \<Rightarrow> string \<Rightarrow> string \<Rightarrow> dict \<Rightarrow>
   (string \<Rightarrow> string option) \<Rightarrow> unit dbop" where
  "publish_backup te d fresh size_of stamp job_id run_id point_id bundle restore_metadata published =
     andthen (lift (list_artifacts te d run_id)) (\<lambda>artifacts.
     andthen (each (publish_artifact published size_of stamp) artifacts) (\<lambda>_.
     andthen (store_point te d fresh stamp job_id run_id point_id bundle restore_metadata) (\<lambda>_.
     finish_run run_id point_id bundle stamp)))"

definition finalize_local_backup ::
  "text_env \<Rightarrow> (string \<Rightarrow> string) \<Rightarrow> (string \<Rightarrow> int result) \<Rightarrow> string \<Rightarrow> string \<Rightarrow> string \<Rightarrow> string \<Rightarrow> dict \<Rightarrow>
   (string \<Rightarrow> string option) \<Rightarrow> run dbop" where
  "finalize_local_backup te fresh size_of stamp run_id point_id bundle restore_metadata published =
     reading (\<lambda>d. andthen (lift (get_run te d run_id)) (\<lambda>r.
       if ru_state r \<noteq> Run_FINALIZING then raise (DomainInvariantError ''RUN_NOT_FINALIZING'')
       else
         andthen (atomically (publish_backup te d fresh size_of stamp (ru_job_id r) run_id point_id bundle
             restore_metadata published)) (\<lambda>_.
         reading (\<lambda>d'. lift (get_run te d' run_id)))))"

definition delete_restore_point_catalog :: "string \<Rightarrow> string \<Rightarrow> bool dbop" where
  "delete_restore_point_catalog point_id run_id =
     reading (\<lambda>d. case point_by_id d point_id of
       None \<Rightarrow> ret False
     | Some p \<Rightarrow>
         (if pr_run_id p \<noteq> run_id \<or> pr_status p \<noteq> ''AVAILABLE''
          then raise (DomainInvariantError ''RESTORE_POINT_NOT_RECLAIMABLE'')
          else andthen (update (\<lambda>d. d\<lparr>db_artifacts := filter (\<lambda>a. ar_run_id a \<noteq> run_id) (db_artifacts d),
                 db_points := filter (\<lambda>p. pr_id p \<noteq> point_id) (db_points d)\<rparr>)) (\<lambda>_. ret True)))"

lemma new_replicas_keys:
  "new_replicas te d fresh stamp v ids = Inr r \<Longrightarrow> set (map fst r) \<subseteq> set ids \<and> (distinct ids \<longrightarrow> distinct (map fst r)) \<and>
     (\<forall>dest e. (dest, JObj e) \<in> set r \<longrightarrow> entry_state e = ''PENDING'')"
proof (induction ids arbitrary: r)
  case (Cons i ids)
  have p: "entry_state (new_entry t s) = ''PENDING''" for t s
    by (simp add: state_or_def new_entry_def dget_or_def enum_text_def upper_char_def)
  from Cons.prems obtain s :: storage and rest where "new_replicas te d fresh stamp v ids = Inr rest"
    and "r = (if st_type s \<noteq> SSH then rest else (i, JObj (new_entry (fresh i) stamp)) # rest)"
    unfolding new_replicas.simps bnd_eq_Inr by blast
  with Cons.IH [of rest] p show ?case by (auto split: if_splits)
qed simp

lemma replica_ids_distinct: "job_replica_ids d i = Inr ids \<Longrightarrow> distinct ids"
proof -
  assume "job_replica_ids d i = Inr ids"
  then obtain row :: job_row where "replica_ids (jo_policy row) = Inr ids" unfolding job_replica_ids_def bnd_eq_Inr by blast
  then show ?thesis
    by (cases "dget_or (jo_policy row) ''replica_destination_ids'' (JList [])")
      (auto simp: replica_ids_def split: if_splits)
qed

text \<open>Neither the other tables nor new points without started replicas affect the invariant.\<close>

lemma chain_safe_points: "db_points d' = db_points d \<Longrightarrow> chain_safe d' = chain_safe d"
proof -
  assume "db_points d' = db_points d"
  then have "point_by_id d' = point_by_id d" by (simp add: point_by_id_def fun_eq_iff)
  then have "parent_done d' m dest = parent_done d m dest" for m dest by (simp only: parent_done_def)
  with \<open>db_points d' = db_points d\<close> show ?thesis by (simp add: chain_safe_def)
qed

lemma chain_safe_insert:
  assumes safe: "chain_safe d" and pts: "db_points d' = db_points d @ [p]"
    and new: "pr_id p \<notin> set (map pr_id (db_points d))"
    and fresh: "\<And>q. q \<in> set (db_points d) \<Longrightarrow> parent_id (pr_metadata q) \<noteq> Some (pr_id p)"
    and rs: "replicas_of (pr_metadata p) = Some r" "distinct (map fst r)"
    and pending: "\<And>dest v. entry_of (pr_metadata p) dest = Some v \<Longrightarrow> entry_state v = ''PENDING''"
  shows "chain_safe d'"
proof -
  have look: "point_by_id d' j = point_by_id d j" if "j \<noteq> pr_id p" for j
  proof -
    have "find (\<lambda>q. pr_id q = j) (ps @ [p]) = find (\<lambda>q. pr_id q = j) ps" for ps
      using that by (induction ps) auto
    then show ?thesis by (simp add: point_by_id_def pts)
  qed
  have "parent_done d' (pr_metadata q) dest" if "q \<in> set (db_points d)" "parent_done d (pr_metadata q) dest" for q dest
    using that fresh [OF that(1)] look by (auto simp: parent_done_def split: option.splits)
  then have "parent_done d' (pr_metadata q) dest"
    if "q \<in> set (db_points d')" "is_incremental q" "entry_of (pr_metadata q) dest = Some v"
      "entry_state v \<in> set active_states" for q dest v
    using that chain_safeD [OF safe _ that(2-4)] pending by (auto simp: pts active_states_def)
  moreover have "distinct (map fst r')" if "q \<in> set (db_points d')" "replicas_of (pr_metadata q) = Some r'" for q r'
    using that safe rs unfolding pts chain_safe_def by auto
  moreover have "distinct (map pr_id (db_points d'))" using safe new unfolding pts chain_safe_def by simp
  ultimately show ?thesis unfolding chain_safe_def by metis
qed

lemma delete_point_safe:
  assumes "chain_safe d"
  shows "chain_safe (snd (delete_restore_point_catalog i run_id d))"
proof -
  let ?d = "d\<lparr>db_artifacts := filter (\<lambda>a. ar_run_id a \<noteq> run_id) (db_artifacts d),
                 db_points := filter (\<lambda>p. pr_id p \<noteq> i) (db_points d)\<rparr>"
  have find: "find (\<lambda>q. pr_id q = j) (filter (\<lambda>p. pr_id p \<noteq> i) ps) = (if j = i then None else find (\<lambda>q. pr_id q = j) ps)" for j ps
    by (induction ps) auto
  have look: "point_by_id ?d j = (if j = i then None else point_by_id d j)" for j
    by (simp add: point_by_id_def find)
  have "parent_done ?d m dest" if "parent_done d m dest" for m dest
    using that by (auto simp: parent_done_def look split: option.splits)
  then have "chain_safe ?d"
    using assms unfolding chain_safe_def by (auto simp: distinct_map_filter)
  then show ?thesis using assms
    by (auto simp: delete_restore_point_catalog_def op_run split: option.split)
qed

lemma chain_safe_other_tables [simp]:
  "chain_safe (d\<lparr>db_artifacts := a\<rparr>) = chain_safe d" "chain_safe (d\<lparr>db_runs := r\<rparr>) = chain_safe d"
  by (rule chain_safe_points; simp)+

text \<open>The identifier of the new point is fresh: no stored point names it as its parent.\<close>

definition unborn :: "string \<Rightarrow> db \<Rightarrow> bool" where
  "unborn i d \<longleftrightarrow> chain_safe d \<and> (\<forall>q \<in> set (db_points d). parent_id (pr_metadata q) \<noteq> Some i)"

lemma keeps_unborn_artifacts: "keeps (unborn i) (publish_artifact published size_of stamp x)"
proof -
  have "keeps (unborn i) (set_artifact j m)" for j m
    unfolding set_artifact_def by (rule keeps_update) (simp add: unborn_def)
  then show ?thesis unfolding publish_artifact_def case_prod_unfold by (intro keeps_intros)
qed

lemma insert_point_safe:
  assumes "unborn (pr_id p) d" and "replicas_of (pr_metadata p) = Some r" and "distinct (map fst r)"
    and "\<And>dest v. entry_of (pr_metadata p) dest = Some v \<Longrightarrow> entry_state v = ''PENDING''"
  shows "chain_safe (snd (insert_point p d))"
proof (cases "pr_id p \<in> set (map pr_id (db_points d))")
  case True
  with assms(1) show ?thesis by (simp add: insert_point_def op_run unborn_def)
next
  case False
  have "chain_safe (d\<lparr>db_points := db_points d @ [p]\<rparr>)"
    by (rule chain_safe_insert [OF _ _ False _ assms(2,3)]) (use assms(1,4) in \<open>auto simp: unborn_def\<close>)
  with False show ?thesis by (simp add: insert_point_def op_run)
qed

lemma store_point_safe:
  assumes "unborn point_id d"
  shows "chain_safe (snd (store_point te d0 fresh stamp job_id run_id point_id bundle meta d))"
proof (cases "job_replica_ids d0 job_id")
  case (Inl e)
  with assms show ?thesis by (simp add: store_point_def op_run unborn_def)
next
  case ids: (Inr ids)
  let ?rs = "if ids = [] then Inr [] else bnd (get_job te d0 job_id) (\<lambda>v. new_replicas te d0 fresh stamp v ids)"
  show ?thesis
  proof (cases ?rs)
    case (Inl e)
    with assms ids show ?thesis by (simp add: store_point_def op_run unborn_def)
  next
    case (Inr rs)
    have rs: "distinct (map fst rs) \<and> (\<forall>dest e. (dest, JObj e) \<in> set rs \<longrightarrow> entry_state e = ''PENDING'')"
    proof (cases "ids = []")
      case False
      with Inr obtain v where "new_replicas te d0 fresh stamp v ids = Inr rs" by (auto simp: bnd_eq_Inr)
      from new_replicas_keys [OF this] replica_ids_distinct [OF ids] show ?thesis by blast
    qed (use Inr in simp)
    let ?m = "dset (dset meta ''bundle_object_id'' (JStr bundle)) ''replicas'' (JObj rs)"
    let ?p = "\<lparr>pr_id = point_id, pr_run_id = run_id,
       pr_kind = enum_text (dget_or ?m ''backup_kind'' (JStr ''FULL'')), pr_status = ''AVAILABLE'',
       pr_metadata = ?m, pr_created_at = stamp\<rparr>"
    have r: "replicas_of ?m = Some rs" by (simp add: replicas_of_def)
    have "entry_state v = ''PENDING''" if "entry_of ?m dest = Some v" for dest v
      using that rs by (auto simp: entry_of_def r split: option.splits json.splits dest: map_of_SomeD)
    then have "chain_safe (snd (insert_point ?p d))"
      by (intro insert_point_safe) (use assms r rs [THEN conjunct1] in simp_all)
    with ids Inr show ?thesis by (simp add: store_point_def op_run Let_def)
  qed
qed

lemma keeps_safe_finish: "keeps chain_safe (finish_run run_id point_id bundle stamp)"
  unfolding finish_run_def by (intro keeps_intros) simp

lemma atomically_keeps: "P s \<Longrightarrow> P (snd (m s)) \<Longrightarrow> P (snd (atomically m s))"
  by (auto simp: atomically_def split: prod.split sum.split)

lemma finalize_safe:
  assumes "unborn point_id d"
  shows "chain_safe (snd (finalize_local_backup te fresh size_of stamp run_id point_id bundle meta published d))"
proof (cases "get_run te d run_id")
  case (Inl e)
  with assms show ?thesis by (simp add: finalize_local_backup_def op_run unborn_def)
next
  case run: (Inr r)
  let ?block = "publish_backup te d fresh size_of stamp (ru_job_id r) run_id point_id bundle meta published"
  have safe: "chain_safe d" using assms by (simp add: unborn_def)
  have "chain_safe (snd (?block d))"
  proof (cases "list_artifacts te d run_id")
    case (Inl e)
    with safe show ?thesis by (simp add: publish_backup_def op_run)
  next
    case (Inr artifacts)
    obtain q d1 where e: "each (publish_artifact published size_of stamp) artifacts d = (q, d1)" by fastforce
    have "keeps (unborn point_id) (each (publish_artifact published size_of stamp) artifacts)"
      by (intro keeps_intros keeps_unborn_artifacts)
    from keepsD [OF this assms e] have d1: "unborn point_id d1" .
    obtain q2 d2 where st: "store_point te d fresh stamp (ru_job_id r) run_id point_id bundle meta d1 = (q2, d2)" by fastforce
    have d2: "chain_safe d2" using store_point_safe [OF d1] st by (metis snd_conv)
    have "chain_safe (snd (finish_run run_id point_id bundle stamp d2))" using keeps_safe_finish d2 unfolding keeps_def by blast
    moreover have "chain_safe d1" using d1 by (simp add: unborn_def)
    ultimately show ?thesis using Inr e st d2
      by (auto simp: publish_backup_def op_run andthen_def split: sum.split)
  qed
  then have "chain_safe (snd (atomically ?block d))" using safe by (intro atomically_keeps [where P = chain_safe])
  then show ?thesis using run safe
    by (auto simp: finalize_local_backup_def op_run andthen_def split: sum.split prod.split)
qed

lemma run_replica_once_safe:
  assumes "chain_safe d"
  shows "chain_safe (snd (run_replica_once te cl clock node d))"
proof -
  obtain r d1 where c: "claim_next_replica te node (clock d) d = (r, d1)" by fastforce
  have d1: "chain_safe d1" using claim_next_replica_spec [OF assms c] by blast
  show ?thesis
  proof (cases "\<exists>w n. r = Inr (Some w) \<and> py_int (cl_attempts w) = Inr n \<and> 0 \<le> n")
    case True
    then obtain w n where w: "r = Inr (Some w)" "py_int (cl_attempts w) = Inr n" "0 \<le> n" by blast
    obtain v d2 where "run_replica_once te cl clock node d = (Inr (Some v), d2)" "chain_safe d2"
      using replica_pass_spec [where clock = clock and cl = cl, OF assms c [unfolded w(1)] w(2,3)] by blast
    then show ?thesis by simp
  next
    case False
    have "snd (run_replica_once te cl clock node d) = d1"
    proof (cases "\<exists>w. r = Inr (Some w)")
      case True
      then obtain w where w: "r = Inr (Some w)" by blast
      with False have "\<exists>e. bnd (py_int (cl_attempts w)) (\<lambda>n. if n < 0
          then Inl (ValueError ''replica attempts must be non-negative'') else Inr ()) = Inl e"
        by (cases "py_int (cl_attempts w)") auto
      with c w show ?thesis by (auto simp: run_replica_once_def op_run andthen_def lift_def)
    next
      case False
      with c show ?thesis
        by (auto simp: run_replica_once_def op_run andthen_def ret_def split: sum.split option.split)
    qed
    with d1 show ?thesis by simp
  qed
qed

section \<open>Every history keeps the chains in order\<close>

text \<open>
  The steps that change restore points and replicas: a claim alone (the process may stop after
  it), a whole pass of the executor, a retry, the publication of a new point under a fresh
  identifier, and the removal of a point from the catalogue. \<open>te\<close> and \<open>node\<close> are fixed; the
  clock, the identifiers and the behaviour of the client may differ from step to step.
\<close>

inductive chain_step :: "text_env \<Rightarrow> string \<Rightarrow> db \<Rightarrow> db \<Rightarrow> bool" for te node where
  step_claim: "chain_step te node d (snd (claim_next_replica te node stamp d))"
| step_pass: "chain_step te node d (snd (run_replica_once te cl clock node d))"
| step_retry: "chain_step te node d (snd (retry_replica_chain te fresh i dest stamp d))"
| step_publish: "\<forall>q \<in> set (db_points d). parent_id (pr_metadata q) \<noteq> Some i \<Longrightarrow>
    chain_step te node d (snd (finalize_local_backup te fresh size_of stamp run_id i bundle m published d))"
| step_remove: "chain_step te node d (snd (delete_restore_point_catalog i run_id d))"

lemma chain_step_safe: "chain_step te node d d' \<Longrightarrow> chain_safe d \<Longrightarrow> chain_safe d'"
proof (induction rule: chain_step.induct)
  case (step_claim d stamp)
  then show ?case using claim_next_replica_spec [OF _ prod.collapse [symmetric]] by blast
next
  case (step_pass d cl clock)
  then show ?case by (rule run_replica_once_safe)
next
  case (step_retry d fresh i dest stamp)
  then show ?case using retry_replica_chain_spec [OF _ prod.collapse [symmetric]] by blast
next
  case (step_publish d i fresh size_of stamp run_id bdl m published)
  then show ?case by (intro finalize_safe) (simp add: unborn_def)
next
  case (step_remove d i run_id)
  then show ?case by (rule delete_point_safe)
qed

lemma chain_steps_safe: "(chain_step te node)\<^sup>*\<^sup>* d d' \<Longrightarrow> chain_safe d \<Longrightarrow> chain_safe d'"
  by (induction rule: rtranclp_induct) (auto intro: chain_step_safe)


text \<open>retrying a chain never touches a replica that is complete or on its way, and it keeps
  the chains in order, also when it raises.\<close>

theorem retry_keeps_started:
  assumes "chain_safe d" and "retry_replica_chain te fresh i dest stamp d = (r, d')"
  shows "kept in_progress d d' \<and> chain_safe d'"
  using retry_replica_chain_spec [OF assms] by blast

section \<open>A concrete chain\<close>

definition sample_entry :: "string \<Rightarrow> json" where
  "sample_entry state = JObj [(''task_id'', JStr ''t''), (''state'', JStr state), (''attempts'', JInt 0),
     (''created_at'', JStr ''1''), (''remote_bundle_object_id'', JStr ''vm/x'')]"

definition sample_point :: "string \<Rightarrow> string \<Rightarrow> string \<Rightarrow> string option \<Rightarrow> string \<Rightarrow> point_row" where
  "sample_point i run_id kind parent state =
     \<lparr>pr_id = i, pr_run_id = run_id, pr_kind = kind, pr_status = ''AVAILABLE'',
      pr_metadata = [(''parent_restore_point_id'', opt_json parent), (''sequence'', JInt (if parent = None then 0 else 1)),
        (''replicas'', JObj [(''s'', sample_entry state)])], pr_created_at = i\<rparr>"

text \<open>A FULL point and its incremental, the replica of the FULL complete.\<close>

definition chain_store :: "string \<Rightarrow> db" where
  "chain_store full_state = \<lparr>db_nodes = [''n''],
     db_vms = [\<lparr>vr_id = ''v'', vr_node_id = ''n'', vr_name = ''vm'', vr_external_id = None, vr_domain_uuid = None\<rparr>],
     db_storages = [\<lparr>sr_id = ''s'', sr_node_id = ''n'', sr_name = ''remote'', sr_type = ''SSH'',
       sr_config = [(''remote_storage_id'', JStr ''rs'')], sr_created_at = ''1''\<rparr>],
     db_jobs = [\<lparr>jo_id = ''j'', jo_vm_id = ''v'', jo_storage_id = ''a'', jo_name = ''job'', jo_enabled = True,
       jo_policy = [], jo_chain = None, jo_created_at = ''1''\<rparr>],
     db_runs = [\<lparr>rr_id = ''r'', rr_job_id = ''j'', rr_storage_id = ''a'', rr_state = ''SUCCESS'', rr_context = [],
       rr_created_at = ''1'', rr_updated_at = ''1''\<rparr>],
     db_events = [],
     db_points = [sample_point ''f'' ''r'' ''FULL'' None full_state,
                  sample_point ''i'' ''r'' ''INCREMENTAL'' (Some ''f'') ''PENDING''],
     db_tasks = [], db_artifacts = [], db_restores = []\<rparr>"

lemma chain_store_safe: "chain_safe (chain_store st)"
proof -
  have "entry_of (pr_metadata (sample_point ''i'' ''r'' ''INCREMENTAL'' (Some ''f'') ''PENDING'')) dest = Some v \<Longrightarrow>
      entry_state v = ''PENDING''" for dest v
    by (auto simp: sample_point_def entry_of_def replicas_of_def dget_or_def sample_entry_def state_or_def
        enum_text_def upper_char_def split: if_splits)
  moreover have "\<not> is_incremental (sample_point ''f'' ''r'' ''FULL'' None st)" by code_simp
  ultimately show ?thesis
    by (auto simp: chain_safe_def chain_store_def active_states_def)
      (auto simp: sample_point_def replicas_of_def dget_or_def)
qed

definition entry_state_at :: "db \<Rightarrow> string \<Rightarrow> string \<Rightarrow> string" where
  "entry_state_at d i dest =
     (case point_by_id d i of None \<Rightarrow> [] | Some p \<Rightarrow>
       (case entry_of (pr_metadata p) dest of None \<Rightarrow> [] | Some v \<Rightarrow> entry_state v))"

lemma claim_snd:
  "snd (claim_next_replica te node stamp d) =
     (case claim_rows node stamp (available_points d node) d of (Inl _, _) \<Rightarrow> d | (Inr _, d') \<Rightarrow> d')"
  by (auto simp: claim_next_replica_def atomically_def op_defs split: sum.split option.split prod.split)


theorem retry_keeps_started_witness:
  "chain_safe (snd (retry_replica_chain unary_env (\<lambda>_. ''u'') ''i'' ''s'' ''2'' (chain_store ''FAILED'')))"
  using retry_keeps_started [OF chain_store_safe prod.collapse [symmetric]] by blast


lemma chain_store_claim:
  "\<exists>w d1. claim_next_replica unary_env ''n'' ''2'' (chain_store ''SUCCESS'') = (Inr (Some w), d1) \<and>
     py_int (cl_attempts w) = Inr 1"
proof -
  have "case claim_rows ''n'' ''2'' (available_points (chain_store ''SUCCESS'') ''n'') (chain_store ''SUCCESS'') of
      (Inr (Some (row, dest, v)), _) \<Rightarrow> dget v ''task_id'' = Some (JStr ''t'') \<and>
         dget_or v ''created_at'' JNull = JStr ''1'' \<and> dget_or v ''attempts'' JNull = JInt 1
    | _ \<Rightarrow> False" by code_simp
  then obtain row dest v d1 where run: "claim_rows ''n'' ''2'' (available_points (chain_store ''SUCCESS'') ''n'')
      (chain_store ''SUCCESS'') = (Inr (Some (row, dest, v)), d1)"
    and v: "dget v ''task_id'' = Some (JStr ''t'')" "dget_or v ''created_at'' JNull = JStr ''1''"
      "dget_or v ''attempts'' JNull = JInt 1"
    by (auto split: prod.splits sum.splits option.splits)
  have iso: "\<exists>t. te_from_iso unary_env [c] = Inr t" for c by (simp add: unary_env_def split: prod.split)
  obtain t1 t2 where t: "te_from_iso unary_env ''1'' = Inr t1" "te_from_iso unary_env ''2'' = Inr t2"
    using iso by blast
  have "claim_of unary_env ''2'' (row, dest, v) = Inr \<lparr>cl_task_id = JStr ''t'', cl_restore_point_id = pr_id row,
      cl_destination_id = dest, cl_attempts = JInt 1, cl_created_at = t1, cl_updated_at = t2\<rparr>"
    using v t by (simp add: claim_of_def Let_def dindex_def)
  with run show ?thesis by (simp add: claim_next_replica_def atomically_def op_defs)
qed

definition mute_client :: client where
  "mute_client = \<lparr>cl_plan = (\<lambda>_ _ _ _. Inl OtherException), cl_transfer = (\<lambda>_ _. ([], Inl OtherException)),
     cl_publish = (\<lambda>_ _ _. Inl OtherException)\<rparr>"

theorem replica_pass_settles_witness:
  "\<exists>v d'. run_replica_once unary_env mute_client (\<lambda>_. ''2'') ''n'' (chain_store ''SUCCESS'') = (Inr (Some v), d') \<and>
     chain_safe d' \<and> entry_state v \<in> {''FAILED'', ''SUCCESS''}"
proof -
  obtain w d1 where w: "claim_next_replica unary_env ''n'' ''2'' (chain_store ''SUCCESS'') = (Inr (Some w), d1)"
    "py_int (cl_attempts w) = Inr 1" using chain_store_claim by blast
  from replica_pass_settles [where clock = "\<lambda>_. ''2''" and cl = mute_client, OF chain_store_safe w(1,2)]
  show ?thesis by auto
qed

section \<open>The order of remote deletions\<close>

lemma run_by_id_set_context:
  assumes "run_by_id d i = Inr r"
  shows "run_by_id (snd (set_context i c stamp d)) i = Inr (r\<lparr>rr_context := c, rr_updated_at := stamp\<rparr>)"
proof -
  have f: "find (\<lambda>q. rr_id q = i) (map (\<lambda>q. if rr_id q = i then q\<lparr>rr_context := c, rr_updated_at := stamp\<rparr> else q) rs) =
      map_option (\<lambda>q. q\<lparr>rr_context := c, rr_updated_at := stamp\<rparr>) (find (\<lambda>q. rr_id q = i) rs)" for rs
    by (induction rs) auto
  from assms have "find (\<lambda>q. rr_id q = i) (db_runs d) = Some r"
    by (auto simp: run_by_id_def key_lookup_def split: option.splits)
  then show ?thesis by (simp add: run_by_id_def key_lookup_def set_context_def update_def f)
qed

text \<open>C26: a remote copy is deleted before the copies it depends on: the tombstone that is claimed
  has the highest sequence number among those due, is marked RUNNING with one more attempt, and
  the others of its run are left as they were.\<close>

theorem delete_descendants_first:
  assumes "claim_next_delete node stamp d = (Inr (Some (run_id, v)), d')"
  shows "\<exists>cs c n. delete_candidates d node stamp = Inr cs \<and> c \<in> set cs \<and> run_id = ca_run_id c \<and>
    (\<forall>c' \<in> set cs. ca_sequence c' \<le> ca_sequence c) \<and>
    or_zero (dget_or (ca_task c) ''attempts'' JNull) = Inr n \<and>
    entry_state v = ''RUNNING'' \<and> dget v ''attempts'' = Some (JInt (n + 1)) \<and>
    (\<forall>r. run_by_id d run_id = Inr r \<longrightarrow> rr_context r = ca_context c \<longrightarrow>
       (\<exists>r' t. run_by_id d' run_id = Inr r' \<and> delete_tasks_of (rr_context r') = Some t \<and>
          dget t (ca_dest c) = Some (JObj v) \<and>
          (\<forall>dest. dest \<noteq> ca_dest c \<longrightarrow> dget t dest =
             dget (case delete_tasks_of (rr_context r) of None \<Rightarrow> [] | Some t \<Rightarrow> t) dest)))"
proof -
  from assms obtain cs where cs: "delete_candidates d node stamp = Inr cs"
    by (auto simp: claim_next_delete_def op_run andthen_def lift_def split: sum.splits)
  obtain c rest where c: "sort_key candidate_key cs = c # rest"
    using assms cs by (auto simp: claim_next_delete_def op_run split: list.splits)
  then obtain n where n: "or_zero (dget_or (ca_task c) ''attempts'' JNull) = Inr n"
    using assms cs by (auto simp: claim_next_delete_def op_run andthen_def lift_def split: sum.splits)
  let ?v = "dset (dset (dset (ca_task c) ''state'' (JStr ''RUNNING'')) ''attempts'' (JInt (n + 1))) ''updated_at'' (JStr stamp)"
  let ?t = "dset (case delete_tasks_of (ca_context c) of None \<Rightarrow> [] | Some t \<Rightarrow> t) (ca_dest c) (JObj ?v)"
  from assms cs c n have run: "run_id = ca_run_id c" and v: "v = ?v"
    and d': "d' = snd (set_context (ca_run_id c) (dset (ca_context c) ''replica_delete_tasks'' (JObj ?t)) stamp d)"
    by (auto simp: claim_next_delete_def op_run andthen_def ret_def set_context_def Let_def update_def)
  have "c \<in> set cs" using c by (metis list.set_intros(1) set_sort)
  moreover have "ca_sequence c' \<le> ca_sequence c" if "c' \<in> set cs" for c'
  proof -
    have "sorted (map candidate_key (c # rest))" by (metis c sorted_sort_key)
    moreover have "c' \<in> set (c # rest)" using that by (metis c set_sort)
    ultimately have "candidate_key c \<le> candidate_key c'" by auto
    then show ?thesis by (auto simp: candidate_key_def less_eq_prod_def)
  qed
  moreover have "entry_state v = ''RUNNING''" "dget v ''attempts'' = Some (JInt (n + 1))"
    by (simp_all add: v upper_char_def)
  moreover have "\<exists>r' t. run_by_id d' run_id = Inr r' \<and> delete_tasks_of (rr_context r') = Some t \<and>
      dget t (ca_dest c) = Some (JObj v) \<and> (\<forall>dest. dest \<noteq> ca_dest c \<longrightarrow> dget t dest =
        dget (case delete_tasks_of (rr_context r) of None \<Rightarrow> [] | Some t \<Rightarrow> t) dest)"
    if r: "run_by_id d run_id = Inr r" "rr_context r = ca_context c" for r
  proof -
    have "run_by_id d' run_id = Inr (r\<lparr>rr_context := dset (ca_context c) ''replica_delete_tasks'' (JObj ?t), rr_updated_at := stamp\<rparr>)"
      using run_by_id_set_context [OF r(1)] by (simp add: d' run)
    then show ?thesis using r(2) by (auto simp: delete_tasks_of_def v)
  qed
  ultimately show ?thesis using cs n run by blast
qed

definition delete_store :: db where
  "delete_store = (chain_store ''SUCCESS'')\<lparr>db_runs :=
     [\<lparr>rr_id = ''r'', rr_job_id = ''j'', rr_storage_id = ''a'', rr_state = ''SUCCESS'',
       rr_context = [(''replica_delete_tasks'', JObj [(''s'', JObj (delete_task
          (sample_point ''f'' ''r'' ''FULL'' None ''SUCCESS'') ''s'' (JStr ''rs'') (JStr ''vm/x'') 0 ''1''))])],
       rr_created_at = ''1'', rr_updated_at = ''1''\<rparr>,
      \<lparr>rr_id = ''q'', rr_job_id = ''j'', rr_storage_id = ''a'', rr_state = ''SUCCESS'',
       rr_context = [(''replica_delete_tasks'', JObj [(''s'', JObj (delete_task
          (sample_point ''i'' ''q'' ''INCREMENTAL'' (Some ''f'') ''SUCCESS'') ''s'' (JStr ''rs'') (JStr ''vm/y'') 1 ''1''))])],
       rr_created_at = ''1'', rr_updated_at = ''1''\<rparr>]\<rparr>"

definition delete_claimed :: "string \<times> dict" where
  "delete_claimed = (case fst (claim_next_delete ''n'' ''2'' delete_store) of Inr (Some x) \<Rightarrow> x | _ \<Rightarrow> ([], []))"

theorem delete_descendants_first_witness:
  "fst delete_claimed = ''q'' \<and> entry_state (snd delete_claimed) = ''RUNNING''"
proof -
  have "case fst (claim_next_delete ''n'' ''2'' delete_store) of Inr (Some x) \<Rightarrow> fst x = ''q'' | _ \<Rightarrow> False" by code_simp
  then obtain v where v: "fst (claim_next_delete ''n'' ''2'' delete_store) = Inr (Some (''q'', v))"
    by (auto split: sum.splits option.splits)
  then have "claim_next_delete ''n'' ''2'' delete_store = (Inr (Some (''q'', v)), snd (claim_next_delete ''n'' ''2'' delete_store))"
    by (metis prod.collapse)
  from delete_descendants_first [OF this] v show ?thesis by (auto simp: delete_claimed_def)
qed

text \<open>
  The cap of three attempts holds for calls that finish: an attempt that the process does not
  survive leaves the task RUNNING, it is claimed again, and the claim does not look at the cap.
\<close>

definition exhausted :: db where
  "exhausted = snd (claim_next_delete ''n'' ''2'' (snd (claim_next_delete ''n'' ''2'' (snd (claim_next_delete ''n'' ''2''
     (snd (claim_next_delete ''n'' ''2'' delete_store)))))))"

lemma interrupted_deletes_exceed_cap:
  "case run_by_id exhausted ''q'' of Inl _ \<Rightarrow> False | Inr r \<Rightarrow>
     (case delete_tasks_of (rr_context r) of None \<Rightarrow> False | Some t \<Rightarrow>
       (case dget t ''s'' of Some (JObj v) \<Rightarrow> dget v ''attempts'' = Some (JInt 4) \<and> dget v ''max_attempts'' = Some (JInt 3)
        | _ \<Rightarrow> False))"
  by code_simp

end
