(* ===== verification/TransferProtocol.thy ===== *)
theory TransferProtocol
  imports Prelude
begin

text \<open>
  The control records of the receiver's staging protocol (\<open>receiver_transfer.py\<close>): the
  BEGIN declaration, the file, extent and finish commands, and the layout of a bundle.
  A record is the JSON value \<open>json.loads\<close> returned. \<open>datetime.fromisoformat\<close> is the
  parameter \<open>isotime\<close>: \<open>None\<close> where it raises, otherwise whether the result has a zone.
\<close>

abbreviation transfer_error :: "string \<Rightarrow> 'a result" where
  "transfer_error code \<equiv> Inl (ReceiverTransferError code)"

definition max_control_line :: nat where "max_control_line = 64 * 1024"
definition max_extent_bytes :: int where "max_extent_bytes = 64 * 1024 * 1024"
definition max_files :: nat where "max_files = 256"
definition max_metadata_bytes :: int where "max_metadata_bytes = 16 * 1024 * 1024"

definition required_metadata :: "string list" where
  "required_metadata =
     [''metadata/domain.xml'', ''metadata/manifest.json'', ''metadata/restore-point.json'']"

record declared_file =
  df_path :: string
  df_logical_size :: int
  df_payload_bytes :: int

definition is_metadata :: "declared_file \<Rightarrow> bool" where
  "is_metadata f = prefix ''metadata/'' (df_path f)"

record transfer_declaration =
  td_transfer_id :: string
  td_storage_id :: string
  td_vm_id :: string
  td_restore_point_id :: string
  td_chain_id :: string
  td_job_run_id :: string
  td_kind :: string
  td_sequence :: int
  td_parent :: "string option"
  td_created_at :: string
  td_files :: "declared_file list"
  td_seed :: "string option"

definition total_payload_bytes :: "transfer_declaration \<Rightarrow> int" where
  "total_payload_bytes d = sum_list (map df_payload_bytes (td_files d))"

definition declared_file_of :: "transfer_declaration \<Rightarrow> string \<Rightarrow> declared_file result" where
  "declared_file_of d path =
     (case find (\<lambda>f. df_path f = path) (td_files d) of
        Some f \<Rightarrow> Inr f
      | None \<Rightarrow> transfer_error ''TRANSFER_FILE_UNDECLARED'')"

section \<open>Fields\<close>

definition strict_object :: "json \<Rightarrow> string list \<Rightarrow> dict result" where
  "strict_object value keys =
     (case value of
        JObj d \<Rightarrow> if dkeys d \<noteq> set keys then transfer_error ''TRANSFER_PROTOCOL_INVALID'' else Inr d
      | _ \<Rightarrow> transfer_error ''TRANSFER_PROTOCOL_INVALID'')"

text \<open>
  \<open>value == str(uuid.UUID(value))\<close>: 36 characters, hyphens at 8, 13, 18 and 23, and
  lower-case hexadecimal digits elsewhere.
\<close>

definition is_lower_hex :: "char \<Rightarrow> bool" where
  "is_lower_hex c = (let n = (of_char c :: nat) in (48 \<le> n \<and> n \<le> 57) \<or> (97 \<le> n \<and> n \<le> 102))"

definition uuid_form :: "string \<Rightarrow> bool" where
  "uuid_form s =
     (length s = 36 \<and>
      list_all (\<lambda>(i, c). if i \<in> {8, 13, 18, 23} then c = CHR ''-'' else is_lower_hex c)
        (zip [0..<36] s))"

definition canonical_uuid :: "json \<Rightarrow> string result" where
  "canonical_uuid value =
     (case value of
        JStr s \<Rightarrow> if uuid_form s then Inr s else transfer_error ''TRANSFER_ID_INVALID''
      | _ \<Rightarrow> transfer_error ''TRANSFER_ID_INVALID'')"

definition proto_integer :: "json \<Rightarrow> int \<Rightarrow> int result" where
  "proto_integer value minimum =
     (case value of
        JInt n \<Rightarrow> if n < minimum then transfer_error ''TRANSFER_PROTOCOL_INVALID'' else Inr n
      | _ \<Rightarrow> transfer_error ''TRANSFER_PROTOCOL_INVALID'')"

definition parse_created_at :: "(string \<Rightarrow> bool option) \<Rightarrow> json \<Rightarrow> string result" where
  "parse_created_at isotime value =
     (case value of
        JStr s \<Rightarrow>
          (case isotime s of
             Some True \<Rightarrow> Inr s
           | _ \<Rightarrow> transfer_error ''TRANSFER_RESTORE_POINT_INVALID'')
      | _ \<Rightarrow> transfer_error ''TRANSFER_RESTORE_POINT_INVALID'')"

section \<open>Bundle paths\<close>

definition is_alnum :: "char \<Rightarrow> bool" where
  "is_alnum c = (let n = (of_char c :: nat) in
     (48 \<le> n \<and> n \<le> 57) \<or> (65 \<le> n \<and> n \<le> 90) \<or> (97 \<le> n \<and> n \<le> 122))"

definition target_char :: "char \<Rightarrow> bool" where
  "target_char c = (is_alnum c \<or> c = CHR ''_'' \<or> c = CHR ''.'' \<or> c = CHR ''-'')"

text \<open>The group of \<open>_DISK_PATH\<close>: one alphanumeric, then at most 126 characters of the class.\<close>

definition target_ok :: "string \<Rightarrow> bool" where
  "target_ok t = (case t of [] \<Rightarrow> False
     | c # cs \<Rightarrow> is_alnum c \<and> length cs \<le> 126 \<and> list_all target_char cs)"

definition disk_target :: "string \<Rightarrow> string option" where
  "disk_target s =
     (let t = drop 6 (take (length s - 6) s) in
      if prefix ''disks/'' s \<and> suffix ''.qcow2'' s \<and> 12 \<le> length s \<and> target_ok t
      then Some t else None)"

definition bundle_path :: "json \<Rightarrow> string result" where
  "bundle_path value =
     (case value of
        JStr s \<Rightarrow>
          (if s = [] \<or> CHR 0x00 \<in> set s then transfer_error ''TRANSFER_PATH_INVALID''
           else if path_is_absolute s \<or> path_str s \<noteq> s \<or> ''.'' \<in> set (path_parts s) \<or>
                   ''..'' \<in> set (path_parts s)
           then transfer_error ''TRANSFER_PATH_INVALID''
           else if s \<in> set required_metadata then Inr s
           else case disk_target s of
                  None \<Rightarrow> transfer_error ''TRANSFER_PATH_INVALID''
                | Some t \<Rightarrow>
                    if t = ''.'' \<or> t = ''..'' then transfer_error ''TRANSFER_PATH_INVALID'' else Inr s)
      | _ \<Rightarrow> transfer_error ''TRANSFER_PATH_INVALID'')"

section \<open>The BEGIN declaration\<close>

definition parse_file :: "json \<Rightarrow> declared_file result" where
  "parse_file value =
     bnd (strict_object value [''path'', ''logical_size'', ''payload_bytes'']) (\<lambda>item.
     bnd (dindex item ''path'') (\<lambda>v. bnd (bundle_path v) (\<lambda>path.
     bnd (dindex item ''logical_size'') (\<lambda>v. bnd (proto_integer v 0) (\<lambda>logical_size.
     bnd (dindex item ''payload_bytes'') (\<lambda>v. bnd (proto_integer v 0) (\<lambda>payload_bytes.
       if payload_bytes > logical_size then transfer_error ''TRANSFER_FILE_SIZE_INVALID''
       else if prefix ''metadata/'' path then
         (if logical_size \<le> 0 \<or> logical_size > max_metadata_bytes \<or> payload_bytes \<noteq> logical_size
          then transfer_error ''TRANSFER_FILE_SIZE_INVALID''
          else Inr \<lparr>df_path = path, df_logical_size = logical_size, df_payload_bytes = payload_bytes\<rparr>)
       else if logical_size \<le> 0 then transfer_error ''TRANSFER_FILE_SIZE_INVALID''
       else Inr \<lparr>df_path = path, df_logical_size = logical_size,
                 df_payload_bytes = payload_bytes\<rparr>)))))))"

record parsed_point =
  pp_id :: string
  pp_chain_id :: string
  pp_job_run_id :: string
  pp_kind :: string
  pp_sequence :: int
  pp_parent :: "string option"
  pp_created_at :: string

text \<open>\<open>kind not in {...}\<close> hashes the value: a list or an object raises \<open>TypeError\<close>.\<close>

definition point_kind :: "json \<Rightarrow> string result" where
  "point_kind v =
     (case v of
        JStr s \<Rightarrow> if s = ''FULL'' \<or> s = ''INCREMENTAL'' then Inr s
                  else transfer_error ''TRANSFER_RESTORE_POINT_INVALID''
      | JList _ \<Rightarrow> Inl TypeError
      | JObj _ \<Rightarrow> Inl TypeError
      | _ \<Rightarrow> transfer_error ''TRANSFER_RESTORE_POINT_INVALID'')"

definition optional_uuid :: "json \<Rightarrow> string option result" where
  "optional_uuid v = (if v = JNull then Inr None else bnd (canonical_uuid v) (\<lambda>s. Inr (Some s)))"

definition lineage_ok :: "string \<Rightarrow> int \<Rightarrow> string option \<Rightarrow> string \<Rightarrow> bool" where
  "lineage_ok kind sequence parent own_id =
     (if kind = ''FULL'' then sequence = 0 \<and> parent = None
      else 0 < sequence \<and> parent \<noteq> None \<and> parent \<noteq> Some own_id)"

definition parse_restore_point :: "(string \<Rightarrow> bool option) \<Rightarrow> json \<Rightarrow> parsed_point result" where
  "parse_restore_point isotime value =
     bnd (strict_object value [''id'', ''chain_id'', ''job_run_id'', ''kind'', ''sequence'',
            ''parent_restore_point_id'', ''created_at'']) (\<lambda>point.
     bnd (dindex point ''id'') (\<lambda>v. bnd (canonical_uuid v) (\<lambda>restore_point_id.
     bnd (dindex point ''chain_id'') (\<lambda>v. bnd (canonical_uuid v) (\<lambda>chain_id.
     bnd (dindex point ''job_run_id'') (\<lambda>v. bnd (canonical_uuid v) (\<lambda>job_run_id.
     bnd (dindex point ''kind'') (\<lambda>v. bnd (point_kind v) (\<lambda>kind.
     bnd (dindex point ''sequence'') (\<lambda>v. bnd (proto_integer v 0) (\<lambda>sequence.
     bnd (dindex point ''parent_restore_point_id'') (\<lambda>v. bnd (optional_uuid v) (\<lambda>parent.
     if \<not> lineage_ok kind sequence parent restore_point_id
     then transfer_error ''TRANSFER_RESTORE_POINT_INVALID''
     else bnd (dindex point ''created_at'') (\<lambda>v. bnd (parse_created_at isotime v) (\<lambda>created_at.
       Inr \<lparr>pp_id = restore_point_id, pp_chain_id = chain_id, pp_job_run_id = job_run_id,
            pp_kind = kind, pp_sequence = sequence, pp_parent = parent,
            pp_created_at = created_at\<rparr>)))))))))))))))"

definition begin_required :: "string list" where
  "begin_required = [''protocol_version'', ''operation'', ''transfer_id'', ''storage_id'', ''vm_id'',
     ''restore_point'', ''files'']"

definition check_file_set :: "declared_file list \<Rightarrow> declared_file list result" where
  "check_file_set files =
     (let paths = map df_path files;
          metadata = filter (prefix ''metadata/'') paths;
          disks = filter (prefix ''disks/'') paths
      in if \<not> distinct paths then transfer_error ''TRANSFER_FILE_SET_INVALID''
         else if set metadata \<noteq> set required_metadata \<or> disks = []
         then transfer_error ''TRANSFER_FILE_SET_INVALID''
         else Inr files)"

definition parse_seed :: "dict \<Rightarrow> string \<Rightarrow> string option result" where
  "parse_seed request kind =
     (let v = dget_or request ''seed_restore_point_id'' JNull in
      if v = JNull then Inr None
      else bnd (canonical_uuid v) (\<lambda>s.
        if kind \<noteq> ''FULL'' then transfer_error ''TRANSFER_SEED_INVALID'' else Inr (Some s)))"

definition raw_file_list :: "json \<Rightarrow> json list result" where
  "raw_file_list raw =
     (case raw of
        JList raw_files \<Rightarrow>
          (if raw_files = [] \<or> length raw_files > max_files
           then transfer_error ''TRANSFER_FILE_SET_INVALID'' else Inr raw_files)
      | _ \<Rightarrow> transfer_error ''TRANSFER_FILE_SET_INVALID'')"

definition parse_begin :: "(string \<Rightarrow> bool option) \<Rightarrow> json \<Rightarrow> transfer_declaration result" where
  "parse_begin isotime value =
     (case value of
        JObj request \<Rightarrow>
          (if \<not> (set begin_required \<subseteq> dkeys request \<and>
                  dkeys request \<subseteq> insert ''seed_restore_point_id'' (set begin_required))
           then transfer_error ''TRANSFER_PROTOCOL_INVALID''
           else
             bnd (dindex request ''protocol_version'') (\<lambda>pv.
             bnd (dindex request ''operation'') (\<lambda>operation.
             if \<not> py_eq_int pv 1 \<or> operation \<noteq> JStr ''BEGIN''
             then transfer_error ''TRANSFER_PROTOCOL_INVALID''
             else
             bnd (dindex request ''transfer_id'') (\<lambda>v. bnd (canonical_uuid v) (\<lambda>transfer_id.
             bnd (dindex request ''storage_id'') (\<lambda>v. bnd (canonical_uuid v) (\<lambda>storage_id.
             bnd (dindex request ''vm_id'') (\<lambda>v. bnd (canonical_uuid v) (\<lambda>vm_id.
             bnd (dindex request ''restore_point'') (\<lambda>v. bnd (parse_restore_point isotime v) (\<lambda>point.
             bnd (parse_seed request (pp_kind point)) (\<lambda>seed.
             bnd (dindex request ''files'') (\<lambda>raw. bnd (raw_file_list raw) (\<lambda>raw_files.
             bnd (map_result parse_file raw_files) (\<lambda>fs. bnd (check_file_set fs) (\<lambda>files.
                      Inr \<lparr>td_transfer_id = transfer_id, td_storage_id = storage_id,
                           td_vm_id = vm_id, td_restore_point_id = pp_id point,
                           td_chain_id = pp_chain_id point, td_job_run_id = pp_job_run_id point,
                           td_kind = pp_kind point, td_sequence = pp_sequence point,
                           td_parent = pp_parent point, td_created_at = pp_created_at point,
                           td_files = files, td_seed = seed\<rparr>))))))))))))))))
      | _ \<Rightarrow> transfer_error ''TRANSFER_PROTOCOL_INVALID'')"

section \<open>The other commands\<close>

definition check_operation :: "dict \<Rightarrow> string \<Rightarrow> unit result" where
  "check_operation request operation =
     bnd (dindex request ''protocol_version'') (\<lambda>pv. bnd (dindex request ''operation'') (\<lambda>oper.
       if \<not> py_eq_int pv 1 \<or> oper \<noteq> JStr operation
       then transfer_error ''TRANSFER_PROTOCOL_INVALID'' else Inr ()))"

definition file_command :: "json \<Rightarrow> string \<Rightarrow> string result" where
  "file_command value operation =
     bnd (strict_object value [''protocol_version'', ''operation'', ''path'']) (\<lambda>request.
     bnd (check_operation request operation) (\<lambda>_.
     bnd (dindex request ''path'') bundle_path))"

definition extent_command :: "json \<Rightarrow> (json \<times> json \<times> json) result" where
  "extent_command value =
     bnd (strict_object value [''protocol_version'', ''operation'', ''offset'', ''length'', ''sha256''])
       (\<lambda>request. bnd (check_operation request ''EXTENT'') (\<lambda>_.
     bnd (dindex request ''offset'') (\<lambda>offset. bnd (dindex request ''length'') (\<lambda>len.
     bnd (dindex request ''sha256'') (\<lambda>sha. Inr (offset, len, sha))))))"

definition finish_command :: "json \<Rightarrow> unit result" where
  "finish_command value =
     bnd (strict_object value [''protocol_version'', ''operation''])
       (\<lambda>request. check_operation request ''FINISH'')"

section \<open>Facts about bundle paths\<close>

lemma split_on_no_sep_id: "d \<notin> set w \<Longrightarrow> split_on d w = [w]"
  by (induction w) auto

lemma split_on_append: "d \<notin> set u \<Longrightarrow> split_on d (u @ d # w) = u # split_on d w"
  by (induction u) auto

lemma target_char_not_slash: "target_char c \<Longrightarrow> c \<noteq> CHR ''/'' \<and> c \<noteq> CHR 0x00"
  by (auto simp: target_char_def is_alnum_def Let_def)

lemma target_ok_chars: "target_ok t \<Longrightarrow> list_all target_char t \<and> t \<noteq> [] \<and> hd t \<noteq> CHR ''.''"
  by (cases t) (auto simp: target_ok_def target_char_def is_alnum_def Let_def)

lemma target_not_dots: "target_ok t \<Longrightarrow> t \<noteq> ''.'' \<and> t \<noteq> ''..''"
  using target_ok_chars [of t] by auto

lemma disk_target_iff:
  "disk_target s = Some t \<longleftrightarrow> s = ''disks/'' @ t @ ''.qcow2'' \<and> target_ok t"
proof
  assume a: "disk_target s = Some t"
  then have s: "prefix ''disks/'' s" "suffix ''.qcow2'' s" "12 \<le> length s" "target_ok t"
    and t: "t = drop 6 (take (length s - 6) s)"
    by (auto simp: disk_target_def Let_def split: if_splits)
  from s(1) obtain u where u: "s = ''disks/'' @ u" unfolding prefix_def by blast
  from s(2) obtain v where v: "s = v @ ''.qcow2''" unfolding suffix_def by blast
  have "v = take (length s - 6) s" using v by simp
  then have "t = drop 6 v" using t by simp
  moreover have "take 6 v = ''disks/''"
  proof -
    have "6 \<le> length v" using s(3) v by simp
    then have "take 6 v = take 6 s" using v by simp
    also have "\<dots> = ''disks/''" using u by simp
    finally show ?thesis .
  qed
  ultimately have "v = ''disks/'' @ t" by (metis append_take_drop_id)
  with v s(4) show "s = ''disks/'' @ t @ ''.qcow2'' \<and> target_ok t" by simp
next
  assume "s = ''disks/'' @ t @ ''.qcow2'' \<and> target_ok t"
  then show "disk_target s = Some t"
    by (simp add: disk_target_def suffix_def)
qed

lemma two_part_path:
  assumes s: "s = u @ CHR ''/'' # w" and "CHR ''/'' \<notin> set u" and "CHR ''/'' \<notin> set w"
    and "u \<notin> {[], ''.'', ''..''}" and "w \<notin> {[], ''.'', ''..''}"
  shows "path_parts s = [u, w]" and "path_str s = s" and "\<not> path_is_absolute s"
proof -
  from assms(2,3) have "split_on CHR ''/'' s = [u, w]"
    unfolding s by (simp add: split_on_append split_on_no_sep_id)
  then have names: "path_names s = [u, w]" using assms(4,5) by (simp add: path_names_def)
  have "path_root s = []" using assms(2,4) unfolding s path_root_def
    by (cases u) auto
  with names show "path_parts s = [u, w]" "\<not> path_is_absolute s" "path_str s = s"
    by (simp_all add: path_parts_def path_is_absolute_def path_str_def s)
qed

lemma bundle_path_parts:
  assumes "s \<in> set required_metadata \<or> (\<exists>t. s = ''disks/'' @ t @ ''.qcow2'' \<and> target_ok t)"
  shows "\<exists>u w. s = u @ CHR ''/'' # w \<and> path_parts s = [u, w] \<and> path_str s = s \<and>
    \<not> path_is_absolute s \<and> u \<in> {''metadata'', ''disks''} \<and> CHR ''/'' \<notin> set w \<and> CHR 0x00 \<notin> set s \<and>
    w \<notin> {[], ''.'', ''..''}"
  using assms
proof
  assume "s \<in> set required_metadata"
  then obtain w where w: "s = ''metadata'' @ CHR ''/'' # w"
    "w \<in> {''domain.xml'', ''manifest.json'', ''restore-point.json''}"
    by (auto simp: required_metadata_def)
  then have "CHR ''/'' \<notin> set w" "CHR 0x00 \<notin> set s" "w \<notin> {[], ''.'', ''..''}" by auto
  with two_part_path [OF w(1)] w(1) show ?thesis
    by (intro exI [of _ "''metadata''"] exI [of _ w]) simp
next
  assume "\<exists>t. s = ''disks/'' @ t @ ''.qcow2'' \<and> target_ok t"
  then obtain t where t: "s = ''disks/'' @ t @ ''.qcow2''" "target_ok t" by blast
  let ?w = "t @ ''.qcow2''"
  have s: "s = ''disks'' @ CHR ''/'' # ?w" using t(1) by simp
  from target_ok_chars [OF t(2)] have "\<forall>c \<in> set t. c \<noteq> CHR ''/'' \<and> c \<noteq> CHR 0x00"
    using target_char_not_slash by (auto simp: list_all_iff)
  then have "CHR ''/'' \<notin> set ?w" "CHR 0x00 \<notin> set s" unfolding t(1) by auto
  moreover have "?w \<notin> {[], ''.'', ''..''}" by (cases t; cases "tl t") auto
  ultimately show ?thesis using two_part_path [OF s] s
    by (intro exI [of _ "''disks''"] exI [of _ ?w]) simp
qed

lemma bundle_path_Inr:
  "bundle_path v = Inr s \<longleftrightarrow>
     v = JStr s \<and> (s \<in> set required_metadata \<or> (\<exists>t. s = ''disks/'' @ t @ ''.qcow2'' \<and> target_ok t))"
proof
  assume "bundle_path v = Inr s"
  then show "v = JStr s \<and> (s \<in> set required_metadata \<or> (\<exists>t. s = ''disks/'' @ t @ ''.qcow2'' \<and> target_ok t))"
    by (auto simp: bundle_path_def disk_target_iff split: json.splits if_splits option.splits)
next
  assume a: "v = JStr s \<and> (s \<in> set required_metadata \<or> (\<exists>t. s = ''disks/'' @ t @ ''.qcow2'' \<and> target_ok t))"
  from a bundle_path_parts obtain u w where uw: "s = u @ CHR ''/'' # w" "path_parts s = [u, w]"
    "path_str s = s" "\<not> path_is_absolute s" "u \<in> {''metadata'', ''disks''}" "CHR 0x00 \<notin> set s"
    "w \<notin> {[], ''.'', ''..''}" by blast
  then have "s \<noteq> []" "''.'' \<notin> set (path_parts s)" "''..'' \<notin> set (path_parts s)" by auto
  then have guard: "\<not> (path_is_absolute s \<or> path_str s \<noteq> s \<or> ''.'' \<in> set (path_parts s) \<or>
      ''..'' \<in> set (path_parts s))" "\<not> (s = [] \<or> CHR 0x00 \<in> set s)" using uw(3,4,6) by blast+
  show "bundle_path v = Inr s"
  proof (cases "s \<in> set required_metadata")
    case True
    with a guard show ?thesis by (simp only: bundle_path_def json.case if_False if_True)
  next
    case False
    with a obtain t where t: "disk_target s = Some t" using disk_target_iff by blast
    then have "target_ok t" unfolding disk_target_iff by blast
    with target_not_dots have "\<not> (t = ''.'' \<or> t = ''..'')" by blast
    with a guard False t show ?thesis
      by (simp only: bundle_path_def json.case if_False if_True option.case)
  qed
qed

text \<open>\<open>_bundle_path\<close> accepts exactly the canonical bundle layout: the three metadata files,
  or a disk image named by one safe component. What it accepts is relative, is its own
  normal form, has two components, and no component is empty or a dot entry, so no accepted
  path leaves the bundle directory.\<close>

theorem bundle_path_canonical:
  "(bundle_path v = Inr s \<longleftrightarrow>
      v = JStr s \<and>
      (s \<in> set required_metadata \<or> (\<exists>t. s = ''disks/'' @ t @ ''.qcow2'' \<and> target_ok t))) \<and>
   (bundle_path v = Inr s \<longrightarrow>
      (\<exists>u w. s = u @ CHR ''/'' # w \<and> path_parts s = [u, w] \<and> path_str s = s \<and>
         \<not> path_is_absolute s \<and> u \<in> {''metadata'', ''disks''} \<and> CHR ''/'' \<notin> set w \<and>
         w \<notin> {[], ''.'', ''..''}))"
proof (intro conjI impI)
  show "bundle_path v = Inr s \<longleftrightarrow> v = JStr s \<and>
      (s \<in> set required_metadata \<or> (\<exists>t. s = ''disks/'' @ t @ ''.qcow2'' \<and> target_ok t))"
    by (rule bundle_path_Inr)
  assume "bundle_path v = Inr s"
  then show "\<exists>u w. s = u @ CHR ''/'' # w \<and> path_parts s = [u, w] \<and> path_str s = s \<and>
         \<not> path_is_absolute s \<and> u \<in> {''metadata'', ''disks''} \<and> CHR ''/'' \<notin> set w \<and>
         w \<notin> {[], ''.'', ''..''}"
    using bundle_path_parts unfolding bundle_path_Inr by blast
qed

section \<open>Facts about declarations\<close>

definition file_wf :: "declared_file \<Rightarrow> bool" where
  "file_wf f \<longleftrightarrow>
     bundle_path (JStr (df_path f)) = Inr (df_path f) \<and> 0 < df_logical_size f \<and>
     0 \<le> df_payload_bytes f \<and> df_payload_bytes f \<le> df_logical_size f \<and>
     (is_metadata f \<longrightarrow> df_payload_bytes f = df_logical_size f \<and>
        df_logical_size f \<le> max_metadata_bytes)"

definition declaration_wf :: "transfer_declaration \<Rightarrow> bool" where
  "declaration_wf d \<longleftrightarrow>
     uuid_form (td_transfer_id d) \<and> uuid_form (td_storage_id d) \<and> uuid_form (td_vm_id d) \<and>
     uuid_form (td_restore_point_id d) \<and> uuid_form (td_chain_id d) \<and> uuid_form (td_job_run_id d) \<and>
     lineage_ok (td_kind d) (td_sequence d) (td_parent d) (td_restore_point_id d) \<and>
     td_kind d \<in> {''FULL'', ''INCREMENTAL''} \<and>
     (\<forall>s. td_seed d = Some s \<longrightarrow> td_kind d = ''FULL'' \<and> uuid_form s) \<and>
     (\<forall>f \<in> set (td_files d). file_wf f) \<and> distinct (map df_path (td_files d)) \<and>
     set required_metadata \<subseteq> set (map df_path (td_files d)) \<and>
     (\<exists>f \<in> set (td_files d). \<not> is_metadata f) \<and>
     length (td_files d) \<le> max_files"

lemma canonical_uuid_Inr: "canonical_uuid v = Inr s \<longleftrightarrow> v = JStr s \<and> uuid_form s"
  by (auto simp: canonical_uuid_def split: json.splits)

lemma proto_integer_Inr: "proto_integer v m = Inr n \<longleftrightarrow> v = JInt n \<and> m \<le> n"
  by (auto simp: proto_integer_def split: json.splits)

lemma parse_file_wf:
  assumes "parse_file v = Inr f"
  shows "file_wf f"
  using assms
  by (auto simp: parse_file_def file_wf_def is_metadata_def bnd_eq_Inr proto_integer_Inr bundle_path_Inr
      split: if_splits)

lemma parse_restore_point_wf:
  assumes "parse_restore_point isotime v = Inr p"
  shows "uuid_form (pp_id p) \<and> uuid_form (pp_chain_id p) \<and> uuid_form (pp_job_run_id p) \<and>
    lineage_ok (pp_kind p) (pp_sequence p) (pp_parent p) (pp_id p) \<and>
    pp_kind p \<in> {''FULL'', ''INCREMENTAL''}"
  using assms
  by (auto simp: parse_restore_point_def bnd_eq_Inr canonical_uuid_Inr point_kind_def
      split: if_splits json.splits)

lemma check_file_set_Inr: "check_file_set fs = Inr gs \<Longrightarrow> gs = fs"
  by (auto simp: check_file_set_def Let_def split: if_splits)

lemma raw_file_list_Inr: "raw_file_list raw = Inr fs \<Longrightarrow> length fs \<le> max_files"
  by (auto simp: raw_file_list_def split: json.splits if_splits)

lemma parse_begin_Inr:
  assumes "parse_begin isotime v = Inr d"
  shows "\<exists>request a b c point raw fs.
    canonical_uuid a = Inr (td_transfer_id d) \<and> canonical_uuid b = Inr (td_storage_id d) \<and>
    canonical_uuid c = Inr (td_vm_id d) \<and> parse_restore_point isotime point = Inr raw \<and>
    parse_seed request (pp_kind raw) = Inr (td_seed d) \<and>
    map_result parse_file fs = Inr (td_files d) \<and> length fs \<le> max_files \<and>
    check_file_set (td_files d) = Inr (td_files d) \<and>
    td_kind d = pp_kind raw \<and> td_sequence d = pp_sequence raw \<and> td_parent d = pp_parent raw \<and>
    td_restore_point_id d = pp_id raw \<and> td_chain_id d = pp_chain_id raw \<and>
    td_job_run_id d = pp_job_run_id raw"
proof -
  obtain request where v: "v = JObj request"
    using assms by (cases v) (simp_all add: parse_begin_def)
  show ?thesis
    using assms unfolding v parse_begin_def
    apply (clarsimp simp: bnd_eq_Inr simp del: dindex_Inr split: if_splits)
    apply (frule check_file_set_Inr)
    apply (frule raw_file_list_Inr)
    apply simp
    apply blast
    done
qed

lemma begin_declaration_wf:
  assumes "parse_begin isotime v = Inr d"
  shows "declaration_wf d"
proof -
  from parse_begin_Inr [OF assms] obtain request a b c point raw fs where
    ids: "canonical_uuid a = Inr (td_transfer_id d)" "canonical_uuid b = Inr (td_storage_id d)"
      "canonical_uuid c = Inr (td_vm_id d)" and
    point: "parse_restore_point isotime point = Inr raw" and
    seed: "parse_seed request (pp_kind raw) = Inr (td_seed d)" and
    files: "map_result parse_file fs = Inr (td_files d)" "length fs \<le> max_files"
      "check_file_set (td_files d) = Inr (td_files d)" and
    kind: "td_kind d = pp_kind raw" "td_sequence d = pp_sequence raw" "td_parent d = pp_parent raw"
      "td_restore_point_id d = pp_id raw" "td_chain_id d = pp_chain_id raw"
      "td_job_run_id d = pp_job_run_id raw" by blast
  have seeds: "td_seed d = Some s \<Longrightarrow> td_kind d = ''FULL'' \<and> uuid_form s" for s
    using seed kind(1)
    by (auto simp: parse_seed_def Let_def bnd_eq_Inr canonical_uuid_Inr split: if_splits)
  have wf: "\<forall>f \<in> set (td_files d). file_wf f"
    using files(1) parse_file_wf by (rule map_result_all)
  have set: "distinct (map df_path (td_files d))"
    "set (filter (prefix ''metadata/'') (map df_path (td_files d))) = set required_metadata"
    "filter (prefix ''disks/'') (map df_path (td_files d)) \<noteq> []"
    using files(3) by (auto simp: check_file_set_def Let_def simp del: set_filter split: if_splits)
  from set(2) have req: "set required_metadata \<subseteq> set (map df_path (td_files d))" by auto
  from set(3) obtain f where f: "f \<in> set (td_files d)" "prefix ''disks/'' (df_path f)"
    unfolding filter_empty_conv by auto
  from f(2) have "\<not> is_metadata f" by (auto simp: is_metadata_def prefix_def)
  with f(1) have disk: "\<exists>f \<in> set (td_files d). \<not> is_metadata f" by blast
  have "length (td_files d) \<le> max_files" 
    using map_result_length [OF files(1)] files(2) by simp
  with ids [unfolded canonical_uuid_Inr] seeds wf set(1) req disk parse_restore_point_wf [OF point] kind show ?thesis
    by (simp add: declaration_wf_def)
qed

text \<open>C17: a BEGIN that is accepted declares a complete bundle: canonical identifiers, a FULL
  with sequence 0 and no parent or an INCREMENTAL with another parent and a positive sequence,
  a seed only for a FULL, distinct canonical paths, all three metadata files and at least one
  disk, metadata dense and bounded, and no file with more payload than bytes.\<close>

theorem parse_begin_wf:
  assumes "parse_begin isotime v = Inr d"
  shows "declaration_wf d"
  using assms by (rule begin_declaration_wf)

end
