(* ===== verification/TransferStaging.thy ===== *)
theory TransferStaging
  imports TransferProtocol "HOL-Library.Word"
begin

text \<open>
  The staging session of the receiver (\<open>ReceiverStagingSession\<close> and
  \<open>run_receiver_transfer\<close> in \<open>receiver_transfer.py\<close>): preparing the staging directories,
  writing checksummed extents and holes into declared files, and the command loop.

  The filesystem is a map from paths to nodes. Every system call is numbered by \<open>sg_tick\<close>;
  the environment decides which calls fail with \<open>OSError\<close> (\<open>re_fail\<close>) and how many bytes a
  \<open>pwrite\<close> transfers (\<open>re_count\<close>), so a theorem over all environments covers every failure
  and every short write. SHA-256, \<open>json.loads\<close>, the resolver service and the marker file
  of a seed are parameters of the environment too. Writing to stdout is taken to succeed.
\<close>

type_synonym byte = "8 word"

datatype node = Dir | Symlink | File "byte list" | JsonFile json

record open_file =
  of_declared :: declared_file
  of_received :: int
  of_extents :: "(int \<times> int) list"

record staging =
  sg_decl :: transfer_declaration
  sg_namespace :: string
  sg_fs :: "string \<Rightarrow> node option"
  sg_current :: "open_file option"
  sg_completed :: "string list"
  sg_open :: "string list"
  sg_tick :: nat

record receiver_env =
  re_fail :: "nat \<Rightarrow> bool"
  re_count :: "nat \<Rightarrow> nat \<Rightarrow> nat"
  re_sha256 :: "byte list \<Rightarrow> string"
  re_loads :: "byte list \<Rightarrow> json option"
  re_isotime :: "string \<Rightarrow> bool option"
  re_resolve :: "string \<Rightarrow> dict result"
  re_marker :: "string \<Rightarrow> json option"

type_synonym 'a sop = "(staging, 'a) op"

section \<open>System calls and paths\<close>

text \<open>A call that fails with \<open>OSError\<close> when the environment says so.\<close>

definition sys :: "receiver_env \<Rightarrow> unit sop" where
  "sys env = (\<lambda>s. (if re_fail env (sg_tick s) then Inl OSError else Inr (),
                   s\<lparr>sg_tick := sg_tick s + 1\<rparr>))"

definition set_node :: "string \<Rightarrow> node \<Rightarrow> unit sop" where
  "set_node p n = update (\<lambda>s. s\<lparr>sg_fs := (sg_fs s)(p \<mapsto> n)\<rparr>)"

definition slash :: "string \<Rightarrow> string \<Rightarrow> string" where "slash p q = p @ ''/'' @ q"

definition staging_dir :: "staging \<Rightarrow> string" where
  "staging_dir s = slash (sg_namespace s) ''staging''"

definition root_dir :: "staging \<Rightarrow> string" where
  "root_dir s = slash (staging_dir s) (td_transfer_id (sg_decl s))"

definition bundle_dir :: "staging \<Rightarrow> string" where "bundle_dir s = slash (root_dir s) ''bundle''"

definition metadata_dir :: "staging \<Rightarrow> string" where
  "metadata_dir s = slash (bundle_dir s) ''metadata''"

definition disks_dir :: "staging \<Rightarrow> string" where "disks_dir s = slash (bundle_dir s) ''disks''"

definition after_slash :: "string \<Rightarrow> string" where
  "after_slash p = drop 1 (dropWhile (\<lambda>c. c \<noteq> CHR ''/'') p)"

definition filesystem_path :: "staging \<Rightarrow> string \<Rightarrow> string" where
  "filesystem_path s relative =
     (if prefix ''metadata/'' relative then slash (metadata_dir s) (after_slash relative)
      else slash (disks_dir s) (after_slash relative))"

section \<open>Preparing the staging directories\<close>

definition real_directory :: "receiver_env \<Rightarrow> string \<Rightarrow> unit sop" where
  "real_directory env p =
     reading (\<lambda>s. case sg_fs s p of
       None \<Rightarrow> raise (ReceiverTransferError ''TRANSFER_STAGING_UNAVAILABLE'')
     | Some n \<Rightarrow>
         andthen (rethrow (ReceiverTransferError ''TRANSFER_STAGING_UNAVAILABLE'') (sys env)) (\<lambda>_.
         if n \<noteq> Dir then raise (ReceiverTransferError ''TRANSFER_STAGING_UNSAFE'') else ret ()))"

definition mkdir_real :: "receiver_env \<Rightarrow> string \<Rightarrow> bool \<Rightarrow> unit sop" where
  "mkdir_real env p exist_ok =
     reading (\<lambda>s. if sg_fs s p \<noteq> None then
         (if \<not> exist_ok then raise (ReceiverTransferError ''TRANSFER_ALREADY_EXISTS'')
          else real_directory env p)
       else
         andthen (rethrow (ReceiverTransferError ''TRANSFER_STAGING_UNAVAILABLE'')
           (andthen (sys env) (\<lambda>_. andthen (set_node p Dir) (\<lambda>_. sys env)))) (\<lambda>_.
         real_directory env p))"

definition fsync_directory :: "receiver_env \<Rightarrow> unit sop" where
  "fsync_directory env =
     andthen (rethrow (ReceiverTransferError ''TRANSFER_STAGING_UNSAFE'') (sys env)) (\<lambda>_. sys env)"

text \<open>
  \<open>_atomic_json\<close>: open and write a temporary file, replace the target, sync the directory.
  The temporary file is gone afterwards in every case.
\<close>

definition atomic_json :: "receiver_env \<Rightarrow> string \<Rightarrow> json \<Rightarrow> unit sop" where
  "atomic_json env p v =
     andthen (sys env) (\<lambda>_. andthen (sys env) (\<lambda>_. andthen (sys env) (\<lambda>_.
       andthen (set_node p (JsonFile v)) (\<lambda>_. fsync_directory env))))"

definition state_record :: "transfer_declaration \<Rightarrow> string \<Rightarrow> json" where
  "state_record d state =
     JObj [(''protocol_version'', JInt 1), (''state'', JStr state),
       (''transfer_id'', JStr (td_transfer_id d)), (''storage_id'', JStr (td_storage_id d)),
       (''vm_id'', JStr (td_vm_id d)),
       (''restore_point'', JObj [(''id'', JStr (td_restore_point_id d)),
          (''chain_id'', JStr (td_chain_id d)), (''job_run_id'', JStr (td_job_run_id d)),
          (''kind'', JStr (td_kind d)), (''sequence'', JInt (td_sequence d)),
          (''parent_restore_point_id'', opt_json (td_parent d)),
          (''created_at'', JStr (td_created_at d))]),
       (''seed_restore_point_id'', opt_json (td_seed d)),
       (''files'', JList (map (\<lambda>f. JObj [(''path'', JStr (df_path f)),
          (''logical_size'', JInt (df_logical_size f)),
          (''payload_bytes'', JInt (df_payload_bytes f))]) (td_files d)))]"

text \<open>
  \<open>_seed_disks\<close>: the published marker of the seed must match, and every declared disk must
  be a regular file of the declared size there; each is cloned. Whatever goes wrong becomes
  one error.
\<close>

definition seed_source :: "transfer_declaration \<Rightarrow> json option \<Rightarrow> string list option" where
  "seed_source d marker =
     (case marker of
        Some (JObj m) \<Rightarrow>
          (if dget m ''state'' \<noteq> Some (JStr ''PUBLISHED'') \<or>
              dget m ''storage_id'' \<noteq> Some (JStr (td_storage_id d)) \<or>
              dget m ''vm_id'' \<noteq> Some (JStr (td_vm_id d)) \<or>
              dget m ''kind'' \<noteq> Some (JStr ''FULL'')
           then None
           else case dget m ''bundle_object_id'' of
             Some (JStr b) \<Rightarrow>
               (if path_is_absolute b \<or> ''..'' \<in> set (path_parts b) \<or> path_parts b = [] \<or>
                   hd (path_parts b) \<noteq> ''vms''
                then None else Some (path_parts b))
           | _ \<Rightarrow> None)
      | _ \<Rightarrow> None)"

definition clone_disk :: "receiver_env \<Rightarrow> string \<Rightarrow> declared_file \<Rightarrow> unit sop" where
  "clone_disk env source_disks f =
     (if is_metadata f then ret ()
      else reading (\<lambda>s. case sg_fs s (slash source_disks (after_slash (df_path f))) of
          Some (File content) \<Rightarrow>
            (if int (length content) \<noteq> df_logical_size f then raise (ValueError ''seed disk incompatible'')
             else andthen (sys env) (\<lambda>_. set_node (filesystem_path s (df_path f)) (File content)))
        | _ \<Rightarrow> raise (ValueError ''seed disk incompatible'')))"

definition seed_disks :: "receiver_env \<Rightarrow> unit sop" where
  "seed_disks env =
     reading (\<lambda>s.
       let d = sg_decl s;
           storage_root = path_parent (sg_namespace s);
           marker = slash (slash storage_root ''.vmbackupd-replica-state/published'')
                      ((case td_seed d of None \<Rightarrow> ''None'' | Some i \<Rightarrow> i) @ ''.json'')
       in case seed_source d (re_marker env marker) of
            None \<Rightarrow> raise (ReceiverTransferError ''TRANSFER_SEED_UNAVAILABLE'')
          | Some parts \<Rightarrow>
              rethrow (ReceiverTransferError ''TRANSFER_SEED_UNAVAILABLE'')
                (each (clone_disk env
                   (slash (slash storage_root (join_with CHR ''/'' parts)) ''disks''))
                  (td_files d)))"

definition prepare :: "receiver_env \<Rightarrow> unit sop" where
  "prepare env =
     reading (\<lambda>s.
       andthen (real_directory env (sg_namespace s)) (\<lambda>_.
       andthen (mkdir_real env (staging_dir s) True) (\<lambda>_.
       andthen (mkdir_real env (root_dir s) False) (\<lambda>_.
       andthen (each (\<lambda>p. mkdir_real env p False) [bundle_dir s, metadata_dir s, disks_dir s]) (\<lambda>_.
       andthen (if td_seed (sg_decl s) \<noteq> None then seed_disks env else ret ()) (\<lambda>_.
       andthen (fsync_directory env) (\<lambda>_.
       atomic_json env (slash (root_dir s) ''transfer.json'')
         (state_record (sg_decl s) ''RECEIVING''))))))))"

section \<open>Receiving files\<close>

definition open_descriptor :: "string \<Rightarrow> unit sop" where
  "open_descriptor p = update (\<lambda>s. s\<lparr>sg_open := p # sg_open s\<rparr>)"

definition close_descriptor :: "string \<Rightarrow> unit sop" where
  "close_descriptor p = update (\<lambda>s. s\<lparr>sg_open := remove1 p (sg_open s)\<rparr>)"

definition open_seeded :: "receiver_env \<Rightarrow> string \<Rightarrow> int \<Rightarrow> unit sop" where
  "open_seeded env p logical_size =
     reading (\<lambda>s. case sg_fs s p of
         Some (File content) \<Rightarrow>
           andthen (sys env) (\<lambda>_. andthen (open_descriptor p) (\<lambda>_. andthen (sys env) (\<lambda>_.
             if int (length content) \<noteq> logical_size then raise OSError else ret ())))
       | _ \<Rightarrow> raise OSError)"

definition create_file :: "receiver_env \<Rightarrow> string \<Rightarrow> int \<Rightarrow> unit sop" where
  "create_file env p logical_size =
     andthen (sys env) (\<lambda>_. andthen (set_node p (File [])) (\<lambda>_. andthen (open_descriptor p) (\<lambda>_.
     andthen (sys env) (\<lambda>_. andthen (sys env) (\<lambda>_.
       set_node p (File (replicate (nat logical_size) 0)))))))"

definition begin_file :: "receiver_env \<Rightarrow> string \<Rightarrow> unit sop" where
  "begin_file env relative0 =
     reading (\<lambda>s. if sg_current s \<noteq> None
       then raise (ReceiverTransferError ''TRANSFER_FILE_STATE_INVALID'')
       else
         andthen (lift (bundle_path (JStr relative0))) (\<lambda>relative.
         if relative \<in> set (sg_completed s)
         then raise (ReceiverTransferError ''TRANSFER_FILE_DUPLICATE'')
         else
           andthen (lift (declared_file_of (sg_decl s) relative)) (\<lambda>declared.
           let p = filesystem_path s relative;
               seeded = (td_seed (sg_decl s) \<noteq> None \<and> \<not> is_metadata declared)
           in if sg_fs s p = Some Symlink \<or> (sg_fs s p \<noteq> None \<and> \<not> seeded)
              then raise (ReceiverTransferError ''TRANSFER_FILE_EXISTS'')
              else
                andthen (rethrow (ReceiverTransferError ''TRANSFER_FILE_CREATE_FAILED'')
                  (if seeded then open_seeded env p (df_logical_size declared)
                   else create_file env p (df_logical_size declared))) (\<lambda>_.
                update (\<lambda>s. s\<lparr>sg_current :=
                  Some \<lparr>of_declared = declared, of_received = 0, of_extents = []\<rparr>\<rparr>)))))"

text \<open>
  \<open>os.pwrite\<close>: at most the bytes given are written, at the offset; the result is how many.
\<close>

definition overwrite :: "byte list \<Rightarrow> nat \<Rightarrow> byte list \<Rightarrow> byte list" where
  "overwrite content off bytes =
     take off (content @ replicate (off - length content) 0) @ bytes @
     drop (off + length bytes) content"

definition pwrite :: "receiver_env \<Rightarrow> string \<Rightarrow> byte list \<Rightarrow> nat \<Rightarrow> nat sop" where
  "pwrite env p bytes off =
     andthen (sys env) (\<lambda>_. reading (\<lambda>s.
       let n = min (re_count env (sg_tick s) (length bytes)) (length bytes)
       in case sg_fs s p of
            Some (File content) \<Rightarrow>
              andthen (set_node p (File (overwrite content off (take n bytes)))) (\<lambda>_. ret n)
          | _ \<Rightarrow> raise OSError))"

function write_loop :: "receiver_env \<Rightarrow> string \<Rightarrow> byte list \<Rightarrow> nat \<Rightarrow> nat \<Rightarrow> unit sop" where
  "write_loop env p payload off written s =
     (if written < length payload then
        (case pwrite env p (drop written payload) (off + written) s of
           (Inl e, s') \<Rightarrow> (Inl e, s')
         | (Inr sent, s') \<Rightarrow>
             if sent = 0 then (Inl (ReceiverTransferError ''TRANSFER_WRITE_FAILED''), s')
             else write_loop env p payload off (written + sent) s')
      else (Inr (), s))"
  by pat_completeness auto
termination
  by (relation "measure (\<lambda>(env, p, payload, off, written, s). length payload - written)") auto

declare write_loop.simps [simp del]

function hole_loop :: "receiver_env \<Rightarrow> string \<Rightarrow> nat \<Rightarrow> nat \<Rightarrow> unit sop" where
  "hole_loop env p pos remaining s =
     (if remaining = 0 then (Inr (), s)
      else
        (case pwrite env p (replicate (min (1024 * 1024) remaining) 0) pos s of
           (Inl e, s') \<Rightarrow> (Inl e, s')
         | (Inr sent, s') \<Rightarrow>
             if sent = 0 then (Inl (ReceiverTransferError ''TRANSFER_WRITE_FAILED''), s')
             else hole_loop env p (pos + sent) (remaining - sent) s'))"
  by pat_completeness auto
termination
  by (relation "measure (\<lambda>(env, p, pos, remaining, s). remaining)") auto

declare hole_loop.simps [simp del]

definition sha256_form :: "string \<Rightarrow> bool" where
  "sha256_form s = (length s = 64 \<and> list_all is_lower_hex s)"

definition overlaps :: "int \<Rightarrow> int \<Rightarrow> (int \<times> int) list \<Rightarrow> bool" where
  "overlaps offset end extents = list_ex (\<lambda>(start, stop). offset < stop \<and> end > start) extents"

definition record_extent :: "int \<Rightarrow> int \<Rightarrow> unit sop" where
  "record_extent offset end =
     update (\<lambda>s. s\<lparr>sg_current := map_option (\<lambda>c.
       c\<lparr>of_received := of_received c + (end - offset),
         of_extents := of_extents c @ [(offset, end)]\<rparr>) (sg_current s)\<rparr>)"

definition check_extent ::
  "receiver_env \<Rightarrow> open_file \<Rightarrow> json \<Rightarrow> int \<Rightarrow> json \<Rightarrow> byte list \<Rightarrow> (int \<times> int) result" where
  "check_extent env current offset0 length0 sha payload =
     bnd (proto_integer offset0 0) (\<lambda>offset. bnd (proto_integer (JInt length0) 1) (\<lambda>len.
     let end = offset + len in
     if len > max_extent_bytes then transfer_error ''TRANSFER_EXTENT_TOO_LARGE''
     else if end < offset \<or> end > df_logical_size (of_declared current)
     then transfer_error ''TRANSFER_EXTENT_RANGE_INVALID''
     else case sha of
       JStr h \<Rightarrow>
         (if \<not> sha256_form h then transfer_error ''TRANSFER_CHECKSUM_INVALID''
          else if int (length payload) \<noteq> len then transfer_error ''TRANSFER_PAYLOAD_TRUNCATED''
          else if overlaps offset end (of_extents current)
          then transfer_error ''TRANSFER_EXTENT_OVERLAP''
          else if of_received current + len > df_payload_bytes (of_declared current)
          then transfer_error ''TRANSFER_PAYLOAD_EXCEEDED''
          else if re_sha256 env payload \<noteq> h then transfer_error ''TRANSFER_CHECKSUM_MISMATCH''
          else Inr (offset, end))
     | _ \<Rightarrow> transfer_error ''TRANSFER_CHECKSUM_INVALID''))"

definition current_path :: "staging \<Rightarrow> open_file \<Rightarrow> string" where
  "current_path s c = filesystem_path s (df_path (of_declared c))"

definition write_extent :: "receiver_env \<Rightarrow> json \<Rightarrow> int \<Rightarrow> json \<Rightarrow> byte list \<Rightarrow> unit sop" where
  "write_extent env offset0 length0 sha payload =
     reading (\<lambda>s. case sg_current s of
       None \<Rightarrow> raise (ReceiverTransferError ''TRANSFER_FILE_STATE_INVALID'')
     | Some current \<Rightarrow>
         andthen (lift (check_extent env current offset0 length0 sha payload)) (\<lambda>(offset, end).
         andthen (write_loop env (current_path s current) payload (nat offset) 0) (\<lambda>_.
         record_extent offset end)))"

definition write_hole :: "receiver_env \<Rightarrow> json \<Rightarrow> json \<Rightarrow> unit sop" where
  "write_hole env offset0 length0 =
     reading (\<lambda>s. case sg_current s of
       None \<Rightarrow> raise (ReceiverTransferError ''TRANSFER_FILE_STATE_INVALID'')
     | Some current \<Rightarrow>
         if is_metadata (of_declared current)
         then raise (ReceiverTransferError ''TRANSFER_FILE_STATE_INVALID'')
         else
           andthen (lift (proto_integer offset0 0)) (\<lambda>offset.
           andthen (lift (proto_integer length0 1)) (\<lambda>len.
           if offset + len > df_logical_size (of_declared current)
           then raise (ReceiverTransferError ''TRANSFER_EXTENT_RANGE_INVALID'')
           else hole_loop env (current_path s current) (nat offset) (nat len))))"

text \<open>The descriptor is closed whether or not \<open>fsync\<close> succeeds; then the file is complete.\<close>

definition end_file :: "receiver_env \<Rightarrow> string sop" where
  "end_file env =
     reading (\<lambda>s. case sg_current s of
       None \<Rightarrow> raise (ReceiverTransferError ''TRANSFER_FILE_STATE_INVALID'')
     | Some current \<Rightarrow>
         let declared = of_declared current in
         if of_received current \<noteq> df_payload_bytes declared
         then raise (ReceiverTransferError ''TRANSFER_PAYLOAD_INCOMPLETE'')
         else if is_metadata declared \<and> of_received current \<noteq> df_logical_size declared
         then raise (ReceiverTransferError ''TRANSFER_METADATA_INCOMPLETE'')
         else
           andthen (\<lambda>s0. case sys env s0 of
               (Inl e, s1) \<Rightarrow> andthen (close_descriptor (current_path s current)) (\<lambda>_. raise e) s1
             | (Inr _, s1) \<Rightarrow> andthen (close_descriptor (current_path s current)) (\<lambda>_. sys env) s1) (\<lambda>_.
           andthen (update (\<lambda>s. s\<lparr>sg_current := None,
               sg_completed := List.insert (df_path declared) (sg_completed s)\<rparr>)) (\<lambda>_.
           ret (df_path declared))))"

definition response :: "string \<Rightarrow> dict \<Rightarrow> dict" where
  "response status values =
     [(''service'', JStr ''vmbackupd-receiver''), (''protocol_version'', JInt 1),
      (''status'', JStr status)] @ values"

definition receipt_of :: "transfer_declaration \<Rightarrow> nat \<Rightarrow> dict" where
  "receipt_of d completed =
     response ''STAGING_COMPLETE''
       [(''transfer_id'', JStr (td_transfer_id d)), (''storage_id'', JStr (td_storage_id d)),
        (''restore_point_id'', JStr (td_restore_point_id d)),
        (''files_completed'', JInt (int completed)),
        (''payload_bytes'', JInt (total_payload_bytes d))]"

definition finish :: "receiver_env \<Rightarrow> dict sop" where
  "finish env =
     reading (\<lambda>s. if sg_current s \<noteq> None
       then raise (ReceiverTransferError ''TRANSFER_FILE_STATE_INVALID'')
       else if set (sg_completed s) \<noteq> set (map df_path (td_files (sg_decl s)))
       then raise (ReceiverTransferError ''TRANSFER_FILE_SET_INCOMPLETE'')
       else
         let receipt = receipt_of (sg_decl s) (length (sg_completed s)) in
         andthen (each (\<lambda>_. fsync_directory env) [metadata_dir s, disks_dir s, bundle_dir s]) (\<lambda>_.
         andthen (atomic_json env (slash (root_dir s) ''receipt.json'') (JObj receipt)) (\<lambda>_.
         andthen (atomic_json env (slash (root_dir s) ''transfer.json'')
           (state_record (sg_decl s) ''STAGING_COMPLETE'')) (\<lambda>_.
         andthen (fsync_directory env) (\<lambda>_. ret receipt)))))"

definition close_open_file :: "staging \<Rightarrow> staging" where
  "close_open_file s =
     (case sg_current s of
        None \<Rightarrow> s
      | Some c \<Rightarrow> s\<lparr>sg_open := remove1 (current_path s c) (sg_open s), sg_current := None\<rparr>)"

section \<open>The command loop\<close>

text \<open>\<open>_read_control\<close> and \<open>_read_exact\<close>: the rest of the stream is returned too.\<close>

definition newline :: byte where "newline = 10"

definition read_line :: "byte list \<Rightarrow> nat \<Rightarrow> byte list" where
  "read_line src limit =
     (let body = takeWhile (\<lambda>b. b \<noteq> newline) src;
          line = take (length body + 1) src
      in take limit line)"

definition read_control :: "receiver_env \<Rightarrow> byte list \<Rightarrow> (dict \<times> byte list) result" where
  "read_control env src =
     (let line = read_line src (max_control_line + 1) in
      if line = [] \<or> length line > max_control_line \<or> last line \<noteq> newline
      then transfer_error ''TRANSFER_PROTOCOL_INVALID''
      else case re_loads env line of
        Some (JObj d) \<Rightarrow> Inr (d, drop (length line) src)
      | _ \<Rightarrow> transfer_error ''TRANSFER_PROTOCOL_INVALID'')"

definition read_exact :: "byte list \<Rightarrow> nat \<Rightarrow> (byte list \<times> byte list) result" where
  "read_exact src n =
     (if length src < n then transfer_error ''TRANSFER_PAYLOAD_TRUNCATED''
      else Inr (take n src, drop n src))"

text \<open>
  One round of the loop: the command's effect, what is emitted, and whether it was FINISH.
  The rest of the stream is part of the result.
\<close>

datatype progress = Continue "dict list" "byte list" | Finished dict

definition extent_step :: "receiver_env \<Rightarrow> dict \<Rightarrow> byte list \<Rightarrow> progress sop" where
  "extent_step env command src =
     andthen (lift (extent_command (JObj command))) (\<lambda>(offset, len0, sha).
     andthen (lift (proto_integer len0 1)) (\<lambda>len.
     if len > max_extent_bytes then raise (ReceiverTransferError ''TRANSFER_EXTENT_TOO_LARGE'')
     else andthen (lift (read_exact src (nat len))) (\<lambda>(payload, rest).
     andthen (write_extent env offset len sha payload) (\<lambda>_. ret (Continue [] rest)))))"

definition hole_step :: "receiver_env \<Rightarrow> dict \<Rightarrow> byte list \<Rightarrow> progress sop" where
  "hole_step env command src =
     (if dkeys command \<noteq> {''protocol_version'', ''operation'', ''offset'', ''length''}
      then raise (ReceiverTransferError ''TRANSFER_PROTOCOL_INVALID'')
      else if \<not> py_eq_int (dget_or command ''protocol_version'' JNull) 1
      then raise (ReceiverTransferError ''TRANSFER_PROTOCOL_INVALID'')
      else andthen (lift (dindex command ''offset'')) (\<lambda>offset.
        andthen (lift (dindex command ''length'')) (\<lambda>len.
        andthen (write_hole env offset len) (\<lambda>_. ret (Continue [] src)))))"

definition file_end_step :: "receiver_env \<Rightarrow> dict \<Rightarrow> byte list \<Rightarrow> progress sop" where
  "file_end_step env command src =
     andthen (lift (file_command (JObj command) ''FILE_END'')) (\<lambda>path.
     reading (\<lambda>s. case sg_current s of
         None \<Rightarrow> raise (ReceiverTransferError ''TRANSFER_FILE_STATE_INVALID'')
       | Some c \<Rightarrow>
           if df_path (of_declared c) \<noteq> path
           then raise (ReceiverTransferError ''TRANSFER_FILE_STATE_INVALID'')
           else andthen (end_file env) (\<lambda>completed.
             ret (Continue [response ''FILE_COMPLETE'' [(''path'', JStr completed)]] src))))"

definition transfer_step :: "receiver_env \<Rightarrow> dict \<Rightarrow> byte list \<Rightarrow> progress sop" where
  "transfer_step env command src =
     (let operation = dget_or command ''operation'' JNull in
      if operation = JStr ''FILE_BEGIN'' then
        andthen (lift (file_command (JObj command) ''FILE_BEGIN'')) (\<lambda>path.
        andthen (begin_file env path) (\<lambda>_.
        ret (Continue [response ''FILE_READY'' [(''path'', JStr path)]] src)))
      else if operation = JStr ''EXTENT'' then extent_step env command src
      else if operation = JStr ''HOLE'' then hole_step env command src
      else if operation = JStr ''FILE_END'' then file_end_step env command src
      else if operation = JStr ''FINISH'' then
        andthen (lift (finish_command (JObj command))) (\<lambda>_.
        andthen (finish env) (\<lambda>receipt. ret (Finished receipt)))
      else raise (ReceiverTransferError ''TRANSFER_PROTOCOL_INVALID''))"

lemma read_control_shorter:
  assumes "read_control env src = Inr (d, rest)"
  shows "length rest < length src"
proof -
  let ?line = "read_line src (max_control_line + 1)"
  from assms have "?line \<noteq> []" "rest = drop (length ?line) src"
    by (auto simp: read_control_def Let_def split: if_splits option.splits json.splits)
  moreover have "length ?line \<le> length src" by (simp add: read_line_def Let_def)
  ultimately show ?thesis by (cases ?line) auto
qed

lemma transfer_step_shorter:
  assumes "transfer_step env command src s = (Inr (Continue out rest), s')"
  shows "length rest \<le> length src"
  using assms
  by (auto simp: transfer_step_def extent_step_def hole_step_def file_end_step_def Let_def andthen_Inr
      op_Inr read_exact_def split: if_splits option.splits)

function transfer_loop ::
  "receiver_env \<Rightarrow> byte list \<Rightarrow> dict list \<Rightarrow> staging \<Rightarrow> dict result \<times> dict list \<times> staging" where
  "transfer_loop env src out s =
     (case read_control env src of
        Inl e \<Rightarrow> (Inl e, out, s)
      | Inr (command, rest) \<Rightarrow>
          (case transfer_step env command rest s of
             (Inl e, s') \<Rightarrow> (Inl e, out, s')
           | (Inr (Finished receipt), s') \<Rightarrow> (Inr receipt, out, s')
           | (Inr (Continue outs rest'), s') \<Rightarrow> transfer_loop env rest' (out @ outs) s'))"
  by pat_completeness auto
termination
  by (relation "measure (\<lambda>(env, src, out, s). length src)")
    (auto, metis le_less_trans read_control_shorter transfer_step_shorter)

declare transfer_loop.simps [simp del]

section \<open>A whole transfer\<close>

definition check_storage :: "transfer_declaration \<Rightarrow> dict \<Rightarrow> string result" where
  "check_storage d storage =
     (case dget_or storage ''usable_after_reserve_bytes'' JNull of
        JInt usable \<Rightarrow>
          (if usable < 0 then transfer_error ''TRANSFER_CAPACITY_INVALID''
           else if total_payload_bytes d > usable then transfer_error ''TRANSFER_CAPACITY_EXCEEDED''
           else case dget_or storage ''receiver_namespace'' JNull of
             JStr ns \<Rightarrow>
               (if ns = [] then transfer_error ''TRANSFER_STAGING_UNAVAILABLE''
                else if \<not> path_is_absolute ns \<or> path_names ns = [] \<or>
                        last (path_names ns) \<noteq> ''.vmbackupd-receiver'' \<or>
                        ''..'' \<in> set (path_parts ns)
                then transfer_error ''TRANSFER_STAGING_UNSAFE''
                else Inr (path_str ns))
           | _ \<Rightarrow> transfer_error ''TRANSFER_STAGING_UNAVAILABLE'')
      | _ \<Rightarrow> transfer_error ''TRANSFER_CAPACITY_INVALID'')"

definition resolve_storage :: "receiver_env \<Rightarrow> string \<Rightarrow> dict result" where
  "resolve_storage env storage_id =
     (case re_resolve env storage_id of
        Inl (ReceiverResolverError code) \<Rightarrow> transfer_error code
      | r \<Rightarrow> r)"

definition accept_begin ::
  "receiver_env \<Rightarrow> byte list \<Rightarrow> (transfer_declaration \<times> string \<times> byte list) result" where
  "accept_begin env src =
     bnd (read_control env src) (\<lambda>(begin_record, rest).
     bnd (parse_begin (re_isotime env) (JObj begin_record)) (\<lambda>d.
     bnd (resolve_storage env (td_storage_id d)) (\<lambda>storage.
     bnd (check_storage d storage) (\<lambda>namespace. Inr (d, namespace, rest)))))"

definition new_session ::
  "transfer_declaration \<Rightarrow> string \<Rightarrow> (string \<Rightarrow> node option) \<Rightarrow> staging" where
  "new_session d namespace fs =
     \<lparr>sg_decl = d, sg_namespace = namespace, sg_fs = fs, sg_current = None, sg_completed = [],
      sg_open = [], sg_tick = 0\<rparr>"

definition ready_response :: "transfer_declaration \<Rightarrow> dict" where
  "ready_response d =
     response ''READY''
       [(''transfer_id'', JStr (td_transfer_id d)), (''storage_id'', JStr (td_storage_id d)),
        (''restore_point_id'', JStr (td_restore_point_id d)),
        (''files'', JInt (int (length (td_files d)))),
        (''payload_bytes'', JInt (total_payload_bytes d))]"

definition error_response :: "exn \<Rightarrow> dict" where
  "error_response e =
     response ''ERROR'' [(''error'', JObj [(''code'', JStr (case e of
        ReceiverTransferError code \<Rightarrow> code | _ \<Rightarrow> ''TRANSFER_INTERNAL_ERROR''))])]"

definition exit_code :: "exn \<Rightarrow> nat" where
  "exit_code e = (case e of ReceiverTransferError _ \<Rightarrow> 65 | _ \<Rightarrow> 70)"

text \<open>
  \<open>run_receiver_transfer\<close>: the exit code, what was emitted, and the final session (if one
  was opened).
\<close>

definition run_transfer ::
  "receiver_env \<Rightarrow> byte list \<Rightarrow> (string \<Rightarrow> node option) \<Rightarrow> nat \<times> dict list \<times> staging option" where
  "run_transfer env src fs =
     (case accept_begin env src of
        Inl e \<Rightarrow> (exit_code e, [error_response e], None)
      | Inr (d, namespace, rest) \<Rightarrow>
          (case prepare env (new_session d namespace fs) of
             (Inl e, s) \<Rightarrow> (exit_code e, [error_response e], Some (close_open_file s))
           | (Inr _, s) \<Rightarrow>
               (case transfer_loop env rest [ready_response d] s of
                  (Inl e, out, s') \<Rightarrow>
                    (exit_code e, out @ [error_response e], Some (close_open_file s'))
                | (Inr receipt, out, s') \<Rightarrow> (0, out @ [receipt], Some s'))))"

end
