(* ===== verification/Sender.thy ===== *)
theory Sender
  imports Replicas TransferStaging
begin

text \<open>
  The sending side of a replica transfer (\<open>replica_sender.py\<close>): the inspection of a published
  bundle, the plan, and the client that talks to the receiver over the pipes of an SSH process.

  \<open>bundle_env\<close> is the local filesystem as the sender sees it: at inspection (\<open>bu_open\<close> and the
  two seeks) and again when a file is sent (\<open>bu_reopen\<close>, \<open>bu_after\<close>). \<open>sender_env\<close> holds
  \<open>json.dumps\<close>, \<open>json.loads\<close>, SHA-256 and what the process does: which writes fail, when the
  stop event is set, and the exit status. A pipe is the bytes written so far and the replies not
  yet read. Sizes and offsets are never negative. The dictionaries are written with their keys in
  the order in which \<open>sort_keys\<close> puts them on the wire.
\<close>

section \<open>The local bundle\<close>

record file_stat =
  fi_device :: nat
  fi_inode :: nat
  fi_size :: nat
  fi_mtime :: int

datatype seek = Position nat | No_more_data | Not_supported | Seek_failed

record bundle_env =
  bu_symlink :: "string \<Rightarrow> bool"
  bu_directory :: "string \<Rightarrow> bool option"
  bu_entries :: "string \<Rightarrow> string list"
  bu_open :: "string \<Rightarrow> (bool \<times> file_stat \<times> byte list) option"
  bu_seek_data :: "string \<Rightarrow> nat \<Rightarrow> seek"
  bu_seek_hole :: "string \<Rightarrow> nat \<Rightarrow> seek"
  bu_reopen :: "string \<Rightarrow> (bool \<times> file_stat \<times> byte list) option"
  bu_after :: "string \<Rightarrow> file_stat"

record source_file =
  sf_path :: string
  sf_source :: string
  sf_logical_size :: nat
  sf_payload_bytes :: nat
  sf_extents :: "(nat \<times> nat) list"
  sf_stat :: file_stat
  sf_holes :: "(nat \<times> nat) list"

abbreviation sender_error :: "string \<Rightarrow> 'a result" where
  "sender_error message \<equiv> Inl (ReplicaSenderError message)"

definition sender_uuid :: "json \<Rightarrow> string result" where
  "sender_uuid v =
     (case v of
        JStr s \<Rightarrow> if uuid_form s then Inr s else sender_error ''must be a canonical UUID''
      | _ \<Rightarrow> sender_error ''must be a UUID'')"

definition reject_symlink_chain :: "bundle_env \<Rightarrow> string \<Rightarrow> unit result" where
  "reject_symlink_chain b p =
     (if list_ex (bu_symlink b) (path_chain p) then sender_error ''bundle path contains symlink'' else Inr ())"

definition open_regular :: "(bool \<times> file_stat \<times> byte list) option \<Rightarrow> (file_stat \<times> byte list) result" where
  "open_regular found =
     (case found of
        None \<Rightarrow> sender_error ''cannot safely open bundle file''
      | Some (regular, info, content) \<Rightarrow>
          if regular then Inr (info, content) else sender_error ''bundle entry is not a regular file'')"

definition some_extents :: "(nat \<times> nat) list \<Rightarrow> (nat \<times> nat) list result" where
  "some_extents found = (if found = [] then sender_error ''qcow2 source has no DATA extents'' else Inr found)"

function data_extents ::
  "bundle_env \<Rightarrow> string \<Rightarrow> nat \<Rightarrow> nat \<Rightarrow> (nat \<times> nat) list \<Rightarrow> (nat \<times> nat) list result" where
  "data_extents b p total_len position found =
     (if position < total_len then
        (case bu_seek_data b p position of
           No_more_data \<Rightarrow> some_extents found
         | Not_supported \<Rightarrow> sender_error ''filesystem does not support reliable SEEK_DATA/SEEK_HOLE''
         | Seek_failed \<Rightarrow> sender_error ''cannot enumerate sparse DATA extent''
         | Position data \<Rightarrow>
             if data < position \<or> total_len \<le> data then sender_error ''filesystem returned invalid DATA extent''
             else (case bu_seek_hole b p data of
                 Position hole \<Rightarrow>
                   if min hole total_len \<le> data then sender_error ''filesystem returned invalid HOLE extent''
                   else data_extents b p total_len (min hole total_len) (found @ [(data, min hole total_len - data)])
               | _ \<Rightarrow> sender_error ''cannot enumerate sparse HOLE extent''))
      else some_extents found)"
  by pat_completeness auto
termination
  by (relation "measure (\<lambda>(b, p, total_len, position, found). total_len - position)") auto

declare data_extents.simps [simp del]

definition sparse_extents :: "bundle_env \<Rightarrow> string \<Rightarrow> nat \<Rightarrow> (nat \<times> nat) list result" where
  "sparse_extents b p total_len =
     (if total_len = 0 then sender_error ''disk file is empty'' else data_extents b p total_len 0 [])"

definition metadata_file :: "bundle_env \<Rightarrow> string \<Rightarrow> string \<Rightarrow> source_file result" where
  "metadata_file b base name =
     (let p = joined (joined base ''metadata'') name in
      bnd (reject_symlink_chain b p) (\<lambda>_.
      bnd (open_regular (bu_open b p)) (\<lambda>(info, _).
      if fi_size info = 0 \<or> int (fi_size info) > max_metadata_bytes
      then sender_error ''metadata file has invalid size''
      else Inr \<lparr>sf_path = ''metadata/'' @ name, sf_source = p, sf_logical_size = fi_size info,
                sf_payload_bytes = fi_size info, sf_extents = [(0, fi_size info)], sf_stat = info,
                sf_holes = []\<rparr>)))"

text \<open>\<open>_SAFE_DISK\<close> is the same class as the receiver's, on the bare name.\<close>

definition safe_disk :: "string \<Rightarrow> bool" where
  "safe_disk name = (suffix ''.qcow2'' name \<and> target_ok (take (length name - 6) name))"

definition disk_file :: "bundle_env \<Rightarrow> string \<Rightarrow> string \<Rightarrow> source_file result" where
  "disk_file b disks name =
     (let p = joined disks name in
      if \<not> safe_disk name then sender_error ''unsafe disk bundle name''
      else
        bnd (reject_symlink_chain b p) (\<lambda>_.
        bnd (open_regular (bu_open b p)) (\<lambda>(info, _).
        bnd (sparse_extents b p (fi_size info)) (\<lambda>extents.
        let payload = sum_list (map snd extents) in
        if payload = 0 \<or> payload > fi_size info then sender_error ''invalid sparse disk payload size''
        else Inr \<lparr>sf_path = ''disks/'' @ name, sf_source = p, sf_logical_size = fi_size info,
                  sf_payload_bytes = payload, sf_extents = extents, sf_stat = info, sf_holes = []\<rparr>))))"

definition check_directory :: "bundle_env \<Rightarrow> string \<Rightarrow> string \<Rightarrow> string \<Rightarrow> unit result" where
  "check_directory b p missing unsafe =
     bnd (reject_symlink_chain b p) (\<lambda>_.
     case bu_directory b p of
       None \<Rightarrow> sender_error missing
     | Some ok \<Rightarrow> if ok then Inr () else sender_error unsafe)"

definition required_names :: "string list" where
  "required_names = [''domain.xml'', ''manifest.json'', ''restore-point.json'']"

definition inspect_published_bundle :: "bundle_env \<Rightarrow> string \<Rightarrow> source_file list result" where
  "inspect_published_bundle b object_id =
     (if \<not> path_is_absolute object_id \<or> ''..'' \<in> set (path_parts object_id)
      then sender_error ''published bundle path is unsafe''
      else
        let base = path_str object_id; metadata = joined base ''metadata''; disks = joined base ''disks'' in
        bnd (check_directory b base ''published bundle is unavailable''
               ''published bundle is not a real directory'') (\<lambda>_.
        bnd (check_directory b metadata ''published bundle layout is incomplete''
               ''published bundle layout is unsafe'') (\<lambda>_.
        bnd (check_directory b disks ''published bundle layout is incomplete''
               ''published bundle layout is unsafe'') (\<lambda>_.
        if set (bu_entries b metadata) \<noteq> set required_names
        then sender_error ''published bundle metadata set is not canonical''
        else if bu_entries b disks = [] then sender_error ''published bundle contains no disks''
        else
          bnd (map_result (metadata_file b base) required_names) (\<lambda>ms.
          bnd (map_result (disk_file b disks) (sort (bu_entries b disks))) (\<lambda>ds.
          if length (ms @ ds) > max_files then sender_error ''published bundle exceeds receiver file limit''
          else Inr (ms @ ds)))))))"

section \<open>The plan\<close>

record transfer_plan =
  tp_transfer_id :: string
  tp_storage_id :: string
  tp_vm_id :: string
  tp_restore_point_id :: string
  tp_chain_id :: string
  tp_job_run_id :: string
  tp_kind :: string
  tp_sequence :: int
  tp_parent :: "string option"
  tp_created_at :: string
  tp_files :: "source_file list"
  tp_seed :: "string option"

fun backup_kind_value :: "backup_kind \<Rightarrow> string" where
  "backup_kind_value FULL = ''FULL''"
| "backup_kind_value INCREMENTAL = ''INCREMENTAL''"

definition build_transfer_plan ::
  "text_env \<Rightarrow> bundle_env \<Rightarrow> json \<Rightarrow> rpoint \<Rightarrow> string \<Rightarrow> storage \<Rightarrow> transfer_plan result" where
  "build_transfer_plan te b task_id point machine_id destination =
     (let remote = storage_value destination ''remote_storage_id''; bundle_id = po_bundle_object_id point in
      if st_type destination \<noteq> SSH then sender_error ''replica destination is not SSH''
      else if \<not> truthy remote then sender_error ''SSH replica destination has no remote storage ID''
      else if \<not> truthy bundle_id then sender_error ''Restore Point has no published primary bundle''
      else
        bnd (sender_uuid task_id) (\<lambda>transfer_id.
        bnd (sender_uuid remote) (\<lambda>storage_id.
        bnd (sender_uuid (JStr machine_id)) (\<lambda>machine.
        bnd (sender_uuid (JStr (po_id point))) (\<lambda>point_id.
        bnd (sender_uuid (po_chain_id point)) (\<lambda>chain_id.
        bnd (sender_uuid (JStr (po_run_id point))) (\<lambda>run_id.
        bnd (if truthy (po_parent point) then bnd (sender_uuid (po_parent point)) (\<lambda>s. Inr (Some s))
             else Inr None) (\<lambda>parent.
        bnd (case bundle_id of JStr s \<Rightarrow> inspect_published_bundle b s | _ \<Rightarrow> Inl TypeError) (\<lambda>fs.
        Inr \<lparr>tp_transfer_id = transfer_id, tp_storage_id = storage_id, tp_vm_id = machine,
             tp_restore_point_id = point_id, tp_chain_id = chain_id, tp_job_run_id = run_id,
             tp_kind = backup_kind_value (po_kind point), tp_sequence = po_sequence point,
             tp_parent = parent, tp_created_at = te_iso te (po_created_at point), tp_files = fs,
             tp_seed = None\<rparr>)))))))))"

section \<open>The pipes of the SSH process\<close>

record sender_env =
  se_dumps :: "json \<Rightarrow> byte list"
  se_loads :: "byte list \<Rightarrow> json option"
  se_sha256 :: "byte list \<Rightarrow> string"
  se_broken :: "nat \<Rightarrow> bool"
  se_stop :: "nat \<Rightarrow> bool"
  se_starts :: bool
  se_exit :: "int option"

record pipe =
  pi_sent :: "byte list"
  pi_replies :: "byte list"
  pi_progress :: "nat list"

type_synonym 'a pop = "(pipe, 'a) op"

abbreviation sender_raise :: "string \<Rightarrow> 'a pop" where
  "sender_raise message \<equiv> raise (ReplicaSenderError message)"

definition write_bytes :: "sender_env \<Rightarrow> byte list \<Rightarrow> unit pop" where
  "write_bytes se bytes = reading (\<lambda>p. if se_broken se (length (pi_sent p)) then raise OSError
     else update (\<lambda>p. p\<lparr>pi_sent := pi_sent p @ bytes\<rparr>))"

definition control_line :: "sender_env \<Rightarrow> dict \<Rightarrow> byte list" where
  "control_line se d = se_dumps se (JObj d) @ [newline]"

definition write_control :: "sender_env \<Rightarrow> dict \<Rightarrow> unit pop" where
  "write_control se d = write_bytes se (control_line se d)"

definition check_cancel :: "sender_env \<Rightarrow> unit pop" where
  "check_cancel se = reading (\<lambda>p. if se_stop se (length (pi_sent p)) then raise ReplicaTransferCancelledError
     else ret ())"

definition max_response_line :: nat where "max_response_line = 64 * 1024"

definition read_reply :: "sender_env \<Rightarrow> string \<Rightarrow> string \<Rightarrow> string \<Rightarrow> dict pop" where
  "read_reply se missing no_json no_object =
     reading (\<lambda>p.
       let line = read_line (pi_replies p) (max_response_line + 1) in
       andthen (update (\<lambda>p. p\<lparr>pi_replies := drop (length line) (pi_replies p)\<rparr>)) (\<lambda>_.
       if line = [] \<or> length line > max_response_line \<or> last line \<noteq> newline then sender_raise missing
       else case se_loads se line of
         None \<Rightarrow> sender_raise no_json
       | Some (JObj v) \<Rightarrow> ret v
       | Some _ \<Rightarrow> sender_raise no_object))"

definition from_receiver :: "dict \<Rightarrow> bool" where
  "from_receiver v = (dget v ''service'' = Some (JStr ''vmbackupd-receiver'') \<and>
     py_eq_int (dget_or v ''protocol_version'' JNull) 1)"

definition read_response :: "sender_env \<Rightarrow> string \<Rightarrow> dict pop" where
  "read_response se expected =
     andthen (read_reply se ''receiver response is missing or oversized''
       ''receiver response is not valid JSON'' ''receiver response is not an object'') (\<lambda>v.
     if \<not> from_receiver v then sender_raise ''receiver protocol identity mismatch''
     else if dget v ''status'' = Some (JStr ''ERROR'') then sender_raise ''receiver rejected transfer''
     else if dget v ''status'' \<noteq> Some (JStr expected) then sender_raise ''unexpected receiver status''
     else ret v)"

text \<open>\<open>str(error.get("code", default))\<close> of the error object, for a code that is a text.\<close>

definition error_code :: "dict \<Rightarrow> string \<Rightarrow> string" where
  "error_code v default_code =
     (case dget_or v ''error'' JNull of
        JObj e \<Rightarrow> (case dget_or e ''code'' (JStr default_code) of JStr c \<Rightarrow> c | _ \<Rightarrow> [])
      | _ \<Rightarrow> default_code)"

definition read_publish_response :: "sender_env \<Rightarrow> dict pop" where
  "read_publish_response se =
     andthen (read_reply se ''receiver publish response is missing or oversized''
       ''receiver publish response is not valid JSON'' ''receiver publish protocol identity mismatch'') (\<lambda>v.
     if \<not> from_receiver v then sender_raise ''receiver publish protocol identity mismatch''
     else if dget v ''status'' = Some (JStr ''ERROR'')
     then raise (ReplicaPublishRejectedError (error_code v ''PUBLISH_FAILED''))
     else if dget v ''status'' \<noteq> Some (JStr ''PUBLISHED'')
     then sender_raise ''unexpected receiver publish status''
     else ret v)"

text \<open>Waiting for the process: no status within the timeout, or one that is not zero, raises.\<close>

definition wait_exit :: "sender_env \<Rightarrow> unit pop" where
  "wait_exit se =
     (case se_exit se of
        None \<Rightarrow> sender_raise ''SSH receiver did not terminate''
      | Some c \<Rightarrow> if c \<noteq> 0 then sender_raise ''SSH transport failed'' else ret ())"

section \<open>The SSH command\<close>

record ssh_env =
  sh_trusted :: "json \<Rightarrow> json \<Rightarrow> bool"
  sh_identity :: "string option"
  sh_identity_exists :: "string \<Rightarrow> bool"
  sh_private_key :: "string \<Rightarrow> string"
  sh_known_hosts :: string

definition text_of :: "json \<Rightarrow> string" where
  "text_of v = (case v of JStr s \<Rightarrow> s | JInt i \<Rightarrow> int_text i | _ \<Rightarrow> [])"

definition ssh_argv :: "ssh_env \<Rightarrow> storage \<Rightarrow> string \<Rightarrow> string list result" where
  "ssh_argv h destination cmd =
     (let host = storage_value destination ''ssh_host''; port = storage_value destination ''ssh_port'';
          user = storage_value destination ''ssh_user'' in
      if \<not> truthy host \<or> \<not> truthy port \<or> \<not> truthy user then sender_error ''SSH replica endpoint is incomplete''
      else if \<not> sh_trusted h host port then sender_error ''SSH receiver host key is not explicitly trusted''
      else case sh_identity h of
        None \<Rightarrow> sender_error ''shared SSH identity is not configured''
      | Some i \<Rightarrow>
          if i = [] then sender_error ''shared SSH identity is not configured''
          else if \<not> sh_identity_exists h i then sender_error ''shared SSH identity does not exist''
          else Inr
            [''ssh'', ''-T'', ''-o'', ''BatchMode=yes'', ''-o'', ''IdentitiesOnly=yes'',
             ''-o'', ''IdentityAgent=none'', ''-o'', ''StrictHostKeyChecking=yes'',
             ''-o'', ''UserKnownHostsFile='' @ sh_known_hosts h, ''-o'', ''GlobalKnownHostsFile=/dev/null'',
             ''-o'', ''UpdateHostKeys=no'', ''-o'', ''CheckHostIP=no'', ''-o'', ''PasswordAuthentication=no'',
             ''-o'', ''KbdInteractiveAuthentication=no'', ''-o'', ''GSSAPIAuthentication=no'',
             ''-o'', ''NumberOfPasswordPrompts=0'', ''-o'', ''ConnectTimeout=10'',
             ''-o'', ''ServerAliveInterval=15'', ''-o'', ''ServerAliveCountMax=3'', ''-o'', ''LogLevel=ERROR'',
             ''-i'', sh_private_key h i, ''-p'', text_of port, text_of user @ ''@'' @ text_of host, cmd])"

section \<open>Sending a file\<close>

definition begin_file_record :: "source_file \<Rightarrow> json" where
  "begin_file_record f = JObj [(''logical_size'', JInt (int (sf_logical_size f))), (''path'', JStr (sf_path f)),
     (''payload_bytes'', JInt (int (sf_payload_bytes f)))]"

definition begin_record :: "transfer_plan \<Rightarrow> dict" where
  "begin_record p =
     [(''files'', JList (map begin_file_record (tp_files p))), (''operation'', JStr ''BEGIN''),
      (''protocol_version'', JInt 1),
      (''restore_point'', JObj
        [(''chain_id'', JStr (tp_chain_id p)), (''created_at'', JStr (tp_created_at p)),
         (''id'', JStr (tp_restore_point_id p)), (''job_run_id'', JStr (tp_job_run_id p)),
         (''kind'', JStr (tp_kind p)), (''parent_restore_point_id'', opt_json (tp_parent p)),
         (''sequence'', JInt (tp_sequence p))])] @
     (case tp_seed p of None \<Rightarrow> [] | Some s \<Rightarrow> [(''seed_restore_point_id'', JStr s)]) @
     [(''storage_id'', JStr (tp_storage_id p)), (''transfer_id'', JStr (tp_transfer_id p)),
      (''vm_id'', JStr (tp_vm_id p))]"

definition file_record :: "string \<Rightarrow> string \<Rightarrow> dict" where
  "file_record operation path =
     [(''operation'', JStr operation), (''path'', JStr path), (''protocol_version'', JInt 1)]"

definition extent_record :: "nat \<Rightarrow> nat \<Rightarrow> string \<Rightarrow> dict" where
  "extent_record offset len digest =
     [(''length'', JInt (int len)), (''offset'', JInt (int offset)), (''operation'', JStr ''EXTENT''),
      (''protocol_version'', JInt 1), (''sha256'', JStr digest)]"

definition hole_record :: "nat \<Rightarrow> nat \<Rightarrow> dict" where
  "hole_record offset len =
     [(''length'', JInt (int len)), (''offset'', JInt (int offset)), (''operation'', JStr ''HOLE''),
      (''protocol_version'', JInt 1)]"

definition finish_record :: dict where
  "finish_record = [(''operation'', JStr ''FINISH''), (''protocol_version'', JInt 1)]"

definition chunk_limit :: nat where "chunk_limit = nat max_extent_bytes"

function send_extent :: "sender_env \<Rightarrow> byte list \<Rightarrow> nat \<Rightarrow> nat \<Rightarrow> unit pop" where
  "send_extent se content position remaining =
     (if remaining = 0 then ret ()
      else
        andthen (check_cancel se) (\<lambda>_.
        if length content < position + min remaining chunk_limit
        then sender_raise ''source bundle changed during transfer''
        else
          andthen (write_control se (extent_record position (min remaining chunk_limit)
             (se_sha256 se (take (min remaining chunk_limit) (drop position content))))) (\<lambda>_.
          andthen (write_bytes se (take (min remaining chunk_limit) (drop position content))) (\<lambda>_.
          andthen (update (\<lambda>p. p\<lparr>pi_progress := pi_progress p @ [min remaining chunk_limit]\<rparr>)) (\<lambda>_.
          send_extent se content (position + min remaining chunk_limit)
            (remaining - min remaining chunk_limit))))))"
  by pat_completeness auto
termination
  by (relation "measure (\<lambda>(se, content, position, remaining). remaining)")
    (auto simp: chunk_limit_def max_extent_bytes_def)

declare send_extent.simps [simp del]

definition send_file :: "sender_env \<Rightarrow> bundle_env \<Rightarrow> source_file \<Rightarrow> unit pop" where
  "send_file se b f =
     andthen (check_cancel se) (\<lambda>_.
     andthen (write_control se (file_record ''FILE_BEGIN'' (sf_path f))) (\<lambda>_.
     andthen (read_response se ''FILE_READY'') (\<lambda>_.
     andthen (lift (open_regular (bu_reopen b (sf_source f)))) (\<lambda>(before, content).
     if before \<noteq> sf_stat f \<or> fi_size before \<noteq> sf_logical_size f
     then sender_raise ''source bundle file changed before transfer''
     else
       andthen (each (\<lambda>(offset, len). send_extent se content offset len) (sf_extents f)) (\<lambda>_.
       andthen (each (\<lambda>(offset, len). andthen (check_cancel se) (\<lambda>_.
           write_control se (hole_record offset len))) (sf_holes f)) (\<lambda>_.
       if bu_after b (sf_source f) \<noteq> sf_stat f \<or> fi_size (bu_after b (sf_source f)) \<noteq> sf_logical_size f
       then sender_raise ''source bundle file changed during transfer''
       else
         andthen (write_control se (file_record ''FILE_END'' (sf_path f))) (\<lambda>_.
         andthen (read_response se ''FILE_COMPLETE'') (\<lambda>_. ret ()))))))))"

section \<open>Negotiating a seed\<close>

definition clip_extents :: "(nat \<times> nat) list \<Rightarrow> nat \<Rightarrow> nat \<Rightarrow> (nat \<times> nat) list" where
  "clip_extents extents start len =
     map (\<lambda>(offset, width). (max start offset, min (start + len) (offset + width) - max start offset))
       (filter (\<lambda>(offset, width). max start offset < min (start + len) (offset + width)) extents)"

fun gaps :: "nat \<Rightarrow> nat \<Rightarrow> (nat \<times> nat) list \<Rightarrow> (nat \<times> nat) list" where
  "gaps stop cursor [] = (if cursor < stop then [(cursor, stop - cursor)] else [])"
| "gaps stop cursor ((offset, width) # data) =
     (if cursor < offset then [(cursor, offset - cursor)] else []) @ gaps stop (max cursor (offset + width)) data"

definition hole_ranges :: "(nat \<times> nat) list \<Rightarrow> nat \<Rightarrow> nat \<Rightarrow> (nat \<times> nat) list" where
  "hole_ranges extents start len = gaps (start + len) start (clip_extents extents start len)"

text \<open>\<open>_delta_file\<close> ends in a call of \<open>replace\<close>, a name the module does not import.\<close>

definition delta_file :: "source_file \<Rightarrow> (nat \<times> nat) list \<Rightarrow> source_file result" where
  "delta_file f changed = (if prefix ''metadata/'' (sf_path f) then Inr f else Inl NameError)"

definition source_block_signature :: "sender_env \<Rightarrow> bundle_env \<Rightarrow> source_file \<Rightarrow> nat \<Rightarrow> nat \<Rightarrow> string result" where
  "source_block_signature se b f offset len =
     bnd (open_regular (bu_reopen b (sf_source f))) (\<lambda>(before, content).
     if fi_size before \<noteq> sf_logical_size f
     then sender_error ''source bundle file changed during seed comparison''
     else if \<not> list_ex (\<lambda>(start, width). start < offset + len \<and> offset < start + width) (sf_extents f)
     then Inr ''HOLE''
     else if length content < offset + len
     then sender_error ''source bundle ended during seed comparison''
     else Inr (se_sha256 se (take len (drop offset content))))"

function block_starts :: "nat \<Rightarrow> nat \<Rightarrow> nat \<Rightarrow> (nat \<times> nat) list" where
  "block_starts block_bytes total_len offset =
     (if block_bytes = 0 \<or> total_len \<le> offset then []
      else (offset, min block_bytes (total_len - offset)) #
        block_starts block_bytes total_len (offset + min block_bytes (total_len - offset)))"
  by pat_completeness auto
termination
  by (relation "measure (\<lambda>(block_bytes, total_len, offset). total_len - offset)") auto

declare block_starts.simps [simp del]

definition max_batch :: nat where "max_batch = 128"

definition compare_record :: "string \<Rightarrow> ((nat \<times> nat) \<times> string) list \<Rightarrow> dict" where
  "compare_record path batch =
     [(''blocks'', JList (map (\<lambda>((offset, len), signature).
        JObj [(''length'', JInt (int len)), (''offset'', JInt (int offset)), (''signature'', JStr signature)]) batch)),
      (''operation'', JStr ''COMPARE''), (''path'', JStr path), (''protocol_version'', JInt 1)]"

function compare_batches ::
  "sender_env \<Rightarrow> string \<Rightarrow> ((nat \<times> nat) \<times> string) list \<Rightarrow> (nat \<times> nat) list pop" where
  "compare_batches se path blocks =
     (if blocks = [] then ret []
      else
        andthen (write_control se (compare_record path (take max_batch blocks))) (\<lambda>_.
        andthen (read_publish_response se) (\<lambda>v.
        case dget_or v ''same'' JNull of
          JList same \<Rightarrow>
            (if dget v ''status'' \<noteq> Some (JStr ''COMPARE_RESULT'') \<or> length same \<noteq> length (take max_batch blocks)
             then sender_raise ''receiver seed comparison response is invalid''
             else
               andthen (compare_batches se path (drop max_batch blocks)) (\<lambda>rest.
               ret (map (fst \<circ> fst) (filter (\<lambda>(block, equal). equal \<noteq> JBool True)
                      (zip (take max_batch blocks) same)) @ rest)))
        | _ \<Rightarrow> sender_raise ''receiver seed comparison response is invalid'')))"
  by pat_completeness auto
termination
  by (relation "measure (\<lambda>(se, path, blocks). length blocks)") (auto simp: max_batch_def)

declare compare_batches.simps [simp del]

definition compare_disk :: "sender_env \<Rightarrow> bundle_env \<Rightarrow> nat \<Rightarrow> source_file \<Rightarrow> (string \<times> (nat \<times> nat) list) pop" where
  "compare_disk se b block_bytes f =
     andthen (lift (map_result (\<lambda>(offset, len). bnd (source_block_signature se b f offset len)
         (\<lambda>signature. Inr ((offset, len), signature))) (block_starts block_bytes (sf_logical_size f) 0))) (\<lambda>blocks.
     andthen (compare_batches se (sf_path f) blocks) (\<lambda>changed. ret (sf_path f, changed)))"

fun collect_op :: "('a \<Rightarrow> 'b pop) \<Rightarrow> 'a list \<Rightarrow> 'b list pop" where
  "collect_op f [] = ret []"
| "collect_op f (x # xs) = andthen (f x) (\<lambda>y. andthen (collect_op f xs) (\<lambda>ys. ret (y # ys)))"

definition is_disk :: "source_file \<Rightarrow> bool" where "is_disk f = prefix ''disks/'' (sf_path f)"

definition seed_begin :: "transfer_plan \<Rightarrow> dict" where
  "seed_begin p =
     [(''files'', JList (map (\<lambda>f. JObj [(''logical_size'', JInt (int (sf_logical_size f))),
        (''path'', JStr (sf_path f))]) (filter is_disk (tp_files p)))),
      (''operation'', JStr ''BEGIN''), (''protocol_version'', JInt 1),
      (''storage_id'', JStr (tp_storage_id p)), (''vm_id'', JStr (tp_vm_id p))]"

definition int_value :: "json \<Rightarrow> int option" where
  "int_value v = (case v of JInt i \<Rightarrow> Some i | JBool b \<Rightarrow> Some (if b then 1 else 0) | _ \<Rightarrow> None)"

text \<open>
  The body of the \<open>try\<close>: \<open>None\<close> is a return of the unchanged plan. The seeded plan itself is
  built by \<open>replace\<close>, which raises \<open>NameError\<close>.
\<close>

definition seed_session :: "sender_env \<Rightarrow> bundle_env \<Rightarrow> transfer_plan \<Rightarrow> transfer_plan option pop" where
  "seed_session se b p =
     andthen (write_control se (seed_begin p)) (\<lambda>_.
     andthen (read_publish_response se) (\<lambda>v.
     if dget v ''status'' \<noteq> Some (JStr ''SEED_READY'') then ret None
     else case (dget_or v ''restore_point_id'' JNull, int_value (dget_or v ''block_bytes'' JNull)) of
       (JStr seed_id, Some block_bytes) \<Rightarrow>
         (if block_bytes \<le> 0 then ret None
          else
            andthen (collect_op (compare_disk se b (nat block_bytes)) (filter is_disk (tp_files p))) (\<lambda>changed.
            andthen (write_control se [(''operation'', JStr ''FINISH''), (''protocol_version'', JInt 1)]) (\<lambda>_.
            andthen (read_publish_response se) (\<lambda>finished.
            if se_exit se = None then sender_raise ''timeout''
            else if se_exit se \<noteq> Some 0 \<or> dget finished ''status'' \<noteq> Some (JStr ''DONE'') then ret None
            else
              andthen (lift (map_result (\<lambda>f. if is_disk f
                  then bnd (key_lookup (map_of changed (sf_path f))) (delta_file f) else Inr f) (tp_files p))) (\<lambda>fs.
              raise NameError)))))
     | _ \<Rightarrow> ret None))"

definition seeded_full_plan ::
  "sender_env \<Rightarrow> bundle_env \<Rightarrow> ssh_env \<Rightarrow> byte list \<Rightarrow> transfer_plan \<Rightarrow> storage \<Rightarrow> transfer_plan result" where
  "seeded_full_plan se b h replies p destination =
     (if tp_kind p \<noteq> ''FULL'' then Inr p
      else
        bnd (ssh_argv h destination ''vmbackupd-seed-v1'') (\<lambda>_.
        if \<not> se_starts se then Inr p
        else case seed_session se b p \<lparr>pi_sent = [], pi_replies = replies, pi_progress = []\<rparr> of
          (Inr (Some q), _) \<Rightarrow> Inr q
        | _ \<Rightarrow> Inr p))"

section \<open>The three sessions\<close>

definition transfer_session :: "sender_env \<Rightarrow> bundle_env \<Rightarrow> transfer_plan \<Rightarrow> dict pop" where
  "transfer_session se b p =
     andthen (write_control se (begin_record p)) (\<lambda>_.
     andthen (read_response se ''READY'') (\<lambda>_.
     andthen (each (send_file se b) (tp_files p)) (\<lambda>_.
     andthen (write_control se finish_record) (\<lambda>_.
     andthen (read_response se ''STAGING_COMPLETE'') (\<lambda>v.
     andthen (wait_exit se) (\<lambda>_. ret v))))))"

definition new_pipe :: "byte list \<Rightarrow> pipe" where
  "new_pipe replies = \<lparr>pi_sent = [], pi_replies = replies, pi_progress = []\<rparr>"

text \<open>
  \<open>transfer\<close>: the plan that was used, the result and the pipe; \<open>seed_replies\<close> is what the seed
  process answers, \<open>replies\<close> what the transfer process does.
\<close>

definition send_transfer ::
  "sender_env \<Rightarrow> bundle_env \<Rightarrow> ssh_env \<Rightarrow> byte list \<Rightarrow> byte list \<Rightarrow> transfer_plan \<Rightarrow> storage \<Rightarrow>
   (transfer_plan \<times> dict result \<times> pipe) result" where
  "send_transfer se b h seed_replies replies p destination =
     (if se_stop se 0 then Inl ReplicaTransferCancelledError
      else
        bnd (seeded_full_plan se b h seed_replies p destination) (\<lambda>q.
        bnd (ssh_argv h destination ''vmbackupd-transfer-v1'') (\<lambda>_.
        if \<not> se_starts se then sender_error ''cannot start SSH replica transport''
        else Inr (q, transfer_session se b q (new_pipe replies)))))"

definition publish_record :: "string \<Rightarrow> string \<Rightarrow> string \<Rightarrow> dict" where
  "publish_record storage_id transfer_id point_id =
     [(''operation'', JStr ''PUBLISH''), (''protocol_version'', JInt 1),
      (''restore_point_id'', JStr point_id), (''storage_id'', JStr storage_id),
      (''transfer_id'', JStr transfer_id)]"

definition same_identity :: "dict \<Rightarrow> (string \<times> string) list \<Rightarrow> bool" where
  "same_identity v expected = list_all (\<lambda>(k, s). dget v k = Some (JStr s)) expected"

definition publish_session :: "sender_env \<Rightarrow> string \<Rightarrow> string \<Rightarrow> string \<Rightarrow> dict pop" where
  "publish_session se storage_id transfer_id point_id =
     andthen (write_control se (publish_record storage_id transfer_id point_id)) (\<lambda>_.
     andthen (read_publish_response se) (\<lambda>v.
     andthen (wait_exit se) (\<lambda>_.
     if same_identity v [(''transfer_id'', transfer_id), (''storage_id'', storage_id),
          (''restore_point_id'', point_id)]
     then ret v else sender_raise ''receiver publication identity mismatch'')))"

definition send_publish ::
  "sender_env \<Rightarrow> ssh_env \<Rightarrow> byte list \<Rightarrow> json \<Rightarrow> json \<Rightarrow> storage \<Rightarrow> dict result" where
  "send_publish se h replies transfer_id0 point_id0 destination =
     (let remote = storage_value destination ''remote_storage_id'' in
      if \<not> truthy remote then sender_error ''SSH replica destination has no remote storage ID''
      else
        bnd (sender_uuid transfer_id0) (\<lambda>transfer_id.
        bnd (sender_uuid point_id0) (\<lambda>point_id.
        bnd (sender_uuid remote) (\<lambda>storage_id.
        bnd (ssh_argv h destination ''vmbackupd-publish-v1'') (\<lambda>_.
        if \<not> se_starts se then sender_error ''cannot start SSH replica publisher''
        else fst (publish_session se storage_id transfer_id point_id (new_pipe replies)))))))"

definition delete_record :: "string \<Rightarrow> string \<Rightarrow> string \<Rightarrow> dict" where
  "delete_record storage_id point_id bundle_id =
     [(''bundle_object_id'', JStr bundle_id), (''operation'', JStr ''RECLAIM_DELETE''),
      (''protocol_version'', JInt 1), (''restore_point_id'', JStr point_id),
      (''storage_id'', JStr storage_id)]"

definition delete_session :: "sender_env \<Rightarrow> string \<Rightarrow> string \<Rightarrow> string \<Rightarrow> dict pop" where
  "delete_session se storage_id point_id bundle_id =
     andthen (write_control se (delete_record storage_id point_id bundle_id)) (\<lambda>_.
     andthen (read_reply se ''receiver delete response is missing or oversized''
       ''receiver delete response is not valid JSON'' ''receiver delete protocol identity mismatch'') (\<lambda>v.
     if \<not> from_receiver v then sender_raise ''receiver delete protocol identity mismatch''
     else if dget v ''status'' = Some (JStr ''ERROR'') then sender_raise ''receiver rejected replica delete''
     else if dget v ''status'' \<noteq> Some (JStr ''DELETED'') then sender_raise ''unexpected receiver delete status''
     else if \<not> same_identity v [(''storage_id'', storage_id), (''restore_point_id'', point_id),
          (''bundle_object_id'', bundle_id)]
     then sender_raise ''receiver delete identity mismatch''
     else andthen (wait_exit se) (\<lambda>_. ret v)))"

definition send_delete ::
  "sender_env \<Rightarrow> ssh_env \<Rightarrow> byte list \<Rightarrow> json \<Rightarrow> json \<Rightarrow> string \<Rightarrow> storage \<Rightarrow> dict result" where
  "send_delete se h replies storage_id0 point_id0 bundle_id destination =
     bnd (sender_uuid storage_id0) (\<lambda>storage_id.
     bnd (sender_uuid point_id0) (\<lambda>point_id.
     bnd (ssh_argv h destination ''vmbackupd-reclaim-delete-v1'') (\<lambda>_.
     if \<not> se_starts se then sender_error ''cannot start SSH replica delete transport''
     else fst (delete_session se storage_id point_id bundle_id (new_pipe replies)))))"

end
