(* ===== verification/TransferProps.thy ===== *)
theory TransferProps
  imports TransferStaging
begin

text \<open>
  What the staging session guarantees: writes stay inside the transfer's own staging
  directory, short writes are completed, the session invariant (disjoint in-range extents,
  exact byte accounting, files of the declared size) holds after every command, and a
  receipt is only issued for a complete bundle.
\<close>

section \<open>Containment\<close>

definition inside :: "string \<Rightarrow> string \<Rightarrow> bool" where
  "inside r p \<longleftrightarrow> p = r \<or> prefix (r @ ''/'') p"

definition staged_only ::
  "transfer_declaration \<Rightarrow> string \<Rightarrow> (string \<Rightarrow> node option) \<Rightarrow> staging \<Rightarrow> bool" where
  "staged_only d ns fs s \<longleftrightarrow>
     sg_decl s = d \<and> sg_namespace s = ns \<and>
     (\<forall>p. sg_fs s p \<noteq> fs p \<longrightarrow> p = staging_dir s \<or> inside (root_dir s) p)"

lemma inside_slash: "inside r p \<Longrightarrow> inside r (slash p q)"
  by (auto simp: inside_def slash_def prefix_def)

lemma inside_self: "inside r r"
  by (simp add: inside_def)

lemma inside_dirs:
  "inside (root_dir s) (bundle_dir s)" "inside (root_dir s) (metadata_dir s)"
  "inside (root_dir s) (disks_dir s)" "inside (root_dir s) (slash (root_dir s) q)"
  "inside (root_dir s) (filesystem_path s q)"
  by (simp_all add: bundle_dir_def metadata_dir_def disks_dir_def filesystem_path_def
      inside_slash inside_self)

text \<open>The directories depend only on the namespace and the declaration.\<close>

lemma dirs_cong:
  assumes "sg_decl s = sg_decl t" and "sg_namespace s = sg_namespace t"
  shows "staging_dir s = staging_dir t" "root_dir s = root_dir t" "bundle_dir s = bundle_dir t"
    "metadata_dir s = metadata_dir t" "disks_dir s = disks_dir t"
    "filesystem_path s q = filesystem_path t q"
  using assms
  by (simp_all add: staging_dir_def root_dir_def bundle_dir_def metadata_dir_def disks_dir_def
      filesystem_path_def)

lemma keeps_sys [keeps_intros]:
  "(\<And>s n. P s \<Longrightarrow> P (s\<lparr>sg_tick := n\<rparr>)) \<Longrightarrow> keeps P (sys env)"
  by (simp add: keeps_def sys_def)

lemma contained_tick [intro]: "staged_only d ns fs s \<Longrightarrow> staged_only d ns fs (s\<lparr>sg_tick := n\<rparr>)"
  using dirs_cong [of "s\<lparr>sg_tick := n\<rparr>" s] by (simp add: staged_only_def)

lemma contained_session [intro]:
  "staged_only d ns fs s \<Longrightarrow> staged_only d ns fs (s\<lparr>sg_current := c\<rparr>)"
  "staged_only d ns fs s \<Longrightarrow> staged_only d ns fs (s\<lparr>sg_open := l\<rparr>)"
  "staged_only d ns fs s \<Longrightarrow> staged_only d ns fs (s\<lparr>sg_completed := l\<rparr>)"
  using dirs_cong [of "s\<lparr>sg_current := c\<rparr>" s] dirs_cong [of "s\<lparr>sg_open := l\<rparr>" s]
    dirs_cong [of "s\<lparr>sg_completed := l\<rparr>" s]
  by (simp_all add: staged_only_def)

lemma contained_set_node:
  assumes "staged_only d ns fs t" and "p = staging_dir t \<or> inside (root_dir t) p"
  shows "keeps (staged_only d ns fs) (set_node p n)"
  unfolding set_node_def
proof (rule keeps_update)
  fix s
  assume s: "staged_only d ns fs s"
  let ?s = "s\<lparr>sg_fs := (sg_fs s)(p \<mapsto> n)\<rparr>"
  have "staging_dir ?s = staging_dir t" "root_dir ?s = root_dir t"
    "staging_dir s = staging_dir t" "root_dir s = root_dir t"
    using s assms(1) by (auto intro!: dirs_cong simp: staged_only_def)
  with s assms(2) show "staged_only d ns fs ?s" by (auto simp: staged_only_def)
qed

lemma contained_real_directory [keeps_intros]: "keeps (staged_only d ns fs) (real_directory env p)"
  unfolding real_directory_def by (intro keeps_intros contained_tick)

lemma contained_fsync [keeps_intros]: "keeps (staged_only d ns fs) (fsync_directory env)"
  unfolding fsync_directory_def by (intro keeps_intros contained_tick)

lemma contained_mkdir:
  assumes "staged_only d ns fs t" and "p = staging_dir t \<or> inside (root_dir t) p"
  shows "keeps (staged_only d ns fs) (mkdir_real env p ok)"
  unfolding mkdir_real_def by (intro keeps_intros contained_tick contained_set_node [OF assms])

lemma contained_atomic_json:
  assumes "staged_only d ns fs t" and "inside (root_dir t) p"
  shows "keeps (staged_only d ns fs) (atomic_json env p v)"
  unfolding atomic_json_def
  by (intro keeps_intros contained_tick contained_set_node [OF assms(1) disjI2 [OF assms(2)]])

lemma contained_clone:
  "keeps (staged_only d ns fs) (clone_disk env source f)"
  unfolding clone_disk_def
  by (intro keeps_intros contained_tick)
    (auto intro!: keeps_intros contained_tick contained_set_node disjI2 inside_dirs
      split: option.split node.split)

lemma contained_prepare: "keeps (staged_only d ns fs) (prepare env)"
  unfolding prepare_def seed_disks_def Let_def
  by (intro keeps_intros contained_tick contained_clone)
    (auto intro!: keeps_intros contained_mkdir contained_atomic_json contained_clone inside_dirs
      simp: inside_self)

lemma contained_pwrite:
  assumes "staged_only d ns fs t"
  shows "keeps (staged_only d ns fs) (pwrite env (filesystem_path t q) bytes off)"
  unfolding pwrite_def Let_def
  by (intro keeps_intros contained_tick)
    (auto intro!: keeps_intros contained_set_node [OF assms] inside_dirs split: option.split node.split)

lemma contained_write_loop:
  assumes "staged_only d ns fs t" and "p = filesystem_path t q" and "staged_only d ns fs s"
  shows "staged_only d ns fs (snd (write_loop env p payload off w s))"
  using assms(2,3)
proof (induction env p payload off w s rule: write_loop.induct)
  case (1 env p payload off w s)
  obtain r s' where r: "pwrite env p (drop w payload) (off + w) s = (r, s')" by fastforce
  have s': "staged_only d ns fs s'"
    by (rule keepsD [OF contained_pwrite [OF assms(1)] 1(3) r [unfolded 1(2)]])
  show ?case
    using 1(1) [OF _ r [symmetric]] 1(2,3) s' r
    by (subst write_loop.simps) (auto split: sum.split)
qed

lemma contained_hole_loop:
  assumes "staged_only d ns fs t" and "p = filesystem_path t q" and "staged_only d ns fs s"
  shows "staged_only d ns fs (snd (hole_loop env p pos rem s))"
  using assms(2,3)
proof (induction env p pos rem s rule: hole_loop.induct)
  case (1 env p pos rem s)
  obtain r s' where r: "pwrite env p (replicate (min (1024 * 1024) rem) 0) pos s = (r, s')" by fastforce
  have s': "staged_only d ns fs s'"
    by (rule keepsD [OF contained_pwrite [OF assms(1)] 1(3) r [unfolded 1(2)]])
  show ?case
    using 1(1) [OF _ r [symmetric]] 1(2,3) s' r
    by (subst hole_loop.simps) (auto split: sum.split)
qed

lemma contained_create [keeps_intros]:
  assumes "staged_only d ns fs t"
  shows "keeps (staged_only d ns fs) (create_file env (filesystem_path t q) n)"
  unfolding create_file_def open_descriptor_def
  by (intro keeps_intros contained_tick contained_session contained_set_node [OF assms])
    (simp_all add: inside_dirs)

lemma contained_open_seeded [keeps_intros]: "keeps (staged_only d ns fs) (open_seeded env p n)"
  unfolding open_seeded_def open_descriptor_def
  by (intro keeps_intros contained_tick)
    (auto intro!: keeps_intros contained_tick contained_session split: option.split node.split)

lemma contained_begin_file [keeps_intros]: "keeps (staged_only d ns fs) (begin_file env q)"
  unfolding begin_file_def Let_def
  by (intro keeps_intros contained_session) auto

lemma contained_write_extent [keeps_intros]:
  "keeps (staged_only d ns fs) (write_extent env off len sha payload)"
proof -
  have "keeps (staged_only d ns fs) (write_loop env (current_path t c) payload o' 0)"
    if "staged_only d ns fs t" for t c o'
    unfolding keeps_def using contained_write_loop [OF that] by (simp add: current_path_def)
  then show ?thesis
    unfolding write_extent_def record_extent_def case_prod_unfold
    by (intro keeps_intros contained_session) auto
qed

lemma contained_write_hole [keeps_intros]: "keeps (staged_only d ns fs) (write_hole env off len)"
proof -
  have "keeps (staged_only d ns fs) (hole_loop env (current_path t c) o' n)"
    if "staged_only d ns fs t" for t c o' n
    unfolding keeps_def using contained_hole_loop [OF that] by (simp add: current_path_def)
  then show ?thesis
    unfolding write_hole_def by (intro keeps_intros) auto
qed

lemma contained_end_file [keeps_intros]: "keeps (staged_only d ns fs) (end_file env)"
proof -
  have "keeps (staged_only d ns fs) (\<lambda>s0. case sys env s0 of
               (Inl e, s1) \<Rightarrow> andthen (close_descriptor p) (\<lambda>_. raise e) s1
             | (Inr _, s1) \<Rightarrow> andthen (close_descriptor p) (\<lambda>_. sys env) s1)" for p
    unfolding keeps_def sys_def close_descriptor_def andthen_def update_def raise_def
    by (auto intro!: contained_tick contained_session)
  then show ?thesis
    unfolding end_file_def Let_def by (intro keeps_intros contained_session) auto
qed

lemma contained_finish [keeps_intros]: "keeps (staged_only d ns fs) (finish env)"
  unfolding finish_def Let_def
  by (intro keeps_intros contained_atomic_json) (auto simp: inside_dirs)

lemma contained_step: "keeps (staged_only d ns fs) (transfer_step env command src)"
  unfolding transfer_step_def extent_step_def hole_step_def file_end_step_def Let_def case_prod_unfold
  by (intro keeps_intros)

lemma contained_loop:
  "staged_only d ns fs s \<Longrightarrow> staged_only d ns fs (snd (snd (transfer_loop env src out s)))"
proof (induction env src out s rule: transfer_loop.induct)
  case (1 env src out s)
  show ?case
  proof (cases "read_control env src")
    case (Inr p)
    obtain command rest where p: "p = (command, rest)" by (cases p)
    obtain r s' where r: "transfer_step env command rest s = (r, s')" by fastforce
    have s': "staged_only d ns fs s'" by (rule keepsD [OF contained_step 1(2) r])
    with 1(1) Inr p r show ?thesis
      by (subst transfer_loop.simps) (auto split: sum.split progress.split)
  qed (use 1(2) in \<open>simp add: transfer_loop.simps\<close>)
qed


section \<open>Writing\<close>

lemma overwrite_length [simp]:
  "off + length bytes \<le> length content \<Longrightarrow> length (overwrite content off bytes) = length content"
  by (simp add: overwrite_def)

lemma overwrite_nth:
  assumes "off + length bytes \<le> length content" and "i < length content"
  shows "overwrite content off bytes ! i =
    (if off \<le> i \<and> i < off + length bytes then bytes ! (i - off) else content ! i)"
proof -
  have "overwrite content off bytes = take off content @ bytes @ drop (off + length bytes) content"
    using assms(1) by (simp add: overwrite_def)
  with assms show ?thesis by (auto simp: nth_append)
qed

lemma overwrite_Nil [simp]: "off \<le> length content \<Longrightarrow> overwrite content off [] = content"
  by (simp add: overwrite_def)

text \<open>Two writes, one after the other, are one write.\<close>

lemma overwrite_split:
  assumes "off + length bytes \<le> length content"
  shows "overwrite (overwrite content off (take n bytes)) (off + min n (length bytes)) (drop n bytes)
    = overwrite content off bytes"
proof (rule nth_equalityI)
  have len: "length (take n bytes) = min n (length bytes)" "length (drop n bytes) = length bytes - n"
    by simp_all
  have l1: "length (overwrite content off (take n bytes)) = length content" using assms by simp
  show "length (overwrite (overwrite content off (take n bytes)) (off + min n (length bytes)) (drop n bytes))
      = length (overwrite content off bytes)" using assms l1 by simp
  fix i
  assume "i < length (overwrite (overwrite content off (take n bytes)) (off + min n (length bytes))
      (drop n bytes))"
  then have "i < length content" using assms l1 by simp
  then show "overwrite (overwrite content off (take n bytes)) (off + min n (length bytes)) (drop n bytes) ! i
      = overwrite content off bytes ! i"
    using assms l1 by (auto simp: overwrite_nth min_def)
qed

lemma sys_Inr: "sys env s = (Inr u, s') \<Longrightarrow> s' = s\<lparr>sg_tick := sg_tick s + 1\<rparr>"
  by (auto simp: sys_def split: if_splits)

lemma set_node_Inr: "set_node p n s = (Inr u, s') \<Longrightarrow> s' = s\<lparr>sg_fs := (sg_fs s)(p \<mapsto> n)\<rparr>"
  by (auto simp: set_node_def op_Inr)

lemma pwrite_Inr:
  assumes "pwrite env p bytes off s = (Inr n, s')"
  shows "\<exists>content t. sg_fs s p = Some (File content) \<and> n \<le> length bytes \<and>
    s' = s\<lparr>sg_fs := (sg_fs s)(p \<mapsto> File (overwrite content off (take n bytes))), sg_tick := t\<rparr>"
proof -
  from assms obtain s1 where s1: "s1 = s\<lparr>sg_tick := sg_tick s + 1\<rparr>"
    and body: "(let n = min (re_count env (sg_tick s1) (length bytes)) (length bytes) in
      case sg_fs s1 p of
        Some (File content) \<Rightarrow>
          andthen (set_node p (File (overwrite content off (take n bytes)))) (\<lambda>_. ret n)
      | _ \<Rightarrow> raise OSError) s1 = (Inr n, s')"
    unfolding pwrite_def by (auto simp: andthen_Inr op_Inr dest: sys_Inr)
  from body obtain content where content: "sg_fs s1 p = Some (File content)"
    by (cases "sg_fs s1 p"; cases "the (sg_fs s1 p)") (auto simp: Let_def op_Inr)
  with body s1 show ?thesis
    by (intro exI [of _ content] exI [of _ "sg_tick s + 1"])
      (auto simp: Let_def andthen_Inr op_Inr dest!: set_node_Inr)
qed

lemma same_fs:
  "s\<lparr>sg_fs := (\<lambda>a. if a = p then x else sg_fs s a), sg_tick := t\<rparr> = s\<lparr>sg_fs := (sg_fs s)(p := x), sg_tick := t\<rparr>"
  by (rule arg_cong [of _ _ "\<lambda>f. s\<lparr>sg_fs := f, sg_tick := t\<rparr>"]) (simp add: fun_eq_iff)

text \<open>Short writes: when the loop returns, the whole payload is in place.\<close>

lemma write_loop_Inr:
  assumes "write_loop env p payload off w s = (Inr u, s')" and "sg_fs s p = Some (File content)"
    and "off + length payload \<le> length content" and "w \<le> length payload"
  shows "\<exists>t. s' = s\<lparr>sg_fs := (sg_fs s)(p \<mapsto> File (overwrite content (off + w) (drop w payload))),
    sg_tick := t\<rparr>"
  using assms
proof (induction env p payload off w s arbitrary: content rule: write_loop.induct)
  case (1 env p payload off w s)
  show ?case
  proof (cases "w < length payload")
    case False
    with "1.prems" have "s' = s" "w = length payload"
      by (simp_all add: write_loop.simps [of _ _ _ _ w])
    with "1.prems"(2,3) show ?thesis
      by (intro exI [of _ "sg_tick s"]) (simp add: fun_upd_idem)
  next
    case True
    with "1.prems"(1) obtain n s1 where n: "pwrite env p (drop w payload) (off + w) s = (Inr n, s1)"
      "n \<noteq> 0" "write_loop env p payload off (w + n) s1 = (Inr u, s')"
      by (subst (asm) write_loop.simps) (auto split: prod.splits sum.splits if_splits)
    from pwrite_Inr [OF n(1)] "1.prems"(2) obtain t where
      n': "n \<le> length (drop w payload)" and
      s1: "s1 = s\<lparr>sg_fs := (sg_fs s)(p \<mapsto> File (overwrite content (off + w) (take n (drop w payload)))),
        sg_tick := t\<rparr>" by auto
    let ?c = "overwrite content (off + w) (take n (drop w payload))"
    have len: "length ?c = length content" using "1.prems"(3) True n' by simp
    have "sg_fs s1 p = Some (File ?c)" by (simp add: s1)
    moreover have "off + length payload \<le> length ?c" "w + n \<le> length payload"
      using len "1.prems"(3) n' True by simp_all
    ultimately obtain t' where s': "s' = s1\<lparr>sg_fs := (sg_fs s1)(p \<mapsto>
        File (overwrite ?c (off + (w + n)) (drop (w + n) payload))), sg_tick := t'\<rparr>"
      using "1.IH" [OF True n(1) [symmetric] refl n(2) n(3)] by blast
    have "overwrite ?c (off + (w + n)) (drop (w + n) payload) = overwrite content (off + w) (drop w payload)"
      using overwrite_split [of "off + w" "drop w payload" content n] "1.prems"(3) True n'
      by (simp add: min_def add.assoc add.commute [of n w])
    then show ?thesis by (intro exI [of _ t']) (simp add: s' s1 same_fs)
  qed
qed

lemma hole_loop_Inr:
  assumes "hole_loop env p pos n s = (Inr u, s')" and "sg_fs s p = Some (File content)"
    and "pos + n \<le> length content"
  shows "\<exists>t. s' = s\<lparr>sg_fs := (sg_fs s)(p \<mapsto> File (overwrite content pos (replicate n 0))),
    sg_tick := t\<rparr>"
  using assms
proof (induction env p pos n s arbitrary: content rule: hole_loop.induct)
  case (1 env p pos n s)
  show ?case
  proof (cases "n = 0")
    case True
    with "1.prems"(1) have "s' = s" by (subst (asm) hole_loop.simps) simp
    with "1.prems"(2,3) True show ?thesis
      by (intro exI [of _ "sg_tick s"]) (simp add: fun_upd_idem)
  next
    case False
    let ?chunk = "replicate (min (1024 * 1024) n) (0 :: byte)"
    from False "1.prems"(1) obtain k s1 where k: "pwrite env p ?chunk pos s = (Inr k, s1)"
      "k \<noteq> 0" "hole_loop env p (pos + k) (n - k) s1 = (Inr u, s')"
      by (subst (asm) hole_loop.simps) (auto split: prod.splits sum.splits if_splits)
    from pwrite_Inr [OF k(1)] "1.prems"(2) obtain t where k': "k \<le> length ?chunk" and
      s1: "s1 = s\<lparr>sg_fs := (sg_fs s)(p \<mapsto> File (overwrite content pos (take k ?chunk))), sg_tick := t\<rparr>"
      by auto
    have kn: "k \<le> n" and chunk: "take k ?chunk = take k (replicate n 0)" using k' by auto
    let ?c = "overwrite content pos (take k ?chunk)"
    have len: "length ?c = length content" using "1.prems"(3) kn by (simp add: min_def)
    have "sg_fs s1 p = Some (File ?c)" by (simp add: s1)
    moreover have "pos + k + (n - k) \<le> length ?c" using len "1.prems"(3) kn by simp
    ultimately obtain t' where s': "s' = s1\<lparr>sg_fs := (sg_fs s1)(p \<mapsto>
        File (overwrite ?c (pos + k) (replicate (n - k) 0))), sg_tick := t'\<rparr>"
      using "1.IH" [OF False k(1) [symmetric] refl k(2) k(3)] by blast
    have "overwrite ?c (pos + k) (replicate (n - k) 0) = overwrite content pos (replicate n 0)"
      using overwrite_split [of pos "replicate n 0" content k] "1.prems"(3) kn
      by (simp only: chunk length_replicate drop_replicate min_absorb1)
    then show ?thesis by (intro exI [of _ t']) (simp add: s' s1 same_fs)
  qed
qed

section \<open>The session invariant\<close>

definition extents_ok :: "int \<Rightarrow> (int \<times> int) list \<Rightarrow> bool" where
  "extents_ok limit es \<longleftrightarrow>
     (\<forall>(a, b) \<in> set es. 0 \<le> a \<and> a < b \<and> b \<le> limit) \<and>
     sorted_wrt (\<lambda>(a, b) (c, d). d \<le> a \<or> b \<le> c) es"

definition covered :: "(int \<times> int) list \<Rightarrow> int" where
  "covered es = sum_list (map (\<lambda>(a, b). b - a) es)"

definition has_size :: "staging \<Rightarrow> declared_file \<Rightarrow> bool" where
  "has_size s f \<longleftrightarrow> (\<exists>content. sg_fs s (filesystem_path s (df_path f)) = Some (File content) \<and>
     int (length content) = df_logical_size f)"

definition session_ok :: "staging \<Rightarrow> bool" where
  "session_ok s \<longleftrightarrow>
     declaration_wf (sg_decl s) \<and> distinct (sg_completed s) \<and>
     set (sg_completed s) \<subseteq> set (map df_path (td_files (sg_decl s))) \<and>
     (\<forall>f \<in> set (td_files (sg_decl s)). df_path f \<in> set (sg_completed s) \<longrightarrow> has_size s f) \<and>
     (case sg_current s of
        None \<Rightarrow> sg_open s = []
      | Some c \<Rightarrow>
          of_declared c \<in> set (td_files (sg_decl s)) \<and>
          df_path (of_declared c) \<notin> set (sg_completed s) \<and>
          sg_open s = [current_path s c] \<and> has_size s (of_declared c) \<and>
          extents_ok (df_logical_size (of_declared c)) (of_extents c) \<and>
          of_received c = covered (of_extents c) \<and>
          of_received c \<le> df_payload_bytes (of_declared c))"

lemma filesystem_path_canonical:
  assumes "bundle_path (JStr q) = Inr q"
  shows "filesystem_path s q = slash (bundle_dir s) q"
proof -
  from bundle_path_parts [OF assms [unfolded bundle_path_Inr, THEN conjunct2]] obtain u w where
    q: "q = u @ CHR ''/'' # w" and u: "u \<in> {''metadata'', ''disks''}" by blast
  from u have "after_slash q = w" unfolding q after_slash_def by auto
  with u show ?thesis unfolding q
    by (auto simp: filesystem_path_def metadata_dir_def disks_dir_def slash_def prefix_def)
qed

lemma declared_path_inj:
  assumes "declaration_wf (sg_decl s)" and "f \<in> set (td_files (sg_decl s))"
    and "g \<in> set (td_files (sg_decl s))"
    and "filesystem_path s (df_path f) = filesystem_path s (df_path g)"
  shows "f = g"
proof -
  from assms(1-3) have "bundle_path (JStr (df_path f)) = Inr (df_path f)"
    "bundle_path (JStr (df_path g)) = Inr (df_path g)" "distinct (map df_path (td_files (sg_decl s)))"
    by (auto simp: declaration_wf_def file_wf_def)
  with assms(2-4) show ?thesis
    by (auto simp: filesystem_path_canonical slash_def distinct_map dest: inj_onD)
qed

lemma declared_file_of_Inr:
  "declared_file_of d q = Inr f \<Longrightarrow> f \<in> set (td_files d) \<and> df_path f = q"
  by (auto simp: declared_file_of_def find_Some_iff split: option.splits)

text \<open>Opening a file, when it succeeds.\<close>

lemma create_file_Inr:
  assumes "create_file env p n s = (Inr u, s')"
  shows "\<exists>t. s' = s\<lparr>sg_fs := (sg_fs s)(p \<mapsto> File (replicate (nat n) 0)), sg_open := p # sg_open s,
    sg_tick := t\<rparr>"
proof -
  from assms have "s' = s\<lparr>sg_open := p # sg_open s, sg_tick := Suc (Suc (Suc (sg_tick s))),
      sg_fs := (sg_fs s)(p \<mapsto> File (replicate (nat n) 0))\<rparr>"
    unfolding create_file_def open_descriptor_def
    by (auto simp: andthen_Inr op_Inr same_fs dest!: sys_Inr set_node_Inr)
  then show ?thesis by (intro exI [of _ "Suc (Suc (Suc (sg_tick s)))"]) (cases s, simp)
qed

lemma open_seeded_Inr:
  assumes "open_seeded env p n s = (Inr u, s')"
  shows "\<exists>content t. sg_fs s p = Some (File content) \<and> int (length content) = n \<and>
    s' = s\<lparr>sg_fs := (sg_fs s)(p \<mapsto> File content), sg_open := p # sg_open s, sg_tick := t\<rparr>"
proof -
  from assms obtain content where content: "sg_fs s p = Some (File content)"
    by (cases "sg_fs s p"; cases "the (sg_fs s p)") (auto simp: open_seeded_def op_Inr)
  with assms show ?thesis
    by (auto simp: open_seeded_def open_descriptor_def andthen_Inr op_Inr fun_upd_idem
        dest!: sys_Inr split: if_splits)
qed

lemma begin_file_Inr:
  assumes "begin_file env q s = (Inr u, s')" and wf: "declaration_wf (sg_decl s)"
  shows "\<exists>f content t. sg_current s = None \<and> f \<in> set (td_files (sg_decl s)) \<and> df_path f = q \<and>
    q \<notin> set (sg_completed s) \<and> int (length content) = df_logical_size f \<and>
    s' = s\<lparr>sg_fs := (sg_fs s)(filesystem_path s q \<mapsto> File content),
      sg_open := filesystem_path s q # sg_open s,
      sg_current := Some \<lparr>of_declared = f, of_received = 0, of_extents = []\<rparr>, sg_tick := t\<rparr>"
proof -
  from assms(1) obtain f s1 where f: "bundle_path (JStr q) = Inr q" "sg_current s = None"
      "q \<notin> set (sg_completed s)" "declared_file_of (sg_decl s) q = Inr f"
    and op: "(if td_seed (sg_decl s) \<noteq> None \<and> \<not> is_metadata f
      then open_seeded env (filesystem_path s q) (df_logical_size f)
      else create_file env (filesystem_path s q) (df_logical_size f)) s = (Inr (), s1)"
    and s': "s' = s1\<lparr>sg_current := Some \<lparr>of_declared = f, of_received = 0, of_extents = []\<rparr>\<rparr>"
    unfolding begin_file_def Let_def
    by (auto simp: andthen_Inr op_Inr rethrow_Inr bundle_path_Inr split: if_splits)
  from declared_file_of_Inr [OF f(4)] wf have fd: "f \<in> set (td_files (sg_decl s))" "df_path f = q"
    "0 < df_logical_size f" by (auto simp: declaration_wf_def file_wf_def)
  have "\<exists>content t. int (length content) = df_logical_size f \<and>
      s1 = s\<lparr>sg_fs := (sg_fs s)(filesystem_path s q \<mapsto> File content),
        sg_open := filesystem_path s q # sg_open s, sg_tick := t\<rparr>"
  proof (cases "td_seed (sg_decl s) \<noteq> None \<and> \<not> is_metadata f")
    case True
    with op show ?thesis using open_seeded_Inr by fastforce
  next
    case False
    with op have "create_file env (filesystem_path s q) (df_logical_size f) s = (Inr (), s1)"
      by (auto split: if_splits)
    from create_file_Inr [OF this] obtain t where
      "s1 = s\<lparr>sg_fs := (sg_fs s)(filesystem_path s q \<mapsto> File (replicate (nat (df_logical_size f)) 0)),
        sg_open := filesystem_path s q # sg_open s, sg_tick := t\<rparr>" by blast
    with fd(3) show ?thesis by (intro exI [of _ "replicate (nat (df_logical_size f)) 0"] exI [of _ t]) simp
  qed
  then obtain content t where "int (length content) = df_logical_size f"
    "s1 = s\<lparr>sg_fs := (sg_fs s)(filesystem_path s q \<mapsto> File content),
        sg_open := filesystem_path s q # sg_open s, sg_tick := t\<rparr>" by blast
  with f fd s' show ?thesis by (intro exI [of _ f] exI [of _ content] exI [of _ t]) simp
qed

lemma check_extent_Inr:
  assumes "check_extent env c off n sha payload = Inr (a, b)"
  shows "off = JInt a \<and> 0 \<le> a \<and> 1 \<le> n \<and> b = a + n \<and> n = int (length payload) \<and>
    b \<le> df_logical_size (of_declared c) \<and> \<not> overlaps a b (of_extents c) \<and>
    of_received c + n \<le> df_payload_bytes (of_declared c) \<and> sha = JStr (re_sha256 env payload) \<and>
    n \<le> max_extent_bytes"
  using assms
  by (auto simp: check_extent_def bnd_eq_Inr proto_integer_Inr Let_def split: if_splits json.splits)

lemma write_extent_Inr:
  assumes "write_extent env off n sha payload s = (Inr u, s')"
    and "sg_current s = Some c" and "sg_fs s (current_path s c) = Some (File content)"
    and "int (length content) = df_logical_size (of_declared c)"
  shows "\<exists>a b t. check_extent env c off n sha payload = Inr (a, b) \<and>
    s' = s\<lparr>sg_fs := (sg_fs s)(current_path s c \<mapsto> File (overwrite content (nat a) payload)),
      sg_current := Some (c\<lparr>of_received := of_received c + (b - a),
        of_extents := of_extents c @ [(a, b)]\<rparr>), sg_tick := t\<rparr>"
proof -
  from assms(1,2) obtain a b s1 where ab: "check_extent env c off n sha payload = Inr (a, b)"
    and loop: "write_loop env (current_path s c) payload (nat a) 0 s = (Inr (), s1)"
    and s': "record_extent a b s1 = (Inr u, s')"
    unfolding write_extent_def by (auto simp: andthen_Inr op_Inr)
  from check_extent_Inr [OF ab] assms(4) have "nat a + length payload \<le> length content" by linarith
  from write_loop_Inr [OF loop assms(3) this] obtain t where
    "s1 = s\<lparr>sg_fs := (sg_fs s)(current_path s c \<mapsto> File (overwrite content (nat a) payload)),
      sg_tick := t\<rparr>" by auto
  with ab s' assms(2) show ?thesis
    by (intro exI [of _ a] exI [of _ b] exI [of _ t]) (auto simp: record_extent_def op_Inr)
qed

lemma write_hole_Inr:
  assumes "write_hole env off n s = (Inr u, s')"
    and "sg_current s = Some c" and "sg_fs s (current_path s c) = Some (File content)"
    and "int (length content) = df_logical_size (of_declared c)"
  shows "\<exists>a k t. \<not> is_metadata (of_declared c) \<and> off = JInt a \<and> n = JInt k \<and> 0 \<le> a \<and> 1 \<le> k \<and>
    a + k \<le> df_logical_size (of_declared c) \<and>
    s' = s\<lparr>sg_fs := (sg_fs s)(current_path s c \<mapsto>
        File (overwrite content (nat a) (replicate (nat k) 0))), sg_tick := t\<rparr>"
proof -
  from assms(1,2) obtain a k where ak: "\<not> is_metadata (of_declared c)" "off = JInt a" "n = JInt k"
      "0 \<le> a" "1 \<le> k" "a + k \<le> df_logical_size (of_declared c)"
    and loop: "hole_loop env (current_path s c) (nat a) (nat k) s = (Inr u, s')"
    unfolding write_hole_def
    by (auto simp: andthen_Inr op_Inr proto_integer_Inr split: if_splits)
  from ak(4-6) assms(4) have "nat a + nat k \<le> length content" by linarith
  from hole_loop_Inr [OF loop assms(3) this] ak show ?thesis by auto
qed

lemma end_file_Inr:
  assumes "end_file env s = (Inr q, s')"
  shows "\<exists>c t. sg_current s = Some c \<and> q = df_path (of_declared c) \<and>
    of_received c = df_payload_bytes (of_declared c) \<and>
    (is_metadata (of_declared c) \<longrightarrow> of_received c = df_logical_size (of_declared c)) \<and>
    s' = s\<lparr>sg_open := remove1 (current_path s c) (sg_open s), sg_current := None,
      sg_completed := List.insert q (sg_completed s), sg_tick := t\<rparr>"
proof -
  from assms obtain c where c: "sg_current s = Some c" "q = df_path (of_declared c)"
    "of_received c = df_payload_bytes (of_declared c)"
    "is_metadata (of_declared c) \<Longrightarrow> of_received c = df_logical_size (of_declared c)"
    and s': "s' = s\<lparr>sg_open := remove1 (current_path s c) (sg_open s), sg_tick := Suc (Suc (sg_tick s)),
      sg_current := None, sg_completed := List.insert q (sg_completed s)\<rparr>"
    unfolding end_file_def close_descriptor_def Let_def
    by (auto simp: andthen_Inr op_Inr split: option.splits if_splits prod.splits sum.splits
      dest!: sys_Inr)
  from s' have "s' = s\<lparr>sg_open := remove1 (current_path s c) (sg_open s), sg_current := None,
      sg_completed := List.insert q (sg_completed s), sg_tick := Suc (Suc (sg_tick s))\<rparr>"
    by (cases s) simp
  with c show ?thesis by blast
qed

text \<open>An update of the file at one declared path leaves the other declared files alone.\<close>

lemma has_size_update:
  assumes "has_size s f" and "declaration_wf (sg_decl s)" and "sg_decl s' = sg_decl s"
    and "sg_namespace s' = sg_namespace s" and "f \<in> set (td_files (sg_decl s))"
    and "g \<in> set (td_files (sg_decl s))"
    and "sg_fs s' = (sg_fs s)(filesystem_path s (df_path g) \<mapsto> File content)"
    and "int (length content) = df_logical_size g"
  shows "has_size s' f"
proof (cases "f = g")
  case True
  with assms(7,8) show ?thesis by (simp add: has_size_def dirs_cong(6) [OF assms(3,4)])
next
  case False
  with declared_path_inj [OF assms(2,5,6)] have
    "filesystem_path s (df_path f) \<noteq> filesystem_path s (df_path g)" by blast
  with assms(1,7) show ?thesis by (simp add: has_size_def dirs_cong(6) [OF assms(3,4)])
qed

lemma has_size_cong:
  "sg_fs s' = sg_fs s \<Longrightarrow> sg_decl s' = sg_decl s \<Longrightarrow> sg_namespace s' = sg_namespace s \<Longrightarrow>
     has_size s' f = has_size s f"
  by (simp add: has_size_def dirs_cong(6) [of s' s])

lemma session_ok_begin_file:
  assumes ok: "session_ok s" and step: "begin_file env q s = (Inr u, s')"
  shows "session_ok s'"
proof -
  from ok have wf: "declaration_wf (sg_decl s)" by (simp add: session_ok_def)
  from begin_file_Inr [OF step wf] obtain f content t where f: "sg_current s = None"
    "f \<in> set (td_files (sg_decl s))" "df_path f = q" "q \<notin> set (sg_completed s)"
    "int (length content) = df_logical_size f" and
    s': "s' = s\<lparr>sg_fs := (sg_fs s)(filesystem_path s q \<mapsto> File content),
      sg_open := filesystem_path s q # sg_open s,
      sg_current := Some \<lparr>of_declared = f, of_received = 0, of_extents = []\<rparr>, sg_tick := t\<rparr>"
    by blast
  have size: "has_size s g \<Longrightarrow> g \<in> set (td_files (sg_decl s)) \<Longrightarrow> has_size s' g" for g
    using has_size_update [OF _ wf, of g s' f content] f s' by simp
  have path: "filesystem_path s' q = filesystem_path s q" by (rule dirs_cong) (simp_all add: s')
  then have "has_size s' f" using f by (simp add: has_size_def s')
  with ok size f path wf show ?thesis
    by (auto simp: session_ok_def s' current_path_def extents_ok_def covered_def
        declaration_wf_def file_wf_def)
qed

lemma extents_ok_append:
  assumes "extents_ok n es" and "0 \<le> a" and "a < b" and "b \<le> n" and "\<not> overlaps a b es"
  shows "extents_ok n (es @ [(a, b)])"
  using assms by (fastforce simp: extents_ok_def overlaps_def list_ex_iff sorted_wrt_append)

lemma session_ok_current:
  assumes ok: "session_ok s" and c: "sg_current s = Some c"
  obtains content where "sg_fs s (current_path s c) = Some (File content)"
    "int (length content) = df_logical_size (of_declared c)"
    "of_declared c \<in> set (td_files (sg_decl s))"
  using ok c by (auto simp: session_ok_def has_size_def current_path_def)

text \<open>Changing the content of the open file, at its size, and its extents consistently.\<close>

lemma session_ok_rewrite:
  assumes ok: "session_ok s" and c: "sg_current s = Some c"
    and len: "int (length content) = df_logical_size (of_declared c)"
    and c': "of_declared c' = of_declared c" "extents_ok (df_logical_size (of_declared c)) (of_extents c')"
      "of_received c' = covered (of_extents c')" "of_received c' \<le> df_payload_bytes (of_declared c)"
    and s': "s' = s\<lparr>sg_fs := (sg_fs s)(current_path s c \<mapsto> File content),
      sg_current := Some c', sg_tick := t\<rparr>"
  shows "session_ok s'"
proof -
  from ok c have wf: "declaration_wf (sg_decl s)" and d: "of_declared c \<in> set (td_files (sg_decl s))"
    by (auto simp: session_ok_def)
  have size: "has_size s g \<Longrightarrow> g \<in> set (td_files (sg_decl s)) \<Longrightarrow> has_size s' g" for g
    using has_size_update [OF _ wf, of g s' "of_declared c" content] d len s'
    by (simp add: current_path_def)
  have "current_path s' c' = current_path s c"
    using c'(1) dirs_cong(6) [of s' s] s' by (simp add: current_path_def)
  with ok c c' size show ?thesis by (auto simp: session_ok_def s')
qed

lemma session_ok_write_extent:
  assumes ok: "session_ok s" and step: "write_extent env off n sha payload s = (Inr u, s')"
  shows "session_ok s'"
proof -
  from step obtain c where c: "sg_current s = Some c"
    by (auto simp: write_extent_def op_Inr split: option.splits)
  from session_ok_current [OF ok c] obtain content where
    content: "sg_fs s (current_path s c) = Some (File content)"
      "int (length content) = df_logical_size (of_declared c)" by blast
  from write_extent_Inr [OF step c content] obtain a b t where
    ab: "check_extent env c off n sha payload = Inr (a, b)" and
    s': "s' = s\<lparr>sg_fs := (sg_fs s)(current_path s c \<mapsto> File (overwrite content (nat a) payload)),
      sg_current := Some (c\<lparr>of_received := of_received c + (b - a),
        of_extents := of_extents c @ [(a, b)]\<rparr>), sg_tick := t\<rparr>" by blast
  note chk = check_extent_Inr [OF ab]
  from ok c have old: "extents_ok (df_logical_size (of_declared c)) (of_extents c)"
    "of_received c = covered (of_extents c)" by (auto simp: session_ok_def)
  have "nat a + length payload \<le> length content" using chk content(2) by linarith
  then have "int (length (overwrite content (nat a) payload)) = df_logical_size (of_declared c)"
    using content(2) by simp
  moreover have "extents_ok (df_logical_size (of_declared c)) (of_extents c @ [(a, b)])"
  proof (rule extents_ok_append [OF old(1)])
    show "0 \<le> a" "a < b" "b \<le> df_logical_size (of_declared c)" using chk by linarith+
    show "\<not> overlaps a b (of_extents c)" using chk by blast
  qed
  ultimately show ?thesis
    using session_ok_rewrite [OF ok c _ _ _ _ _ s'] chk old(2) by (simp add: covered_def)
qed

lemma session_ok_write_hole:
  assumes ok: "session_ok s" and step: "write_hole env off n s = (Inr u, s')"
  shows "session_ok s'"
proof -
  from step obtain c where c: "sg_current s = Some c"
    by (auto simp: write_hole_def op_Inr split: option.splits)
  from session_ok_current [OF ok c] obtain content where
    content: "sg_fs s (current_path s c) = Some (File content)"
      "int (length content) = df_logical_size (of_declared c)" by blast
  from write_hole_Inr [OF step c content] obtain a k t where
    ak: "0 \<le> a" "1 \<le> k" "a + k \<le> df_logical_size (of_declared c)" and
    s': "s' = s\<lparr>sg_fs := (sg_fs s)(current_path s c \<mapsto>
        File (overwrite content (nat a) (replicate (nat k) 0))), sg_tick := t\<rparr>" by blast
  have "nat a + length (replicate (nat k) (0 :: byte)) \<le> length content"
    using ak content(2) by simp
  then have len: "int (length (overwrite content (nat a) (replicate (nat k) 0)))
      = df_logical_size (of_declared c)" using content(2) by simp
  have "s' = s\<lparr>sg_fs := (sg_fs s)(current_path s c \<mapsto>
        File (overwrite content (nat a) (replicate (nat k) 0))), sg_current := Some c, sg_tick := t\<rparr>"
    using c by (cases s) (simp add: s')
  from session_ok_rewrite [OF ok c len refl _ _ _ this] ok c show ?thesis
    by (simp add: session_ok_def)
qed

lemma session_ok_end_file:
  assumes ok: "session_ok s" and step: "end_file env s = (Inr q, s')"
  shows "session_ok s'"
proof -
  from end_file_Inr [OF step] obtain c t where c: "sg_current s = Some c"
    "q = df_path (of_declared c)" and
    s': "s' = s\<lparr>sg_open := remove1 (current_path s c) (sg_open s), sg_current := None,
      sg_completed := List.insert q (sg_completed s), sg_tick := t\<rparr>" by blast
  have size: "has_size s' g = has_size s g" for g by (rule has_size_cong) (simp_all add: s')
  from ok c have d: "of_declared c \<in> set (td_files (sg_decl s))" "q \<notin> set (sg_completed s)"
    "sg_open s = [current_path s c]" "has_size s (of_declared c)"
    "distinct (map df_path (td_files (sg_decl s)))"
    by (auto simp: session_ok_def declaration_wf_def)
  have "has_size s f" if "f \<in> set (td_files (sg_decl s))" "df_path f = q" for f
    using that d c(2) by (metis distinct_map inj_onD)
  with ok c d size show ?thesis by (auto simp: session_ok_def s')
qed

lemma atomic_json_Inr:
  assumes "atomic_json env p v s = (Inr u, s')"
  shows "\<exists>t. s' = s\<lparr>sg_fs := (sg_fs s)(p \<mapsto> JsonFile v), sg_tick := t\<rparr>"
  using assms unfolding atomic_json_def fsync_directory_def
  by (auto simp: andthen_Inr op_Inr rethrow_Inr same_fs dest!: sys_Inr set_node_Inr)

lemma fsync_directory_Inr:
  "fsync_directory env s = (Inr u, s') \<Longrightarrow> \<exists>t. s' = s\<lparr>sg_tick := t\<rparr>"
  unfolding fsync_directory_def by (auto simp: andthen_Inr rethrow_Inr dest!: sys_Inr)

lemma finish_Inr:
  assumes "finish env s = (Inr r, s')"
  shows "\<exists>t. sg_current s = None \<and> set (sg_completed s) = set (map df_path (td_files (sg_decl s))) \<and>
    r = receipt_of (sg_decl s) (length (sg_completed s)) \<and>
    s' = s\<lparr>sg_fs := (sg_fs s)(slash (root_dir s) ''receipt.json'' \<mapsto> JsonFile (JObj r),
      slash (root_dir s) ''transfer.json'' \<mapsto> JsonFile (state_record (sg_decl s) ''STAGING_COMPLETE'')),
      sg_tick := t\<rparr>"
  using assms unfolding finish_def Let_def
  by (auto simp: andthen_Inr op_Inr split: if_splits dest!: fsync_directory_Inr atomic_json_Inr)

lemma declared_path_below_bundle:
  assumes "declaration_wf (sg_decl s)" and "f \<in> set (td_files (sg_decl s))"
  shows "filesystem_path s (df_path f) \<noteq> slash (root_dir s) ''receipt.json''"
    "filesystem_path s (df_path f) \<noteq> slash (root_dir s) ''transfer.json''"
proof -
  from assms have "bundle_path (JStr (df_path f)) = Inr (df_path f)"
    by (auto simp: declaration_wf_def file_wf_def)
  then have "filesystem_path s (df_path f) = slash (root_dir s) (''bundle/'' @ df_path f)"
    by (simp add: filesystem_path_canonical bundle_dir_def slash_def)
  then show "filesystem_path s (df_path f) \<noteq> slash (root_dir s) ''receipt.json''"
    "filesystem_path s (df_path f) \<noteq> slash (root_dir s) ''transfer.json''"
    by (simp_all add: slash_def)
qed

lemma session_ok_finish:
  assumes ok: "session_ok s" and step: "finish env s = (Inr r, s')"
  shows "session_ok s'"
proof -
  from finish_Inr [OF step] obtain t where n: "sg_current s = None" and
    s': "s' = s\<lparr>sg_fs := (sg_fs s)(slash (root_dir s) ''receipt.json'' \<mapsto> JsonFile (JObj r),
      slash (root_dir s) ''transfer.json'' \<mapsto> JsonFile (state_record (sg_decl s) ''STAGING_COMPLETE'')),
      sg_tick := t\<rparr>" by blast
  from ok have wf: "declaration_wf (sg_decl s)" by (simp add: session_ok_def)
  have "filesystem_path s' q = filesystem_path s q" for q by (rule dirs_cong) (simp_all add: s')
  then have "has_size s f \<Longrightarrow> f \<in> set (td_files (sg_decl s)) \<Longrightarrow> has_size s' f" for f
    using declared_path_below_bundle [OF wf, of f] by (simp add: has_size_def s')
  with ok n show ?thesis by (auto simp: session_ok_def s')
qed

lemma session_ok_step:
  assumes "session_ok s" and "transfer_step env command src s = (Inr r, s')"
  shows "session_ok s'"
  using assms unfolding transfer_step_def extent_step_def hole_step_def file_end_step_def Let_def
  by (auto simp: andthen_Inr op_Inr split: if_splits option.splits
      intro: session_ok_begin_file session_ok_write_extent session_ok_write_hole session_ok_end_file
        session_ok_finish)

section \<open>Reachable sessions\<close>

text \<open>A session is reachable when it was prepared and then ran commands that all succeeded.\<close>

inductive reachable ::
  "receiver_env \<Rightarrow> transfer_declaration \<Rightarrow> string \<Rightarrow> (string \<Rightarrow> node option) \<Rightarrow> staging \<Rightarrow> bool"
  for env d ns fs where
  prepared: "declaration_wf d \<Longrightarrow> prepare env (new_session d ns fs) = (Inr u, s) \<Longrightarrow>
    reachable env d ns fs s"
| command: "reachable env d ns fs s \<Longrightarrow> transfer_step env c src s = (Inr r, s') \<Longrightarrow>
    reachable env d ns fs s'"

definition frame :: "staging \<Rightarrow> staging \<Rightarrow> bool" where
  "frame s0 s \<longleftrightarrow> sg_decl s = sg_decl s0 \<and> sg_current s = sg_current s0 \<and>
     sg_completed s = sg_completed s0 \<and> sg_open s = sg_open s0"

lemma frame_keeps [keeps_intros]:
  "keeps (frame s0) (sys env)" "keeps (frame s0) (set_node p n)"
  "keeps (frame s0) (real_directory env p)" "keeps (frame s0) (fsync_directory env)"
proof -
  show s: "keeps (frame s0) (sys env)" by (rule keeps_sys) (simp add: frame_def)
  show "keeps (frame s0) (set_node p n)" unfolding set_node_def
    by (rule keeps_update) (simp add: frame_def)
  show "keeps (frame s0) (real_directory env p)" unfolding real_directory_def by (intro keeps_intros s)
  show "keeps (frame s0) (fsync_directory env)" unfolding fsync_directory_def by (intro keeps_intros s)
qed

lemma frame_prepare: "keeps (frame s0) (prepare env)"
proof -
  have m: "keeps (frame s0) (mkdir_real env p ok)" for p ok
    unfolding mkdir_real_def by (intro keeps_intros frame_keeps)
  have c: "keeps (frame s0) (clone_disk env d f)" for d f
    unfolding clone_disk_def
    by (intro keeps_intros) (auto intro!: keeps_intros split: option.split node.split)
  have a: "keeps (frame s0) (atomic_json env p v)" for p v
    unfolding atomic_json_def by (intro keeps_intros)
  show ?thesis unfolding prepare_def seed_disks_def Let_def
    by (intro keeps_intros m c a)
qed

lemma session_ok_prepare:
  assumes "declaration_wf d" and "prepare env (new_session d ns fs) = (Inr u, s)"
  shows "session_ok s"
proof -
  have "frame (new_session d ns fs) (new_session d ns fs)" by (simp add: frame_def)
  from keepsD [OF frame_prepare this assms(2)] assms(1) show ?thesis
    by (simp add: frame_def new_session_def session_ok_def)
qed

lemma reachable_ok: "reachable env d ns fs s \<Longrightarrow> session_ok s"
  by (induction rule: reachable.induct) (auto intro: session_ok_prepare session_ok_step)

section \<open>Properties\<close>

text \<open>Disjoint intervals inside a range whose lengths add up to it cover it.\<close>

definition interval_union :: "(int \<times> int) list \<Rightarrow> int set" where
  "interval_union es = (\<Union>(a, b) \<in> set es. {a..<b})"

lemma interval_union_card:
  "extents_ok n es \<Longrightarrow> int (card (interval_union es)) = covered es \<and> interval_union es \<subseteq> {0..<n}"
proof (induction es)
  case (Cons e es)
  obtain a b where e: "e = (a, b)" by (cases e)
  from Cons.prems have ok: "extents_ok n es" and ab: "0 \<le> a" "a < b" "b \<le> n"
    and dis: "\<forall>(c, d) \<in> set es. d \<le> a \<or> b \<le> c"
    unfolding e by (auto simp: extents_ok_def)
  from dis have "{a..<b} \<inter> interval_union es = {}" by (fastforce simp: interval_union_def)
  moreover have "finite (interval_union es)" by (auto simp: interval_union_def)
  moreover have "interval_union (e # es) = {a..<b} \<union> interval_union es"
    by (simp add: interval_union_def e)
  ultimately have "card (interval_union (e # es)) = card {a..<b} + card (interval_union es)"
    by (simp add: card_Un_disjoint)
  with Cons.IH [OF ok] ab show ?case by (auto simp: e covered_def interval_union_def)
qed (simp add: interval_union_def covered_def)

lemma full_coverage:
  assumes "extents_ok n es" and "covered es = n" and "0 \<le> i" and "i < n"
  shows "\<exists>(a, b) \<in> set es. a \<le> i \<and> i < b"
proof -
  from interval_union_card [OF assms(1)] assms(2-4) have
    sub: "interval_union es \<subseteq> {0..<n}" and "int (card (interval_union es)) = n" by simp_all
  then have "card (interval_union es) = card {0..<n}" using assms(3,4) by simp
  with sub have "interval_union es = {0..<n}" by (intro card_subset_eq) simp_all
  with assms(3,4) have "i \<in> interval_union es" by simp
  then obtain a b where "(a, b) \<in> set es" "a \<le> i" "i < b" by (auto simp: interval_union_def)
  then show ?thesis by (intro bexI [of _ "(a, b)"]) simp_all
qed

lemma declaration_accepted: "parse_begin isotime v = Inr d \<Longrightarrow> declaration_wf d"
  by (rule begin_declaration_wf)

text \<open>C13: every reachable session is consistent: the completed files are declared and have
  exactly their declared size; the open file's extents are pairwise disjoint and in range, the
  bytes received are the sum of their lengths and at most the declared payload, and exactly
  the open file has a descriptor.\<close>

theorem reachable_session_ok:
  assumes "reachable env d ns fs s"
  shows "session_ok s"
  using assms by (rule reachable_ok)

text \<open>a metadata file can only be completed when checksummed extents cover all of it:
  every byte position below its size lies in a received extent.\<close>

theorem metadata_fully_received:
  assumes "reachable env d ns fs s" and "sg_current s = Some c" and "is_metadata (of_declared c)"
    and "end_file env s = (Inr q, s')" and "0 \<le> i" and "i < df_logical_size (of_declared c)"
  shows "\<exists>(a, b) \<in> set (of_extents c). a \<le> i \<and> i < b"
proof -
  from reachable_ok [OF assms(1)] assms(2) have
    "extents_ok (df_logical_size (of_declared c)) (of_extents c)"
    "of_received c = covered (of_extents c)" by (auto simp: session_ok_def)
  moreover from end_file_Inr [OF assms(4)] assms(2,3) have
    "of_received c = df_logical_size (of_declared c)" by auto
  ultimately show ?thesis using full_coverage assms(5,6) by metis
qed

text \<open>C14: an accepted extent stores its payload: the payload's checksum is the one announced,
  it lands at its offset and nothing else in the file changes, whatever short writes occur,
  and the byte count grows by its length.\<close>

theorem write_extent_stores_payload:
  assumes "reachable env d ns fs s" and "sg_current s = Some c"
    and "write_extent env off n sha payload s = (Inr u, s')"
  shows "\<exists>content a. sg_fs s (current_path s c) = Some (File content) \<and> off = JInt a \<and> 0 \<le> a \<and>
    sha = JStr (re_sha256 env payload) \<and> n = int (length payload) \<and>
    sg_fs s' = (sg_fs s)(current_path s c \<mapsto> File (overwrite content (nat a) payload)) \<and>
    (\<forall>i < length content. overwrite content (nat a) payload ! i =
       (if nat a \<le> i \<and> i < nat a + length payload then payload ! (i - nat a) else content ! i)) \<and>
    (\<exists>c'. sg_current s' = Some c' \<and> of_received c' = of_received c + n)"
proof -
  from session_ok_current [OF reachable_ok [OF assms(1)] assms(2)] obtain content where
    content: "sg_fs s (current_path s c) = Some (File content)"
      "int (length content) = df_logical_size (of_declared c)" by blast
  from write_extent_Inr [OF assms(3,2) content] obtain a b t where
    ab: "check_extent env c off n sha payload = Inr (a, b)" and
    s': "s' = s\<lparr>sg_fs := (sg_fs s)(current_path s c \<mapsto> File (overwrite content (nat a) payload)),
      sg_current := Some (c\<lparr>of_received := of_received c + (b - a),
        of_extents := of_extents c @ [(a, b)]\<rparr>), sg_tick := t\<rparr>" by blast
  note chk = check_extent_Inr [OF ab]
  have "nat a + length payload \<le> length content" using chk content(2) by linarith
  from overwrite_nth [OF this] chk content(1) show ?thesis
    by (intro exI [of _ content] exI [of _ a]) (auto simp: s')
qed

text \<open>a HOLE zeroes its range in the open disk file and leaves the accounting untouched:
  received bytes and extents are as before, so also a range whose checksum was verified is
  zeroed without being noticed when the file is closed.\<close>

theorem write_hole_zeroes_unaccounted:
  assumes "reachable env d ns fs s" and "sg_current s = Some c"
    and "write_hole env (JInt a) (JInt k) s = (Inr u, s')"
  shows "\<exists>content. sg_fs s' (current_path s' c) = Some (File content) \<and>
    (\<forall>i. nat a \<le> i \<and> i < nat a + nat k \<longrightarrow> content ! i = 0) \<and>
    sg_current s' = Some c \<and> \<not> is_metadata (of_declared c)"
proof -
  from session_ok_current [OF reachable_ok [OF assms(1)] assms(2)] obtain content where
    content: "sg_fs s (current_path s c) = Some (File content)"
      "int (length content) = df_logical_size (of_declared c)" by blast
  from write_hole_Inr [OF assms(3,2) content] obtain t where
    k: "\<not> is_metadata (of_declared c)" "0 \<le> a" "1 \<le> k" "a + k \<le> df_logical_size (of_declared c)" and
    s': "s' = s\<lparr>sg_fs := (sg_fs s)(current_path s c \<mapsto>
        File (overwrite content (nat a) (replicate (nat k) 0))), sg_tick := t\<rparr>" by auto
  have "current_path s' c = current_path s c"
    using dirs_cong(6) [of s' s] s' by (simp add: current_path_def)
  moreover have len: "nat a + length (replicate (nat k) (0 :: byte)) \<le> length content"
    using k content(2) by simp
  have "overwrite content (nat a) (replicate (nat k) 0) ! i = 0" if "nat a \<le> i" "i < nat a + nat k" for i
    using that len by (subst overwrite_nth [OF len]) auto
  ultimately show ?thesis using assms(2) k(1) by (simp add: s')
qed

lemma status_response [simp]: "dget (response st vs) ''status'' = Some (JStr st)"
  by (simp add: response_def)

lemma step_responses:
  assumes "transfer_step env command src s = (Inr (Continue outs rest), s')" and "x \<in> set outs"
  shows "dget x ''status'' \<in> {Some (JStr ''FILE_READY''), Some (JStr ''FILE_COMPLETE'')}"
proof -
  from assms(1) have "outs = [] \<or> (\<exists>st vs. outs = [response st vs] \<and> st \<in> {''FILE_READY'', ''FILE_COMPLETE''})"
    unfolding transfer_step_def extent_step_def hole_step_def file_end_step_def Let_def
    by (auto simp: andthen_Inr op_Inr split: if_splits option.splits)
  with assms(2) show ?thesis by auto
qed

lemma step_finished:
  assumes "transfer_step env command src s = (Inr (Finished receipt), s')"
  shows "finish env s = (Inr receipt, s')"
  using assms
  unfolding transfer_step_def extent_step_def hole_step_def file_end_step_def Let_def
  by (auto simp: andthen_Inr op_Inr split: if_splits option.splits)

lemma exit_code_nonzero [simp]: "exit_code e \<noteq> 0" "exit_code e = 65 \<or> exit_code e = 70"
  by (auto simp: exit_code_def split: exn.splits)

text \<open>The three ways a run ends.\<close>

lemma run_transfer_cases:
  assumes "run_transfer env src fs = (code, out, final)"
  obtains (rejected) e where "accept_begin env src = Inl e" "code = exit_code e"
      "out = [error_response e]" "final = None"
  | (unprepared) d ns rest e s where "accept_begin env src = Inr (d, ns, rest)"
      "prepare env (new_session d ns fs) = (Inl e, s)" "code = exit_code e"
      "out = [error_response e]" "final = Some (close_open_file s)"
  | (failed) d ns rest u s e out1 s' where "accept_begin env src = Inr (d, ns, rest)"
      "prepare env (new_session d ns fs) = (Inr u, s)"
      "transfer_loop env rest [ready_response d] s = (Inl e, out1, s')" "code = exit_code e"
      "out = out1 @ [error_response e]" "final = Some (close_open_file s')"
  | (completed) d ns rest u s receipt out1 s' where "accept_begin env src = Inr (d, ns, rest)"
      "prepare env (new_session d ns fs) = (Inr u, s)"
      "transfer_loop env rest [ready_response d] s = (Inr receipt, out1, s')" "code = 0"
      "out = out1 @ [receipt]" "final = Some s'"
proof (cases "accept_begin env src")
  case (Inl e)
  with assms show thesis by (intro rejected) (auto simp: run_transfer_def)
next
  case (Inr p)
  obtain d ns rest where p: "p = (d, ns, rest)" by (cases p)
  obtain r s where prep: "prepare env (new_session d ns fs) = (r, s)" by fastforce
  show thesis
  proof (cases r)
    case Inl': (Inl e)
    with assms Inr p prep show thesis
      by (intro unprepared [of d ns rest e s]) (auto simp: run_transfer_def)
  next
    case Inr': (Inr u)
    obtain q out1 s' where loop: "transfer_loop env rest [ready_response d] s = (q, out1, s')"
      by (cases "transfer_loop env rest [ready_response d] s")
    show thesis
    proof (cases q)
      case Inl'': (Inl e)
      with assms Inr Inr' p prep loop show thesis
        by (intro failed [of d ns rest u s e out1 s']) (auto simp: run_transfer_def)
    next
      case Inr'': (Inr receipt)
      with assms Inr Inr' p prep loop show thesis
        by (intro completed [of d ns rest u s receipt out1 s']) (auto simp: run_transfer_def)
    qed
  qed
qed

lemma accept_begin_wf: "accept_begin env src = Inr (d, ns, rest) \<Longrightarrow> declaration_wf d"
  using declaration_accepted by (fastforce simp: accept_begin_def bnd_eq_Inr)

lemma loop_result:
  assumes "transfer_loop env src out s = (r, out', s')" and "reachable env d ns fs s"
  shows "(\<forall>x \<in> set out'. x \<in> set out \<or> dget x ''status'' \<in> {Some (JStr ''FILE_READY''), Some (JStr ''FILE_COMPLETE'')}) \<and>
    (\<forall>receipt. r = Inr receipt \<longrightarrow> reachable env d ns fs s' \<and>
       (\<exists>s1 command rest. transfer_step env command rest s1 = (Inr (Finished receipt), s')))"
  using assms
proof (induction env src out s rule: transfer_loop.induct)
  case (1 env src out s)
  show ?case
  proof (cases "read_control env src")
    case (Inl e)
    with 1(2) show ?thesis by (auto simp: transfer_loop.simps)
  next
    case (Inr p)
    obtain command rest where p: "p = (command, rest)" by (cases p)
    obtain q s1 where q: "transfer_step env command rest s = (q, s1)" by fastforce
    show ?thesis
    proof (cases q)
      case (Inl e)
      with 1(2) Inr p q show ?thesis by (auto simp: transfer_loop.simps)
    next
      case q': (Inr g)
      from reachable.command [OF 1(3) q [unfolded q']] have s1: "reachable env d ns fs s1" .
      show ?thesis
      proof (cases g)
        case (Finished receipt)
        with 1(2) Inr p q q' s1 show ?thesis by (auto simp: transfer_loop.simps)
      next
        case (Continue outs rest')
        note statuses = step_responses [OF q [unfolded q' Continue]]
        from 1(2) Inr p q q' Continue have "transfer_loop env rest' (out @ outs) s1 = (r, out', s')"
          by (simp add: transfer_loop.simps)
        from 1(1) [OF Inr p [symmetric] q [symmetric] q' Continue this s1] statuses show ?thesis by fastforce
      qed
    qed
  qed
qed

text \<open>C1: exit code 0 means the bundle is complete: every declared file was completed and has
  its declared size, no descriptor is left open, the staging record says STAGING_COMPLETE, and
  the last response is the receipt with the declared payload.\<close>

theorem transfer_success_complete:
  assumes "run_transfer env src fs = (0, out, Some s)"
  shows "set (sg_completed s) = set (map df_path (td_files (sg_decl s))) \<and>
    (\<forall>f \<in> set (td_files (sg_decl s)). has_size s f) \<and>
    sg_current s = None \<and> sg_open s = [] \<and>
    sg_fs s (slash (root_dir s) ''transfer.json'') =
      Some (JsonFile (state_record (sg_decl s) ''STAGING_COMPLETE'')) \<and>
    out \<noteq> [] \<and> last out = receipt_of (sg_decl s) (length (sg_completed s))"
proof -
  from assms obtain d ns rest u s1 receipt out1 where acc: "accept_begin env src = Inr (d, ns, rest)"
    and prep: "prepare env (new_session d ns fs) = (Inr u, s1)"
    and loop: "transfer_loop env rest [ready_response d] s1 = (Inr receipt, out1, s)"
    and out: "out = out1 @ [receipt]"
    by (rule run_transfer_cases) (metis exit_code_nonzero(1) option.inject)+
  from loop_result [OF loop reachable.prepared [OF accept_begin_wf [OF acc] prep]]
  obtain s2 command rest2 where reach: "reachable env d ns fs s" and
    step: "transfer_step env command rest2 s2 = (Inr (Finished receipt), s)" by blast
  note fin = step_finished [OF step]
  from finish_Inr [OF fin] obtain t where f: "sg_current s2 = None"
    "set (sg_completed s2) = set (map df_path (td_files (sg_decl s2)))"
    "receipt = receipt_of (sg_decl s2) (length (sg_completed s2))"
    "s = s2\<lparr>sg_fs := (sg_fs s2)(slash (root_dir s2) ''receipt.json'' \<mapsto> JsonFile (JObj receipt),
      slash (root_dir s2) ''transfer.json'' \<mapsto> JsonFile (state_record (sg_decl s2) ''STAGING_COMPLETE'')),
      sg_tick := t\<rparr>" by blast
  have "root_dir s = root_dir s2" by (rule dirs_cong) (simp_all add: f(4))
  with f reachable_ok [OF reach] out show ?thesis by (auto simp: session_ok_def)
qed

text \<open>C15: a transfer that does not complete says so: the exit code is 65 or 70, the last
  response is the only ERROR, no response claims STAGING_COMPLETE, and no file is left open in
  the session.\<close>

theorem transfer_failure_reported:
  assumes "run_transfer env src fs = (code, out, final)" and "code \<noteq> 0"
  shows "code \<in> {65, 70} \<and> out \<noteq> [] \<and> dget (last out) ''status'' = Some (JStr ''ERROR'') \<and>
    (\<forall>x \<in> set (butlast out). dget x ''status'' \<notin> {Some (JStr ''ERROR''), Some (JStr ''STAGING_COMPLETE'')}) \<and>
    (\<forall>s. final = Some s \<longrightarrow> sg_current s = None)"
  using assms(1)
proof (cases rule: run_transfer_cases)
  case (failed d ns rest u s e out1 s')
  from loop_result [OF failed(3) reachable.prepared [OF accept_begin_wf [OF failed(1)] failed(2)]]
  have st: "dget x ''status'' \<in> {Some (JStr ''READY''), Some (JStr ''FILE_READY''),
      Some (JStr ''FILE_COMPLETE'')}" if "x \<in> set out1" for x
    using that by (auto simp: ready_response_def)
  have "dget x ''status'' \<notin> {Some (JStr ''ERROR''), Some (JStr ''STAGING_COMPLETE'')}"
    if "x \<in> set out1" for x
    using st [OF that] by auto
  with failed(4-6) show ?thesis
    by (simp add: error_response_def close_open_file_def split: option.splits)
next
  case rejected
  then show ?thesis by (simp add: error_response_def)
next
  case unprepared
  then show ?thesis by (simp add: error_response_def close_open_file_def split: option.splits)
next
  case completed
  with assms(2) show ?thesis by simp
qed

text \<open>C16: READY is only sent for a transfer that fits: the declared payload is at most what the
  resolver reports as usable after the reserve, and the namespace is an absolute,
  traversal-free path that ends in the receiver's own directory.\<close>

theorem accepted_transfer_fits:
  assumes "accept_begin env src = Inr (d, ns, rest)"
  shows "\<exists>storage usable raw. resolve_storage env (td_storage_id d) = Inr storage \<and>
    dget storage ''usable_after_reserve_bytes'' = Some (JInt usable) \<and>
    total_payload_bytes d \<le> usable \<and> ns = path_str raw \<and> path_is_absolute raw \<and>
    ''..'' \<notin> set (path_parts raw) \<and> last (path_names raw) = ''.vmbackupd-receiver''"
proof -
  from assms obtain storage where st: "resolve_storage env (td_storage_id d) = Inr storage"
    "check_storage d storage = Inr ns"
    by (auto simp: accept_begin_def bnd_eq_Inr)
  have get: "dget_or storage k JNull = JInt n \<Longrightarrow> dget storage k = Some (JInt n)" for k n
    by (auto simp: dget_or_def split: option.splits)
  from st(2) get show ?thesis
    by (auto simp: check_storage_def st(1) split: json.splits if_splits)
qed

end
