(* ===== verification/SenderProps.thy ===== *)
theory SenderProps
  imports Sender TransferProps
begin

text \<open>
  Properties of the sender: the exact bytes it puts on the wire, the sparse enumeration of a
  disk, the seed negotiation, and the composition with the receiver: when a transfer succeeds
  on both sides, the staged files are byte for byte the inspected source files.
\<close>

section \<open>What a call sends\<close>

definition sends :: "'a pop \<Rightarrow> byte list \<Rightarrow> bool \<Rightarrow> bool" where
  "sends m bytes Q \<longleftrightarrow> (\<forall>p x p'. m p = (Inr x, p') \<longrightarrow> pi_sent p' = pi_sent p @ bytes \<and> Q)"

lemma sends_andthen:
  assumes "sends m bs P" and "\<And>x. P \<Longrightarrow> sends (f x) cs Q"
  shows "sends (andthen m f) (bs @ cs) Q"
  using assms unfolding sends_def andthen_Inr by fastforce

lemma sends_quiet:
  "sends m [] P \<Longrightarrow> (\<And>x. P \<Longrightarrow> sends (f x) cs Q) \<Longrightarrow> sends (andthen m f) cs Q"
  using sends_andthen [of m "[]" P f cs Q] by simp

lemma sends_basic: "sends (ret x) [] True" "sends (raise e) bytes Q" "Q \<Longrightarrow> sends (ret x) [] Q"
  "sends (lift (Inr x)) [] True" "sends (lift (Inl e)) bytes Q"
  by (simp_all add: sends_def op_defs)

lemma sends_lift: "sends (f x) bs Q \<Longrightarrow> sends (andthen (lift (Inr x)) f) bs Q"
  by (simp add: sends_def op_run)

lemma sends_mono: "sends m bs P \<Longrightarrow> (P \<Longrightarrow> Q) \<Longrightarrow> sends m bs Q"
  by (auto simp: sends_def)

lemma sends_if: "(b \<Longrightarrow> sends m bs Q) \<Longrightarrow> (\<not> b \<Longrightarrow> sends n bs Q) \<Longrightarrow> sends (if b then m else n) bs Q"
  by simp

lemma sends_write: "sends (write_bytes se bytes) bytes True"
  by (auto simp: sends_def write_bytes_def op_defs)

lemma sends_control: "sends (write_control se d) (control_line se d) True"
  by (simp add: write_control_def sends_write)

lemma sends_cancel: "sends (check_cancel se) [] True"
  by (auto simp: sends_def check_cancel_def op_defs)

lemma sends_response: "sends (read_response se expected) [] True"
proof -
  have "sends (read_reply se a b c) [] True" for a b c
    unfolding sends_def read_reply_def Let_def
    by (auto simp: op_Inr andthen_Inr split: if_splits option.splits json.splits)
  then show ?thesis unfolding read_response_def
    by (rule sends_quiet) (intro sends_if sends_basic)
qed

lemma sends_wait: "sends (wait_exit se) [] (se_exit se = Some 0)"
  by (auto simp: sends_def wait_exit_def op_defs split: option.splits)

lemma sends_each:
  assumes "\<And>x. x \<in> set xs \<Longrightarrow> sends (f x) (w x) (Q x)"
  shows "sends (each f xs) (concat (map w xs)) (\<forall>x \<in> set xs. Q x)"
  using assms
proof (induction xs)
  case (Cons x xs)
  have "sends (each f xs) (concat (map w xs)) ((\<forall>x \<in> set xs. Q x))" using Cons by simp
  then have "sends (each f xs) (concat (map w xs)) (\<forall>y \<in> set (x # xs). Q y)" if "Q x"
    by (rule sends_mono) (simp add: that)
  then have "sends (andthen (f x) (\<lambda>_. each f xs)) (w x @ concat (map w xs)) (\<forall>y \<in> set (x # xs). Q y)"
    using sends_andthen [OF Cons.prems [of x], of "\<lambda>_. each f xs"] by simp
  then show ?case by simp
qed (simp add: sends_basic)

section \<open>The bytes of a plan\<close>

function chunks :: "nat \<Rightarrow> nat \<Rightarrow> (nat \<times> nat) list" where
  "chunks position remaining =
     (if remaining = 0 then []
      else (position, min remaining chunk_limit) #
        chunks (position + min remaining chunk_limit) (remaining - min remaining chunk_limit))"
  by pat_completeness auto
termination
  by (relation "measure snd") (auto simp: chunk_limit_def max_extent_bytes_def)

declare chunks.simps [simp del]

definition piece :: "byte list \<Rightarrow> nat \<times> nat \<Rightarrow> byte list" where
  "piece content c = take (snd c) (drop (fst c) content)"

definition extent_wire :: "sender_env \<Rightarrow> byte list \<Rightarrow> nat \<times> nat \<Rightarrow> byte list" where
  "extent_wire se content c =
     control_line se (extent_record (fst c) (snd c) (se_sha256 se (piece content c))) @ piece content c"

definition file_chunks :: "source_file \<Rightarrow> (nat \<times> nat) list" where
  "file_chunks f = concat (map (\<lambda>(off, n). chunks off n) (sf_extents f))"

definition file_wire :: "sender_env \<Rightarrow> byte list \<Rightarrow> source_file \<Rightarrow> byte list" where
  "file_wire se content f =
     control_line se (file_record ''FILE_BEGIN'' (sf_path f)) @
     concat (map (extent_wire se content) (file_chunks f)) @
     concat (map (\<lambda>(off, n). control_line se (hole_record off n)) (sf_holes f)) @
     control_line se (file_record ''FILE_END'' (sf_path f))"

definition sent_content :: "bundle_env \<Rightarrow> source_file \<Rightarrow> byte list" where
  "sent_content b f = (case bu_reopen b (sf_source f) of Some (_, _, c) \<Rightarrow> c | None \<Rightarrow> [])"

definition plan_wire :: "sender_env \<Rightarrow> bundle_env \<Rightarrow> transfer_plan \<Rightarrow> byte list" where
  "plan_wire se b p =
     control_line se (begin_record p) @
     concat (map (\<lambda>f. file_wire se (sent_content b f) f) (tp_files p)) @
     control_line se finish_record"

lemma send_extent_sends:
  "sends (send_extent se content position remaining)
     (concat (map (extent_wire se content) (chunks position remaining))) True"
proof (induction position remaining rule: chunks.induct)
  case (1 position remaining)
  show ?case
  proof (cases "remaining = 0")
    case True
    then show ?thesis
      by (simp add: chunks.simps [of position] send_extent.simps [of _ _ position] sends_basic)
  next
    case False
    let ?n = "min remaining chunk_limit"
    have u: "sends (update (\<lambda>p. p\<lparr>pi_progress := pi_progress p @ [?n]\<rparr>)) [] True"
      by (simp add: sends_def op_defs)
    have rest: "sends (andthen (update (\<lambda>p. p\<lparr>pi_progress := pi_progress p @ [?n]\<rparr>)) (\<lambda>_.
        send_extent se content (position + ?n) (remaining - ?n)))
      (concat (map (extent_wire se content) (chunks (position + ?n) (remaining - ?n)))) True"
      by (rule sends_quiet [OF u]) (rule "1.IH" [OF False])
    have "sends (send_extent se content position remaining)
        (control_line se (extent_record position ?n (se_sha256 se (piece content (position, ?n)))) @
          piece content (position, ?n) @
          concat (map (extent_wire se content) (chunks (position + ?n) (remaining - ?n)))) True"
      unfolding send_extent.simps [of se content position remaining] piece_def fst_conv snd_conv
      using False
      by (auto intro!: sends_quiet [OF sends_cancel] sends_andthen [OF sends_control]
          sends_andthen [OF sends_write] sends_basic rest)
    with False show ?thesis
      unfolding chunks.simps [of position remaining] by (simp add: extent_wire_def [of se content "(position, ?n)"])
  qed
qed

lemma concat_wire_chunks:
  "concat (map (extent_wire se content) (file_chunks f)) =
     concat (map (\<lambda>(off, n). concat (map (extent_wire se content) (chunks off n))) (sf_extents f))"
proof -
  have "concat (map g (concat (map (\<lambda>(off, n). chunks off n) es))) =
      concat (map (\<lambda>(off, n). concat (map g (chunks off n))) es)" for g :: "nat \<times> nat \<Rightarrow> byte list" and es
    by (induction es) auto
  then show ?thesis by (simp add: file_chunks_def)
qed

lemma send_file_sends:
  "sends (send_file se b f) (file_wire se (sent_content b f) f)
     (bu_reopen b (sf_source f) = Some (True, sf_stat f, sent_content b f))"
proof (cases "open_regular (bu_reopen b (sf_source f))")
  case (Inl e)
  then show ?thesis
    by (auto simp: send_file_def sends_def andthen_Inr op_Inr)
next
  case (Inr found)
  then obtain before content where found: "found = (before, content)"
    and re: "bu_reopen b (sf_source f) = Some (True, before, content)"
    by (auto simp: open_regular_def split: option.splits if_splits)
  have c: "sent_content b f = content" by (simp add: sent_content_def re)
  have holes: "sends (each (\<lambda>(offset, len). andthen (check_cancel se) (\<lambda>_.
        write_control se (hole_record offset len))) (sf_holes f))
      (concat (map (\<lambda>(off, n). control_line se (hole_record off n)) (sf_holes f))) True"
    by (rule sends_mono [OF sends_each [where Q = "\<lambda>_. True"]])
      (auto intro!: sends_quiet [OF sends_cancel] sends_control)
  have extents: "sends (each (\<lambda>(offset, len). send_extent se content offset len) (sf_extents f))
      (concat (map (extent_wire se content) (file_chunks f))) True"
    unfolding concat_wire_chunks
    by (rule sends_mono [OF sends_each [where Q = "\<lambda>_. True"]]) (auto intro: send_extent_sends)
  have last: "sends (andthen (write_control se (file_record ''FILE_END'' (sf_path f))) (\<lambda>_.
         andthen (read_response se ''FILE_COMPLETE'') (\<lambda>_. ret ())))
      (control_line se (file_record ''FILE_END'' (sf_path f))) Q" if Q for Q
    using sends_andthen [OF sends_control, of "\<lambda>_. andthen (read_response se ''FILE_COMPLETE'') (\<lambda>_. ret ())" "[]" Q]
    by (simp add: sends_quiet [OF sends_response] sends_basic that)
  show ?thesis
    unfolding send_file_def file_wire_def c Inr found
    by (rule sends_quiet [OF sends_cancel], rule sends_andthen [OF sends_control],
        rule sends_quiet [OF sends_response], rule sends_lift)
      (auto intro!: sends_basic sends_andthen [OF extents] sends_andthen [OF holes] last simp: re)
qed

lemma transfer_session_sends:
  "sends (transfer_session se b p) (plan_wire se b p)
     ((\<forall>f \<in> set (tp_files p). bu_reopen b (sf_source f) = Some (True, sf_stat f, sent_content b f)) \<and>
      se_exit se = Some 0)"
proof -
  let ?P = "\<forall>f \<in> set (tp_files p). bu_reopen b (sf_source f) = Some (True, sf_stat f, sent_content b f)"
  have files: "sends (each (send_file se b) (tp_files p))
      (concat (map (\<lambda>f. file_wire se (sent_content b f) f) (tp_files p))) ?P"
    by (rule sends_each) (rule send_file_sends)
  have last: "sends (andthen (write_control se finish_record) (\<lambda>_.
       andthen (read_response se ''STAGING_COMPLETE'') (\<lambda>v. andthen (wait_exit se) (\<lambda>_. ret v))))
     (control_line se finish_record) (?P \<and> se_exit se = Some 0)" if ?P
    using sends_andthen [OF sends_control, of "\<lambda>_. andthen (read_response se ''STAGING_COMPLETE'')
        (\<lambda>v. andthen (wait_exit se) (\<lambda>_. ret v))" "[]" "?P \<and> se_exit se = Some 0"] that
    by (simp add: sends_quiet [OF sends_response] sends_quiet [OF sends_wait] sends_basic)
  show ?thesis
    unfolding transfer_session_def plan_wire_def
    by (rule sends_andthen [OF sends_control], rule sends_quiet [OF sends_response],
        rule sends_andthen [OF files], rule last)
qed

section \<open>The seed negotiation\<close>

lemma publish_response_status:
  "read_publish_response se p = (Inr v, p') \<Longrightarrow> dget v ''status'' = Some (JStr ''PUBLISHED'')"
  by (auto simp: read_publish_response_def andthen_Inr op_Inr split: if_splits)

lemma seed_session_none: "seed_session se b p q = (Inr r, q') \<Longrightarrow> r = None"
  unfolding seed_session_def andthen_Inr
  by (auto simp: op_Inr dest: publish_response_status)

lemma seeded_full_plan_same:
  "seeded_full_plan se b h replies p destination = Inr q \<Longrightarrow> q = p"
  unfolding seeded_full_plan_def
  by (auto simp: bnd_eq_Inr split: if_splits prod.splits sum.splits option.splits dest: seed_session_none)

section \<open>Sparse files\<close>

text \<open>What the sender relies on: see \<open>lseek(2)\<close> and \<open>stat(2)\<close>.\<close>

definition zero_between :: "byte list \<Rightarrow> nat \<Rightarrow> nat \<Rightarrow> bool" where
  "zero_between content i j \<longleftrightarrow> (\<forall>k. i \<le> k \<longrightarrow> k < j \<longrightarrow> k < length content \<longrightarrow> content ! k = 0)"

definition bundle_ok :: "bundle_env \<Rightarrow> bool" where
  "bundle_ok b \<longleftrightarrow>
     (\<forall>p info content. bu_open b p = Some (True, info, content) \<longrightarrow>
        fi_size info = length content \<and>
        (\<forall>content'. bu_reopen b p = Some (True, info, content') \<longrightarrow> content' = content) \<and>
        (\<forall>i d. bu_seek_data b p i = Position d \<longrightarrow> zero_between content i d) \<and>
        (\<forall>i. bu_seek_data b p i = No_more_data \<longrightarrow> zero_between content i (length content)))"

definition within_extents :: "(nat \<times> nat) list \<Rightarrow> nat \<Rightarrow> bool" where
  "within_extents es k \<longleftrightarrow> (\<exists>(off, n) \<in> set es. off \<le> k \<and> k < off + n)"

lemma some_extents_Inr [simp]: "some_extents found = Inr es \<longleftrightarrow> es = found \<and> found \<noteq> []"
  by (auto simp: some_extents_def)

lemma data_extents_spec:
  assumes "data_extents b p total_len position found = Inr es"
    and "\<And>i d. bu_seek_data b p i = Position d \<Longrightarrow> zero_between content i d"
    and "\<And>i. bu_seek_data b p i = No_more_data \<Longrightarrow> zero_between content i (length content)"
    and "total_len = length content"
  shows "set found \<subseteq> set es \<and>
    (\<forall>k. position \<le> k \<longrightarrow> k < total_len \<longrightarrow> content ! k \<noteq> 0 \<longrightarrow> within_extents es k) \<and>
    (\<forall>(off, n) \<in> set es - set found. off + n \<le> total_len)"
  using assms
proof (induction b p total_len position found rule: data_extents.induct)
  case (1 b p total_len position found)
  show ?case
  proof (cases "position < total_len")
    case False
    with "1.prems"(1) show ?thesis by (subst (asm) data_extents.simps) auto
  next
    case True
    show ?thesis
    proof (cases "bu_seek_data b p position")
      case (Position data)
      with "1.prems"(1) True obtain hole where d: "position \<le> data" "data < total_len"
        and hole: "bu_seek_hole b p data = Position hole" and h: "data < min hole total_len"
        and rest: "data_extents b p total_len (min hole total_len) (found @ [(data, min hole total_len - data)]) = Inr es"
        by (subst (asm) data_extents.simps) (auto split: if_splits seek.splits)
      let ?h = "min hole total_len"
      from "1.IH" [OF True Position _ hole _ rest] d h "1.prems"(2-4)
      have ih: "set (found @ [(data, ?h - data)]) \<subseteq> set es"
        "\<forall>k. ?h \<le> k \<longrightarrow> k < total_len \<longrightarrow> content ! k \<noteq> 0 \<longrightarrow> within_extents es k"
        "\<forall>(off, n) \<in> set es - set (found @ [(data, ?h - data)]). off + n \<le> total_len"
        by (auto simp: not_less)
      have "within_extents es k" if "position \<le> k" "k < total_len" "content ! k \<noteq> 0" for k
      proof -
        have "data \<le> k" using "1.prems"(2) [OF Position] that "1.prems"(4)
          by (auto simp: zero_between_def not_le)
        moreover have "within_extents es k" if "data \<le> k" "k < ?h"
          using that ih(1) h by (auto simp: within_extents_def intro!: bexI [of _ "(data, ?h - data)"])
        ultimately show ?thesis using ih(2) that by (meson not_less)
      qed
      moreover have "off + n \<le> total_len" if "(off, n) \<in> set es - set found" for off n
      proof (cases "(off, n) = (data, ?h - data)")
        case True
        with h show ?thesis by simp
      next
        case False
        with ih(3) that show ?thesis by auto
      qed
      ultimately show ?thesis using ih(1) by auto
    next
      case No_more_data
      with "1.prems"(1) True have "es = found" by (subst (asm) data_extents.simps) simp
      with "1.prems"(3) [OF No_more_data] "1.prems"(4) show ?thesis by (auto simp: zero_between_def)
    qed (use "1.prems"(1) True in \<open>subst (asm) data_extents.simps, simp\<close>)+
  qed
qed

text \<open>An inspected file: its extents lie inside it and hold every byte that is not zero.\<close>

definition inspected :: "bundle_env \<Rightarrow> source_file \<Rightarrow> byte list \<Rightarrow> bool" where
  "inspected b f content \<longleftrightarrow> bu_open b (sf_source f) = Some (True, sf_stat f, content) \<and>
     sf_logical_size f = length content \<and> sf_holes f = [] \<and>
     (\<forall>(off, n) \<in> set (sf_extents f). off + n \<le> length content) \<and>
     (\<forall>k < length content. content ! k \<noteq> 0 \<longrightarrow> within_extents (sf_extents f) k)"

lemma open_regular_Inr: "open_regular found = Inr (info, content) \<longleftrightarrow> found = Some (True, info, content)"
  by (auto simp: open_regular_def split: option.splits if_splits)

lemma metadata_file_inspected:
  assumes "bundle_ok b" and "metadata_file b base name = Inr f"
  shows "\<exists>content. inspected b f content"
proof -
  from assms(2) obtain info content where
    o: "bu_open b (joined (joined base ''metadata'') name) = Some (True, info, content)" and
    f: "f = \<lparr>sf_path = ''metadata/'' @ name, sf_source = joined (joined base ''metadata'') name,
      sf_logical_size = fi_size info, sf_payload_bytes = fi_size info, sf_extents = [(0, fi_size info)],
      sf_stat = info, sf_holes = []\<rparr>"
    by (auto simp: metadata_file_def Let_def bnd_eq_Inr open_regular_Inr split: if_splits)
  have "fi_size info = length content" using assms(1) o unfolding bundle_ok_def by blast
  with o show ?thesis by (auto simp: inspected_def f within_extents_def)
qed

lemma disk_file_inspected:
  assumes "bundle_ok b" and "disk_file b disks name = Inr f"
  shows "\<exists>content. inspected b f content"
proof -
  from assms(2) obtain info content es where
    o: "bu_open b (joined disks name) = Some (True, info, content)" and
    es: "sparse_extents b (joined disks name) (fi_size info) = Inr es" and
    f: "f = \<lparr>sf_path = ''disks/'' @ name, sf_source = joined disks name,
      sf_logical_size = fi_size info, sf_payload_bytes = sum_list (map snd es), sf_extents = es,
      sf_stat = info, sf_holes = []\<rparr>"
    by (auto simp: disk_file_def Let_def bnd_eq_Inr open_regular_Inr split: if_splits)
  have n: "fi_size info = length content"
    and d: "\<And>i d. bu_seek_data b (joined disks name) i = Position d \<Longrightarrow> zero_between content i d"
    and e: "\<And>i. bu_seek_data b (joined disks name) i = No_more_data \<Longrightarrow> zero_between content i (length content)"
    using assms(1) o unfolding bundle_ok_def by blast+
  have "data_extents b (joined disks name) (fi_size info) 0 [] = Inr es"
    using es by (simp add: sparse_extents_def split: if_splits)
  from data_extents_spec [OF this d e n] n o show ?thesis by (auto simp: inspected_def f)
qed

lemma bundle_inspected:
  assumes "bundle_ok b" and "inspect_published_bundle b object_id = Inr fs" and "f \<in> set fs"
  shows "\<exists>content. inspected b f content"
proof -
  from assms(2) obtain base disks names ms ds where
    ms: "map_result (metadata_file b base) names = Inr ms" and
    ds: "map_result (disk_file b disks) (sort (bu_entries b disks)) = Inr ds" and fs: "fs = ms @ ds"
    unfolding inspect_published_bundle_def Let_def
    by (auto simp: bnd_eq_Inr simp del: map_result.simps split: if_splits)
  have "\<forall>f \<in> set ms. \<exists>content. inspected b f content"
    by (rule map_result_all [OF ms]) (rule metadata_file_inspected [OF assms(1)])
  moreover have "\<forall>f \<in> set ds. \<exists>content. inspected b f content"
    by (rule map_result_all [OF ds]) (rule disk_file_inspected [OF assms(1)])
  ultimately show ?thesis using assms(3) fs by auto
qed

end
