(* ===== verification/EndToEnd.thy ===== *)
theory EndToEnd
  imports SenderProps
begin

text \<open>
  Sender and receiver together. The sender's bytes are fed to the receiver's command loop; when
  both sides report success, every staged file holds the bytes of the source file. The two
  programs share no code: what connects them is that a line written by \<open>json.dumps\<close> is read
  back by \<open>json.loads\<close> (\<open>codec_ok\<close>).
\<close>

section \<open>Layers of a file\<close>

definition layer :: "byte list \<Rightarrow> byte list \<Rightarrow> nat \<times> nat \<Rightarrow> byte list" where
  "layer src content c = overwrite content (fst c) (piece src c)"

definition chunks_fit :: "(nat \<times> nat) list \<Rightarrow> nat \<Rightarrow> bool" where
  "chunks_fit cs n \<longleftrightarrow> (\<forall>(off, len) \<in> set cs. off + len \<le> n)"

lemma length_piece [simp]: "fst c + snd c \<le> length src \<Longrightarrow> length (piece src c) = snd c"
  by (simp add: piece_def)

lemma layer_length:
  "fst c + snd c \<le> length src \<Longrightarrow> length content = length src \<Longrightarrow> length (layer src content c) = length src"
  by (simp add: layer_def)

lemma layer_nth:
  assumes "fst c + snd c \<le> length src" and "length content = length src" and "k < length src"
  shows "layer src content c ! k = (if fst c \<le> k \<and> k < fst c + snd c then src ! k else content ! k)"
  unfolding layer_def using assms by (subst overwrite_nth) (auto simp: piece_def)

lemma layers_spec:
  assumes "chunks_fit cs (length src)" and "length content = length src"
  shows "length (foldl (layer src) content cs) = length src \<and>
    (\<forall>k < length src. foldl (layer src) content cs ! k = (if within_extents cs k then src ! k else content ! k))"
  using assms
proof (induction cs arbitrary: content)
  case (Cons c cs)
  have c: "fst c + snd c \<le> length src" and cs: "chunks_fit cs (length src)"
    using Cons.prems(1) by (auto simp: chunks_fit_def split: prod.splits)
  from Cons.IH [OF cs layer_length [OF c Cons.prems(2)]] show ?case
    by (auto simp: layer_nth [OF c Cons.prems(2)] within_extents_def split: prod.splits)
qed (simp add: within_extents_def)

lemma chunks_spec:
  "(\<forall>(off, len) \<in> set (chunks position remaining). position \<le> off \<and> off + len \<le> position + remaining) \<and>
   (\<forall>k. position \<le> k \<longrightarrow> k < position + remaining \<longrightarrow> within_extents (chunks position remaining) k)"
proof (induction position remaining rule: chunks.induct)
  case (1 position remaining)
  show ?case
  proof (cases "remaining = 0")
    case True
    then show ?thesis by (simp add: chunks.simps [of position])
  next
    case False
    let ?n = "min remaining chunk_limit"
    have eq: "chunks position remaining = (position, ?n) # chunks (position + ?n) (remaining - ?n)"
      using False by (simp add: chunks.simps [of position remaining])
    note ih = "1.IH" [OF False]
    have "off + len \<le> position + remaining \<and> position \<le> off" if "(off, len) \<in> set (chunks (position + ?n) (remaining - ?n))" for off len
    proof -
      have "position + ?n \<le> off \<and> off + len \<le> position + ?n + (remaining - ?n)" using ih that by blast
      moreover have "?n \<le> remaining" by simp
      ultimately show ?thesis by linarith
    qed
    moreover have "within_extents (chunks position remaining) k" if "position \<le> k" "k < position + remaining" for k
    proof (cases "k < position + ?n")
      case True
      with that show ?thesis by (auto simp: eq within_extents_def)
    next
      case False
      with that ih have "within_extents (chunks (position + ?n) (remaining - ?n)) k" by simp
      then show ?thesis by (auto simp: eq within_extents_def)
    qed
    ultimately show ?thesis by (auto simp: eq)
  qed
qed

lemma file_chunks_spec:
  assumes "inspected b f src"
  shows "chunks_fit (file_chunks f) (length src)"
    and "\<forall>k < length src. src ! k \<noteq> 0 \<longrightarrow> within_extents (file_chunks f) k"
proof -
  from assms have fit: "\<And>off n. (off, n) \<in> set (sf_extents f) \<Longrightarrow> off + n \<le> length src"
    and cover: "\<And>k. k < length src \<Longrightarrow> src ! k \<noteq> 0 \<Longrightarrow> within_extents (sf_extents f) k"
    by (auto simp: inspected_def)
  have mem: "(a, l) \<in> set (file_chunks f) \<longleftrightarrow> (\<exists>off n. (off, n) \<in> set (sf_extents f) \<and> (a, l) \<in> set (chunks off n))" for a l
    by (auto simp: file_chunks_def)
  show "chunks_fit (file_chunks f) (length src)"
    unfolding chunks_fit_def using chunks_spec fit by (fastforce simp: mem)
  show "\<forall>k < length src. src ! k \<noteq> 0 \<longrightarrow> within_extents (file_chunks f) k"
  proof (intro allI impI)
    fix k
    assume "k < length src" "src ! k \<noteq> 0"
    from cover [OF this] obtain off n where "(off, n) \<in> set (sf_extents f)" "off \<le> k" "k < off + n"
      by (auto simp: within_extents_def)
    moreover from this(2,3) have "within_extents (chunks off n) k" using chunks_spec by blast
    ultimately show "within_extents (file_chunks f) k" by (fastforce simp: within_extents_def mem)
  qed
qed

lemma layers_rebuild:
  assumes "inspected b f src"
  shows "foldl (layer src) (replicate (length src) 0) (file_chunks f) = src"
proof (rule nth_equalityI)
  note spec = layers_spec [OF file_chunks_spec(1) [OF assms], of "replicate (length src) 0"]
  show "length (foldl (layer src) (replicate (length src) 0) (file_chunks f)) = length src"
    using spec by simp
  fix k
  assume "k < length (foldl (layer src) (replicate (length src) 0) (file_chunks f))"
  with spec file_chunks_spec(2) [OF assms]
  show "foldl (layer src) (replicate (length src) 0) (file_chunks f) ! k = src ! k" by auto
qed

section \<open>The wire\<close>

text \<open>
  The two ends of the wire agree on a set of records: \<open>dumps\<close> writes no line break, and
  \<open>loads\<close> reads the same object back.
\<close>

definition codec_ok :: "sender_env \<Rightarrow> receiver_env \<Rightarrow> dict set \<Rightarrow> bool" where
  "codec_ok se re D \<longleftrightarrow> (\<forall>d \<in> D. newline \<notin> set (se_dumps se (JObj d)) \<and>
     re_loads re (control_line se d) = Some (JObj d))"

text \<open>The records of a plan: what its transfer writes.\<close>

definition file_records :: "sender_env \<Rightarrow> byte list \<Rightarrow> source_file \<Rightarrow> dict set" where
  "file_records se src f = insert (file_record ''FILE_BEGIN'' (sf_path f)) (insert (file_record ''FILE_END'' (sf_path f))
     ((\<lambda>c. extent_record (fst c) (snd c) (se_sha256 se (piece src c))) ` set (file_chunks f)))"

definition plan_records :: "sender_env \<Rightarrow> bundle_env \<Rightarrow> transfer_plan \<Rightarrow> dict set" where
  "plan_records se b p = insert (begin_record p) (insert finish_record
     (\<Union>f \<in> set (tp_files p). file_records se (sent_content b f) f))"

text \<open>Reading a control line back.\<close>

lemma read_line_control:
  assumes "newline \<notin> set body"
  shows "read_line (body @ newline # rest) limit = take limit (body @ [newline])"
proof -
  have "takeWhile (\<lambda>x. x \<noteq> newline) (body @ newline # rest) = body"
    using assms by (subst takeWhile_append2) auto
  moreover have "take (length body + 1) (body @ newline # rest) = body @ [newline]" by simp
  ultimately show ?thesis unfolding read_line_def Let_def by (simp only:)
qed

lemma read_control_line:
  assumes "codec_ok se re D" and "d \<in> D" and "read_control re (control_line se d @ rest) = Inr x"
  shows "x = (d, rest)"
proof -
  let ?body = "se_dumps se (JObj d)"
  have nl: "newline \<notin> set ?body" and loads: "re_loads re (?body @ [newline]) = Some (JObj d)"
    using assms(1,2) unfolding codec_ok_def control_line_def by blast+
  from read_line_control [OF nl] have
    line: "read_line (control_line se d @ rest) (max_control_line + 1) = take (max_control_line + 1) (?body @ [newline])"
    by (simp add: control_line_def)
  show ?thesis
  proof (cases "length ?body + 1 \<le> max_control_line")
    case True
    then have "read_line (control_line se d @ rest) (max_control_line + 1) = ?body @ [newline]"
      unfolding line by simp
    with assms(3) loads True show ?thesis
      by (simp add: read_control_def control_line_def)
  next
    case False
    then have "length (read_line (control_line se d @ rest) (max_control_line + 1)) > max_control_line"
      unfolding line by simp
    with assms(3) show ?thesis by (auto simp: read_control_def Let_def split: if_splits)
  qed
qed

section \<open>Running the receiver over a prefix of the stream\<close>

definition runs :: "receiver_env \<Rightarrow> byte list \<Rightarrow> staging \<Rightarrow> (staging \<Rightarrow> bool) \<Rightarrow> bool" where
  "runs re bytes s Q \<longleftrightarrow> (\<forall>rest out r out' final.
     transfer_loop re (bytes @ rest) out s = (Inr r, out', final) \<longrightarrow>
     (\<exists>out1 s'. transfer_loop re rest out1 s' = (Inr r, out', final) \<and> Q s'))"

lemma runs_append:
  "runs re bs s P \<Longrightarrow> (\<And>s'. P s' \<Longrightarrow> runs re cs s' Q) \<Longrightarrow> runs re (bs @ cs) s Q"
  unfolding runs_def append_assoc by meson

lemma runs_Nil: "Q s \<Longrightarrow> runs re [] s Q"
  unfolding runs_def by auto

lemma runs_each:
  assumes "\<And>s x xs. x \<in> set all \<Longrightarrow> P (x # xs) s \<Longrightarrow> runs re (w x) s (P xs)"
    and "set xs \<subseteq> set all" and "P xs s"
  shows "runs re (concat (map w xs)) s (P [])"
  using assms(2,3)
proof (induction xs arbitrary: s)
  case (Cons x xs)
  have "runs re (w x) s (P xs)" using assms(1) Cons.prems by simp
  then show ?case using Cons by (auto intro: runs_append)
qed (simp add: runs_Nil)

lemma runs_command:
  assumes codec: "codec_ok se re D" "d \<in> D"
    and step: "\<And>rest p s'. transfer_step re d (tail @ rest) s = (Inr p, s') \<Longrightarrow> \<exists>outs. p = Continue outs rest \<and> Q s'"
  shows "runs re (control_line se d @ tail) s Q"
  unfolding runs_def
proof (intro allI impI)
  fix rest out r out' final
  assume loop: "transfer_loop re ((control_line se d @ tail) @ rest) out s = (Inr r, out', final)"
  then obtain x where x: "read_control re (control_line se d @ (tail @ rest)) = Inr x"
    by (subst (asm) transfer_loop.simps) (auto split: sum.splits)
  from read_control_line [OF codec x] x have rc: "read_control re (control_line se d @ (tail @ rest)) = Inr (d, tail @ rest)"
    by simp
  from loop rc obtain p s' where p: "transfer_step re d (tail @ rest) s = (Inr p, s')"
    by (subst (asm) transfer_loop.simps) (auto split: sum.splits prod.splits)
  from step [OF p] obtain outs where o: "p = Continue outs rest" and q: "Q s'" by blast
  from loop rc p o have "transfer_loop re rest (out @ outs) s' = (Inr r, out', final)"
    by (subst (asm) transfer_loop.simps) simp
  with q show "\<exists>out1 s'. transfer_loop re rest out1 s' = (Inr r, out', final) \<and> Q s'" by blast
qed

section \<open>Receiving a file\<close>

text \<open>
  The session between two commands: declaration and namespace stay, \<open>fs\<close> is the filesystem.
\<close>

definition at_rest :: "staging \<Rightarrow> (string \<Rightarrow> node option) \<Rightarrow> staging \<Rightarrow> bool" where
  "at_rest s0 fs s \<longleftrightarrow> sg_decl s = sg_decl s0 \<and> sg_namespace s = sg_namespace s0 \<and> sg_current s = None \<and>
     sg_fs s = fs"

definition receiving :: "staging \<Rightarrow> (string \<Rightarrow> node option) \<Rightarrow> declared_file \<Rightarrow> byte list \<Rightarrow> staging \<Rightarrow> bool" where
  "receiving s0 fs g content s \<longleftrightarrow> sg_decl s = sg_decl s0 \<and> sg_namespace s = sg_namespace s0 \<and>
     (\<exists>c. sg_current s = Some c \<and> of_declared c = g) \<and> int (length content) = df_logical_size g \<and>
     sg_fs s = fs(filesystem_path s0 (df_path g) \<mapsto> File content)"

lemma same_paths:
  "sg_decl s = sg_decl s0 \<Longrightarrow> sg_namespace s = sg_namespace s0 \<Longrightarrow> filesystem_path s q = filesystem_path s0 q"
  by (rule dirs_cong)

lemma runs_begin:
  assumes codec: "codec_ok se re D" "file_record ''FILE_BEGIN'' q \<in> D" and rest: "at_rest s0 fs s"
    and wf: "declaration_wf (sg_decl s0)" and seed: "td_seed (sg_decl s0) = None"
    and g: "declared_file_of (sg_decl s0) q = Inr g"
  shows "runs re (control_line se (file_record ''FILE_BEGIN'' q)) s
    (receiving s0 fs g (replicate (nat (df_logical_size g)) 0))"
proof -
  have "runs re (control_line se (file_record ''FILE_BEGIN'' q) @ []) s
    (receiving s0 fs g (replicate (nat (df_logical_size g)) 0))"
  proof (rule runs_command [OF codec])
    fix src p s'
    assume "transfer_step re (file_record ''FILE_BEGIN'' q) ([] @ src) s = (Inr p, s')"
    then obtain path where path: "file_command (JObj (file_record ''FILE_BEGIN'' q)) ''FILE_BEGIN'' = Inr path"
      and b: "begin_file re path s = (Inr (), s')"
      and p: "p = Continue [response ''FILE_READY'' [(''path'', JStr path)]] src"
      by (auto simp: transfer_step_def file_record_def dget_or_def andthen_Inr op_Inr)
    from path have q: "bundle_path (JStr q) = Inr path"
      by (auto simp: file_command_def file_record_def strict_object_def check_operation_def bnd_eq_Inr
          split: if_splits)
    then have q: "path = q" by (simp add: bundle_path_Inr)
    have d: "sg_decl s = sg_decl s0" "sg_namespace s = sg_namespace s0" "sg_current s = None" "sg_fs s = fs"
      using rest by (simp_all add: at_rest_def)
    from b obtain s1 where c: "create_file re (filesystem_path s q) (df_logical_size g) s = (Inr (), s1)"
      and s': "s' = s1\<lparr>sg_current := Some \<lparr>of_declared = g, of_received = 0, of_extents = []\<rparr>\<rparr>"
      unfolding begin_file_def Let_def q
      by (auto simp: andthen_Inr op_Inr rethrow_Inr bundle_path_Inr d seed g split: if_splits)
    from create_file_Inr [OF c] obtain t where s1: "s1 = s\<lparr>sg_fs := (sg_fs s)(filesystem_path s q \<mapsto>
        File (replicate (nat (df_logical_size g)) 0)), sg_open := filesystem_path s q # sg_open s, sg_tick := t\<rparr>"
      by blast
    from declared_file_of_Inr [OF g] wf have "df_path g = q" "0 < df_logical_size g"
      by (auto simp: declaration_wf_def file_wf_def)
    then have "receiving s0 fs g (replicate (nat (df_logical_size g)) 0) s'"
      using same_paths [OF d(1,2)] by (simp add: receiving_def s' s1 d)
    with p show "\<exists>outs. p = Continue outs src \<and> receiving s0 fs g (replicate (nat (df_logical_size g)) 0) s'"
      by blast
  qed
  then show ?thesis by simp
qed

lemma runs_extent:
  assumes codec: "codec_ok se re D"
      "extent_record (fst c) (snd c) (se_sha256 se (piece src c)) \<in> D" and cur: "receiving s0 fs g content s"
    and fit: "fst c + snd c \<le> length src" and len: "length content = length src"
  shows "runs re (extent_wire se src c) s (receiving s0 fs g (layer src content c))"
  unfolding extent_wire_def
proof (rule runs_command [OF codec])
  let ?d = "extent_record (fst c) (snd c) (se_sha256 se (piece src c))"
  fix rest p s'
  assume "transfer_step re ?d (piece src c @ rest) s = (Inr p, s')"
  then have "extent_step re ?d (piece src c @ rest) s = (Inr p, s')"
    by (simp add: transfer_step_def extent_record_def dget_or_def)
  then obtain payload rest' where
    read: "read_exact (piece src c @ rest) (snd c) = Inr (payload, rest')" and
    w: "write_extent re (JInt (int (fst c))) (int (snd c)) (JStr (se_sha256 se (piece src c))) payload s = (Inr (), s')"
    and p: "p = Continue [] rest'"
    unfolding extent_step_def
    by (auto simp: andthen_Inr op_Inr extent_record_def extent_command_def strict_object_def check_operation_def
        bnd_eq_Inr proto_integer_Inr split: if_splits)
  from read fit have payload: "payload = piece src c" "rest' = rest"
    by (auto simp: read_exact_def split: if_splits)
  from cur obtain k where k: "sg_current s = Some k" "of_declared k = g"
    and d: "sg_decl s = sg_decl s0" "sg_namespace s = sg_namespace s0"
      "int (length content) = df_logical_size g" "sg_fs s = fs(filesystem_path s0 (df_path g) \<mapsto> File content)"
    by (auto simp: receiving_def)
  have path: "current_path s k = filesystem_path s0 (df_path g)"
    by (simp add: current_path_def k(2) same_paths [OF d(1,2)])
  have "sg_fs s (current_path s k) = Some (File content)" "int (length content) = df_logical_size (of_declared k)"
    by (simp_all add: path d k(2))
  from write_extent_Inr [OF w k(1) this] obtain a b t where
    ab: "check_extent re k (JInt (int (fst c))) (int (snd c)) (JStr (se_sha256 se (piece src c))) payload = Inr (a, b)" and
    s': "s' = s\<lparr>sg_fs := (sg_fs s)(current_path s k \<mapsto> File (overwrite content (nat a) payload)),
      sg_current := Some (k\<lparr>of_received := of_received k + (b - a), of_extents := of_extents k @ [(a, b)]\<rparr>),
      sg_tick := t\<rparr>" by blast
  from check_extent_Inr [OF ab] have a: "nat a = fst c" by auto
  have "length (layer src content c) = length content"
    using layer_length [OF fit len] len by simp
  then have "receiving s0 fs g (layer src content c) s'"
    using d k by (simp add: receiving_def s' path layer_def a payload)
  with p payload show "\<exists>outs. p = Continue outs rest \<and> receiving s0 fs g (layer src content c) s'" by blast
qed

lemma runs_extents:
  assumes codec: "codec_ok se re D" and
      "(\<lambda>c. extent_record (fst c) (snd c) (se_sha256 se (piece src c))) ` set cs \<subseteq> D" and "receiving s0 fs g content s"
    and "chunks_fit cs (length src)" and "length content = length src"
  shows "runs re (concat (map (extent_wire se src) cs)) s (receiving s0 fs g (foldl (layer src) content cs))"
  using assms(2-)
proof (induction cs arbitrary: content s)
  case (Cons c cs)
  have c: "fst c + snd c \<le> length src" and cs: "chunks_fit cs (length src)"
    using Cons.prems(3) by (auto simp: chunks_fit_def split: prod.splits)
  have d: "extent_record (fst c) (snd c) (se_sha256 se (piece src c)) \<in> D"
    and ds: "(\<lambda>c. extent_record (fst c) (snd c) (se_sha256 se (piece src c))) ` set cs \<subseteq> D"
    using Cons.prems(1) by auto
  show ?case
    using runs_append [OF runs_extent [OF codec d Cons.prems(2) c Cons.prems(4)]
        Cons.IH [OF ds _ cs layer_length [OF c Cons.prems(4)]]] by simp
qed (simp add: runs_Nil)

lemma runs_end:
  assumes codec: "codec_ok se re D" "file_record ''FILE_END'' q \<in> D" and cur: "receiving s0 fs g content s"
  shows "runs re (control_line se (file_record ''FILE_END'' q)) s
    (at_rest s0 (fs(filesystem_path s0 (df_path g) \<mapsto> File content)))"
proof -
  have "runs re (control_line se (file_record ''FILE_END'' q) @ []) s
    (at_rest s0 (fs(filesystem_path s0 (df_path g) \<mapsto> File content)))"
  proof (rule runs_command [OF codec])
    fix rest p s'
    assume "transfer_step re (file_record ''FILE_END'' q) ([] @ rest) s = (Inr p, s')"
    then have "file_end_step re (file_record ''FILE_END'' q) rest s = (Inr p, s')"
      by (simp add: transfer_step_def file_record_def dget_or_def)
    then obtain r where e: "end_file re s = (Inr r, s')"
      and p: "p = Continue [response ''FILE_COMPLETE'' [(''path'', JStr r)]] rest"
      unfolding file_end_step_def by (auto simp: andthen_Inr op_Inr split: option.splits if_splits)
    from end_file_Inr [OF e] cur have "at_rest s0 (fs(filesystem_path s0 (df_path g) \<mapsto> File content)) s'"
      by (auto simp: at_rest_def receiving_def)
    with p show "\<exists>outs. p = Continue outs rest \<and> at_rest s0 (fs(filesystem_path s0 (df_path g) \<mapsto> File content)) s'"
      by blast
  qed
  then show ?thesis by simp
qed

lemma runs_file:
  assumes codec: "codec_ok se re D" and ds: "file_records se src f \<subseteq> D" and rest: "at_rest s0 fs s"
    and wf: "declaration_wf (sg_decl s0)" and seed: "td_seed (sg_decl s0) = None"
    and g: "declared_file_of (sg_decl s0) (sf_path f) = Inr g" and size: "df_logical_size g = int (length src)"
    and f: "inspected b f src"
  shows "runs re (file_wire se src f) s (at_rest s0 (fs(filesystem_path s0 (sf_path f) \<mapsto> File src)))"
proof -
  have begins: "runs re (control_line se (file_record ''FILE_BEGIN'' (sf_path f))) s
      (receiving s0 fs g (replicate (length src) 0))"
    using runs_begin [OF codec _ rest wf seed g] ds by (simp add: size file_records_def)
  have es: "(\<lambda>c. extent_record (fst c) (snd c) (se_sha256 se (piece src c))) ` set (file_chunks f) \<subseteq> D"
    and e: "file_record ''FILE_END'' (sf_path f) \<in> D" using ds by (auto simp: file_records_def)
  have holes: "sf_holes f = []" using f by (simp add: inspected_def)
  have q: "df_path g = sf_path f" using declared_file_of_Inr [OF g] by simp
  show ?thesis
    unfolding file_wire_def holes
  proof (rule runs_append [OF begins])
    fix s1
    assume s1: "receiving s0 fs g (replicate (length src) 0) s1"
    show "runs re (concat (map (extent_wire se src) (file_chunks f)) @
        concat (map (\<lambda>(off, n). control_line se (hole_record off n)) []) @
        control_line se (file_record ''FILE_END'' (sf_path f))) s1
      (at_rest s0 (fs(filesystem_path s0 (sf_path f) \<mapsto> File src)))"
    proof (rule runs_append [OF runs_extents [OF codec es s1 file_chunks_spec(1) [OF f]]])
      fix s2
      assume "receiving s0 fs g (foldl (layer src) (replicate (length src) 0) (file_chunks f)) s2"
      then have "receiving s0 fs g src s2" by (simp add: layers_rebuild [OF f])
      from runs_end [OF codec e this] q
      show "runs re (concat (map (\<lambda>(off, n). control_line se (hole_record off n)) []) @
          control_line se (file_record ''FILE_END'' (sf_path f))) s2
        (at_rest s0 (fs(filesystem_path s0 (sf_path f) \<mapsto> File src)))" by simp
    qed simp
  qed
qed

text \<open>All files of a plan, one after the other.\<close>

definition delivered :: "(string \<Rightarrow> string) \<Rightarrow> (source_file \<Rightarrow> byte list) \<Rightarrow> source_file list \<Rightarrow>
    (string \<Rightarrow> node option) \<Rightarrow> string \<Rightarrow> node option" where
  "delivered place src fs0 fs = foldl (\<lambda>m f. m(place (sf_path f) \<mapsto> File (src f))) fs fs0"

lemma runs_files:
  assumes codec: "codec_ok se re D" and wf: "declaration_wf (sg_decl s0)" and seed: "td_seed (sg_decl s0) = None"
    and files: "\<And>f. f \<in> set xs \<Longrightarrow> inspected b f (src f) \<and>
      file_records se (src f) f \<subseteq> D \<and> (\<exists>g. declared_file_of (sg_decl s0) (sf_path f) = Inr g \<and> df_logical_size g = int (length (src f)))"
    and "at_rest s0 fs s"
  shows "runs re (concat (map (\<lambda>f. file_wire se (src f) f) xs)) s
    (at_rest s0 (delivered (filesystem_path s0) src xs fs))"
  using assms(4-)
proof (induction xs arbitrary: fs s)
  case (Cons f xs)
  then obtain g where f: "inspected b f (src f)" "declared_file_of (sg_decl s0) (sf_path f) = Inr g"
    "df_logical_size g = int (length (src f))" and ds: "file_records se (src f) f \<subseteq> D" by force
  have "runs re (file_wire se (src f) f) s (at_rest s0 (fs(filesystem_path s0 (sf_path f) \<mapsto> File (src f))))"
    by (rule runs_file [OF codec ds Cons.prems(2) wf seed f(2,3,1)])
  from runs_append [OF this Cons.IH] Cons.prems(1) show ?case by (simp add: delivered_def)
qed (simp add: runs_Nil delivered_def)

lemma delivered_at:
  assumes "f \<in> set xs" and "inj_on (\<lambda>f. place (sf_path f)) (set xs)"
  shows "delivered place src xs fs (place (sf_path f)) = Some (File (src f))"
  using assms
proof (induction xs arbitrary: fs)
  case (Cons x xs)
  show ?case
  proof (cases "f \<in> set xs")
    case True
    with Cons show ?thesis by (simp add: delivered_def)
  next
    case False
    have "delivered place src xs m (place (sf_path f)) = m (place (sf_path f))" if "inj_on (\<lambda>f. place (sf_path f)) (insert f (set xs))" for m
      using that False unfolding delivered_def
    proof (induction xs arbitrary: m)
      case (Cons y ys)
      then have "place (sf_path f) \<noteq> place (sf_path y)" by (auto simp: inj_on_def)
      moreover have "inj_on (\<lambda>f. place (sf_path f)) (insert f (set ys))"
        using Cons.prems(1) by (rule inj_on_subset) auto
      ultimately show ?case using Cons by simp
    qed simp
    with Cons.prems False show ?thesis by (auto simp: delivered_def)
  qed
qed simp

section \<open>The declaration\<close>

definition declared :: "source_file \<Rightarrow> declared_file" where
  "declared f = \<lparr>df_path = sf_path f, df_logical_size = int (sf_logical_size f),
     df_payload_bytes = int (sf_payload_bytes f)\<rparr>"

lemma parse_begin_file_record: "parse_file (begin_file_record f) = Inr g \<Longrightarrow> g = declared f"
  by (auto simp: parse_file_def begin_file_record_def strict_object_def bnd_eq_Inr proto_integer_Inr
      bundle_path_Inr declared_def split: if_splits)

lemma begin_record_simps:
  assumes "tp_seed p = None"
  shows "dget (begin_record p) ''files'' = Some (JList (map begin_file_record (tp_files p)))"
    "dget (begin_record p) ''transfer_id'' = Some (JStr (tp_transfer_id p))"
    "dget (begin_record p) ''storage_id'' = Some (JStr (tp_storage_id p))"
    "dget (begin_record p) ''vm_id'' = Some (JStr (tp_vm_id p))"
    "dget (begin_record p) ''seed_restore_point_id'' = None"
  using assms by (simp_all add: begin_record_def)

lemma parse_begin_record:
  assumes "tp_seed p = None" and "parse_begin isotime (JObj (begin_record p)) = Inr d"
  shows "td_seed d = None \<and> td_files d = map declared (tp_files p)"
proof -
  from assms(2) obtain point :: parsed_point and raw_files files where
    seed: "parse_seed (begin_record p) (pp_kind point) = Inr (td_seed d)" and
    raw: "raw_file_list (JList (map begin_file_record (tp_files p))) = Inr raw_files" and
    files: "map_result parse_file raw_files = Inr files" and ok: "check_file_set files = Inr (td_files d)"
    unfolding parse_begin_def
    by (auto simp: bnd_eq_Inr begin_record_simps [OF assms(1)] split: if_splits)
  have "raw_files = map begin_file_record (tp_files p)"
    using raw by (auto simp: raw_file_list_def split: if_splits)
  with files have "map_result (\<lambda>f. parse_file (begin_file_record f)) (tp_files p) = Inr files"
    by (simp add: map_result_Inr list_all2_map1)
  then have "list_all2 (\<lambda>f g. g = declared f) (tp_files p) files"
    unfolding map_result_Inr by (rule list_all2_mono) (rule parse_begin_file_record)
  then have "files = map declared (tp_files p)"
    by (induction rule: list_all2_induct) auto
  with check_file_set_Inr [OF ok] seed show ?thesis
    by (simp add: parse_seed_def dget_or_def begin_record_simps [OF assms(1)])
qed

lemma finish_run_Inr:
  assumes codec: "codec_ok se re D" "finish_record \<in> D" and loop: "transfer_loop re (control_line se finish_record) out s = (Inr r, out', final)"
  shows "finish re s = (Inr r, final)"
proof -
  from loop obtain x where "read_control re (control_line se finish_record @ []) = Inr x"
    by (subst (asm) transfer_loop.simps) (auto split: sum.splits)
  from read_control_line [OF codec this] this
  have rc: "read_control re (control_line se finish_record) = Inr (finish_record, [])" by simp
  from loop rc obtain g s1 where step: "transfer_step re finish_record [] s = (Inr g, s1)"
    by (subst (asm) transfer_loop.simps) (auto split: sum.splits prod.splits)
  then obtain receipt where g: "g = Finished receipt"
    by (auto simp: transfer_step_def finish_record_def dget_or_def andthen_Inr op_Inr)
  from loop rc step g have "receipt = r" "s1 = final"
    by (subst (asm) transfer_loop.simps, simp)+
  with step_finished [OF step [unfolded g]] show ?thesis by simp
qed

lemma declared_file_found:
  assumes "declaration_wf d" and "g \<in> set (td_files d)"
  shows "declared_file_of d (df_path g) = Inr g"
proof -
  have "find (\<lambda>f. df_path f = df_path g) (td_files d) \<noteq> None" using assms(2) by (auto simp: find_None_iff)
  then obtain f where f: "find (\<lambda>f. df_path f = df_path g) (td_files d) = Some f" by blast
  then have "f \<in> set (td_files d)" "df_path f = df_path g" using find_SomeD by fastforce+
  with assms have "f = g" by (auto simp: declaration_wf_def distinct_map dest: inj_onD)
  with f show ?thesis by (simp add: declared_file_of_def)
qed

section \<open>Delivery\<close>

lemma delivery:
  assumes codec: "codec_ok se re D" "begin_record p \<in> D" "finish_record \<in> D" and seed: "tp_seed p = None"
    and files: "\<And>f. f \<in> set (tp_files p) \<Longrightarrow> inspected b f (src f) \<and> file_records se (src f) f \<subseteq> D"
    and wire: "wire_bytes = control_line se (begin_record p) @
      concat (map (\<lambda>f. file_wire se (src f) f) (tp_files p)) @ control_line se finish_record"
    and run: "run_transfer re wire_bytes fs = (0, out, Some s)" and f: "f \<in> set (tp_files p)"
  shows "sg_fs s (filesystem_path s (sf_path f)) = Some (File (src f))"
proof -
  from run obtain d ns rest u s1 receipt out1 where acc: "accept_begin re wire_bytes = Inr (d, ns, rest)"
    and prep: "prepare re (new_session d ns fs) = (Inr u, s1)"
    and loop: "transfer_loop re rest [ready_response d] s1 = (Inr receipt, out1, s)"
    by (rule run_transfer_cases) (metis exit_code_nonzero(1) option.inject)+
  let ?body = "concat (map (\<lambda>f. file_wire se (src f) f) (tp_files p))"
  from acc obtain begin_rec rest1 where rc: "read_control re wire_bytes = Inr (begin_rec, rest1)"
    and parse: "parse_begin (re_isotime re) (JObj begin_rec) = Inr d" and rest: "rest = rest1"
    by (auto simp: accept_begin_def bnd_eq_Inr)
  from read_control_line [OF codec(1,2) rc [unfolded wire]]
  have "begin_rec = begin_record p" and body: "rest = ?body @ control_line se finish_record"
    by (simp_all add: rest)
  with parse have d: "td_seed d = None" "td_files d = map declared (tp_files p)"
    using parse_begin_record [OF seed] by auto
  have wf: "declaration_wf d" using accept_begin_wf [OF acc] .
  have s1: "sg_decl s1 = d" "sg_current s1 = None"
    using keepsD [OF frame_prepare [of "new_session d ns fs"] _ prep] by (simp_all add: frame_def new_session_def)
  have g: "\<exists>g. declared_file_of (sg_decl s1) (sf_path f) = Inr g \<and> df_logical_size g = int (length (src f))"
    if "f \<in> set (tp_files p)" for f
    using declared_file_found [OF wf, of "declared f"] files [OF that] that
    by (intro exI [of _ "declared f"]) (simp add: s1 d declared_def inspected_def)
  have "runs re ?body s1 (at_rest s1 (delivered (filesystem_path s1) src (tp_files p) (sg_fs s1)))"
    by (rule runs_files [OF codec(1), where b = b]) (use wf d s1 files g in \<open>simp_all add: at_rest_def\<close>)
  with loop body obtain out2 s2 where
    last: "transfer_loop re (control_line se finish_record) out2 s2 = (Inr receipt, out1, s)"
    and s2: "at_rest s1 (delivered (filesystem_path s1) src (tp_files p) (sg_fs s1)) s2"
    unfolding runs_def by blast
  from finish_Inr [OF finish_run_Inr [OF codec(1,3) last]] obtain t where
    s: "s = s2\<lparr>sg_fs := (sg_fs s2)(slash (root_dir s2) ''receipt.json'' \<mapsto> JsonFile (JObj receipt),
      slash (root_dir s2) ''transfer.json'' \<mapsto> JsonFile (state_record (sg_decl s2) ''STAGING_COMPLETE'')),
      sg_tick := t\<rparr>" by blast
  have p12: "filesystem_path s2 q = filesystem_path s1 q" "filesystem_path s q = filesystem_path s2 q" for q
    using s2 by (auto simp: at_rest_def s intro!: dirs_cong)
  have inj: "inj_on (\<lambda>f. filesystem_path s1 (sf_path f)) (set (tp_files p))"
  proof (rule inj_onI)
    fix x y
    assume xy: "x \<in> set (tp_files p)" "y \<in> set (tp_files p)"
      "filesystem_path s1 (sf_path x) = filesystem_path s1 (sf_path y)"
    then have "declared x = declared y"
      using declared_path_inj [of s1 "declared x" "declared y"] wf by (simp add: s1 d declared_def)
    moreover have "distinct (map df_path (td_files d))" using wf by (simp add: declaration_wf_def)
    then have "distinct (map sf_path (tp_files p))" by (simp add: d declared_def comp_def)
    ultimately show "x = y" using xy by (auto simp: declared_def distinct_map dest: inj_onD)
  qed
  have "declared f \<in> set (td_files (sg_decl s2))" "declaration_wf (sg_decl s2)"
    using s2 wf f by (simp_all add: at_rest_def s1 d)
  from declared_path_below_bundle [OF this(2,1)] have
    "filesystem_path s2 (sf_path f) \<noteq> slash (root_dir s2) ''receipt.json''"
    "filesystem_path s2 (sf_path f) \<noteq> slash (root_dir s2) ''transfer.json''" by (simp_all add: declared_def)
  then have "sg_fs s (filesystem_path s (sf_path f)) = sg_fs s2 (filesystem_path s2 (sf_path f))"
    unfolding p12 by (simp add: s)
  also have "\<dots> = Some (File (src f))"
    using delivered_at [OF f inj, of src "sg_fs s1"] s2 by (simp add: at_rest_def p12)
  finally show ?thesis .
qed

text \<open>C29: A transfer that succeeds on both sides copies the bundle: when the sender's \<open>transfer\<close>
returns for an unseeded plan over an inspected bundle, and the receiver that read the sender's bytes
exited with the status the sender waited for, every staged file holds exactly the bytes of its
source file, although only the data extents travelled.\<close>

theorem transfer_delivers_source:
  assumes "codec_ok se re (plan_records se b p)" and "bundle_ok b"
    and "inspect_published_bundle b object_id = Inr (tp_files p)" and "tp_seed p = None"
    and "send_transfer se b h seed_replies replies p destination = Inr (q, Inr v, pipe)"
    and "run_transfer re (pi_sent pipe) fs = (code, out, Some s)" and "se_exit se = Some (int code)"
    and "f \<in> set (tp_files p)"
  shows "\<exists>content. bu_open b (sf_source f) = Some (True, sf_stat f, content) \<and>
    sg_fs s (filesystem_path s (sf_path f)) = Some (File content)"
proof -
  from assms(5) have plan: "seeded_full_plan se b h seed_replies p destination = Inr q"
    and session: "transfer_session se b q (new_pipe replies) = (Inr v, pipe)"
    by (auto simp: send_transfer_def bnd_eq_Inr split: if_splits)
  from seeded_full_plan_same [OF plan] have q: "q = p" .
  from transfer_session_sends [of se b p] session
  have sent: "pi_sent pipe = plan_wire se b p" and code: "code = 0"
    and reopen: "\<And>f. f \<in> set (tp_files p) \<Longrightarrow> bu_reopen b (sf_source f) = Some (True, sf_stat f, sent_content b f)"
    using assms(7) by (auto simp: sends_def q new_pipe_def)
  have src: "inspected b f (sent_content b f)" if f: "f \<in> set (tp_files p)" for f
  proof -
    from bundle_inspected [OF assms(2,3) f] obtain content where c: "inspected b f content" by blast
    then have "bu_open b (sf_source f) = Some (True, sf_stat f, content)" by (simp add: inspected_def)
    with assms(2) reopen [OF f] have "sent_content b f = content" unfolding bundle_ok_def by blast
    with c show ?thesis by simp
  qed
  have "sg_fs s (filesystem_path s (sf_path f)) = Some (File (sent_content b f))"
    by (rule delivery [OF assms(1) _ _ assms(4) _ sent [unfolded plan_wire_def] assms(6) [unfolded code] assms(8)])
      (use src in \<open>auto simp: plan_records_def\<close>)
  with src [OF assms(8)] show ?thesis by (auto simp: inspected_def)
qed

end
