(* ===== verification/TransferExamples.thy ===== *)
theory TransferExamples
  imports TransferProps "HOL-Library.Code_Target_Nat"
begin

text \<open>
  A concrete transfer: three one-byte metadata files and one disk of four bytes, of which two
  are sent as an extent and one is cleared by a hole. A control line is a one-byte code and a
  newline; \<open>wire\<close> is the table that plays \<open>json.loads\<close>.
\<close>

definition id_of :: "char \<Rightarrow> string" where
  "id_of c = replicate 8 c @ ''-0000-0000-0000-'' @ replicate 12 c"

definition meta_file :: "string \<Rightarrow> json" where
  "meta_file p = JObj [(''logical_size'', JInt 1), (''path'', JStr p), (''payload_bytes'', JInt 1)]"

definition begin_dict :: dict where
  "begin_dict =
     [(''files'', JList (map meta_file required_metadata @
         [JObj [(''logical_size'', JInt 4), (''path'', JStr ''disks/vda.qcow2''),
                (''payload_bytes'', JInt 2)]])),
      (''operation'', JStr ''BEGIN''), (''protocol_version'', JInt 1),
      (''restore_point'', JObj [(''chain_id'', JStr (id_of CHR ''e'')),
         (''created_at'', JStr ''2026-01-01T00:00:00+00:00''), (''id'', JStr (id_of CHR ''d'')),
         (''job_run_id'', JStr (id_of CHR ''f'')), (''kind'', JStr ''FULL''),
         (''parent_restore_point_id'', JNull), (''sequence'', JInt 0)]),
      (''storage_id'', JStr (id_of CHR ''b'')), (''transfer_id'', JStr (id_of CHR ''a'')),
      (''vm_id'', JStr (id_of CHR ''c''))]"

definition file_dict :: "string \<Rightarrow> string \<Rightarrow> json" where
  "file_dict oper p = JObj [(''operation'', JStr oper), (''path'', JStr p), (''protocol_version'', JInt 1)]"

definition sum_text :: string where "sum_text = replicate 64 CHR ''0''"

definition extent_dict :: "int \<Rightarrow> int \<Rightarrow> json" where
  "extent_dict off n = JObj [(''length'', JInt n), (''offset'', JInt off), (''operation'', JStr ''EXTENT''),
     (''protocol_version'', JInt 1), (''sha256'', JStr sum_text)]"

definition wire :: "byte list \<Rightarrow> json option" where
  "wire line =
     map_of
       [([1, 10], JObj begin_dict),
        ([2, 10], file_dict ''FILE_BEGIN'' ''metadata/domain.xml''),
        ([3, 10], file_dict ''FILE_END'' ''metadata/domain.xml''),
        ([4, 10], file_dict ''FILE_BEGIN'' ''metadata/manifest.json''),
        ([5, 10], file_dict ''FILE_END'' ''metadata/manifest.json''),
        ([6, 10], file_dict ''FILE_BEGIN'' ''metadata/restore-point.json''),
        ([7, 10], file_dict ''FILE_END'' ''metadata/restore-point.json''),
        ([8, 10], file_dict ''FILE_BEGIN'' ''disks/vda.qcow2''),
        ([9, 10], file_dict ''FILE_END'' ''disks/vda.qcow2''),
        ([20, 10], extent_dict 0 1), ([21, 10], extent_dict 1 2),
        ([22, 10], JObj [(''length'', JInt 1), (''offset'', JInt 1), (''operation'', JStr ''HOLE''),
           (''protocol_version'', JInt 1)]),
        ([30, 10], JObj [(''operation'', JStr ''FINISH''), (''protocol_version'', JInt 1)])] line"

text \<open>Every write transfers one byte at a time; no call fails.\<close>

definition example_env :: receiver_env where
  "example_env =
     \<lparr>re_fail = (\<lambda>_. False), re_count = (\<lambda>_ _. 1), re_sha256 = (\<lambda>_. sum_text), re_loads = wire,
      re_isotime = (\<lambda>_. Some True),
      re_resolve = (\<lambda>_. Inr [(''usable_after_reserve_bytes'', JInt 100),
        (''receiver_namespace'', JStr ''/data/.vmbackupd-receiver'')]),
      re_marker = (\<lambda>_. None)\<rparr>"

definition example_fs :: "string \<Rightarrow> node option" where
  "example_fs p = (if p = ''/data/.vmbackupd-receiver'' then Some Dir else None)"

definition disk_prefix :: "byte list" where
  "disk_prefix = [1, 10, 2, 10, 20, 10, 65, 3, 10, 4, 10, 20, 10, 66, 5, 10, 6, 10, 20, 10, 67, 7, 10,
     8, 10, 21, 10, 68, 69]"

definition example_stream :: "byte list" where
  "example_stream = disk_prefix @ [22, 10, 9, 10, 30, 10]"

section \<open>The declaration and the session states\<close>

definition meta_decl :: "string \<Rightarrow> declared_file" where
  "meta_decl p = \<lparr>df_path = p, df_logical_size = 1, df_payload_bytes = 1\<rparr>"

definition disk_decl :: declared_file where
  "disk_decl = \<lparr>df_path = ''disks/vda.qcow2'', df_logical_size = 4, df_payload_bytes = 2\<rparr>"

definition example_decl :: transfer_declaration where
  "example_decl =
     \<lparr>td_transfer_id = id_of CHR ''a'', td_storage_id = id_of CHR ''b'', td_vm_id = id_of CHR ''c'',
      td_restore_point_id = id_of CHR ''d'', td_chain_id = id_of CHR ''e'',
      td_job_run_id = id_of CHR ''f'', td_kind = ''FULL'', td_sequence = 0, td_parent = None,
      td_created_at = ''2026-01-01T00:00:00+00:00'',
      td_files = map meta_decl required_metadata @ [disk_decl], td_seed = None\<rparr>"

definition example_ns :: string where "example_ns = ''/data/.vmbackupd-receiver''"

lemma example_accept:
  "accept_begin example_env example_stream = Inr (example_decl, example_ns, drop 2 example_stream)"
  by code_simp

definition sess ::
  "open_file option \<Rightarrow> string list \<Rightarrow> string list \<Rightarrow> (string \<Rightarrow> node option) \<Rightarrow> nat \<Rightarrow> staging" where
  "sess cur done_l opened fs t =
     \<lparr>sg_decl = example_decl, sg_namespace = example_ns, sg_fs = fs, sg_current = cur,
      sg_completed = done_l, sg_open = opened, sg_tick = t\<rparr>"

lemma sess_simps [simp]:
  "sg_decl (sess cur done_l opened fs t) = example_decl" "sg_namespace (sess cur done_l opened fs t) = example_ns"
  "sg_fs (sess cur done_l opened fs t) = fs" "sg_current (sess cur done_l opened fs t) = cur"
  "sg_completed (sess cur done_l opened fs t) = done_l" "sg_open (sess cur done_l opened fs t) = opened"
  "sg_tick (sess cur done_l opened fs t) = t"
  "sess cur done_l opened fs t\<lparr>sg_fs := fs'\<rparr> = sess cur done_l opened fs' t"
  "sess cur done_l opened fs t\<lparr>sg_current := cur'\<rparr> = sess cur' done_l opened fs t"
  "sess cur done_l opened fs t\<lparr>sg_completed := done_l'\<rparr> = sess cur done_l' opened fs t"
  "sess cur done_l opened fs t\<lparr>sg_open := opened'\<rparr> = sess cur done_l opened' fs t"
  "sess cur done_l opened fs t\<lparr>sg_tick := t'\<rparr> = sess cur done_l opened fs t'"
  by (simp_all add: sess_def)

definition root0 :: string where "root0 = root_dir (sess None [] [] Map.empty 0)"

lemma sess_dirs [simp]:
  "root_dir (sess cur done_l opened fs t) = root0" "bundle_dir (sess cur done_l opened fs t) = root0 @ ''/bundle''"
  "metadata_dir (sess cur done_l opened fs t) = root0 @ ''/bundle/metadata''"
  "disks_dir (sess cur done_l opened fs t) = root0 @ ''/bundle/disks''"
  by (simp_all add: root0_def root_dir_def staging_dir_def bundle_dir_def metadata_dir_def
      disks_dir_def slash_def)

lemma sys_example [simp]: "sys example_env (sess cur done_l opened fs t) = (Inr (), sess cur done_l opened fs (t + 1))"
  by (simp add: sys_def example_env_def)

lemma andthen_step [simp]:
  "m s = (Inr x, s') \<Longrightarrow> andthen m f s = f x s'"
  by (simp add: andthen_def)

lemma fsync_example [simp]:
  "fsync_directory example_env (sess cur done_l opened fs t) = (Inr (), sess cur done_l opened fs (t + 2))"
  by (simp add: fsync_directory_def andthen_def rethrow_def)

lemma set_node_example [simp]:
  "set_node p n (sess cur done_l opened fs t) = (Inr (), sess cur done_l opened (fs(p \<mapsto> n)) t)"
  by (simp add: set_node_def update_def)

lemma atomic_json_example [simp]:
  "atomic_json example_env p v (sess cur done_l opened fs t)
     = (Inr (), sess cur done_l opened (fs(p \<mapsto> JsonFile v)) (t + 5))"
  by (simp add: atomic_json_def andthen_def)

lemma real_directory_example [simp]:
  "fs p = Some Dir \<Longrightarrow>
     real_directory example_env p (sess cur done_l opened fs t) = (Inr (), sess cur done_l opened fs (t + 1))"
  by (simp add: real_directory_def reading_def andthen_def rethrow_def ret_def)

lemma mkdir_example [simp]:
  "fs p = None \<Longrightarrow> mkdir_real example_env p ok (sess cur done_l opened fs t)
     = (Inr (), sess cur done_l opened (fs(p \<mapsto> Dir)) (t + 3))"
  by (simp add: mkdir_real_def reading_def andthen_def rethrow_def)

definition fs_prepared :: "string \<Rightarrow> node option" where
  "fs_prepared = example_fs
     (example_ns @ ''/staging'' \<mapsto> Dir, root0 \<mapsto> Dir, root0 @ ''/bundle'' \<mapsto> Dir,
      root0 @ ''/bundle/metadata'' \<mapsto> Dir, root0 @ ''/bundle/disks'' \<mapsto> Dir,
      root0 @ ''/transfer.json'' \<mapsto> JsonFile (state_record example_decl ''RECEIVING''))"

lemma root0_eq: "root0 = example_ns @ ''/staging/'' @ id_of CHR ''a''"
  by (simp add: root0_def root_dir_def staging_dir_def slash_def example_decl_def)

lemma example_prepare:
  "prepare example_env (new_session example_decl example_ns example_fs)
     = (Inr (), sess None [] [] fs_prepared 23)"
proof -
  have new: "new_session example_decl example_ns example_fs = sess None [] [] example_fs 0"
    by (simp add: new_session_def sess_def)
  have ns: "example_fs example_ns = Some Dir" "example_fs (example_ns @ c # x) = None" for c x
    by (simp_all add: example_fs_def example_ns_def)
  have seed: "td_seed example_decl = None" by (simp add: example_decl_def)
  show ?thesis
    unfolding new prepare_def reading_def
    by (simp add: ns seed staging_dir_def slash_def root0_eq ret_def andthen_def fs_prepared_def)
qed

section \<open>The commands\<close>

definition place :: "string \<Rightarrow> string" where "place q = root0 @ ''/bundle/'' @ q"

definition known :: "string \<Rightarrow> declared_file \<Rightarrow> bool" where
  "known q f \<longleftrightarrow> df_path f = q \<and> bundle_path (JStr q) = Inr q \<and> declared_file_of example_decl q = Inr f"

lemma known_files:
  "known ''metadata/domain.xml'' (meta_decl ''metadata/domain.xml'')"
  "known ''metadata/manifest.json'' (meta_decl ''metadata/manifest.json'')"
  "known ''metadata/restore-point.json'' (meta_decl ''metadata/restore-point.json'')"
  "known ''disks/vda.qcow2'' disk_decl"
  by code_simp+

lemma known_path: "known q f \<Longrightarrow> filesystem_path (sess cur done_l opened fs t) q = place q"
  by (simp add: known_def filesystem_path_canonical place_def slash_def)

lemma read_control_example:
  "wire [k, 10] = Some (JObj c) \<Longrightarrow> k \<noteq> 10 \<Longrightarrow> read_control example_env (k # 10 # rest) = Inr (c, rest)"
  by (simp add: read_control_def read_line_def newline_def max_control_line_def Let_def example_env_def)

lemma loop_continue:
  assumes "wire [k, 10] = Some (JObj c)" and "k \<noteq> 10"
    and "transfer_step example_env c rest s = (Inr (Continue outs rest'), s')"
  shows "transfer_loop example_env (k # 10 # rest) out s
    = transfer_loop example_env rest' (out @ outs) s'"
  using read_control_example [OF assms(1,2)] assms(3) by (subst transfer_loop.simps) simp

abbreviation begin_command :: "string \<Rightarrow> dict" where
  "begin_command q \<equiv> [(''operation'', JStr ''FILE_BEGIN''), (''path'', JStr q), (''protocol_version'', JInt 1)]"

abbreviation end_command :: "string \<Rightarrow> dict" where
  "end_command q \<equiv> [(''operation'', JStr ''FILE_END''), (''path'', JStr q), (''protocol_version'', JInt 1)]"

abbreviation opened_file :: "declared_file \<Rightarrow> int \<Rightarrow> (int \<times> int) list \<Rightarrow> open_file option" where
  "opened_file f n es \<equiv> Some \<lparr>of_declared = f, of_received = n, of_extents = es\<rparr>"

lemma file_command_example:
  "bundle_path (JStr q) = Inr q \<Longrightarrow>
     file_command (JObj [(''operation'', JStr oper), (''path'', JStr q), (''protocol_version'', JInt 1)]) oper
       = Inr q"
  by (simp add: file_command_def strict_object_def dkeys_def check_operation_def dindex_def insert_commute)

lemma begin_example:
  assumes "known q f" and "q \<notin> set done_l" and "fs (place q) = None"
  shows "transfer_step example_env (begin_command q) rest (sess None done_l [] fs t) =
    (Inr (Continue [response ''FILE_READY'' [(''path'', JStr q)]] rest),
     sess (opened_file f 0 []) done_l [place q]
       (fs(place q \<mapsto> File (replicate (nat (df_logical_size f)) 0))) (t + 3))"
proof -
  have fc: "file_command (JObj (begin_command q)) ''FILE_BEGIN'' = Inr q"
    using assms(1) by (simp add: file_command_example known_def)
  have seed: "td_seed example_decl = None" by (simp add: example_decl_def)
  have "begin_file example_env q (sess None done_l [] fs t) = (Inr (),
     sess (opened_file f 0 []) done_l [place q]
       (fs(place q \<mapsto> File (replicate (nat (df_logical_size f)) 0))) (t + 3))"
    using assms known_path [OF assms(1)]
    by (simp add: begin_file_def reading_def known_def lift_def seed create_file_def open_descriptor_def
        update_def andthen_def rethrow_def Let_def)
  with fc show ?thesis
    by (simp add: transfer_step_def Let_def lift_def dget_or_def ret_def)
qed

lemma end_file_example:
  assumes "known q f" and "n = df_payload_bytes f" and "is_metadata f \<Longrightarrow> n = df_logical_size f"
    and "q \<notin> set done_l"
  shows "end_file example_env (sess (opened_file f n es) done_l [place q] fs t) =
      (Inr q, sess None (q # done_l) [] fs (t + 2))"
  using assms known_path [OF assms(1)]
  by (auto simp: end_file_def reading_def known_def close_descriptor_def update_def andthen_def
      current_path_def Let_def ret_def List.insert_def)

lemma end_example:
  assumes "known q f" and "n = df_payload_bytes f" and "is_metadata f \<Longrightarrow> n = df_logical_size f"
    and "q \<notin> set done_l"
  shows "transfer_step example_env (end_command q) rest (sess (opened_file f n es) done_l [place q] fs t) =
    (Inr (Continue [response ''FILE_COMPLETE'' [(''path'', JStr q)]] rest),
     sess None (q # done_l) [] fs (t + 2))"
proof -
  have fc: "file_command (JObj (end_command q)) ''FILE_END'' = Inr q"
    using assms(1) by (simp add: file_command_example known_def)
  have "end_file example_env (sess (opened_file f n es) done_l [place q] fs t) =
      (Inr q, sess None (q # done_l) [] fs (t + 2))"
    by (rule end_file_example [OF assms])
  with fc assms(1) show ?thesis
    by (simp add: transfer_step_def file_end_step_def Let_def lift_def dget_or_def ret_def reading_def
        known_def)
qed

lemma example_env_simps [simp]:
  "re_count example_env k n = 1" "re_sha256 example_env bytes = sum_text"
  by (simp_all add: example_env_def)

lemma pwrite_example [simp]:
  "fs p = Some (File c) \<Longrightarrow> bytes \<noteq> [] \<Longrightarrow>
     pwrite example_env p bytes off (sess cur done_l opened fs t)
       = (Inr 1, sess cur done_l opened (fs(p \<mapsto> File (overwrite c off [hd bytes]))) (t + 1))"
  by (cases bytes) (simp_all add: pwrite_def andthen_def reading_def Let_def ret_def)

lemma write_loop_example:
  assumes "fs p = Some (File c)" and "off + length payload \<le> length c" and "w + n = length payload"
  shows "write_loop example_env p payload off w (sess cur done_l opened fs t) =
    (Inr (), sess cur done_l opened (fs(p \<mapsto> File (overwrite c (off + w) (drop w payload)))) (t + n))"
  using assms
proof (induction n arbitrary: fs c t w)
  case 0
  then show ?case by (subst write_loop.simps) (simp add: fun_upd_idem)
next
  case (Suc n)
  let ?c = "overwrite c (off + w) [payload ! w]"
  have w: "w < length payload" using Suc.prems(3) by simp
  then have hd: "hd (drop w payload) = payload ! w" "drop w payload \<noteq> []"
    by (simp_all add: hd_drop_conv_nth)
  have len: "length ?c = length c" using Suc.prems w by simp
  have one: "take 1 (drop w payload) = [payload ! w]" using w by (simp add: take_Suc_conv_app_nth)
  have "overwrite ?c (off + Suc w) (drop (Suc w) payload) = overwrite c (off + w) (drop w payload)"
  proof -
    have m: "min 1 (length (drop w payload)) = 1" using w by simp
    have le: "off + w + length (drop w payload) \<le> length c" using Suc.prems(2) w by simp
    from overwrite_split [OF le, of 1, unfolded m one] show ?thesis by simp
  qed
  moreover have "write_loop example_env p payload off (Suc w)
      (sess cur done_l opened (fs(p \<mapsto> File ?c)) (t + 1)) =
    (Inr (), sess cur done_l opened
      ((fs(p \<mapsto> File ?c))(p \<mapsto> File (overwrite ?c (off + Suc w) (drop (Suc w) payload)))) (t + 1 + n))"
    by (rule Suc.IH) (use Suc.prems len in simp_all)
  ultimately have "write_loop example_env p payload off (w + 1)
      (sess cur done_l opened (fs(p \<mapsto> File ?c)) (t + 1)) =
    (Inr (), sess cur done_l opened (fs(p \<mapsto> File (overwrite c (off + w) (drop w payload)))) (t + Suc n))"
    by (simp only: fun_upd_upd) simp
  then show ?case
    using Suc.prems(1) w hd by (subst write_loop.simps) (simp only: pwrite_example, simp)
qed

lemma extent_command_example:
  "extent_command (JObj [(''length'', JInt n), (''offset'', JInt off), (''operation'', JStr ''EXTENT''),
     (''protocol_version'', JInt 1), (''sha256'', JStr sum_text)])
   = Inr (JInt off, JInt n, JStr sum_text)"
  by (simp add: extent_command_def strict_object_def dkeys_def check_operation_def dindex_def insert_commute)

lemma extent_example:
  assumes "known q f" and "fs (place q) = Some (File c)" and "int (length c) = df_logical_size f"
    and "0 \<le> a" and "payload \<noteq> []" and "length payload \<le> 8"
    and "a + int (length payload) \<le> df_logical_size f"
    and "n + int (length payload) \<le> df_payload_bytes f" and "\<not> overlaps a (a + int (length payload)) es"
  shows "transfer_step example_env
      [(''length'', JInt (int (length payload))), (''offset'', JInt a), (''operation'', JStr ''EXTENT''),
       (''protocol_version'', JInt 1), (''sha256'', JStr sum_text)] (payload @ rest)
      (sess (opened_file f n es) done_l [place q] fs t) =
    (Inr (Continue [] rest),
     sess (opened_file f (n + int (length payload)) (es @ [(a, a + int (length payload))])) done_l [place q]
       (fs(place q \<mapsto> File (overwrite c (nat a) payload))) (t + length payload))"
proof -
  have form: "sha256_form sum_text" by code_simp
  have pos: "1 \<le> int (length payload)" using assms(5) by (cases payload) auto
  have loop: "write_loop example_env (place q) payload (nat a) 0 (sess (opened_file f n es) done_l [place q] fs t) =
     (Inr (), sess (opened_file f n es) done_l [place q]
       (fs(place q \<mapsto> File (overwrite c (nat a) payload))) (t + length payload))"
    using write_loop_example [of fs "place q" c "nat a" payload 0 "length payload"] assms by simp
  have chk: "check_extent example_env \<lparr>of_declared = f, of_received = n, of_extents = es\<rparr> (JInt a)
      (int (length payload)) (JStr sum_text) payload = Inr (a, a + int (length payload))"
    using assms pos form
    by (simp add: check_extent_def proto_integer_def Let_def max_extent_bytes_def)
  have "write_extent example_env (JInt a) (int (length payload)) (JStr sum_text) payload
      (sess (opened_file f n es) done_l [place q] fs t) =
    (Inr (), sess (opened_file f (n + int (length payload)) (es @ [(a, a + int (length payload))])) done_l
       [place q] (fs(place q \<mapsto> File (overwrite c (nat a) payload))) (t + length payload))"
    using chk loop known_path [OF assms(1)] assms(1)
    by (simp add: write_extent_def reading_def lift_def current_path_def known_def andthen_def
        record_extent_def update_def)
  moreover have "extent_command (JObj [(''length'', JInt (int (length payload))), (''offset'', JInt a), (''operation'', JStr ''EXTENT''),
      (''protocol_version'', JInt 1), (''sha256'', JStr sum_text)])
    = Inr (JInt a, JInt (int (length payload)), JStr sum_text)"
    by (rule extent_command_example)
  ultimately show ?thesis using pos assms(5,6)
    by (simp add: transfer_step_def extent_step_def Let_def dget_or_def lift_def andthen_def
        proto_integer_def max_extent_bytes_def read_exact_def ret_def)
qed

definition hole_command :: dict where
  "hole_command = [(''length'', JInt 1), (''offset'', JInt 1), (''operation'', JStr ''HOLE''),
     (''protocol_version'', JInt 1)]"

lemma hole_example:
  assumes "fs (place ''disks/vda.qcow2'') = Some (File c)" and "length c = 4"
  shows "write_hole example_env (JInt 1) (JInt 1)
      (sess (opened_file disk_decl n es) done_l [place ''disks/vda.qcow2''] fs t) =
    (Inr (), sess (opened_file disk_decl n es) done_l [place ''disks/vda.qcow2'']
       (fs(place ''disks/vda.qcow2'' \<mapsto> File (overwrite c 1 [0]))) (t + 1))"
    and "transfer_step example_env hole_command rest
      (sess (opened_file disk_decl n es) done_l [place ''disks/vda.qcow2''] fs t) =
    (Inr (Continue [] rest),
     sess (opened_file disk_decl n es) done_l [place ''disks/vda.qcow2'']
       (fs(place ''disks/vda.qcow2'' \<mapsto> File (overwrite c 1 [0]))) (t + 1))"
proof -
  note path = known_path [OF known_files(4)]
  have loop: "hole_loop example_env (place ''disks/vda.qcow2'') 1 1
      (sess (opened_file disk_decl n es) done_l [place ''disks/vda.qcow2''] fs t) =
    (Inr (), sess (opened_file disk_decl n es) done_l [place ''disks/vda.qcow2'']
       (fs(place ''disks/vda.qcow2'' \<mapsto> File (overwrite c 1 [0]))) (t + 1))"
    using assms by (subst hole_loop.simps, simp, subst hole_loop.simps, simp)
  have disk: "\<not> is_metadata disk_decl" by code_simp
  show hole: "write_hole example_env (JInt 1) (JInt 1)
      (sess (opened_file disk_decl n es) done_l [place ''disks/vda.qcow2''] fs t) =
    (Inr (), sess (opened_file disk_decl n es) done_l [place ''disks/vda.qcow2'']
       (fs(place ''disks/vda.qcow2'' \<mapsto> File (overwrite c 1 [0]))) (t + 1))"
    using loop disk path
    by (simp add: write_hole_def reading_def lift_def andthen_def proto_integer_def current_path_def
        disk_decl_def)
  show "transfer_step example_env hole_command rest
      (sess (opened_file disk_decl n es) done_l [place ''disks/vda.qcow2''] fs t) =
    (Inr (Continue [] rest),
     sess (opened_file disk_decl n es) done_l [place ''disks/vda.qcow2'']
       (fs(place ''disks/vda.qcow2'' \<mapsto> File (overwrite c 1 [0]))) (t + 1))"
    using hole
    by (simp add: transfer_step_def hole_step_def Let_def dget_or_def dkeys_def hole_command_def
        lift_def andthen_def dindex_def ret_def insert_commute)
qed

definition all_done :: "string list" where
  "all_done = [''disks/vda.qcow2'', ''metadata/restore-point.json'', ''metadata/manifest.json'',
     ''metadata/domain.xml'']"

lemma finish_example:
  "\<exists>s'. transfer_step example_env [(''operation'', JStr ''FINISH''), (''protocol_version'', JInt 1)] rest
      (sess None all_done [] fs t) = (Inr (Finished (receipt_of example_decl 4)), s')"
proof -
  have "set all_done = set (map df_path (td_files example_decl))" by code_simp
  moreover have "length all_done = 4" by (simp add: all_done_def)
  moreover have "finish_command (JObj [(''operation'', JStr ''FINISH''), (''protocol_version'', JInt 1)])
      = Inr ()" by code_simp
  ultimately show ?thesis
    by (simp add: transfer_step_def Let_def dget_or_def lift_def finish_def reading_def andthen_def ret_def)
qed

lemma wire_lines:
  "wire [2, 10] = Some (JObj (begin_command ''metadata/domain.xml''))"
  "wire [3, 10] = Some (JObj (end_command ''metadata/domain.xml''))"
  "wire [4, 10] = Some (JObj (begin_command ''metadata/manifest.json''))"
  "wire [5, 10] = Some (JObj (end_command ''metadata/manifest.json''))"
  "wire [6, 10] = Some (JObj (begin_command ''metadata/restore-point.json''))"
  "wire [7, 10] = Some (JObj (end_command ''metadata/restore-point.json''))"
  "wire [8, 10] = Some (JObj (begin_command ''disks/vda.qcow2''))"
  "wire [9, 10] = Some (JObj (end_command ''disks/vda.qcow2''))"
  "wire [20, 10] = Some (JObj [(''length'', JInt 1), (''offset'', JInt 0), (''operation'', JStr ''EXTENT''),
     (''protocol_version'', JInt 1), (''sha256'', JStr sum_text)])"
  "wire [21, 10] = Some (JObj [(''length'', JInt 2), (''offset'', JInt 1), (''operation'', JStr ''EXTENT''),
     (''protocol_version'', JInt 1), (''sha256'', JStr sum_text)])"
  "wire [22, 10] = Some (JObj hole_command)"
  "wire [30, 10] = Some (JObj [(''operation'', JStr ''FINISH''), (''protocol_version'', JInt 1)])"
  by (simp_all add: wire_def file_dict_def extent_dict_def hole_command_def)

text \<open>One metadata file: begin, one extent of one byte, end.\<close>

lemma metadata_example:
  assumes k: "known q (meta_decl q)" and "is_metadata (meta_decl q)" and "q \<notin> set done_l"
    and "fs (place q) = None"
    and "wire [b, 10] = Some (JObj (begin_command q))" and "wire [e, 10] = Some (JObj (end_command q))"
    and "b \<noteq> 10" and "e \<noteq> 10"
  shows "\<exists>out' t'. transfer_loop example_env (b # 10 # 20 # 10 # x # e # 10 # rest) out
      (sess None done_l [] fs t) =
    transfer_loop example_env rest out' (sess None (q # done_l) [] (fs(place q \<mapsto> File [x])) t')"
proof -
  let ?f = "meta_decl q"
  have sz: "df_logical_size ?f = 1" "df_payload_bytes ?f = 1" by (simp_all add: meta_decl_def)
  let ?fs = "fs(place q \<mapsto> File [0])"
  have b: "transfer_step example_env (begin_command q) (20 # 10 # x # e # 10 # rest) (sess None done_l [] fs t)
    = (Inr (Continue [response ''FILE_READY'' [(''path'', JStr q)]] (20 # 10 # x # e # 10 # rest)),
       sess (opened_file ?f 0 []) done_l [place q] ?fs (t + 3))"
    using begin_example [where fs = fs and done_l = done_l, OF k assms(3,4)] by (simp add: sz)
  have m: "transfer_step example_env [(''length'', JInt 1), (''offset'', JInt 0), (''operation'', JStr ''EXTENT''),
       (''protocol_version'', JInt 1), (''sha256'', JStr sum_text)] (x # e # 10 # rest)
      (sess (opened_file ?f 0 []) done_l [place q] ?fs (t + 3)) =
    (Inr (Continue [] (e # 10 # rest)),
     sess (opened_file ?f 1 [(0, 1)]) done_l [place q] (fs(place q \<mapsto> File [x])) (t + 4))"
    using extent_example [OF k, of ?fs "[0]" 0 "[x]" 0 "[]" "e # 10 # rest" done_l "t + 3"]
    by (simp add: sz overlaps_def overwrite_def)
  have e: "transfer_step example_env (end_command q) rest
      (sess (opened_file ?f 1 [(0, 1)]) done_l [place q] (fs(place q \<mapsto> File [x])) (t + 4)) =
    (Inr (Continue [response ''FILE_COMPLETE'' [(''path'', JStr q)]] rest),
     sess None (q # done_l) [] (fs(place q \<mapsto> File [x])) (t + 4 + 2))"
    by (rule end_example [OF k _ _ assms(3)]) (simp_all add: sz)
  have twenty: "(20 :: byte) \<noteq> 10" by simp
  show ?thesis
    unfolding loop_continue [OF assms(5,7) b] loop_continue [OF wire_lines(9) twenty m]
      loop_continue [OF assms(6,8) e]
    by blast
qed

text \<open>The disk: begin, an extent of two bytes, a hole over the first of them, end; then FINISH.\<close>

definition fs_disk :: "(string \<Rightarrow> node option) \<Rightarrow> byte list \<Rightarrow> string \<Rightarrow> node option" where
  "fs_disk fs c = fs(place ''disks/vda.qcow2'' \<mapsto> File c)"

lemma fs_disk_simps [simp]:
  "fs_disk fs c (place ''disks/vda.qcow2'') = Some (File c)"
  "(fs_disk fs c)(place ''disks/vda.qcow2'' \<mapsto> File d) = fs_disk fs d"
  "fs(place ''disks/vda.qcow2'' \<mapsto> File d) = fs_disk fs d" "fs_disk (fs_disk fs c) d = fs_disk fs d"
  by (simp_all add: fs_disk_def)

lemma disk_begin:
  assumes "fs (place ''disks/vda.qcow2'') = None" and "''disks/vda.qcow2'' \<notin> set done_l"
  shows "transfer_step example_env (begin_command ''disks/vda.qcow2'') rest (sess None done_l [] fs t)
    = (Inr (Continue [response ''FILE_READY'' [(''path'', JStr ''disks/vda.qcow2'')]] rest),
       sess (opened_file disk_decl 0 []) done_l [place ''disks/vda.qcow2''] (fs_disk fs [0, 0, 0, 0]) (t + 3))"
proof -
  have "replicate (nat (df_logical_size disk_decl)) (0 :: byte) = [0, 0, 0, 0]"
    by (simp add: disk_decl_def numeral_eq_Suc)
  with begin_example [where fs = fs and done_l = done_l, OF known_files(4) assms(2,1)]
  show ?thesis by simp
qed

lemma disk_extent:
  "transfer_step example_env [(''length'', JInt 2), (''offset'', JInt 1), (''operation'', JStr ''EXTENT''),
       (''protocol_version'', JInt 1), (''sha256'', JStr sum_text)] (68 # 69 # rest)
      (sess (opened_file disk_decl 0 []) done_l [place ''disks/vda.qcow2''] (fs_disk fs [0, 0, 0, 0]) t) =
    (Inr (Continue [] rest),
     sess (opened_file disk_decl 2 [(1, 3)]) done_l [place ''disks/vda.qcow2'']
       (fs_disk fs [0, 68, 69, 0]) (t + 2))"
proof -
  have "overwrite [0, 0, 0, 0] 1 [68, 69 :: byte] = [0, 68, 69, 0]" by code_simp
  with extent_example [OF known_files(4), of "fs_disk fs [0, 0, 0, 0]" "[0, 0, 0, 0]" 1 "[68, 69]" 0 "[]" rest
      done_l t]
  show ?thesis by (simp add: disk_decl_def overlaps_def)
qed

lemma disk_run:
  assumes "fs (place ''disks/vda.qcow2'') = None"
    and "done_l = [''metadata/restore-point.json'', ''metadata/manifest.json'', ''metadata/domain.xml'']"
  shows "\<exists>out' s'. transfer_loop example_env [8, 10, 21, 10, 68, 69, 22, 10, 9, 10, 30, 10] out
      (sess None done_l [] fs t) = (Inr (receipt_of example_decl 4), out', s')"
proof -
  let ?q = "''disks/vda.qcow2''"
  have new: "?q \<notin> set done_l" using assms(2) by simp
  have zero: "overwrite [0, 68, 69, 0] 1 [0 :: byte] = [0, 0, 69, 0]" by code_simp
  have h: "transfer_step example_env hole_command [9, 10, 30, 10]
      (sess (opened_file disk_decl 2 [(1, 3)]) done_l [place ?q] (fs_disk fs [0, 68, 69, 0]) (t + 3 + 2)) =
    (Inr (Continue [] [9, 10, 30, 10]),
     sess (opened_file disk_decl 2 [(1, 3)]) done_l [place ?q] (fs_disk fs [0, 0, 69, 0]) (t + 3 + 2 + 1))"
    using hole_example(2) [of "fs_disk fs [0, 68, 69, 0]" "[0, 68, 69, 0]" "[9, 10, 30, 10]" 2 "[(1, 3)]"
        done_l "t + 3 + 2"] zero by simp
  have e: "transfer_step example_env (end_command ?q) [30, 10]
      (sess (opened_file disk_decl 2 [(1, 3)]) done_l [place ?q] (fs_disk fs [0, 0, 69, 0]) (t + 3 + 2 + 1)) =
    (Inr (Continue [response ''FILE_COMPLETE'' [(''path'', JStr ?q)]] [30, 10]),
     sess None all_done [] (fs_disk fs [0, 0, 69, 0]) (t + 3 + 2 + 1 + 2))"
    using end_example [OF known_files(4) _ _ new, of 2 "[30, 10]" "[(1, 3)]"] assms(2)
    by (simp add: disk_decl_def is_metadata_def all_done_def prefix_def)
  obtain s' where f: "transfer_step example_env
      [(''operation'', JStr ''FINISH''), (''protocol_version'', JInt 1)] []
      (sess None all_done [] (fs_disk fs [0, 0, 69, 0]) (t + 3 + 2 + 1 + 2))
      = (Inr (Finished (receipt_of example_decl 4)), s')"
    using finish_example by blast
  have n: "(8 :: byte) \<noteq> 10" "(21 :: byte) \<noteq> 10" "(22 :: byte) \<noteq> 10" "(9 :: byte) \<noteq> 10"
    "(30 :: byte) \<noteq> 10" by simp_all
  show ?thesis
    unfolding loop_continue [OF wire_lines(7) n(1) disk_begin [where fs = fs and done_l = done_l, OF assms(1) new]]
      loop_continue [OF wire_lines(10) n(2) disk_extent] loop_continue [OF wire_lines(11) n(3) h]
      loop_continue [OF wire_lines(8) n(4) e]
    using read_control_example [OF wire_lines(12) n(5), of "[]"] f
    by (subst transfer_loop.simps) simp
qed

lemma dense_disk_run:
  assumes "fs (place ''disks/vda.qcow2'') = None"
    and "done_l = [''metadata/restore-point.json'', ''metadata/manifest.json'', ''metadata/domain.xml'']"
  shows "\<exists>out' s'. transfer_loop example_env [8, 10, 21, 10, 68, 69, 9, 10, 30, 10] out
      (sess None done_l [] fs t) = (Inr (receipt_of example_decl 4), out', s')"
proof -
  let ?q = "''disks/vda.qcow2''"
  have new: "?q \<notin> set done_l" using assms(2) by simp
  have e: "transfer_step example_env (end_command ?q) [30, 10]
      (sess (opened_file disk_decl 2 [(1, 3)]) done_l [place ?q] (fs_disk fs [0, 68, 69, 0]) (t + 3 + 2)) =
    (Inr (Continue [response ''FILE_COMPLETE'' [(''path'', JStr ?q)]] [30, 10]),
     sess None all_done [] (fs_disk fs [0, 68, 69, 0]) (t + 3 + 2 + 2))"
    using end_example [OF known_files(4) _ _ new, of 2 "[30, 10]" "[(1, 3)]"] assms(2)
    by (simp add: disk_decl_def is_metadata_def all_done_def prefix_def)
  obtain s' where f: "transfer_step example_env
      [(''operation'', JStr ''FINISH''), (''protocol_version'', JInt 1)] []
      (sess None all_done [] (fs_disk fs [0, 68, 69, 0]) (t + 3 + 2 + 2))
      = (Inr (Finished (receipt_of example_decl 4)), s')"
    using finish_example by blast
  have n: "(8 :: byte) \<noteq> 10" "(21 :: byte) \<noteq> 10" "(9 :: byte) \<noteq> 10" "(30 :: byte) \<noteq> 10" by simp_all
  show ?thesis
    unfolding loop_continue [OF wire_lines(7) n(1) disk_begin [where fs = fs and done_l = done_l, OF assms(1) new]]
      loop_continue [OF wire_lines(10) n(2) disk_extent] loop_continue [OF wire_lines(8) n(3) e]
    using read_control_example [OF wire_lines(12) n(4), of "[]"] f
    by (subst transfer_loop.simps) simp
qed

lemma place_distinct:
  "place ''disks/vda.qcow2'' \<noteq> place ''metadata/domain.xml''"
  "place ''disks/vda.qcow2'' \<noteq> place ''metadata/manifest.json''"
  "place ''disks/vda.qcow2'' \<noteq> place ''metadata/restore-point.json''"
  "place ''metadata/domain.xml'' \<noteq> place ''metadata/manifest.json''"
  "place ''metadata/domain.xml'' \<noteq> place ''metadata/restore-point.json''"
  "place ''metadata/manifest.json'' \<noteq> place ''metadata/restore-point.json''"
  by (simp_all add: place_def)

lemma fs_prepared_place:
  "fs_prepared (place ''metadata/domain.xml'') = None" "fs_prepared (place ''metadata/manifest.json'') = None"
  "fs_prepared (place ''metadata/restore-point.json'') = None" "fs_prepared (place ''disks/vda.qcow2'') = None"
  by (simp_all add: fs_prepared_def place_def root0_eq example_fs_def example_ns_def id_of_def)

lemma metadata_run:
  assumes "\<And>fs out t. fs (place ''disks/vda.qcow2'') = None \<Longrightarrow>
    \<exists>out' s'. transfer_loop example_env r3 out (sess None [''metadata/restore-point.json'', ''metadata/manifest.json'',
      ''metadata/domain.xml''] [] fs t) = (Inr (receipt_of example_decl 4), out', s')"
    and "accept_begin example_env stream = Inr (example_decl, example_ns, 2 # 10 # 20 # 10 # 65 # 3 # 10 #
      4 # 10 # 20 # 10 # 66 # 5 # 10 # 6 # 10 # 20 # 10 # 67 # 7 # 10 # r3)"
  shows "\<exists>out s. run_transfer example_env stream example_fs = (0, out, Some s)"
proof -
  let ?p1 = "''metadata/domain.xml''" and ?p2 = "''metadata/manifest.json''"
    and ?p3 = "''metadata/restore-point.json''"
  let ?fs1 = "fs_prepared(place ?p1 \<mapsto> File [65])"
  let ?fs2 = "?fs1(place ?p2 \<mapsto> File [66])"
  let ?fs3 = "?fs2(place ?p3 \<mapsto> File [67])"
  let ?r2 = "6 # 10 # 20 # 10 # 67 # 7 # 10 # r3"
  let ?r1 = "4 # 10 # 20 # 10 # 66 # 5 # 10 # ?r2"
  have meta: "is_metadata (meta_decl ?p1)" "is_metadata (meta_decl ?p2)" "is_metadata (meta_decl ?p3)"
    by (simp_all add: is_metadata_def meta_decl_def)
  have fresh: "?fs1 (place ?p2) = None" "?fs2 (place ?p3) = None" "?fs3 (place ''disks/vda.qcow2'') = None"
    using place_distinct fs_prepared_place by auto
  let ?out = "[ready_response example_decl]"
  obtain out1 t1 where r1: "transfer_loop example_env (2 # 10 # 20 # 10 # 65 # 3 # 10 # ?r1) ?out (sess None [] [] fs_prepared 23)
      = transfer_loop example_env ?r1 out1 (sess None [?p1] [] ?fs1 t1)"
    using metadata_example [where fs = fs_prepared, OF known_files(1) meta(1) _ fs_prepared_place(1) wire_lines(1,2), of "[]" 65 ?r1 ?out 23]
    by auto
  obtain out2 t2 where r2: "transfer_loop example_env ?r1 out1 (sess None [?p1] [] ?fs1 t1)
      = transfer_loop example_env ?r2 out2 (sess None [?p2, ?p1] [] ?fs2 t2)"
    using metadata_example [where fs = ?fs1, OF known_files(2) meta(2) _ fresh(1) wire_lines(3,4),
        of "[?p1]" 66 ?r2 out1 t1] by auto
  obtain out3 t3 where r3: "transfer_loop example_env ?r2 out2 (sess None [?p2, ?p1] [] ?fs2 t2)
      = transfer_loop example_env r3 out3 (sess None [?p3, ?p2, ?p1] [] ?fs3 t3)"
    using metadata_example [where fs = ?fs2, OF known_files(3) meta(3) _ fresh(2) wire_lines(5,6),
        of "[?p2, ?p1]" 67 r3 out2 t2] by auto
  from assms(1) [of ?fs3, OF fresh(3), of out3 t3] obtain out4 s' where
    r4: "transfer_loop example_env r3 out3 (sess None [?p3, ?p2, ?p1] [] ?fs3 t3)
      = (Inr (receipt_of example_decl 4), out4, s')" by blast
  from r1 r2 r3 r4 show ?thesis
    by (simp add: run_transfer_def assms(2) example_prepare)
qed

lemma example_success:
  "\<exists>out s. run_transfer example_env example_stream example_fs = (0, out, Some s)"
proof (rule metadata_run)
  show "accept_begin example_env example_stream = Inr (example_decl, example_ns, 2 # 10 # 20 # 10 # 65 # 3 # 10 #
      4 # 10 # 20 # 10 # 66 # 5 # 10 # 6 # 10 # 20 # 10 # 67 # 7 # 10 # [8, 10, 21, 10, 68, 69, 22, 10, 9, 10, 30, 10])"
    using example_accept by (simp add: example_stream_def disk_prefix_def)
qed (rule disk_run, simp_all)

text \<open>The same bundle from a sender that announces no holes: the disk's gaps are the zeros of a fresh file.\<close>

definition dense_stream :: "byte list" where
  "dense_stream = disk_prefix @ [9, 10, 30, 10]"

lemma dense_accept:
  "accept_begin example_env dense_stream = Inr (example_decl, example_ns, drop 2 dense_stream)"
  by code_simp

lemma dense_success:
  "\<exists>out s. run_transfer example_env dense_stream example_fs = (0, out, Some s)"
proof (rule metadata_run)
  show "accept_begin example_env dense_stream = Inr (example_decl, example_ns, 2 # 10 # 20 # 10 # 65 # 3 # 10 #
      4 # 10 # 20 # 10 # 66 # 5 # 10 # 6 # 10 # 20 # 10 # 67 # 7 # 10 # [8, 10, 21, 10, 68, 69, 9, 10, 30, 10])"
    using dense_accept by (simp add: dense_stream_def disk_prefix_def)
qed (rule dense_disk_run, simp_all)

section \<open>The properties at this transfer\<close>

theorem transfer_success_complete_witness:
  "\<exists>out s. run_transfer example_env example_stream example_fs = (0, out, Some s) \<and>
     set (sg_completed s) = set (map df_path (td_files (sg_decl s))) \<and> sg_open s = []"
proof -
  from example_success obtain out s where
    run: "run_transfer example_env example_stream example_fs = (0, out, Some s)" by blast
  from transfer_success_complete [OF run] run show ?thesis by blast
qed


theorem transfer_failure_reported_witness:
  "\<exists>code out final. run_transfer example_env [] example_fs = (code, out, final) \<and> code \<in> {65, 70} \<and>
     dget (last out) ''status'' = Some (JStr ''ERROR'')"
proof -
  have run: "run_transfer example_env [] example_fs =
    (65, [error_response (ReceiverTransferError ''TRANSFER_PROTOCOL_INVALID'')], None)"
    by (simp add: run_transfer_def accept_begin_def read_control_def read_line_def Let_def exit_code_def)
  from transfer_failure_reported [OF run] run show ?thesis by simp
qed

theorem accepted_transfer_fits_witness:
  "\<exists>storage usable. resolve_storage example_env (td_storage_id example_decl) = Inr storage \<and>
     dget storage ''usable_after_reserve_bytes'' = Some (JInt usable) \<and>
     total_payload_bytes example_decl \<le> usable"
  using accepted_transfer_fits [OF example_accept] by blast

lemma example_parse: "parse_begin (\<lambda>_. Some True) (JObj begin_dict) = Inr example_decl"
  by code_simp

theorem parse_begin_wf_witness: "declaration_wf example_decl"
  by (rule parse_begin_wf [OF example_parse])

lemma example_bundle_path: "bundle_path (JStr ''disks/vda.qcow2'') = Inr ''disks/vda.qcow2''"
  by code_simp

theorem bundle_path_canonical_witness:
  "\<exists>u w. ''disks/vda.qcow2'' = u @ CHR ''/'' # w \<and> path_parts ''disks/vda.qcow2'' = [u, w]"
  using bundle_path_canonical [of "JStr ''disks/vda.qcow2''" "''disks/vda.qcow2''"] example_bundle_path
  by blast

lemma reach_prepared: "reachable example_env example_decl example_ns example_fs (sess None [] [] fs_prepared 23)"
  by (rule reachable.prepared [OF begin_declaration_wf [OF example_parse] example_prepare])

lemma reach_disk:
  "reachable example_env example_decl example_ns example_fs
     (sess (opened_file disk_decl 0 []) [] [place ''disks/vda.qcow2''] (fs_disk fs_prepared [0, 0, 0, 0]) 26)"
  using reachable.command [OF reach_prepared disk_begin [where fs = fs_prepared and done_l = "[]" and t = 23 and rest = "[]", OF fs_prepared_place(4)]] by simp

lemma reach_extent:
  "reachable example_env example_decl example_ns example_fs
     (sess (opened_file disk_decl 2 [(1, 3)]) [] [place ''disks/vda.qcow2'']
       (fs_disk fs_prepared [0, 68, 69, 0]) 28)"
  using reachable.command [OF reach_disk disk_extent [of "[]" "[]" fs_prepared 26]] by simp

theorem reachable_session_ok_witness:
  "session_ok (sess (opened_file disk_decl 2 [(1, 3)]) [] [place ''disks/vda.qcow2'']
     (fs_disk fs_prepared [0, 68, 69, 0]) 28)"
  by (rule reachable_session_ok [OF reach_extent])

theorem write_hole_zeroes_unaccounted_witness:
  "\<exists>s' content. write_hole example_env (JInt 1) (JInt 1)
       (sess (opened_file disk_decl 2 [(1, 3)]) [] [place ''disks/vda.qcow2'']
         (fs_disk fs_prepared [0, 68, 69, 0]) 28) = (Inr (), s') \<and>
     sg_current s' = opened_file disk_decl 2 [(1, 3)] \<and> content ! 1 = (0 :: byte)"
proof -
  let ?s = "sess (opened_file disk_decl 2 [(1, 3)]) [] [place ''disks/vda.qcow2'']
    (fs_disk fs_prepared [0, 68, 69, 0]) 28"
  obtain s' where h: "write_hole example_env (JInt 1) (JInt 1) ?s = (Inr (), s')"
    using hole_example(1) [of "fs_disk fs_prepared [0, 68, 69, 0]" "[0, 68, 69, 0]"] by simp
  have cur: "sg_current ?s = opened_file disk_decl 2 [(1, 3)]" by simp
  from write_hole_zeroes_unaccounted [OF reach_extent cur h] obtain content where
    "\<forall>i. nat 1 \<le> i \<and> i < nat 1 + nat 1 \<longrightarrow> content ! i = (0 :: byte)"
    "sg_current s' = opened_file disk_decl 2 [(1, 3)]" by blast
  moreover from this(1) have "content ! 1 = 0" by simp
  ultimately show ?thesis using h by blast
qed

theorem write_extent_stores_payload_witness:
  "\<exists>s'. write_extent example_env (JInt 1) 2 (JStr sum_text) [68, 69]
      (sess (opened_file disk_decl 0 []) [] [place ''disks/vda.qcow2''] (fs_disk fs_prepared [0, 0, 0, 0]) 26)
      = (Inr (), s') \<and> (\<exists>c'. sg_current s' = Some c' \<and> of_received c' = 2)"
proof -
  let ?s = "sess (opened_file disk_decl 0 []) [] [place ''disks/vda.qcow2'']
    (fs_disk fs_prepared [0, 0, 0, 0]) 26"
  have cur: "sg_current ?s = opened_file disk_decl 0 []" by simp
  have cmd: "extent_command (JObj [(''length'', JInt 2), (''offset'', JInt 1), (''operation'', JStr ''EXTENT''),
      (''protocol_version'', JInt 1), (''sha256'', JStr sum_text)])
      = Inr (JInt 1, JInt 2, JStr sum_text)" by (rule extent_command_example)
  from disk_extent [of "[]" "[]" fs_prepared 26] cmd obtain s' where
    w: "write_extent example_env (JInt 1) 2 (JStr sum_text) [68, 69] ?s = (Inr (), s')"
    by (auto simp: transfer_step_def extent_step_def Let_def dget_or_def lift_def proto_integer_def
        max_extent_bytes_def read_exact_def andthen_def split: prod.splits sum.splits)
  from write_extent_stores_payload [OF reach_disk cur w] w show ?thesis by auto
qed

theorem metadata_fully_received_witness:
  "fst (end_file example_env (sess (opened_file (meta_decl ''metadata/domain.xml'') 1 [(0, 1)]) []
       [place ''metadata/domain.xml'']
       (fs_prepared(place ''metadata/domain.xml'' \<mapsto> File [65])) 27)) = Inr ''metadata/domain.xml'' \<and>
     (\<exists>(a, b) \<in> set [(0, 1)]. a \<le> (0 :: int) \<and> 0 < (b :: int))"
proof -
  let ?q = "''metadata/domain.xml''" and ?f = "meta_decl ''metadata/domain.xml''"
  let ?fs = "fs_prepared(place ?q \<mapsto> File [0])"
  have sz: "df_logical_size ?f = 1" "df_payload_bytes ?f = 1" and meta: "is_metadata ?f"
    by (simp_all add: meta_decl_def is_metadata_def)
  have b: "transfer_step example_env (begin_command ?q) [] (sess None [] [] fs_prepared 23)
    = (Inr (Continue [response ''FILE_READY'' [(''path'', JStr ?q)]] []),
       sess (opened_file ?f 0 []) [] [place ?q] ?fs 26)"
    using begin_example [where fs = fs_prepared and done_l = "[]" and t = 23, OF known_files(1) _ fs_prepared_place(1)]
    by (simp add: sz)
  have m: "transfer_step example_env [(''length'', JInt 1), (''offset'', JInt 0), (''operation'', JStr ''EXTENT''),
       (''protocol_version'', JInt 1), (''sha256'', JStr sum_text)] [65]
      (sess (opened_file ?f 0 []) [] [place ?q] ?fs 26) =
    (Inr (Continue [] []),
     sess (opened_file ?f 1 [(0, 1)]) [] [place ?q] (fs_prepared(place ?q \<mapsto> File [65])) 27)"
    using extent_example [OF known_files(1), of ?fs "[0]" 0 "[65]" 0 "[]" "[]" "[]" 26]
    by (simp add: sz overlaps_def overwrite_def)
  let ?s = "sess (opened_file ?f 1 [(0, 1)]) [] [place ?q] (fs_prepared(place ?q \<mapsto> File [65])) 27"
  from reachable.command [OF reachable.command [OF reach_prepared b] m]
  have reach: "reachable example_env example_decl example_ns example_fs ?s" .
  have cur: "sg_current ?s = opened_file ?f 1 [(0, 1)]" by simp
  have e: "end_file example_env ?s =
      (Inr ?q, sess None [?q] [] (fs_prepared(place ?q \<mapsto> File [65])) (27 + 2))"
    by (rule end_file_example [OF known_files(1)]) (simp_all add: sz)
  have "\<exists>(a, b) \<in> set [(0, 1)]. a \<le> (0 :: int) \<and> 0 < (b :: int)"
    using metadata_fully_received [OF reach cur _ e, of 0] meta sz by simp
  with e show ?thesis by simp
qed

end
