(* ===== verification/EndToEndExample.thy ===== *)
theory EndToEndExample
  imports EndToEnd TransferExamples
begin

text \<open>
  A transfer run on both sides: three metadata files of one byte and a sparse disk of four
  bytes with one data extent of two. A control record is a one-byte code and a newline.
\<close>

section \<open>The source bundle\<close>

definition source_table :: "(string \<times> byte list) list" where
  "source_table =
     [(''/b/metadata/domain.xml'', [65]), (''/b/metadata/manifest.json'', [66]),
      (''/b/metadata/restore-point.json'', [67]), (''/b/disks/vda.qcow2'', [0, 68, 69, 0])]"

definition source_stat :: "byte list \<Rightarrow> file_stat" where
  "source_stat content = \<lparr>fi_device = 1, fi_inode = length content, fi_size = length content, fi_mtime = 5\<rparr>"

definition source_open :: "string \<Rightarrow> (bool \<times> file_stat \<times> byte list) option" where
  "source_open p = map_option (\<lambda>c. (True, source_stat c, c)) (map_of source_table p)"

definition first_index :: "(nat \<Rightarrow> bool) \<Rightarrow> nat \<Rightarrow> nat \<Rightarrow> nat option" where
  "first_index P i n = find P [i..<n]"

definition source_bundle :: bundle_env where
  "source_bundle =
     \<lparr>bu_symlink = (\<lambda>_. False), bu_directory = (\<lambda>_. Some True),
      bu_entries = (\<lambda>p. if p = ''/b/metadata'' then [''domain.xml'', ''manifest.json'', ''restore-point.json'']
        else if p = ''/b/disks'' then [''vda.qcow2''] else []),
      bu_open = source_open,
      bu_seek_data = (\<lambda>p i. case map_of source_table p of
          None \<Rightarrow> Seek_failed
        | Some c \<Rightarrow> (case first_index (\<lambda>k. c ! k \<noteq> 0) i (length c) of None \<Rightarrow> No_more_data | Some k \<Rightarrow> Position k)),
      bu_seek_hole = (\<lambda>p i. case map_of source_table p of
          None \<Rightarrow> Seek_failed
        | Some c \<Rightarrow> (case first_index (\<lambda>k. c ! k = 0) i (length c) of None \<Rightarrow> Position (length c) | Some k \<Rightarrow> Position k)),
      bu_reopen = source_open,
      bu_after = (\<lambda>p. case map_of source_table p of None \<Rightarrow> source_stat [] | Some c \<Rightarrow> source_stat c)\<rparr>"

lemma first_index_None: "first_index P i n = None \<Longrightarrow> i \<le> k \<Longrightarrow> k < n \<Longrightarrow> \<not> P k"
  by (auto simp: first_index_def find_None_iff)

lemma first_index_Some: "first_index P i n = Some d \<Longrightarrow> i \<le> k \<Longrightarrow> k < d \<Longrightarrow> \<not> P k"
  by (auto simp: first_index_def find_Some_iff) (metis add.commute le_Suc_ex nat_add_left_cancel_less)

lemma source_bundle_ok: "bundle_ok source_bundle"
  unfolding bundle_ok_def source_bundle_def
  by (auto simp: source_open_def source_stat_def zero_between_def split: option.splits
      dest: first_index_None first_index_Some)

definition sample_plan :: transfer_plan where
  "sample_plan =
     \<lparr>tp_transfer_id = id_of CHR ''a'', tp_storage_id = id_of CHR ''b'', tp_vm_id = id_of CHR ''c'',
      tp_restore_point_id = id_of CHR ''d'', tp_chain_id = id_of CHR ''e'', tp_job_run_id = id_of CHR ''f'',
      tp_kind = ''FULL'', tp_sequence = 0, tp_parent = None, tp_created_at = ''2026-01-01T00:00:00+00:00'',
      tp_files = projr (inspect_published_bundle source_bundle ''/b''), tp_seed = None\<rparr>"

section \<open>The wire\<close>

definition code_table :: "(json \<times> byte) list" where
  "code_table =
     [(JObj (begin_record sample_plan), 1),
      (JObj (file_record ''FILE_BEGIN'' ''metadata/domain.xml''), 2),
      (JObj (file_record ''FILE_END'' ''metadata/domain.xml''), 3),
      (JObj (file_record ''FILE_BEGIN'' ''metadata/manifest.json''), 4),
      (JObj (file_record ''FILE_END'' ''metadata/manifest.json''), 5),
      (JObj (file_record ''FILE_BEGIN'' ''metadata/restore-point.json''), 6),
      (JObj (file_record ''FILE_END'' ''metadata/restore-point.json''), 7),
      (JObj (file_record ''FILE_BEGIN'' ''disks/vda.qcow2''), 8),
      (JObj (file_record ''FILE_END'' ''disks/vda.qcow2''), 9),
      (JObj (extent_record 0 1 sum_text), 20), (JObj (extent_record 1 2 sum_text), 21),
      (JObj finish_record, 30)]"

definition code_of :: "json \<Rightarrow> byte list" where
  "code_of v = (case map_of code_table v of None \<Rightarrow> [] | Some k \<Rightarrow> [k])"

definition reply_table :: "(byte list \<times> json) list" where
  "reply_table = [([1, 10], JObj (response ''READY'' [])), ([2, 10], JObj (response ''FILE_READY'' [])),
     ([3, 10], JObj (response ''FILE_COMPLETE'' [])), ([4, 10], JObj (response ''STAGING_COMPLETE'' []))]"

definition sample_sender :: sender_env where
  "sample_sender =
     \<lparr>se_dumps = code_of, se_loads = map_of reply_table, se_sha256 = (\<lambda>_. sum_text),
      se_broken = (\<lambda>_. False), se_stop = (\<lambda>_. False), se_starts = True, se_exit = Some 0\<rparr>"

definition sample_replies :: "byte list" where
  "sample_replies = [1, 10, 2, 10, 3, 10, 2, 10, 3, 10, 2, 10, 3, 10, 2, 10, 3, 10, 4, 10]"

definition sample_ssh :: ssh_env where
  "sample_ssh = \<lparr>sh_trusted = (\<lambda>_ _. True), sh_identity = Some ''i'', sh_identity_exists = (\<lambda>_. True),
     sh_private_key = (\<lambda>_. ''/key''), sh_known_hosts = ''/hosts''\<rparr>"

definition sample_destination :: storage where
  "sample_destination = (sample_storage ''s'' ''remote'')\<lparr>st_type := SSH, st_values :=
     [(''ssh_host'', JStr ''host''), (''ssh_port'', JInt 22), (''ssh_user'', JStr ''user''),
      (''remote_storage_id'', JStr (id_of CHR ''b''))]\<rparr>"

lemma sample_inspected: "inspect_published_bundle source_bundle ''/b'' = Inr (tp_files sample_plan)"
  by code_simp

definition sample_session :: "(transfer_plan \<times> dict result \<times> pipe) result" where
  "sample_session = send_transfer sample_sender source_bundle sample_ssh [] sample_replies sample_plan sample_destination"

lemma sample_sent: "\<exists>q v pipe. sample_session = Inr (q, Inr v, pipe) \<and> pi_sent pipe = dense_stream"
proof -
  have c: "case sample_session of Inr (q, Inr v, pipe) \<Rightarrow> pi_sent pipe = dense_stream | _ \<Rightarrow> False"
    by code_simp
  show ?thesis
  proof (cases sample_session)
    case (Inl a)
    from c [unfolded Inl sum.case] show ?thesis ..
  next
    case s: (Inr b)
    obtain q r pipe where b: "b = (q, r, pipe)" by (cases b)
    have d: "case r of Inl _ \<Rightarrow> False | Inr v \<Rightarrow> pi_sent pipe = dense_stream"
      by (rule c [unfolded s b sum.case prod.case])
    show ?thesis
    proof (cases r)
      case (Inl e)
      from d [unfolded Inl sum.case] show ?thesis ..
    next
      case r: (Inr v)
      from d [unfolded r sum.case] s b r show ?thesis by blast
    qed
  qed
qed

lemma sample_codec: "codec_ok sample_sender example_env (plan_records sample_sender source_bundle sample_plan)"
  by code_simp

lemma sample_disk: "\<exists>f \<in> set (tp_files sample_plan). sf_path f = ''disks/vda.qcow2'' \<and> sf_extents f = [(1, 2)] \<and>
    bu_open source_bundle (sf_source f) = Some (True, sf_stat f, [0, 68, 69, 0])"
  by code_simp

theorem transfer_delivers_source_witness:
  "\<exists>out s. run_transfer example_env dense_stream example_fs = (0, out, Some s) \<and>
     sg_fs s (filesystem_path s ''disks/vda.qcow2'') = Some (File [0, 68, 69, 0])"
proof -
  from dense_success obtain out s where run: "run_transfer example_env dense_stream example_fs = (0, out, Some s)"
    by blast
  from sample_sent obtain q v pipe where session: "sample_session = Inr (q, Inr v, pipe)"
    and sent: "pi_sent pipe = dense_stream" by blast
  from sample_disk obtain f where f: "f \<in> set (tp_files sample_plan)" "sf_path f = ''disks/vda.qcow2''"
    "bu_open source_bundle (sf_source f) = Some (True, sf_stat f, [0, 68, 69, 0])" by blast
  have seed: "tp_seed sample_plan = None" by (simp add: sample_plan_def)
  have code: "se_exit sample_sender = Some (int 0)" by (simp add: sample_sender_def)
  from transfer_delivers_source [OF sample_codec source_bundle_ok sample_inspected seed
      session [unfolded sample_session_def] run [folded sent] code f(1)] f(2,3)
  have "sg_fs s (filesystem_path s ''disks/vda.qcow2'') = Some (File [0, 68, 69, 0])" by simp
  with run show ?thesis by blast
qed

end
