(* ===== verification/Received.thy ===== *)
theory Received
  imports Replicas
begin

text \<open>
  The catalogue of received replicas in the compact store (\<open>repository_v2.py\<close>, the methods
  from \<open>upsert_received_restore_point\<close> on): imported rows, the list of received points, the
  order in which a point and its descendants are deleted, and the chain a point is restored
  from. A received point is a row of \<open>restore_points\<close> whose job carries the policy flag
  \<open>received_import\<close>; its chain, sequence number and parent are entries of its metadata.
\<close>

section \<open>Importing\<close>

record import_item =
  im_storage_id :: string
  im_point_id :: string
  im_source_point_id :: string
  im_vm_id :: string
  im_source_vm_id :: string
  im_job_id :: string
  im_source_job_id :: string
  im_run_id :: string
  im_source_run_id :: string
  im_source_node_id :: string
  im_vm_name :: string
  im_kind :: string
  im_chain_id :: string
  im_sequence :: int
  im_parent :: "string option"
  im_bundle :: string
  im_source_bundle :: json
  im_checkpoint :: json
  im_created_at :: string
  im_origin :: dict

text \<open>\<open>INSERT OR IGNORE\<close>: a row with the same key is left alone; a missing referenced row raises.\<close>

definition insert_or_ignore :: "bool \<Rightarrow> bool \<Rightarrow> (db \<Rightarrow> db) \<Rightarrow> unit dbop" where
  "insert_or_ignore known references add =
     (if known then ret () else if references then update add else raise OtherException)"

definition import_node :: "import_item \<Rightarrow> unit dbop" where
  "import_node x = reading (\<lambda>d. insert_or_ignore (im_source_node_id x \<in> set (db_nodes d)) True
     (\<lambda>d. d\<lparr>db_nodes := db_nodes d @ [im_source_node_id x]\<rparr>))"

definition import_vm :: "import_item \<Rightarrow> unit dbop" where
  "import_vm x = reading (\<lambda>d. insert_or_ignore (im_vm_id x \<in> set (map vr_id (db_vms d)))
     (im_source_node_id x \<in> set (db_nodes d))
     (\<lambda>d. d\<lparr>db_vms := db_vms d @ [\<lparr>vr_id = im_vm_id x, vr_node_id = im_source_node_id x,
        vr_name = im_vm_name x, vr_external_id = Some (im_source_vm_id x), vr_domain_uuid = None\<rparr>]\<rparr>))"

definition import_job :: "string \<Rightarrow> import_item \<Rightarrow> unit dbop" where
  "import_job stamp x = reading (\<lambda>d. insert_or_ignore (im_job_id x \<in> set (map jo_id (db_jobs d)))
     (im_vm_id x \<in> set (map vr_id (db_vms d)) \<and> im_storage_id x \<in> set (map sr_id (db_storages d)))
     (\<lambda>d. d\<lparr>db_jobs := db_jobs d @ [\<lparr>jo_id = im_job_id x, jo_vm_id = im_vm_id x,
        jo_storage_id = im_storage_id x, jo_name = ''received:'' @ im_vm_name x, jo_enabled = False,
        jo_policy = [(''received_import'', JBool True), (''source_job_id'', JStr (im_source_job_id x))],
        jo_chain = None, jo_created_at = stamp\<rparr>]\<rparr>))"

definition import_run :: "string \<Rightarrow> import_item \<Rightarrow> unit dbop" where
  "import_run stamp x = reading (\<lambda>d. insert_or_ignore (im_run_id x \<in> set (map rr_id (db_runs d)))
     (im_job_id x \<in> set (map jo_id (db_jobs d)) \<and> im_storage_id x \<in> set (map sr_id (db_storages d)))
     (\<lambda>d. d\<lparr>db_runs := db_runs d @ [\<lparr>rr_id = im_run_id x, rr_job_id = im_job_id x,
        rr_storage_id = im_storage_id x, rr_state = ''SUCCESS'',
        rr_context = [(''received_import'', JBool True), (''source_run_id'', JStr (im_source_run_id x))],
        rr_created_at = im_created_at x, rr_updated_at = stamp\<rparr>]\<rparr>))"

definition import_metadata :: "string \<Rightarrow> import_item \<Rightarrow> dict" where
  "import_metadata stamp x =
     [(''received_import'', JBool True), (''received_status'', JStr ''AVAILABLE''),
      (''source_restore_point_id'', JStr (im_source_point_id x)),
      (''source_bundle_object_id'', im_source_bundle x), (''bundle_object_id'', JStr (im_bundle x)),
      (''chain_id'', JStr (im_chain_id x)), (''sequence'', JInt (im_sequence x)),
      (''parent_restore_point_id'', opt_json (im_parent x)),
      (''libvirt_checkpoint_name'', im_checkpoint x), (''origin'', JObj (im_origin x)),
      (''last_seen_at'', JStr stamp)]"

text \<open>\<open>ON CONFLICT(id) DO UPDATE\<close> keeps the run and the creation time of the row.\<close>

definition import_point :: "string \<Rightarrow> import_item \<Rightarrow> unit dbop" where
  "import_point stamp x = update (\<lambda>d. d\<lparr>db_points :=
     (if im_point_id x \<in> set (map pr_id (db_points d))
      then map (\<lambda>p. if pr_id p = im_point_id x
             then p\<lparr>pr_kind := im_kind x, pr_status := ''AVAILABLE'', pr_metadata := import_metadata stamp x\<rparr>
             else p) (db_points d)
      else db_points d @ [\<lparr>pr_id = im_point_id x, pr_run_id = im_run_id x, pr_kind = im_kind x,
             pr_status = ''AVAILABLE'', pr_metadata = import_metadata stamp x,
             pr_created_at = im_created_at x\<rparr>])\<rparr>)"

definition upsert_received_restore_point :: "string \<Rightarrow> import_item \<Rightarrow> unit dbop" where
  "upsert_received_restore_point stamp x =
     atomically
       (andthen (import_node x) (\<lambda>_.
        andthen (import_vm x) (\<lambda>_.
        andthen (import_job stamp x) (\<lambda>_.
        andthen (import_run stamp x) (\<lambda>_.
        import_point stamp x)))))"

section \<open>Listing\<close>

record received =
  rc_id :: string
  rc_kind :: string
  rc_status :: json
  rc_created_at :: string
  rc_storage_id :: string
  rc_storage_name :: string
  rc_vm_name :: string
  rc_bundle :: json
  rc_source_bundle :: json
  rc_source_point :: json
  rc_chain :: json
  rc_sequence :: json
  rc_parent :: json
  rc_origin :: json

definition run_row_of :: "db \<Rightarrow> point_row \<Rightarrow> run_row option" where
  "run_row_of d p = find (\<lambda>r. rr_id r = pr_run_id p) (db_runs d)"

definition job_row_of :: "db \<Rightarrow> run_row \<Rightarrow> job_row option" where
  "job_row_of d r = find (\<lambda>j. jo_id j = rr_job_id r) (db_jobs d)"

text \<open>\<open>json_extract(policy, '$.received_import') = 1\<close>: JSON's true is the integer 1 in SQLite.\<close>

definition imported_on :: "db \<Rightarrow> point_row \<Rightarrow> string option" where
  "imported_on d p =
     (case run_row_of d p of
        None \<Rightarrow> None
      | Some r \<Rightarrow> (case job_row_of d r of
          None \<Rightarrow> None
        | Some j \<Rightarrow> if py_eq_int (dget_or (jo_policy j) ''received_import'' JNull) 1
                    then Some (rr_storage_id r) else None))"

definition received_value :: "storage_row \<Rightarrow> vm_row \<Rightarrow> point_row \<Rightarrow> received" where
  "received_value s v p =
     (let m = pr_metadata p in
      \<lparr>rc_id = pr_id p, rc_kind = pr_kind p,
       rc_status = dget_or m ''received_status'' (JStr ''AVAILABLE''), rc_created_at = pr_created_at p,
       rc_storage_id = sr_id s, rc_storage_name = sr_name s, rc_vm_name = vr_name v,
       rc_bundle = dget_or m ''bundle_object_id'' JNull,
       rc_source_bundle = dget_or m ''source_bundle_object_id'' JNull,
       rc_source_point = dget_or m ''source_restore_point_id'' JNull,
       rc_chain = dget_or m ''chain_id'' JNull, rc_sequence = dget_or m ''sequence'' (JInt 0),
       rc_parent = dget_or m ''parent_restore_point_id'' JNull,
       rc_origin = dget_or m ''origin'' (JObj [])\<rparr>)"

definition received_row :: "db \<Rightarrow> string \<Rightarrow> point_row \<Rightarrow> received option" where
  "received_row d node p =
     (case imported_on d p of
        None \<Rightarrow> None
      | Some sid \<Rightarrow>
          (case (find (\<lambda>s. sr_id s = sid) (db_storages d), vm_of_run d (pr_run_id p)) of
             (Some s, Some v) \<Rightarrow> if sr_node_id s = node then Some (received_value s v p) else None
           | _ \<Rightarrow> None))"

definition list_received_restore_points :: "db \<Rightarrow> string \<Rightarrow> received list" where
  "list_received_restore_points d node =
     List.map_filter (received_row d node)
       (sort_key_desc (\<lambda>p. (pr_created_at p, pr_id p)) (db_points d))"

definition get_received_restore_point :: "db \<Rightarrow> string \<Rightarrow> string \<Rightarrow> received option" where
  "get_received_restore_point d i node = find (\<lambda>v. rc_id v = i) (list_received_restore_points d node)"

definition is_received_restore_point :: "db \<Rightarrow> string \<Rightarrow> string option \<Rightarrow> bool" where
  "is_received_restore_point d i node =
     (case point_by_id d i of
        None \<Rightarrow> False
      | Some p \<Rightarrow> (case imported_on d p of
          None \<Rightarrow> False
        | Some sid \<Rightarrow> (case find (\<lambda>s. sr_id s = sid) (db_storages d) of
            None \<Rightarrow> False
          | Some s \<Rightarrow> (case node of None \<Rightarrow> True | Some n \<Rightarrow> sr_node_id s = n))))"

section \<open>Points that are no longer published\<close>

definition seen_source :: "string set \<Rightarrow> dict \<Rightarrow> bool" where
  "seen_source seen m = (case dget m ''source_restore_point_id'' of Some (JStr s) \<Rightarrow> s \<in> seen | _ \<Rightarrow> False)"

definition mark_received_storage_missing :: "string \<Rightarrow> string set \<Rightarrow> unit dbop" where
  "mark_received_storage_missing storage seen =
     update (\<lambda>d. d\<lparr>db_points := map (\<lambda>p.
       if imported_on d p = Some storage \<and> \<not> seen_source seen (pr_metadata p)
       then p\<lparr>pr_metadata := dset (pr_metadata p) ''received_status'' (JStr ''MISSING'')\<rparr>
       else p) (db_points d)\<rparr>)"

section \<open>The order of deletion\<close>

text \<open>\<open>{value["id"]: value for value in values}.get(key)\<close>: a list or an object cannot be a key.\<close>

definition unhashable :: "json \<Rightarrow> bool" where
  "unhashable v = (case v of JList _ \<Rightarrow> True | JObj _ \<Rightarrow> True | _ \<Rightarrow> False)"

definition by_id :: "received list \<Rightarrow> json \<Rightarrow> received option result" where
  "by_id vs key =
     (if unhashable key then Inl TypeError
      else Inr (case key of JStr s \<Rightarrow> find (\<lambda>v. rc_id v = s) (rev vs) | _ \<Rightarrow> None))"

lemma by_id_Some: "by_id vs key = Inr (Some v) \<Longrightarrow> v \<in> set vs \<and> key = JStr (rc_id v)"
  by (cases key) (auto simp: by_id_def unhashable_def dest!: find_SomeD)

text \<open>Chain identifiers are texts (\<open>import_metadata\<close>), so \<open>==\<close> is equality of the values.\<close>

definition same_chain :: "received \<Rightarrow> received \<Rightarrow> bool" where
  "same_chain s v = (rc_storage_id v = rc_storage_id s \<and> rc_chain v = rc_chain s)"

definition children_of :: "received list \<Rightarrow> received \<Rightarrow> string \<Rightarrow> received list" where
  "children_of vs selected i =
     filter (\<lambda>v. same_chain selected v \<and> truthy (rc_parent v) \<and> rc_parent v = JStr i) vs"

definition newest_first :: "received list \<Rightarrow> received list result" where
  "newest_first vs =
     bnd (map_result (\<lambda>v. bnd (py_int (rc_sequence v)) (\<lambda>n. Inr ((n, rc_id v), v))) vs) (\<lambda>keyed.
     Inr (map snd (sort_key_desc fst keyed)))"

lemma newest_first_set: "newest_first vs = Inr ws \<Longrightarrow> set ws = set vs"
proof -
  have keyed: "map_result (\<lambda>v. bnd (py_int (rc_sequence v)) (\<lambda>n. Inr ((n, rc_id v), v))) vs = Inr ks \<Longrightarrow>
      map snd ks = vs" for ks
  proof (induction vs arbitrary: ks)
    case (Cons v vs)
    then obtain n ks' where "ks = ((n, rc_id v), v) # ks'"
      and "map_result (\<lambda>v. bnd (py_int (rc_sequence v)) (\<lambda>n. Inr ((n, rc_id v), v))) vs = Inr ks'"
      unfolding map_result.simps bnd_eq_Inr by blast
    with Cons.IH show ?case by simp
  qed simp
  assume "newest_first vs = Inr ws"
  then obtain ks where
    m: "map_result (\<lambda>v. bnd (py_int (rc_sequence v)) (\<lambda>n. Inr ((n, rc_id v), v))) vs = Inr ks" and
    ws: "ws = map snd (sort_key_desc fst ks)"
    unfolding newest_first_def bnd_eq_Inr by blast
  show ?thesis unfolding ws by (simp only: set_map set_sort_key_desc) (simp flip: set_map add: keyed [OF m])
qed

lemma fold_result_cong [fundef_cong]:
  "xs = ys \<Longrightarrow> s = t \<Longrightarrow> (\<And>x u. x \<in> set ys \<Longrightarrow> f x u = g x u) \<Longrightarrow> fold_result f xs s = fold_result g ys t"
proof (induction ys arbitrary: xs s t)
  case (Cons y ys)
  have "bnd (g y t) (fold_result f ys) = bnd (g y t) (fold_result g ys)"
    by (rule bnd_cong [OF refl]) (rule Cons.IH [OF refl refl], simp add: Cons.prems)
  with Cons.prems show ?case by simp
qed simp

text \<open>
  The nested function \<open>visit\<close>: \<open>active\<close> holds the identifiers on the current path; the state
  is the pair of \<open>visited\<close> and \<open>ordered\<close>.
\<close>

function visit ::
  "received list \<Rightarrow> received \<Rightarrow> string list \<Rightarrow> received \<Rightarrow> string list \<times> received list \<Rightarrow>
   (string list \<times> received list) result" where
  "visit vs selected active value st =
     (if rc_id value \<in> set active then domain_error ''RECEIVED_DELETE_CHAIN_CYCLE''
      else if rc_id value \<in> set (fst st) then Inr st
      else
        bnd (newest_first (children_of vs selected (rc_id value))) (\<lambda>descendants.
        bnd (fold_result (\<lambda>child. \<lambda>st. visit vs selected (rc_id value # active) child st) descendants st)
          (\<lambda>(visited, ordered). Inr (rc_id value # visited, ordered @ [value]))))"
  by pat_completeness auto
termination
proof (relation "measure (\<lambda>(vs, selected, active, value, st).
    2 * card (rc_id ` set vs - set active) + (if rc_id value \<in> rc_id ` set vs then 0 else 1))", goal_cases)
  case 1
  show ?case by simp
next
  case (2 vs selected active point st descendants child st')
  from newest_first_set [OF 2(3)] 2(4) have child: "rc_id child \<in> rc_id ` set vs"
    by (auto simp: children_of_def)
  show ?case
  proof (cases "rc_id point \<in> rc_id ` set vs")
    case True
    with 2(1) have "card (rc_id ` set vs - set (rc_id point # active)) < card (rc_id ` set vs - set active)"
      by (intro psubset_card_mono) auto
    with child True show ?thesis by simp
  next
    case False
    then have "rc_id ` set vs - set (rc_id point # active) = rc_id ` set vs - set active" by auto
    with child False show ?thesis by simp
  qed
qed

declare visit.simps [simp del]

definition received_restore_delete_order :: "db \<Rightarrow> string \<Rightarrow> string \<Rightarrow> received list result" where
  "received_restore_delete_order d i node =
     (let vs = list_received_restore_points d node in
      bnd (by_id vs (JStr i)) (\<lambda>found. case found of
        None \<Rightarrow> Inr []
      | Some selected \<Rightarrow>
          if \<exists>v \<in> set vs. same_chain selected v \<and> truthy (rc_parent v) \<and> unhashable (rc_parent v)
          then Inl TypeError
          else bnd (visit vs selected [] selected ([], [])) (\<lambda>(_, ordered). Inr ordered)))"

section \<open>The chain a point is restored from\<close>

function walk_back :: "received list \<Rightarrow> received \<Rightarrow> received list \<Rightarrow> received \<Rightarrow> received list result" where
  "walk_back vs selected found current =
     (if rc_id current \<in> rc_id ` set found then domain_error ''RECEIVED_RESTORE_CHAIN_CYCLE''
      else if \<not> truthy (rc_parent current) then Inr (found @ [current])
      else
        bnd (by_id vs (rc_parent current)) (\<lambda>parent. case parent of
          None \<Rightarrow> domain_error ''RECEIVED_RESTORE_PARENT_MISSING''
        | Some p \<Rightarrow>
            if rc_storage_id p \<noteq> rc_storage_id selected
            then domain_error ''RECEIVED_RESTORE_STORAGE_CHANGED''
            else if rc_chain p \<noteq> rc_chain selected
            then domain_error ''RECEIVED_RESTORE_CHAIN_CHANGED''
            else walk_back vs selected (found @ [current]) p))"
  by pat_completeness auto

termination walk_back
proof (relation "measure (\<lambda>(vs, selected, found, current).
    2 * card (rc_id ` set vs - rc_id ` set found) + (if rc_id current \<in> rc_id ` set vs then 0 else 1))",
    goal_cases)
  case 1
  show ?case by simp
next
  case (2 vs selected found current parent p)
  from 2(3,4) by_id_Some have p: "rc_id p \<in> rc_id ` set vs" by blast
  show ?case
  proof (cases "rc_id current \<in> rc_id ` set vs")
    case True
    with 2(1) have "card (rc_id ` set vs - rc_id ` set (found @ [current])) < card (rc_id ` set vs - rc_id ` set found)"
      by (intro psubset_card_mono) auto
    with p True show ?thesis by simp
  next
    case False
    then have "rc_id ` set vs - rc_id ` set (found @ [current]) = rc_id ` set vs - rc_id ` set found" by auto
    with p False show ?thesis by simp
  qed
qed

declare walk_back.simps [simp del]

definition received_restore_chain :: "db \<Rightarrow> string \<Rightarrow> string \<Rightarrow> received list result" where
  "received_restore_chain d i node =
     (let vs = list_received_restore_points d node in
      bnd (by_id vs (JStr i)) (\<lambda>found. case found of
        None \<Rightarrow> Inr []
      | Some current \<Rightarrow>
          bnd (walk_back vs current [] current) (\<lambda>reversed_chain.
          if rc_kind (last reversed_chain) \<noteq> ''FULL''
          then domain_error ''RECEIVED_RESTORE_FULL_BASE_MISSING''
          else Inr (rev reversed_chain))))"

section \<open>Descendants come first\<close>

lemma children_of_iff:
  "c \<in> set (children_of vs selected i) \<longleftrightarrow>
     c \<in> set vs \<and> same_chain selected c \<and> rc_parent c = JStr i \<and> i \<noteq> []"
  by (auto simp: children_of_def)

definition children_before :: "received list \<Rightarrow> received \<Rightarrow> received list \<Rightarrow> bool" where
  "children_before vs selected ordered \<longleftrightarrow>
     (\<forall>pre x post. ordered = pre @ x # post \<longrightarrow>
        rc_id ` set (children_of vs selected (rc_id x)) \<subseteq> rc_id ` set pre)"

lemma children_before_snoc:
  assumes "children_before vs selected ordered"
    and "rc_id ` set (children_of vs selected (rc_id v)) \<subseteq> rc_id ` set ordered"
  shows "children_before vs selected (ordered @ [v])"
  unfolding children_before_def
proof (intro allI impI)
  fix pre x post
  assume eq: "ordered @ [v] = pre @ x # post"
  show "rc_id ` set (children_of vs selected (rc_id x)) \<subseteq> rc_id ` set pre"
  proof (cases post rule: rev_cases)
    case Nil
    with eq assms(2) show ?thesis by simp
  next
    case (snoc post' y)
    with eq have "ordered = pre @ x # post'" by simp
    with assms(1) show ?thesis unfolding children_before_def by blast
  qed
qed

definition descends :: "received list \<Rightarrow> received \<Rightarrow> (received \<times> received) set" where
  "descends vs selected = {(c, p). c \<in> set (children_of vs selected (rc_id p))}"

definition visited_ok :: "received list \<Rightarrow> received \<Rightarrow> string list \<times> received list \<Rightarrow> bool" where
  "visited_ok vs selected st \<longleftrightarrow> set (fst st) = rc_id ` set (snd st) \<and>
     distinct (map rc_id (snd st)) \<and> children_before vs selected (snd st)"

text \<open>What a visit adds: descendants of the visited points, none of them on the active path.\<close>

definition extends ::
  "received list \<Rightarrow> received \<Rightarrow> string list \<Rightarrow> received set \<Rightarrow> string list \<times> received list \<Rightarrow>
   string list \<times> received list \<Rightarrow> bool" where
  "extends vs selected active roots st st' \<longleftrightarrow> visited_ok vs selected st' \<and>
     (\<exists>new. snd st' = snd st @ new \<and> rc_id ` set new \<inter> set active = {} \<and>
        (\<forall>x \<in> set new. \<exists>r \<in> roots. (x, r) \<in> (descends vs selected)\<^sup>*))"

lemma extends_refl: "visited_ok vs selected st \<Longrightarrow> extends vs selected active roots st st"
  by (simp add: extends_def)

lemma extends_trans:
  assumes "extends vs selected active roots st st'" and "extends vs selected active roots' st' st''"
  shows "extends vs selected active (roots \<union> roots') st st''"
proof -
  from assms obtain new new' where
    "snd st' = snd st @ new" "rc_id ` set new \<inter> set active = {}"
    "\<forall>x \<in> set new. \<exists>r \<in> roots. (x, r) \<in> (descends vs selected)\<^sup>*"
    "snd st'' = snd st' @ new'" "rc_id ` set new' \<inter> set active = {}"
    "\<forall>x \<in> set new'. \<exists>r \<in> roots'. (x, r) \<in> (descends vs selected)\<^sup>*"
    unfolding extends_def by blast
  then have "snd st'' = snd st @ (new @ new')" "rc_id ` set (new @ new') \<inter> set active = {}"
    "\<forall>x \<in> set (new @ new'). \<exists>r \<in> roots \<union> roots'. (x, r) \<in> (descends vs selected)\<^sup>*"
    by auto
  moreover have "visited_ok vs selected st''" using assms(2) by (simp add: extends_def)
  ultimately show ?thesis unfolding extends_def by blast
qed

lemma extends_visited: "visited_ok vs selected st \<Longrightarrow> extends vs selected active roots st st' \<Longrightarrow>
    set (fst st) \<subseteq> set (fst st')"
  unfolding extends_def visited_ok_def by auto

lemma fold_visit_spec:
  assumes one: "\<And>c st st'. c \<in> set cs \<Longrightarrow> f c st = Inr st' \<Longrightarrow> visited_ok vs selected st \<Longrightarrow>
      extends vs selected active {c} st st' \<and> rc_id c \<in> set (fst st')"
    and "fold_result f cs st = Inr st'" and "visited_ok vs selected st"
  shows "extends vs selected active (set cs) st st' \<and> rc_id ` set cs \<subseteq> set (fst st')"
  using assms
proof (induction cs arbitrary: st)
  case Nil
  then show ?case by (simp add: extends_refl)
next
  case (Cons c cs)
  from Cons.prems(2) obtain st1 where f: "f c st = Inr st1" and r: "fold_result f cs st1 = Inr st'"
    unfolding fold_result.simps bnd_eq_Inr by blast
  from Cons.prems(1) [OF _ f Cons.prems(3)] have s: "extends vs selected active {c} st st1" "rc_id c \<in> set (fst st1)"
    by simp_all
  then have ok: "visited_ok vs selected st1" by (simp add: extends_def)
  have rest: "extends vs selected active (set cs) st1 st'" "rc_id ` set cs \<subseteq> set (fst st')"
    using Cons.IH [OF _ r ok] Cons.prems(1) by simp_all
  have "extends vs selected active (set (c # cs)) st st'"
    using extends_trans [OF s(1) rest(1)] by simp
  moreover have "rc_id c \<in> set (fst st')" using extends_visited [OF ok rest(1)] s(2) by blast
  ultimately show ?case using rest(2) by simp
qed

lemma visit_spec:
  assumes "visit vs selected active v st = Inr st'" and "visited_ok vs selected st"
  shows "extends vs selected active {v} st st' \<and> rc_id v \<in> set (fst st') \<and>
    (rc_id v \<notin> set (fst st) \<longrightarrow> snd st' \<noteq> [] \<and> last (snd st') = v)"
  using assms
proof (induction vs selected active v st arbitrary: st' rule: visit.induct)
  case (1 vs selected active v st)
  from "1.prems"(1) have inactive: "rc_id v \<notin> set active" by (subst (asm) visit.simps) (auto split: if_splits)
  show ?case
  proof (cases "rc_id v \<in> set (fst st)")
    case True
    with "1.prems" inactive have "st' = st" by (subst (asm) visit.simps) simp
    with True "1.prems"(2) show ?thesis by (simp add: extends_refl)
  next
    case False
    with "1.prems"(1) inactive obtain cs visited ordered where
      cs: "newest_first (children_of vs selected (rc_id v)) = Inr cs" and
      f: "fold_result (\<lambda>child st. visit vs selected (rc_id v # active) child st) cs st = Inr (visited, ordered)" and
      st': "st' = (rc_id v # visited, ordered @ [v])"
      by (subst (asm) visit.simps) (auto simp: bnd_eq_Inr)
    have set_cs: "set cs = set (children_of vs selected (rc_id v))" using cs by (rule newest_first_set)
    have step: "extends vs selected (rc_id v # active) (set cs) st (visited, ordered)"
      "rc_id ` set cs \<subseteq> set visited"
      using fold_visit_spec [OF _ f "1.prems"(2), of "rc_id v # active"]
        "1.IH" [OF inactive False cs] by auto
    then obtain new where ordered: "ordered = snd st @ new" and
      path: "rc_id ` set new \<inter> set (rc_id v # active) = {}" and
      below: "\<forall>x \<in> set new. \<exists>r \<in> set cs. (x, r) \<in> (descends vs selected)\<^sup>*" and
      ok: "visited_ok vs selected (visited, ordered)"
      unfolding extends_def by auto
    have v: "rc_id v \<notin> rc_id ` set ordered"
      using False "1.prems"(2) path by (auto simp: ordered visited_ok_def)
    have "visited_ok vs selected st'"
      using ok v step(2) children_before_snoc [of vs selected ordered v]
      by (auto simp: visited_ok_def st' set_cs)
    moreover have "(x, v) \<in> (descends vs selected)\<^sup>*" if "x \<in> set new" for x
    proof -
      from below that obtain r where "r \<in> set cs" and xr: "(x, r) \<in> (descends vs selected)\<^sup>*" by blast
      then have "(r, v) \<in> descends vs selected" by (simp add: descends_def set_cs)
      with xr show ?thesis by (rule rtrancl_into_rtrancl)
    qed
    ultimately have "extends vs selected active {v} st st'"
      unfolding extends_def using inactive path ordered
      by (auto simp: st' intro!: exI [of _ "new @ [v]"])
    then show ?thesis by (simp add: st')
  qed
qed

lemma delete_order_spec:
  assumes "received_restore_delete_order d i node = Inr ordered" and "ordered \<noteq> []"
  obtains selected where "selected \<in> set (list_received_restore_points d node)" and "rc_id selected = i"
    and "last ordered = selected"
    and "visited_ok (list_received_restore_points d node) selected (map rc_id ordered, ordered)"
    and "\<forall>x \<in> set ordered. (x, selected) \<in> (descends (list_received_restore_points d node) selected)\<^sup>*"
proof -
  let ?vs = "list_received_restore_points d node"
  from assms(1) obtain found where found: "by_id ?vs (JStr i) = Inr found"
    and rest: "(case found of None \<Rightarrow> Inr [] | Some selected \<Rightarrow>
      if \<exists>v \<in> set ?vs. same_chain selected v \<and> truthy (rc_parent v) \<and> unhashable (rc_parent v) then Inl TypeError
      else bnd (visit ?vs selected [] selected ([], [])) (\<lambda>(_, ordered). Inr ordered)) = Inr ordered"
    unfolding received_restore_delete_order_def Let_def bnd_eq_Inr by blast
  from rest assms(2) obtain selected where selected: "found = Some selected" by (cases found) auto
  with rest have "bnd (visit ?vs selected [] selected ([], [])) (\<lambda>(_, ordered). Inr ordered) = Inr ordered"
    by (simp split: if_splits)
  then obtain visited where v: "visit ?vs selected [] selected ([], []) = Inr (visited, ordered)"
    by (cases "visit ?vs selected [] selected ([], [])") auto
  from found selected have found: "by_id ?vs (JStr i) = Inr (Some selected)" by simp
  have ok: "visited_ok ?vs selected ([], [])" by (simp add: visited_ok_def children_before_def)
  from visit_spec [OF v ok] have e: "extends ?vs selected [] {selected} ([], []) (visited, ordered)"
    and l: "last ordered = selected" by simp_all
  then have "visited_ok ?vs selected (map rc_id ordered, ordered)"
    "\<forall>x \<in> set ordered. (x, selected) \<in> (descends ?vs selected)\<^sup>*"
    by (auto simp: extends_def visited_ok_def)
  with that by_id_Some [OF found] l show thesis by auto
qed

section \<open>The restored chain\<close>

fun walked :: "received list \<Rightarrow> received \<Rightarrow> received list \<Rightarrow> bool" where
  "walked vs selected [] = False"
| "walked vs selected [x] = (\<not> truthy (rc_parent x))"
| "walked vs selected (x # y # zs) =
     (truthy (rc_parent x) \<and> by_id vs (rc_parent x) = Inr (Some y) \<and> same_chain selected y \<and>
      walked vs selected (y # zs))"

lemma walk_back_iff:
  "walk_back vs selected found current = Inr r \<longleftrightarrow>
     (\<exists>rest. r = found @ current # rest \<and> walked vs selected (current # rest) \<and>
        distinct (map rc_id (current # rest)) \<and> rc_id ` set (current # rest) \<inter> rc_id ` set found = {})"
proof (induction vs selected found current rule: walk_back.induct)
  case (1 vs selected found current)
  consider (cycle) "rc_id current \<in> rc_id ` set found"
    | (base) "rc_id current \<notin> rc_id ` set found" "\<not> truthy (rc_parent current)"
    | (lost) "rc_id current \<notin> rc_id ` set found" "truthy (rc_parent current)"
        "\<nexists>p. by_id vs (rc_parent current) = Inr (Some p) \<and> same_chain selected p"
    | (step) p where "rc_id current \<notin> rc_id ` set found" "truthy (rc_parent current)"
        "by_id vs (rc_parent current) = Inr (Some p)" "same_chain selected p"
    by blast
  then show ?case
  proof cases
    case cycle
    then show ?thesis by (subst walk_back.simps) auto
  next
    case base
    have "walked vs selected (current # rest) \<longleftrightarrow> rest = []" for rest
      using base by (cases rest) simp_all
    with base show ?thesis by (subst walk_back.simps) auto
  next
    case lost
    have "\<not> walked vs selected (current # rest)" for rest
      using lost by (cases rest) auto
    moreover have "\<nexists>r. walk_back vs selected found current = Inr r"
      using lost by (subst walk_back.simps) (auto simp: bnd_def same_chain_def split: sum.splits option.splits)
    ultimately show ?thesis by simp
  next
    case (step p)
    have "walk_back vs selected found current = walk_back vs selected (found @ [current]) p"
      using step by (subst walk_back.simps) (simp add: same_chain_def)
    moreover have "walked vs selected (current # rest) \<longleftrightarrow> (\<exists>rest'. rest = p # rest' \<and> walked vs selected (p # rest'))" for rest
      using step by (cases rest) auto
    moreover have "walk_back vs selected (found @ [current]) p = Inr r \<longleftrightarrow>
      (\<exists>rest. r = (found @ [current]) @ p # rest \<and> walked vs selected (p # rest) \<and>
        distinct (map rc_id (p # rest)) \<and> rc_id ` set (p # rest) \<inter> rc_id ` set (found @ [current]) = {})"
      using "1.IH" [OF step(1) _ step(3) refl] step by (simp add: same_chain_def)
    ultimately show ?thesis using step(1) by auto
  qed
qed

lemma by_id_unique:
  assumes "distinct (map rc_id vs)" and "v \<in> set vs"
  shows "by_id vs (JStr (rc_id v)) = Inr (Some v)"
proof -
  have "find (\<lambda>x. rc_id x = rc_id v) (rev vs) \<noteq> None"
    using assms(2) by (auto simp: find_None_iff)
  then obtain w where w: "find (\<lambda>x. rc_id x = rc_id v) (rev vs) = Some w" by blast
  then have "w \<in> set vs" "rc_id w = rc_id v" using find_SomeD by fastforce+
  with assms have "w = v" by (auto simp: distinct_map dest: inj_onD)
  with w show ?thesis by (simp add: by_id_def unhashable_def)
qed

text \<open>The chain as it is required: from a FULL point without a parent to the selected point.\<close>

definition parent_link :: "received \<Rightarrow> received \<Rightarrow> bool" where
  "parent_link p c \<longleftrightarrow> rc_parent c = JStr (rc_id p) \<and> rc_id p \<noteq> []"

definition restorable :: "received list \<Rightarrow> string \<Rightarrow> received list \<Rightarrow> bool" where
  "restorable vs i chain \<longleftrightarrow> chain \<noteq> [] \<and> rc_id (last chain) = i \<and> set chain \<subseteq> set vs \<and>
     distinct (map rc_id chain) \<and> rc_kind (hd chain) = ''FULL'' \<and> \<not> truthy (rc_parent (hd chain)) \<and>
     list_all (same_chain (last chain)) chain \<and> successively parent_link chain"

lemma walked_iff:
  assumes "distinct (map rc_id vs)" and "set xs \<subseteq> set vs"
  shows "walked vs selected xs \<longleftrightarrow> xs \<noteq> [] \<and> \<not> truthy (rc_parent (last xs)) \<and>
    list_all (same_chain selected) (tl xs) \<and> successively (\<lambda>c p. parent_link p c) xs"
  using assms(2)
proof (induction xs rule: induct_list012)
  case (3 x y zs)
  have y: "y \<in> set vs" using 3(3) by simp
  have "truthy (rc_parent x) \<and> by_id vs (rc_parent x) = Inr (Some y) \<longleftrightarrow> parent_link y x"
  proof
    assume "truthy (rc_parent x) \<and> by_id vs (rc_parent x) = Inr (Some y)"
    then have "truthy (rc_parent x)" and "rc_parent x = JStr (rc_id y)" by (auto dest: by_id_Some)
    then show "parent_link y x" by (simp add: parent_link_def)
  next
    assume "parent_link y x"
    then have "rc_parent x = JStr (rc_id y)" "rc_id y \<noteq> []" by (simp_all add: parent_link_def)
    then show "truthy (rc_parent x) \<and> by_id vs (rc_parent x) = Inr (Some y)"
      using by_id_unique [OF assms(1) y] by simp
  qed
  moreover have "set (y # zs) \<subseteq> set vs" using 3(3) by simp
  ultimately show ?case using 3(2) by auto
qed simp_all

lemma walked_subset: "walked vs selected xs \<Longrightarrow> set (tl xs) \<subseteq> set vs"
  by (induction vs selected xs rule: walked.induct) (auto dest: by_id_Some)

lemma same_chain_shift: "same_chain s v \<Longrightarrow> same_chain v = same_chain s"
  by (rule ext) (simp add: same_chain_def)

lemma restore_chain_spec:
  assumes "distinct (map rc_id (list_received_restore_points d node))" and "chain \<noteq> []"
  shows "received_restore_chain d i node = Inr chain \<longleftrightarrow>
    restorable (list_received_restore_points d node) i chain"
proof -
  let ?vs = "list_received_restore_points d node"
  have run: "received_restore_chain d i node = Inr chain \<longleftrightarrow>
      (\<exists>current rest. by_id ?vs (JStr i) = Inr (Some current) \<and> rev chain = current # rest \<and>
         walked ?vs current (current # rest) \<and> distinct (map rc_id (current # rest)) \<and>
         rc_kind (last (current # rest)) = ''FULL'')" (is "_ \<longleftrightarrow> ?steps")
  proof (cases "\<exists>current. by_id ?vs (JStr i) = Inr (Some current)")
    case True
    then obtain current where c: "by_id ?vs (JStr i) = Inr (Some current)" by blast
    have "received_restore_chain d i node =
        bnd (walk_back ?vs current [] current) (\<lambda>r. if rc_kind (last r) \<noteq> ''FULL''
          then domain_error ''RECEIVED_RESTORE_FULL_BASE_MISSING'' else Inr (rev r))"
      unfolding received_restore_chain_def Let_def c by simp
    then have "received_restore_chain d i node = Inr chain \<longleftrightarrow>
        walk_back ?vs current [] current = Inr (rev chain) \<and> rc_kind (last (rev chain)) = ''FULL''"
      by (cases "walk_back ?vs current [] current") auto
    moreover obtain c' r' where "rev chain = c' # r'" using assms(2) by (cases "rev chain") auto
    ultimately show ?thesis by (simp add: walk_back_iff c) blast
  next
    case False
    then have none: "by_id ?vs (JStr i) = Inr None" by (auto simp: by_id_def unhashable_def)
    have "received_restore_chain d i node = Inr []"
      unfolding received_restore_chain_def Let_def none by simp
    moreover have "\<not> ?steps" using False by blast
    ultimately show ?thesis using assms(2) by simp
  qed
  also have "\<dots> \<longleftrightarrow> restorable ?vs i chain"
  proof
    assume ?steps
    then obtain current rest where c: "by_id ?vs (JStr i) = Inr (Some current)" and r: "rev chain = current # rest"
      and w: "walked ?vs current (rev chain)" and dis: "distinct (map rc_id (rev chain))"
      and full: "rc_kind (last (rev chain)) = ''FULL''" by auto
    have dis: "distinct (map rc_id chain)" using dis by (metis distinct_rev rev_map)
    from by_id_Some [OF c] have c': "current \<in> set ?vs" "rc_id current = i" by auto
    have sub: "set (rev chain) \<subseteq> set ?vs" using walked_subset [OF w] c' r by auto
    have last: "last chain = current" using r assms(2) by (metis hd_rev list.sel(1))
    have "list_all (same_chain current) (tl (rev chain))" "\<not> truthy (rc_parent (last (rev chain)))"
      "successively (\<lambda>c p. parent_link p c) (rev chain)"
      using w walked_iff [OF assms(1) sub, of current] by simp_all
    moreover from this(1) r have "list_all (same_chain current) (rev chain)" by (simp add: same_chain_def)
    ultimately show "restorable ?vs i chain"
      using c' dis full sub last assms(2)
      by (auto simp: restorable_def last_rev successively_rev list_all_iff)
  next
    assume a: "restorable ?vs i chain"
    let ?c = "last chain"
    have r: "rev chain = ?c # tl (rev chain)" using assms(2) by (metis hd_rev list.collapse rev_is_Nil_conv)
    have sub: "set (rev chain) \<subseteq> set ?vs" using a by (simp add: restorable_def)
    have "list_all (same_chain ?c) (tl (rev chain))"
      using a r unfolding restorable_def list_all_iff by (metis list.set_intros(2) set_rev)
    then have w: "walked ?vs ?c (rev chain)"
      using a walked_iff [OF assms(1) sub, of ?c] by (auto simp: restorable_def last_rev successively_rev)
    have "?c \<in> set ?vs" using sub assms(2) last_in_set [of chain] by auto
    then have "by_id ?vs (JStr (rc_id ?c)) = Inr (Some ?c)" by (rule by_id_unique [OF assms(1)])
    then have "by_id ?vs (JStr i) = Inr (Some ?c)" using a by (simp add: restorable_def)
    moreover have "distinct (map rc_id (rev chain))" "rc_kind (last (rev chain)) = ''FULL''"
      using a by (simp_all add: restorable_def last_rev flip: rev_map)
    ultimately show ?steps using w r by metis
  qed
  finally show ?thesis .
qed

section \<open>Properties of the received catalogue\<close>

text \<open>Identifiers are the primary key of the table.\<close>

definition points_keyed :: "db \<Rightarrow> bool" where
  "points_keyed d \<longleftrightarrow> distinct (map pr_id (db_points d))"

lemma received_row_id: "received_row d node p = Some v \<Longrightarrow> rc_id v = pr_id p"
  by (auto simp: received_row_def received_value_def Let_def split: option.splits if_splits)

lemma map_filter_ids:
  assumes "\<And>p v. p \<in> set ps \<Longrightarrow> f p = Some v \<Longrightarrow> g v = h p" and "distinct (map h ps)"
  shows "distinct (map g (List.map_filter f ps))"
proof -
  have "map g (List.map_filter f ps) = map h (filter (\<lambda>p. f p \<noteq> None) ps)"
    using assms(1) by (induction ps) (auto simp: List.map_filter_simps split: option.splits)
  then show ?thesis using assms(2) by (simp add: distinct_map_filter)
qed

lemma received_ids_distinct:
  "points_keyed d \<Longrightarrow> distinct (map rc_id (list_received_restore_points d node))"
  unfolding list_received_restore_points_def points_keyed_def
  by (rule map_filter_ids [OF received_row_id]) (auto simp: distinct_map)

text \<open>C27: Deleting a received point removes children before their parents: the list that
\<open>received_restore_delete_order_v2\<close> returns has no point twice, ends with the selected point, holds
only its descendants, and every listed point is preceded by all its children in the catalogue.\<close>

theorem received_delete_children_first:
  assumes "received_restore_delete_order d i node = Inr ordered" and "ordered \<noteq> []"
  shows "distinct (map rc_id ordered) \<and> rc_id (last ordered) = i \<and>
    (\<forall>x \<in> set ordered. (x, last ordered) \<in> (descends (list_received_restore_points d node) (last ordered))\<^sup>*) \<and>
    (\<forall>pre x post c. ordered = pre @ x # post \<longrightarrow>
       c \<in> set (children_of (list_received_restore_points d node) (last ordered) (rc_id x)) \<longrightarrow>
       rc_id c \<in> rc_id ` set pre)"
proof -
  from delete_order_spec [OF assms] obtain selected where
    "last ordered = selected" "rc_id selected = i"
    "visited_ok (list_received_restore_points d node) selected (map rc_id ordered, ordered)"
    "\<forall>x \<in> set ordered. (x, selected) \<in> (descends (list_received_restore_points d node) selected)\<^sup>*"
    by blast
  then show ?thesis by (fastforce simp: visited_ok_def children_before_def)
qed

text \<open>C28: \<open>received_restore_chain_v2\<close> returns a chain exactly when it is the way from a FULL point
without a parent, link by link through the parent identifiers, to the requested point, all of it in
one storage and one chain and without a repeated point.\<close>

theorem received_chain_exact:
  assumes "points_keyed d" and "chain \<noteq> []"
  shows "received_restore_chain d i node = Inr chain \<longleftrightarrow>
    restorable (list_received_restore_points d node) i chain"
  by (rule restore_chain_spec [OF received_ids_distinct [OF assms(1)] assms(2)])

section \<open>A received chain\<close>

definition sample_import :: "string \<Rightarrow> string \<Rightarrow> int \<Rightarrow> string option \<Rightarrow> import_item" where
  "sample_import i kind n parent =
     \<lparr>im_storage_id = ''a'', im_point_id = i, im_source_point_id = ''s'' @ i, im_vm_id = ''v'',
      im_source_vm_id = ''sv'', im_job_id = ''j'', im_source_job_id = ''sj'', im_run_id = ''r'' @ i,
      im_source_run_id = ''sr'', im_source_node_id = ''src'', im_vm_name = ''vm'', im_kind = kind,
      im_chain_id = ''c'', im_sequence = n, im_parent = parent, im_bundle = ''/b/'' @ i,
      im_source_bundle = JStr ''o'', im_checkpoint = JNull, im_created_at = i, im_origin = []\<rparr>"

definition received_store :: db where
  "received_store =
     snd (upsert_received_restore_point ''1'' (sample_import ''i2'' ''INCREMENTAL'' 2 (Some ''i1''))
       (snd (upsert_received_restore_point ''1'' (sample_import ''i1'' ''INCREMENTAL'' 1 (Some ''f''))
         (snd (upsert_received_restore_point ''1'' (sample_import ''f'' ''FULL'' 0 None) two_storages)))))"

lemma received_store_order:
  "map rc_id (projr (received_restore_delete_order received_store ''i1'' ''n'')) = [''i2'', ''i1''] \<and>
   \<not> isl (received_restore_delete_order received_store ''i1'' ''n'')"
  by code_simp

lemma received_store_chain:
  "map rc_id (projr (received_restore_chain received_store ''i2'' ''n'')) = [''f'', ''i1'', ''i2''] \<and>
   \<not> isl (received_restore_chain received_store ''i2'' ''n'') \<and> points_keyed received_store"
  by code_simp

theorem received_delete_children_first_witness:
  "map rc_id (projr (received_restore_delete_order received_store ''i1'' ''n'')) = [''i2'', ''i1''] \<and>
   distinct (map rc_id (projr (received_restore_delete_order received_store ''i1'' ''n'')))"
proof -
  let ?o = "received_restore_delete_order received_store ''i1'' ''n''"
  have o: "?o = Inr (projr ?o)" using received_store_order by (simp add: Inr_projr)
  have "projr ?o \<noteq> []" using received_store_order by (metis list.map_disc_iff list.distinct(1))
  from received_delete_children_first [OF o this] received_store_order show ?thesis by blast
qed

theorem received_chain_exact_witness:
  "restorable (list_received_restore_points received_store ''n'') ''i2''
     (projr (received_restore_chain received_store ''i2'' ''n''))"
proof -
  let ?c = "received_restore_chain received_store ''i2'' ''n''"
  have c: "?c = Inr (projr ?c)" using received_store_chain by (simp add: Inr_projr)
  have "projr ?c \<noteq> []" using received_store_chain by (metis list.map_disc_iff list.distinct(1))
  from received_chain_exact [OF _ this] received_store_chain c show ?thesis by blast
qed

end
