(* ===== verification/ReceivedRestore.thy ===== *)
theory ReceivedRestore
  imports Received "HOL-Library.Word"
begin

text \<open>
  Restoring a received replica on this node: the restore operations of the compact store
  (\<open>create_received_restore_operation_v2\<close>, \<open>list_received_restore_operations_v2\<close>,
  \<open>transition_received_restore_v2\<close> of \<open>repository_v2.py\<close>, \<open>RestoreOperation\<close> of \<open>models.py\<close>) and
  the runtime that advances them (\<open>received_restore_v2.py\<close>).

  A world is the store, the files and the libvirt domains of the host. \<open>host_env\<close> holds what the
  runtime calls outside the repository: commands, symlink resolution, the XML library and libvirt.
  Disk names hold no slash, so a path is its directory, a slash and the name.
\<close>

section \<open>Restore operations\<close>

definition restore_states :: "string list" where
  "restore_states = [''PLANNED'', ''ACQUIRING'', ''VERIFYING'', ''MATERIALIZING'', ''DEFINING'',
     ''READY'', ''STARTING'', ''SUCCESS'', ''FAILED'', ''RECOVERY_REQUIRED'']"

text \<open>
  \<open>_restore_operation_from_row\<close>: the enums and the checks of \<open>__post_init__\<close>. The row has no
  \<open>recovery_from_state\<close>, so the field is \<open>None\<close> and a \<open>RECOVERY_REQUIRED\<close> row is refused.
\<close>

definition operation_ok :: "restore_row \<Rightarrow> bool" where
  "operation_ok r \<longleftrightarrow>
     rs_source_role r \<in> {''PRIMARY'', ''REPLICA''} \<and> rs_network_mode r = ''DISCONNECTED'' \<and>
     rs_state r \<in> set restore_states \<and> rs_state r \<noteq> ''RECOVERY_REQUIRED'' \<and> rs_recovery_reason r = None \<and>
     rs_point_id r \<noteq> [] \<and> rs_source_destination_id r \<noteq> [] \<and> rs_target_node_id r \<noteq> [] \<and>
     strip (rs_bundle_object_id r) \<noteq> [] \<and> strip (rs_target_vm_name r) \<noteq> [] \<and>
     prefix ''/'' (rs_target_root r) \<and> ''..'' \<notin> set (split_on CHR ''/'' (rs_target_root r)) \<and>
     strip (rs_target_domain_uuid r) \<noteq> []"

definition restore_operation_from_row :: "text_env \<Rightarrow> restore_row \<Rightarrow> restore_row result" where
  "restore_operation_from_row te r =
     bnd (te_from_iso te (rs_created_at r)) (\<lambda>_.
     bnd (te_from_iso te (rs_updated_at r)) (\<lambda>_.
     if operation_ok r then Inr r else Inl (ValueError ''restore operation is invalid'')))"

definition get_restore_operation :: "text_env \<Rightarrow> db \<Rightarrow> string \<Rightarrow> restore_row option result" where
  "get_restore_operation te d i =
     (case find (\<lambda>r. rs_id r = i) (db_restores d) of
        None \<Rightarrow> Inr None
      | Some r \<Rightarrow> bnd (restore_operation_from_row te r) (\<lambda>v. Inr (Some v)))"

definition received_operation :: "db \<Rightarrow> string \<Rightarrow> restore_row \<Rightarrow> bool" where
  "received_operation d node r \<longleftrightarrow> rs_target_node_id r = node \<and>
     (case point_by_id d (rs_point_id r) of None \<Rightarrow> False | Some p \<Rightarrow> imported_on d p \<noteq> None)"

definition list_received_restore_operations :: "text_env \<Rightarrow> db \<Rightarrow> string \<Rightarrow> restore_row list result" where
  "list_received_restore_operations te d node =
     map_result (restore_operation_from_row te)
       (sort_key (\<lambda>r. (rs_created_at r, rs_id r)) (filter (received_operation d node) (db_restores d)))"

definition list_vms :: "db \<Rightarrow> string \<Rightarrow> vm_row list" where
  "list_vms d node =
     sort_key vr_name (filter (\<lambda>v. node = [] \<or> vr_node_id v = node) (db_vms d))"

definition create_received_restore_operation ::
  "text_env \<Rightarrow> string \<Rightarrow> string \<Rightarrow> string \<Rightarrow> string \<Rightarrow> string \<Rightarrow> string \<Rightarrow> string \<Rightarrow> bool \<Rightarrow> restore_row option dbop" where
  "create_received_restore_operation te i domain_uuid point_id node target_name target stamp start =
     reading (\<lambda>d. case get_received_restore_point d point_id node of
       None \<Rightarrow> lift (domain_error ''RECEIVED_RESTORE_POINT_NOT_FOUND'')
     | Some point \<Rightarrow>
         if rc_status point \<noteq> JStr ''AVAILABLE'' then lift (domain_error ''RECEIVED_RESTORE_POINT_NOT_AVAILABLE'')
         else if list_ex (\<lambda>v. vr_name v = target_name \<or> vr_external_id v = Some target_name) (list_vms d node)
         then lift (domain_error ''RESTORE_TARGET_VM_EXISTS'')
         else case rc_bundle point of
           JStr object_id \<Rightarrow>
             if i \<in> set (map rs_id (db_restores d)) \<or>
                domain_uuid \<in> set (map rs_target_domain_uuid (db_restores d)) \<or> node \<notin> set (db_nodes d)
             then raise OtherException
             else
               andthen (update (\<lambda>d. d\<lparr>db_restores := db_restores d @
                 [\<lparr>rs_id = i, rs_point_id = point_id, rs_source_destination_id = rc_storage_id point,
                   rs_target_node_id = node, rs_source_role = ''REPLICA'', rs_bundle_object_id = object_id,
                   rs_target_vm_name = target_name, rs_target_domain_uuid = domain_uuid,
                   rs_target_root = target, rs_network_mode = ''DISCONNECTED'',
                   rs_start_after_restore = start, rs_state = ''PLANNED'', rs_error = None,
                   rs_recovery_reason = None, rs_created_at = stamp, rs_updated_at = stamp\<rparr>]\<rparr>)) (\<lambda>_.
               reading (\<lambda>d. lift (get_restore_operation te d i)))
         | _ \<Rightarrow> raise OtherException)"

definition moved_row :: "string \<Rightarrow> string option \<Rightarrow> string option \<Rightarrow> string \<Rightarrow> restore_row \<Rightarrow> restore_row" where
  "moved_row new_state err reason stamp r =
     r\<lparr>rs_state := new_state, rs_error := err, rs_recovery_reason := reason, rs_updated_at := stamp\<rparr>"

definition transition_received_restore ::
  "text_env \<Rightarrow> string \<Rightarrow> string \<Rightarrow> string \<Rightarrow> string \<Rightarrow> string option \<Rightarrow> restore_row option dbop" where
  "transition_received_restore te i expected new_state stamp err =
     reading (\<lambda>d.
       if \<not> list_ex (\<lambda>r. rs_id r = i \<and> rs_state r = expected) (db_restores d)
       then lift (domain_error ''RESTORE_STATE_CHANGED'')
       else
         andthen (update (\<lambda>d. d\<lparr>db_restores := map (\<lambda>r. if rs_id r = i \<and> rs_state r = expected
             then moved_row new_state err None stamp r else r) (db_restores d)\<rparr>)) (\<lambda>_.
         reading (\<lambda>d. lift (get_restore_operation te d i))))"

definition register_vm :: "string \<Rightarrow> string \<Rightarrow> string \<Rightarrow> string \<Rightarrow> string \<Rightarrow> vm_row dbop" where
  "register_vm i node external name domain_uuid =
     reading (\<lambda>d. case find (\<lambda>v. vr_node_id v = node \<and> vr_external_id v = Some external) (db_vms d) of
       Some v \<Rightarrow> if vr_domain_uuid v \<noteq> Some domain_uuid then lift (domain_error ''DOMAIN_UUID_CHANGED'') else ret v
     | None \<Rightarrow>
         (case find (\<lambda>v. vr_node_id v = node \<and> vr_domain_uuid v = Some domain_uuid) (db_vms d) of
            Some v \<Rightarrow> ret v
          | None \<Rightarrow>
              if i \<in> set (map vr_id (db_vms d)) \<or> node \<notin> set (db_nodes d) then raise OtherException
              else
                let v = \<lparr>vr_id = i, vr_node_id = node, vr_name = name, vr_external_id = Some external,
                         vr_domain_uuid = Some domain_uuid\<rparr>
                in andthen (update (\<lambda>d. d\<lparr>db_vms := db_vms d @ [v]\<rparr>)) (\<lambda>_. ret v)))"

section \<open>The host\<close>

text \<open>
  A qcow2 image is the bytes its clusters hold and its backing file; an element tree drops the
  texts between the children.
\<close>

type_synonym layer = "nat \<Rightarrow> 8 word option"

datatype node_file = Folder | Image layer "string option" | Document string

type_synonym files = "string \<Rightarrow> node_file option"

datatype xml = Xml (tag_of: string) (attrs_of: "(string \<times> string) list") (text_in: string) (kids_of: "xml list")

record host_env =
  he_run :: "string list \<Rightarrow> files \<Rightarrow> bool \<times> files"
  he_loads :: "string \<Rightarrow> json option"
  he_str :: "json \<Rightarrow> string"
  he_names :: "files \<Rightarrow> string \<Rightarrow> string list"
  he_below :: "files \<Rightarrow> string \<Rightarrow> string list"
  he_resolve :: "files \<Rightarrow> string \<Rightarrow> string option"
  he_writable :: "files \<Rightarrow> string \<Rightarrow> bool"
  he_make_folders :: "string \<Rightarrow> files \<Rightarrow> bool \<times> files"
  he_unlink :: "string \<Rightarrow> files \<Rightarrow> bool"
  he_replace :: "string \<Rightarrow> string \<Rightarrow> files \<Rightarrow> bool \<times> files"
  he_grant :: "files \<Rightarrow> string \<Rightarrow> int \<Rightarrow> bool"
  he_parse_xml :: "string \<Rightarrow> xml option"
  he_xml_text :: "xml \<Rightarrow> string"
  he_source_note :: "string \<Rightarrow> string list \<Rightarrow> string"
  he_write :: "string \<Rightarrow> files \<Rightarrow> bool"
  he_define :: "string \<Rightarrow> files \<Rightarrow> (string \<times> string) list \<Rightarrow> (string \<times> string) list result"
  he_start :: "string \<Rightarrow> (string \<times> string) list \<Rightarrow> (string \<times> string) list result"
  he_now :: "db \<Rightarrow> string"
  he_new_id :: "db \<Rightarrow> string"
  he_error_text :: "exn \<Rightarrow> string"

record world =
  wo_db :: db
  wo_files :: files
  wo_domains :: "(string \<times> string) list"

type_synonym 'a wop = "(world, 'a) op"

abbreviation restore_error :: "string \<Rightarrow> 'a result" where
  "restore_error code \<equiv> Inl (ReceivedRestoreError code)"

definition in_store :: "'a dbop \<Rightarrow> 'a wop" where
  "in_store m = (\<lambda>w. case m (wo_db w) of (r, d) \<Rightarrow> (r, w\<lparr>wo_db := d\<rparr>))"

definition set_files :: "files \<Rightarrow> unit wop" where
  "set_files fs = update (\<lambda>w. w\<lparr>wo_files := fs\<rparr>)"

definition py_text :: "host_env \<Rightarrow> json \<Rightarrow> string" where
  "py_text h v = (case v of JStr s \<Rightarrow> s | _ \<Rightarrow> he_str h v)"

definition is_folder :: "files \<Rightarrow> string \<Rightarrow> bool" where
  "is_folder fs p = (case fs p of Some Folder \<Rightarrow> True | _ \<Rightarrow> False)"

definition is_regular :: "files \<Rightarrow> string \<Rightarrow> bool" where
  "is_regular fs p = (case fs p of None \<Rightarrow> False | Some Folder \<Rightarrow> False | _ \<Rightarrow> True)"

definition read_object :: "host_env \<Rightarrow> files \<Rightarrow> string \<Rightarrow> dict result" where
  "read_object h fs p =
     (case fs p of
        Some (Document s) \<Rightarrow>
          (case he_loads h s of Some (JObj v) \<Rightarrow> Inr v | _ \<Rightarrow> restore_error ''RECEIVED_RESTORE_METADATA_INVALID'')
      | _ \<Rightarrow> restore_error ''RECEIVED_RESTORE_METADATA_INVALID'')"

definition run_command :: "host_env \<Rightarrow> string list \<Rightarrow> unit wop" where
  "run_command h argv = reading (\<lambda>w. case he_run h argv (wo_files w) of (good, fs) \<Rightarrow>
     andthen (set_files fs) (\<lambda>_.
     if good then ret () else lift (restore_error ''RECEIVED_RESTORE_COMMAND_FAILED'')))"

section \<open>Validation of the chain\<close>

definition stem :: "string \<Rightarrow> string" where
  "stem name = (if name = ''.qcow2'' then name else take (length name - 6) name)"

definition manifest_targets :: "host_env \<Rightarrow> dict \<Rightarrow> string list result" where
  "manifest_targets h manifest =
     (case dget_or manifest ''disks'' (JList []) of
        JList ds \<Rightarrow> Inr (sort (List.map_filter (\<lambda>v. case v of
            JObj d \<Rightarrow> (let t = dget_or d ''target'' JNull in if truthy t then Some (py_text h t) else None)
          | _ \<Rightarrow> None) ds))
      | JObj _ \<Rightarrow> Inr [] | JStr _ \<Rightarrow> Inr [] | _ \<Rightarrow> Inl TypeError)"

definition item_targets :: "host_env \<Rightarrow> files \<Rightarrow> string \<Rightarrow> received \<Rightarrow> string list result" where
  "item_targets h fs folder item =
     (let meta = joined folder ''metadata'' in
      bnd (read_object h fs (joined meta ''manifest.json'')) (\<lambda>manifest.
      bnd (read_object h fs (joined meta ''restore-point.json'')) (\<lambda>point.
      if py_text h (dget_or point ''id'' JNull) \<noteq> py_text h (rc_source_point item)
      then restore_error ''RECEIVED_RESTORE_METADATA_MISMATCH''
      else
        bnd (manifest_targets h manifest) (\<lambda>found.
        let targets = (if found \<noteq> [] then found
          else sort (map stem (filter (suffix ''.qcow2'') (he_names h fs (joined folder ''disks'')))))
        in if targets = [] then restore_error ''RECEIVED_RESTORE_METADATA_INVALID'' else Inr targets))))"

definition item_bundle :: "received \<Rightarrow> string result" where
  "item_bundle item = (case rc_bundle item of JStr s \<Rightarrow> Inr (path_str s) | _ \<Rightarrow> Inl TypeError)"

fun check_items ::
  "host_env \<Rightarrow> files \<Rightarrow> string option \<Rightarrow> int \<Rightarrow> string list option \<Rightarrow> received list \<Rightarrow> string list option result" where
  "check_items h fs parent sequence targets [] = Inr targets"
| "check_items h fs parent sequence targets (item # items) =
     (if rc_status item \<noteq> JStr ''AVAILABLE'' then restore_error ''RECEIVED_RESTORE_SOURCE_UNAVAILABLE''
      else
        bnd (py_int (rc_sequence item)) (\<lambda>n.
        if n \<noteq> sequence then restore_error ''RECEIVED_RESTORE_CHAIN_INVALID''
        else if rc_parent item \<noteq> opt_json parent then restore_error ''RECEIVED_RESTORE_CHAIN_INVALID''
        else
          bnd (item_bundle item) (\<lambda>folder.
          if \<not> path_is_absolute folder \<or> \<not> is_folder fs folder
          then restore_error ''RECEIVED_RESTORE_SOURCE_MISSING''
          else
            bnd (item_targets h fs folder item) (\<lambda>found.
            if targets \<noteq> None \<and> targets \<noteq> Some found then restore_error ''RECEIVED_RESTORE_CHAIN_INVALID''
            else check_items h fs (Some (rc_id item)) (sequence + 1)
              (if targets = None then Some found else targets) items))))"

definition validate_chain ::
  "host_env \<Rightarrow> db \<Rightarrow> files \<Rightarrow> string \<Rightarrow> restore_row \<Rightarrow> (received list \<times> string list) result" where
  "validate_chain h d fs node r =
     bnd (received_restore_chain d (rs_point_id r) node) (\<lambda>chain.
     case chain of
       [] \<Rightarrow> restore_error ''RECEIVED_RESTORE_POINT_NOT_FOUND''
     | base # _ \<Rightarrow>
         if rc_kind base \<noteq> ''FULL'' then restore_error ''RECEIVED_RESTORE_BASE_MISSING''
         else
           bnd (check_items h fs None 0 None chain) (\<lambda>targets. case targets of
             None \<Rightarrow> Inl TypeError
           | Some ts \<Rightarrow> Inr (chain, ts)))"

section \<open>The target folder\<close>

definition last_name :: "string \<Rightarrow> string" where
  "last_name p = (if path_names p = [] then [] else last (path_names p))"

definition inside_root :: "string \<Rightarrow> string \<Rightarrow> bool" where
  "inside_root p base \<longleftrightarrow> prefix (path_parts base) (path_parts p)"

definition local_root :: "host_env \<Rightarrow> files \<Rightarrow> storage \<Rightarrow> (string \<times> storage) option" where
  "local_root h fs s =
     (if st_type s \<noteq> LOCAL then None
      else case storage_value s ''backup_data_root'' of
        JStr t \<Rightarrow> let p = path_str t in
          if \<not> path_is_absolute p \<or> \<not> is_folder fs p then None
          else map_option (\<lambda>base. (base, s)) (he_resolve h fs p)
      | _ \<Rightarrow> None)"

text \<open>The nearest ancestor that exists, or the storage root.\<close>

function probe_up :: "files \<Rightarrow> string \<Rightarrow> string list \<Rightarrow> string \<Rightarrow> string" where
  "probe_up fs base names p =
     (if fs p \<noteq> None \<or> p = base \<or> names = [] then p
      else probe_up fs base (butlast names) (path_parent p))"
  by pat_completeness auto
termination by (relation "measure (\<lambda>(fs, base, names, p). length names)") auto

declare probe_up.simps [simp del]

definition escape_check :: "host_env \<Rightarrow> files \<Rightarrow> string \<Rightarrow> string \<Rightarrow> unit result" where
  "escape_check h fs base p =
     (case he_resolve h fs p of
        None \<Rightarrow> restore_error ''RESTORE_TARGET_PARENT_MISSING''
      | Some q \<Rightarrow>
          if \<not> inside_root q base then restore_error ''RESTORE_TARGET_SYMLINK_ESCAPE''
          else if \<not> he_writable h fs q then restore_error ''RESTORE_TARGET_NOT_WRITABLE'' else Inr ())"

definition safe_target :: "host_env \<Rightarrow> string \<Rightarrow> restore_row \<Rightarrow> (string \<times> string \<times> storage) wop" where
  "safe_target h node r =
     (let target = path_str (rs_target_root r) in
      if \<not> path_is_absolute target \<or> target = ''/'' \<or> ''..'' \<in> set (path_parts target)
      then lift (restore_error ''RESTORE_TARGET_INVALID'')
      else reading (\<lambda>w.
        if wo_files w target \<noteq> None then lift (restore_error ''RESTORE_TARGET_EXISTS'')
        else
          andthen (lift (list_storages (wo_db w) node)) (\<lambda>storages.
          let roots = List.map_filter (local_root h (wo_files w)) storages in
          if roots = [] then lift (restore_error ''RESTORE_TARGET_STORAGE_UNAVAILABLE'')
          else case find (\<lambda>(base, s). inside_root target base) roots of
            None \<Rightarrow> lift (restore_error ''RESTORE_TARGET_OUTSIDE_LOCAL_STORAGE'')
          | Some (base, s) \<Rightarrow>
              let up = path_parent target in
              andthen (lift (escape_check h (wo_files w) base
                (probe_up (wo_files w) base (path_names up) up))) (\<lambda>_.
              case he_make_folders h up (wo_files w) of (good, fs) \<Rightarrow>
                andthen (set_files fs) (\<lambda>_.
                if \<not> good then lift (restore_error ''RESTORE_TARGET_CREATE_FAILED'')
                else andthen (lift (escape_check h fs base up)) (\<lambda>_. ret (target, base, s)))))))"

text \<open>\<open>_apply_libvirt_access\<close>: the folders between the target and the storage root, then the tree.\<close>

function folders_between :: "string \<Rightarrow> string list \<Rightarrow> string \<Rightarrow> string list result" where
  "folders_between base names p =
     (if p = base then Inr []
      else if names = [] then restore_error ''RESTORE_TARGET_OUTSIDE_LOCAL_STORAGE''
      else bnd (folders_between base (butlast names) (path_parent p)) (\<lambda>ps. Inr (ps @ [p])))"
  by pat_completeness auto
termination by (relation "measure (\<lambda>(base, names, p). length names)") auto

declare folders_between.simps [simp del]

definition apply_libvirt_access :: "host_env \<Rightarrow> string \<Rightarrow> string \<Rightarrow> storage \<Rightarrow> unit wop" where
  "apply_libvirt_access h target base s =
     (case storage_value s ''backup_data_gid'' of
        JNull \<Rightarrow> lift (restore_error ''RESTORE_TARGET_GROUP_UNAVAILABLE'')
      | gid \<Rightarrow>
          andthen (lift (folders_between base (path_names (path_parent target)) (path_parent target))) (\<lambda>folders.
          andthen (lift (py_int gid)) (\<lambda>g. reading (\<lambda>w.
          if list_all (\<lambda>p. he_grant h (wo_files w) p g) (folders @ target # he_below h (wo_files w) target)
          then ret () else lift (restore_error ''RESTORE_TARGET_PERMISSION_FAILED'')))))"

section \<open>Materializing a disk\<close>

definition disk_name :: "string \<Rightarrow> string" where "disk_name dev = dev @ ''.qcow2''"

definition flat_name :: "string \<Rightarrow> nat \<Rightarrow> string" where
  "flat_name dev k = ''.'' @ dev @ ''.flat'' @ nat_text k @ ''.qcow2''"

definition delta_name :: "string \<Rightarrow> nat \<Rightarrow> string" where
  "delta_name dev k = ''.'' @ dev @ ''.delta'' @ nat_text k @ ''.qcow2''"

definition item_disk :: "string \<Rightarrow> received \<Rightarrow> string result" where
  "item_disk dev item =
     bnd (item_bundle item) (\<lambda>b. Inr (joined (joined b ''disks'') (disk_name dev)))"

definition unlink :: "host_env \<Rightarrow> string \<Rightarrow> unit wop" where
  "unlink h p = reading (\<lambda>w. if wo_files w p = None then ret ()
     else if he_unlink h p (wo_files w) then update (\<lambda>w. w\<lparr>wo_files := (wo_files w)(p := None)\<rparr>)
     else raise OSError)"

definition convert_argv :: "string \<Rightarrow> string \<Rightarrow> string list" where
  "convert_argv source out = [''qemu-img'', ''convert'', ''-f'', ''qcow2'', ''-O'', ''qcow2'', source, out]"

definition copy_argv :: "string \<Rightarrow> string \<Rightarrow> string list" where
  "copy_argv source out = [''cp'', ''--reflink=auto'', ''--sparse=always'', ''--'', source, out]"

definition rebase_argv :: "string \<Rightarrow> string \<Rightarrow> string list" where
  "rebase_argv base_image im =
     [''qemu-img'', ''rebase'', ''-u'', ''-f'', ''qcow2'', ''-F'', ''qcow2'', ''-b'', base_image, im]"

definition check_argv :: "string \<Rightarrow> string list" where
  "check_argv im = [''qemu-img'', ''check'', ''-f'', ''qcow2'', im]"

definition source_disk :: "string \<Rightarrow> received \<Rightarrow> string wop" where
  "source_disk dev item =
     andthen (lift (item_disk dev item)) (\<lambda>p. reading (\<lambda>w.
     if is_regular (wo_files w) p then ret p else lift (restore_error ''RECEIVED_RESTORE_SOURCE_MISSING'')))"

definition apply_delta :: "host_env \<Rightarrow> string \<Rightarrow> string \<Rightarrow> nat \<Rightarrow> received \<Rightarrow> string \<Rightarrow> string wop" where
  "apply_delta h dev disks k item current =
     andthen (source_disk dev item) (\<lambda>source.
     let delta = joined disks (delta_name dev k); flat = joined disks (flat_name dev k) in
     andthen (run_command h (copy_argv source delta)) (\<lambda>_.
     andthen (run_command h (rebase_argv current delta)) (\<lambda>_.
     andthen (run_command h (convert_argv delta flat)) (\<lambda>_.
     andthen (unlink h delta) (\<lambda>_.
     andthen (unlink h current) (\<lambda>_. ret flat))))))"

fun apply_deltas :: "host_env \<Rightarrow> string \<Rightarrow> string \<Rightarrow> nat \<Rightarrow> received list \<Rightarrow> string \<Rightarrow> string wop" where
  "apply_deltas h dev disks k [] current = ret current"
| "apply_deltas h dev disks k (item # items) current =
     andthen (apply_delta h dev disks k item current) (apply_deltas h dev disks (k + 1) items)"

definition replace_file :: "host_env \<Rightarrow> string \<Rightarrow> string \<Rightarrow> unit wop" where
  "replace_file h p q = reading (\<lambda>w. case he_replace h p q (wo_files w) of (good, fs) \<Rightarrow>
     andthen (set_files fs) (\<lambda>_. if good then ret () else raise OSError))"

definition materialize_disk :: "host_env \<Rightarrow> received list \<Rightarrow> string \<Rightarrow> string \<Rightarrow> string wop" where
  "materialize_disk h chain dev staging =
     (let disks = joined staging ''disks''; first = joined disks (flat_name dev 0);
          final = joined disks (disk_name dev) in
      andthen (source_disk dev (hd chain)) (\<lambda>source.
      andthen (run_command h (convert_argv source first)) (\<lambda>_.
      andthen (apply_deltas h dev disks 1 (tl chain) first) (\<lambda>current.
      andthen (replace_file h current final) (\<lambda>_.
      andthen (run_command h (check_argv final)) (\<lambda>_. ret final))))))"

section \<open>The domain\<close>

definition first_kid :: "string \<Rightarrow> xml \<Rightarrow> xml option" where
  "first_kid t x = find (\<lambda>k. tag_of k = t) (kids_of x)"

text \<open>Changing the first child with a tag, and all children with a tag.\<close>

fun change_first :: "string \<Rightarrow> (xml \<Rightarrow> xml) \<Rightarrow> xml list \<Rightarrow> xml list" where
  "change_first t f [] = []"
| "change_first t f (k # ks) = (if tag_of k = t then f k # ks else k # change_first t f ks)"

fun with_kids :: "(xml list \<Rightarrow> xml list) \<Rightarrow> xml \<Rightarrow> xml" where
  "with_kids f (Xml t as s ks) = Xml t as s (f ks)"

fun with_text :: "string \<Rightarrow> xml \<Rightarrow> xml" where
  "with_text u (Xml t as s ks) = Xml t as u ks"

fun with_attrs :: "((string \<times> string) list \<Rightarrow> (string \<times> string) list) \<Rightarrow> xml \<Rightarrow> xml" where
  "with_attrs f (Xml t as s ks) = Xml t (f as) s ks"

definition each_kid :: "string \<Rightarrow> (xml \<Rightarrow> xml result) \<Rightarrow> xml \<Rightarrow> xml result" where
  "each_kid t f x =
     bnd (map_result (\<lambda>k. if tag_of k = t then f k else Inr k) (kids_of x)) (\<lambda>ks. Inr (with_kids (\<lambda>_. ks) x))"

abbreviation devices_of :: "string \<Rightarrow> xml \<Rightarrow> xml list" where
  "devices_of t x \<equiv> filter (\<lambda>k. tag_of k = t)
     (concat (map kids_of (filter (\<lambda>k. tag_of k = ''devices'') (kids_of x))))"

definition disk_dev :: "xml \<Rightarrow> string option" where
  "disk_dev disk = (case first_kid ''target'' disk of None \<Rightarrow> None | Some t \<Rightarrow> map_of (attrs_of t) ''dev'')"

definition is_data_disk :: "xml \<Rightarrow> bool" where
  "is_data_disk disk \<longleftrightarrow> map_of (attrs_of disk) ''device'' = Some ''disk''"

definition rewrite_disk :: "(string \<times> string) list \<Rightarrow> xml \<Rightarrow> xml result" where
  "rewrite_disk paths disk =
     (if \<not> is_data_disk disk then Inr disk
      else case disk_dev disk of
        None \<Rightarrow> restore_error ''RECEIVED_RESTORE_DOMAIN_DISK_MISMATCH''
      | Some dev \<Rightarrow> (case map_of paths dev of
          None \<Rightarrow> restore_error ''RECEIVED_RESTORE_DOMAIN_DISK_MISMATCH''
        | Some p \<Rightarrow>
            if dev = [] \<or> first_kid ''source'' disk = None
            then restore_error ''RECEIVED_RESTORE_DOMAIN_DISK_MISMATCH''
            else Inr (with_kids (change_first ''source'' (with_attrs (\<lambda>_. [(''file'', p)]))) disk)))"

definition link_down :: "xml \<Rightarrow> xml" where
  "link_down x =
     (if first_kid ''link'' x = None
      then with_kids (\<lambda>ks. ks @ [Xml ''link'' [(''state'', ''down'')] [] []]) x
      else with_kids (change_first ''link'' (with_attrs (AList.update ''state'' ''down''))) x)"

definition rewrite_tree :: "restore_row \<Rightarrow> (string \<times> string) list \<Rightarrow> xml \<Rightarrow> xml result" where
  "rewrite_tree r paths x =
     (if first_kid ''name'' x = None \<or> first_kid ''uuid'' x = None
      then restore_error ''RECEIVED_RESTORE_DOMAIN_XML_INVALID''
      else
        let y = with_kids (change_first ''uuid'' (with_text (rs_target_domain_uuid r))
               \<circ> change_first ''name'' (with_text (rs_target_vm_name r))) x in
        bnd (each_kid ''devices'' (each_kid ''disk'' (rewrite_disk paths)) y) (\<lambda>z.
        if set (List.map_filter disk_dev (filter is_data_disk (devices_of ''disk'' z))) \<noteq> set (map fst paths)
        then restore_error ''RECEIVED_RESTORE_DOMAIN_DISK_MISMATCH''
        else each_kid ''devices'' (each_kid ''interface'' (\<lambda>k. Inr (link_down k))) z))"

definition write_file :: "host_env \<Rightarrow> string \<Rightarrow> string \<Rightarrow> unit wop" where
  "write_file h p s = reading (\<lambda>w. if he_write h p (wo_files w)
     then update (\<lambda>w. w\<lparr>wo_files := (wo_files w)(p \<mapsto> Document s)\<rparr>) else raise OSError)"

definition make_folders :: "host_env \<Rightarrow> string \<Rightarrow> unit wop" where
  "make_folders h p = reading (\<lambda>w. case he_make_folders h p (wo_files w) of (good, fs) \<Rightarrow>
     andthen (set_files fs) (\<lambda>_. if good then ret () else raise OSError))"

definition rewrite_domain :: "host_env \<Rightarrow> string \<Rightarrow> restore_row \<Rightarrow> (string \<times> string) list \<Rightarrow> string \<Rightarrow> unit wop" where
  "rewrite_domain h source r paths out =
     reading (\<lambda>w. case (case wo_files w source of Some (Document s) \<Rightarrow> he_parse_xml h s | _ \<Rightarrow> None) of
       None \<Rightarrow> lift (restore_error ''RECEIVED_RESTORE_DOMAIN_XML_INVALID'')
     | Some x \<Rightarrow>
         andthen (lift (rewrite_tree r paths x)) (\<lambda>y.
         andthen (make_folders h (path_parent out)) (\<lambda>_.
         write_file h out (he_xml_text h y @ [CHR 0x0A]))))"

section \<open>Advancing an operation\<close>

definition restore_terminal :: "string list" where
  "restore_terminal = [''SUCCESS'', ''FAILED'', ''RECOVERY_REQUIRED'']"

definition unsafe_states :: "string list" where
  "unsafe_states = [''MATERIALIZING'', ''DEFINING'', ''STARTING'']"

definition fetch_operation :: "text_env \<Rightarrow> string \<Rightarrow> restore_row wop" where
  "fetch_operation te i = reading (\<lambda>w. andthen (lift (get_restore_operation te (wo_db w) i)) (\<lambda>found.
     case found of None \<Rightarrow> raise OtherException | Some r \<Rightarrow> ret r))"

definition move_operation ::
  "text_env \<Rightarrow> host_env \<Rightarrow> string \<Rightarrow> string \<Rightarrow> string \<Rightarrow> string option \<Rightarrow> restore_row wop" where
  "move_operation te h i expected new_state err =
     andthen (reading (\<lambda>w. in_store (transition_received_restore te i expected new_state (he_now h (wo_db w)) err)))
       (\<lambda>found. case found of None \<Rightarrow> raise OtherException | Some r \<Rightarrow> ret r)"

fun map_op :: "('a \<Rightarrow> ('s, 'b) op) \<Rightarrow> 'a list \<Rightarrow> ('s, 'b list) op" where
  "map_op f [] = ret []"
| "map_op f (x # xs) = andthen (f x) (\<lambda>y. andthen (map_op f xs) (\<lambda>ys. ret (y # ys)))"

definition catching :: "('s, 'a) op \<Rightarrow> (exn \<Rightarrow> ('s, 'a) op) \<Rightarrow> ('s, 'a) op" where
  "catching m f = (\<lambda>s. case m s of (Inl e, s') \<Rightarrow> f e s' | (Inr x, s') \<Rightarrow> (Inr x, s'))"

definition staging_of :: "string \<Rightarrow> string \<Rightarrow> string" where
  "staging_of target i = joined (path_parent target) (''.'' @ last_name target @ ''.vmbackupd-'' @ i)"

definition copy_file :: "host_env \<Rightarrow> string \<Rightarrow> string \<Rightarrow> unit wop" where
  "copy_file h source out = reading (\<lambda>w. case wo_files w source of
     Some (Document s) \<Rightarrow> write_file h out s | _ \<Rightarrow> raise OSError)"

definition build_staging :: "host_env \<Rightarrow> restore_row \<Rightarrow> received list \<Rightarrow> string list \<Rightarrow> string \<Rightarrow> string \<Rightarrow> unit wop" where
  "build_staging h r chain devs target staging =
     andthen (make_folders h (joined staging ''disks'')) (\<lambda>_.
     andthen (map_op (\<lambda>dev. materialize_disk h chain dev staging) devs) (\<lambda>_.
     andthen (lift (item_bundle (last chain))) (\<lambda>latest.
     let source = joined (joined latest ''metadata'') ''domain.xml'';
         meta = joined staging ''metadata'';
         paths = map (\<lambda>dev. (dev, joined (joined target ''disks'') (disk_name dev))) devs in
     andthen (rewrite_domain h source r paths (joined meta ''restored-domain.xml'')) (\<lambda>_.
     andthen (copy_file h source (joined meta ''source-domain.xml'')) (\<lambda>_.
     write_file h (joined meta ''restore-source.json'')
       (he_source_note h (rs_point_id r) (map rc_id chain) @ [CHR 0x0A]))))))"

definition verify_stage :: "text_env \<Rightarrow> host_env \<Rightarrow> string \<Rightarrow> restore_row \<Rightarrow> restore_row wop" where
  "verify_stage te h node r = reading (\<lambda>w.
     andthen (lift (validate_chain h (wo_db w) (wo_files w) node r)) (\<lambda>(chain, devs).
     andthen (safe_target h node r) (\<lambda>(target, base, s).
     reading (\<lambda>w.
     if rs_target_vm_name r \<in> set (map fst (wo_domains w)) then lift (restore_error ''RESTORE_DOMAIN_NAME_EXISTS'')
     else
       andthen (move_operation te h (rs_id r) ''VERIFYING'' ''MATERIALIZING'' None) (\<lambda>r.
       let staging = staging_of target (rs_id r) in
       reading (\<lambda>w.
       if wo_files w staging \<noteq> None then lift (restore_error ''RESTORE_STAGING_EXISTS'')
       else
         andthen (build_staging h r chain devs target staging) (\<lambda>_.
         andthen (replace_file h staging target) (\<lambda>_.
         andthen (apply_libvirt_access h target base s) (\<lambda>_.
         move_operation te h (rs_id r) ''MATERIALIZING'' ''DEFINING'' None)))))))))"

definition define_stage :: "text_env \<Rightarrow> host_env \<Rightarrow> string \<Rightarrow> restore_row \<Rightarrow> restore_row wop" where
  "define_stage te h node r =
     (let target = path_str (rs_target_root r) in reading (\<lambda>w.
      andthen (lift (he_define h (joined (joined target ''metadata'') ''restored-domain.xml'') (wo_files w)
          (wo_domains w))) (\<lambda>domains.
      andthen (update (\<lambda>w. w\<lparr>wo_domains := domains\<rparr>)) (\<lambda>_.
      if rs_target_vm_name r \<notin> set (map fst domains) then lift (restore_error ''RESTORE_LIBVIRT_DEFINE_UNVERIFIED'')
      else if map_of domains (rs_target_vm_name r) \<noteq> Some (rs_target_domain_uuid r)
      then lift (restore_error ''RESTORE_LIBVIRT_DEFINE_UNVERIFIED'')
      else
        andthen (reading (\<lambda>w. in_store (register_vm (he_new_id h (wo_db w)) node (rs_target_vm_name r)
            (rs_target_vm_name r) (rs_target_domain_uuid r)))) (\<lambda>_.
        move_operation te h (rs_id r) ''DEFINING'' ''READY'' None)))))"

definition ready_stage :: "text_env \<Rightarrow> host_env \<Rightarrow> restore_row \<Rightarrow> restore_row wop" where
  "ready_stage te h r =
     (if rs_start_after_restore r then
        andthen (move_operation te h (rs_id r) ''READY'' ''STARTING'' None) (\<lambda>r. reading (\<lambda>w.
        andthen (lift (he_start h (rs_target_vm_name r) (wo_domains w))) (\<lambda>domains.
        andthen (update (\<lambda>w. w\<lparr>wo_domains := domains\<rparr>)) (\<lambda>_.
        move_operation te h (rs_id r) ''STARTING'' ''SUCCESS'' None))))
      else move_operation te h (rs_id r) ''READY'' ''SUCCESS'' None)"

definition stage :: "string \<Rightarrow> (restore_row \<Rightarrow> restore_row wop) \<Rightarrow> restore_row \<Rightarrow> restore_row wop" where
  "stage name f r = (if rs_state r = name then f r else ret r)"

definition advance_stages :: "text_env \<Rightarrow> host_env \<Rightarrow> string \<Rightarrow> restore_row \<Rightarrow> restore_row wop" where
  "advance_stages te h node r =
     andthen (stage ''PLANNED'' (\<lambda>r. move_operation te h (rs_id r) ''PLANNED'' ''VERIFYING'' None) r) (\<lambda>r.
     andthen (stage ''VERIFYING'' (verify_stage te h node) r) (\<lambda>r.
     andthen (stage ''DEFINING'' (define_stage te h node) r) (\<lambda>r.
     stage ''READY'' (ready_stage te h) r)))"

definition fail_operation :: "text_env \<Rightarrow> host_env \<Rightarrow> string \<Rightarrow> exn \<Rightarrow> restore_row wop" where
  "fail_operation te h i e =
     andthen (fetch_operation te i) (\<lambda>r.
     move_operation te h (rs_id r) (rs_state r) ''FAILED'' (Some (he_error_text h e)))"

definition advance :: "text_env \<Rightarrow> host_env \<Rightarrow> string \<Rightarrow> string \<Rightarrow> restore_row wop" where
  "advance te h node i =
     andthen (fetch_operation te i) (\<lambda>r.
     if rs_state r \<in> set restore_terminal then ret r
     else catching (advance_stages te h node r) (fail_operation te h i))"

definition tick_restores :: "text_env \<Rightarrow> host_env \<Rightarrow> string \<Rightarrow> bool \<Rightarrow> restore_row list wop" where
  "tick_restores te h node allow_mutation =
     (if \<not> allow_mutation then ret []
      else reading (\<lambda>w.
        andthen (lift (list_received_restore_operations te (wo_db w) node)) (\<lambda>rs.
        map_op (\<lambda>r. advance te h node (rs_id r)) (filter (\<lambda>r. rs_state r \<notin> set restore_terminal) rs))))"

definition recover_startup :: "text_env \<Rightarrow> host_env \<Rightarrow> string \<Rightarrow> restore_row list wop" where
  "recover_startup te h node = reading (\<lambda>w.
     andthen (lift (list_received_restore_operations te (wo_db w) node)) (\<lambda>rs.
     map_op (\<lambda>r. move_operation te h (rs_id r) (rs_state r) ''FAILED''
         (Some ''RECEIVED_RESTORE_INTERRUPTED: restore interrupted by daemon restart; staging preserved''))
       (filter (\<lambda>r. rs_state r \<in> set unsafe_states) rs)))"

end
