(* ===== verification/ReceivedRestoreProps.thy ===== *)
theory ReceivedRestoreProps
  imports ReceivedRestore
begin

text \<open>
  What a restore of a received replica guarantees: the disk it builds is the chain's FULL image
  with the increments applied in order, the domain it defines uses only those disks and has its
  links down, and an operation that is advanced reaches a final state.
\<close>

section \<open>Images\<close>

definition over :: "layer \<Rightarrow> layer \<Rightarrow> layer" where
  "over l m = (\<lambda>i. case l i of None \<Rightarrow> m i | Some x \<Rightarrow> Some x)"

definition reads :: "layer \<Rightarrow> nat \<Rightarrow> 8 word" where
  "reads l i = (case l i of None \<Rightarrow> 0 | Some x \<Rightarrow> x)"

lemma reads_over: "reads (over l m) i = (case l i of None \<Rightarrow> reads m i | Some x \<Rightarrow> x)"
  by (simp add: over_def reads_def split: option.split)

text \<open>What an image shows: its own clusters over those of a backing file that has none itself.\<close>

definition shown :: "files \<Rightarrow> string \<Rightarrow> layer option" where
  "shown fs p =
     (case fs p of
        Some (Image l None) \<Rightarrow> Some l
      | Some (Image l (Some b)) \<Rightarrow> (case fs b of Some (Image m None) \<Rightarrow> Some (over l m) | _ \<Rightarrow> None)
      | _ \<Rightarrow> None)"

text \<open>What the commands do when they succeed: see \<open>qemu-img(1)\<close>, \<open>cp(1)\<close> and \<open>rename(2)\<close>.\<close>

definition commands_ok :: "host_env \<Rightarrow> bool" where
  "commands_ok h \<longleftrightarrow>
     (\<forall>a b fs fs'. he_run h (convert_argv a b) fs = (True, fs') \<longrightarrow>
        (\<exists>l m. shown fs a = Some l \<and> fs' = fs(b \<mapsto> Image m None) \<and> reads m = reads l)) \<and>
     (\<forall>a b fs fs'. he_run h (copy_argv a b) fs = (True, fs') \<longrightarrow> fs' = fs(b := fs a)) \<and>
     (\<forall>a b fs fs'. he_run h (rebase_argv a b) fs = (True, fs') \<longrightarrow>
        (\<exists>l below. fs b = Some (Image l below) \<and> fs' = fs(b \<mapsto> Image l (Some a)))) \<and>
     (\<forall>a fs fs'. he_run h (check_argv a) fs = (True, fs') \<longrightarrow> fs' = fs) \<and>
     (\<forall>a b fs fs'. he_replace h a b fs = (True, fs') \<longrightarrow> fs a \<noteq> Some Folder \<longrightarrow> fs' = fs(a := None, b := fs a))"

lemma commands_okD:
  assumes "commands_ok h"
  shows "he_run h (convert_argv a b) fs = (True, fs') \<Longrightarrow>
      \<exists>l m. shown fs a = Some l \<and> fs' = fs(b \<mapsto> Image m None) \<and> reads m = reads l"
    and "he_run h (copy_argv a b) fs = (True, fs') \<Longrightarrow> fs' = fs(b := fs a)"
    and "he_run h (rebase_argv a b) fs = (True, fs') \<Longrightarrow>
      \<exists>l below. fs b = Some (Image l below) \<and> fs' = fs(b \<mapsto> Image l (Some a))"
    and "he_run h (check_argv a) fs = (True, fs') \<Longrightarrow> fs' = fs"
    and "he_replace h a b fs = (True, fs') \<Longrightarrow> fs a \<noteq> Some Folder \<Longrightarrow> fs' = fs(a := None, b := fs a)"
  using assms unfolding commands_ok_def by simp_all

text \<open>The disk a chain describes.\<close>

definition own_layer :: "files \<Rightarrow> string \<Rightarrow> received \<Rightarrow> layer option" where
  "own_layer fs dev item =
     (case item_disk dev item of
        Inr p \<Rightarrow> (case fs p of Some (Image l _) \<Rightarrow> Some l | _ \<Rightarrow> None) | Inl _ \<Rightarrow> None)"

definition base_layer :: "files \<Rightarrow> string \<Rightarrow> received \<Rightarrow> layer option" where
  "base_layer fs dev item = (case item_disk dev item of Inr p \<Rightarrow> shown fs p | Inl _ \<Rightarrow> None)"

fun stacked :: "files \<Rightarrow> string \<Rightarrow> layer \<Rightarrow> received list \<Rightarrow> layer option" where
  "stacked fs dev m [] = Some m"
| "stacked fs dev m (item # items) =
     (case own_layer fs dev item of None \<Rightarrow> None | Some l \<Rightarrow> stacked fs dev (over l m) items)"

definition chain_disk :: "files \<Rightarrow> string \<Rightarrow> received list \<Rightarrow> layer option" where
  "chain_disk fs dev chain =
     (case base_layer fs dev (hd chain) of None \<Rightarrow> None | Some m \<Rightarrow> stacked fs dev m (tl chain))"

text \<open>Files that lie outside a folder are the same in both states.\<close>

definition same_outside :: "string \<Rightarrow> files \<Rightarrow> files \<Rightarrow> bool" where
  "same_outside dir fs fs' \<longleftrightarrow> (\<forall>p. \<not> prefix (dir @ ''/'') p \<longrightarrow> fs' p = fs p)"

lemma same_outside_refl [simp]: "same_outside dir fs fs"
  by (simp add: same_outside_def)

lemma same_outside_trans: "same_outside dir fs fs' \<Longrightarrow> same_outside dir fs' fs'' \<Longrightarrow> same_outside dir fs fs''"
  by (simp add: same_outside_def)

lemma same_outside_upd: "same_outside dir fs fs' \<Longrightarrow> same_outside dir fs (fs'(dir @ CHR ''/'' # x := v))"
  by (simp add: same_outside_def)

definition sources_outside :: "string \<Rightarrow> string \<Rightarrow> received list \<Rightarrow> bool" where
  "sources_outside dir dev items \<longleftrightarrow>
     (\<forall>item \<in> set items. \<forall>p. item_disk dev item = Inr p \<longrightarrow> \<not> prefix (dir @ ''/'') p)"

lemma sources_outside_code [code]:
  "sources_outside dir dev items \<longleftrightarrow> list_all (\<lambda>item. case item_disk dev item of
     Inr p \<Rightarrow> \<not> prefix (dir @ ''/'') p | Inl _ \<Rightarrow> True) items"
  by (auto simp: sources_outside_def list_all_iff split: sum.split)

lemma own_layer_same:
  "same_outside dir fs fs' \<Longrightarrow> sources_outside dir dev [item] \<Longrightarrow> own_layer fs' dev item = own_layer fs dev item"
  by (auto simp: own_layer_def same_outside_def sources_outside_def split: sum.split)

lemma stacked_same:
  "same_outside dir fs fs' \<Longrightarrow> sources_outside dir dev items \<Longrightarrow> stacked fs' dev m items = stacked fs dev m items"
proof (induction items arbitrary: m)
  case (Cons item items)
  have "own_layer fs' dev item = own_layer fs dev item"
    by (rule own_layer_same [OF Cons.prems(1)]) (use Cons.prems(2) in \<open>simp add: sources_outside_def\<close>)
  moreover have "sources_outside dir dev items" using Cons.prems(2) by (simp add: sources_outside_def)
  ultimately show ?case using Cons.IH Cons.prems(1) by (simp split: option.split)
qed simp

lemma stacked_reads:
  assumes "reads m = reads m'" and "stacked fs dev m items = Some l"
  shows "\<exists>l'. stacked fs dev m' items = Some l' \<and> reads l' = reads l"
  using assms
proof (induction items arbitrary: m m')
  case (Cons item items)
  then obtain k where k: "own_layer fs dev item = Some k" "stacked fs dev (over k m) items = Some l"
    by (auto split: option.splits)
  have "reads (over k m) = reads (over k m')" using Cons.prems(1) by (simp add: reads_over fun_eq_iff split: option.split)
  from Cons.IH [OF this k(2)] k(1) show ?case by simp
qed auto

section \<open>Materializing\<close>

lemma set_files_run: "set_files fs w = (Inr (), w\<lparr>wo_files := fs\<rparr>)"
  by (simp add: set_files_def update_def)

lemma run_command_Inr:
  "run_command h argv w = (Inr u, w') \<longleftrightarrow>
     (\<exists>fs. he_run h argv (wo_files w) = (True, fs) \<and> w' = w\<lparr>wo_files := fs\<rparr>)"
  by (auto simp: run_command_def op_Inr andthen_Inr set_files_run split: prod.splits if_splits)

lemma source_disk_Inr:
  "source_disk dev item w = (Inr p, w') \<longleftrightarrow> item_disk dev item = Inr p \<and> is_regular (wo_files w) p \<and> w' = w"
  by (auto simp: source_disk_def op_Inr andthen_Inr split: if_splits)

lemma unlink_Inr: "unlink h p w = (Inr u, w') \<Longrightarrow> w' = w\<lparr>wo_files := (wo_files w)(p := None)\<rparr>"
  by (auto simp: unlink_def op_Inr fun_upd_idem split: if_splits)

lemma replace_file_Inr:
  "replace_file h p q w = (Inr u, w') \<longleftrightarrow>
     (\<exists>fs. he_replace h p q (wo_files w) = (True, fs) \<and> w' = w\<lparr>wo_files := fs\<rparr>)"
  by (auto simp: replace_file_def op_Inr andthen_Inr set_files_run split: prod.splits if_splits)

lemma joined_disks:
  "joined (joined staging ''disks'') x = joined staging ''disks'' @ CHR ''/'' # x"
  by (simp add: joined_def suffix_def)

lemma names_distinct [simp]:
  "flat_name dev k \<noteq> delta_name dev j" "delta_name dev j \<noteq> flat_name dev k"
  "flat_name dev k = flat_name dev j \<longleftrightarrow> k = j" "flat_name dev k \<noteq> disk_name dev"
proof -
  show "flat_name dev k \<noteq> delta_name dev j" "delta_name dev j \<noteq> flat_name dev k"
    by (simp_all add: flat_name_def delta_name_def)
  show "flat_name dev k = flat_name dev j \<longleftrightarrow> k = j"
    by (simp add: flat_name_def nat_text_inject)
  have "length (disk_name dev) < length (flat_name dev k)" by (simp add: flat_name_def disk_name_def)
  then show "flat_name dev k \<noteq> disk_name dev" by force
qed

lemma apply_delta_spec:
  assumes ok: "commands_ok h" and disks: "disks = joined staging ''disks''"
    and out: "sources_outside disks dev [item]"
    and run: "apply_delta h dev disks (Suc k) item (joined disks (flat_name dev k)) w = (Inr p, w')"
    and cur: "wo_files w (joined disks (flat_name dev k)) = Some (Image m None)"
  shows "\<exists>l m'. own_layer (wo_files w) dev item = Some l \<and> p = joined disks (flat_name dev (Suc k)) \<and>
    wo_files w' p = Some (Image m' None) \<and> reads m' = reads (over l m) \<and>
    same_outside disks (wo_files w) (wo_files w') \<and> wo_db w' = wo_db w"
proof -
  have join: "joined disks x = disks @ CHR ''/'' # x" for x unfolding disks by (rule joined_disks)
  let ?cur = "joined disks (flat_name dev k)" and ?flat = "joined disks (flat_name dev (Suc k))"
    and ?delta = "joined disks (delta_name dev (Suc k))"
  from run obtain source fs1 fs2 fs3 w4 where
    s: "item_disk dev item = Inr source" "is_regular (wo_files w) source" and
    c1: "he_run h (copy_argv source ?delta) (wo_files w) = (True, fs1)" and
    c2: "he_run h (rebase_argv ?cur ?delta) fs1 = (True, fs2)" and
    c3: "he_run h (convert_argv ?delta ?flat) fs2 = (True, fs3)" and
    u: "unlink h ?delta (w\<lparr>wo_files := fs3\<rparr>) = (Inr (), w4)" "unlink h ?cur w4 = (Inr (), w')" and p: "p = ?flat"
    unfolding apply_delta_def andthen_Inr source_disk_Inr run_command_Inr op_Inr Let_def
    by clarsimp
  have fs1: "fs1 = (wo_files w)(?delta := wo_files w source)"
    using commands_okD(2) [OF ok c1] .
  obtain l below where l: "fs1 ?delta = Some (Image l below)" and fs2: "fs2 = fs1(?delta \<mapsto> Image l (Some ?cur))"
    using commands_okD(3) [OF ok c2] by blast
  obtain s' m' where m': "shown fs2 ?delta = Some s'" "fs3 = fs2(?flat \<mapsto> Image m' None)" "reads m' = reads s'"
    using commands_okD(1) [OF ok c3] by blast
  have own: "own_layer (wo_files w) dev item = Some l" using l s by (simp add: own_layer_def fs1)
  have "fs2 ?cur = Some (Image m None)" using cur by (simp add: fs2 fs1 join)
  then have "s' = over l m" using m'(1) by (simp add: shown_def fs2)
  moreover have w': "wo_files w' = fs3(?delta := None, ?cur := None)" "wo_db w' = wo_db w"
    using unlink_Inr [OF u(1)] unlink_Inr [OF u(2)] by simp_all
  moreover have "wo_files w' ?flat = Some (Image m' None)" unfolding w' by (simp add: m'(2) join)
  moreover have "same_outside disks (wo_files w) (wo_files w')"
    unfolding w' m'(2) fs2 fs1 join by (intro same_outside_upd same_outside_refl)
  ultimately show ?thesis using own m'(3) p by auto
qed

lemma apply_deltas_spec:
  assumes "commands_ok h" and "disks = joined staging ''disks''" and "sources_outside disks dev items"
    and "apply_deltas h dev disks (Suc k) items (joined disks (flat_name dev k)) w = (Inr p, w')"
    and "wo_files w (joined disks (flat_name dev k)) = Some (Image m None)"
  shows "\<exists>l m' j. stacked (wo_files w) dev m items = Some l \<and> p = joined disks (flat_name dev j) \<and>
    wo_files w' p = Some (Image m' None) \<and> reads m' = reads l \<and>
    same_outside disks (wo_files w) (wo_files w') \<and> wo_db w' = wo_db w"
  using assms(3-)
proof (induction items arbitrary: k m w)
  case (Cons item items)
  from Cons.prems(2) obtain q w1 where
    one: "apply_delta h dev disks (Suc k) item (joined disks (flat_name dev k)) w = (Inr q, w1)" and
    rest: "apply_deltas h dev disks (Suc (Suc k)) items q w1 = (Inr p, w')"
    by (auto simp: andthen_Inr)
  have out: "sources_outside disks dev [item]" "sources_outside disks dev items"
    using Cons.prems(1) by (auto simp: sources_outside_def)
  from apply_delta_spec [OF assms(1,2) out(1) one Cons.prems(3)] obtain l m1 where
    l: "own_layer (wo_files w) dev item = Some l" "q = joined disks (flat_name dev (Suc k))"
      "wo_files w1 q = Some (Image m1 None)" "reads m1 = reads (over l m)"
      "same_outside disks (wo_files w) (wo_files w1)" "wo_db w1 = wo_db w" by blast
  from Cons.IH [OF out(2) rest [unfolded l(2)] l(3) [unfolded l(2)]] obtain l' m' j where
    m': "stacked (wo_files w1) dev m1 items = Some l'" "p = joined disks (flat_name dev j)"
      "wo_files w' p = Some (Image m' None)" "reads m' = reads l'"
      "same_outside disks (wo_files w1) (wo_files w')" "wo_db w' = wo_db w1" by blast
  have "stacked (wo_files w) dev m1 items = Some l'"
    using m'(1) stacked_same [OF l(5) out(2)] by simp
  from stacked_reads [OF l(4) this] obtain l'' where "stacked (wo_files w) dev (over l m) items = Some l''"
    "reads l'' = reads l'" by blast
  with l(1,6) m' same_outside_trans [OF l(5) m'(5)] show ?case by auto
qed (auto simp: op_Inr)

lemma materialize_spec:
  assumes ok: "commands_ok h" and ne: "chain \<noteq> []" and disks: "disks = joined staging ''disks''"
    and out: "sources_outside disks dev chain" and run: "materialize_disk h chain dev staging w = (Inr p, w')"
  shows "\<exists>l m. chain_disk (wo_files w) dev chain = Some l \<and> p = joined disks (disk_name dev) \<and>
    wo_files w' p = Some (Image m None) \<and> reads m = reads l \<and>
    same_outside disks (wo_files w) (wo_files w') \<and> wo_db w' = wo_db w"
proof -
  have join: "joined disks x = disks @ CHR ''/'' # x" for x unfolding disks by (rule joined_disks)
  let ?first = "joined disks (flat_name dev 0)" and ?final = "joined disks (disk_name dev)"
  from run obtain source fs1 cur w2 fs3 fs4 where
    s: "item_disk dev (hd chain) = Inr source" and
    c1: "he_run h (convert_argv source ?first) (wo_files w) = (True, fs1)" and
    ds: "apply_deltas h dev disks (Suc 0) (tl chain) ?first (w\<lparr>wo_files := fs1\<rparr>) = (Inr cur, w2)" and
    r: "he_replace h cur ?final (wo_files w2) = (True, fs3)" and
    c: "he_run h (check_argv ?final) fs3 = (True, fs4)" and w': "w' = w2\<lparr>wo_files := fs4\<rparr>" and p: "p = ?final"
    unfolding materialize_disk_def andthen_Inr source_disk_Inr run_command_Inr replace_file_Inr op_Inr Let_def disks
    by clarsimp
  obtain base m1 where m1: "shown (wo_files w) source = Some base" "fs1 = (wo_files w)(?first \<mapsto> Image m1 None)"
    "reads m1 = reads base" using commands_okD(1) [OF ok c1] by blast
  have tl: "sources_outside disks dev (tl chain)" using out ne by (cases chain) (auto simp: sources_outside_def)
  have same1: "same_outside disks (wo_files w) fs1" unfolding m1(2) join by (intro same_outside_upd same_outside_refl)
  from apply_deltas_spec [OF ok disks tl ds, of m1] obtain l m2 j where
    m2: "stacked fs1 dev m1 (tl chain) = Some l" "cur = joined disks (flat_name dev j)"
      "wo_files w2 cur = Some (Image m2 None)" "reads m2 = reads l" "same_outside disks fs1 (wo_files w2)"
      "wo_db w2 = wo_db w"
    by (auto simp: m1(2))
  have "stacked (wo_files w) dev m1 (tl chain) = Some l" using m2(1) stacked_same [OF same1 tl] by simp
  from stacked_reads [OF m1(3) this] obtain l' where
    l': "stacked (wo_files w) dev base (tl chain) = Some l'" "reads l' = reads l" by blast
  have fs3: "fs3 = (wo_files w2)(cur := None, ?final := wo_files w2 cur)"
    using commands_okD(5) [OF ok r] m2(3) by simp
  have "fs4 = fs3" by (rule commands_okD(4) [OF ok c])
  then have "wo_files w' = (wo_files w2)(cur := None, ?final := wo_files w2 cur)" by (simp add: w' fs3)
  moreover have "same_outside disks (wo_files w) (wo_files w2)" by (rule same_outside_trans [OF same1 m2(5)])
  ultimately have "wo_files w' p = Some (Image m2 None)" "same_outside disks (wo_files w) (wo_files w')"
    by (simp_all add: p m2(2) join same_outside_upd m2(3) [unfolded m2(2) join])
  moreover have "chain_disk (wo_files w) dev chain = Some l'" using s m1(1) l'(1) by (simp add: chain_disk_def base_layer_def)
  moreover have "wo_db w' = wo_db w" by (simp add: w' m2(6))
  ultimately show ?thesis using m2(4) l'(2) p by auto
qed

section \<open>The domain\<close>

lemma kids_simps [simp]:
  "kids_of (with_kids f x) = f (kids_of x)" "tag_of (with_kids f x) = tag_of x"
  "attrs_of (with_kids f x) = attrs_of x" "text_in (with_kids f x) = text_in x"
  "kids_of (with_text u x) = kids_of x" "tag_of (with_text u x) = tag_of x" "text_in (with_text u x) = u"
  "kids_of (with_attrs g x) = kids_of x" "tag_of (with_attrs g x) = tag_of x"
  "attrs_of (with_attrs g x) = g (attrs_of x)"
  by (cases x, simp)+

definition same_tag :: "(xml \<Rightarrow> xml) \<Rightarrow> bool" where "same_tag f \<longleftrightarrow> (\<forall>k. tag_of (f k) = tag_of k)"

lemma find_change_first:
  "same_tag f \<Longrightarrow> find (\<lambda>k. tag_of k = u) (change_first t f ks) =
     (if u = t then map_option f (find (\<lambda>k. tag_of k = t) ks) else find (\<lambda>k. tag_of k = u) ks)"
  by (induction ks) (auto simp: same_tag_def)

lemma filter_change_first:
  "same_tag f \<Longrightarrow> u \<noteq> t \<Longrightarrow> filter (\<lambda>k. tag_of k = u) (change_first t f ks) = filter (\<lambda>k. tag_of k = u) ks"
  by (induction ks) (auto simp: same_tag_def)

lemma same_tag_simps [simp]: "same_tag (with_kids f)" "same_tag (with_text u)" "same_tag (with_attrs g)"
  by (simp_all add: same_tag_def)

definition tag_kept :: "string \<Rightarrow> (xml \<Rightarrow> xml result) \<Rightarrow> bool" where
  "tag_kept t f \<longleftrightarrow> (\<forall>k k'. tag_of k = t \<longrightarrow> f k = Inr k' \<longrightarrow> tag_of k' = t)"

text \<open>What a pass over the children with one tag leaves: each of them rewritten, the others as they were.\<close>

lemma each_kid_Inr:
  assumes "each_kid t f x = Inr y" and "tag_kept t f"
  shows "tag_of y = tag_of x" "attrs_of y = attrs_of x"
    and "list_all2 (\<lambda>k k'. f k = Inr k') (filter (\<lambda>k. tag_of k = t) (kids_of x)) (filter (\<lambda>k. tag_of k = t) (kids_of y))"
    and "u \<noteq> t \<Longrightarrow> filter (\<lambda>k. tag_of k = u) (kids_of y) = filter (\<lambda>k. tag_of k = u) (kids_of x)"
    and "u \<noteq> t \<Longrightarrow> first_kid u y = first_kid u x"
proof -
  from assms(1) obtain ks where ks: "map_result (\<lambda>k. if tag_of k = t then f k else Inr k) (kids_of x) = Inr ks"
    and y: "y = with_kids (\<lambda>_. ks) x" by (auto simp: each_kid_def bnd_eq_Inr)
  show "tag_of y = tag_of x" "attrs_of y = attrs_of x" by (simp_all add: y)
  have all: "list_all2 (\<lambda>k k'. (if tag_of k = t then f k else Inr k) = Inr k') (kids_of x) ks"
    using ks by (simp add: map_result_Inr)
  have "list_all2 (\<lambda>k k'. f k = Inr k') (filter (\<lambda>k. tag_of k = t) xs) (filter (\<lambda>k. tag_of k = t) ks) \<and>
      (u \<noteq> t \<longrightarrow> filter (\<lambda>k. tag_of k = u) ks = filter (\<lambda>k. tag_of k = u) xs \<and>
        find (\<lambda>k. tag_of k = u) ks = find (\<lambda>k. tag_of k = u) xs)"
    if "list_all2 (\<lambda>k k'. (if tag_of k = t then f k else Inr k) = Inr k') xs ks" for xs ks u
    using that by (induction rule: list_all2_induct) (use assms(2) in \<open>auto simp: tag_kept_def split: if_splits\<close>)
  from this [OF all] show
    "list_all2 (\<lambda>k k'. f k = Inr k') (filter (\<lambda>k. tag_of k = t) (kids_of x)) (filter (\<lambda>k. tag_of k = t) (kids_of y))"
    "u \<noteq> t \<Longrightarrow> filter (\<lambda>k. tag_of k = u) (kids_of y) = filter (\<lambda>k. tag_of k = u) (kids_of x)"
    "u \<noteq> t \<Longrightarrow> first_kid u y = first_kid u x"
    by (simp_all add: y first_kid_def)
qed

definition good_disk :: "(string \<times> string) list \<Rightarrow> xml \<Rightarrow> bool" where
  "good_disk paths disk \<longleftrightarrow> (\<exists>dev p src. disk_dev disk = Some dev \<and> map_of paths dev = Some p \<and>
     first_kid ''source'' disk = Some src \<and> attrs_of src = [(''file'', p)])"

definition link_is_down :: "xml \<Rightarrow> bool" where
  "link_is_down x \<longleftrightarrow> (\<exists>l. first_kid ''link'' x = Some l \<and> map_of (attrs_of l) ''state'' = Some ''down'')"

lemma rewrite_disk_Inr:
  assumes "rewrite_disk paths disk = Inr disk'"
  shows "tag_of disk' = tag_of disk" "is_data_disk disk' \<Longrightarrow> good_disk paths disk'"
  using assms
  by (auto simp: rewrite_disk_def is_data_disk_def good_disk_def disk_dev_def first_kid_def find_change_first
      split: if_splits option.splits)

lemma find_append: "find P (xs @ ys) = (case find P xs of None \<Rightarrow> find P ys | Some x \<Rightarrow> Some x)"
  by (induction xs) auto

lemma link_down_Inr: "tag_of (link_down x) = tag_of x" "link_is_down (link_down x)"
  by (auto simp: link_down_def link_is_down_def first_kid_def find_change_first find_append update_conv'
      split: option.splits)

text \<open>A pass over the devices of one kind.\<close>

lemma each_device_Inr:
  assumes "each_kid ''devices'' (each_kid t f) x = Inr y" and "tag_kept t f"
  shows "list_all2 (\<lambda>k k'. f k = Inr k') (devices_of t x) (devices_of t y)"
    and "u \<noteq> t \<Longrightarrow> devices_of u y = devices_of u x" and "u \<noteq> ''devices'' \<Longrightarrow> first_kid u y = first_kid u x"
proof -
  have tag: "tag_kept ''devices'' (each_kid t f)"
    using each_kid_Inr(1) [OF _ assms(2)] by (auto simp: tag_kept_def)
  show "u \<noteq> ''devices'' \<Longrightarrow> first_kid u y = first_kid u x" by (rule each_kid_Inr(5) [OF assms(1) tag])
  have all: "list_all2 (\<lambda>k k'. each_kid t f k = Inr k') (filter (\<lambda>k. tag_of k = ''devices'') (kids_of x))
      (filter (\<lambda>k. tag_of k = ''devices'') (kids_of y))" by (rule each_kid_Inr(3) [OF assms(1) tag])
  have "list_all2 (\<lambda>k k'. f k = Inr k') (filter (\<lambda>k. tag_of k = t) (concat (map kids_of ds)))
        (filter (\<lambda>k. tag_of k = t) (concat (map kids_of ds'))) \<and>
      (u \<noteq> t \<longrightarrow> filter (\<lambda>k. tag_of k = u) (concat (map kids_of ds')) = filter (\<lambda>k. tag_of k = u) (concat (map kids_of ds)))"
    if "list_all2 (\<lambda>k k'. each_kid t f k = Inr k') ds ds'" for ds ds' u
    using that
  proof (induction rule: list_all2_induct)
    case (Cons k ks k' ks')
    from each_kid_Inr(3,4) [OF Cons.hyps(1) assms(2)] Cons.IH show ?case
      by (auto intro: list_all2_appendI)
  qed simp
  from this [OF all] show "list_all2 (\<lambda>k k'. f k = Inr k') (devices_of t x) (devices_of t y)"
    "u \<noteq> t \<Longrightarrow> devices_of u y = devices_of u x" by simp_all
qed

lemma rewrite_tree_spec:
  assumes "rewrite_tree r paths x = Inr y"
  shows "(\<exists>name. first_kid ''name'' y = Some name \<and> text_in name = rs_target_vm_name r) \<and>
    (\<exists>uid. first_kid ''uuid'' y = Some uid \<and> text_in uid = rs_target_domain_uuid r) \<and>
    (\<forall>disk \<in> set (devices_of ''disk'' y). is_data_disk disk \<longrightarrow> good_disk paths disk) \<and>
    (\<forall>card \<in> set (devices_of ''interface'' y). link_is_down card) \<and>
    set (map fst paths) = set (List.map_filter disk_dev (filter is_data_disk (devices_of ''disk'' y)))"
proof -
  let ?x = "with_kids (change_first ''uuid'' (with_text (rs_target_domain_uuid r))
    \<circ> change_first ''name'' (with_text (rs_target_vm_name r))) x"
  from assms obtain name uid z where nu: "first_kid ''name'' x = Some name" "first_kid ''uuid'' x = Some uid"
    and z: "each_kid ''devices'' (each_kid ''disk'' (rewrite_disk paths)) ?x = Inr z"
    and used: "set (map fst paths) = set (List.map_filter disk_dev (filter is_data_disk (devices_of ''disk'' z)))"
    and y: "each_kid ''devices'' (each_kid ''interface'' (\<lambda>k. Inr (link_down k))) z = Inr y"
    unfolding rewrite_tree_def Let_def by (auto simp: bnd_eq_Inr split: if_splits)
  have tags: "tag_kept ''disk'' (rewrite_disk paths)" "tag_kept ''interface'' (\<lambda>k. Inr (link_down k))"
    by (auto simp: tag_kept_def rewrite_disk_Inr(1) link_down_Inr(1))
  note zs = each_device_Inr [OF z tags(1)] and ys = each_device_Inr [OF y tags(2)]
  have "first_kid ''name'' y = Some (with_text (rs_target_vm_name r) name)"
    "first_kid ''uuid'' y = Some (with_text (rs_target_domain_uuid r) uid)"
    using nu by (simp_all add: zs(3) ys(3)) (simp_all add: first_kid_def find_change_first)
  moreover have disks: "devices_of ''disk'' y = devices_of ''disk'' z" by (rule ys(2)) simp
  moreover have "is_data_disk disk \<longrightarrow> good_disk paths disk" if d: "disk \<in> set (devices_of ''disk'' z)" for disk
  proof -
    from d obtain i where i: "i < length (devices_of ''disk'' z)" "disk = devices_of ''disk'' z ! i"
      unfolding in_set_conv_nth by blast
    with list_all2_nthD2 [OF zs(1) i(1)] rewrite_disk_Inr(2) show ?thesis by blast
  qed
  moreover have "link_is_down card" if c: "card \<in> set (devices_of ''interface'' y)" for card
  proof -
    from c obtain i where i: "i < length (devices_of ''interface'' y)" "card = devices_of ''interface'' y ! i"
      unfolding in_set_conv_nth by blast
    with list_all2_nthD2 [OF ys(1) i(1)] link_down_Inr(2) show ?thesis by (metis sum.inject(2))
  qed
  ultimately show ?thesis using used by simp
qed

section \<open>Settling\<close>

definition stored :: "text_env \<Rightarrow> string \<Rightarrow> restore_row \<Rightarrow> db \<Rightarrow> bool" where
  "stored te i r d \<longleftrightarrow> find (\<lambda>r. rs_id r = i) (db_restores d) = Some r \<and> restore_operation_from_row te r = Inr r"

definition clock_ok :: "text_env \<Rightarrow> host_env \<Rightarrow> bool" where
  "clock_ok te h \<longleftrightarrow> (\<forall>d. \<exists>t. te_from_iso te (he_now h d) = Inr t)"

lemma stored_id: "stored te i r d \<Longrightarrow> rs_id r = i"
  by (auto simp: stored_def find_Some_iff)

lemma restore_operation_same: "restore_operation_from_row te r = Inr v \<Longrightarrow> v = r"
  by (auto simp: restore_operation_from_row_def bnd_eq_Inr split: if_splits)

lemma fetch_stored: "stored te i r (wo_db w) \<Longrightarrow> fetch_operation te i w = (Inr r, w)"
  by (simp add: fetch_operation_def get_restore_operation_def stored_def op_run)

lemma moved_ok:
  assumes "restore_operation_from_row te r = Inr r" and "te_from_iso te stamp = Inr t"
    and "state \<in> set restore_states" and "state \<noteq> ''RECOVERY_REQUIRED''"
  shows "restore_operation_from_row te (moved_row state err None stamp r) = Inr (moved_row state err None stamp r)"
  using assms by (auto simp: restore_operation_from_row_def operation_ok_def moved_row_def bnd_eq_Inr split: if_splits)

text \<open>A move of the stored operation succeeds and stores the moved row.\<close>

lemma move_run:
  assumes s: "stored te i r (wo_db w)" and c: "clock_ok te h"
    and st: "state \<in> set restore_states" "state \<noteq> ''RECOVERY_REQUIRED''"
  shows "\<exists>r' w'. move_operation te h i (rs_state r) state err w = (Inr r', w') \<and> stored te i r' (wo_db w') \<and>
    rs_state r' = state \<and> (\<exists>stamp. r' = moved_row state err None stamp r) \<and>
    wo_files w' = wo_files w \<and> wo_domains w' = wo_domains w \<and> (\<exists>rows. wo_db w' = (wo_db w)\<lparr>db_restores := rows\<rparr>)"
proof -
  let ?stamp = "he_now h (wo_db w)"
  let ?g = "\<lambda>q. if rs_id q = i \<and> rs_state q = rs_state r then moved_row state err None ?stamp q else q"
  let ?d = "(wo_db w)\<lparr>db_restores := map ?g (db_restores (wo_db w))\<rparr>"
  let ?r = "moved_row state err None ?stamp r"
  from s have f: "find (\<lambda>r. rs_id r = i) (db_restores (wo_db w)) = Some r" by (simp add: stored_def)
  have keep: "rs_id (?g q) = rs_id q" for q by (simp add: moved_row_def)
  have find: "find (\<lambda>r. rs_id r = i) (map ?g rows) = map_option ?g (find (\<lambda>r. rs_id r = i) rows)" for rows
    by (induction rows) (simp_all add: keep del: if_split)
  have "?g r = ?r" using stored_id [OF s] by simp
  then have f': "find (\<lambda>r. rs_id r = i) (db_restores ?d) = Some ?r" by (simp add: find f)
  obtain t where "te_from_iso te ?stamp = Inr t" using c unfolding clock_ok_def by blast
  then have ok: "restore_operation_from_row te ?r = Inr ?r" using s st by (auto simp: stored_def intro: moved_ok)
  have "list_ex (\<lambda>q. rs_id q = i \<and> rs_state q = rs_state r) (db_restores (wo_db w))"
    using f by (auto simp: list_ex_iff dest!: find_SomeD)
  then have "transition_received_restore te i (rs_state r) state ?stamp err (wo_db w) = (Inr (Some ?r), ?d)"
    using f' ok by (simp add: transition_received_restore_def op_run get_restore_operation_def)
  then have "move_operation te h i (rs_state r) state err w = (Inr ?r, w\<lparr>wo_db := ?d\<rparr>)"
    by (simp add: move_operation_def in_store_def op_defs)
  then show ?thesis using f' ok by (auto simp: stored_def moved_row_def)
qed

text \<open>The calls that only touch files and domains keep what is known of the store.\<close>

named_theorems keeps_store \<open>calls that leave the store alone\<close>

lemma keeps_map_op [keeps_intros]: "(\<And>x. keeps P (f x)) \<Longrightarrow> keeps P (map_op f xs)"
  by (induction xs) (auto intro!: keeps_intros)

lemma keeps_prod [keeps_intros]: "(\<And>x y. p = (x, y) \<Longrightarrow> keeps P (f x y)) \<Longrightarrow> keeps P (case p of (x, y) \<Rightarrow> f x y)"
  by (cases p) simp

definition ignores_files :: "(world \<Rightarrow> bool) \<Rightarrow> bool" where
  "ignores_files P \<longleftrightarrow> (\<forall>w fs. P w \<longrightarrow> P (w\<lparr>wo_files := fs\<rparr>))"

lemma keeps_set_files [keeps_store]: "ignores_files P \<Longrightarrow> keeps P (set_files fs)"
  unfolding set_files_def by (intro keeps_intros) (simp add: ignores_files_def)

lemma keeps_files_calls [keeps_store]:
  "ignores_files P \<Longrightarrow> keeps P (run_command h argv)" "ignores_files P \<Longrightarrow> keeps P (replace_file h p q)"
  "ignores_files P \<Longrightarrow> keeps P (make_folders h p)" "ignores_files P \<Longrightarrow> keeps P (unlink h p)"
  "ignores_files P \<Longrightarrow> keeps P (write_file h p text)" "ignores_files P \<Longrightarrow> keeps P (source_disk dev item)"
  unfolding run_command_def replace_file_def make_folders_def unlink_def write_file_def source_disk_def
  by (intro keeps_intros keeps_store; simp add: ignores_files_def)+

lemma keeps_copy_file [keeps_store]: "ignores_files P \<Longrightarrow> keeps P (copy_file h p q)"
  unfolding copy_file_def
  by (rule keeps_reading) (auto intro!: keeps_intros keeps_store split: option.split node_file.split)

lemma keeps_apply_deltas [keeps_store]: "ignores_files P \<Longrightarrow> keeps P (apply_deltas h dev disks k items p)"
  by (induction items arbitrary: k p) (auto simp: apply_delta_def Let_def intro!: keeps_intros keeps_store)

lemma keeps_materialize [keeps_store]: "ignores_files P \<Longrightarrow> keeps P (materialize_disk h chain dev staging)"
  unfolding materialize_disk_def Let_def by (intro keeps_intros keeps_store)

lemma keeps_rewrite_domain [keeps_store]: "ignores_files P \<Longrightarrow> keeps P (rewrite_domain h p r paths out)"
  unfolding rewrite_domain_def by (intro keeps_intros keeps_store)

lemma keeps_build_staging [keeps_store]: "ignores_files P \<Longrightarrow> keeps P (build_staging h r chain devs target staging)"
  unfolding build_staging_def Let_def by (intro keeps_intros keeps_store)

lemma keeps_safe_target [keeps_store]: "ignores_files P \<Longrightarrow> keeps P (safe_target h node r)"
  unfolding safe_target_def Let_def by (intro keeps_intros keeps_store)

lemma keeps_access [keeps_store]: "ignores_files P \<Longrightarrow> keeps P (apply_libvirt_access h target base s)"
  unfolding apply_libvirt_access_def by (auto intro!: keeps_intros split: json.split)

lemma stored_vms: "stored te i r (d\<lparr>db_vms := vms\<rparr>) = stored te i r d"
  by (simp add: stored_def)

lemma keeps_register_vm: "keeps (\<lambda>w. stored te i r (wo_db w)) (in_store (register_vm v node ext name uid))"
  by (auto simp: keeps_def in_store_def register_vm_def op_defs stored_vms Let_def split: option.splits prod.splits)

lemma move_Inr:
  assumes "stored te i r (wo_db w)" and "clock_ok te h" and "rs_state r = e"
    and "state \<in> set restore_states" and "state \<noteq> ''RECOVERY_REQUIRED''"
    and "move_operation te h i e state err w = (Inr r', w')"
  shows "stored te i r' (wo_db w') \<and> rs_state r' = state \<and> (\<exists>stamp. r' = moved_row state err None stamp r) \<and>
    wo_domains w' = wo_domains w"
  using move_run [OF assms(1,2,4,5), of err] assms(3,6) by auto

lemma moved_identity [simp]:
  "rs_id (moved_row state err reason stamp r) = rs_id r"
  "rs_target_vm_name (moved_row state err reason stamp r) = rs_target_vm_name r"
  "rs_target_domain_uuid (moved_row state err reason stamp r) = rs_target_domain_uuid r"
  "rs_point_id (moved_row state err reason stamp r) = rs_point_id r"
  "rs_start_after_restore (moved_row state err reason stamp r) = rs_start_after_restore r"
  "rs_state (moved_row state err reason stamp r) = state"
  by (simp_all add: moved_row_def)

definition tracked :: "text_env \<Rightarrow> string \<Rightarrow> world \<Rightarrow> bool" where
  "tracked te i w \<longleftrightarrow> (\<exists>r. stored te i r (wo_db w))"

lemma keeps_tracked: "keeps (\<lambda>w. \<exists>r. stored te i r (wo_db w)) m \<Longrightarrow> keeps (tracked te i) m"
  by (simp add: tracked_def [abs_def])

lemma keeps_register_tracked [keeps_store]: "keeps (tracked te i) (in_store (register_vm v node ext name uid))"
  unfolding keeps_def tracked_def using keeps_register_vm [unfolded keeps_def] by blast

lemma keeps_move [keeps_store]:
  assumes c: "clock_ok te h" and st: "state \<in> set restore_states" "state \<noteq> ''RECOVERY_REQUIRED''"
  shows "keeps (tracked te i) (move_operation te h j e state err)"
  unfolding keeps_def
proof (intro allI impI)
  fix w assume "tracked te i w"
  then obtain r where r: "stored te i r (wo_db w)" unfolding tracked_def by blast
  let ?stamp = "he_now h (wo_db w)"
  let ?g = "\<lambda>q. if rs_id q = j \<and> rs_state q = e then moved_row state err None ?stamp q else q"
  let ?d = "(wo_db w)\<lparr>db_restores := map ?g (db_restores (wo_db w))\<rparr>"
  have find: "find (\<lambda>r. rs_id r = i) (map ?g rows) = map_option ?g (find (\<lambda>r. rs_id r = i) rows)" for rows
    by (induction rows) auto
  obtain t where "te_from_iso te ?stamp = Inr t" using c unfolding clock_ok_def by blast
  then have "restore_operation_from_row te (?g r) = Inr (?g r)"
    using r st moved_ok [of te r ?stamp t state err] by (simp add: stored_def)
  then have new: "stored te i (?g r) ?d" using r by (simp add: stored_def find)
  have "wo_db (snd (move_operation te h j e state err w)) = wo_db w \<or>
      wo_db (snd (move_operation te h j e state err w)) = ?d"
    by (auto simp: move_operation_def in_store_def transition_received_restore_def op_defs split: sum.split option.split)
  then show "tracked te i (snd (move_operation te h j e state err w))"
  proof
    assume eq: "wo_db (snd (move_operation te h j e state err w)) = wo_db w"
    show ?thesis unfolding tracked_def eq using r by blast
  next
    assume eq: "wo_db (snd (move_operation te h j e state err w)) = ?d"
    show ?thesis unfolding tracked_def eq using new by blast
  qed
qed

lemma states_known: "''VERIFYING'' \<in> set restore_states" "''MATERIALIZING'' \<in> set restore_states"
  "''DEFINING'' \<in> set restore_states" "''READY'' \<in> set restore_states" "''STARTING'' \<in> set restore_states"
  "''SUCCESS'' \<in> set restore_states" "''FAILED'' \<in> set restore_states"
  by (simp_all add: restore_states_def)

lemma ignores_files_tracked [keeps_store]: "ignores_files (tracked te i)"
  by (simp add: ignores_files_def tracked_def)

lemma ignores_files_stored [keeps_store]: "ignores_files (\<lambda>w. stored te i r (wo_db w))"
  by (simp add: ignores_files_def)

lemma keeps_domains [keeps_store]: "keeps (tracked te i) (update (\<lambda>w. w\<lparr>wo_domains := domains\<rparr>))"
  by (rule keeps_update) (simp add: tracked_def)

lemma keeps_stages:
  assumes c: "clock_ok te h"
  shows "keeps (tracked te i) (advance_stages te h node r)"
proof -
  have m: "keeps (tracked te i) (move_operation te h j e state err)"
    if "state \<in> set restore_states" "state \<noteq> ''RECOVERY_REQUIRED''" for j e state err
    using keeps_move [OF c that] .
  note moves = m [OF states_known(1)] m [OF states_known(2)] m [OF states_known(3)] m [OF states_known(4)]
    m [OF states_known(5)] m [OF states_known(6)]
  have v: "keeps (tracked te i) (verify_stage te h node r)" for r
    unfolding verify_stage_def Let_def by (intro keeps_intros keeps_store moves) simp_all
  have d: "keeps (tracked te i) (define_stage te h node r)" for r
    unfolding define_stage_def Let_def by (intro keeps_intros keeps_store moves) simp_all
  have y: "keeps (tracked te i) (ready_stage te h r)" for r
    unfolding ready_stage_def by (intro keeps_intros keeps_store moves) simp_all
  show ?thesis
    unfolding advance_stages_def stage_def by (intro keeps_intros v d y moves) simp
qed

text \<open>What each stage leaves behind when it returns.\<close>

definition same_goal :: "restore_row \<Rightarrow> restore_row \<Rightarrow> bool" where
  "same_goal r r' \<longleftrightarrow> rs_id r' = rs_id r \<and> rs_target_vm_name r' = rs_target_vm_name r \<and>
     rs_target_domain_uuid r' = rs_target_domain_uuid r \<and> rs_start_after_restore r' = rs_start_after_restore r \<and>
     rs_point_id r' = rs_point_id r"

lemma same_goal_moved [simp]: "same_goal r (moved_row state err reason stamp r)"
  by (simp add: same_goal_def)

lemma same_goal_trans: "same_goal r r' \<Longrightarrow> same_goal r' r'' \<Longrightarrow> same_goal r r''"
  by (simp add: same_goal_def)

lemma move_same_goal:
  assumes "stored te i r (wo_db w)" and "clock_ok te h" and "rs_state r = e"
    and "state \<in> set restore_states" and "state \<noteq> ''RECOVERY_REQUIRED''"
    and "move_operation te h i e state err w = (Inr r', w')"
  shows "stored te i r' (wo_db w')" "rs_state r' = state" "same_goal r r'" "wo_domains w' = wo_domains w"
    "\<exists>rows. wo_db w' = (wo_db w)\<lparr>db_restores := rows\<rparr>" "wo_files w' = wo_files w"
proof -
  from move_run [OF assms(1,2,4,5), of err] assms(3,6) obtain stamp rows where
    r': "r' = moved_row state err None stamp r" and w': "stored te i r' (wo_db w')" "wo_files w' = wo_files w"
      "wo_domains w' = wo_domains w" "wo_db w' = (wo_db w)\<lparr>db_restores := rows\<rparr>" by auto
  show "rs_state r' = state" "same_goal r r'" unfolding r' by simp_all
  show "stored te i r' (wo_db w')" "wo_domains w' = wo_domains w" "wo_files w' = wo_files w"
    "\<exists>rows. wo_db w' = (wo_db w)\<lparr>db_restores := rows\<rparr>" using w' by blast+
qed

lemma keepsD2: "keeps P m \<Longrightarrow> m s = (r, s') \<Longrightarrow> P s \<Longrightarrow> P s'"
  by (rule keepsD)

lemma verify_stage_Inr:
  assumes s: "stored te i r (wo_db w)" and c: "clock_ok te h" and st: "rs_state r = ''VERIFYING''"
    and run: "verify_stage te h node r w = (Inr r', w')"
  shows "stored te i r' (wo_db w') \<and> rs_state r' = ''DEFINING'' \<and> same_goal r r' \<and>
    (\<exists>v. validate_chain h (wo_db w) (wo_files w) node r = Inr v) \<and> rs_target_vm_name r \<notin> set (map fst (wo_domains w))"
proof -
  have i: "rs_id r = i" using stored_id [OF s] .
  from run obtain chain devs target base d w1 r1 w2 w3 u4 w4 u5 w5 where
    v: "validate_chain h (wo_db w) (wo_files w) node r = Inr (chain, devs)" and
    t: "safe_target h node r w = (Inr (target, base, d), w1)" and
    free: "rs_target_vm_name r \<notin> set (map fst (wo_domains w1))" and
    m1: "move_operation te h (rs_id r) ''VERIFYING'' ''MATERIALIZING'' None w1 = (Inr r1, w2)" and
    b: "build_staging h r1 chain devs target (staging_of target (rs_id r1)) w2 = (Inr (), w3)" and
    p: "replace_file h (staging_of target (rs_id r1)) target w3 = (Inr u4, w4)" and
    a: "apply_libvirt_access h target base d w4 = (Inr u5, w5)" and
    m2: "move_operation te h (rs_id r1) ''MATERIALIZING'' ''DEFINING'' None w5 = (Inr r', w')"
    unfolding verify_stage_def Let_def andthen_Inr op_Inr by (force split: prod.splits if_splits simp: andthen_Inr op_Inr)
  let ?P = "\<lambda>w'. stored te i r (wo_db w') \<and> wo_domains w' = wo_domains w"
  have "ignores_files ?P" by (simp add: ignores_files_def)
  from keepsD2 [OF keeps_safe_target [OF this] t] s have s1: "stored te i r (wo_db w1)" "wo_domains w1 = wo_domains w"
    by simp_all
  note m = move_same_goal [OF s1(1) c st states_known(2) _ m1 [unfolded i], simplified]
  have i1: "rs_id r1 = i" using stored_id [OF m(1)] .
  note ig = ignores_files_stored [of te i r1]
  have "stored te i r1 (wo_db w5)"
    by (rule keepsD2 [OF keeps_access [OF ig] a], rule keepsD2 [OF keeps_files_calls(2) [OF ig] p],
        rule keepsD2 [OF keeps_build_staging [OF ig] b], rule m(1))
  note n = move_same_goal [OF this c m(2) states_known(3) _ m2 [unfolded i1], simplified]
  show ?thesis using n(1,2) same_goal_trans [OF m(3) n(3)] v free s1(2) by auto
qed

definition registered :: "string \<Rightarrow> string \<Rightarrow> db \<Rightarrow> bool" where
  "registered node uid d \<longleftrightarrow> (\<exists>v \<in> set (db_vms d). vr_node_id v = node \<and> vr_domain_uuid v = Some uid)"

lemma register_vm_Inr:
  assumes "register_vm v node ext name uid d = (Inr x, d')"
  shows "registered node uid d'" "\<exists>vms. d' = d\<lparr>db_vms := vms\<rparr>"
proof -
  from assms show "registered node uid d'"
    by (auto simp: register_vm_def op_defs registered_def Let_def split: option.splits if_splits dest!: find_SomeD)
  have same: "\<exists>vms. d = d\<lparr>db_vms := vms\<rparr>" for d :: db by (rule exI [of _ "db_vms d"]) simp
  from assms show "\<exists>vms. d' = d\<lparr>db_vms := vms\<rparr>"
    by (auto simp: register_vm_def op_defs Let_def split: option.splits if_splits intro: same)
qed

lemma define_stage_Inr:
  assumes s: "stored te i r (wo_db w)" and c: "clock_ok te h" and st: "rs_state r = ''DEFINING''"
    and run: "define_stage te h node r w = (Inr r', w')"
  shows "stored te i r' (wo_db w') \<and> rs_state r' = ''READY'' \<and> same_goal r r' \<and>
    map_of (wo_domains w') (rs_target_vm_name r) = Some (rs_target_domain_uuid r) \<and>
    registered node (rs_target_domain_uuid r) (wo_db w')"
proof -
  have i: "rs_id r = i" using stored_id [OF s] .
  from run obtain domains x w2 where
    seen: "map_of domains (rs_target_vm_name r) = Some (rs_target_domain_uuid r)" and
    v: "in_store (register_vm (he_new_id h (wo_db w)) node (rs_target_vm_name r) (rs_target_vm_name r)
      (rs_target_domain_uuid r)) (w\<lparr>wo_domains := domains\<rparr>) = (Inr x, w2)" and
    m: "move_operation te h (rs_id r) ''DEFINING'' ''READY'' None w2 = (Inr r', w')"
    unfolding define_stage_def Let_def andthen_Inr op_Inr by (force split: if_splits simp: andthen_Inr op_Inr)
  from v obtain d2 where d2: "register_vm (he_new_id h (wo_db w)) node (rs_target_vm_name r) (rs_target_vm_name r)
      (rs_target_domain_uuid r) (wo_db w) = (Inr x, d2)" "w2 = w\<lparr>wo_domains := domains, wo_db := d2\<rparr>"
    by (auto simp: in_store_def split: prod.splits)
  from register_vm_Inr(2) [OF d2(1)] s have "stored te i r (wo_db w2)" by (auto simp: d2(2) stored_vms)
  note n = move_same_goal [OF this c st states_known(4) _ m [unfolded i], simplified]
  have "registered node (rs_target_domain_uuid r) (wo_db w')"
    using n(5) register_vm_Inr(1) [OF d2(1)] by (auto simp: d2(2) registered_def)
  then show ?thesis using n(1-4) seen by (simp add: d2(2))
qed

lemma ready_stage_Inr:
  assumes s: "stored te i r (wo_db w)" and c: "clock_ok te h" and st: "rs_state r = ''READY''"
    and run: "ready_stage te h r w = (Inr r', w')"
  shows "stored te i r' (wo_db w') \<and> rs_state r' = ''SUCCESS'' \<and> same_goal r r' \<and>
    db_vms (wo_db w') = db_vms (wo_db w) \<and>
    (if rs_start_after_restore r then he_start h (rs_target_vm_name r) (wo_domains w) = Inr (wo_domains w')
     else wo_domains w' = wo_domains w)"
proof (cases "rs_start_after_restore r")
  case False
  have "rs_id r = i" using stored_id [OF s] .
  with run False have "move_operation te h i ''READY'' ''SUCCESS'' None w = (Inr r', w')"
    by (simp add: ready_stage_def)
  note n = move_same_goal [OF s c st states_known(6) _ this, simplified]
  show ?thesis using n False by auto
next
  case True
  have i: "rs_id r = i" using stored_id [OF s] .
  from run True obtain r1 w1 domains where
    m1: "move_operation te h (rs_id r) ''READY'' ''STARTING'' None w = (Inr r1, w1)" and
    st1: "he_start h (rs_target_vm_name r1) (wo_domains w1) = Inr domains" and
    m2: "move_operation te h (rs_id r1) ''STARTING'' ''SUCCESS'' None (w1\<lparr>wo_domains := domains\<rparr>) = (Inr r', w')"
    unfolding ready_stage_def by (force split: if_splits simp: andthen_Inr op_Inr)
  note m = move_same_goal [OF s c st states_known(5) _ m1 [unfolded i], simplified]
  have i1: "rs_id r1 = i" using stored_id [OF m(1)] .
  have s1: "stored te i r1 (wo_db (w1\<lparr>wo_domains := domains\<rparr>))" using m(1) by simp
  note n = move_same_goal [OF s1 c m(2) states_known(6) _ m2 [unfolded i1], simplified]
  show ?thesis using n m(5) st1 m(4) True same_goal_trans [OF m(3) n(3)] m(3) by (auto simp: same_goal_def)
qed

lemma stages_Inr:
  assumes s: "stored te i r (wo_db w)" and c: "clock_ok te h"
    and run: "advance_stages te h node r w = (Inr r', w')"
  shows "stored te i r' (wo_db w') \<and> same_goal r r' \<and>
    (rs_state r' = ''SUCCESS'' \<or> rs_state r' = rs_state r \<and> rs_state r \<notin> {''PLANNED'', ''VERIFYING'', ''DEFINING'', ''READY''})"
proof -
  have i: "rs_id r = i" using stored_id [OF s] .
  from run obtain r1 w1 r2 w2 r3 w3 where
    a: "stage ''PLANNED'' (\<lambda>r. move_operation te h (rs_id r) ''PLANNED'' ''VERIFYING'' None) r w = (Inr r1, w1)" and
    b: "stage ''VERIFYING'' (verify_stage te h node) r1 w1 = (Inr r2, w2)" and
    d: "stage ''DEFINING'' (define_stage te h node) r2 w2 = (Inr r3, w3)" and
    e: "stage ''READY'' (ready_stage te h) r3 w3 = (Inr r', w')"
    unfolding advance_stages_def andthen_Inr by blast
  have 1: "stored te i r1 (wo_db w1) \<and> same_goal r r1 \<and>
      (if rs_state r = ''PLANNED'' then rs_state r1 = ''VERIFYING'' else rs_state r1 = rs_state r)"
  proof (cases "rs_state r = ''PLANNED''")
    case True
    with a have "move_operation te h i ''PLANNED'' ''VERIFYING'' None w = (Inr r1, w1)" by (simp add: stage_def i)
    note m = move_same_goal [OF s c True states_known(1) _ this, simplified]
    with True show ?thesis by simp
  qed (use a s in \<open>simp add: stage_def op_Inr same_goal_def\<close>)
  have 2: "stored te i r2 (wo_db w2) \<and> same_goal r r2 \<and>
      (if rs_state r1 = ''VERIFYING'' then rs_state r2 = ''DEFINING'' else rs_state r2 = rs_state r1)"
  proof (cases "rs_state r1 = ''VERIFYING''")
    case True
    with b have "verify_stage te h node r1 w1 = (Inr r2, w2)" by (simp add: stage_def)
    with verify_stage_Inr [OF _ c True this] 1 True same_goal_trans [of r r1 r2] show ?thesis by auto
  qed (use b 1 in \<open>simp add: stage_def op_Inr\<close>)
  have 3: "stored te i r3 (wo_db w3) \<and> same_goal r r3 \<and>
      (if rs_state r2 = ''DEFINING'' then rs_state r3 = ''READY'' else rs_state r3 = rs_state r2)"
  proof (cases "rs_state r2 = ''DEFINING''")
    case True
    with d have "define_stage te h node r2 w2 = (Inr r3, w3)" by (simp add: stage_def)
    with define_stage_Inr [OF _ c True this] 2 True same_goal_trans [of r r2 r3] show ?thesis by auto
  qed (use d 2 in \<open>simp add: stage_def op_Inr\<close>)
  show ?thesis
  proof (cases "rs_state r3 = ''READY''")
    case True
    with e have "ready_stage te h r3 w3 = (Inr r', w')" by (simp add: stage_def)
    with ready_stage_Inr [OF _ c True this] 3 same_goal_trans [of r r3 r'] show ?thesis by auto
  next
    case False
    with e have "r' = r3" "w' = w3" by (simp_all add: stage_def op_Inr)
    with 1 2 3 False show ?thesis by (auto split: if_splits)
  qed
qed

lemma advance_settles:
  assumes s: "stored te i r (wo_db w)" and c: "clock_ok te h"
  shows "\<exists>r' w'. advance te h node i w = (Inr r', w') \<and> stored te i r' (wo_db w') \<and>
    (rs_state r' \<in> {''SUCCESS'', ''FAILED''} \<or>
     rs_state r' = rs_state r \<and> rs_state r \<in> {''ACQUIRING'', ''MATERIALIZING'', ''STARTING''})"
proof -
  have known: "rs_state r \<in> set restore_states" "rs_state r \<noteq> ''RECOVERY_REQUIRED''"
    using s by (auto simp: stored_def restore_operation_from_row_def operation_ok_def bnd_eq_Inr split: if_splits)
  show ?thesis
  proof (cases "rs_state r \<in> set restore_terminal")
    case True
    then have "advance te h node i w = (Inr r, w)"
      by (simp add: advance_def fetch_stored [OF s] andthen_def op_run)
    with s True known show ?thesis by (auto simp: restore_terminal_def)
  next
    case False
    have adv: "advance te h node i w = catching (advance_stages te h node r) (fail_operation te h i) w"
      using False by (simp add: advance_def fetch_stored [OF s] andthen_def)
    show ?thesis
    proof (cases "advance_stages te h node r w")
      case (Pair res w1)
      show ?thesis
      proof (cases res)
        case (Inr r')
        with Pair stages_Inr [OF s c, of node r' w1] known False adv show ?thesis
          by (auto simp: catching_def restore_states_def restore_terminal_def)
      next
        case (Inl e)
        have "tracked te i w1"
          by (rule keepsD2 [OF keeps_stages [OF c] Pair]) (use s in \<open>auto simp: tracked_def\<close>)
        then obtain r1 where r1: "stored te i r1 (wo_db w1)" unfolding tracked_def by blast
        have i1: "rs_id r1 = i" using stored_id [OF r1] .
        have "fail_operation te h i e w1 = move_operation te h i (rs_state r1) ''FAILED'' (Some (he_error_text h e)) w1"
          by (simp add: fail_operation_def fetch_stored [OF r1] andthen_def i1)
        moreover from move_run [OF r1 c states_known(7), of "Some (he_error_text h e)"] obtain r' w' where
          "move_operation te h i (rs_state r1) ''FAILED'' (Some (he_error_text h e)) w1 = (Inr r', w')"
          "stored te i r' (wo_db w')" "rs_state r' = ''FAILED''" by auto
        ultimately show ?thesis using Pair Inl adv by (auto simp: catching_def)
      qed
    qed
  qed
qed

section \<open>The chain that was validated\<close>

text \<open>The items from number \<open>k\<close> on: available, numbered without a gap, each the child of the one before.\<close>

fun linked :: "string option \<Rightarrow> int \<Rightarrow> received list \<Rightarrow> bool" where
  "linked parent k [] = True"
| "linked parent k (item # items) =
     (rc_status item = JStr ''AVAILABLE'' \<and> py_int (rc_sequence item) = Inr k \<and> rc_parent item = opt_json parent \<and>
      linked (Some (rc_id item)) (k + 1) items)"

lemma check_items_linked: "check_items h fs parent k targets items = Inr ts \<Longrightarrow> linked parent k items"
  by (induction h fs parent k targets items rule: check_items.induct)
    (auto simp: bnd_eq_Inr split: if_splits)

lemma validate_chain_Inr:
  assumes "validate_chain h d fs node r = Inr (chain, devs)"
  shows "received_restore_chain d (rs_point_id r) node = Inr chain \<and> chain \<noteq> [] \<and> rc_kind (hd chain) = ''FULL'' \<and>
     linked None 0 chain"
proof -
  from assms obtain c where c: "received_restore_chain d (rs_point_id r) node = Inr c"
    by (auto simp: validate_chain_def bnd_eq_Inr)
  show ?thesis
  proof (cases c)
    case (Cons base rest)
    with assms c show ?thesis
      by (auto simp: validate_chain_def bnd_eq_Inr split: if_splits option.splits dest!: check_items_linked)
  qed (use assms c in \<open>simp add: validate_chain_def\<close>)
qed

lemma received_chain_restores [simp]:
  "received_restore_chain (d\<lparr>db_restores := x\<rparr>) i node = received_restore_chain d i node"
proof -
  have "received_row (d\<lparr>db_restores := x\<rparr>) node p = received_row d node p" for p
    by (simp add: received_row_def imported_on_def run_row_of_def job_row_of_def vm_of_run_def Let_def cong: option.case_cong)
  then have "received_row (d\<lparr>db_restores := x\<rparr>) node = received_row d node" by (rule ext)
  then show ?thesis by (simp add: received_restore_chain_def list_received_restore_points_def)
qed

lemma validate_chain_restores:
  "rs_point_id r' = rs_point_id r \<Longrightarrow>
     validate_chain h (d\<lparr>db_restores := x\<rparr>) fs node r' = validate_chain h d fs node r"
  by (simp add: validate_chain_def)

lemma success_verified:
  assumes s: "stored te i r (wo_db w)" and c: "clock_ok te h" and st: "rs_state r \<in> {''PLANNED'', ''VERIFYING''}"
    and run: "advance te h node i w = (Inr r', w')" and succ: "rs_state r' = ''SUCCESS''"
  shows "(\<exists>chain devs. validate_chain h (wo_db w) (wo_files w) node r = Inr (chain, devs)) \<and>
    rs_target_vm_name r \<notin> set (map fst (wo_domains w)) \<and> registered node (rs_target_domain_uuid r) (wo_db w') \<and>
    (\<not> rs_start_after_restore r \<longrightarrow> map_of (wo_domains w') (rs_target_vm_name r) = Some (rs_target_domain_uuid r))"
proof -
  have i: "rs_id r = i" using stored_id [OF s] .
  have "rs_state r \<notin> set restore_terminal" using st by (auto simp: restore_terminal_def)
  then have "advance te h node i w = catching (advance_stages te h node r) (fail_operation te h i) w"
    by (simp add: advance_def fetch_stored [OF s] andthen_def)
  with run have cat: "catching (advance_stages te h node r) (fail_operation te h i) w = (Inr r', w')" by simp
  have "advance_stages te h node r w = (Inr r', w')"
  proof (cases "advance_stages te h node r w")
    case (Pair res w1)
    show ?thesis
    proof (cases res)
      case (Inl e)
      from cat Pair Inl have "fail_operation te h i e w1 = (Inr r', w')" by (simp add: catching_def)
      moreover have "tracked te i w1"
        by (rule keepsD2 [OF keeps_stages [OF c] Pair]) (use s in \<open>auto simp: tracked_def\<close>)
      then obtain r1 where r1: "stored te i r1 (wo_db w1)" unfolding tracked_def by blast
      ultimately have "move_operation te h i (rs_state r1) ''FAILED'' (Some (he_error_text h e)) w1 = (Inr r', w')"
        using stored_id [OF r1] by (simp add: fail_operation_def fetch_stored [OF r1] andthen_def)
      from move_same_goal(2) [OF r1 c refl states_known(7) _ this] succ show ?thesis by simp
    qed (use Pair cat in \<open>simp add: catching_def\<close>)
  qed
  then obtain r1 w1 r2 w2 r3 w3 where
    a: "stage ''PLANNED'' (\<lambda>r. move_operation te h (rs_id r) ''PLANNED'' ''VERIFYING'' None) r w = (Inr r1, w1)" and
    b: "stage ''VERIFYING'' (verify_stage te h node) r1 w1 = (Inr r2, w2)" and
    d: "stage ''DEFINING'' (define_stage te h node) r2 w2 = (Inr r3, w3)" and
    e: "stage ''READY'' (ready_stage te h) r3 w3 = (Inr r', w')"
    unfolding advance_stages_def andthen_Inr by blast
  have 1: "stored te i r1 (wo_db w1) \<and> same_goal r r1 \<and> rs_state r1 = ''VERIFYING'' \<and> wo_domains w1 = wo_domains w \<and>
      wo_files w1 = wo_files w \<and> (\<exists>rows. wo_db w1 = (wo_db w)\<lparr>db_restores := rows\<rparr>)"
  proof (cases "rs_state r = ''PLANNED''")
    case True
    with a have "move_operation te h i ''PLANNED'' ''VERIFYING'' None w = (Inr r1, w1)" by (simp add: stage_def i)
    note m = move_same_goal [OF s c True states_known(1) _ this, simplified]
    then show ?thesis by simp
  next
    case False
    with a have "r1 = r" "w1 = w" by (simp_all add: stage_def op_Inr)
    with False st s show ?thesis by (auto simp: same_goal_def intro: exI [of _ "db_restores (wo_db w)"])
  qed
  with b have "verify_stage te h node r1 w1 = (Inr r2, w2)" by (simp add: stage_def)
  with 1 verify_stage_Inr [OF _ c _ this] have 2: "stored te i r2 (wo_db w2)" "rs_state r2 = ''DEFINING''" "same_goal r1 r2"
    "\<exists>v. validate_chain h (wo_db w1) (wo_files w1) node r1 = Inr v" "rs_target_vm_name r1 \<notin> set (map fst (wo_domains w1))"
    by blast+
  from d 2(2) have "define_stage te h node r2 w2 = (Inr r3, w3)" by (simp add: stage_def)
  from define_stage_Inr [OF 2(1) c 2(2) this] have 3: "stored te i r3 (wo_db w3)" "rs_state r3 = ''READY''" "same_goal r2 r3"
    "map_of (wo_domains w3) (rs_target_vm_name r2) = Some (rs_target_domain_uuid r2)"
    "registered node (rs_target_domain_uuid r2) (wo_db w3)" by blast+
  from e 3(2) have "ready_stage te h r3 w3 = (Inr r', w')" by (simp add: stage_def)
  note 4 = ready_stage_Inr [OF 3(1) c 3(2) this]
  have g: "same_goal r r1" "same_goal r r2" "same_goal r r3"
    using 1 2(3) 3(3) same_goal_trans by blast+
  have "\<exists>v. validate_chain h (wo_db w) (wo_files w) node r = Inr v"
    using 2(4) 1 g(1) validate_chain_restores [of r1 r] by (auto simp: same_goal_def)
  then show ?thesis using 1 2(5) 3(4,5) 4 g by (auto simp: same_goal_def registered_def)
qed

section \<open>Rows that cannot be read\<close>

lemma map_result_Inl: "x \<in> set xs \<Longrightarrow> f x = Inl e \<Longrightarrow> \<exists>e. map_result f xs = Inl e"
  by (induction xs) (auto simp: bnd_eq_Inl split: sum.splits, metis sum.exhaust bnd_simps)

lemma unreadable_row_stops_the_node:
  assumes "r \<in> set (db_restores d)" and "received_operation d node r" and "\<not> operation_ok r"
  shows "\<exists>e. list_received_restore_operations te d node = Inl e"
proof -
  have "\<exists>e. restore_operation_from_row te r = Inl e"
    using assms(3) by (cases "te_from_iso te (rs_created_at r)"; cases "te_from_iso te (rs_updated_at r)")
      (simp_all add: restore_operation_from_row_def)
  then show ?thesis using assms(1,2) unfolding list_received_restore_operations_def
    by (auto intro!: map_result_Inl)
qed

section \<open>The properties\<close>

text \<open>C30: The disk a restore materializes shows, byte for byte, the FULL image of the chain with the
increments laid over it in order, and nothing outside the staging folder was changed to build it,
the received bundles included.\<close>

theorem restored_disk_is_chain:
  assumes "commands_ok h" and "chain \<noteq> []" and "sources_outside (joined staging ''disks'') dev chain"
    and "materialize_disk h chain dev staging w = (Inr p, w')"
  shows "\<exists>l m. chain_disk (wo_files w) dev chain = Some l \<and> p = joined (joined staging ''disks'') (disk_name dev) \<and>
    wo_files w' p = Some (Image m None) \<and> (\<forall>i. reads m i = reads l i) \<and>
    same_outside (joined staging ''disks'') (wo_files w) (wo_files w')"
  using materialize_spec [OF assms(1,2) refl assms(3,4)] by auto

text \<open>C33: The domain a restore defines carries the planned name and UUID, every data disk of it points to
the restored image of the same device name, all restored images are used, and every network link
is down.\<close>

theorem restored_domain_isolated:
  assumes "rewrite_tree r paths x = Inr y"
  shows "(\<exists>name. first_kid ''name'' y = Some name \<and> text_in name = rs_target_vm_name r) \<and>
    (\<exists>uid. first_kid ''uuid'' y = Some uid \<and> text_in uid = rs_target_domain_uuid r) \<and>
    (\<forall>disk \<in> set (devices_of ''disk'' y). is_data_disk disk \<longrightarrow> good_disk paths disk) \<and>
    (\<forall>card \<in> set (devices_of ''interface'' y). link_is_down card) \<and>
    set (map fst paths) = set (List.map_filter disk_dev (filter is_data_disk (devices_of ''disk'' y)))"
  by (rule rewrite_tree_spec [OF assms])

text \<open>C32: Advancing a stored restore operation always returns: whatever command, file or libvirt call
fails on the way, the operation ends in SUCCESS or FAILED, unless it was found in a state that only
the recovery at startup may leave, which it then keeps.\<close>

theorem restore_settles:
  assumes "stored te i r (wo_db w)" and "clock_ok te h"
  shows "\<exists>r' w'. advance te h node i w = (Inr r', w') \<and> stored te i r' (wo_db w') \<and>
    (rs_state r' \<in> {''SUCCESS'', ''FAILED''} \<or>
     rs_state r' = rs_state r \<and> rs_state r \<in> {''ACQUIRING'', ''MATERIALIZING'', ''STARTING''})"
  by (rule advance_settles [OF assms])

text \<open>C31: A restore reports SUCCESS only after the point's chain was found to start with a FULL backup and
to be available, linked and numbered without a gap, the target name was free in libvirt, and the defined
domain was seen there with the planned UUID and registered on the node.\<close>

theorem restore_success_verified:
  assumes "stored te i r (wo_db w)" and "clock_ok te h" and "rs_state r \<in> {''PLANNED'', ''VERIFYING''}"
    and "advance te h node i w = (Inr r', w')" and "rs_state r' = ''SUCCESS''"
  shows "(\<exists>chain. received_restore_chain (wo_db w) (rs_point_id r) node = Inr chain \<and> chain \<noteq> [] \<and>
      rc_kind (hd chain) = ''FULL'' \<and> linked None 0 chain) \<and>
    rs_target_vm_name r \<notin> set (map fst (wo_domains w)) \<and> registered node (rs_target_domain_uuid r) (wo_db w') \<and>
    (\<not> rs_start_after_restore r \<longrightarrow> map_of (wo_domains w') (rs_target_vm_name r) = Some (rs_target_domain_uuid r))"
  using success_verified [OF assms] validate_chain_Inr by blast

end
