(* ===== verification/ReceivedRestoreExample.thy ===== *)
theory ReceivedRestoreExample
  imports ReceivedRestoreProps
begin

text \<open>
  A restore run to its end: a FULL point and one increment of a two-byte disk, received on node
  \<open>n\<close>, restored below the storage root \<open>/r\<close>. The commands are interpreted on the sample files.
\<close>

section \<open>The host\<close>

definition sample_run :: "string list \<Rightarrow> files \<Rightarrow> bool \<times> files" where
  "sample_run argv fs =
     (let p = last (butlast argv); q = last argv in
      if argv ! 0 = ''cp'' then (True, fs(q := fs p))
      else if argv ! 1 = ''convert'' then (case shown fs p of None \<Rightarrow> (False, fs) | Some l \<Rightarrow> (True, fs(q \<mapsto> Image l None)))
      else if argv ! 1 = ''rebase'' then
        (case fs q of Some (Image l _) \<Rightarrow> (True, fs(q \<mapsto> Image l (Some p))) | _ \<Rightarrow> (False, fs))
      else (True, fs))"

definition sample_replace :: "string \<Rightarrow> string \<Rightarrow> files \<Rightarrow> bool \<times> files" where
  "sample_replace a b fs = (True, if is_folder fs a then moved_tree a b fs else fs(a := None, b := fs a))"

definition sample_folders :: "string \<Rightarrow> files \<Rightarrow> bool \<times> files" where
  "sample_folders p fs = (True, \<lambda>q. if (q = p \<or> prefix (q @ ''/'') p) \<and> fs q = None then Some Folder else fs q)"

definition sample_xml :: xml where
  "sample_xml = Xml ''domain'' [] []
     [Xml ''name'' [] ''old'' [], Xml ''uuid'' [] ''u0'' [],
      Xml ''devices'' [] []
        [Xml ''disk'' [(''device'', ''disk'')] []
           [Xml ''source'' [(''file'', ''/old.qcow2'')] [] [], Xml ''target'' [(''dev'', ''vda'')] [] []],
         Xml ''disk'' [(''device'', ''cdrom'')] [] [],
         Xml ''interface'' [] [] []]]"

definition sample_host :: host_env where
  "sample_host =
     \<lparr>he_run = sample_run,
      he_loads = (\<lambda>s. if s = ''m'' then Some (JObj [(''disks'', JList [JObj [(''target'', JStr ''vda'')]])])
        else Some (JObj [(''id'', JStr s)])),
      he_str = (\<lambda>_. ''None''), he_names = (\<lambda>_ _. []), he_below = (\<lambda>_ _. []), he_resolve = (\<lambda>_ p. Some p),
      he_writable = (\<lambda>_ _. True), he_make_folders = sample_folders, he_unlink = (\<lambda>_ _. True),
      he_replace = sample_replace, he_grant = (\<lambda>_ _ _. True),
      he_parse_xml = (\<lambda>s. if s = ''x'' then Some sample_xml else None), he_xml_text = (\<lambda>_. ''y''),
      he_source_note = (\<lambda>_ _. ''z''), he_write = (\<lambda>_ _. True),
      he_define = (\<lambda>_ _ ds. Inr ((''vm2'', ''u'') # ds)), he_start = (\<lambda>_ ds. Inr ds),
      he_now = (\<lambda>_. ''2''), he_new_id = (\<lambda>_. ''v2''), he_error_text = (\<lambda>_. ''error'')\<rparr>"

lemma sample_commands: "commands_ok sample_host"
  unfolding commands_ok_def sample_host_def
  by (auto simp: sample_run_def convert_argv_def copy_argv_def rebase_argv_def check_argv_def sample_replace_def
      is_folder_def shown_def split: option.splits node_file.splits)

section \<open>The files and the store\<close>

definition layer_of :: "(nat \<times> 8 word) list \<Rightarrow> layer" where "layer_of xs = map_of xs"

definition sample_files :: files where
  "sample_files = map_of
     [(''/r'', Folder), (''/r/f'', Folder), (''/r/i'', Folder),
      (''/r/f/metadata/manifest.json'', Document ''m''), (''/r/f/metadata/restore-point.json'', Document ''sf''),
      (''/r/i/metadata/manifest.json'', Document ''m''), (''/r/i/metadata/restore-point.json'', Document ''si''),
      (''/r/i/metadata/domain.xml'', Document ''x''),
      (''/r/f/disks/vda.qcow2'', Image (layer_of [(0, 1), (1, 2)]) None),
      (''/r/i/disks/vda.qcow2'', Image (layer_of [(1, 3)]) (Some ''/old''))]"

definition sample_item :: "string \<Rightarrow> string \<Rightarrow> int \<Rightarrow> string option \<Rightarrow> import_item" where
  "sample_item i kind n parent = (sample_import i kind n parent)\<lparr>im_bundle := ''/r/'' @ i,
     im_source_point_id := ''s'' @ i\<rparr>"

definition sample_local :: storage where
  "sample_local = (sample_storage ''a'' ''new'')\<lparr>st_values :=
     dset (dset storage_fields ''backup_data_root'' (JStr ''/r'')) ''backup_data_gid'' (JInt 5)\<rparr>"

definition sample_te :: text_env where
  "sample_te = \<lparr>te_tzdb = (\<lambda>_. None), te_iso = (\<lambda>_. []), te_from_iso = (\<lambda>_. Inr \<lparr>dt_naive = 0, dt_fold = False, dt_zone = fixed_zone 0\<rparr>), te_float = (\<lambda>_. None)\<rparr>"

definition restore_store :: db where
  "restore_store =
     snd (create_received_restore_operation sample_te ''op'' ''u'' ''i'' ''n'' ''vm2'' ''/r/new'' ''1'' False
       (snd (upsert_received_restore_point ''1'' (sample_item ''i'' ''INCREMENTAL'' 1 (Some ''f''))
         (snd (upsert_received_restore_point ''1'' (sample_item ''f'' ''FULL'' 0 None)
           (snd (create_storage_destination sample_local True empty_db)))))))"

definition sample_world :: world where
  "sample_world = \<lparr>wo_db = restore_store, wo_files = sample_files, wo_domains = []\<rparr>"

section \<open>The properties at this restore\<close>

definition sample_row :: restore_row where "sample_row = hd (db_restores restore_store)"

definition sample_chain :: "received list" where
  "sample_chain = fst (projr (validate_chain sample_host restore_store sample_files ''n'' sample_row))"

lemma sample_stored: "stored sample_te ''op'' sample_row (wo_db sample_world)"
  by code_simp

lemma sample_clock: "clock_ok sample_te sample_host"
  by (simp add: clock_ok_def sample_te_def)

lemma sample_chain_ok: "map rc_id sample_chain = [''f'', ''i''] \<and>
    sources_outside (joined ''/r/.new'' ''disks'') ''vda'' sample_chain"
  by code_simp

definition shows_bytes :: "files \<Rightarrow> string \<Rightarrow> nat list \<Rightarrow> 8 word list \<Rightarrow> bool" where
  "shows_bytes fs p ks xs = (case fs p of Some (Image m None) \<Rightarrow> map (reads m) ks = xs | _ \<Rightarrow> False)"

lemma sample_restored_disk: "(case materialize_disk sample_host sample_chain ''vda'' ''/r/.new'' sample_world of
     (Inr p, w) \<Rightarrow> shows_bytes (wo_files w) p [0, 1, 2] [1, 3, 0] | _ \<Rightarrow> False)"
  by code_simp

theorem restored_disk_is_chain_witness:
  "\<exists>l. chain_disk sample_files ''vda'' sample_chain = Some l \<and> reads l 0 = 1 \<and> reads l 1 = 3"
proof -
  obtain p w where run: "materialize_disk sample_host sample_chain ''vda'' ''/r/.new'' sample_world = (Inr p, w)"
    and bytes: "shows_bytes (wo_files w) p [0, 1, 2] [1, 3, 0]"
    using sample_restored_disk by (auto split: prod.splits sum.splits)
  have "sample_chain \<noteq> []" using sample_chain_ok by auto
  from restored_disk_is_chain [OF sample_commands this conjunct2 [OF sample_chain_ok] run] obtain l m where
    l: "chain_disk (wo_files sample_world) ''vda'' sample_chain = Some l" "wo_files w p = Some (Image m None)"
      "\<forall>i. reads m i = reads l i" by blast
  from bytes l(2) have "reads m 0 = 1" "reads m 1 = 3" by (simp_all add: shows_bytes_def)
  with l(1,3) show ?thesis by (simp add: sample_world_def)
qed

lemma sample_rewrite: "(case rewrite_tree sample_row [(''vda'', ''/r/new/disks/vda.qcow2'')] sample_xml of
    Inr y \<Rightarrow> length (devices_of ''interface'' y) = 1 \<and> length (devices_of ''disk'' y) = 2 | Inl _ \<Rightarrow> False)"
  by code_simp

theorem restored_domain_isolated_witness:
  "\<exists>y card. rewrite_tree sample_row [(''vda'', ''/r/new/disks/vda.qcow2'')] sample_xml = Inr y \<and>
     devices_of ''interface'' y = [card] \<and> link_is_down card"
proof -
  obtain y where out: "rewrite_tree sample_row [(''vda'', ''/r/new/disks/vda.qcow2'')] sample_xml = Inr y"
    and one: "length (devices_of ''interface'' y) = 1"
    using sample_rewrite by (auto split: sum.splits)
  from one obtain card where "devices_of ''interface'' y = [card]" by (auto simp: length_Suc_conv)
  with restored_domain_isolated [OF out] out show ?thesis by auto
qed

theorem restore_settles_witness:
  "\<exists>r' w'. advance sample_te sample_host ''n'' ''op'' sample_world = (Inr r', w') \<and>
     rs_state r' \<in> {''SUCCESS'', ''FAILED''}"
proof -
  have "rs_state sample_row = ''PLANNED''" by code_simp
  with restore_settles [OF sample_stored sample_clock, of "''n''"] show ?thesis by auto
qed

lemma sample_restored: "(case advance sample_te sample_host ''n'' ''op'' sample_world of
   (Inr r, w) \<Rightarrow> rs_state r = ''SUCCESS'' \<and>
     shows_bytes (wo_files w) ''/r/new/disks/vda.qcow2'' [0, 1, 2] [1, 3, 0] | _ \<Rightarrow> False)"
  by code_simp

lemma sample_goal: "rs_state sample_row \<in> {''PLANNED'', ''VERIFYING''} \<and> rs_target_vm_name sample_row = ''vm2'' \<and>
    rs_target_domain_uuid sample_row = ''u'' \<and> \<not> rs_start_after_restore sample_row"
  by code_simp

theorem restore_success_verified_witness:
  "\<exists>r' w'. advance sample_te sample_host ''n'' ''op'' sample_world = (Inr r', w') \<and> rs_state r' = ''SUCCESS'' \<and>
     map_of (wo_domains w') ''vm2'' = Some ''u''"
proof -
  obtain r' w' where run: "advance sample_te sample_host ''n'' ''op'' sample_world = (Inr r', w')"
    and succ: "rs_state r' = ''SUCCESS''"
    using sample_restored by (auto split: prod.splits sum.splits)
  from restore_success_verified [OF sample_stored sample_clock conjunct1 [OF sample_goal] run succ] sample_goal run succ
  show ?thesis by auto
qed

section \<open>A row that stops the node\<close>

text \<open>
  A restore requested with a relative target folder is stored before its record is checked: the
  request raises, and from then on the list of operations raises too, so no restore of the node is
  advanced or recovered.
\<close>

lemma relative_target_stops_restores:
  "(let d = snd (create_received_restore_operation sample_te ''op2'' ''u2'' ''i'' ''n'' ''vm3'' ''new'' ''1'' False restore_store)
    in isl (fst (create_received_restore_operation sample_te ''op2'' ''u2'' ''i'' ''n'' ''vm3'' ''new'' ''1'' False restore_store)) \<and>
       isl (list_received_restore_operations sample_te d ''n'') \<and>
       isl (fst (tick_restores sample_te sample_host ''n'' True (sample_world\<lparr>wo_db := d\<rparr>))) \<and>
       isl (fst (recover_startup sample_te sample_host ''n'' (sample_world\<lparr>wo_db := d\<rparr>))))"
  by code_simp

end
