(* ===== verification/Publish.thy ===== *)
theory Publish
  imports TransferStaging
begin

text \<open>
  Publication of a staged replica on the receiver (\<open>receiver_publish.py\<close>): the checks of the staged
  bundle, the publish intent, the rename to the final path and the published marker; the restricted
  deletion (\<open>receiver_reclaim_delete.py\<close>).

  The filesystem is the one of the transfer: a map from paths to nodes. Every system call is
  numbered, and the environment says which calls fail; since nothing is undone when a call raises,
  the states a failing call leaves are also the states a crash leaves. What \<open>qemu-img\<close> prints for
  an image, the UUID in a domain description, the listing of a folder and the walk through a tree (deepest
  entries first) are parameters. A JSON
  node has the size of its encoding. Messages of errors and the temporary file of a write are left out. The lock serialises publications and deletions, so a history
  is a sequence of calls.
\<close>

section \<open>Equality of JSON values\<close>

text \<open>Python's \<open>==\<close>: numbers compare by value, objects by key.\<close>

definition number_of :: "json \<Rightarrow> rat option" where
  "number_of v = (case v of JInt i \<Rightarrow> Some (of_int i) | JBool b \<Rightarrow> Some (if b then 1 else 0)
     | JFloat r \<Rightarrow> Some r | _ \<Rightarrow> None)"

fun py_eq :: "json \<Rightarrow> json \<Rightarrow> bool" and
  py_eq_list :: "json list \<Rightarrow> json list \<Rightarrow> bool" and
  py_eq_dict :: "(string \<times> json) list \<Rightarrow> (string \<times> json) list \<Rightarrow> bool" where
  "py_eq (JList xs) w = (case w of JList ys \<Rightarrow> py_eq_list xs ys | _ \<Rightarrow> False)"
| "py_eq (JObj d) w = (case w of JObj e \<Rightarrow> length d = length e \<and> py_eq_dict d e | _ \<Rightarrow> False)"
| "py_eq JNaN w = False"
| "py_eq JNull w = (w = JNull)"
| "py_eq (JStr s) w = (w = JStr s)"
| "py_eq (JInf b) w = (w = JInf b)"
| "py_eq (JInt i) w = (number_of w = Some (of_int i))"
| "py_eq (JBool b) w = (number_of w = Some (if b then 1 else 0))"
| "py_eq (JFloat r) w = (number_of w = Some r)"
| "py_eq_list [] ys = (ys = [])"
| "py_eq_list (x # xs) ys = (case ys of [] \<Rightarrow> False | y # ys' \<Rightarrow> py_eq x y \<and> py_eq_list xs ys')"
| "py_eq_dict [] e = True"
| "py_eq_dict ((k, v) # d) e = ((case map_of e k of None \<Rightarrow> False | Some w \<Rightarrow> py_eq v w) \<and> py_eq_dict d e)"

section \<open>System calls\<close>

record pub_env =
  pe_fail :: "nat \<Rightarrow> bool"
  pe_size :: "json \<Rightarrow> nat"
  pe_loads :: "byte list \<Rightarrow> json option"
  pe_isotime :: "string \<Rightarrow> bool option"
  pe_year :: "string \<Rightarrow> string"
  pe_month :: "string \<Rightarrow> string"
  pe_stamp :: "string \<Rightarrow> string"
  pe_names :: "(string \<Rightarrow> node option) \<Rightarrow> string \<Rightarrow> string list"
  pe_info :: "node \<Rightarrow> json option"
  pe_check :: "node \<Rightarrow> json option"
  pe_domain_uuid :: "node \<Rightarrow> string option option"
  pe_one_device :: bool
  pe_tree :: "(string \<Rightarrow> node option) \<Rightarrow> string \<Rightarrow> string list"

record pub =
  pu_fs :: "string \<Rightarrow> node option"
  pu_tick :: nat

type_synonym 'a pubop = "(pub, 'a) op"

abbreviation publish_error :: "string \<Rightarrow> 'a result" where
  "publish_error code \<equiv> Inl (ReceiverPublishError code)"

abbreviation refuse :: "string \<Rightarrow> 'a pubop" where
  "refuse code \<equiv> raise (ReceiverPublishError code)"

definition call :: "pub_env \<Rightarrow> exn \<Rightarrow> unit pubop" where
  "call env e = (\<lambda>s. (if pe_fail env (pu_tick s) then Inl e else Inr (), s\<lparr>pu_tick := pu_tick s + 1\<rparr>))"

definition put_node :: "string \<Rightarrow> node \<Rightarrow> unit pubop" where
  "put_node p n = update (\<lambda>s. s\<lparr>pu_fs := (pu_fs s)(p \<mapsto> n)\<rparr>)"

definition publish_uuid :: "json \<Rightarrow> string result" where
  "publish_uuid v = (case v of JStr s \<Rightarrow> if uuid_form s then Inr s else publish_error ''PUBLISH_ID_INVALID''
     | _ \<Rightarrow> publish_error ''PUBLISH_ID_INVALID'')"

definition real_dir :: "pub_env \<Rightarrow> string \<Rightarrow> unit pubop" where
  "real_dir env p =
     andthen (call env (ReceiverPublishError ''PUBLISH_LAYOUT_INVALID'')) (\<lambda>_. reading (\<lambda>s.
     if pu_fs s p = Some Dir then ret () else refuse ''PUBLISH_LAYOUT_INVALID''))"

definition size_of :: "pub_env \<Rightarrow> node \<Rightarrow> nat option" where
  "size_of env n = (case n of File c \<Rightarrow> Some (length c) | JsonFile v \<Rightarrow> Some (pe_size env v) | _ \<Rightarrow> None)"

definition regular_size :: "pub_env \<Rightarrow> string \<Rightarrow> nat pubop" where
  "regular_size env p =
     andthen (call env (ReceiverPublishError ''PUBLISH_LAYOUT_INVALID'')) (\<lambda>_. reading (\<lambda>s.
     case Option.bind (pu_fs s p) (size_of env) of
       None \<Rightarrow> refuse ''PUBLISH_LAYOUT_INVALID'' | Some n \<Rightarrow> ret n))"

definition read_node :: "pub_env \<Rightarrow> string \<Rightarrow> node pubop" where
  "read_node env p =
     andthen (regular_size env p) (\<lambda>n.
     if n = 0 \<or> int n > max_metadata_bytes then refuse ''PUBLISH_METADATA_INVALID''
     else
       andthen (call env (ReceiverPublishError ''PUBLISH_LAYOUT_INVALID'')) (\<lambda>_.
       andthen (call env OSError) (\<lambda>_. reading (\<lambda>s.
       case pu_fs s p of None \<Rightarrow> refuse ''PUBLISH_LAYOUT_INVALID'' | Some c \<Rightarrow> ret c))))"

definition object_in :: "pub_env \<Rightarrow> node \<Rightarrow> dict result" where
  "object_in env n =
     (case (case n of File c \<Rightarrow> pe_loads env c | JsonFile v \<Rightarrow> Some v | _ \<Rightarrow> None) of
        Some (JObj d) \<Rightarrow> Inr d | _ \<Rightarrow> publish_error ''PUBLISH_METADATA_INVALID'')"

definition read_json :: "pub_env \<Rightarrow> string \<Rightarrow> dict pubop" where
  "read_json env p = andthen (read_node env p) (\<lambda>n. lift (object_in env n))"

definition write_json :: "pub_env \<Rightarrow> string \<Rightarrow> dict \<Rightarrow> unit pubop" where
  "write_json env p v =
     andthen (call env OSError) (\<lambda>_. andthen (call env OSError) (\<lambda>_. andthen (call env OSError) (\<lambda>_.
     andthen (put_node p (JsonFile (JObj v))) (\<lambda>_.
     andthen (call env OSError) (\<lambda>_. call env OSError)))))"

section \<open>Declaration and receipt\<close>

definition declaration_of :: "pub_env \<Rightarrow> dict \<Rightarrow> string \<Rightarrow> string \<Rightarrow> string \<Rightarrow> transfer_declaration result" where
  "declaration_of env record transfer_id storage_id point_id =
     (if dget record ''state'' \<noteq> Some (JStr ''STAGING_COMPLETE'') then publish_error ''PUBLISH_TRANSFER_INVALID''
      else case parse_begin (pe_isotime env)
             (JObj (dset (AList.delete ''state'' record) ''operation'' (JStr ''BEGIN''))) of
        Inl (ReceiverTransferError _) \<Rightarrow> publish_error ''PUBLISH_TRANSFER_INVALID''
      | Inl e \<Rightarrow> Inl e
      | Inr d \<Rightarrow>
          if td_transfer_id d \<noteq> transfer_id \<or> td_storage_id d \<noteq> storage_id \<or> td_restore_point_id d \<noteq> point_id
          then publish_error ''PUBLISH_TRANSFER_INVALID'' else Inr d)"

definition check_receipt :: "dict \<Rightarrow> transfer_declaration \<Rightarrow> unit result" where
  "check_receipt v d =
     (if dget v ''service'' \<noteq> Some (JStr ''vmbackupd-receiver'') \<or>
         \<not> py_eq_int (dget_or v ''protocol_version'' JNull) 1 \<or>
         dget v ''status'' \<noteq> Some (JStr ''STAGING_COMPLETE'') \<or>
         dget v ''transfer_id'' \<noteq> Some (JStr (td_transfer_id d)) \<or>
         dget v ''storage_id'' \<noteq> Some (JStr (td_storage_id d)) \<or>
         dget v ''restore_point_id'' \<noteq> Some (JStr (td_restore_point_id d)) \<or>
         \<not> py_eq_int (dget_or v ''files_completed'' JNull) (int (length (td_files d))) \<or>
         \<not> py_eq_int (dget_or v ''payload_bytes'' JNull) (total_payload_bytes d)
      then publish_error ''PUBLISH_RECEIPT_INVALID'' else Inr ())"

section \<open>The bundle\<close>

definition qemu_object :: "json option \<Rightarrow> dict result" where
  "qemu_object v = (case v of Some (JObj d) \<Rightarrow> Inr d | _ \<Rightarrow> publish_error ''PUBLISH_QCOW2_CHECK_FAILED'')"

definition marked_corrupt :: "dict \<Rightarrow> bool" where
  "marked_corrupt info =
     (case dget_or info ''format-specific'' JNull of
        JObj s \<Rightarrow> (case dget_or s ''data'' JNull of JObj t \<Rightarrow> dget t ''corrupt'' = Some (JBool True) | _ \<Rightarrow> False)
      | _ \<Rightarrow> False)"

definition check_qcow2 :: "pub_env \<Rightarrow> node \<Rightarrow> int \<Rightarrow> int \<Rightarrow> unit result" where
  "check_qcow2 env n file_size capacity =
     bnd (qemu_object (pe_info env n)) (\<lambda>info.
     if dget info ''format'' \<noteq> Some (JStr ''qcow2'') \<or> \<not> py_eq_int (dget_or info ''virtual-size'' JNull) capacity \<or>
        dget info ''dirty-flag'' = Some (JBool True) \<or> marked_corrupt info
     then publish_error ''PUBLISH_QCOW2_INVALID''
     else
       bnd (qemu_object (pe_check env n)) (\<lambda>report.
       if \<not> py_eq_int (dget_or report ''check-errors'' JNull) 0 then publish_error ''PUBLISH_QCOW2_INVALID''
       else if dget_or report ''image-end-offset'' JNull \<noteq> JNull \<and>
               \<not> py_eq_int (dget_or report ''image-end-offset'' JNull) file_size
       then publish_error ''PUBLISH_QCOW2_INVALID'' else Inr ()))"

definition compact_keys :: "string list" where
  "compact_keys = [''format_version'', ''run_id'', ''job_id'', ''vm_id'', ''storage_destination_id'',
     ''backup_kind'', ''chain_id'', ''sequence'', ''parent_restore_point_id'',
     ''libvirt_checkpoint_name'', ''libvirt_domain_uuid'']"

definition point_matches :: "dict \<Rightarrow> transfer_declaration \<Rightarrow> bool" where
  "point_matches v d \<longleftrightarrow>
     py_eq_int (dget_or v ''format_version'' JNull) 1 \<and>
     dget v ''id'' = Some (JStr (td_restore_point_id d)) \<and> dget v ''run_id'' = Some (JStr (td_job_run_id d)) \<and>
     dget v ''job_run_id'' = Some (JStr (td_job_run_id d)) \<and> dget v ''vm_id'' = Some (JStr (td_vm_id d)) \<and>
     dget v ''backup_kind'' = Some (JStr (td_kind d)) \<and> dget v ''chain_id'' = Some (JStr (td_chain_id d)) \<and>
     py_eq_int (dget_or v ''sequence'' JNull) (td_sequence d) \<and>
     dget_or v ''parent_restore_point_id'' JNull = opt_json (td_parent d) \<and>
     dget v ''status'' = Some (JStr ''AVAILABLE'')"

definition lineage_metadata :: "transfer_declaration \<Rightarrow> json \<Rightarrow> bool" where
  "lineage_metadata d checkpoint =
     (if td_kind d = ''FULL'' then td_sequence d = 0 \<and> td_parent d = None \<and> checkpoint = JNull
      else 0 < td_sequence d \<and> td_parent d \<noteq> None \<and> (case checkpoint of JStr s \<Rightarrow> s \<noteq> [] | _ \<Rightarrow> False))"

definition text_at :: "dict \<Rightarrow> string \<Rightarrow> string option" where
  "text_at d k = (case dget d k of Some (JStr s) \<Rightarrow> Some s | _ \<Rightarrow> None)"

definition int_at :: "dict \<Rightarrow> string \<Rightarrow> int option" where
  "int_at d k = (case dget d k of Some (JInt i) \<Rightarrow> Some i | _ \<Rightarrow> None)"

fun disk_entries ::
  "transfer_declaration \<Rightarrow> json list \<Rightarrow> (string \<times> int \<times> int) list \<Rightarrow> (string \<times> int \<times> int) list result" where
  "disk_entries d [] found = Inr found"
| "disk_entries d (v # vs) found =
     (case v of
        JObj item \<Rightarrow>
          (case (text_at item ''target'', text_at item ''relative_path'', int_at item ''size_bytes'', int_at item ''virtual_size'') of
             (Some t, Some r, Some n, Some c) \<Rightarrow>
               if t = [] \<or> t \<in> set (map fst found) \<or> r \<noteq> ''disks/'' @ t @ ''.qcow2'' \<or>
                  dget item ''format'' \<noteq> Some (JStr ''qcow2'') \<or>
                  (case find (\<lambda>f. df_path f = r) (td_files d) of None \<Rightarrow> True | Some f \<Rightarrow> df_logical_size f \<noteq> n) \<or>
                  n \<le> 0 \<or> c \<le> 0
               then publish_error ''PUBLISH_METADATA_MISMATCH''
               else disk_entries d vs (found @ [(t, n, c)])
           | _ \<Rightarrow> publish_error ''PUBLISH_METADATA_MISMATCH'')
      | _ \<Rightarrow> publish_error ''PUBLISH_METADATA_INVALID'')"

definition disk_names :: "transfer_declaration \<Rightarrow> string list" where
  "disk_names d = map after_slash (filter (prefix ''disks/'') (map df_path (td_files d)))"

definition check_folders :: "pub_env \<Rightarrow> string \<Rightarrow> transfer_declaration \<Rightarrow> unit pubop" where
  "check_folders env b d =
     andthen (real_dir env b) (\<lambda>_. andthen (real_dir env (slash b ''metadata'')) (\<lambda>_.
     andthen (real_dir env (slash b ''disks'')) (\<lambda>_.
     andthen (call env OSError) (\<lambda>_. reading (\<lambda>s.
     if set (pe_names env (pu_fs s) b) \<noteq> {''metadata'', ''disks''} then refuse ''PUBLISH_LAYOUT_INVALID''
     else
       andthen (call env OSError) (\<lambda>_.
       if set (pe_names env (pu_fs s) (slash b ''metadata'')) \<noteq> {''domain.xml'', ''manifest.json'', ''restore-point.json''}
       then refuse ''PUBLISH_LAYOUT_INVALID''
       else
         andthen (call env OSError) (\<lambda>_.
         if set (pe_names env (pu_fs s) (slash b ''disks'')) \<noteq> set (disk_names d)
         then refuse ''PUBLISH_LAYOUT_INVALID'' else ret ())))))))"

definition check_size :: "pub_env \<Rightarrow> string \<Rightarrow> declared_file \<Rightarrow> unit pubop" where
  "check_size env b f = andthen (regular_size env (slash b (df_path f))) (\<lambda>n.
     if int n \<noteq> df_logical_size f then refuse ''PUBLISH_METADATA_MISMATCH'' else ret ())"

definition check_layout :: "pub_env \<Rightarrow> string \<Rightarrow> transfer_declaration \<Rightarrow> unit pubop" where
  "check_layout env b d = andthen (check_folders env b d) (\<lambda>_. each (check_size env b) (td_files d))"

definition check_domain :: "pub_env \<Rightarrow> node \<Rightarrow> string \<Rightarrow> unit result" where
  "check_domain env n uid =
     (case pe_domain_uuid env n of
        None \<Rightarrow> publish_error ''PUBLISH_METADATA_INVALID''
      | Some u \<Rightarrow> if u \<noteq> None \<and> strip (the u) = uid then Inr () else publish_error ''PUBLISH_METADATA_MISMATCH'')"

definition check_metadata :: "pub_env \<Rightarrow> transfer_declaration \<Rightarrow> dict \<Rightarrow> dict \<Rightarrow> string result" where
  "check_metadata env d point manifest =
     (case dget_or point ''disks'' JNull of
        JList ds \<Rightarrow>
          (if ds = [] \<or> \<not> point_matches point d then publish_error ''PUBLISH_METADATA_MISMATCH''
           else
             bnd (publish_uuid (dget_or point ''libvirt_domain_uuid'' JNull)) (\<lambda>uid.
             if pe_isotime env (td_created_at d) \<noteq> Some True then publish_error ''PUBLISH_METADATA_INVALID''
             else if list_ex (\<lambda>k. \<not> py_eq (dget_or manifest k JNull) (dget_or point k JNull)) compact_keys \<or>
                     \<not> (case dget_or manifest ''disks'' JNull of JList ms \<Rightarrow> py_eq_list ms ds | _ \<Rightarrow> False)
             then publish_error ''PUBLISH_METADATA_MISMATCH''
             else if \<not> lineage_metadata d (dget_or point ''libvirt_checkpoint_name'' JNull)
             then publish_error ''PUBLISH_METADATA_INVALID''
             else Inr uid))
      | _ \<Rightarrow> publish_error ''PUBLISH_METADATA_MISMATCH'')"

definition check_disk :: "pub_env \<Rightarrow> string \<Rightarrow> string \<times> int \<times> int \<Rightarrow> unit pubop" where
  "check_disk env b = (\<lambda>(t, n, c).
     andthen (call env (ReceiverPublishError ''PUBLISH_QCOW2_CHECK_FAILED'')) (\<lambda>_. reading (\<lambda>s.
     case pu_fs s (slash b (''disks/'' @ t @ ''.qcow2'')) of
       None \<Rightarrow> refuse ''PUBLISH_QCOW2_CHECK_FAILED''
     | Some im \<Rightarrow> lift (check_qcow2 env im n c))))"

definition check_bundle :: "pub_env \<Rightarrow> string \<Rightarrow> transfer_declaration \<Rightarrow> unit pubop" where
  "check_bundle env b d =
     andthen (check_layout env b d) (\<lambda>_.
     andthen (read_json env (slash b ''metadata/restore-point.json'')) (\<lambda>point.
     andthen (read_json env (slash b ''metadata/manifest.json'')) (\<lambda>manifest.
     andthen (lift (check_metadata env d point manifest)) (\<lambda>uid.
     andthen (read_node env (slash b ''metadata/domain.xml'')) (\<lambda>xml.
     andthen (lift (check_domain env xml uid)) (\<lambda>_.
     andthen (lift (disk_entries d (case dget_or point ''disks'' JNull of JList ds \<Rightarrow> ds | _ \<Rightarrow> []) [])) (\<lambda>entries.
     if length entries \<noteq> card (set (disk_names d)) then refuse ''PUBLISH_METADATA_MISMATCH''
     else each (check_disk env b) entries)))))))"

section \<open>Records and object identifiers\<close>

definition replica_record :: "string \<Rightarrow> transfer_declaration \<Rightarrow> string \<Rightarrow> dict" where
  "replica_record state d object_id =
     [(''version'', JInt 1), (''state'', JStr state), (''transfer_id'', JStr (td_transfer_id d)),
      (''storage_id'', JStr (td_storage_id d)), (''restore_point_id'', JStr (td_restore_point_id d)),
      (''vm_id'', JStr (td_vm_id d)), (''job_run_id'', JStr (td_job_run_id d)),
      (''chain_id'', JStr (td_chain_id d)), (''kind'', JStr (td_kind d)), (''sequence'', JInt (td_sequence d)),
      (''parent_restore_point_id'', opt_json (td_parent d)), (''bundle_object_id'', JStr object_id)]"

definition record_matches :: "dict \<Rightarrow> string \<Rightarrow> string \<Rightarrow> string \<Rightarrow> string \<Rightarrow> string result" where
  "record_matches v state transfer_id storage_id point_id =
     (if \<not> py_eq_int (dget_or v ''version'' JNull) 1 \<or> dget v ''state'' \<noteq> Some (JStr state) \<or>
         dget v ''transfer_id'' \<noteq> Some (JStr transfer_id) \<or> dget v ''storage_id'' \<noteq> Some (JStr storage_id) \<or>
         dget v ''restore_point_id'' \<noteq> Some (JStr point_id)
      then publish_error ''PUBLISH_STATE_CONFLICT''
      else case dget v ''bundle_object_id'' of Some (JStr b) \<Rightarrow> Inr b | _ \<Rightarrow> publish_error ''PUBLISH_STATE_CONFLICT'')"

text \<open>\<open>BundlePathPlanner.final\<close> relative to the storage root.\<close>

definition final_object :: "pub_env \<Rightarrow> transfer_declaration \<Rightarrow> string" where
  "final_object env d =
     (let t = td_created_at d in
      ''vms/'' @ td_vm_id d @ ''/'' @ pe_year env t @ ''/'' @ pe_month env t @ ''/'' @ pe_stamp env t @ ''_'' @ td_job_run_id d)"

definition object_path :: "string \<Rightarrow> json \<Rightarrow> string result" where
  "object_path base v =
     (case v of
        JStr o_id \<Rightarrow>
          (if path_is_absolute o_id \<or> ''..'' \<in> set (path_parts o_id) \<or> path_parts o_id = [] \<or>
              hd (path_parts o_id) \<noteq> ''vms'' \<or> path_str o_id \<noteq> o_id
           then publish_error ''PUBLISH_STATE_INVALID'' else Inr (joined base o_id))
      | _ \<Rightarrow> publish_error ''PUBLISH_STATE_INVALID'')"

definition state_path :: "string \<Rightarrow> string" where "state_path base = joined base ''.vmbackupd-replica-state''"

definition published_path :: "string \<Rightarrow> string" where "published_path base = slash (state_path base) ''published''"

definition marker_path :: "string \<Rightarrow> string \<Rightarrow> string" where
  "marker_path base point_id = slash (published_path base) (point_id @ ''.json'')"

definition ensure_dir :: "pub_env \<Rightarrow> string \<Rightarrow> unit pubop" where
  "ensure_dir env p =
     andthen (call env (ReceiverPublishError ''PUBLISH_STATE_UNAVAILABLE'')) (\<lambda>_.
     andthen (reading (\<lambda>s. if pu_fs s p = None then put_node p Dir else ret ())) (\<lambda>_. reading (\<lambda>s.
     case pu_fs s p of
       Some Dir \<Rightarrow> andthen (call env (ReceiverPublishError ''PUBLISH_STATE_UNAVAILABLE'')) (\<lambda>_. real_dir env p)
     | _ \<Rightarrow> refuse ''PUBLISH_STATE_UNAVAILABLE'')))"

definition ensure_state :: "pub_env \<Rightarrow> string \<Rightarrow> unit pubop" where
  "ensure_state env base = andthen (ensure_dir env (state_path base)) (\<lambda>_. ensure_dir env (published_path base))"

definition take_lock :: "pub_env \<Rightarrow> string \<Rightarrow> unit pubop" where
  "take_lock env base =
     (let p = slash (state_path base) ''publish.lock'' in
      andthen (call env OSError) (\<lambda>_. reading (\<lambda>s.
      case pu_fs s p of
        Some Dir \<Rightarrow> raise OSError | Some Symlink \<Rightarrow> raise OSError
      | Some _ \<Rightarrow> andthen (call env OSError) (\<lambda>_. call env OSError)
      | None \<Rightarrow> andthen (put_node p (File [])) (\<lambda>_. andthen (call env OSError) (\<lambda>_. call env OSError)))))"

section \<open>The parent\<close>

definition parent_matches :: "dict \<Rightarrow> transfer_declaration \<Rightarrow> string \<Rightarrow> bool" where
  "parent_matches v d parent_id \<longleftrightarrow>
     dget v ''state'' = Some (JStr ''PUBLISHED'') \<and> dget v ''storage_id'' = Some (JStr (td_storage_id d)) \<and>
     dget v ''restore_point_id'' = Some (JStr parent_id) \<and> dget v ''chain_id'' = Some (JStr (td_chain_id d)) \<and>
     py_eq_int (dget_or v ''sequence'' JNull) (td_sequence d - 1)"

definition check_parent :: "pub_env \<Rightarrow> string \<Rightarrow> transfer_declaration \<Rightarrow> unit pubop" where
  "check_parent env base d =
     (case td_parent d of
        None \<Rightarrow> ret ()
      | Some parent_id \<Rightarrow> reading (\<lambda>s.
          if pu_fs s (marker_path base parent_id) \<in> {None, Some Symlink} then refuse ''PUBLISH_PARENT_UNAVAILABLE''
          else
            andthen (read_json env (marker_path base parent_id)) (\<lambda>v.
            if \<not> parent_matches v d parent_id then refuse ''PUBLISH_PARENT_MISMATCH''
            else andthen (lift (object_path base (dget_or v ''bundle_object_id'' JNull))) (real_dir env))))"

section \<open>The move\<close>

text \<open>Each component below the root is opened, or created when it is missing.\<close>

fun make_parents :: "pub_env \<Rightarrow> string \<Rightarrow> string list \<Rightarrow> unit pubop" where
  "make_parents env p [] = ret ()"
| "make_parents env p (c # cs) =
     andthen (reading (\<lambda>s.
       case pu_fs s (joined p c) of
         None \<Rightarrow> andthen (call env OtherException) (\<lambda>_. andthen (put_node (joined p c) Dir) (\<lambda>_.
                 andthen (call env OtherException) (\<lambda>_. call env OtherException)))
       | Some Dir \<Rightarrow> call env OtherException
       | _ \<Rightarrow> raise OtherException)) (\<lambda>_. make_parents env (joined p c) cs)"

definition no_symlink :: "(string \<Rightarrow> node option) \<Rightarrow> string \<Rightarrow> bool" where
  "no_symlink fs p \<longleftrightarrow> list_all (\<lambda>q. fs q \<noteq> Some Symlink) (path_chain p)"

definition rename_bundle :: "pub_env \<Rightarrow> string \<Rightarrow> string \<Rightarrow> unit pubop" where
  "rename_bundle env source final =
     andthen (call env OSError) (\<lambda>_. reading (\<lambda>s.
     if pu_fs s final \<noteq> None then refuse ''PUBLISH_FINAL_COLLISION''
     else if \<not> pe_one_device env then refuse ''PUBLISH_ATOMIC_MOVE_FAILED''
     else
       andthen (call env (ReceiverPublishError ''PUBLISH_ATOMIC_MOVE_FAILED'')) (\<lambda>_.
       andthen (update (\<lambda>s. s\<lparr>pu_fs := moved_tree source final (pu_fs s)\<rparr>)) (\<lambda>_.
       andthen (call env OSError) (\<lambda>_. call env OSError)))))"

definition move_bundle :: "pub_env \<Rightarrow> string \<Rightarrow> string \<Rightarrow> string \<Rightarrow> unit pubop" where
  "move_bundle env base source object_id = reading (\<lambda>s.
     if \<not> no_symlink (pu_fs s) base \<or> \<not> no_symlink (pu_fs s) source then raise OtherException
     else
       andthen (call env OtherException) (\<lambda>_.
       andthen (make_parents env base (butlast (split_on CHR ''/'' object_id))) (\<lambda>_.
       rename_bundle env source (joined base object_id))))"

section \<open>Publishing\<close>

definition published_result :: "string \<Rightarrow> string \<Rightarrow> string \<Rightarrow> string \<Rightarrow> dict" where
  "published_result transfer_id storage_id point_id object_id =
     [(''status'', JStr ''PUBLISHED''), (''transfer_id'', JStr transfer_id), (''storage_id'', JStr storage_id),
      (''restore_point_id'', JStr point_id), (''bundle_object_id'', JStr object_id)]"

text \<open>The intent is written next to the bundle, or found as it was written.\<close>

definition confirm_intent :: "pub_env \<Rightarrow> string \<Rightarrow> transfer_declaration \<Rightarrow> dict \<Rightarrow> pub \<Rightarrow> unit pubop" where
  "confirm_intent env intent d expected s =
     (if pu_fs s intent \<noteq> None then
        andthen (read_json env intent) (\<lambda>v.
        andthen (lift (record_matches v ''PUBLISH_INTENT'' (td_transfer_id d) (td_storage_id d)
          (td_restore_point_id d))) (\<lambda>_.
        if \<not> py_eq (JObj v) (JObj expected) then refuse ''PUBLISH_STATE_CONFLICT'' else ret ()))
      else write_json env intent expected)"

text \<open>The bundle is still in staging: check it, write or confirm the intent, move it.\<close>

definition publish_source :: "pub_env \<Rightarrow> string \<Rightarrow> string \<Rightarrow> transfer_declaration \<Rightarrow> string pubop" where
  "publish_source env base staging d =
     (let object_id = final_object env d; intent = slash staging ''publish-intent.json'';
          expected = replica_record ''PUBLISH_INTENT'' d object_id in
      andthen (check_bundle env (slash staging ''bundle'') d) (\<lambda>_. reading (\<lambda>s.
      andthen (confirm_intent env intent d expected s) (\<lambda>_. reading (\<lambda>s.
      if pu_fs s (joined base object_id) \<noteq> None then refuse ''PUBLISH_FINAL_COLLISION''
      else andthen (move_bundle env base (slash staging ''bundle'') object_id) (\<lambda>_. ret object_id))))))"

text \<open>The bundle is gone from staging: a durable intent says where it was moved.\<close>

definition publish_moved :: "pub_env \<Rightarrow> string \<Rightarrow> string \<Rightarrow> transfer_declaration \<Rightarrow> string pubop" where
  "publish_moved env base staging d =
     (let intent = slash staging ''publish-intent.json'' in reading (\<lambda>s.
      if pu_fs s intent \<in> {None, Some Symlink} then refuse ''PUBLISH_RECOVERY_REQUIRED''
      else
        andthen (read_json env intent) (\<lambda>v.
        andthen (lift (record_matches v ''PUBLISH_INTENT'' (td_transfer_id d) (td_storage_id d)
          (td_restore_point_id d))) (\<lambda>object_id.
        andthen (lift (object_path base (JStr object_id))) (\<lambda>final.
        andthen (check_bundle env final d) (\<lambda>_.
        if final \<noteq> joined base (final_object env d) then refuse ''PUBLISH_STATE_CONFLICT'' else ret object_id))))))"

definition publish_fresh ::
  "pub_env \<Rightarrow> string \<Rightarrow> string \<Rightarrow> string \<Rightarrow> string \<Rightarrow> string \<Rightarrow> dict pubop" where
  "publish_fresh env base namespace storage_id transfer_id point_id =
     (let staging = slash (slash namespace ''staging'') transfer_id in
      andthen (real_dir env staging) (\<lambda>_.
      andthen (read_json env (slash staging ''transfer.json'')) (\<lambda>record.
      andthen (lift (declaration_of env record transfer_id storage_id point_id)) (\<lambda>d.
      andthen (read_json env (slash staging ''receipt.json'')) (\<lambda>receipt.
      andthen (lift (check_receipt receipt d)) (\<lambda>_.
      andthen (check_parent env base d) (\<lambda>_. reading (\<lambda>s.
      andthen (if pu_fs s (slash staging ''bundle'') \<noteq> None then publish_source env base staging d
               else publish_moved env base staging d) (\<lambda>object_id.
      andthen (write_json env (marker_path base point_id) (replica_record ''PUBLISHED'' d object_id)) (\<lambda>_.
      ret (published_result transfer_id storage_id point_id object_id)))))))))))"

definition publish_known ::
  "pub_env \<Rightarrow> string \<Rightarrow> string \<Rightarrow> string \<Rightarrow> string \<Rightarrow> dict pubop" where
  "publish_known env base storage_id transfer_id point_id =
     andthen (read_json env (marker_path base point_id)) (\<lambda>v.
     andthen (lift (record_matches v ''PUBLISHED'' transfer_id storage_id point_id)) (\<lambda>object_id.
     andthen (lift (object_path base (JStr object_id))) (\<lambda>final.
     andthen (real_dir env final) (\<lambda>_.
     ret (published_result transfer_id storage_id point_id object_id)))))"

definition publish_staged_replica :: "pub_env \<Rightarrow> dict \<Rightarrow> json \<Rightarrow> json \<Rightarrow> dict pubop" where
  "publish_staged_replica env storage transfer_id0 point_id0 =
     andthen (lift (publish_uuid transfer_id0)) (\<lambda>transfer_id.
     andthen (lift (publish_uuid point_id0)) (\<lambda>point_id.
     andthen (lift (publish_uuid (dget_or storage ''storage_id'' JNull))) (\<lambda>storage_id.
     case (dget_or storage ''backup_data_root'' JNull, dget_or storage ''receiver_namespace'' JNull) of
       (JStr root_text, JStr namespace_text) \<Rightarrow>
         (let base = path_str root_text; namespace = path_str namespace_text in
          if \<not> path_is_absolute base \<or> ''..'' \<in> set (path_parts base) \<or>
             namespace \<noteq> joined base ''.vmbackupd-receiver''
          then refuse ''PUBLISH_STORAGE_INVALID''
          else
            andthen (real_dir env base) (\<lambda>_. andthen (real_dir env namespace) (\<lambda>_.
            andthen (ensure_state env base) (\<lambda>_. andthen (take_lock env base) (\<lambda>_. reading (\<lambda>s.
            if pu_fs s (marker_path base point_id) \<noteq> None
            then publish_known env base storage_id transfer_id point_id
            else publish_fresh env base namespace storage_id transfer_id point_id))))))
     | _ \<Rightarrow> refuse ''PUBLISH_STORAGE_INVALID'')))"

section \<open>The restricted deletion\<close>

abbreviation delete_error :: "string \<Rightarrow> 'a result" where
  "delete_error code \<equiv> Inl (ReceiverReclaimDeleteError code)"

abbreviation delete_refuse :: "string \<Rightarrow> 'a pubop" where
  "delete_refuse code \<equiv> raise (ReceiverReclaimDeleteError code)"

definition delete_uuid :: "json \<Rightarrow> string result" where
  "delete_uuid v = (case v of JStr s \<Rightarrow> if uuid_form s then Inr s else delete_error ''RECLAIM_DELETE_ID_INVALID''
     | _ \<Rightarrow> delete_error ''RECLAIM_DELETE_ID_INVALID'')"

definition delete_result :: "string \<Rightarrow> string \<Rightarrow> string \<Rightarrow> bool \<Rightarrow> dict" where
  "delete_result storage_id point_id object_id absent =
     [(''storage_id'', JStr storage_id), (''restore_point_id'', JStr point_id),
      (''bundle_object_id'', JStr object_id), (''already_absent'', JBool absent)]"

definition remove_node :: "string \<Rightarrow> unit pubop" where
  "remove_node p = update (\<lambda>s. s\<lparr>pu_fs := (pu_fs s)(p := None)\<rparr>)"

definition remove_tree :: "pub_env \<Rightarrow> string \<Rightarrow> unit pubop" where
  "remove_tree env target = reading (\<lambda>s.
     each (\<lambda>p. andthen (call env (ReceiverReclaimDeleteError ''RECLAIM_DELETE_FAILED'')) (\<lambda>_. remove_node p))
       (pe_tree env (pu_fs s) target @ [target]))"

definition reject_symlink_tree :: "pub_env \<Rightarrow> string \<Rightarrow> unit pubop" where
  "reject_symlink_tree env target =
     andthen (call env (ReceiverReclaimDeleteError ''RECLAIM_DELETE_OBJECT_UNAVAILABLE'')) (\<lambda>_. reading (\<lambda>s.
     if pu_fs s target \<noteq> Some Dir then delete_refuse ''RECLAIM_DELETE_OBJECT_UNSAFE''
     else each (\<lambda>p. andthen (call env (ReceiverReclaimDeleteError ''RECLAIM_DELETE_OBJECT_UNAVAILABLE'')) (\<lambda>_.
         if pu_fs s p = Some Symlink then delete_refuse ''RECLAIM_DELETE_OBJECT_UNSAFE'' else ret ()))
       (pe_tree env (pu_fs s) target)))"

definition delete_identity :: "dict \<Rightarrow> string \<Rightarrow> string \<Rightarrow> string \<Rightarrow> bool" where
  "delete_identity v storage_id point_id object_id \<longleftrightarrow>
     dget v ''state'' = Some (JStr ''PUBLISHED'') \<and> dget v ''storage_id'' = Some (JStr storage_id) \<and>
     dget v ''restore_point_id'' = Some (JStr point_id) \<and> dget v ''bundle_object_id'' = Some (JStr object_id)"

definition delete_locked :: "pub_env \<Rightarrow> string \<Rightarrow> string \<Rightarrow> string \<Rightarrow> string \<Rightarrow> string \<Rightarrow> dict pubop" where
  "delete_locked env base target storage_id point_id object_id =
     (let marker = marker_path base point_id in reading (\<lambda>s.
      let present = pu_fs s target \<noteq> None in
      if pu_fs s marker = None then
        (if present then delete_refuse ''RECLAIM_DELETE_STATE_MISSING''
         else ret (delete_result storage_id point_id object_id True))
      else if pu_fs s marker = Some Symlink then delete_refuse ''RECLAIM_DELETE_STATE_INVALID''
      else
        andthen (rethrow (ReceiverReclaimDeleteError ''RECLAIM_DELETE_STATE_INVALID'') (read_json env marker)) (\<lambda>v.
        if \<not> delete_identity v storage_id point_id object_id then delete_refuse ''RECLAIM_DELETE_STATE_CONFLICT''
        else
          andthen (if present then andthen (reject_symlink_tree env target) (\<lambda>_. remove_tree env target)
                   else ret ()) (\<lambda>_.
          andthen (call env (ReceiverReclaimDeleteError ''RECLAIM_DELETE_STATE_FAILED'')) (\<lambda>_.
          andthen (remove_node marker) (\<lambda>_.
          andthen (call env (ReceiverReclaimDeleteError ''RECLAIM_DELETE_STATE_FAILED'')) (\<lambda>_.
          andthen (call env (ReceiverReclaimDeleteError ''RECLAIM_DELETE_STATE_FAILED'')) (\<lambda>_.
          ret (delete_result storage_id point_id object_id False)))))))))"

definition delete_target :: "pub_env \<Rightarrow> string \<Rightarrow> string \<Rightarrow> string \<Rightarrow> string \<Rightarrow> string \<Rightarrow> dict pubop" where
  "delete_target env base target storage_id point_id object_id = reading (\<lambda>s.
     if pu_fs s (state_path base) = None \<and> pu_fs s target = None
     then ret (delete_result storage_id point_id object_id True)
     else
       andthen (rethrow (ReceiverReclaimDeleteError ''RECLAIM_DELETE_STATE_INVALID'')
         (andthen (real_dir env (state_path base)) (\<lambda>_. real_dir env (published_path base)))) (\<lambda>_.
       andthen (take_lock env base) (\<lambda>_.
       delete_locked env base target storage_id point_id object_id)))"

definition delete_published_replica :: "pub_env \<Rightarrow> dict \<Rightarrow> json \<Rightarrow> json \<Rightarrow> dict pubop" where
  "delete_published_replica env storage point_id0 object_id0 =
     andthen (lift (delete_uuid (dget_or storage ''storage_id'' JNull))) (\<lambda>storage_id.
     andthen (lift (delete_uuid point_id0)) (\<lambda>point_id.
     case dget_or storage ''backup_data_root'' JNull of
       JStr root_text \<Rightarrow>
         (let base = path_str root_text in
          if \<not> path_is_absolute base \<or> ''..'' \<in> set (path_parts base)
          then delete_refuse ''RECLAIM_DELETE_STORAGE_INVALID''
          else
            andthen (rethrow (ReceiverReclaimDeleteError ''RECLAIM_DELETE_STORAGE_INVALID'') (real_dir env base)) (\<lambda>_.
            andthen (rethrow (ReceiverReclaimDeleteError ''RECLAIM_DELETE_OBJECT_INVALID'')
              (lift (object_path base object_id0))) (\<lambda>target.
            case object_id0 of
              JStr object_id \<Rightarrow> delete_target env base target storage_id point_id object_id
            | _ \<Rightarrow> delete_refuse ''RECLAIM_DELETE_OBJECT_INVALID'')))
     | _ \<Rightarrow> delete_refuse ''RECLAIM_DELETE_STORAGE_INVALID''))"

section \<open>The commands\<close>

text \<open>
  \<open>run_receiver_publish\<close> and \<open>run_receiver_reclaim_delete\<close> on the one line they read: the exit
  status and the line they write. The client forwards the request to the resolver service.
\<close>

definition protocol_error :: "string \<Rightarrow> dict" where
  "protocol_error code =
     [(''service'', JStr ''vmbackupd-receiver''), (''protocol_version'', JInt 1), (''status'', JStr ''ERROR''),
      (''error'', JObj [(''code'', JStr code)])]"

definition request_line :: "(byte list \<Rightarrow> json option) \<Rightarrow> byte list \<Rightarrow> string set \<Rightarrow> string \<Rightarrow> dict option" where
  "request_line loads stream keys operation =
     (let line = read_line stream (max_control_line + 1) in
      if line = [] \<or> length line > max_control_line \<or> last line \<noteq> newline then None
      else case loads line of
        Some (JObj v) \<Rightarrow>
          (if dkeys v = keys \<and> py_eq_int (dget_or v ''protocol_version'' JNull) 1 \<and>
              dget v ''operation'' = Some (JStr operation) then Some v else None)
      | _ \<Rightarrow> None)"

definition run_receiver_publish ::
  "(byte list \<Rightarrow> json option) \<Rightarrow> (json \<Rightarrow> json \<Rightarrow> json \<Rightarrow> dict result) \<Rightarrow> byte list \<Rightarrow> int \<times> dict" where
  "run_receiver_publish loads client stream =
     (case request_line loads stream {''protocol_version'', ''operation'', ''storage_id'', ''transfer_id'', ''restore_point_id''}
        ''PUBLISH'' of
        None \<Rightarrow> (65, protocol_error ''PUBLISH_PROTOCOL_INVALID'')
      | Some v \<Rightarrow>
          (case client (dget_or v ''storage_id'' JNull) (dget_or v ''transfer_id'' JNull)
             (dget_or v ''restore_point_id'' JNull) of
             Inr r \<Rightarrow> (0, AList.merge [(''service'', JStr ''vmbackupd-receiver''), (''protocol_version'', JInt 1),
                          (''status'', JStr ''PUBLISHED'')] r)
           | Inl (ReceiverPublishError code) \<Rightarrow> (65, protocol_error code)
           | Inl _ \<Rightarrow> (70, protocol_error ''PUBLISH_INTERNAL_ERROR'')))"

definition run_receiver_reclaim_delete ::
  "(byte list \<Rightarrow> json option) \<Rightarrow> (json \<Rightarrow> json \<Rightarrow> json \<Rightarrow> dict result) \<Rightarrow> byte list \<Rightarrow> (int \<times> dict) result" where
  "run_receiver_reclaim_delete loads client stream =
     (case request_line loads stream {''protocol_version'', ''operation'', ''storage_id'', ''restore_point_id'', ''bundle_object_id''}
        ''RECLAIM_DELETE'' of
        None \<Rightarrow> Inr (69, protocol_error ''RECLAIM_DELETE_PROTOCOL_INVALID'')
      | Some v \<Rightarrow>
          (case client (dget_or v ''storage_id'' JNull) (dget_or v ''restore_point_id'' JNull)
             (dget_or v ''bundle_object_id'' JNull) of
             Inr r \<Rightarrow> Inr (0, AList.merge [(''service'', JStr ''vmbackupd-receiver''), (''protocol_version'', JInt 1),
                          (''status'', JStr ''DELETED'')] r)
           | Inl (ReceiverReclaimDeleteError code) \<Rightarrow> Inr (69, protocol_error code)
           | Inl e \<Rightarrow> Inl e))"

end
