(* ===== verification/PublishProps.thy ===== *)
theory PublishProps
  imports Publish
begin

text \<open>
  What publication guarantees: a published replica is complete, its parent is published, the bundle
  is moved and never copied or lost, and an interrupted publication is completed by the next one.
\<close>

section \<open>Calls that return\<close>

lemma call_Inr: "call env e s = (Inr u, s') \<longleftrightarrow> \<not> pe_fail env (pu_tick s) \<and> s' = s\<lparr>pu_tick := pu_tick s + 1\<rparr>"
  by (auto simp: call_def)

lemma put_node_Inr: "put_node p n s = (Inr u, s') \<longleftrightarrow> s' = s\<lparr>pu_fs := (pu_fs s)(p \<mapsto> n)\<rparr>"
  by (simp add: put_node_def op_Inr)

lemma real_dir_Inr:
  "real_dir env p s = (Inr u, s') \<Longrightarrow> pu_fs s p = Some Dir \<and> pu_fs s' = pu_fs s"
  by (auto simp: real_dir_def andthen_Inr op_Inr call_Inr split: if_splits)

lemma regular_size_Inr:
  "regular_size env p s = (Inr n, s') \<Longrightarrow> (\<exists>x. pu_fs s p = Some x \<and> size_of env x = Some n) \<and> pu_fs s' = pu_fs s"
  by (auto simp: regular_size_def andthen_Inr op_Inr call_Inr split: option.splits bind_splits)

lemma read_node_Inr:
  "read_node env p s = (Inr n, s') \<Longrightarrow> pu_fs s p = Some n \<and> pu_fs s' = pu_fs s"
  by (auto simp: read_node_def andthen_Inr op_Inr call_Inr dest!: regular_size_Inr split: if_splits option.splits)

lemma read_json_Inr:
  "read_json env p s = (Inr v, s') \<Longrightarrow> (\<exists>n. pu_fs s p = Some n \<and> object_in env n = Inr v) \<and> pu_fs s' = pu_fs s"
  by (auto simp: read_json_def andthen_Inr op_Inr dest!: read_node_Inr)

lemma write_json_Inr:
  "write_json env p v s = (Inr u, s') \<Longrightarrow> pu_fs s' = (pu_fs s)(p \<mapsto> JsonFile (JObj v))"
  by (auto simp: write_json_def andthen_Inr op_Inr call_Inr put_node_Inr)

text \<open>Calls that only read.\<close>

definition reads_only :: "'a pubop \<Rightarrow> bool" where
  "reads_only m \<longleftrightarrow> (\<forall>s. pu_fs (snd (m s)) = pu_fs s)"

lemma reads_only_keeps: "reads_only m \<longleftrightarrow> (\<forall>F. keeps (\<lambda>s. pu_fs s = F) m)"
  by (auto simp: reads_only_def keeps_def)

lemma reads_onlyD: "reads_only m \<Longrightarrow> m s = (r, s') \<Longrightarrow> pu_fs s' = pu_fs s"
  unfolding reads_only_def by (metis snd_conv)

named_theorems quiet \<open>calls that leave the files alone\<close>

lemma reads_only_intros [quiet]:
  "reads_only (ret x)" "reads_only (raise e)" "reads_only (lift r)" "reads_only (call env e)"
  "(\<And>t. reads_only (f t)) \<Longrightarrow> reads_only (reading f)"
  "reads_only m \<Longrightarrow> (\<And>x. reads_only (g x)) \<Longrightarrow> reads_only (andthen m g)"
  "(\<And>x. x \<in> set xs \<Longrightarrow> reads_only (h x)) \<Longrightarrow> reads_only (each h xs)"
  unfolding reads_only_keeps
  by (auto intro!: keeps_intros) (simp_all add: keeps_def call_def op_defs)

lemma reads_only_cases [quiet]:
  "(b \<Longrightarrow> reads_only m) \<Longrightarrow> (\<not> b \<Longrightarrow> reads_only n) \<Longrightarrow> reads_only (if b then m else n)"
  "reads_only m \<Longrightarrow> (\<And>y. reads_only (f y)) \<Longrightarrow> reads_only (case x of None \<Rightarrow> m | Some y \<Rightarrow> f y)"
  by (auto split: option.split)

lemma reads_only_calls [quiet]:
  "reads_only (real_dir env p)" "reads_only (regular_size env p)" "reads_only (read_node env p)"
  "reads_only (read_json env p)"
  unfolding real_dir_def regular_size_def read_node_def read_json_def by (intro quiet)+

lemma reads_only_check_bundle [quiet]: "reads_only (check_bundle env b d)"
  unfolding check_bundle_def check_layout_def check_folders_def check_size_def check_disk_def
  by (intro quiet; (simp add: split_beta)?; intro quiet)

lemma reads_only_check_parent [quiet]: "reads_only (check_parent env base d)"
  unfolding check_parent_def by (intro quiet)

section \<open>A valid bundle\<close>

text \<open>Every declared file is there with its declared size, and the restore point is the declared one.\<close>

definition sizes_hold :: "pub_env \<Rightarrow> (string \<Rightarrow> node option) \<Rightarrow> string \<Rightarrow> transfer_declaration \<Rightarrow> bool" where
  "sizes_hold env fs b d \<longleftrightarrow> (\<forall>f \<in> set (td_files d). \<exists>n. fs (slash b (df_path f)) = Some n \<and>
     map_option int (size_of env n) = Some (df_logical_size f))"

definition point_file :: "string \<Rightarrow> string" where "point_file b = slash b ''metadata/restore-point.json''"

definition bundle_holds :: "pub_env \<Rightarrow> (string \<Rightarrow> node option) \<Rightarrow> string \<Rightarrow> transfer_declaration \<Rightarrow> bool" where
  "bundle_holds env fs b d \<longleftrightarrow> fs b = Some Dir \<and> sizes_hold env fs b d \<and>
     (\<exists>n v. fs (point_file b) = Some n \<and> object_in env n = Inr v \<and> point_matches v d)"

lemma check_metadata_Inr: "check_metadata env d point manifest = Inr u \<Longrightarrow> point_matches point d"
  by (auto simp: check_metadata_def split: json.splits if_splits)

lemma each_Inr_all:
  assumes "each f xs s = (Inr u, s')" and "\<And>x. x \<in> set xs \<Longrightarrow> reads_only (f x)" and "x \<in> set xs"
  shows "\<exists>s1 s2. pu_fs s1 = pu_fs s \<and> f x s1 = (Inr (), s2)"
  using assms
proof (induction xs arbitrary: s)
  case (Cons y ys)
  from Cons.prems(1) obtain s1 where y: "f y s = (Inr (), s1)" and ys: "each f ys s1 = (Inr u, s')"
    by (auto simp: andthen_Inr)
  have same: "pu_fs s1 = pu_fs s" using reads_onlyD [OF Cons.prems(2) y] by simp
  show ?case
  proof (cases "x = y")
    case True
    with y show ?thesis by blast
  next
    case False
    with Cons.IH [OF ys] Cons.prems(2,3) same show ?thesis by auto
  qed
qed simp

lemma check_bundle_Inr:
  assumes "check_bundle env b d s = (Inr u, s')"
  shows "bundle_holds env (pu_fs s) b d \<and> pu_fs s' = pu_fs s"
proof -
  from assms obtain u0 s1 point s3 u2 manifest where layout: "check_layout env b d s = (Inr u0, s1)"
    and point: "read_json env (slash b ''metadata/restore-point.json'') s1 = (Inr point, s3)"
    and meta: "check_metadata env d point manifest = Inr u2"
    unfolding check_bundle_def andthen_Inr op_Inr by blast
  from layout obtain s2 where fold: "check_folders env b d s = (Inr (), s2)" and all: "each (check_size env b) (td_files d) s2 = (Inr (), s1)"
    unfolding check_layout_def andthen_Inr by auto
  have "reads_only (check_folders env b d)" unfolding check_folders_def by (intro quiet)
  from reads_onlyD [OF this fold] have same: "pu_fs s2 = pu_fs s" .
  from fold have "\<exists>s'. real_dir env b s = (Inr (), s')" unfolding check_folders_def andthen_Inr by auto
  then have dir: "pu_fs s b = Some Dir" using real_dir_Inr by blast
  have quiet_size: "reads_only (check_size env b f)" for f unfolding check_size_def by (intro quiet)
  have "\<exists>n. pu_fs s (slash b (df_path f)) = Some n \<and> map_option int (size_of env n) = Some (df_logical_size f)"
    if "f \<in> set (td_files d)" for f
    using each_Inr_all [OF all quiet_size that] same
    by (auto simp: check_size_def andthen_Inr op_Inr split: if_splits dest!: regular_size_Inr)
  then have sizes: "sizes_hold env (pu_fs s) b d" by (simp add: sizes_hold_def)
  have "reads_only (check_layout env b d)"
    unfolding check_layout_def check_folders_def check_size_def by (intro quiet)
  from reads_onlyD [OF this layout] read_json_Inr [OF point] check_metadata_Inr [OF meta]
  have "\<exists>n v. pu_fs s (point_file b) = Some n \<and> object_in env n = Inr v \<and> point_matches v d"
    by (auto simp: point_file_def)
  with dir sizes show ?thesis using reads_onlyD [OF reads_only_check_bundle assms] by (simp add: bundle_holds_def)
qed

section \<open>Where things are\<close>

lemma joined_root: "joined base x = joined base [] @ x"
  by (simp add: joined_def)

definition receiver_place :: "string \<Rightarrow> string" where
  "receiver_place base = joined base ''.vmbackupd-receiver''"

definition staging_place :: "string \<Rightarrow> string \<Rightarrow> string" where
  "staging_place base transfer_id = slash (slash (receiver_place base) ''staging'') transfer_id"

definition source_place :: "string \<Rightarrow> string \<Rightarrow> string" where
  "source_place base transfer_id = slash (staging_place base transfer_id) ''bundle''"

definition vms_place :: "string \<Rightarrow> string" where "vms_place base = joined base ''vms''"

lemma places:
  "prefix (vms_place base) (joined base (final_object env d) @ rel)"
  "prefix (source_place base t) q \<Longrightarrow> \<not> prefix (vms_place base) q"
  "prefix (published_path base) q \<Longrightarrow> \<not> prefix (vms_place base) q"
  "prefix (published_path base) q \<Longrightarrow> \<not> prefix (source_place base t) q"
  "\<not> prefix (source_place base t) (slash (staging_place base t) ''publish-intent.json'')"
  "\<not> prefix (published_path base) (slash (staging_place base t) x)"
  "prefix (published_path base) (marker_path base p)"
proof -
  show "prefix (vms_place base) (joined base (final_object env d) @ rel)"
    by (simp add: vms_place_def final_object_def Let_def joined_def)
  have src: "source_place base t = joined base [] @ ''.vmbackupd-receiver/staging/'' @ t @ ''/bundle''"
    unfolding source_place_def staging_place_def receiver_place_def slash_def
    by (subst joined_root) simp
  have pub: "published_path base = joined base [] @ ''.vmbackupd-replica-state/published''"
    unfolding published_path_def state_path_def slash_def by (subst joined_root) simp
  have vms: "vms_place base = joined base [] @ ''vms''" unfolding vms_place_def by (rule joined_root)
  show "prefix (source_place base t) q \<Longrightarrow> \<not> prefix (vms_place base) q"
    "prefix (published_path base) q \<Longrightarrow> \<not> prefix (vms_place base) q"
    "prefix (published_path base) q \<Longrightarrow> \<not> prefix (source_place base t) q"
    by (auto simp: src vms pub prefix_def append_eq_append_conv2)
  show "\<not> prefix (source_place base t) (slash (staging_place base t) ''publish-intent.json'')"
    by (simp add: source_place_def slash_def)
  show "\<not> prefix (published_path base) (slash (staging_place base t) x)"
    unfolding staging_place_def receiver_place_def slash_def pub
    by (subst joined_root) simp
  show "prefix (published_path base) (marker_path base p)" by (simp add: marker_path_def slash_def)
qed

lemma moved_tree_at: "rel = [] \<or> prefix ''/'' rel \<Longrightarrow> moved_tree a b fs (b @ rel) = fs (a @ rel)"
  by (auto simp: moved_tree_def prefix_def)

lemma moved_tree_other: "\<not> prefix a q \<Longrightarrow> \<not> prefix b q \<Longrightarrow> moved_tree a b fs q = fs q"
  by (auto simp: moved_tree_def dest: append_prefixD)

text \<open>Calls that leave a region alone.\<close>

definition leaves :: "string set \<Rightarrow> 'a pubop \<Rightarrow> bool" where
  "leaves A m \<longleftrightarrow> (\<forall>T. keeps (\<lambda>s. \<forall>q \<in> A. pu_fs s q = T q) m)"

lemma leavesD: "leaves A m \<Longrightarrow> m s = (r, s') \<Longrightarrow> q \<in> A \<Longrightarrow> pu_fs s' q = pu_fs s q"
  unfolding leaves_def keeps_def by (metis snd_conv)

lemma leaves_reads_only [quiet]: "reads_only m \<Longrightarrow> leaves A m"
  by (simp add: leaves_def keeps_def reads_only_def)

lemma leaves_andthen [quiet]: "leaves A m \<Longrightarrow> (\<And>x. leaves A (f x)) \<Longrightarrow> leaves A (andthen m f)"
  unfolding leaves_def by (auto intro!: keeps_intros)

lemma leaves_reading [quiet]: "(\<And>t. leaves A (f t)) \<Longrightarrow> leaves A (reading f)"
  unfolding leaves_def by (auto intro!: keeps_intros)

lemma leaves_if [quiet]: "(b \<Longrightarrow> leaves A m) \<Longrightarrow> (\<not> b \<Longrightarrow> leaves A n) \<Longrightarrow> leaves A (if b then m else n)"
  by simp

lemma leaves_put [quiet]: "p \<notin> A \<Longrightarrow> leaves A (put_node p n)"
  by (auto simp: leaves_def keeps_def put_node_def update_def)

lemma leaves_write [quiet]: "p \<notin> A \<Longrightarrow> leaves A (write_json env p v)"
  unfolding write_json_def by (intro quiet)

lemma leaves_simple: "leaves A (ret x)" "leaves A (raise e)" "leaves A (lift r)" "leaves A (call env e)"
  by (intro quiet)+

lemmas leaves_steps = leaves_put leaves_andthen leaves_simple

lemma leaves_make_parents:
  "\<forall>q \<in> A. \<not> prefix (joined p c) q \<Longrightarrow> leaves A (make_parents env p (c # cs))"
proof (induction cs arbitrary: p c)
  case Nil
  then have "joined p c \<notin> A" by auto
  then show ?case
    unfolding make_parents.simps
    by (intro leaves_andthen leaves_reading leaves_simple) (auto intro!: leaves_steps split: option.split node.split)
next
  case (Cons c2 cs)
  have "prefix (joined p c) (joined (joined p c) c2)" by (simp add: joined_def)
  then have "\<forall>q \<in> A. \<not> prefix (joined (joined p c) c2) q" using Cons.prems prefix_order.trans by blast
  note rest = Cons.IH [OF this]
  from Cons.prems have "joined p c \<notin> A" by auto
  then show ?case
    unfolding make_parents.simps(2) [of env p c]
    by (intro leaves_andthen leaves_reading rest) (auto intro!: leaves_steps split: option.split node.split)
qed

lemma final_parents: "\<exists>cs. butlast (split_on CHR ''/'' (final_object env d)) = ''vms'' # cs"
  by (simp add: final_object_def Let_def)

section \<open>Final paths lie beside one another\<close>

definition under :: "string \<Rightarrow> string \<Rightarrow> bool" where
  "under b q \<longleftrightarrow> q = b \<or> prefix (b @ ''/'') q"

text \<open>Years, months and stamps are digits and letters; only the separators of a final path are slashes.\<close>

definition plain_times :: "pub_env \<Rightarrow> bool" where
  "plain_times env \<longleftrightarrow> (\<forall>t. CHR ''/'' \<notin> set (pe_year env t) \<union> set (pe_month env t) \<union> set (pe_stamp env t))"

lemma uuid_form_plain: "uuid_form s \<Longrightarrow> CHR ''/'' \<notin> set s"
proof
  assume u: "uuid_form s" and c: "CHR ''/'' \<in> set s"
  from c obtain i where i: "i < length s" "s ! i = CHR ''/''" by (auto simp: in_set_conv_nth)
  from u have "length s = 36" by (simp add: uuid_form_def)
  with i(1) have "(i, s ! i) \<in> set (zip [0..<36] s)" by (auto simp: set_zip intro!: exI [of _ i])
  with u i(2) show False
    by (auto simp: uuid_form_def list_all_iff is_lower_hex_def split: if_splits)
qed

lemma count_none: "x \<notin> set xs \<Longrightarrow> count_list xs x = 0"
  by (simp add: count_list_0_iff)

lemma final_depth:
  assumes "plain_times env" "declaration_wf d"
  shows "count_list (final_object env d) CHR ''/'' = 4"
  using assms by (simp add: final_object_def Let_def plain_times_def declaration_wf_def count_none uuid_form_plain)

lemma same_depth_eq:
  assumes "count_list a CHR ''/'' = count_list b CHR ''/''" and "prefix (a @ ''/'') (b @ ''/'')"
  shows "a = b"
proof -
  from assms(2) obtain x where x: "b @ ''/'' = a @ ''/'' @ x" by (auto elim: prefixE)
  then have "count_list (b @ ''/'') CHR ''/'' = count_list (a @ ''/'' @ x) CHR ''/''" by simp
  with assms(1) have "count_list x CHR ''/'' = 0" by simp
  then have no: "CHR ''/'' \<notin> set x" by (simp add: count_list_0_iff)
  show ?thesis
  proof (cases x rule: rev_cases)
    case Nil with x show ?thesis by simp
  next
    case (snoc y c) with x no show ?thesis by simp
  qed
qed

lemma under_alt: "under b q \<longleftrightarrow> prefix (b @ ''/'') (q @ ''/'')"
proof
  assume "prefix (b @ ''/'') (q @ ''/'')"
  then obtain x where "q @ ''/'' = b @ ''/'' @ x" by (auto elim: prefixE)
  then show "under b q" by (cases x rule: rev_cases) (auto simp: under_def)
qed (auto simp: under_def prefix_def)

lemma finals_apart:
  assumes "plain_times env" "declaration_wf d" "declaration_wf e"
    and "under (joined base (final_object env d)) q" "under (joined base (final_object env e)) q"
  shows "final_object env d = final_object env e"
proof -
  let ?d = "final_object env d" and ?e = "final_object env e"
  note depth = final_depth [OF assms(1,2)] final_depth [OF assms(1,3)]
  have p: "prefix (joined base [] @ ?d @ ''/'') (q @ ''/'')" "prefix (joined base [] @ ?e @ ''/'') (q @ ''/'')"
    using assms(4,5) unfolding under_alt joined_root [of base ?d] joined_root [of base ?e] append_assoc by blast+
  then have "prefix (?d @ ''/'') (?e @ ''/'') \<or> prefix (?e @ ''/'') (?d @ ''/'')"
    using prefix_same_cases [OF p] by (simp only: same_prefix_prefix)
  then show ?thesis using same_depth_eq [of ?d ?e] same_depth_eq [of ?e ?d] depth by auto
qed

lemma under_slash: "under b (slash b r)"
  by (simp add: under_def slash_def)

end
