(* ===== verification/PublishHistory.thy ===== *)
theory PublishHistory
  imports PublishProps
begin

text \<open>
  What holds of a receiver's storage root over a history of publications and deletions, whatever
  system calls fail: a published replica is complete and so is its chain, and the published
  markers evolve as an abstract catalogue.
\<close>

section \<open>Published replicas\<close>

text \<open>The marker of \<open>d\<close> is the record \<open>publish_staged_replica\<close> writes, and its bundle is at the canonical path.\<close>

definition marked :: "pub_env \<Rightarrow> string \<Rightarrow> (string \<Rightarrow> node option) \<Rightarrow> string \<Rightarrow> transfer_declaration \<Rightarrow> bool" where
  "marked env base fs p d \<longleftrightarrow> declaration_wf d \<and> td_restore_point_id d = p \<and>
     fs (marker_path base p) = Some (JsonFile (JObj (replica_record ''PUBLISHED'' d (final_object env d)))) \<and>
     bundle_holds env fs (joined base (final_object env d)) d"

definition follows :: "transfer_declaration \<Rightarrow> transfer_declaration \<Rightarrow> bool" where
  "follows d e \<longleftrightarrow> td_chain_id e = td_chain_id d \<and> td_storage_id e = td_storage_id d \<and> td_sequence d = td_sequence e + 1"

inductive published :: "pub_env \<Rightarrow> string \<Rightarrow> (string \<Rightarrow> node option) \<Rightarrow> string \<Rightarrow> transfer_declaration \<Rightarrow> bool"
  for env base fs where
  published_full: "marked env base fs p d \<Longrightarrow> td_parent d = None \<Longrightarrow> published env base fs p d"
| published_next: "marked env base fs p d \<Longrightarrow> td_parent d = Some q \<Longrightarrow> published env base fs q e \<Longrightarrow> follows d e \<Longrightarrow>
    published env base fs p d"

lemma published_marked: "published env base fs p d \<Longrightarrow> marked env base fs p d"
  by (induction rule: published.induct) simp_all

definition receiver_ok :: "pub_env \<Rightarrow> string \<Rightarrow> (string \<Rightarrow> node option) \<Rightarrow> bool" where
  "receiver_ok env base fs \<longleftrightarrow> (\<forall>p. fs (marker_path base p) \<noteq> None \<longrightarrow> (\<exists>d. published env base fs p d))"

section \<open>Changes that keep what is published\<close>

definition settled :: "pub_env \<Rightarrow> string \<Rightarrow> (string \<Rightarrow> node option) \<Rightarrow> (string \<Rightarrow> node option) \<Rightarrow> bool" where
  "settled env base fs fs' \<longleftrightarrow> (\<forall>q n. fs q = Some n \<longrightarrow> \<not> prefix (receiver_place base) q \<longrightarrow>
     (\<forall>x. declaration_wf x \<longrightarrow> under (joined base (final_object env x)) q \<longrightarrow> fs (joined base (final_object env x)) \<noteq> None) \<longrightarrow>
     fs' q = Some n)"

lemma outside:
  "\<not> prefix (receiver_place base) (marker_path base p)"
  "\<not> under (joined base (final_object env x)) (marker_path base p)"
  "\<not> prefix (receiver_place base) (joined base (final_object env x) @ rel)"
proof -
  obtain j where j: "\<And>x. joined base x = j @ x" using joined_root by blast
  have m: "marker_path base p = j @ ''.vmbackupd-replica-state/published/'' @ p @ ''.json''"
    by (simp add: marker_path_def published_path_def state_path_def slash_def j)
  have r: "receiver_place base = j @ ''.vmbackupd-receiver''" by (simp add: receiver_place_def j)
  have f: "joined base (final_object env x) = j @ ''vms/'' @ drop 4 (final_object env x)"
    unfolding j by (simp add: final_object_def Let_def)
  show "\<not> prefix (receiver_place base) (marker_path base p)" unfolding m r same_prefix_prefix by simp
  show "\<not> under (joined base (final_object env x)) (marker_path base p)"
    unfolding under_alt m f append_assoc same_prefix_prefix by simp
  show "\<not> prefix (receiver_place base) (joined base (final_object env x) @ rel)"
    unfolding r f append_assoc same_prefix_prefix by simp
qed

lemma settled_marked:
  assumes "plain_times env" "settled env base fs fs'" "marked env base fs p d"
  shows "marked env base fs' p d"
proof -
  let ?b = "joined base (final_object env d)"
  have wf: "declaration_wf d" and b: "bundle_holds env fs ?b d" and dir: "fs ?b = Some Dir"
    using assms(3) by (auto simp: marked_def bundle_holds_def)
  have step: "fs q = Some n \<Longrightarrow> under ?b q \<Longrightarrow> fs' q = Some n" for q n
  proof -
    assume q: "fs q = Some n" "under ?b q"
    have "fs (joined base (final_object env x)) \<noteq> None"
      if "declaration_wf x" "under (joined base (final_object env x)) q" for x
      using finals_apart [OF assms(1) wf that(1) q(2) that(2)] dir by simp
    moreover from q(2) obtain rel where "q = ?b @ rel" by (auto simp: under_def elim!: prefixE)
    then have "\<not> prefix (receiver_place base) q" using outside(3) by simp
    ultimately show "fs' q = Some n" using assms(2) q(1) by (auto simp: settled_def)
  qed
  have "fs' (marker_path base p) = fs (marker_path base p)"
    using assms(2,3) outside(1,2) [of base] by (auto simp: settled_def marked_def)
  moreover have "bundle_holds env fs' ?b d"
    using b step [OF _ under_slash] step [OF dir] unfolding bundle_holds_def sizes_hold_def point_file_def
    by (auto simp: under_def)
  ultimately show ?thesis using assms(3) by (simp add: marked_def)
qed

lemma settled_published:
  assumes "plain_times env" "settled env base fs fs'" "published env base fs p d"
  shows "published env base fs' p d"
  using assms(3) by induction (auto intro: published.intros settled_marked [OF assms(1,2)])

definition calm :: "pub_env \<Rightarrow> string \<Rightarrow> (string \<Rightarrow> node option) \<Rightarrow> (string \<Rightarrow> node option) \<Rightarrow> bool" where
  "calm env base fs fs' \<longleftrightarrow> (\<forall>p. fs' (marker_path base p) = fs (marker_path base p)) \<and>
     (\<forall>p d. published env base fs p d \<longrightarrow> published env base fs' p d)"

lemma calm_refl [simp]: "calm env base fs fs"
  by (simp add: calm_def)

lemma calm_trans [trans]: "calm env base fs fs1 \<Longrightarrow> calm env base fs1 fs2 \<Longrightarrow> calm env base fs fs2"
  by (simp add: calm_def)

lemma calm_ok: "calm env base fs fs' \<Longrightarrow> receiver_ok env base fs \<Longrightarrow> receiver_ok env base fs'"
  unfolding calm_def receiver_ok_def by metis

lemma calmI:
  "plain_times env \<Longrightarrow> settled env base fs fs' \<Longrightarrow> (\<And>p. fs' (marker_path base p) = fs (marker_path base p)) \<Longrightarrow>
     calm env base fs fs'"
  by (simp add: calm_def settled_published)

definition grown :: "(string \<Rightarrow> node option) \<Rightarrow> (string \<Rightarrow> node option) \<Rightarrow> bool" where
  "grown fs fs' \<longleftrightarrow> (\<forall>q n. fs q = Some n \<longrightarrow> fs' q = Some n)"

lemma grown_settled: "grown fs fs' \<Longrightarrow> settled env base fs fs'"
  by (auto simp: grown_def settled_def)

text \<open>Calls that only create nodes.\<close>

definition grows :: "'a pubop \<Rightarrow> bool" where
  "grows m \<longleftrightarrow> (\<forall>s. grown (pu_fs s) (pu_fs (snd (m s))))"

lemma growsD: "grows m \<Longrightarrow> m s = (r, s') \<Longrightarrow> grown (pu_fs s) (pu_fs s')"
  unfolding grows_def by (metis snd_conv)

lemma grown_refl [simp]: "grown fs fs"
  by (simp add: grown_def)

lemma grown_trans: "grown fs fs1 \<Longrightarrow> grown fs1 fs2 \<Longrightarrow> grown fs fs2"
  by (simp add: grown_def)

lemma grows_quiet: "reads_only m \<Longrightarrow> grows m"
  by (simp add: grows_def reads_only_def)

lemma grows_andthen: "grows m \<Longrightarrow> (\<And>x. grows (f x)) \<Longrightarrow> grows (andthen m f)"
  unfolding grows_def andthen_def
  by (auto split: prod.split sum.split) (metis grown_trans snd_conv)+

lemma grows_create:
  "grows m \<Longrightarrow> grows (reading (\<lambda>s. if pu_fs s p = None then put_node p n else m))"
  by (auto simp: grows_def reading_def put_node_def update_def grown_def)

lemma grows_ensure_dir: "grows (ensure_dir env p)"
  unfolding ensure_dir_def
  by (intro grows_andthen grows_create) (auto intro!: grows_quiet quiet split: option.split node.split)

lemma grows_take_lock: "grows (take_lock env base)"
  by (auto simp: take_lock_def Let_def grows_def grown_def op_defs call_def put_node_def
    split: sum.split option.split node.split prod.split)

lemma grows_write:
  assumes "pu_fs s p = None"
  shows "grown (pu_fs s) (pu_fs (snd (write_json env p v s)))"
  using assms by (auto simp: write_json_def grown_def op_defs call_def put_node_def
    split: sum.split prod.split)

lemma grows_make_parents: "grows (make_parents env p cs)"
proof (induction cs arbitrary: p)
  case (Cons c cs)
  have "grows (reading (\<lambda>s. case pu_fs s (joined p c) of
         None \<Rightarrow> andthen (call env OtherException) (\<lambda>_. andthen (put_node (joined p c) Dir) (\<lambda>_.
                 andthen (call env OtherException) (\<lambda>_. call env OtherException)))
       | Some Dir \<Rightarrow> call env OtherException
       | _ \<Rightarrow> raise OtherException))"
    by (auto simp: grows_def grown_def op_defs call_def put_node_def split: sum.split option.split node.split prod.split)
  with Cons.IH show ?case unfolding make_parents.simps(2) by (intro grows_andthen)
qed (simp add: grows_def ret_def)

section \<open>What a publication does to the files\<close>

text \<open>\<open>outcome m s Q\<close>: the result and the state \<open>m\<close> leaves, returned or raised, satisfy \<open>Q\<close>.\<close>

definition outcome :: "'a pubop \<Rightarrow> pub \<Rightarrow> ('a result \<Rightarrow> pub \<Rightarrow> bool) \<Rightarrow> bool" where
  "outcome m s Q \<longleftrightarrow> Q (fst (m s)) (snd (m s))"

lemma outcomeD: "outcome m s Q \<Longrightarrow> m s = (r, s') \<Longrightarrow> Q r s'"
  by (simp add: outcome_def)

lemma outcome_basic: "Q (Inr x) s \<Longrightarrow> outcome (ret x) s Q" "Q (Inl e) s \<Longrightarrow> outcome (raise e) s Q"
  "outcome (f s) s Q \<Longrightarrow> outcome (reading f) s Q" "Q r s \<Longrightarrow> outcome (lift r) s Q"
  by (simp_all add: outcome_def op_defs)

lemma outcome_andthen:
  assumes "\<And>e s1. m s = (Inl e, s1) \<Longrightarrow> Q (Inl e) s1" and "\<And>x s1. m s = (Inr x, s1) \<Longrightarrow> outcome (f x) s1 Q"
  shows "outcome (andthen m f) s Q"
proof (cases "m s")
  case (Pair r s1)
  with assms show ?thesis by (cases r) (simp_all add: outcome_def andthen_def)
qed

lemma outcome_quiet:
  assumes "reads_only m" and "\<And>e s1. pu_fs s1 = pu_fs s \<Longrightarrow> Q (Inl e) s1"
    and "\<And>x s1. m s = (Inr x, s1) \<Longrightarrow> pu_fs s1 = pu_fs s \<Longrightarrow> outcome (f x) s1 Q"
  shows "outcome (andthen m f) s Q"
  by (rule outcome_andthen) (use assms in \<open>auto dest: reads_onlyD\<close>)

lemma outcome_if:
  "(b \<Longrightarrow> outcome m s Q) \<Longrightarrow> (\<not> b \<Longrightarrow> outcome n s Q) \<Longrightarrow> outcome (if b then m else n) s Q"
  by simp

abbreviation markers :: "string \<Rightarrow> string set" where "markers base \<equiv> range (marker_path base)"

lemma calm_op:
  assumes "plain_times env" "grows m" "leaves (markers base) m" "m s = (r, s')"
  shows "calm env base (pu_fs s) (pu_fs s')"
  using assms(1) grown_settled [OF growsD [OF assms(2,4)]]
  by (rule calmI) (auto intro!: leavesD [OF assms(3,4)])

lemma leaves_ensure_dir: "p \<notin> A \<Longrightarrow> leaves A (ensure_dir env p)"
  unfolding ensure_dir_def
  by (intro leaves_andthen leaves_reading) (auto intro!: quiet intro: leaves_put split: option.split node.split)

lemma leaves_take_lock: "slash (state_path base) ''publish.lock'' \<notin> A \<Longrightarrow> leaves A (take_lock env base)"
  unfolding take_lock_def Let_def
  by (intro leaves_andthen leaves_reading) (auto intro!: leaves_steps split: option.split node.split)

lemma not_marker:
  "state_path base \<notin> markers base" "published_path base \<notin> markers base"
  "slash (state_path base) ''publish.lock'' \<notin> markers base"
  "slash (staging_place base t) x \<notin> markers base"
proof -
  have "state_path base \<noteq> marker_path base p" "published_path base \<noteq> marker_path base p"
    "slash (state_path base) ''publish.lock'' \<noteq> marker_path base p" for p
    by (simp_all add: marker_path_def published_path_def slash_def)
  then show "state_path base \<notin> markers base" "published_path base \<notin> markers base"
    "slash (state_path base) ''publish.lock'' \<notin> markers base" by blast+
  show "slash (staging_place base t) x \<notin> markers base" using places(6,7) by (metis rangeE)
qed

lemma state_calm:
  assumes "plain_times env" "ensure_state env base s = (r, s')"
  shows "calm env base (pu_fs s) (pu_fs s')"
  using assms(1) _ _ assms(2)
  unfolding ensure_state_def
  by (rule calm_op) (intro grows_andthen grows_ensure_dir leaves_andthen leaves_ensure_dir not_marker)+

lemma lock_calm:
  assumes "plain_times env" "take_lock env base s = (r, s')"
  shows "calm env base (pu_fs s) (pu_fs s')"
  using assms(1) grows_take_lock leaves_take_lock [OF not_marker(3)] assms(2) by (rule calm_op)

lemma move_bundle_effect:
  "outcome (move_bundle env base source (final_object env d)) s (\<lambda>r s'. \<exists>fs1. grown (pu_fs s) fs1 \<and>
     (\<forall>q. \<not> prefix (vms_place base) q \<longrightarrow> fs1 q = pu_fs s q) \<and>
     ((\<exists>e. r = Inl e) \<and> pu_fs s' = fs1 \<or>
      fs1 (joined base (final_object env d)) = None \<and> pu_fs s' = moved_tree source (joined base (final_object env d)) fs1))"
    (is "outcome _ s ?Q")
proof -
  let ?A = "{q. \<not> prefix (vms_place base) q}"
  obtain cs where cs: "butlast (split_on CHR ''/'' (final_object env d)) = ''vms'' # cs" using final_parents by blast
  have lv: "leaves ?A (make_parents env base (''vms'' # cs))" by (rule leaves_make_parents) (simp add: vms_place_def)
  have same: "?Q (Inl e) s'" if "pu_fs s' = pu_fs s" for e s'
    using that by (intro exI [of _ "pu_fs s"]) auto
  have renamed: "outcome (rename_bundle env source (joined base (final_object env d))) s2 ?Q"
    if "grown (pu_fs s) (pu_fs s2)" "\<And>q. q \<in> ?A \<Longrightarrow> pu_fs s2 q = pu_fs s q" for s2
    using that by (auto simp: rename_bundle_def outcome_def op_defs call_def split: sum.split prod.split)
  have "outcome (andthen (make_parents env base (''vms'' # cs)) (\<lambda>_.
      rename_bundle env source (joined base (final_object env d)))) s1 ?Q" if "pu_fs s1 = pu_fs s" for s1
  proof (rule outcome_andthen)
    fix e s2 assume m: "make_parents env base (''vms'' # cs) s1 = (Inl e, s2)"
    show "?Q (Inl e) s2"
      using growsD [OF grows_make_parents m] leavesD [OF lv m] that by (intro exI [of _ "pu_fs s2"]) auto
  next
    fix u s2 assume m: "make_parents env base (''vms'' # cs) s1 = (Inr u, s2)"
    show "outcome (rename_bundle env source (joined base (final_object env d))) s2 ?Q"
      using growsD [OF grows_make_parents m] leavesD [OF lv m] that by (intro renamed) auto
  qed
  note rest = this
  show ?thesis unfolding move_bundle_def cs
  proof (rule outcome_basic(3))
    show "outcome (if \<not> no_symlink (pu_fs s) base \<or> \<not> no_symlink (pu_fs s) source then raise OtherException
      else andthen (call env OtherException) (\<lambda>_. andthen (make_parents env base (''vms'' # cs)) (\<lambda>_.
        rename_bundle env source (joined base (final_object env d))))) s ?Q"
      by (rule outcome_if, rule outcome_basic(2), rule same [OF refl], rule outcome_quiet,
        rule reads_only_intros(4), erule same, erule rest)
  qed
qed


lemma moved_calm:
  assumes "plain_times env" "fs1 (joined base (final_object env d)) = None" "declaration_wf d"
  shows "calm env base fs1 (moved_tree (source_place base t) (joined base (final_object env d)) fs1)"
proof (rule calmI [OF assms(1)])
  let ?f = "joined base (final_object env d)"
  have src: "prefix (receiver_place base) (source_place base t)"
    by (simp add: source_place_def staging_place_def slash_def)
  have far: "under (source_place base t) q \<Longrightarrow> prefix (receiver_place base) q" for q
    using src by (auto simp: under_def elim!: prefixE)
  have other: "\<not> under (source_place base t) q \<Longrightarrow> \<not> under ?f q \<Longrightarrow>
      moved_tree (source_place base t) ?f fs1 q = fs1 q" for q
    by (auto simp: moved_tree_def under_def)
  show "settled env base fs1 (moved_tree (source_place base t) ?f fs1)"
    unfolding settled_def using assms(2,3) other far by metis
  show "moved_tree (source_place base t) ?f fs1 (marker_path base p) = fs1 (marker_path base p)" for p
    using other far outside(1,2) by metis
qed

lemma bundle_moved:
  assumes "bundle_holds env fs source d" "\<And>rel. fs1 (source @ rel) = fs (source @ rel)"
  shows "bundle_holds env (moved_tree source final fs1) final d"
proof -
  have "moved_tree source final fs1 final = fs source"
    using assms(2) [of "[]"] moved_tree_at [of "[]" source final fs1] by simp
  moreover have "moved_tree source final fs1 (slash final r) = fs (slash source r)" for r
    using assms(2) [of "''/'' @ r"] moved_tree_at [of "''/'' @ r" source final fs1] by (simp add: slash_def)
  ultimately show ?thesis using assms(1) by (simp add: bundle_holds_def sizes_hold_def point_file_def)
qed

definition settles_at :: "pub_env \<Rightarrow> string \<Rightarrow> transfer_declaration \<Rightarrow> (string \<Rightarrow> node option) \<Rightarrow> string result \<Rightarrow> pub \<Rightarrow> bool" where
  "settles_at env base d fs r s' \<longleftrightarrow> calm env base fs (pu_fs s') \<and>
     (\<forall>b. r = Inr b \<longrightarrow> b = final_object env d \<and> bundle_holds env (pu_fs s') (joined base b) d)"

lemma settles_error [simp]: "settles_at env base d fs (Inl e) s' \<longleftrightarrow> calm env base fs (pu_fs s')"
  by (simp add: settles_at_def)

lemma intent_effect:
  assumes "plain_times env"
  shows "outcome (confirm_intent env (slash (staging_place base t) ''publish-intent.json'') d v s) s
    (\<lambda>r s1. calm env base (pu_fs s) (pu_fs s1) \<and> (\<forall>rel. pu_fs s1 (source_place base t @ rel) = pu_fs s (source_place base t @ rel)))"
    (is "outcome (confirm_intent env ?i d v s) s _")
proof (cases "pu_fs s ?i")
  case None
  have g: "grown (pu_fs s) (pu_fs (snd (write_json env ?i v s)))" using None by (rule grows_write)
  have l: "leaves (- {?i}) (write_json env ?i v)" by (intro quiet) simp
  have other: "q \<noteq> ?i \<Longrightarrow> pu_fs (snd (write_json env ?i v s)) q = pu_fs s q" for q
    using leavesD [OF l, of s _ _ q] by (metis Compl_iff singletonD surjective_pairing)
  have "marker_path base p \<noteq> ?i" for p by (metis not_marker(4) rangeI)
  moreover have "source_place base t @ rel \<noteq> ?i" for rel using places(5) [of base t] by (metis prefixI)
  ultimately show ?thesis
    using None other calmI [OF assms grown_settled [OF g]] by (simp add: outcome_def confirm_intent_def)
next
  case (Some n)
  have "reads_only (if pu_fs s ?i \<noteq> None then
        andthen (read_json env ?i) (\<lambda>w.
        andthen (lift (record_matches w ''PUBLISH_INTENT'' (td_transfer_id d) (td_storage_id d)
          (td_restore_point_id d))) (\<lambda>_.
        if \<not> py_eq (JObj w) (JObj v) then refuse ''PUBLISH_STATE_CONFLICT'' else ret ()))
      else ret ())" by (intro quiet)
  with Some show ?thesis by (simp add: outcome_def confirm_intent_def reads_only_def)
qed

lemma move_effect:
  assumes "plain_times env" "declaration_wf d" "bundle_holds env (pu_fs s) (source_place base t) d"
  shows "outcome (andthen (move_bundle env base (source_place base t) (final_object env d)) (\<lambda>_. ret (final_object env d))) s
    (settles_at env base d (pu_fs s))"
proof -
  let ?f = "joined base (final_object env d)"
  have step: "calm env base (pu_fs s) (pu_fs s1) \<and> ((\<forall>e. r \<noteq> Inl e) \<longrightarrow> bundle_holds env (pu_fs s1) ?f d)"
    if m: "move_bundle env base (source_place base t) (final_object env d) s = (r, s1)" for r s1
  proof -
    from outcomeD [OF move_bundle_effect m] obtain fs1 where g: "grown (pu_fs s) fs1"
      and same: "\<And>q. \<not> prefix (vms_place base) q \<Longrightarrow> fs1 q = pu_fs s q"
      and alt: "(\<exists>e. r = Inl e) \<and> pu_fs s1 = fs1 \<or> fs1 ?f = None \<and> pu_fs s1 = moved_tree (source_place base t) ?f fs1"
      by blast
    have c: "calm env base (pu_fs s) fs1"
      using same places(3,7) by (intro calmI [OF assms(1) grown_settled [OF g]]) blast
    have src: "fs1 (source_place base t @ rel) = pu_fs s (source_place base t @ rel)" for rel
      using same places(2) by (meson prefixI)
    from alt show ?thesis
      using c calm_trans [OF c moved_calm [OF assms(1) _ assms(2)]] bundle_moved [OF assms(3) src] by auto
  qed
  show ?thesis
    by (rule outcome_andthen) (auto dest: step simp: settles_at_def outcome_def ret_def)
qed

lemma publish_source_effect:
  assumes "plain_times env" "declaration_wf d"
  shows "outcome (publish_source env base (staging_place base t) d) s (settles_at env base d (pu_fs s))"
  unfolding publish_source_def Let_def source_place_def [symmetric]
proof (rule outcome_quiet)
  fix u s1 assume chk: "check_bundle env (source_place base t) d s = (Inr u, s1)" and s1: "pu_fs s1 = pu_fs s"
  from check_bundle_Inr [OF chk] s1 have b: "bundle_holds env (pu_fs s1) (source_place base t) d" by simp
  show "outcome (reading (\<lambda>s. andthen (confirm_intent env (slash (staging_place base t) ''publish-intent.json'') d
      (replica_record ''PUBLISH_INTENT'' d (final_object env d)) s) (\<lambda>_. reading (\<lambda>s.
      if pu_fs s (joined base (final_object env d)) \<noteq> None then refuse ''PUBLISH_FINAL_COLLISION''
      else andthen (move_bundle env base (source_place base t) (final_object env d)) (\<lambda>_. ret (final_object env d))))))
    s1 (settles_at env base d (pu_fs s))"
  proof (rule outcome_basic(3), rule outcome_andthen)
    fix e s2
    assume "confirm_intent env (slash (staging_place base t) ''publish-intent.json'') d
      (replica_record ''PUBLISH_INTENT'' d (final_object env d)) s1 s1 = (Inl e, s2)"
    from outcomeD [OF intent_effect [OF assms(1)] this] s1 show "settles_at env base d (pu_fs s) (Inl e) s2" by simp
  next
    fix u s2
    assume "confirm_intent env (slash (staging_place base t) ''publish-intent.json'') d
      (replica_record ''PUBLISH_INTENT'' d (final_object env d)) s1 s1 = (Inr u, s2)"
    from outcomeD [OF intent_effect [OF assms(1)] this] s1
    have c: "calm env base (pu_fs s) (pu_fs s2)"
      and same: "\<And>rel. pu_fs s2 (source_place base t @ rel) = pu_fs s1 (source_place base t @ rel)" by simp_all
    have b2: "bundle_holds env (pu_fs s2) (source_place base t) d"
      using b same [of "[]"] same [of "''/'' @ rel" for rel] by (simp add: bundle_holds_def sizes_hold_def point_file_def slash_def)
    have "outcome (andthen (move_bundle env base (source_place base t) (final_object env d)) (\<lambda>_. ret (final_object env d)))
        s2 (settles_at env base d (pu_fs s))"
      using move_effect [OF assms b2] c calm_trans unfolding outcome_def settles_at_def by blast
    with c show "outcome (reading (\<lambda>s. if pu_fs s (joined base (final_object env d)) \<noteq> None
        then refuse ''PUBLISH_FINAL_COLLISION''
        else andthen (move_bundle env base (source_place base t) (final_object env d)) (\<lambda>_. ret (final_object env d))))
      s2 (settles_at env base d (pu_fs s))" by (intro outcome_basic(3) outcome_if outcome_basic(2)) simp_all
  qed
qed (auto intro: quiet)

lemma publish_moved_effect:
  assumes "plain_times env" "declaration_wf d"
  shows "outcome (publish_moved env base (staging_place base t) d) s (settles_at env base d (pu_fs s))"
proof -
  have same: "settles_at env base d (pu_fs s) (Inl e) s1" if "pu_fs s1 = pu_fs s" for e s1 using that by simp
  have q: "reads_only (publish_moved env base (staging_place base t) d)"
    unfolding publish_moved_def Let_def by (intro quiet)
  have "b = final_object env d \<and> bundle_holds env (pu_fs s) (joined base b) d"
    if p: "publish_moved env base (staging_place base t) d s = (Inr b, s1)" for b s1
  proof -
    from p obtain v sa fin sb u sc where v: "read_json env (slash (staging_place base t) ''publish-intent.json'') s = (Inr v, sa)"
      and fin: "object_path base (JStr b) = Inr fin" and chk: "check_bundle env fin d sa = (Inr u, sc)"
      and eq: "fin = joined base (final_object env d)"
      unfolding publish_moved_def Let_def op_Inr
      by (auto simp: andthen_Inr op_Inr split: if_splits)
    from fin have fb: "fin = joined base b" by (auto simp: object_path_def split: if_splits)
    with eq have "b = final_object env d" using joined_root by (metis same_append_eq)
    with check_bundle_Inr [OF chk] read_json_Inr [OF v] fb show ?thesis by simp
  qed
  with reads_onlyD [OF q] show ?thesis
    unfolding outcome_def settles_at_def by (metis calm_refl surjective_pairing)
qed

section \<open>A publication inserts one replica or none\<close>

definition parent_ok :: "pub_env \<Rightarrow> string \<Rightarrow> (string \<Rightarrow> node option) \<Rightarrow> transfer_declaration \<Rightarrow> bool" where
  "parent_ok env base fs d \<longleftrightarrow> (\<forall>q. td_parent d = Some q \<longrightarrow> (\<exists>n v. fs (marker_path base q) = Some n \<and>
     object_in env n = Inr v \<and> parent_matches v d q))"

lemma check_parent_Inr: "check_parent env base d s = (Inr u, s') \<Longrightarrow> parent_ok env base (pu_fs s) d"
  unfolding check_parent_def parent_ok_def
  by (auto simp: andthen_Inr op_Inr split: option.splits if_splits dest!: read_json_Inr)

lemma declaration_of_Inr:
  "declaration_of env rec0 t sid p = Inr d \<Longrightarrow>
     declaration_wf d \<and> td_transfer_id d = t \<and> td_storage_id d = sid \<and> td_restore_point_id d = p"
  by (auto simp: declaration_of_def dest: begin_declaration_wf split: if_splits sum.splits exn.splits)

definition published_node :: "pub_env \<Rightarrow> transfer_declaration \<Rightarrow> node" where
  "published_node env d = JsonFile (JObj (replica_record ''PUBLISHED'' d (final_object env d)))"

definition inserts ::
  "pub_env \<Rightarrow> string \<Rightarrow> string \<Rightarrow> transfer_declaration \<Rightarrow> (string \<Rightarrow> node option) \<Rightarrow> (string \<Rightarrow> node option) \<Rightarrow> bool" where
  "inserts env base p d fs fs' \<longleftrightarrow> declaration_wf d \<and> td_restore_point_id d = p \<and> parent_ok env base fs d \<and>
     (\<exists>fs1. calm env base fs fs1 \<and> bundle_holds env fs1 (joined base (final_object env d)) d \<and>
       fs' = fs1(marker_path base p \<mapsto> published_node env d))"

definition publishes ::
  "pub_env \<Rightarrow> string \<Rightarrow> string \<Rightarrow> (string \<Rightarrow> node option) \<Rightarrow> dict result \<Rightarrow> pub \<Rightarrow> bool" where
  "publishes env base p fs r s' \<longleftrightarrow>
     calm env base fs (pu_fs s') \<and> (\<exists>e. r = Inl e) \<or>
     (\<exists>d. inserts env base p d fs (pu_fs s') \<and>
       (\<forall>v. r = Inr v \<longrightarrow> v = published_result (td_transfer_id d) (td_storage_id d) p (final_object env d)))"

lemma publishes_error [simp]: "calm env base fs (pu_fs s') \<Longrightarrow> publishes env base p fs (Inl e) s'"
  by (simp add: publishes_def)

lemma write_json_effect:
  "outcome (write_json env q v) s (\<lambda>r s'. (\<exists>e. r = Inl e) \<and> pu_fs s' = pu_fs s \<or>
     pu_fs s' = (pu_fs s)(q \<mapsto> JsonFile (JObj v)))"
  by (auto simp: outcome_def write_json_def op_defs call_def put_node_def split: sum.split prod.split)

lemma marker_effect:
  assumes "inserts env base p d fs ((pu_fs s)(marker_path base p \<mapsto> published_node env d))" "calm env base fs (pu_fs s)"
  shows "outcome (andthen (write_json env (marker_path base p) (replica_record ''PUBLISHED'' d (final_object env d)))
      (\<lambda>_. ret (published_result (td_transfer_id d) (td_storage_id d) p (final_object env d)))) s (publishes env base p fs)"
proof (rule outcome_andthen)
  fix e s1 assume "write_json env (marker_path base p) (replica_record ''PUBLISHED'' d (final_object env d)) s = (Inl e, s1)"
  from outcomeD [OF write_json_effect this] assms show "publishes env base p fs (Inl e) s1"
    by (auto simp: publishes_def published_node_def)
next
  fix u s1 assume "write_json env (marker_path base p) (replica_record ''PUBLISHED'' d (final_object env d)) s = (Inr u, s1)"
  from outcomeD [OF write_json_effect this] assms(1)
  show "outcome (ret (published_result (td_transfer_id d) (td_storage_id d) p (final_object env d))) s1 (publishes env base p fs)"
    by (auto simp: outcome_def ret_def publishes_def published_node_def)
qed

lemma object_effect:
  assumes "plain_times env" "declaration_wf d"
  shows "outcome (if pu_fs s (slash (staging_place base t) ''bundle'') \<noteq> None
      then publish_source env base (staging_place base t) d else publish_moved env base (staging_place base t) d)
    s (settles_at env base d (pu_fs s))"
  using publish_source_effect [OF assms] publish_moved_effect [OF assms] by (rule outcome_if)

lemma publish_fresh_effect:
  assumes "plain_times env"
  shows "outcome (publish_fresh env base (receiver_place base) sid t p) s (publishes env base p (pu_fs s))"
  unfolding publish_fresh_def Let_def staging_place_def [symmetric]
proof (rule outcome_quiet, rule reads_only_calls, simp, rule outcome_quiet, rule reads_only_calls, simp,
    rule outcome_quiet, rule reads_only_intros, simp, rule outcome_quiet, rule reads_only_calls, simp,
    rule outcome_quiet, rule reads_only_intros, simp, rule outcome_quiet, rule reads_only_check_parent, simp)
  fix u s1 rec0 s2 d s3 receipt s4 u2 s5 u3 s6
  assume same: "pu_fs s1 = pu_fs s" "pu_fs s2 = pu_fs s1" "pu_fs s3 = pu_fs s2" "pu_fs s4 = pu_fs s3"
      "pu_fs s5 = pu_fs s4" "pu_fs s6 = pu_fs s5"
    and d: "lift (declaration_of env rec0 t sid p) s2 = (Inr d, s3)"
    and par: "check_parent env base d s5 = (Inr u3, s6)"
  from same have fs: "pu_fs s6 = pu_fs s" "pu_fs s5 = pu_fs s" by simp_all
  from d have d: "declaration_wf d" "td_transfer_id d = t" "td_storage_id d = sid" "td_restore_point_id d = p"
    by (auto simp: op_Inr dest: declaration_of_Inr)
  from check_parent_Inr [OF par] fs have par: "parent_ok env base (pu_fs s) d" by simp
  show "outcome (reading (\<lambda>s. andthen (if pu_fs s (slash (staging_place base t) ''bundle'') \<noteq> None
      then publish_source env base (staging_place base t) d else publish_moved env base (staging_place base t) d)
      (\<lambda>object_id. andthen (write_json env (marker_path base p) (replica_record ''PUBLISHED'' d object_id)) (\<lambda>_.
      ret (published_result t sid p object_id))))) s6 (publishes env base p (pu_fs s))"
  proof (rule outcome_basic(3), rule outcome_andthen)
    fix e s7 assume "(if pu_fs s6 (slash (staging_place base t) ''bundle'') \<noteq> None
      then publish_source env base (staging_place base t) d else publish_moved env base (staging_place base t) d) s6 = (Inl e, s7)"
    from outcomeD [OF object_effect [OF assms d(1)] this] fs show "publishes env base p (pu_fs s) (Inl e) s7" by simp
  next
    fix b s7 assume "(if pu_fs s6 (slash (staging_place base t) ''bundle'') \<noteq> None
      then publish_source env base (staging_place base t) d else publish_moved env base (staging_place base t) d) s6 = (Inr b, s7)"
    from outcomeD [OF object_effect [OF assms d(1)] this] fs
    have c: "calm env base (pu_fs s) (pu_fs s7)" and b: "b = final_object env d"
      and h: "bundle_holds env (pu_fs s7) (joined base (final_object env d)) d" by (auto simp: settles_at_def)
    have "inserts env base p d (pu_fs s) ((pu_fs s7)(marker_path base p \<mapsto> published_node env d))"
      using d par c h by (auto simp: inserts_def)
    from marker_effect [OF this c] d b
    show "outcome (andthen (write_json env (marker_path base p) (replica_record ''PUBLISHED'' d b)) (\<lambda>_.
      ret (published_result t sid p b))) s7 (publishes env base p (pu_fs s))" by simp
  qed
qed

lemma inserts_published:
  assumes "plain_times env" "receiver_ok env base fs" "fs (marker_path base p) = None" "inserts env base p d fs fs'"
  shows "published env base fs' p d" and "published env base fs q e \<Longrightarrow> published env base fs' q e"
    and "q \<noteq> p \<Longrightarrow> fs' (marker_path base q) = fs (marker_path base q)"
proof -
  from assms(4) obtain fs1 where wf: "declaration_wf d" "td_restore_point_id d = p" and par: "parent_ok env base fs d"
    and c: "calm env base fs fs1" and b: "bundle_holds env fs1 (joined base (final_object env d)) d"
    and fs': "fs' = fs1(marker_path base p \<mapsto> published_node env d)" unfolding inserts_def by blast
  have none: "fs1 (marker_path base p) = None" using c assms(3) by (simp add: calm_def)
  have keep: "settled env base fs1 fs'"
    by (rule grown_settled) (use none in \<open>auto simp: grown_def fs'\<close>)
  have old: "published env base fs' q e" if "published env base fs q e" for q e
    using settled_published [OF assms(1) keep] c that by (simp add: calm_def)
  then show "published env base fs q e \<Longrightarrow> published env base fs' q e" .
  have inj: "marker_path base q = marker_path base p \<longleftrightarrow> q = p" for q by (simp add: marker_path_def slash_def)
  show "q \<noteq> p \<Longrightarrow> fs' (marker_path base q) = fs (marker_path base q)"
    using c by (simp add: fs' inj calm_def)
  let ?f = "joined base (final_object env d)"
  have "x \<noteq> marker_path base p" if "under ?f x" for x using that outside(2) by metis
  then have "fs' ?f = fs1 ?f" "\<And>r. fs' (slash ?f r) = fs1 (slash ?f r)"
    by (simp_all add: fs' under_slash) (simp add: under_def)
  then have "bundle_holds env fs' ?f d" using b by (simp add: bundle_holds_def sizes_hold_def point_file_def)
  then have m: "marked env base fs' p d" using wf by (simp add: marked_def fs' published_node_def)
  show "published env base fs' p d"
  proof (cases "td_parent d")
    case None with m show ?thesis by (rule published_full)
  next
    case (Some q)
    with par obtain n v where n: "fs (marker_path base q) = Some n" "object_in env n = Inr v" "parent_matches v d q"
      by (auto simp: parent_ok_def)
    with assms(2) obtain e where e: "published env base fs q e" by (auto simp: receiver_ok_def)
    with n have "v = replica_record ''PUBLISHED'' e (final_object env e)"
      by (auto dest!: published_marked simp: marked_def object_in_def)
    with n(3) have "follows d e"
      by (auto simp: parent_matches_def follows_def replica_record_def dget_or_def)
    with m Some old [OF e] show ?thesis by (rule published_next)
  qed
qed

lemma inserts_ok:
  assumes "plain_times env" "receiver_ok env base fs" "fs (marker_path base p) = None" "inserts env base p d fs fs'"
  shows "receiver_ok env base fs'"
  unfolding receiver_ok_def
proof (intro allI impI)
  fix q assume q: "fs' (marker_path base q) \<noteq> None"
  show "\<exists>d. published env base fs' q d"
  proof (cases "q = p")
    case True with inserts_published(1) [OF assms] show ?thesis by blast
  next
    case False
    with q inserts_published(3) [OF assms] have "fs (marker_path base q) \<noteq> None" by simp
    with assms(2) inserts_published(2) [OF assms] show ?thesis unfolding receiver_ok_def by blast
  qed
qed

lemma inserts_calm:
  assumes "calm env base fs fs1" "inserts env base p d fs1 fs'"
  shows "inserts env base p d fs fs'"
proof -
  have "fs1 (marker_path base q) = fs (marker_path base q)" for q using assms(1) by (simp add: calm_def)
  with assms show ?thesis unfolding inserts_def parent_ok_def by (metis calm_trans)
qed

section \<open>Publication\<close>

definition storage_root :: "dict \<Rightarrow> string" where
  "storage_root storage = (case dget_or storage ''backup_data_root'' JNull of JStr r \<Rightarrow> path_str r | _ \<Rightarrow> ''/'')"

definition publish_post ::
  "pub_env \<Rightarrow> string \<Rightarrow> string \<Rightarrow> (string \<Rightarrow> node option) \<Rightarrow> dict result \<Rightarrow> pub \<Rightarrow> bool" where
  "publish_post env base p fs r s' \<longleftrightarrow>
     calm env base fs (pu_fs s') \<and> (\<forall>v. r = Inr v \<longrightarrow> receiver_ok env base fs \<longrightarrow> (\<exists>d. published env base (pu_fs s') p d \<and>
       v = published_result (td_transfer_id d) (td_storage_id d) p (final_object env d))) \<or>
     fs (marker_path base p) = None \<and> (\<exists>d. inserts env base p d fs (pu_fs s') \<and>
       (\<forall>v. r = Inr v \<longrightarrow> v = published_result (td_transfer_id d) (td_storage_id d) p (final_object env d)))"

lemma publish_post_error [simp]: "calm env base fs (pu_fs s') \<Longrightarrow> publish_post env base p fs (Inl e) s'"
  by (simp add: publish_post_def)

lemma publish_post_calm:
  assumes "calm env base fs fs1" "publish_post env base p fs1 r s'"
  shows "publish_post env base p fs r s'"
  using assms calm_trans [OF assms(1)] calm_ok [OF assms(1)] inserts_calm [OF assms(1)]
  unfolding publish_post_def calm_def by metis

lemma published_marker:
  assumes "receiver_ok env base fs" "fs (marker_path base p) = Some n" "object_in env n = Inr v"
  shows "\<exists>d. published env base fs p d \<and> v = replica_record ''PUBLISHED'' d (final_object env d)"
proof -
  from assms(1,2) obtain d where d: "published env base fs p d" by (auto simp: receiver_ok_def)
  with assms(2,3) have "v = replica_record ''PUBLISHED'' d (final_object env d)"
    by (auto dest!: published_marked simp: marked_def object_in_def)
  with d show ?thesis by blast
qed

lemma publish_known_effect:
  "outcome (publish_known env base sid t p) s (publish_post env base p (pu_fs s))"
proof -
  have q: "reads_only (publish_known env base sid t p)" unfolding publish_known_def by (intro quiet)
  have "\<exists>d. published env base (pu_fs s) p d \<and> v = published_result (td_transfer_id d) (td_storage_id d) p (final_object env d)"
    if ok: "receiver_ok env base (pu_fs s)" and p: "publish_known env base sid t p s = (Inr v, s1)" for v s1
  proof -
    from p obtain w sa b where w: "read_json env (marker_path base p) s = (Inr w, sa)"
      and b: "record_matches w ''PUBLISHED'' t sid p = Inr b" and v: "v = published_result t sid p b"
      unfolding publish_known_def by (auto simp: andthen_Inr op_Inr)
    from read_json_Inr [OF w] published_marker [OF ok] obtain d where d: "published env base (pu_fs s) p d"
      and "w = replica_record ''PUBLISHED'' d (final_object env d)" by blast
    with b have "t = td_transfer_id d" "sid = td_storage_id d" "b = final_object env d"
      by (auto simp: record_matches_def replica_record_def split: if_splits)
    with v d show ?thesis by blast
  qed
  then show ?thesis using q unfolding outcome_def publish_post_def reads_only_def
    by (metis calm_refl surjective_pairing)
qed

lemma publish_fresh_post:
  assumes "plain_times env" "pu_fs s (marker_path base p) = None"
  shows "outcome (publish_fresh env base (receiver_place base) sid t p) s (publish_post env base p (pu_fs s))"
  using publish_fresh_effect [OF assms(1)] assms(2) unfolding outcome_def publishes_def publish_post_def
  by (metis sum.distinct(1))

lemma publish_effect:
  assumes "plain_times env" and "publish_uuid pid = Inr p"
  shows "outcome (publish_staged_replica env storage tid pid) s (publish_post env (storage_root storage) p (pu_fs s))"
proof -
  let ?b = "storage_root storage"
  have body: "outcome (andthen (real_dir env ?b) (\<lambda>_. andthen (real_dir env (receiver_place ?b)) (\<lambda>_.
      andthen (ensure_state env ?b) (\<lambda>_. andthen (take_lock env ?b) (\<lambda>_. reading (\<lambda>s.
      if pu_fs s (marker_path ?b p) \<noteq> None then publish_known env ?b sid t p
      else publish_fresh env ?b (receiver_place ?b) sid t p)))))) s1 (publish_post env ?b p (pu_fs s))"
    if "pu_fs s1 = pu_fs s" for s1 sid t
  proof (rule outcome_quiet, rule reads_only_calls, simp add: that, rule outcome_quiet, rule reads_only_calls, simp add: that,
      rule outcome_andthen)
    fix u s2 u2 s3 e s4 assume "pu_fs s2 = pu_fs s1" "pu_fs s3 = pu_fs s2" "ensure_state env ?b s3 = (Inl e, s4)"
    with that state_calm [OF assms(1)] show "publish_post env ?b p (pu_fs s) (Inl e) s4" by fastforce
  next
    fix u s2 u2 s3 u3 s4 assume "pu_fs s2 = pu_fs s1" "pu_fs s3 = pu_fs s2" "ensure_state env ?b s3 = (Inr u3, s4)"
    with that state_calm [OF assms(1)] have c: "calm env ?b (pu_fs s) (pu_fs s4)" by fastforce
    show "outcome (andthen (take_lock env ?b) (\<lambda>_. reading (\<lambda>s.
      if pu_fs s (marker_path ?b p) \<noteq> None then publish_known env ?b sid t p
      else publish_fresh env ?b (receiver_place ?b) sid t p))) s4 (publish_post env ?b p (pu_fs s))"
    proof (rule outcome_andthen)
      fix e s5 assume "take_lock env ?b s4 = (Inl e, s5)"
      with c lock_calm [OF assms(1)] show "publish_post env ?b p (pu_fs s) (Inl e) s5"
        by (metis calm_trans publish_post_error)
    next
      fix u s5 assume "take_lock env ?b s4 = (Inr u, s5)"
      with c lock_calm [OF assms(1)] have c5: "calm env ?b (pu_fs s) (pu_fs s5)" by (metis calm_trans)
      have "outcome (if pu_fs s5 (marker_path ?b p) \<noteq> None then publish_known env ?b sid t p
        else publish_fresh env ?b (receiver_place ?b) sid t p) s5 (publish_post env ?b p (pu_fs s5))"
        by (rule outcome_if, rule publish_known_effect, rule publish_fresh_post [OF assms(1)]) simp
      then show "outcome (reading (\<lambda>s. if pu_fs s (marker_path ?b p) \<noteq> None then publish_known env ?b sid t p
        else publish_fresh env ?b (receiver_place ?b) sid t p)) s5 (publish_post env ?b p (pu_fs s))"
        using publish_post_calm [OF c5] by (simp add: outcome_def reading_def)
    qed
  qed
  show ?thesis unfolding publish_staged_replica_def assms(2)
  proof (rule outcome_quiet, rule reads_only_intros, simp, rule outcome_quiet, rule reads_only_intros, simp,
      rule outcome_quiet, rule reads_only_intros, simp)
    fix t p' sid and s1 s2 s3 :: pub assume same: "pu_fs s1 = pu_fs s" "pu_fs s2 = pu_fs s1" "pu_fs s3 = pu_fs s2"
      and "lift (Inr p) s1 = (Inr p', s2)"
    then have p: "p' = p" by (simp add: op_Inr)
    have refused: "outcome (refuse c) s3 (publish_post env ?b p (pu_fs s))" for c
      by (rule outcome_basic(2)) (simp add: same)
    show "outcome (case (dget_or storage ''backup_data_root'' JNull, dget_or storage ''receiver_namespace'' JNull) of
       (JStr root_text, JStr namespace_text) \<Rightarrow>
         (let base = path_str root_text; namespace = path_str namespace_text in
          if \<not> path_is_absolute base \<or> ''..'' \<in> set (path_parts base) \<or>
             namespace \<noteq> joined base ''.vmbackupd-receiver''
          then refuse ''PUBLISH_STORAGE_INVALID''
          else
            andthen (real_dir env base) (\<lambda>_. andthen (real_dir env namespace) (\<lambda>_.
            andthen (ensure_state env base) (\<lambda>_. andthen (take_lock env base) (\<lambda>_. reading (\<lambda>s.
            if pu_fs s (marker_path base p') \<noteq> None
            then publish_known env base sid t p'
            else publish_fresh env base namespace sid t p'))))))
     | _ \<Rightarrow> refuse ''PUBLISH_STORAGE_INVALID'') s3 (publish_post env ?b p (pu_fs s))"
      using refused body [of s3 sid t] same unfolding storage_root_def receiver_place_def p
      by (auto simp: Let_def split: json.split cong del: if_weak_cong)
  qed
qed

section \<open>Deletion\<close>

text \<open>The walk through a tree lists paths of that tree.\<close>

definition honest_tree :: "pub_env \<Rightarrow> bool" where
  "honest_tree env \<longleftrightarrow> (\<forall>fs b. \<forall>q \<in> set (pe_tree env fs b). under b q)"

definition cleared ::
  "pub_env \<Rightarrow> string \<Rightarrow> string \<Rightarrow> transfer_declaration \<Rightarrow> (string \<Rightarrow> node option) \<Rightarrow> (string \<Rightarrow> node option) \<Rightarrow> bool" where
  "cleared env base p d fs fs' \<longleftrightarrow> published env base fs p d \<and> fs' (marker_path base p) = None \<and>
     (\<forall>x. fs' x \<noteq> fs x \<longrightarrow> x = marker_path base p \<or> under (joined base (final_object env d)) x)"

lemma leaves_each: "(\<And>q. q \<in> set qs \<Longrightarrow> leaves A (f q)) \<Longrightarrow> leaves A (each f qs)"
  unfolding leaves_def by (auto intro!: keeps_intros)

lemma leaves_remove_tree:
  assumes "honest_tree env" "\<forall>q \<in> A. \<not> under b q"
  shows "leaves A (remove_tree env b)"
proof -
  have "leaves A (remove_node q)" if "under b q" for q
    using assms(2) that by (auto simp: leaves_def keeps_def remove_node_def update_def)
  then show ?thesis using assms(1) unfolding remove_tree_def honest_tree_def
    by (intro leaves_reading leaves_each leaves_andthen leaves_simple) (auto simp: under_def)
qed

lemma delete_locked_Inr:
  assumes "honest_tree env" "plain_times env" "receiver_ok env base (pu_fs s)" "target = joined base ob"
    and run: "delete_locked env base target sid p ob s = (Inr v, s')"
  shows "pu_fs s' = pu_fs s \<or> (\<exists>d. cleared env base p d (pu_fs s) (pu_fs s'))"
proof (cases "pu_fs s (marker_path base p) = None")
  case True
  with run have "pu_fs s' = pu_fs s" by (auto simp: delete_locked_def Let_def op_defs split: if_splits)
  then show ?thesis ..
next
  case False
  let ?m = "marker_path base p"
  let ?tree = "if pu_fs s target \<noteq> None then andthen (reject_symlink_tree env target) (\<lambda>_. remove_tree env target) else ret ()"
  from run False obtain w s1 u s2 where w: "rethrow (ReceiverReclaimDeleteError ''RECLAIM_DELETE_STATE_INVALID'') (read_json env ?m) s = (Inr w, s1)"
    and ident: "delete_identity w sid p ob" and tree: "?tree s1 = (Inr u, s2)"
    and last: "pu_fs s' = (pu_fs s2)(?m := None)"
    unfolding delete_locked_def Let_def op_Inr
    by (auto simp: andthen_Inr op_Inr call_Inr remove_node_def split: if_splits)
  from w have "read_json env ?m s = (Inr w, s1)" by (auto simp: rethrow_def split: prod.splits sum.splits)
  from read_json_Inr [OF this] published_marker [OF assms(3)] obtain d where d: "published env base (pu_fs s) p d"
    and wd: "w = replica_record ''PUBLISHED'' d (final_object env d)" and s1: "pu_fs s1 = pu_fs s" by blast
  from ident wd have "ob = final_object env d" by (simp add: delete_identity_def replica_record_def)
  with assms(4) have target: "target = joined base (final_object env d)" by simp
  let ?A = "{q. \<not> under target q}"
  have "leaves ?A (reject_symlink_tree env target)"
    unfolding reject_symlink_tree_def by (intro quiet)
  then have "leaves ?A ?tree" using leaves_remove_tree [OF assms(1), of ?A target]
    by (intro leaves_if leaves_andthen leaves_simple) auto
  from leavesD [OF this tree] s1 last have "pu_fs s' x = pu_fs s x" if "x \<noteq> ?m" "\<not> under target x" for x
    using that by simp
  with d last show ?thesis unfolding cleared_def target by auto
qed

lemma marked_distinct:
  assumes "marked env base fs p d" "marked env base fs q e" "final_object env d = final_object env e"
  shows "p = q"
  using assms by (auto simp: marked_def bundle_holds_def point_matches_def)

lemma cleared_published:
  assumes "plain_times env" "cleared env base p d fs fs'" "published env base fs q e" "q \<noteq> p"
    and "\<And>q e. published env base fs q e \<Longrightarrow> td_parent e \<noteq> Some p"
  shows "published env base fs' q e"
proof -
  have m: "marked env base fs p d" using assms(2) published_marked by (auto simp: cleared_def)
  have keep: "marked env base fs' q e" if e: "marked env base fs q e" and "q \<noteq> p" for q e
  proof -
    let ?e = "joined base (final_object env e)"
    have wf: "declaration_wf d" "declaration_wf e" using m e by (simp_all add: marked_def)
    have apart: "\<not> under (joined base (final_object env d)) x" if "under ?e x" for x
      using finals_apart [OF assms(1) wf _ that] marked_distinct [OF m e] \<open>q \<noteq> p\<close> by auto
    have nm: "x \<noteq> marker_path base p" if "under ?e x" for x using that outside(2) by metis
    have same: "fs' x = fs x" if "under ?e x" for x
      using assms(2) apart [OF that] nm [OF that] unfolding cleared_def by blast
    then have "fs' ?e = fs ?e" "\<And>r. fs' (slash ?e r) = fs (slash ?e r)" by (simp_all add: under_slash) (simp add: under_def)
    moreover have "fs' (marker_path base q) = fs (marker_path base q)"
    proof -
      have "marker_path base q \<noteq> marker_path base p" using \<open>q \<noteq> p\<close> by (simp add: marker_path_def slash_def)
      moreover have "\<not> under (joined base (final_object env d)) (marker_path base q)" by (rule outside(2))
      ultimately show ?thesis using assms(2) unfolding cleared_def by blast
    qed
    ultimately show ?thesis using e by (simp add: marked_def bundle_holds_def sizes_hold_def point_file_def)
  qed
  from assms(3,4) show ?thesis
  proof induction
    case (published_full q e)
    then show ?case by (intro published.published_full keep)
  next
    case (published_next q e r g)
    from assms(5) [OF published.published_next [OF published_next(1-4)]] published_next(2) have "r \<noteq> p" by auto
    with published_next show ?case by (intro published.published_next [of env base fs' q e r g] keep)
  qed
qed

lemma delete_Inr:
  assumes "honest_tree env" "plain_times env" "receiver_ok env (storage_root storage) (pu_fs s)" "delete_uuid pid = Inr p"
    and run: "delete_published_replica env storage pid oid s = (Inr v, s')"
  shows "calm env (storage_root storage) (pu_fs s) (pu_fs s') \<or>
    (\<exists>d fs1. calm env (storage_root storage) (pu_fs s) fs1 \<and> cleared env (storage_root storage) p d fs1 (pu_fs s'))"
proof -
  let ?b = "storage_root storage"
  obtain root where root: "dget_or storage ''backup_data_root'' JNull = JStr root"
    using run by (cases "dget_or storage ''backup_data_root'' JNull")
      (simp_all add: delete_published_replica_def andthen_Inr op_Inr)
  then have b: "?b = path_str root" by (simp add: storage_root_def)
  obtain ob where ob: "oid = JStr ob"
    using run by (cases oid)
      (simp_all add: delete_published_replica_def root Let_def andthen_Inr op_Inr split: if_splits)
  from run assms(4) obtain s1 target sid where dir: "real_dir env ?b s = (Inr (), s1)"
    and obj: "object_path ?b (JStr ob) = Inr target" and "delete_target env ?b target sid p ob s1 = (Inr v, s')"
    unfolding delete_published_replica_def b root ob
    by (auto simp: Let_def andthen_Inr op_Inr rethrow_Inr split: if_splits)
  note rest = this(3) [unfolded delete_target_def op_Inr]
  from obj have target: "target = joined ?b ob" by (auto simp: object_path_def split: if_splits)
  from dir have s1: "pu_fs s1 = pu_fs s" using real_dir_Inr by blast
  show ?thesis
  proof (cases "pu_fs s1 (state_path ?b) = None \<and> pu_fs s1 target = None")
    case True
    with rest s1 show ?thesis by (auto simp: op_Inr)
  next
    case False
    with rest obtain s2 s3 where d: "rethrow (ReceiverReclaimDeleteError ''RECLAIM_DELETE_STATE_INVALID'')
           (andthen (real_dir env (state_path ?b)) (\<lambda>_. real_dir env (published_path ?b))) s1 = (Inr (), s2)"
      and l: "take_lock env ?b s2 = (Inr (), s3)" and del: "delete_locked env ?b target sid p ob s3 = (Inr v, s')"
      unfolding if_not_P [OF False] by (auto simp: andthen_Inr)
    from d s1 have "pu_fs s2 = pu_fs s" by (auto simp: rethrow_Inr andthen_Inr dest!: real_dir_Inr)
    with lock_calm [OF assms(2) l] have c: "calm env ?b (pu_fs s) (pu_fs s3)" by simp
    from delete_locked_Inr [OF assms(1,2) calm_ok [OF c assms(3)] target del] c show ?thesis by metis
  qed
qed

section \<open>Histories\<close>

text \<open>
  A transfer writes below \<open>.vmbackupd-receiver\<close> only. A publication may raise anywhere. A deletion is
  one that returned, of a replica no published replica was built on.
\<close>

definition catalog :: "pub_env \<Rightarrow> string \<Rightarrow> (string \<Rightarrow> node option) \<Rightarrow> string \<Rightarrow> (string option \<times> int option \<times> string option) option" where
  "catalog env base fs p = Option.bind (fs (marker_path base p)) (\<lambda>n. case object_in env n of Inl _ \<Rightarrow> None
     | Inr v \<Rightarrow> Some (text_at v ''chain_id'', int_at v ''sequence'', text_at v ''parent_restore_point_id''))"

inductive receiver_step :: "pub_env \<Rightarrow> string \<Rightarrow> pub \<Rightarrow> pub \<Rightarrow> bool" for env base where
  step_transfer: "(\<And>q. \<not> prefix (receiver_place base) q \<Longrightarrow> pu_fs s' q = pu_fs s q) \<Longrightarrow> receiver_step env base s s'"
| step_publish: "storage_root storage = base \<Longrightarrow> publish_staged_replica env storage transfer_id point_id s = (r, s') \<Longrightarrow>
    receiver_step env base s s'"
| step_delete: "storage_root storage = base \<Longrightarrow> delete_published_replica env storage (JStr p) object_id s = (Inr r, s') \<Longrightarrow>
    (\<And>q c n. catalog env base (pu_fs s) q \<noteq> Some (c, n, Some p)) \<Longrightarrow> receiver_step env base s s'"

inductive receiver_reached :: "pub_env \<Rightarrow> string \<Rightarrow> pub \<Rightarrow> bool" for env base where
  reached_empty: "(\<And>p. pu_fs s (marker_path base p) = None) \<Longrightarrow> receiver_reached env base s"
| reached_step: "receiver_reached env base s \<Longrightarrow> receiver_step env base s s' \<Longrightarrow> receiver_reached env base s'"

lemma published_catalog:
  assumes "published env base fs p d"
  shows "catalog env base fs p = Some (Some (td_chain_id d), Some (td_sequence d), td_parent d)"
proof -
  from published_marked [OF assms] have "fs (marker_path base p) = Some (JsonFile (JObj (replica_record ''PUBLISHED'' d (final_object env d))))"
    by (simp add: marked_def)
  then show ?thesis
    by (simp add: catalog_def object_in_def replica_record_def text_at_def int_at_def opt_json_def split: option.split)
qed

lemma catalog_published:
  assumes "receiver_ok env base fs" "catalog env base fs p = Some x"
  shows "\<exists>d. published env base fs p d \<and> x = (Some (td_chain_id d), Some (td_sequence d), td_parent d)"
proof -
  from assms(2) have "fs (marker_path base p) \<noteq> None" by (cases "fs (marker_path base p)") (simp_all add: catalog_def)
  with assms(1) obtain d where "published env base fs p d" by (auto simp: receiver_ok_def)
  with published_catalog assms(2) show ?thesis by fastforce
qed

lemma calm_catalog: "calm env base fs fs' \<Longrightarrow> catalog env base fs' = catalog env base fs"
  by (rule ext) (simp add: catalog_def calm_def)

text \<open>The abstract catalogue: a point is added after its parent and removed before it.\<close>

inductive catalog_step ::
  "(string \<Rightarrow> (string option \<times> int option \<times> string option) option) \<Rightarrow>
   (string \<Rightarrow> (string option \<times> int option \<times> string option) option) \<Rightarrow> bool" where
  catalog_stay: "catalog_step c c"
| catalog_full: "c p = None \<Longrightarrow> catalog_step c (c(p \<mapsto> (Some chain, Some 0, None)))"
| catalog_next: "c p = None \<Longrightarrow> c q = Some (Some chain, Some n, r) \<Longrightarrow> catalog_step c (c(p \<mapsto> (Some chain, Some (n + 1), Some q)))"
| catalog_remove: "(\<And>q chain n. c q \<noteq> Some (chain, n, Some p)) \<Longrightarrow> catalog_step c (c(p := None))"

lemma published_chain:
  "published env base fs p d \<Longrightarrow> td_parent d = None \<and> td_sequence d = 0 \<or>
     (\<exists>q e. td_parent d = Some q \<and> published env base fs q e \<and> follows d e)"
proof (induction rule: published.induct)
  case (published_full p d)
  then show ?case by (auto simp: marked_def declaration_wf_def lineage_ok_def split: if_splits)
qed auto

lemma inserts_catalog:
  assumes "plain_times env" "receiver_ok env base fs" "fs (marker_path base p) = None" "inserts env base p d fs fs'"
  shows "catalog_step (catalog env base fs) (catalog env base fs')"
proof -
  note new = inserts_published(1) [OF assms]
  have other: "q \<noteq> p \<Longrightarrow> catalog env base fs' q = catalog env base fs q" for q
    using inserts_published(3) [OF assms] by (simp add: catalog_def)
  have c': "catalog env base fs' = (catalog env base fs)(p \<mapsto> (Some (td_chain_id d), Some (td_sequence d), td_parent d))"
    by (rule ext) (simp add: other published_catalog [OF new])
  have none: "catalog env base fs p = None" using assms(3) by (simp add: catalog_def)
  from published_chain [OF new] show ?thesis
  proof
    assume "td_parent d = None \<and> td_sequence d = 0"
    with catalog_full [of "catalog env base fs" p "td_chain_id d"] none c' show ?thesis by simp
  next
    assume "\<exists>q e. td_parent d = Some q \<and> published env base fs' q e \<and> follows d e"
    then obtain q e where q: "td_parent d = Some q" "published env base fs' q e" "follows d e" by blast
    have "declaration_wf d" "td_restore_point_id d = p" using published_marked [OF new] by (simp_all add: marked_def)
    with q(1) have "q \<noteq> p" by (auto simp: declaration_wf_def lineage_ok_def split: if_splits)
    with other published_catalog [OF q(2)] have "catalog env base fs q = Some (Some (td_chain_id e), Some (td_sequence e), td_parent e)"
      by simp
    with catalog_next [OF none this] q c' show ?thesis by (simp add: follows_def)
  qed
qed

lemma receiver_step_sound:
  assumes "plain_times env" "honest_tree env" "receiver_step env base s s'" "receiver_ok env base (pu_fs s)"
  shows "receiver_ok env base (pu_fs s') \<and> catalog_step (catalog env base (pu_fs s)) (catalog env base (pu_fs s'))"
proof -
  have quiet: "receiver_ok env base (pu_fs s') \<and> catalog_step (catalog env base (pu_fs s)) (catalog env base (pu_fs s'))"
    if "calm env base (pu_fs s) (pu_fs s')" for s'
    using calm_ok [OF that assms(4)] calm_catalog [OF that] catalog_stay by simp
  from assms(3) show ?thesis
  proof cases
    case step_transfer
    have "calm env base (pu_fs s) (pu_fs s')"
      by (rule calmI [OF assms(1)]) (use step_transfer outside(1) in \<open>auto simp: settled_def\<close>)
    then show ?thesis by (rule quiet)
  next
    case (step_publish storage t pid r)
    show ?thesis
    proof (cases "publish_uuid pid")
      case (Inl e)
      with step_publish(2) have "pu_fs s' = pu_fs s"
        by (auto simp: publish_staged_replica_def op_defs split: sum.splits)
      then show ?thesis by (intro quiet) simp
    next
      case (Inr p)
      from outcomeD [OF publish_effect [OF assms(1) Inr] step_publish(2)] step_publish(1)
      have "publish_post env base p (pu_fs s) r s'" by simp
      then consider "calm env base (pu_fs s) (pu_fs s')"
        | d where "pu_fs s (marker_path base p) = None" "inserts env base p d (pu_fs s) (pu_fs s')"
        unfolding publish_post_def by blast
      then show ?thesis
      proof cases
        case 1 then show ?thesis by (rule quiet)
      next
        case 2
        with inserts_ok [OF assms(1,4)] inserts_catalog [OF assms(1,4)] show ?thesis by blast
      qed
    qed
  next
    case (step_delete storage p ob r)
    then have p: "delete_uuid (JStr p) = Inr p"
      by (auto simp: delete_published_replica_def delete_uuid_def andthen_Inr op_Inr split: if_splits)
    from delete_Inr [OF assms(2,1) _ p step_delete(2)] step_delete(1) assms(4)
    consider "calm env base (pu_fs s) (pu_fs s')"
      | d fs1 where "calm env base (pu_fs s) fs1" "cleared env base p d fs1 (pu_fs s')" by blast
    then show ?thesis
    proof cases
      case 1 then show ?thesis by (rule quiet)
    next
      case (2 d fs1)
      note ok = calm_ok [OF 2(1) assms(4)] and cat = calm_catalog [OF 2(1)]
      have child: "td_parent e \<noteq> Some p" if "published env base fs1 q e" for q e
        using published_catalog [OF that] step_delete(3) cat by auto
      have m: "pu_fs s' (marker_path base q) = fs1 (marker_path base q)" if "q \<noteq> p" for q
      proof -
        have "marker_path base q \<noteq> marker_path base p" using that by (simp add: marker_path_def slash_def)
        with 2(2) outside(2) show ?thesis unfolding cleared_def by blast
      qed
      have "receiver_ok env base (pu_fs s')" unfolding receiver_ok_def
      proof (intro allI impI)
        fix q assume q: "pu_fs s' (marker_path base q) \<noteq> None"
        have "q \<noteq> p" using q 2(2) by (auto simp: cleared_def)
        moreover from this q m ok obtain e where "published env base fs1 q e" by (auto simp: receiver_ok_def)
        ultimately show "\<exists>d. published env base (pu_fs s') q d"
          using cleared_published [OF assms(1) 2(2), of q e] child by blast
      qed
      moreover have "catalog env base (pu_fs s') = (catalog env base (pu_fs s))(p := None)"
        unfolding cat [symmetric] using m 2(2) by (intro ext) (simp add: catalog_def cleared_def)
      ultimately show ?thesis using catalog_remove [OF step_delete(3)] by simp
    qed
  qed
qed

lemma receiver_reached_ok:
  assumes "plain_times env" "honest_tree env" "receiver_reached env base s"
  shows "receiver_ok env base (pu_fs s)"
  using assms(3)
proof induction
  case (reached_empty s) then show ?case by (simp add: receiver_ok_def)
next
  case (reached_step s s') then show ?case using receiver_step_sound [OF assms(1,2)] by blast
qed

section \<open>What publication guarantees\<close>

lemma publication_published:
  assumes "plain_times env" "receiver_ok env (storage_root storage) (pu_fs s)"
    and run: "publish_staged_replica env storage transfer_id (JStr p) s = (Inr v, s')"
  shows "\<exists>d. published env (storage_root storage) (pu_fs s') p d \<and>
    v = published_result (td_transfer_id d) (td_storage_id d) p (final_object env d)"
proof -
  from run have "publish_uuid (JStr p) = Inr p"
    by (auto simp: publish_staged_replica_def publish_uuid_def andthen_Inr op_Inr split: if_splits)
  from outcomeD [OF publish_effect [OF assms(1) this] run] inserts_published(1) [OF assms(1,2)] assms(2)
  show ?thesis unfolding publish_post_def by blast
qed

fun chain_of :: "pub_env \<Rightarrow> string \<Rightarrow> (string \<Rightarrow> node option) \<Rightarrow> string \<Rightarrow> transfer_declaration list \<Rightarrow> bool" where
  "chain_of env base fs p [] = False"
| "chain_of env base fs p [d] = (marked env base fs p d \<and> td_kind d = ''FULL'' \<and> td_sequence d = 0 \<and> td_parent d = None)"
| "chain_of env base fs p (d # e # ds) = (marked env base fs p d \<and> td_parent d = Some (td_restore_point_id e) \<and> follows d e \<and>
     chain_of env base fs (td_restore_point_id e) (e # ds))"

lemma published_chain_of:
  "published env base fs p d \<Longrightarrow> \<exists>ds. chain_of env base fs p (d # ds) \<and> int (length ds) = td_sequence d"
proof (induction rule: published.induct)
  case (published_full p d)
  then have "td_kind d = ''FULL'' \<and> td_sequence d = 0"
    by (auto simp: marked_def declaration_wf_def lineage_ok_def split: if_splits)
  with published_full show ?case by (intro exI [of _ "[]"]) simp
next
  case (published_next p d q e)
  then obtain ds where ds: "chain_of env base fs q (e # ds)" "int (length ds) = td_sequence e" by blast
  have "td_restore_point_id e = q" using published_marked [OF published_next(3)] by (simp add: marked_def)
  with ds published_next show ?case by (intro exI [of _ "e # ds"]) (auto simp: follows_def)
qed

text \<open>C34: when a publication of restore point \<open>p\<close> returns, in a storage root whose markers are sound, the
  answer names the declared transfer and the canonical path of its bundle, and there is a chain of
  published replicas from \<open>p\<close> down to a FULL: the marker of each is the record of its
  declaration, every declared file of each is at its canonical path with the declared size, its
  restore point metadata is the declared one, and each follows its parent in the same chain.\<close>

theorem publication_complete:
  assumes "plain_times env" "receiver_ok env (storage_root storage) (pu_fs s)"
    and "publish_staged_replica env storage transfer_id (JStr p) s = (Inr v, s')"
  shows "\<exists>d ds. v = published_result (td_transfer_id d) (td_storage_id d) p (final_object env d) \<and>
    chain_of env (storage_root storage) (pu_fs s') p (d # ds) \<and> int (length ds) = td_sequence d"
  using publication_published [OF assms] published_chain_of by metis



end
