(* ===== verification/PublishResume.thy ===== *)
theory PublishResume
  imports PublishHistory
begin

text \<open>
  An interrupted publication can be repeated: whatever system call failed, the next run without
  failures gives the answer the first would have given. \<open>fits\<close> states what the files must look
  like for a run to return; a run that returns implies it, it implies that a run without failures
  returns, and every interrupted run keeps it.
\<close>

section \<open>Runs without failures\<close>

definition steady :: "pub_env \<Rightarrow> pub_env" where
  "steady env = env\<lparr>pe_fail := (\<lambda>_. False)\<rparr>"

lemma steady_fields [simp]:
  "pe_fail (steady env) = (\<lambda>_. False)" "pe_size (steady env) = pe_size env" "pe_loads (steady env) = pe_loads env"
  "pe_isotime (steady env) = pe_isotime env" "pe_year (steady env) = pe_year env" "pe_month (steady env) = pe_month env"
  "pe_stamp (steady env) = pe_stamp env" "pe_names (steady env) = pe_names env" "pe_info (steady env) = pe_info env"
  "pe_check (steady env) = pe_check env" "pe_domain_uuid (steady env) = pe_domain_uuid env"
  "pe_one_device (steady env) = pe_one_device env"
  by (simp_all add: steady_def)

lemma steady_same [simp]:
  "size_of (steady env) = size_of env" "object_in (steady env) = object_in env" "final_object (steady env) = final_object env"
  "declaration_of (steady env) = declaration_of env" "check_qcow2 (steady env) = check_qcow2 env"
  "check_metadata (steady env) = check_metadata env" "check_domain (steady env) = check_domain env"
  unfolding fun_eq_iff size_of_def object_in_def final_object_def declaration_of_def check_qcow2_def check_metadata_def
    check_domain_def steady_fields by simp_all

text \<open>\<open>passes m s v\<close>: \<open>m\<close> returns \<open>v\<close> and leaves the files alone.\<close>

definition passes :: "'a pubop \<Rightarrow> pub \<Rightarrow> 'a \<Rightarrow> bool" where
  "passes m s v \<longleftrightarrow> (\<exists>s'. m s = (Inr v, s') \<and> pu_fs s' = pu_fs s)"

lemma passesI: "reads_only m \<Longrightarrow> m s = (Inr v, s') \<Longrightarrow> passes m s v"
  by (auto simp: passes_def dest: reads_onlyD)

lemma passes_basic: "passes (ret x) s x" "r = Inr x \<Longrightarrow> passes (lift r) s x" "passes (f s) s x \<Longrightarrow> passes (reading f) s x"
  "passes (call (steady env) e) s ()"
  by (simp_all add: passes_def op_defs call_def)

lemma passes_andthen:
  "passes m s x \<Longrightarrow> (\<And>s'. pu_fs s' = pu_fs s \<Longrightarrow> passes (f x) s' v) \<Longrightarrow> passes (andthen m f) s v"
  unfolding passes_def andthen_Inr by metis

lemma passes_call:
  "(\<And>s'. pu_fs s' = pu_fs s \<Longrightarrow> passes (f ()) s' v) \<Longrightarrow> passes (andthen (call (steady env) e) f) s v"
  by (rule passes_andthen [OF passes_basic(4)])

lemma passes_if: "b \<Longrightarrow> passes m s v \<Longrightarrow> passes (if b then m else n) s v" "\<not> b \<Longrightarrow> passes n s v \<Longrightarrow> passes (if b then m else n) s v"
  by simp_all

lemma passes_each:
  "(\<And>x s'. x \<in> set xs \<Longrightarrow> pu_fs s' = pu_fs s \<Longrightarrow> passes (f x) s' ()) \<Longrightarrow> passes (each f xs) s ()"
proof (induction xs arbitrary: s)
  case (Cons x xs)
  have "passes (f x) s ()" by (rule Cons.prems) simp_all
  then show ?case using Cons by (auto intro!: passes_andthen [of _ _ "()"] Cons.IH)
qed (simp add: passes_basic)

section \<open>What the calls require of the files\<close>

definition node_at :: "pub_env \<Rightarrow> (string \<Rightarrow> node option) \<Rightarrow> string \<Rightarrow> node \<Rightarrow> bool" where
  "node_at env fs p n \<longleftrightarrow> fs p = Some n \<and> (\<exists>k. size_of env n = Some k \<and> 0 < k \<and> int k \<le> max_metadata_bytes)"

definition json_at :: "pub_env \<Rightarrow> (string \<Rightarrow> node option) \<Rightarrow> string \<Rightarrow> dict \<Rightarrow> bool" where
  "json_at env fs p v \<longleftrightarrow> (\<exists>n. node_at env fs p n \<and> object_in env n = Inr v)"

lemma real_dir_iff: "pu_fs s p = Some Dir \<Longrightarrow> passes (real_dir (steady env) p) s ()"
  unfolding real_dir_def by (intro passes_call passes_basic passes_if) simp_all

lemma regular_size_passes: "pu_fs s p = Some n \<Longrightarrow> size_of env n = Some k \<Longrightarrow> passes (regular_size (steady env) p) s k"
  unfolding regular_size_def by (intro passes_call passes_basic) (simp add: passes_basic)

lemma read_node_passes: "node_at env (pu_fs s) p n \<Longrightarrow> passes (read_node (steady env) p) s n"
  unfolding read_node_def node_at_def
  by (auto intro!: passes_andthen [OF regular_size_passes] passes_call passes_basic simp: passes_basic)

lemma read_json_passes: "json_at env (pu_fs s) p v \<Longrightarrow> passes (read_json (steady env) p) s v"
  unfolding read_json_def json_at_def by (auto intro!: passes_andthen [OF read_node_passes] passes_basic)

lemma read_node_at: "read_node env p s = (Inr n, s') \<Longrightarrow> node_at env (pu_fs s) p n"
  by (auto simp: read_node_def node_at_def andthen_Inr op_Inr call_Inr dest!: regular_size_Inr split: if_splits option.splits)

lemma read_json_at: "read_json env p s = (Inr v, s') \<Longrightarrow> json_at env (pu_fs s) p v"
  by (auto simp: read_json_def json_at_def andthen_Inr op_Inr dest!: read_node_at)

section \<open>A bundle that passes its checks\<close>

definition folders_fit :: "pub_env \<Rightarrow> (string \<Rightarrow> node option) \<Rightarrow> string \<Rightarrow> transfer_declaration \<Rightarrow> bool" where
  "folders_fit env fs b d \<longleftrightarrow> fs b = Some Dir \<and> fs (slash b ''metadata'') = Some Dir \<and> fs (slash b ''disks'') = Some Dir \<and>
     set (pe_names env fs b) = {''metadata'', ''disks''} \<and>
     set (pe_names env fs (slash b ''metadata'')) = {''domain.xml'', ''manifest.json'', ''restore-point.json''} \<and>
     set (pe_names env fs (slash b ''disks'')) = set (disk_names d)"

definition disk_fits :: "pub_env \<Rightarrow> (string \<Rightarrow> node option) \<Rightarrow> string \<Rightarrow> string \<times> int \<times> int \<Rightarrow> bool" where
  "disk_fits env fs b = (\<lambda>(t, n, c). \<exists>im. fs (slash b (''disks/'' @ t @ ''.qcow2'')) = Some im \<and> check_qcow2 env im n c = Inr ())"

definition bundle_fits :: "pub_env \<Rightarrow> (string \<Rightarrow> node option) \<Rightarrow> string \<Rightarrow> transfer_declaration \<Rightarrow> bool" where
  "bundle_fits env fs b d \<longleftrightarrow> folders_fit env fs b d \<and> sizes_hold env fs b d \<and>
     (\<exists>point manifest uid xml entries. json_at env fs (slash b ''metadata/restore-point.json'') point \<and>
        json_at env fs (slash b ''metadata/manifest.json'') manifest \<and> check_metadata env d point manifest = Inr uid \<and>
        node_at env fs (slash b ''metadata/domain.xml'') xml \<and> check_domain env xml uid = Inr () \<and>
        disk_entries d (case dget_or point ''disks'' JNull of JList ds \<Rightarrow> ds | _ \<Rightarrow> []) [] = Inr entries \<and>
        length entries = card (set (disk_names d)) \<and> (\<forall>x \<in> set entries. disk_fits env fs b x))"

lemma guard_Inr: "(if c then raise e else m) s = (Inr v, s') \<longleftrightarrow> \<not> c \<and> m s = (Inr v, s')"
  by (simp add: op_Inr)

lemma reads_only_folders [quiet]: "reads_only (check_folders env b d)"
  unfolding check_folders_def by (intro quiet)

lemma reads_only_size [quiet]: "reads_only (check_size env b f)"
  unfolding check_size_def by (intro quiet)

lemma reads_only_layout [quiet]: "reads_only (check_layout env b d)"
  unfolding check_layout_def by (intro quiet)

lemma reads_only_disk [quiet]: "reads_only (check_disk env b x)"
  unfolding check_disk_def by (cases x) (auto intro!: quiet split: option.split)

lemma check_folders_fit:
  assumes "check_folders env b d s = (Inr u, s')"
  shows "folders_fit env (pu_fs s) b d"
proof -
  from assms obtain s1 s2 s3 where dirs: "real_dir env b s = (Inr (), s1)" "real_dir env (slash b ''metadata'') s1 = (Inr (), s2)"
      "real_dir env (slash b ''disks'') s2 = (Inr (), s3)"
    and names: "set (pe_names env (pu_fs s3) b) = {''metadata'', ''disks''}"
      "set (pe_names env (pu_fs s3) (slash b ''metadata'')) = {''domain.xml'', ''manifest.json'', ''restore-point.json''}"
      "set (pe_names env (pu_fs s3) (slash b ''disks'')) = set (disk_names d)"
    unfolding check_folders_def andthen_Inr op_Inr guard_Inr call_Inr by clarsimp
  with real_dir_Inr [OF dirs(1)] real_dir_Inr [OF dirs(2)] real_dir_Inr [OF dirs(3)] show ?thesis
    by (simp add: folders_fit_def)
qed

lemma folders_pass: "folders_fit env (pu_fs s) b d \<Longrightarrow> passes (check_folders (steady env) b d) s ()"
  unfolding check_folders_def folders_fit_def
  by (intro passes_andthen [OF real_dir_iff] passes_call passes_basic(1,3) passes_if) simp_all

lemma check_size_fit:
  "check_size env b f s = (Inr u, s') \<Longrightarrow> \<exists>n. pu_fs s (slash b (df_path f)) = Some n \<and>
     map_option int (size_of env n) = Some (df_logical_size f)"
  unfolding check_size_def andthen_Inr guard_Inr op_Inr by (auto dest!: regular_size_Inr)

lemma check_disk_fit: "check_disk env b x s = (Inr u, s') \<Longrightarrow> disk_fits env (pu_fs s) b x"
  by (cases x) (auto simp: check_disk_def disk_fits_def andthen_Inr op_Inr call_Inr split: option.splits)

lemma check_bundle_fits:
  assumes "check_bundle env b d s = (Inr u, s')"
  shows "bundle_fits env (pu_fs s) b d"
proof -
  from assms obtain u1 s1 point s2 manifest s3 uid s4 xml s5 s6 entries s7 s8 where
    layout: "check_layout env b d s = (Inr u1, s1)"
    and point: "read_json env (slash b ''metadata/restore-point.json'') s1 = (Inr point, s2)"
    and manifest: "read_json env (slash b ''metadata/manifest.json'') s2 = (Inr manifest, s3)"
    and meta: "check_metadata env d point manifest = Inr uid" "s4 = s3"
    and xml: "read_node env (slash b ''metadata/domain.xml'') s4 = (Inr xml, s5)"
    and dom: "check_domain env xml uid = Inr ()" "s6 = s5"
    and ent: "disk_entries d (case dget_or point ''disks'' JNull of JList ds \<Rightarrow> ds | _ \<Rightarrow> []) [] = Inr entries" "s7 = s6"
    and len: "length entries = card (set (disk_names d))" and disks: "each (check_disk env b) entries s7 = (Inr u, s8)"
    unfolding check_bundle_def andthen_Inr op_Inr guard_Inr by (metis unit.exhaust)
  from layout obtain u2 s0 where fold: "check_folders env b d s = (Inr u2, s0)"
    and sizes: "each (check_size env b) (td_files d) s0 = (Inr u1, s1)"
    unfolding check_layout_def andthen_Inr by blast
  have s0: "pu_fs s0 = pu_fs s" using reads_onlyD [OF reads_only_folders fold] .
  have s1: "pu_fs s1 = pu_fs s" using reads_onlyD [OF reads_only_layout layout] .
  have s2: "pu_fs s2 = pu_fs s" using reads_onlyD [OF reads_only_calls(4) point] s1 by simp
  have s3: "pu_fs s3 = pu_fs s" using reads_onlyD [OF reads_only_calls(4) manifest] s2 by simp
  have s5: "pu_fs s5 = pu_fs s" using reads_onlyD [OF reads_only_calls(3) xml] meta(2) s3 by simp
  have "sizes_hold env (pu_fs s) b d" unfolding sizes_hold_def
    using each_Inr_all [OF sizes reads_only_size] s0 check_size_fit by metis
  moreover have "\<forall>x \<in> set entries. disk_fits env (pu_fs s) b x"
    using each_Inr_all [OF disks reads_only_disk] s5 dom(2) ent(2) check_disk_fit by metis
  moreover have "json_at env (pu_fs s) (slash b ''metadata/restore-point.json'') point"
    "json_at env (pu_fs s) (slash b ''metadata/manifest.json'') manifest" "node_at env (pu_fs s) (slash b ''metadata/domain.xml'') xml"
    using read_json_at [OF point] read_json_at [OF manifest] read_node_at [OF xml] s1 s2 s3 meta(2) by simp_all
  ultimately show ?thesis using check_folders_fit [OF fold] meta(1) dom(1) ent(1) len unfolding bundle_fits_def by blast
qed

lemma check_disk_passes: "disk_fits env (pu_fs s) b x \<Longrightarrow> passes (check_disk (steady env) b x) s ()"
  by (cases x) (auto simp: check_disk_def disk_fits_def intro!: passes_call passes_basic)

lemma check_size_passes:
  "\<exists>n. pu_fs s (slash b (df_path f)) = Some n \<and> map_option int (size_of env n) = Some (df_logical_size f) \<Longrightarrow>
     passes (check_size (steady env) b f) s ()"
  unfolding check_size_def by (auto intro!: passes_andthen [OF regular_size_passes] passes_basic)

lemma check_layout_passes:
  assumes "folders_fit env (pu_fs s) b d" "sizes_hold env (pu_fs s) b d"
  shows "passes (check_layout (steady env) b d) s ()"
  unfolding check_layout_def
  by (rule passes_andthen [OF folders_pass [OF assms(1)]], rule passes_each, rule check_size_passes)
    (use assms(2) in \<open>simp add: sizes_hold_def\<close>)

lemma check_bundle_passes:
  assumes "bundle_fits env (pu_fs s) b d"
  shows "passes (check_bundle (steady env) b d) s ()"
proof -
  from assms obtain point manifest uid xml entries where
    lay: "folders_fit env (pu_fs s) b d" "sizes_hold env (pu_fs s) b d"
    and "json_at env (pu_fs s) (slash b ''metadata/restore-point.json'') point"
    "json_at env (pu_fs s) (slash b ''metadata/manifest.json'') manifest" "check_metadata env d point manifest = Inr uid"
    "node_at env (pu_fs s) (slash b ''metadata/domain.xml'') xml" "check_domain env xml uid = Inr ()"
    "disk_entries d (case dget_or point ''disks'' JNull of JList ds \<Rightarrow> ds | _ \<Rightarrow> []) [] = Inr entries"
    "length entries = card (set (disk_names d))" "\<forall>x \<in> set entries. disk_fits env (pu_fs s) b x"
    unfolding bundle_fits_def by blast
  note fit = this
  show ?thesis unfolding check_bundle_def
    by (rule passes_andthen, rule check_layout_passes [OF lay], rule passes_andthen [of _ _ point], rule read_json_passes, simp add: fit,
        rule passes_andthen [of _ _ manifest], rule read_json_passes, simp add: fit, rule passes_andthen [of _ _ uid],
        rule passes_basic, simp add: fit, rule passes_andthen [of _ _ xml], rule read_node_passes, simp add: fit,
        rule passes_andthen [of _ _ "()"], rule passes_basic, simp add: fit, rule passes_andthen [of _ _ entries],
        rule passes_basic, simp add: fit, rule passes_if(2), simp add: fit, rule passes_each, rule check_disk_passes, simp add: fit)
qed

text \<open>\<open>listdir\<close> depends on the entries of the folder, not on where the folder is.\<close>

definition honest_names :: "pub_env \<Rightarrow> bool" where
  "honest_names env \<longleftrightarrow> (\<forall>fs fs' b b'. (\<forall>c. fs' (slash b' c) = fs (slash b c)) \<longrightarrow>
     set (pe_names env fs' b') = set (pe_names env fs b))"

lemma names_same: "honest_names env \<Longrightarrow> (\<And>c. fs' (slash b' c) = fs (slash b c)) \<Longrightarrow> set (pe_names env fs' b') = set (pe_names env fs b)"
  by (simp add: honest_names_def)

text \<open>The checks only see the tree of the bundle.\<close>

lemma bundle_fits_moved:
  assumes "honest_names env" and "fs' b' = fs b" and "\<And>r. fs' (slash b' r) = fs (slash b r)" and "bundle_fits env fs b d"
  shows "bundle_fits env fs' b' d"
proof -
  have deep: "fs' (slash (slash b' x) c) = fs (slash (slash b x) c)" for x c
    using assms(3) [of "x @ ''/'' @ c"] by (simp add: slash_def)
  have "folders_fit env fs' b' d = folders_fit env fs b d"
    using names_same [OF assms(1), of fs' b' fs b] names_same [OF assms(1), of fs' "slash b' x" fs "slash b x" for x]
    by (simp add: folders_fit_def assms(2,3) deep)
  then show ?thesis
    using assms(4) by (simp add: bundle_fits_def sizes_hold_def disk_fits_def json_at_def node_at_def assms(3) split_beta)
qed

section \<open>What a publication requires of the files\<close>

definition intent_place :: "string \<Rightarrow> string \<Rightarrow> string" where
  "intent_place base t = slash (staging_place base t) ''publish-intent.json''"

definition final_place :: "pub_env \<Rightarrow> string \<Rightarrow> transfer_declaration \<Rightarrow> string" where
  "final_place env base d = joined base (final_object env d)"

definition expected_intent :: "pub_env \<Rightarrow> transfer_declaration \<Rightarrow> dict" where
  "expected_intent env d = replica_record ''PUBLISH_INTENT'' d (final_object env d)"

definition parent_fits :: "pub_env \<Rightarrow> string \<Rightarrow> (string \<Rightarrow> node option) \<Rightarrow> transfer_declaration \<Rightarrow> bool" where
  "parent_fits env base fs d \<longleftrightarrow> (\<forall>q. td_parent d = Some q \<longrightarrow> (\<exists>v path. json_at env fs (marker_path base q) v \<and>
     parent_matches v d q \<and> object_path base (dget_or v ''bundle_object_id'' JNull) = Inr path \<and> fs path = Some Dir))"

definition intent_fits :: "pub_env \<Rightarrow> string \<Rightarrow> string \<Rightarrow> (string \<Rightarrow> node option) \<Rightarrow> transfer_declaration \<Rightarrow> bool" where
  "intent_fits env base t fs d \<longleftrightarrow> (\<exists>v. json_at env fs (intent_place base t) v \<and>
     record_matches v ''PUBLISH_INTENT'' (td_transfer_id d) (td_storage_id d) (td_restore_point_id d) = Inr (final_object env d))"

definition intent_exact :: "pub_env \<Rightarrow> string \<Rightarrow> string \<Rightarrow> (string \<Rightarrow> node option) \<Rightarrow> transfer_declaration \<Rightarrow> bool" where
  "intent_exact env base t fs d \<longleftrightarrow> intent_fits env base t fs d \<and>
     (\<forall>v. json_at env fs (intent_place base t) v \<longrightarrow> py_eq (JObj v) (JObj (expected_intent env d)))"

fun parents_fit :: "(string \<Rightarrow> node option) \<Rightarrow> string \<Rightarrow> string list \<Rightarrow> bool" where
  "parents_fit fs p [] = True"
| "parents_fit fs p (c # cs) = ((fs (joined p c) = None \<or> fs (joined p c) = Some Dir) \<and> parents_fit fs (joined p c) cs)"

abbreviation folders_of :: "pub_env \<Rightarrow> transfer_declaration \<Rightarrow> string list" where
  "folders_of env d \<equiv> butlast (split_on CHR ''/'' (final_object env d))"

definition source_fits :: "pub_env \<Rightarrow> string \<Rightarrow> string \<Rightarrow> (string \<Rightarrow> node option) \<Rightarrow> transfer_declaration \<Rightarrow> bool" where
  "source_fits env base t fs d \<longleftrightarrow> bundle_fits env fs (source_place base t) d \<and>
     (fs (intent_place base t) \<noteq> None \<longrightarrow> intent_exact env base t fs d) \<and> fs (final_place env base d) = None \<and>
     no_symlink fs base \<and> no_symlink fs (source_place base t) \<and> parents_fit fs base (folders_of env d) \<and> pe_one_device env"

definition moved_fits :: "pub_env \<Rightarrow> string \<Rightarrow> string \<Rightarrow> (string \<Rightarrow> node option) \<Rightarrow> transfer_declaration \<Rightarrow> bool" where
  "moved_fits env base t fs d \<longleftrightarrow> fs (source_place base t) = None \<and> intent_fits env base t fs d \<and>
     object_path base (JStr (final_object env d)) = Inr (final_place env base d) \<and> bundle_fits env fs (final_place env base d) d"

definition staged_fits :: "pub_env \<Rightarrow> string \<Rightarrow> string \<Rightarrow> string \<Rightarrow> string \<Rightarrow> (string \<Rightarrow> node option) \<Rightarrow> transfer_declaration \<Rightarrow> bool" where
  "staged_fits env base sid t p fs d \<longleftrightarrow> fs (staging_place base t) = Some Dir \<and> parent_fits env base fs d \<and>
     (\<exists>v r. json_at env fs (slash (staging_place base t) ''transfer.json'') v \<and> declaration_of env v t sid p = Inr d \<and>
        json_at env fs (slash (staging_place base t) ''receipt.json'') r \<and> check_receipt r d = Inr ())"

definition fresh_fits :: "pub_env \<Rightarrow> string \<Rightarrow> string \<Rightarrow> string \<Rightarrow> string \<Rightarrow> (string \<Rightarrow> node option) \<Rightarrow> dict \<Rightarrow> bool" where
  "fresh_fits env base sid t p fs v \<longleftrightarrow> (\<exists>d. staged_fits env base sid t p fs d \<and>
     (source_fits env base t fs d \<or> moved_fits env base t fs d) \<and> v = published_result t sid p (final_object env d))"

definition known_fits :: "pub_env \<Rightarrow> string \<Rightarrow> string \<Rightarrow> string \<Rightarrow> string \<Rightarrow> (string \<Rightarrow> node option) \<Rightarrow> dict \<Rightarrow> bool" where
  "known_fits env base sid t p fs v \<longleftrightarrow> (\<exists>w ob path. json_at env fs (marker_path base p) w \<and>
     record_matches w ''PUBLISHED'' t sid p = Inr ob \<and> object_path base (JStr ob) = Inr path \<and> fs path = Some Dir \<and>
     v = published_result t sid p ob)"

definition inner_fits :: "pub_env \<Rightarrow> string \<Rightarrow> string \<Rightarrow> string \<Rightarrow> string \<Rightarrow> (string \<Rightarrow> node option) \<Rightarrow> dict \<Rightarrow> bool" where
  "inner_fits env base sid t p fs v \<longleftrightarrow>
     (if fs (marker_path base p) \<noteq> None then known_fits env base sid t p fs v else fresh_fits env base sid t p fs v)"

definition lock_place :: "string \<Rightarrow> string" where "lock_place base = slash (state_path base) ''publish.lock''"

definition storage_fits :: "string \<Rightarrow> (string \<Rightarrow> node option) \<Rightarrow> bool" where
  "storage_fits base fs \<longleftrightarrow> fs base = Some Dir \<and> fs (receiver_place base) = Some Dir \<and>
     (fs (state_path base) = None \<or> fs (state_path base) = Some Dir) \<and>
     (fs (published_path base) = None \<or> fs (published_path base) = Some Dir) \<and>
     fs (lock_place base) \<noteq> Some Dir \<and> fs (lock_place base) \<noteq> Some Symlink"

section \<open>A run that returns implies the requirements\<close>

lemma known_run: "publish_known env base sid t p s = (Inr v, s') \<Longrightarrow> known_fits env base sid t p (pu_fs s) v"
  unfolding publish_known_def known_fits_def andthen_Inr op_Inr
  using read_json_at real_dir_Inr reads_onlyD [OF reads_only_calls(4)] by metis

lemma parent_run:
  assumes "check_parent env base d s = (Inr u, s')"
  shows "parent_fits env base (pu_fs s) d"
  unfolding parent_fits_def
proof (intro allI impI)
  fix q assume "td_parent d = Some q"
  with assms obtain v s1 path s2 s3 where "read_json env (marker_path base q) s = (Inr v, s1)" "parent_matches v d q"
    and "object_path base (dget_or v ''bundle_object_id'' JNull) = Inr path" "real_dir env path s1 = (Inr s2, s3)"
    unfolding check_parent_def by (simp add: andthen_Inr op_Inr split: if_splits) (auto simp: andthen_Inr op_Inr split: if_splits)
  then show "\<exists>v path. json_at env (pu_fs s) (marker_path base q) v \<and> parent_matches v d q \<and>
      object_path base (dget_or v ''bundle_object_id'' JNull) = Inr path \<and> pu_fs s path = Some Dir"
    using read_json_at real_dir_Inr reads_onlyD [OF reads_only_calls(4)] by metis
qed

lemma parents_fit_cong:
  "[] \<notin> set cs \<Longrightarrow> (\<And>q. length p < length q \<Longrightarrow> fs' q = fs q) \<Longrightarrow> parents_fit fs' p cs = parents_fit fs p cs"
proof (induction cs arbitrary: p)
  case (Cons c cs)
  then have longer: "length p < length (joined p c)" by (auto simp: joined_def)
  have "parents_fit fs' (joined p c) cs = parents_fit fs (joined p c) cs"
    by (rule Cons.IH) (use Cons.prems longer in auto)
  with Cons.prems(2) [OF longer] show ?case by simp
qed simp

lemma parents_run:
  "[] \<notin> set cs \<Longrightarrow> make_parents env p cs s = (Inr u, s') \<Longrightarrow> parents_fit (pu_fs s) p cs"
proof (induction cs arbitrary: p s)
  case (Cons c cs)
  let ?open = "reading (\<lambda>s. case pu_fs s (joined p c) of
         None \<Rightarrow> andthen (call env OtherException) (\<lambda>_. andthen (put_node (joined p c) Dir) (\<lambda>_.
                 andthen (call env OtherException) (\<lambda>_. call env OtherException)))
       | Some Dir \<Rightarrow> call env OtherException
       | _ \<Rightarrow> raise OtherException)"
  from Cons.prems(2) obtain s1 where one: "?open s = (Inr (), s1)" and rest: "make_parents env (joined p c) cs s1 = (Inr u, s')"
    unfolding make_parents.simps(2) andthen_Inr by auto
  from one have here: "pu_fs s (joined p c) = None \<or> pu_fs s (joined p c) = Some Dir"
    and other: "q \<noteq> joined p c \<Longrightarrow> pu_fs s1 q = pu_fs s q" for q
    by (auto simp: op_Inr andthen_Inr call_Inr put_node_Inr split: option.splits node.splits)
  have "parents_fit (pu_fs s1) (joined p c) cs = parents_fit (pu_fs s) (joined p c) cs"
  proof (rule parents_fit_cong)
    show "[] \<notin> set cs" using Cons.prems(1) by simp
    show "pu_fs s1 q = pu_fs s q" if "length (joined p c) < length q" for q by (rule other) (use that in auto)
  qed
  with Cons.IH [OF _ rest] Cons.prems(1) here show ?case by simp
qed simp

section \<open>Final paths\<close>

definition segment :: "string \<Rightarrow> bool" where
  "segment w \<longleftrightarrow> w \<noteq> [] \<and> w \<noteq> ''.'' \<and> w \<noteq> ''..'' \<and> CHR ''/'' \<notin> set w"

text \<open>Years and months are digits, stamps digits and letters.\<close>

definition dated :: "pub_env \<Rightarrow> bool" where
  "dated env \<longleftrightarrow> (\<forall>t. segment (pe_year env t) \<and> segment (pe_month env t) \<and> CHR ''/'' \<notin> set (pe_stamp env t))"

lemma dated_plain: "dated env \<Longrightarrow> plain_times env"
  by (auto simp: dated_def plain_times_def segment_def)

lemma split_on_free: "CHR ''/'' \<notin> set w \<Longrightarrow> split_on CHR ''/'' w = [w]"
  by (induction w) auto

lemma split_on_app: "CHR ''/'' \<notin> set w \<Longrightarrow> split_on CHR ''/'' (w @ CHR ''/'' # r) = w # split_on CHR ''/'' r"
  by (induction w) auto

definition last_name :: "pub_env \<Rightarrow> transfer_declaration \<Rightarrow> string" where
  "last_name env d = pe_stamp env (td_created_at d) @ ''_'' @ td_job_run_id d"

lemma uuid_segment: "uuid_form w \<Longrightarrow> segment w"
  using uuid_form_plain [of w] by (auto simp: segment_def uuid_form_def)

lemma declaration_ids:
  assumes "declaration_wf d"
  shows "segment (td_vm_id d)" "CHR ''/'' \<notin> set (td_job_run_id d)" "length (td_job_run_id d) = 36"
proof -
  have "uuid_form (td_vm_id d)" "uuid_form (td_job_run_id d)" using assms by (simp_all add: declaration_wf_def)
  then show "segment (td_vm_id d)" "CHR ''/'' \<notin> set (td_job_run_id d)" "length (td_job_run_id d) = 36"
    by (simp_all add: uuid_segment uuid_form_plain) (simp add: uuid_form_def)
qed

lemma final_split:
  assumes "dated env" "declaration_wf d"
  shows "split_on CHR ''/'' (final_object env d) =
    [''vms'', td_vm_id d, pe_year env (td_created_at d), pe_month env (td_created_at d), last_name env d]"
proof -
  let ?t = "td_created_at d"
  have free: "CHR ''/'' \<notin> set (td_vm_id d)" "CHR ''/'' \<notin> set (pe_year env ?t)" "CHR ''/'' \<notin> set (pe_month env ?t)"
    "CHR ''/'' \<notin> set (last_name env d)" "CHR ''/'' \<notin> set ''vms''"
    using assms(1) declaration_ids [OF assms(2)] by (auto simp: dated_def segment_def last_name_def)
  have "final_object env d = ''vms'' @ CHR ''/'' # td_vm_id d @ CHR ''/'' # pe_year env ?t @ CHR ''/'' # pe_month env ?t @ CHR ''/'' # last_name env d"
    by (simp add: final_object_def Let_def last_name_def)
  then show ?thesis by (simp only: split_on_app [OF free(5)] split_on_app [OF free(1)] split_on_app [OF free(2)]
      split_on_app [OF free(3)] split_on_free [OF free(4)])
qed

lemma final_segments:
  assumes "dated env" "declaration_wf d" "w \<in> set (split_on CHR ''/'' (final_object env d))"
  shows "segment w"
proof -
  have "segment (last_name env d)"
  proof -
    have "length (last_name env d) \<ge> 36" "CHR ''/'' \<notin> set (last_name env d)"
      using assms(1) declaration_ids [OF assms(2)] by (auto simp: last_name_def dated_def)
    then show ?thesis by (auto simp: segment_def)
  qed
  moreover have "segment (td_vm_id d)" using declaration_ids(1) [OF assms(2)] .
  moreover have "segment ''vms''" by (simp add: segment_def)
  ultimately show ?thesis using assms(1,3) unfolding final_split [OF assms(1,2)] by (auto simp: dated_def)
qed

lemma object_path_final:
  assumes "dated env" "declaration_wf d"
  shows "object_path base (JStr (final_object env d)) = Inr (final_place env base d)"
proof -
  let ?o = "final_object env d"
  have "path_root ?o = []" by (simp add: path_root_def final_object_def Let_def)
  moreover have names: "path_names ?o = split_on CHR ''/'' ?o"
    unfolding path_names_def using final_segments [OF assms] by (auto simp: segment_def intro!: filter_True)
  moreover have "''..'' \<notin> set (split_on CHR ''/'' ?o)" using final_segments [OF assms] by (auto simp: segment_def)
  moreover have "hd (split_on CHR ''/'' ?o) = ''vms''" by (simp add: final_split [OF assms])
  moreover have "?o \<noteq> []" by (simp add: final_object_def Let_def)
  ultimately show ?thesis
    by (simp add: object_path_def path_is_absolute_def path_parts_def path_str_def final_place_def Let_def)
qed

fun parent_paths :: "string \<Rightarrow> string list \<Rightarrow> string list" where
  "parent_paths p [] = []"
| "parent_paths p (c # cs) = joined p c # parent_paths (joined p c) cs"

lemma parent_paths_length:
  "q \<in> set (parent_paths p cs) \<Longrightarrow> length q \<le> length p + sum_list (map (\<lambda>c. length c + 1) cs)"
  by (induction p cs rule: parent_paths.induct) (auto simp: joined_def split: if_splits)

lemma parent_paths_shorter:
  assumes "dated env" "declaration_wf d" "q \<in> set (parent_paths base (folders_of env d))"
  shows "length q < length (final_place env base d)"
proof -
  have "36 \<le> length (td_job_run_id d)" using declaration_ids(3) [OF assms(2)] by simp
  moreover have "length q \<le> length base + 4 + length (td_vm_id d) + 1 + length (pe_year env (td_created_at d)) + 1 +
      length (pe_month env (td_created_at d)) + 1"
    using parent_paths_length [OF assms(3)] unfolding final_split [OF assms(1,2)] by simp
  ultimately show ?thesis by (auto simp: final_place_def joined_def final_object_def Let_def)
qed

lemma folders_nonempty: "dated env \<Longrightarrow> declaration_wf d \<Longrightarrow> [] \<notin> set (folders_of env d)"
  using final_segments [of env d] by (auto simp: segment_def dest: in_set_butlastD)

lemma json_at_eq: "json_at env fs p v \<Longrightarrow> json_at env fs p w \<Longrightarrow> v = w"
  by (auto simp: json_at_def node_at_def)

lemma py_eq_text: "py_eq (JObj v) (JObj e) \<Longrightarrow> dget v k = Some (JStr x) \<Longrightarrow> dget e k = Some (JStr x)"
proof -
  have step: "py_eq_dict v e \<Longrightarrow> map_of v k = Some (JStr x) \<Longrightarrow> map_of e k = Some (JStr x)"
    by (induction v) (auto split: option.splits if_splits)
  assume "py_eq (JObj v) (JObj e)" "dget v k = Some (JStr x)"
  then show ?thesis using step by simp
qed

lemma record_object: "record_matches v st t sid p = Inr ob \<Longrightarrow> dget v ''bundle_object_id'' = Some (JStr ob)"
  by (auto simp: record_matches_def split: if_splits option.splits json.splits)

lemma expected_object: "dget (expected_intent env d) ''bundle_object_id'' = Some (JStr (final_object env d))"
  by (simp add: expected_intent_def replica_record_def)

lemma confirm_run:
  assumes "confirm_intent env (intent_place base t) d (expected_intent env d) s s = (Inr u, s')"
  shows "pu_fs s (intent_place base t) \<noteq> None \<and> intent_exact env base t (pu_fs s) d \<and> pu_fs s' = pu_fs s \<or>
    pu_fs s (intent_place base t) = None \<and> pu_fs s' = (pu_fs s)(intent_place base t \<mapsto> JsonFile (JObj (expected_intent env d)))"
proof (cases "pu_fs s (intent_place base t) = None")
  case True
  with assms show ?thesis by (simp add: confirm_intent_def) (metis write_json_Inr)
next
  case False
  with assms obtain v s1 ob where v: "read_json env (intent_place base t) s = (Inr v, s1)" and s': "s' = s1"
    and ob: "record_matches v ''PUBLISH_INTENT'' (td_transfer_id d) (td_storage_id d) (td_restore_point_id d) = Inr ob"
    and eq: "py_eq (JObj v) (JObj (expected_intent env d))"
    unfolding confirm_intent_def by (auto simp: andthen_Inr op_Inr split: if_splits)
  from py_eq_text [OF eq record_object [OF ob]] have "ob = final_object env d" by (simp add: expected_object)
  with ob eq read_json_at [OF v] have "intent_exact env base t (pu_fs s) d"
    unfolding intent_exact_def intent_fits_def using json_at_eq by metis
  with False s' reads_onlyD [OF reads_only_calls(4) v] show ?thesis by simp
qed

text \<open>Fewer nodes, weaker requirements.\<close>

lemma parents_fit_less: "(\<And>q. fs q = fs' q \<or> fs q = None) \<Longrightarrow> parents_fit fs' p cs \<Longrightarrow> parents_fit fs p cs"
  by (induction cs arbitrary: p) (force, metis parents_fit.simps(2))

lemma no_symlink_less: "(\<And>q. fs q = fs' q \<or> fs q \<noteq> Some Symlink) \<Longrightarrow> no_symlink fs' p \<Longrightarrow> no_symlink fs p"
  unfolding no_symlink_def list_all_iff by metis

lemma bundle_move_run:
  assumes "dated env" "declaration_wf d" "move_bundle env base source (final_object env d) s = (Inr u, s')"
  shows "no_symlink (pu_fs s) base \<and> no_symlink (pu_fs s) source \<and> parents_fit (pu_fs s) base (folders_of env d) \<and> pe_one_device env"
proof -
  let ?s1 = "s\<lparr>pu_tick := pu_tick s + 1\<rparr>"
  from assms(3) obtain u2 s2 where sym: "no_symlink (pu_fs s) base" "no_symlink (pu_fs s) source"
    and par: "make_parents env base (folders_of env d) ?s1 = (Inr u2, s2)"
    and ren: "rename_bundle env source (joined base (final_object env d)) s2 = (Inr u, s')"
    unfolding move_bundle_def andthen_Inr op_Inr guard_Inr call_Inr by auto
  from ren have "pe_one_device env" unfolding rename_bundle_def andthen_Inr op_Inr guard_Inr by blast
  with sym parents_run [OF folders_nonempty [OF assms(1,2)] par] show ?thesis by simp
qed

lemma source_run:
  assumes "dated env" "declaration_wf d" "publish_source env base (staging_place base t) d s = (Inr b, s')"
  shows "source_fits env base t (pu_fs s) d \<and> b = final_object env d"
proof -
  from assms(3) obtain u s1 u2 s2 u3 s3 where chk: "check_bundle env (source_place base t) d s = (Inr u, s1)"
    and conf: "confirm_intent env (intent_place base t) d (expected_intent env d) s1 s1 = (Inr u2, s2)"
    and fin: "pu_fs s2 (final_place env base d) = None"
    and mv: "move_bundle env base (source_place base t) (final_object env d) s2 = (Inr u3, s3)" and b: "b = final_object env d"
    unfolding publish_source_def Let_def andthen_Inr op_Inr guard_Inr source_place_def intent_place_def final_place_def expected_intent_def
    by auto
  have s1: "pu_fs s1 = pu_fs s" using reads_onlyD [OF reads_only_check_bundle chk] .
  from confirm_run [OF conf] s1 have less: "pu_fs s q = pu_fs s2 q \<or> pu_fs s q = None" for q by auto
  from confirm_run [OF conf] s1 have int: "pu_fs s (intent_place base t) \<noteq> None \<Longrightarrow> intent_exact env base t (pu_fs s) d" by auto
  have "pu_fs s (final_place env base d) = None" using less [of "final_place env base d"] fin by auto
  moreover have "no_symlink (pu_fs s) q" if "no_symlink (pu_fs s2) q" for q
    by (rule no_symlink_less [OF _ that]) (metis less option.distinct(1))
  ultimately show ?thesis
    using check_bundle_fits [OF chk] int bundle_move_run [OF assms(1,2) mv] parents_fit_less [of "pu_fs s" "pu_fs s2", OF less] b
    unfolding source_fits_def by blast
qed

lemma moved_run:
  assumes "pu_fs s (source_place base t) = None" "publish_moved env base (staging_place base t) d s = (Inr b, s')"
  shows "moved_fits env base t (pu_fs s) d \<and> b = final_object env d"
proof -
  from assms(2) obtain v s1 ob path u s2 where v: "read_json env (intent_place base t) s = (Inr v, s1)"
    and ob: "record_matches v ''PUBLISH_INTENT'' (td_transfer_id d) (td_storage_id d) (td_restore_point_id d) = Inr ob"
    and path: "object_path base (JStr ob) = Inr path" and chk: "check_bundle env path d s1 = (Inr u, s2)"
    and eq: "path = final_place env base d" and b: "b = ob"
    unfolding publish_moved_def Let_def op_Inr final_place_def intent_place_def
    by (auto simp: andthen_Inr op_Inr split: if_splits)
  from path have "path = joined base ob" by (auto simp: object_path_def split: if_splits)
  with eq have "ob = final_object env d" unfolding final_place_def using joined_root by (metis same_append_eq)
  with read_json_at [OF v] ob path eq check_bundle_fits [OF chk] reads_onlyD [OF reads_only_calls(4) v] assms(1) b
  show ?thesis unfolding moved_fits_def intent_fits_def by auto
qed

lemma fresh_run:
  assumes "dated env" "publish_fresh env base (receiver_place base) sid t p s = (Inr v, s')"
  shows "fresh_fits env base sid t p (pu_fs s) v"
proof -
  from assms(2) obtain u1 s1 rec0 s2 d rcpt s3 u5 u2 s4 b s5 where
    dir: "real_dir env (staging_place base t) s = (Inr u1, s1)"
    and rec0: "read_json env (slash (staging_place base t) ''transfer.json'') s1 = (Inr rec0, s2)"
    and d: "declaration_of env rec0 t sid p = Inr d"
    and rcpt: "read_json env (slash (staging_place base t) ''receipt.json'') s2 = (Inr rcpt, s3)" "check_receipt rcpt d = Inr u5"
    and par: "check_parent env base d s3 = (Inr u2, s4)"
    and obj: "(if pu_fs s4 (slash (staging_place base t) ''bundle'') \<noteq> None then publish_source env base (staging_place base t) d
       else publish_moved env base (staging_place base t) d) s4 = (Inr b, s5)"
    and v: "v = published_result t sid p b"
    unfolding publish_fresh_def Let_def andthen_Inr op_Inr staging_place_def [symmetric] by clarify (rule that, assumption+)
  have s1: "pu_fs s1 = pu_fs s" using reads_onlyD [OF reads_only_calls(1) dir] .
  have s2: "pu_fs s2 = pu_fs s" using reads_onlyD [OF reads_only_calls(4) rec0] s1 by simp
  have s3: "pu_fs s3 = pu_fs s" using reads_onlyD [OF reads_only_calls(4) rcpt(1)] s2 by simp
  have s4: "pu_fs s4 = pu_fs s" using reads_onlyD [OF reads_only_check_parent par] s3 by simp
  have wf: "declaration_wf d" using declaration_of_Inr [OF d] by simp
  have "(source_fits env base t (pu_fs s) d \<or> moved_fits env base t (pu_fs s) d) \<and> b = final_object env d"
  proof (cases "pu_fs s4 (slash (staging_place base t) ''bundle'') = None")
    case True
    with obj moved_run [of s4 base t env d b s5] s4 show ?thesis by (simp add: source_place_def)
  next
    case False
    with obj source_run [OF assms(1) wf, of base t s4 b s5] s4 show ?thesis by simp
  qed
  moreover have "staged_fits env base sid t p (pu_fs s) d"
    using real_dir_Inr [OF dir] read_json_at [OF rec0] d read_json_at [OF rcpt(1)] rcpt(2) parent_run [OF par] s1 s2 s3
    unfolding staged_fits_def by auto
  ultimately show ?thesis using v unfolding fresh_fits_def by blast
qed

section \<open>The state folder and the lock\<close>

definition shell :: "string \<Rightarrow> (string \<Rightarrow> node option) \<Rightarrow> (string \<Rightarrow> node option) \<Rightarrow> bool" where
  "shell base fs fs' \<longleftrightarrow> (\<forall>q. fs' q \<noteq> fs q \<longrightarrow> fs q = None \<and>
     ((q = state_path base \<or> q = published_path base) \<and> fs' q = Some Dir \<or> q = lock_place base \<and> fs' q = Some (File [])))"

lemma shell_refl [simp]: "shell base fs fs"
  by (simp add: shell_def)

lemma shell_trans: "shell base fs fs1 \<Longrightarrow> shell base fs1 fs2 \<Longrightarrow> shell base fs fs2"
  unfolding shell_def by (metis option.distinct(1))

lemma places_distinct: "lock_place base \<noteq> state_path base" "lock_place base \<noteq> published_path base" "state_path base \<noteq> published_path base"
  by (simp_all add: lock_place_def published_path_def slash_def)

lemma ensure_dir_shell:
  assumes "p = state_path base \<or> p = published_path base"
  shows "outcome (ensure_dir env p) s (\<lambda>r s'. shell base (pu_fs s) (pu_fs s'))"
  using assms unfolding ensure_dir_def outcome_def shell_def
  by (auto simp: op_defs call_def put_node_def real_dir_def split: sum.split prod.split option.split node.split)

lemma ensure_state_shell: "outcome (ensure_state env base) s (\<lambda>r s'. shell base (pu_fs s) (pu_fs s'))"
  unfolding ensure_state_def
proof (rule outcome_andthen)
  fix e s1 assume "ensure_dir env (state_path base) s = (Inl e, s1)"
  from outcomeD [OF ensure_dir_shell this] show "shell base (pu_fs s) (pu_fs s1)" by simp
next
  fix u s1 assume "ensure_dir env (state_path base) s = (Inr u, s1)"
  from outcomeD [OF ensure_dir_shell this] have "shell base (pu_fs s) (pu_fs s1)" by simp
  then show "outcome (ensure_dir env (published_path base)) s1 (\<lambda>r s'. shell base (pu_fs s) (pu_fs s'))"
    using ensure_dir_shell [of "published_path base" base env s1] shell_trans unfolding outcome_def by blast
qed

lemma take_lock_shell: "outcome (take_lock env base) s (\<lambda>r s'. shell base (pu_fs s) (pu_fs s'))"
  unfolding take_lock_def Let_def outcome_def shell_def lock_place_def [symmetric]
  by (auto simp: op_defs call_def put_node_def split: sum.split prod.split option.split node.split)

lemma shell_storage: "shell base fs fs' \<Longrightarrow> storage_fits base fs \<Longrightarrow> storage_fits base fs'"
  unfolding storage_fits_def shell_def using places_distinct by (metis node.distinct(3,7) option.distinct(1) option.sel node.distinct)

definition inside_state :: "string \<Rightarrow> string \<Rightarrow> bool" where
  "inside_state base q \<longleftrightarrow> q = state_path base \<or> q = published_path base \<or> q = lock_place base"

lemma shell_outside: "shell base fs fs' \<Longrightarrow> \<not> inside_state base q \<Longrightarrow> fs' q = fs q"
  by (auto simp: shell_def inside_state_def)

lemma inside_prefix: "inside_state base q \<Longrightarrow> prefix (state_path base) q"
  by (auto simp: inside_state_def published_path_def lock_place_def slash_def)

lemma state_other:
  "\<not> prefix (state_path base) (staging_place base t @ r)" "prefix (vms_place base) q \<Longrightarrow> \<not> prefix (state_path base) q"
  "\<not> inside_state base (marker_path base p)"
proof -
  obtain j where j: "\<And>x. joined base x = j @ x" using joined_root by blast
  show "\<not> prefix (state_path base) (staging_place base t @ r)"
    unfolding state_path_def staging_place_def receiver_place_def slash_def j append_assoc same_prefix_prefix by simp
  have "prefix (j @ ''vms'') q \<Longrightarrow> \<not> prefix (j @ ''.vmbackupd-replica-state'') q"
    by (auto simp: prefix_def append_eq_append_conv2)
  then show "prefix (vms_place base) q \<Longrightarrow> \<not> prefix (state_path base) q" by (simp add: vms_place_def state_path_def j)
  show "\<not> inside_state base (marker_path base p)"
    by (simp add: inside_state_def marker_path_def published_path_def lock_place_def slash_def)
qed

lemma object_path_other:
  assumes "object_path base x = Inr path"
  shows "\<not> prefix (state_path base) path"
proof
  obtain j where j: "\<And>x. joined base x = j @ x" using joined_root by blast
  assume "prefix (state_path base) path"
  moreover from assms obtain ob where ob: "path = joined base ob" "\<not> path_is_absolute ob" "hd (path_parts ob) = ''vms''"
    by (cases x) (auto simp: object_path_def split: if_splits)
  ultimately have "prefix ''.vmbackupd-replica-state'' ob" by (simp add: state_path_def j)
  then obtain r where r: "ob = ''.vmbackupd-replica-state'' @ r" by (auto elim: prefixE)
  have "hd (path_parts ob) = ''.vmbackupd-replica-state'' @ hd (split_on CHR ''/'' r)"
  proof (cases "split_on CHR ''/'' r")
    case (Cons w ws)
    with ob(2) show ?thesis by (simp add: r path_parts_def path_is_absolute_def path_names_def)
  qed simp
  with ob(3) show False by simp
qed

lemma parents_fit_region:
  "(\<And>q. prefix (joined p c) q \<Longrightarrow> fs' q = fs q) \<Longrightarrow> parents_fit fs' p (c # cs) = parents_fit fs p (c # cs)"
proof (induction cs arbitrary: p c)
  case (Cons c2 cs)
  have "prefix (joined p c) (joined (joined p c) c2)" by (simp add: joined_def)
  then have "parents_fit fs' (joined p c) (c2 # cs) = parents_fit fs (joined p c) (c2 # cs)"
    by (intro Cons.IH Cons.prems) (rule prefix_order.trans)
  with Cons.prems [of "joined p c"] show ?case by simp
qed simp

lemma folders_cong:
  assumes "\<And>q. prefix (vms_place base) q \<Longrightarrow> fs' q = fs q"
  shows "parents_fit fs' base (folders_of env d) = parents_fit fs base (folders_of env d)"
proof -
  obtain cs where "folders_of env d = ''vms'' # cs" using final_parents by blast
  then show ?thesis using parents_fit_region [of base "''vms''" fs' fs cs] assms by (simp only: vms_place_def)
qed

lemma shell_no_symlink: "shell base fs fs' \<Longrightarrow> no_symlink fs' p = no_symlink fs p"
proof -
  assume sh: "shell base fs fs'"
  have "fs' q = Some Symlink \<longleftrightarrow> fs q = Some Symlink" for q
    using sh unfolding shell_def by (cases "fs' q = fs q") auto
  then show ?thesis by (simp add: no_symlink_def)
qed

lemma bundle_fits_cong:
  assumes "honest_names env" "\<And>q. prefix b q \<Longrightarrow> fs' q = fs q"
  shows "bundle_fits env fs' b d = bundle_fits env fs b d"
proof -
  have "fs' b = fs b" "\<And>r. fs' (slash b r) = fs (slash b r)" using assms(2) by (simp_all add: slash_def)
  then show ?thesis using bundle_fits_moved [OF assms(1)] by metis
qed

lemma json_at_cong: "fs' q = fs q \<Longrightarrow> json_at env fs' q v = json_at env fs q v"
  by (simp add: json_at_def node_at_def)

lemma inner_cong:
  assumes "honest_names env" "shell base fs fs'"
  shows "inner_fits env base sid t p fs' v = inner_fits env base sid t p fs v"
proof -
  have out: "fs' q = fs q" if "\<not> prefix (state_path base) q" for q
    using shell_outside [OF assms(2)] inside_prefix that by blast
  have vms: "prefix (vms_place base) q \<Longrightarrow> fs' q = fs q" for q using out state_other(2) by blast
  have stg: "fs' (staging_place base t @ r) = fs (staging_place base t @ r)" for r by (rule out [OF state_other(1)])
  have st: "fs' (slash (staging_place base t) x) = fs (slash (staging_place base t) x)" "fs' (staging_place base t) = fs (staging_place base t)"
    for x using stg [of "''/'' @ x"] stg [of "[]"] by (simp_all add: slash_def)
  have m: "fs' (marker_path base q) = fs (marker_path base q)" for q by (rule shell_outside [OF assms(2) state_other(3)])
  have obj: "object_path base x = Inr path \<Longrightarrow> fs' path = fs path" for x path using out object_path_other by blast
  have src: "bundle_fits env fs' (source_place base t) d = bundle_fits env fs (source_place base t) d" for d
  proof (rule bundle_fits_cong [OF assms(1)])
    fix q assume "prefix (source_place base t) q"
    then obtain r where "q = staging_place base t @ r" by (auto simp: source_place_def slash_def elim!: prefixE)
    then show "fs' q = fs q" using stg by simp
  qed
  have fin: "fs' q = fs q" if "prefix (final_place env base d) q" for q d
  proof (rule vms)
    have "prefix (vms_place base) (joined base (final_object env d) @ [])" by (rule places(1))
    with that show "prefix (vms_place base) q" unfolding final_place_def by (auto elim: prefix_order.trans)
  qed
  have od: "(\<exists>path. object_path base x = Inr path \<and> fs' path = Some Dir) = (\<exists>path. object_path base x = Inr path \<and> fs path = Some Dir)"
    for x using obj by metis
  have odv: "(\<exists>path. object_path base x = Inr path \<and> fs' path = Some Dir \<and> P) = (\<exists>path. object_path base x = Inr path \<and> fs path = Some Dir \<and> P)"
    for x P using obj by metis
  have mj: "json_at env fs' (marker_path base q) = json_at env fs (marker_path base q)" for q
    by (rule ext, rule json_at_cong, rule m)
  have parent: "parent_fits env base fs' d = parent_fits env base fs d" for d
    by (simp add: parent_fits_def mj od)
  have intent: "json_at env fs' (intent_place base t) = json_at env fs (intent_place base t)"
    unfolding intent_place_def by (rule ext, rule json_at_cong, rule st(1))
  have ip: "fs' (intent_place base t) = fs (intent_place base t)" unfolding intent_place_def by (rule st(1))
  have source: "source_fits env base t fs' d = source_fits env base t fs d" for d
    using fin [of d "final_place env base d"] folders_cong [of base fs' fs env d, OF vms] shell_no_symlink [OF assms(2)]
    by (simp add: source_fits_def src intent_exact_def intent_fits_def intent ip)
  have moved: "moved_fits env base t fs' d = moved_fits env base t fs d" for d
    using bundle_fits_cong [OF assms(1) fin [of d]] st(1) [of "''bundle''"]
    by (simp add: moved_fits_def intent_fits_def intent source_place_def)
  have sj: "json_at env fs' (slash (staging_place base t) x) = json_at env fs (slash (staging_place base t) x)" for x
    by (rule ext, rule json_at_cong, rule st(1))
  have staged: "staged_fits env base sid t p fs' d = staged_fits env base sid t p fs d" for d
    by (simp add: staged_fits_def parent st sj)
  have known: "known_fits env base sid t p fs' v = known_fits env base sid t p fs v"
    by (simp add: known_fits_def mj odv)
  show ?thesis by (simp add: inner_fits_def fresh_fits_def m known source moved staged)
qed

section \<open>The requirements are enough\<close>

definition publish_body :: "pub_env \<Rightarrow> string \<Rightarrow> string \<Rightarrow> string \<Rightarrow> string \<Rightarrow> dict pubop" where
  "publish_body env base sid t p =
     andthen (real_dir env base) (\<lambda>_. andthen (real_dir env (receiver_place base)) (\<lambda>_.
     andthen (ensure_state env base) (\<lambda>_. andthen (take_lock env base) (\<lambda>_. reading (\<lambda>s.
     if pu_fs s (marker_path base p) \<noteq> None then publish_known env base sid t p
     else publish_fresh env base (receiver_place base) sid t p)))))"

lemma publish_is_body:
  assumes "publish_staged_replica env storage tid pid s = (Inr v, s')"
  shows "\<exists>sid t p. \<forall>env. publish_staged_replica env storage tid pid = publish_body env (storage_root storage) sid t p"
proof -
  obtain root where root: "dget_or storage ''backup_data_root'' JNull = JStr root"
    using assms by (cases "dget_or storage ''backup_data_root'' JNull")
      (simp_all add: publish_staged_replica_def andthen_Inr op_Inr split: json.splits)
  obtain ns where ns: "dget_or storage ''receiver_namespace'' JNull = JStr ns"
    using assms by (cases "dget_or storage ''receiver_namespace'' JNull")
      (simp_all add: publish_staged_replica_def andthen_Inr op_Inr root)
  from assms obtain t p sid where ids: "publish_uuid tid = Inr t" "publish_uuid pid = Inr p"
      "publish_uuid (dget_or storage ''storage_id'' JNull) = Inr sid"
    and ok: "path_is_absolute (path_str root)" "''..'' \<notin> set (path_parts (path_str root))"
      "path_str ns = joined (path_str root) ''.vmbackupd-receiver''"
    by (auto simp: publish_staged_replica_def andthen_Inr op_Inr root ns Let_def split: if_splits)
  have "publish_staged_replica env storage tid pid = publish_body env (storage_root storage) sid t p" for env
    by (rule ext) (simp add: publish_staged_replica_def publish_body_def ids ok root ns storage_root_def receiver_place_def Let_def op_run cong del: if_weak_cong)
  then show ?thesis by blast
qed

lemma real_dir_steady: "pu_fs s p = Some Dir \<Longrightarrow> real_dir (steady env) p s = (Inr (), s\<lparr>pu_tick := pu_tick s + 1\<rparr>)"
  by (simp add: real_dir_def op_defs call_def)

lemma ensure_dir_steady:
  "pu_fs s p = None \<or> pu_fs s p = Some Dir \<Longrightarrow> \<exists>s'. ensure_dir (steady env) p s = (Inr (), s')"
  by (auto simp: ensure_dir_def real_dir_def op_defs call_def put_node_def)

lemma take_lock_steady:
  "pu_fs s (lock_place base) \<noteq> Some Dir \<Longrightarrow> pu_fs s (lock_place base) \<noteq> Some Symlink \<Longrightarrow>
     \<exists>s'. take_lock (steady env) base s = (Inr (), s')"
  by (auto simp: take_lock_def Let_def lock_place_def op_defs call_def put_node_def split: option.split node.split)

lemma write_json_steady: "\<exists>s'. write_json (steady env) p v s = (Inr (), s') \<and> pu_fs s' = (pu_fs s)(p \<mapsto> JsonFile (JObj v))"
  by (simp add: write_json_def op_defs call_def put_node_def)

lemma ensure_state_steady:
  assumes "storage_fits base (pu_fs s)"
  shows "\<exists>s'. ensure_state (steady env) base s = (Inr (), s')"
proof -
  from assms obtain s1 where one: "ensure_dir (steady env) (state_path base) s = (Inr (), s1)"
    using ensure_dir_steady unfolding storage_fits_def by metis
  from outcomeD [OF ensure_dir_shell one] shell_storage assms have "storage_fits base (pu_fs s1)" by blast
  then obtain s2 where "ensure_dir (steady env) (published_path base) s1 = (Inr (), s2)"
    using ensure_dir_steady unfolding storage_fits_def by metis
  with one show ?thesis unfolding ensure_state_def andthen_Inr by blast
qed

lemma ensure_dir_run: "ensure_dir env p s = (Inr u, s') \<Longrightarrow> pu_fs s p = None \<or> pu_fs s p = Some Dir"
  by (auto simp: ensure_dir_def andthen_Inr op_Inr call_Inr put_node_Inr split: if_splits option.splits node.splits)

lemma take_lock_run: "take_lock env base s = (Inr u, s') \<Longrightarrow> pu_fs s (lock_place base) \<noteq> Some Dir \<and> pu_fs s (lock_place base) \<noteq> Some Symlink"
  by (auto simp: take_lock_def Let_def lock_place_def andthen_Inr op_Inr call_Inr split: option.splits node.splits)

lemma body_run:
  assumes "dated env" "honest_names env" "publish_body env base sid t p s = (Inr v, s')"
  shows "storage_fits base (pu_fs s) \<and> inner_fits env base sid t p (pu_fs s) v"
proof -
  from assms(3) obtain u1 s1 u2 s2 u3 s3 u4 s4 where
    one: "real_dir env base s = (Inr u1, s1)" and two: "real_dir env (receiver_place base) s1 = (Inr u2, s2)"
    and three: "ensure_state env base s2 = (Inr u3, s3)" and four: "take_lock env base s3 = (Inr u4, s4)"
    and last: "(if pu_fs s4 (marker_path base p) \<noteq> None then publish_known env base sid t p
     else publish_fresh env base (receiver_place base) sid t p) s4 = (Inr v, s')"
    unfolding publish_body_def andthen_Inr op_Inr by metis
  have dirs: "pu_fs s base = Some Dir" "pu_fs s (receiver_place base) = Some Dir" and s2: "pu_fs s2 = pu_fs s"
    using real_dir_Inr [OF one] real_dir_Inr [OF two] by simp_all
  from three obtain u5 s5 where a: "ensure_dir env (state_path base) s2 = (Inr u5, s5)" and b: "ensure_dir env (published_path base) s5 = (Inr u3, s3)"
    unfolding ensure_state_def andthen_Inr by blast
  from outcomeD [OF ensure_dir_shell a] s2 have sh5: "shell base (pu_fs s) (pu_fs s5)" by simp
  from outcomeD [OF ensure_state_shell three] s2 have sh3: "shell base (pu_fs s) (pu_fs s3)" by simp
  from outcomeD [OF take_lock_shell four] sh3 shell_trans have sh4: "shell base (pu_fs s) (pu_fs s4)" by blast
  have "pu_fs s (state_path base) = None \<or> pu_fs s (state_path base) = Some Dir" using ensure_dir_run [OF a] s2 by simp
  moreover have "pu_fs s (published_path base) = None \<or> pu_fs s (published_path base) = Some Dir"
    using ensure_dir_run [OF b] sh5 unfolding shell_def by metis
  moreover have "pu_fs s (lock_place base) \<noteq> Some Dir \<and> pu_fs s (lock_place base) \<noteq> Some Symlink"
    using take_lock_run [OF four] sh3 unfolding shell_def by (metis option.distinct(1))
  ultimately have "storage_fits base (pu_fs s)" using dirs by (simp add: storage_fits_def)
  moreover have "inner_fits env base sid t p (pu_fs s4) v"
    using last known_run [of env base sid t p s4 v s'] fresh_run [OF assms(1), of base sid t p s4 v s']
    by (cases "pu_fs s4 (marker_path base p) = None") (simp_all add: inner_fits_def)
  ultimately show ?thesis using inner_cong [OF assms(2) sh4] by simp
qed

lemma make_parents_effect:
  "outcome (make_parents env p cs) s (\<lambda>r s'. \<forall>q. pu_fs s' q \<noteq> pu_fs s q \<longrightarrow>
     pu_fs s q = None \<and> pu_fs s' q = Some Dir \<and> q \<in> set (parent_paths p cs))"
proof (induction cs arbitrary: p s)
  case Nil
  then show ?case by (simp add: outcome_def ret_def)
next
  case (Cons c cs)
  let ?open = "reading (\<lambda>s. case pu_fs s (joined p c) of
         None \<Rightarrow> andthen (call env OtherException) (\<lambda>_. andthen (put_node (joined p c) Dir) (\<lambda>_.
                 andthen (call env OtherException) (\<lambda>_. call env OtherException)))
       | Some Dir \<Rightarrow> call env OtherException
       | _ \<Rightarrow> raise OtherException)"
  have one: "\<forall>q. pu_fs s1 q \<noteq> pu_fs s q \<longrightarrow> pu_fs s q = None \<and> pu_fs s1 q = Some Dir \<and> q = joined p c"
    if "?open s = (r, s1)" for r s1
    using that by (auto simp: op_defs call_def put_node_def split: option.splits node.splits sum.splits prod.splits if_splits)
  show ?case unfolding make_parents.simps(2)
  proof (rule outcome_andthen)
    fix e s1 assume "?open s = (Inl e, s1)"
    from one [OF this] show "\<forall>q. pu_fs s1 q \<noteq> pu_fs s q \<longrightarrow> pu_fs s q = None \<and> pu_fs s1 q = Some Dir \<and> q \<in> set (parent_paths p (c # cs))"
      by auto
  next
    fix u s1 assume "?open s = (Inr u, s1)"
    from one [OF this] Cons.IH [of "joined p c" s1]
    show "outcome (make_parents env (joined p c) cs) s1 (\<lambda>r s'. \<forall>q. pu_fs s' q \<noteq> pu_fs s q \<longrightarrow>
        pu_fs s q = None \<and> pu_fs s' q = Some Dir \<and> q \<in> set (parent_paths p (c # cs)))"
      unfolding outcome_def by (metis list.set_intros parent_paths.simps(2) set_ConsD)
  qed
qed

lemma make_parents_steady:
  "[] \<notin> set cs \<Longrightarrow> parents_fit (pu_fs s) p cs \<Longrightarrow> \<exists>s'. make_parents (steady env) p cs s = (Inr (), s')"
proof (induction cs arbitrary: p s)
  case (Cons c cs)
  let ?open = "reading (\<lambda>s. case pu_fs s (joined p c) of
         None \<Rightarrow> andthen (call (steady env) OtherException) (\<lambda>_. andthen (put_node (joined p c) Dir) (\<lambda>_.
                 andthen (call (steady env) OtherException) (\<lambda>_. call (steady env) OtherException)))
       | Some Dir \<Rightarrow> call (steady env) OtherException
       | _ \<Rightarrow> raise OtherException)"
  obtain s1 where one: "?open s = (Inr (), s1)" and other: "\<And>q. q \<noteq> joined p c \<Longrightarrow> pu_fs s1 q = pu_fs s q"
    using Cons.prems(2) by (auto simp: op_defs call_def put_node_def)
  have "parents_fit (pu_fs s1) (joined p c) cs = parents_fit (pu_fs s) (joined p c) cs"
  proof (rule parents_fit_cong)
    show "[] \<notin> set cs" using Cons.prems(1) by simp
    show "pu_fs s1 q = pu_fs s q" if "length (joined p c) < length q" for q by (rule other) (use that in auto)
  qed
  with Cons.IH [of s1 "joined p c"] Cons.prems obtain s2 where "make_parents (steady env) (joined p c) cs s1 = (Inr (), s2)" by auto
  with one show ?case unfolding make_parents.simps(2) andthen_Inr by blast
qed (simp add: ret_def)

lemma final_free:
  assumes "dated env" "declaration_wf d" "\<forall>q. fs' q \<noteq> fs q \<longrightarrow> fs q = None \<and> fs' q = Some Dir \<and> q \<in> set (parent_paths base (folders_of env d))"
  shows "fs' (final_place env base d) = fs (final_place env base d)"
  using assms(3) parent_paths_shorter [OF assms(1,2), of "final_place env base d" base] by (metis order.irrefl)

lemma move_steady:
  assumes "dated env" "declaration_wf d" "no_symlink (pu_fs s) base" "no_symlink (pu_fs s) source"
    and "parents_fit (pu_fs s) base (folders_of env d)" "pe_one_device env" "pu_fs s (final_place env base d) = None"
  shows "\<exists>s'. move_bundle (steady env) base source (final_object env d) s = (Inr (), s')"
proof -
  let ?s1 = "s\<lparr>pu_tick := pu_tick s + 1\<rparr>"
  obtain s2 where par: "make_parents (steady env) base (folders_of env d) ?s1 = (Inr (), s2)"
    using make_parents_steady [OF folders_nonempty [OF assms(1,2)], of ?s1 base env] assms(5) by auto
  from outcomeD [OF make_parents_effect par] final_free [OF assms(1,2)] assms(7)
  have free: "pu_fs s2 (joined base (final_object env d)) = None" unfolding final_place_def by (metis pub.select_convs(1) pub.simps(1) pub.surjective pub.update_convs(2))
  have "\<exists>s'. rename_bundle (steady env) source (joined base (final_object env d)) s2 = (Inr (), s')"
    using free assms(6) by (simp add: rename_bundle_def op_defs call_def)
  with par assms(3,4) show ?thesis unfolding move_bundle_def by (auto simp: andthen_def op_defs call_def)
qed

lemma intent_elsewhere:
  "\<not> prefix (vms_place base) (intent_place base t)" "\<not> prefix (source_place base t) (intent_place base t)"
  "intent_place base t \<noteq> marker_path base p" "intent_place base t \<noteq> final_place env base d"
proof -
  obtain j where j: "\<And>x. joined base x = j @ x" using joined_root by blast
  show v: "\<not> prefix (vms_place base) (intent_place base t)"
    unfolding vms_place_def intent_place_def staging_place_def receiver_place_def slash_def j append_assoc same_prefix_prefix by simp
  show "\<not> prefix (source_place base t) (intent_place base t)" using places(5) by (simp add: intent_place_def)
  show "intent_place base t \<noteq> marker_path base p" unfolding intent_place_def by (metis not_marker(4) rangeI)
  show "intent_place base t \<noteq> final_place env base d"
    using v places(1) [of base env d "[]"] by (auto simp: final_place_def)
qed

text \<open>With an intent written or confirmed, the rest of the source requirements still hold.\<close>

definition with_intent :: "pub_env \<Rightarrow> string \<Rightarrow> string \<Rightarrow> transfer_declaration \<Rightarrow> (string \<Rightarrow> node option) \<Rightarrow> (string \<Rightarrow> node option) \<Rightarrow> bool" where
  "with_intent env base t d fs fs' \<longleftrightarrow> fs' = fs \<or>
     fs (intent_place base t) = None \<and> fs' = fs(intent_place base t \<mapsto> JsonFile (JObj (expected_intent env d)))"

lemma steady_intent: "expected_intent (steady env) d = expected_intent env d" "with_intent (steady env) = with_intent env"
  "final_place (steady env) = final_place env"
  by (simp_all add: expected_intent_def with_intent_def final_place_def fun_eq_iff)

definition records_fit :: "pub_env \<Rightarrow> bool" where
  "records_fit env \<longleftrightarrow> (\<forall>st d. declaration_wf d \<longrightarrow> 0 < pe_size env (JObj (replica_record st d (final_object env d))) \<and>
     int (pe_size env (JObj (replica_record st d (final_object env d)))) \<le> max_metadata_bytes)"

lemma record_readable:
  "records_fit env \<Longrightarrow> declaration_wf d \<Longrightarrow> fs q = Some (JsonFile (JObj (replica_record st d (final_object env d)))) \<Longrightarrow>
     json_at env fs q v \<longleftrightarrow> v = replica_record st d (final_object env d)"
  by (auto simp: json_at_def node_at_def records_fit_def size_of_def object_in_def)

lemma py_eq_expected: "py_eq (JObj (expected_intent env d)) (JObj (expected_intent env d))"
  by (simp add: expected_intent_def replica_record_def opt_json_def number_of_def split: option.split)

lemma intent_written:
  assumes "records_fit env" "declaration_wf d" "fs (intent_place base t) = Some (JsonFile (JObj (expected_intent env d)))"
  shows "intent_exact env base t fs d"
proof -
  have "json_at env fs (intent_place base t) v \<longleftrightarrow> v = expected_intent env d" for v
    using record_readable [OF assms(1,2), of fs "intent_place base t" "''PUBLISH_INTENT''" v] assms(3) by (simp add: expected_intent_def)
  moreover have "record_matches (expected_intent env d) ''PUBLISH_INTENT'' (td_transfer_id d) (td_storage_id d) (td_restore_point_id d) =
      Inr (final_object env d)"
    by (simp add: record_matches_def expected_intent_def replica_record_def dget_or_def)
  ultimately show ?thesis using py_eq_expected unfolding intent_exact_def intent_fits_def by metis
qed

lemma with_intent_fits:
  assumes "honest_names env" "records_fit env" "declaration_wf d" "with_intent env base t d fs fs'" "source_fits env base t fs d"
  shows "source_fits env base t fs' d"
proof (cases "fs' = fs")
  case False
  with assms(4) have none: "fs (intent_place base t) = None" and fs': "fs' = fs(intent_place base t \<mapsto> JsonFile (JObj (expected_intent env d)))"
    by (auto simp: with_intent_def)
  have other: "q \<noteq> intent_place base t \<Longrightarrow> fs' q = fs q" for q by (simp add: fs')
  have "bundle_fits env fs' (source_place base t) d = bundle_fits env fs (source_place base t) d"
    by (rule bundle_fits_cong [OF assms(1)], rule other) (use intent_elsewhere(2) in blast)
  moreover have "intent_exact env base t fs' d" by (rule intent_written [OF assms(2,3)]) (simp add: fs')
  moreover have "parents_fit fs' base (folders_of env d) = parents_fit fs base (folders_of env d)"
    by (rule folders_cong, rule other) (use intent_elsewhere(1) in blast)
  moreover have "no_symlink fs' q" if "no_symlink fs q" for q
    by (rule no_symlink_less [OF _ that]) (simp add: fs')
  moreover have "fs' (final_place env base d) = fs (final_place env base d)" by (rule other) (rule intent_elsewhere(4) [symmetric])
  ultimately show ?thesis using assms(5) by (simp add: source_fits_def)
qed (use assms(5) in simp)

lemma confirm_effect:
  "outcome (confirm_intent env (intent_place base t) d (expected_intent env d) s) s (\<lambda>r s'. with_intent env base t d (pu_fs s) (pu_fs s'))"
proof (cases "pu_fs s (intent_place base t) = None")
  case True
  then have "confirm_intent env (intent_place base t) d (expected_intent env d) s = write_json env (intent_place base t) (expected_intent env d)"
    by (simp add: confirm_intent_def)
  then show ?thesis using write_json_effect [of env "intent_place base t" "expected_intent env d" s] True
    by (auto simp: outcome_def with_intent_def)
next
  case False
  have "reads_only (andthen (read_json env (intent_place base t)) (\<lambda>w.
        andthen (lift (record_matches w ''PUBLISH_INTENT'' (td_transfer_id d) (td_storage_id d)
          (td_restore_point_id d))) (\<lambda>_.
        if \<not> py_eq (JObj w) (JObj (expected_intent env d)) then refuse ''PUBLISH_STATE_CONFLICT'' else ret ())))"
    by (intro quiet)
  with False show ?thesis by (simp add: outcome_def confirm_intent_def with_intent_def reads_only_def)
qed

lemma confirm_steady:
  assumes "pu_fs s (intent_place base t) \<noteq> None \<longrightarrow> intent_exact env base t (pu_fs s) d"
  shows "\<exists>s'. confirm_intent (steady env) (intent_place base t) d (expected_intent env d) s s = (Inr (), s')"
proof (cases "pu_fs s (intent_place base t) = None")
  case True
  then show ?thesis using write_json_steady by (simp add: confirm_intent_def) blast
next
  case False
  with assms obtain v where v: "json_at env (pu_fs s) (intent_place base t) v"
    "record_matches v ''PUBLISH_INTENT'' (td_transfer_id d) (td_storage_id d) (td_restore_point_id d) = Inr (final_object env d)"
    "py_eq (JObj v) (JObj (expected_intent env d))"
    unfolding intent_exact_def intent_fits_def by blast
  have "passes (andthen (read_json (steady env) (intent_place base t)) (\<lambda>w.
        andthen (lift (record_matches w ''PUBLISH_INTENT'' (td_transfer_id d) (td_storage_id d) (td_restore_point_id d))) (\<lambda>_.
        if \<not> py_eq (JObj w) (JObj (expected_intent env d)) then refuse ''PUBLISH_STATE_CONFLICT'' else ret ()))) s ()"
    by (rule passes_andthen [OF read_json_passes [OF v(1)]], rule passes_andthen, rule passes_basic, rule v(2), rule passes_if(2))
      (simp_all only: v(3) not_True_eq_False not_False_eq_True passes_basic)
  then show ?thesis unfolding confirm_intent_def if_P [OF False] passes_def by blast
qed

lemma source_steady:
  assumes env: "dated env" "honest_names env" "records_fit env" and "declaration_wf d" "source_fits env base t (pu_fs s) d"
  shows "\<exists>s'. publish_source (steady env) base (staging_place base t) d s = (Inr (final_object env d), s')"
proof -
  from check_bundle_passes [of env s "source_place base t" d] assms(5)
  obtain s1 where one: "check_bundle (steady env) (source_place base t) d s = (Inr (), s1)" and fs1: "pu_fs s1 = pu_fs s"
    by (auto simp: passes_def source_fits_def)
  obtain s2 where two: "confirm_intent (steady env) (intent_place base t) d (expected_intent env d) s1 s1 = (Inr (), s2)"
    using confirm_steady [of s1 base t env d] assms(5) fs1 by (auto simp: source_fits_def)
  from outcomeD [OF confirm_effect [of "steady env" base t d s1, unfolded steady_intent] two] have "with_intent env base t d (pu_fs s) (pu_fs s2)"
    by (simp add: fs1 steady_intent)
  from with_intent_fits [OF env(2,3) assms(4) this assms(5)] have fit: "source_fits env base t (pu_fs s2) d" .
  then obtain s3 where "move_bundle (steady env) base (source_place base t) (final_object env d) s2 = (Inr (), s3)"
    using move_steady [OF env(1) assms(4), of s2 base "source_place base t"] by (auto simp: source_fits_def)
  with fit one two show ?thesis
    unfolding publish_source_def Let_def source_place_def [symmetric] intent_place_def [symmetric] final_place_def [symmetric]
    by (auto simp: andthen_def reading_def ret_def source_fits_def expected_intent_def source_place_def steady_intent)
qed

lemma object_path_joined: "object_path base (JStr ob) = Inr path \<Longrightarrow> path = joined base ob"
  by (auto simp: object_path_def split: if_splits)

lemma moved_steady:
  assumes "moved_fits env base t (pu_fs s) d"
  shows "passes (publish_moved (steady env) base (staging_place base t) d) s (final_object env d)"
proof -
  from assms obtain v where v: "json_at env (pu_fs s) (intent_place base t) v"
      "record_matches v ''PUBLISH_INTENT'' (td_transfer_id d) (td_storage_id d) (td_restore_point_id d) = Inr (final_object env d)"
    and path: "object_path base (JStr (final_object env d)) = Inr (final_place env base d)"
    and b: "bundle_fits env (pu_fs s) (final_place env base d) d"
    unfolding moved_fits_def intent_fits_def by blast
  have there: "\<not> pu_fs s (intent_place base t) \<in> {None, Some Symlink}"
    using v(1) by (auto simp: json_at_def node_at_def size_of_def)
  show ?thesis unfolding publish_moved_def Let_def intent_place_def [symmetric]
    by (rule passes_basic, rule passes_if(2) [OF there], rule passes_andthen [OF read_json_passes [OF v(1)]],
        rule passes_andthen, rule passes_basic, rule v(2), rule passes_andthen, rule passes_basic, simp only: path,
        rule passes_andthen, rule check_bundle_passes, simp add: b, rule passes_if(2),
        simp add: final_place_def, rule passes_basic)
qed

lemma known_steady:
  assumes "known_fits env base sid t p (pu_fs s) v"
  shows "passes (publish_known (steady env) base sid t p) s v"
proof -
  from assms obtain w ob path where w: "json_at env (pu_fs s) (marker_path base p) w" "record_matches w ''PUBLISHED'' t sid p = Inr ob"
    "object_path base (JStr ob) = Inr path" "pu_fs s path = Some Dir" "v = published_result t sid p ob"
    unfolding known_fits_def by blast
  show ?thesis unfolding publish_known_def w(5)
    by (rule passes_andthen [OF read_json_passes [OF w(1)]], rule passes_andthen, rule passes_basic, rule w(2),
        rule passes_andthen, rule passes_basic, rule w(3), rule passes_andthen, rule real_dir_iff, simp add: w, rule passes_basic)
qed

lemma parent_steady:
  assumes "parent_fits env base (pu_fs s) d"
  shows "passes (check_parent (steady env) base d) s ()"
proof (cases "td_parent d")
  case None
  then show ?thesis by (simp add: check_parent_def passes_basic)
next
  case (Some q)
  with assms obtain v path where v: "json_at env (pu_fs s) (marker_path base q) v" "parent_matches v d q"
    "object_path base (dget_or v ''bundle_object_id'' JNull) = Inr path" "pu_fs s path = Some Dir"
    unfolding parent_fits_def by blast
  have there: "\<not> pu_fs s (marker_path base q) \<in> {None, Some Symlink}"
    using v(1) by (auto simp: json_at_def node_at_def size_of_def)
  show ?thesis unfolding check_parent_def Some option.case
    by (rule passes_basic, rule passes_if(2) [OF there], rule passes_andthen [OF read_json_passes [OF v(1)]], rule passes_if(2),
        simp add: v, rule passes_andthen, rule passes_basic, rule v(3), rule real_dir_iff, simp add: v)
qed

lemma andthen_returns: "m s = (Inr x, s1) \<Longrightarrow> f x s1 = r \<Longrightarrow> andthen m f s = r"
  by (simp add: andthen_def)

lemma fresh_steady:
  assumes env: "dated env" "honest_names env" "records_fit env" and "fresh_fits env base sid t p (pu_fs s) v"
  shows "\<exists>s'. publish_fresh (steady env) base (receiver_place base) sid t p s = (Inr v, s')"
proof -
  from assms(4) obtain d where st: "staged_fits env base sid t p (pu_fs s) d"
    and ph: "source_fits env base t (pu_fs s) d \<or> moved_fits env base t (pu_fs s) d"
    and v: "v = published_result t sid p (final_object env d)" unfolding fresh_fits_def by blast
  from st obtain rec0 r where dir: "pu_fs s (staging_place base t) = Some Dir" and par: "parent_fits env base (pu_fs s) d"
    and rec0: "json_at env (pu_fs s) (slash (staging_place base t) ''transfer.json'') rec0" and d: "declaration_of env rec0 t sid p = Inr d"
    and r: "json_at env (pu_fs s) (slash (staging_place base t) ''receipt.json'') r" "check_receipt r d = Inr ()"
    unfolding staged_fits_def by blast
  have wf: "declaration_wf d" using declaration_of_Inr [OF d] by simp
  have object: "\<exists>s2. (if pu_fs s1 (slash (staging_place base t) ''bundle'') \<noteq> None then publish_source (steady env) base (staging_place base t) d
      else publish_moved (steady env) base (staging_place base t) d) s1 = (Inr (final_object env d), s2)" if "pu_fs s1 = pu_fs s" for s1
  proof (cases "pu_fs s1 (slash (staging_place base t) ''bundle'') = None")
    case True
    with ph that have "moved_fits env base t (pu_fs s1) d"
      by (auto simp: source_fits_def bundle_fits_def folders_fit_def source_place_def)
    from moved_steady [OF this] True show ?thesis by (auto simp: passes_def)
  next
    case False
    with ph that have "source_fits env base t (pu_fs s1) d" by (auto simp: moved_fits_def source_place_def)
    from source_steady [OF env wf this] False show ?thesis by simp
  qed
  from real_dir_iff [of s "staging_place base t" env] dir obtain s1 where 1: "real_dir (steady env) (staging_place base t) s = (Inr (), s1)"
    "pu_fs s1 = pu_fs s" by (auto simp: passes_def)
  from read_json_passes [of env s1] rec0 1 obtain s2 where 2: "read_json (steady env) (slash (staging_place base t) ''transfer.json'') s1 = (Inr rec0, s2)"
    "pu_fs s2 = pu_fs s" by (auto simp: passes_def)
  from read_json_passes [of env s2] r 2 obtain s3 where 3: "read_json (steady env) (slash (staging_place base t) ''receipt.json'') s2 = (Inr r, s3)"
    "pu_fs s3 = pu_fs s" by (auto simp: passes_def)
  from parent_steady [of env base s3 d] par 3 obtain s4 where 4: "check_parent (steady env) base d s3 = (Inr (), s4)" "pu_fs s4 = pu_fs s"
    by (auto simp: passes_def)
  from object [OF 4(2)] obtain s5 where 5: "(if pu_fs s4 (slash (staging_place base t) ''bundle'') \<noteq> None
      then publish_source (steady env) base (staging_place base t) d
      else publish_moved (steady env) base (staging_place base t) d) s4 = (Inr (final_object env d), s5)" by blast
  from write_json_steady obtain s6 where 6: "write_json (steady env) (marker_path base p) (replica_record ''PUBLISHED'' d (final_object env d)) s5 = (Inr (), s6)"
    by blast
  show ?thesis unfolding publish_fresh_def Let_def staging_place_def [symmetric] v steady_same
    by (rule exI, rule andthen_returns, rule 1(1), rule andthen_returns, rule 2(1), rule andthen_returns, simp only: op_run d,
        rule andthen_returns, rule 3(1), rule andthen_returns, simp only: op_run r(2), rule andthen_returns, rule 4(1),
        simp only: op_run(5), rule andthen_returns, rule 5, rule andthen_returns, rule 6, rule op_run(1))
qed

lemma body_steady:
  assumes env: "dated env" "honest_names env" "records_fit env"
    and "storage_fits base (pu_fs s)" "inner_fits env base sid t p (pu_fs s) v"
  shows "\<exists>s'. publish_body (steady env) base sid t p s = (Inr v, s')"
proof -
  from real_dir_iff [of s base env] assms(4) obtain s1 where 1: "real_dir (steady env) base s = (Inr (), s1)" "pu_fs s1 = pu_fs s"
    by (auto simp: passes_def storage_fits_def)
  from real_dir_iff [of s1 "receiver_place base" env] assms(4) 1 obtain s2 where
    2: "real_dir (steady env) (receiver_place base) s1 = (Inr (), s2)" "pu_fs s2 = pu_fs s"
    by (auto simp: passes_def storage_fits_def)
  from ensure_state_steady [of base s2 env] assms(4) 2 obtain s3 where 3: "ensure_state (steady env) base s2 = (Inr (), s3)" by auto
  from outcomeD [OF ensure_state_shell 3] 2 have sh3: "shell base (pu_fs s) (pu_fs s3)" by simp
  with shell_storage assms(4) take_lock_steady [of s3 base env] obtain s4 where 4: "take_lock (steady env) base s3 = (Inr (), s4)"
    unfolding storage_fits_def by metis
  from outcomeD [OF take_lock_shell 4] sh3 shell_trans have "shell base (pu_fs s) (pu_fs s4)" by blast
  with inner_cong [OF env(2)] assms(5) have fit: "inner_fits env base sid t p (pu_fs s4) v" by metis
  have "\<exists>s'. (if pu_fs s4 (marker_path base p) \<noteq> None then publish_known (steady env) base sid t p
     else publish_fresh (steady env) base (receiver_place base) sid t p) s4 = (Inr v, s')"
    using fit known_steady [of env base sid t p s4 v] fresh_steady [OF env, of base sid t p s4 v]
    by (auto simp: inner_fits_def passes_def split: if_splits)
  with 1 2 3 4 show ?thesis unfolding publish_body_def andthen_Inr op_Inr by blast
qed

section \<open>Every interrupted run keeps the requirements\<close>

definition staged_phase :: "pub_env \<Rightarrow> string \<Rightarrow> string \<Rightarrow> string \<Rightarrow> string \<Rightarrow> transfer_declaration \<Rightarrow> (string \<Rightarrow> node option) \<Rightarrow> bool" where
  "staged_phase env base sid t p d fs \<longleftrightarrow> storage_fits base fs \<and> fs (marker_path base p) = None \<and> staged_fits env base sid t p fs d"

lemma json_at_grown: "grown fs fs' \<Longrightarrow> json_at env fs q v \<Longrightarrow> json_at env fs' q v"
  by (auto simp: json_at_def node_at_def grown_def)

lemma grownD: "grown fs fs' \<Longrightarrow> fs q = Some n \<Longrightarrow> fs' q = Some n"
  by (simp add: grown_def)

lemma staged_grown:
  assumes "grown fs fs'" "staged_fits env base sid t p fs d"
  shows "staged_fits env base sid t p fs' d"
proof -
  have "parent_fits env base fs d \<Longrightarrow> parent_fits env base fs' d"
    unfolding parent_fits_def using assms(1) by (blast intro: json_at_grown [OF assms(1)] dest: grownD)
  moreover have "fs q = Some n \<Longrightarrow> fs' q = Some n" for q n using assms(1) by (simp add: grown_def)
  ultimately show ?thesis using assms(2) unfolding staged_fits_def by (blast intro: json_at_grown [OF assms(1)])
qed

lemma parent_paths_region: "q \<in> set (parent_paths p (c # cs)) \<Longrightarrow> prefix (joined p c) q"
proof (induction cs arbitrary: p c)
  case (Cons c2 cs)
  have step: "prefix (joined p c) (joined (joined p c) c2)" by (simp add: joined_def)
  from Cons.prems consider "q = joined p c" | "q \<in> set (parent_paths (joined p c) (c2 # cs))" by auto
  then show ?case
  proof cases
    case 2
    from Cons.IH [OF this] step show ?thesis by (rule prefix_order.trans [rotated])
  qed simp
qed simp

lemma folders_region: "q \<in> set (parent_paths base (folders_of env d)) \<Longrightarrow> prefix (vms_place base) q"
proof -
  obtain cs where "folders_of env d = ''vms'' # cs" using final_parents by blast
  then show "q \<in> set (parent_paths base (folders_of env d)) \<Longrightarrow> prefix (vms_place base) q"
    using parent_paths_region by (simp only: vms_place_def)
qed

lemma storage_elsewhere:
  "\<not> prefix (vms_place base) base" "\<not> prefix (vms_place base) (receiver_place base)" "\<not> prefix (vms_place base) (state_path base)"
  "\<not> prefix (vms_place base) (published_path base)" "\<not> prefix (vms_place base) (lock_place base)"
proof -
  obtain j where j: "\<And>x. joined base x = j @ x" using joined_root by blast
  show "\<not> prefix (vms_place base) base"
  proof
    assume "prefix (vms_place base) base"
    then have "length (vms_place base) \<le> length base" by (rule prefix_length_le)
    then show False by (simp add: vms_place_def joined_def split: if_splits)
  qed
  show "\<not> prefix (vms_place base) (receiver_place base)" by (simp add: vms_place_def receiver_place_def j)
  show "\<not> prefix (vms_place base) (state_path base)" by (simp add: vms_place_def state_path_def j)
  show "\<not> prefix (vms_place base) (published_path base)" "\<not> prefix (vms_place base) (lock_place base)"
    by (simp_all add: vms_place_def published_path_def lock_place_def state_path_def slash_def j)
qed

lemma storage_cong:
  assumes "\<And>q. \<not> prefix (vms_place base) q \<Longrightarrow> \<not> prefix (staging_place base t) q \<Longrightarrow> fs' q = fs q"
  shows "storage_fits base fs' = storage_fits base fs"
proof -
  obtain j where j: "\<And>x. joined base x = j @ x" using joined_root by blast
  have stg: "staging_place base t = receiver_place base @ ''/staging/'' @ t" by (simp add: staging_place_def slash_def)
  have "\<not> prefix (staging_place base t) (receiver_place base)" by (simp add: stg)
  moreover have "\<not> prefix (staging_place base t) base"
  proof
    assume "prefix (staging_place base t) base"
    then have "length (staging_place base t) \<le> length base" by (rule prefix_length_le)
    then show False by (simp add: stg receiver_place_def joined_def split: if_splits)
  qed
  moreover have "\<not> prefix (staging_place base t) (state_path base @ x)" for x
    by (simp add: stg receiver_place_def state_path_def j)
  then have "\<not> prefix (staging_place base t) (state_path base)" "\<not> prefix (staging_place base t) (published_path base)"
    "\<not> prefix (staging_place base t) (lock_place base)"
    by (simp_all add: published_path_def lock_place_def slash_def) (metis append_Nil2)
  ultimately show ?thesis using assms storage_elsewhere by (simp add: storage_fits_def)
qed

lemma intent_phase:
  assumes "with_intent env base t d fs fs'" "staged_phase env base sid t p d fs"
  shows "staged_phase env base sid t p d fs'"
proof -
  have g: "grown fs fs'" using assms(1) by (auto simp: with_intent_def grown_def)
  have same: "q \<noteq> intent_place base t \<Longrightarrow> fs' q = fs q" for q using assms(1) by (auto simp: with_intent_def)
  have "storage_fits base fs' = storage_fits base fs"
    by (rule storage_cong [of _ t], rule same) (auto simp: intent_place_def slash_def)
  moreover have "fs' (marker_path base p) = fs (marker_path base p)" by (rule same) (rule intent_elsewhere(3) [symmetric])
  ultimately show ?thesis using assms(2) staged_grown [OF g] by (simp add: staged_phase_def)
qed

definition made :: "pub_env \<Rightarrow> string \<Rightarrow> transfer_declaration \<Rightarrow> (string \<Rightarrow> node option) \<Rightarrow> (string \<Rightarrow> node option) \<Rightarrow> bool" where
  "made env base d fs fs' \<longleftrightarrow> (\<forall>q. fs' q \<noteq> fs q \<longrightarrow> fs q = None \<and> fs' q = Some Dir \<and> q \<in> set (parent_paths base (folders_of env d)))"

lemma made_phase:
  assumes "made env base d fs fs'" "staged_phase env base sid t p d fs"
  shows "staged_phase env base sid t p d fs'"
proof -
  have g: "grown fs fs'" using assms(1) unfolding made_def grown_def by (metis option.distinct(1))
  have same: "\<not> prefix (vms_place base) q \<Longrightarrow> fs' q = fs q" for q using assms(1) folders_region unfolding made_def by metis
  have "storage_fits base fs' = storage_fits base fs" by (rule storage_cong, rule same)
  moreover have "fs' (marker_path base p) = fs (marker_path base p)" by (rule same [OF places(3) [OF places(7)]])
  ultimately show ?thesis using assms(2) staged_grown [OF g] by (simp add: staged_phase_def)
qed

lemma parents_fit_more: "(\<And>q. fs' q = fs q \<or> fs' q = Some Dir) \<Longrightarrow> parents_fit fs p cs \<Longrightarrow> parents_fit fs' p cs"
  by (induction cs arbitrary: p) (force, metis parents_fit.simps(2))

lemma made_source:
  assumes "dated env" "honest_names env" "declaration_wf d" "made env base d fs fs'" "source_fits env base t fs d"
  shows "source_fits env base t fs' d"
proof -
  have same: "\<not> prefix (vms_place base) q \<Longrightarrow> fs' q = fs q" for q using assms(4) folders_region unfolding made_def by metis
  have "bundle_fits env fs' (source_place base t) d = bundle_fits env fs (source_place base t) d"
    by (rule bundle_fits_cong [OF assms(2)], rule same) (rule places(2))
  moreover have ip: "fs' (intent_place base t) = fs (intent_place base t)" by (rule same [OF intent_elsewhere(1)])
  have "json_at env fs' (intent_place base t) = json_at env fs (intent_place base t)" by (rule ext, rule json_at_cong, rule ip)
  then have "intent_exact env base t fs' d = intent_exact env base t fs d" by (simp add: intent_exact_def intent_fits_def)
  moreover have "fs' (final_place env base d) = fs (final_place env base d)"
    using final_free [OF assms(1,3)] assms(4) unfolding made_def by blast
  moreover have "parents_fit fs' base (folders_of env d)"
    by (rule parents_fit_more [of _ fs]) (use assms(4,5) in \<open>auto simp: made_def source_fits_def\<close>)
  moreover have "no_symlink fs' q" if "no_symlink fs q" for q
    by (rule no_symlink_less [OF _ that]) (use assms(4) in \<open>auto simp: made_def\<close>)
  ultimately show ?thesis using assms(5) ip by (simp add: source_fits_def)
qed

lemma source_inside: "under (source_place base t) q \<Longrightarrow> prefix (staging_place base t) q \<and> prefix (receiver_place base) q"
  by (auto simp: under_def source_place_def staging_place_def slash_def elim!: prefixE)

lemma final_inside: "under (final_place env base d) q \<Longrightarrow> prefix (vms_place base) q"
proof -
  have "prefix (vms_place base) (final_place env base d)" using places(1) [of base env d "[]"] by (simp add: final_place_def)
  then show "under (final_place env base d) q \<Longrightarrow> prefix (vms_place base) q"
    by (auto simp: under_def elim: prefix_order.trans dest: append_prefixD)
qed

lemma renamed_phase:
  assumes env: "dated env" "honest_names env" and "staged_phase env base sid t p d fs" "source_fits env base t fs d"
    and "intent_fits env base t fs d" "receiver_ok env base fs" "declaration_wf d"
  shows "staged_phase env base sid t p d (moved_tree (source_place base t) (final_place env base d) fs) \<and>
    moved_fits env base t (moved_tree (source_place base t) (final_place env base d) fs) d"
proof -
  let ?s = "source_place base t" and ?f = "final_place env base d"
  let ?fs = "moved_tree ?s ?f fs"
  have other: "\<not> under ?s q \<Longrightarrow> \<not> under ?f q \<Longrightarrow> ?fs q = fs q" for q by (auto simp: moved_tree_def under_def)
  have far: "\<not> prefix (vms_place base) q \<Longrightarrow> \<not> under ?s q \<Longrightarrow> ?fs q = fs q" for q
    using other final_inside by blast
  have free: "fs ?f = None" and src: "bundle_fits env fs ?s d" using assms(4) by (simp_all add: source_fits_def)
  have storage: "storage_fits base ?fs = storage_fits base fs"
    by (rule storage_cong [of _ t], rule far) (use source_inside in blast)+
  have m: "?fs (marker_path base q) = fs (marker_path base q)" for q
    by (rule far [OF places(3) [OF places(7)]]) (use source_inside outside(1) in blast)
  have stg: "\<not> prefix (vms_place base) (staging_place base t @ r)" for r
  proof -
    obtain j where j: "\<And>x. joined base x = j @ x" using joined_root by blast
    show ?thesis unfolding vms_place_def staging_place_def receiver_place_def slash_def j append_assoc same_prefix_prefix by simp
  qed
  have st: "?fs (staging_place base t) = fs (staging_place base t)" "?fs (slash (staging_place base t) ''transfer.json'') = fs (slash (staging_place base t) ''transfer.json'')"
    "?fs (slash (staging_place base t) ''receipt.json'') = fs (slash (staging_place base t) ''receipt.json'')"
    "?fs (intent_place base t) = fs (intent_place base t)"
  proof -
    have far2: "\<not> under ?s (staging_place base t @ r) \<Longrightarrow> ?fs (staging_place base t @ r) = fs (staging_place base t @ r)" for r
      by (rule far [OF stg])
    show "?fs (staging_place base t) = fs (staging_place base t)"
      using far2 [of "[]"] by (simp add: under_def source_place_def slash_def)
    show "?fs (slash (staging_place base t) ''transfer.json'') = fs (slash (staging_place base t) ''transfer.json'')"
      "?fs (slash (staging_place base t) ''receipt.json'') = fs (slash (staging_place base t) ''receipt.json'')"
      "?fs (intent_place base t) = fs (intent_place base t)"
      using far2 [of "''/transfer.json''"] far2 [of "''/receipt.json''"] far2 [of "''/publish-intent.json''"]
      by (simp_all add: under_def source_place_def intent_place_def slash_def)
  qed
  have parent: "parent_fits env base ?fs d" unfolding parent_fits_def
  proof (intro allI impI)
    fix q assume q: "td_parent d = Some q"
    with assms(3) obtain v path where v: "json_at env fs (marker_path base q) v" "parent_matches v d q"
      "object_path base (dget_or v ''bundle_object_id'' JNull) = Inr path" "fs path = Some Dir"
      unfolding staged_phase_def staged_fits_def parent_fits_def by blast
    from v(1) published_marker [OF assms(6)] obtain e where e: "published env base fs q e"
      and ve: "v = replica_record ''PUBLISHED'' e (final_object env e)" unfolding json_at_def node_at_def by metis
    have "dget_or v ''bundle_object_id'' JNull = JStr (final_object env e)" by (simp add: ve replica_record_def dget_or_def)
    with v(3) have path: "path = joined base (final_object env e)" using object_path_joined by simp
    have "declaration_wf e" using published_marked [OF e] by (simp add: marked_def)
    have "\<not> under ?f path"
    proof
      assume u: "under ?f path"
      have "under (joined base (final_object env e)) path" by (simp add: path under_def)
      from finals_apart [OF dated_plain [OF env(1)] assms(7) \<open>declaration_wf e\<close> u [unfolded final_place_def] this]
      have "path = ?f" by (simp add: path final_place_def)
      with v(4) free show False by simp
    qed
    moreover have "\<not> under ?s path" using source_inside outside(3) [of base env e "[]"] path by auto
    ultimately have "?fs path = Some Dir" using other v(4) by simp
    with v m json_at_cong [of ?fs "marker_path base q" fs env v] show "\<exists>v path. json_at env ?fs (marker_path base q) v \<and> parent_matches v d q \<and>
        object_path base (dget_or v ''bundle_object_id'' JNull) = Inr path \<and> ?fs path = Some Dir" by auto
  qed
  have js: "json_at env ?fs q = json_at env fs q" if "?fs q = fs q" for q by (rule ext, rule json_at_cong, rule that)
  have "staged_phase env base sid t p d ?fs"
    using assms(3) storage m parent st js by (simp add: staged_phase_def staged_fits_def)
  moreover have "?fs ?s = None"
  proof -
    have "\<not> prefix (vms_place base) ?s" using places(2) [of base t ?s] by simp
    then have "\<not> under ?f ?s" using final_inside by blast
    then show ?thesis by (simp add: moved_tree_def under_def)
  qed
  moreover have "bundle_fits env ?fs ?f d"
  proof (rule bundle_fits_moved [OF env(2) _ _ src])
    show "?fs ?f = fs ?s" using moved_tree_at [of "[]" ?s ?f fs] by simp
    show "?fs (slash ?f r) = fs (slash ?s r)" for r using moved_tree_at [of "''/'' @ r" ?s ?f fs] by (simp add: slash_def)
  qed
  ultimately show ?thesis
    using assms(5) js [OF st(4)] object_path_final [OF env(1) assms(7)] by (simp add: moved_fits_def intent_fits_def)
qed

lemma published_phase:
  assumes "records_fit env" "declaration_wf d" "staged_phase env base sid t p d fs" "moved_fits env base t fs d"
    and "td_transfer_id d = t" "td_storage_id d = sid" "td_restore_point_id d = p"
  shows "storage_fits base (fs(marker_path base p \<mapsto> JsonFile (JObj (replica_record ''PUBLISHED'' d (final_object env d))))) \<and>
    known_fits env base sid t p (fs(marker_path base p \<mapsto> JsonFile (JObj (replica_record ''PUBLISHED'' d (final_object env d)))))
      (published_result t sid p (final_object env d))"
proof -
  let ?r = "replica_record ''PUBLISHED'' d (final_object env d)"
  let ?fs = "fs(marker_path base p \<mapsto> JsonFile (JObj ?r))"
  have j: "json_at env ?fs (marker_path base p) ?r" using record_readable [OF assms(1,2), of ?fs "marker_path base p"] by simp
  have "record_matches ?r ''PUBLISHED'' t sid p = Inr (final_object env d)"
    using assms(5-7) by (simp add: record_matches_def replica_record_def dget_or_def)
  moreover have "\<not> under (final_place env base d) (marker_path base p)" using outside(2) by (simp add: final_place_def)
  then have "final_place env base d \<noteq> marker_path base p" by (auto simp: under_def)
  then have "?fs (final_place env base d) = Some Dir" using assms(4) by (simp add: moved_fits_def bundle_fits_def folders_fit_def)
  moreover have "object_path base (JStr (final_object env d)) = Inr (final_place env base d)" using assms(4) by (simp add: moved_fits_def)
  moreover have "q \<noteq> marker_path base p" if "q = base \<or> q = receiver_place base \<or> q = state_path base \<or> q = published_path base \<or> q = lock_place base" for q
  proof -
    have "length base < length (marker_path base p)"
      by (simp add: marker_path_def published_path_def state_path_def slash_def joined_def)
    then have "base \<noteq> marker_path base p" by auto
    moreover have "receiver_place base \<noteq> marker_path base p" using outside(1) [of base p] by auto
    ultimately show ?thesis using that state_other(3) [of base p] by (auto simp: inside_state_def)
  qed
  then have "storage_fits base ?fs" using assms(3) by (simp add: staged_phase_def storage_fits_def)
  ultimately show ?thesis using j unfolding known_fits_def by blast
qed

definition object_post :: "pub_env \<Rightarrow> string \<Rightarrow> string \<Rightarrow> string \<Rightarrow> string \<Rightarrow> transfer_declaration \<Rightarrow> string result \<Rightarrow> pub \<Rightarrow> bool" where
  "object_post env base sid t p d r s' \<longleftrightarrow> staged_phase env base sid t p d (pu_fs s') \<and>
     (source_fits env base t (pu_fs s') d \<or> moved_fits env base t (pu_fs s') d) \<and>
     (\<forall>b. r = Inr b \<longrightarrow> b = final_object env d \<and> moved_fits env base t (pu_fs s') d)"

lemma rename_effect:
  "outcome (rename_bundle env source final) s (\<lambda>r s'. (\<exists>e. r = Inl e) \<and> pu_fs s' = pu_fs s \<or> pu_fs s' = moved_tree source final (pu_fs s))"
  by (auto simp: rename_bundle_def outcome_def op_defs call_def split: sum.split prod.split)

lemma move_keeps:
  assumes env: "dated env" "honest_names env" and wf: "declaration_wf d"
    and s: "staged_phase env base sid t p d (pu_fs s)" "source_fits env base t (pu_fs s) d" "intent_fits env base t (pu_fs s) d"
      "receiver_ok env base (pu_fs s)"
  shows "outcome (andthen (move_bundle env base (source_place base t) (final_object env d)) (\<lambda>_. ret (final_object env d))) s
    (object_post env base sid t p d)"
proof -
  have keep: "object_post env base sid t p d (Inl e) s1" if "pu_fs s1 = pu_fs s" for e s1
    using s that by (simp add: object_post_def)
  have made: "staged_phase env base sid t p d (pu_fs s2) \<and> source_fits env base t (pu_fs s2) d \<and> intent_fits env base t (pu_fs s2) d \<and>
      receiver_ok env base (pu_fs s2)"
    if m: "make_parents env base (folders_of env d) s1 = (r, s2)" and s1: "pu_fs s1 = pu_fs s" for r s1 s2
  proof -
    from outcomeD [OF make_parents_effect m] s1 have md: "made env base d (pu_fs s) (pu_fs s2)" by (simp add: made_def)
    have g: "grown (pu_fs s) (pu_fs s2)" using md unfolding made_def grown_def by (metis option.distinct(1))
    have "intent_fits env base t (pu_fs s2) d" using s(3) json_at_grown [OF g] unfolding intent_fits_def by blast
    moreover have "calm env base (pu_fs s) (pu_fs s2)"
    proof (rule calmI [OF dated_plain [OF env(1)] grown_settled [OF g]])
      show "pu_fs s2 (marker_path base q) = pu_fs s (marker_path base q)" for q
        using md folders_region places(3) [OF places(7)] unfolding made_def by metis
    qed
    ultimately show ?thesis
      using made_phase [OF md s(1)] made_source [OF env wf md s(2)] calm_ok s(4) by blast
  qed
  have renamed: "outcome (rename_bundle env (source_place base t) (joined base (final_object env d))) s2
      (\<lambda>r s'. staged_phase env base sid t p d (pu_fs s') \<and> (source_fits env base t (pu_fs s') d \<or> moved_fits env base t (pu_fs s') d) \<and>
        ((\<forall>e. r \<noteq> Inl e) \<longrightarrow> moved_fits env base t (pu_fs s') d))"
    if "staged_phase env base sid t p d (pu_fs s2)" "source_fits env base t (pu_fs s2) d" "intent_fits env base t (pu_fs s2) d"
      "receiver_ok env base (pu_fs s2)" for s2
    using rename_effect [of env "source_place base t" "joined base (final_object env d)" s2] renamed_phase [OF env that wf] that
    unfolding outcome_def final_place_def by auto
  have parents: "outcome (andthen (make_parents env base (folders_of env d)) (\<lambda>_. rename_bundle env (source_place base t) (joined base (final_object env d)))) s1
      (\<lambda>r s'. staged_phase env base sid t p d (pu_fs s') \<and> (source_fits env base t (pu_fs s') d \<or> moved_fits env base t (pu_fs s') d) \<and>
        ((\<forall>e. r \<noteq> Inl e) \<longrightarrow> moved_fits env base t (pu_fs s') d))" if "pu_fs s1 = pu_fs s" for s1
    by (rule outcome_andthen) (use made [OF _ that] renamed in blast)+
  have all: "outcome (move_bundle env base (source_place base t) (final_object env d)) s
      (\<lambda>r s'. staged_phase env base sid t p d (pu_fs s') \<and> (source_fits env base t (pu_fs s') d \<or> moved_fits env base t (pu_fs s') d) \<and>
        ((\<forall>e. r \<noteq> Inl e) \<longrightarrow> moved_fits env base t (pu_fs s') d))"
    unfolding move_bundle_def
    by (rule outcome_basic(3), rule outcome_if, rule outcome_basic(2), simp add: s, rule outcome_quiet, rule reads_only_intros(4),
        simp add: s, rule parents)
  show ?thesis
    by (rule outcome_andthen) (auto dest!: outcomeD [OF all] simp: object_post_def outcome_def ret_def)
qed

lemma source_keeps:
  assumes env: "dated env" "honest_names env" "records_fit env" and wf: "declaration_wf d"
    and s: "staged_phase env base sid t p d (pu_fs s)" "source_fits env base t (pu_fs s) d" "receiver_ok env base (pu_fs s)"
  shows "outcome (publish_source env base (staging_place base t) d) s (object_post env base sid t p d)"
  unfolding publish_source_def Let_def source_place_def [symmetric] intent_place_def [symmetric] expected_intent_def [symmetric]
proof (rule outcome_quiet, rule reads_only_check_bundle)
  fix e and s1 :: pub assume "pu_fs s1 = pu_fs s"
  with s show "object_post env base sid t p d (Inl e) s1" by (simp add: object_post_def)
next
  fix u and s1 :: pub assume s1: "pu_fs s1 = pu_fs s"
  have conf: "staged_phase env base sid t p d (pu_fs s2) \<and> source_fits env base t (pu_fs s2) d \<and> receiver_ok env base (pu_fs s2) \<and>
      (\<forall>u. r = Inr u \<longrightarrow> intent_fits env base t (pu_fs s2) d)"
    if c: "confirm_intent env (intent_place base t) d (expected_intent env d) s1 s1 = (r, s2)" for r s2
  proof -
    from outcomeD [OF confirm_effect c] s1 have w: "with_intent env base t d (pu_fs s) (pu_fs s2)" by simp
    from outcomeD [OF intent_effect [OF dated_plain [OF env(1)], of base t d "expected_intent env d" s1] c [unfolded intent_place_def]] s1
    have "calm env base (pu_fs s) (pu_fs s2)" by simp
    moreover have "intent_fits env base t (pu_fs s2) d" if "r = Inr u" for u
    proof (cases "pu_fs s (intent_place base t) = None")
      case True
      with confirm_run [of env base t d s1 u s2] c that s1
      have "intent_exact env base t (pu_fs s2) d" by (intro intent_written [OF env(3) wf]) auto
      then show ?thesis by (simp add: intent_exact_def)
    next
      case False
      with confirm_run [of env base t d s1 u s2] c that s1 show ?thesis by (auto simp: intent_exact_def)
    qed
    ultimately show ?thesis
      using intent_phase [OF w s(1)] with_intent_fits [OF env(2,3) wf w s(2)] calm_ok s(3) by blast
  qed
  show "outcome (reading (\<lambda>s. andthen (confirm_intent env (intent_place base t) d (expected_intent env d) s) (\<lambda>_. reading (\<lambda>s.
      if pu_fs s (joined base (final_object env d)) \<noteq> None then refuse ''PUBLISH_FINAL_COLLISION''
      else andthen (move_bundle env base (source_place base t) (final_object env d)) (\<lambda>_. ret (final_object env d))))))
    s1 (object_post env base sid t p d)"
  proof (rule outcome_basic(3), rule outcome_andthen)
    fix e s2 assume "confirm_intent env (intent_place base t) d (expected_intent env d) s1 s1 = (Inl e, s2)"
    from conf [OF this] show "object_post env base sid t p d (Inl e) s2" by (simp add: object_post_def)
  next
    fix u s2 assume c: "confirm_intent env (intent_place base t) d (expected_intent env d) s1 s1 = (Inr u, s2)"
    from conf [OF c] have k: "staged_phase env base sid t p d (pu_fs s2)" "source_fits env base t (pu_fs s2) d"
      "intent_fits env base t (pu_fs s2) d" "receiver_ok env base (pu_fs s2)" by blast+
    show "outcome (reading (\<lambda>s. if pu_fs s (joined base (final_object env d)) \<noteq> None then refuse ''PUBLISH_FINAL_COLLISION''
      else andthen (move_bundle env base (source_place base t) (final_object env d)) (\<lambda>_. ret (final_object env d)))) s2
      (object_post env base sid t p d)"
      by (rule outcome_basic(3), rule outcome_if, rule outcome_basic(2), simp add: object_post_def k,
          rule move_keeps [OF env(1,2) wf k])
  qed
qed

definition good :: "pub_env \<Rightarrow> string \<Rightarrow> string \<Rightarrow> string \<Rightarrow> string \<Rightarrow> dict \<Rightarrow> (string \<Rightarrow> node option) \<Rightarrow> bool" where
  "good env base sid t p v fs \<longleftrightarrow> storage_fits base fs \<and> inner_fits env base sid t p fs v"

lemma phase_good:
  "staged_phase env base sid t p d fs \<Longrightarrow> source_fits env base t fs d \<or> moved_fits env base t fs d \<Longrightarrow>
     good env base sid t p (published_result t sid p (final_object env d)) fs"
  unfolding staged_phase_def good_def inner_fits_def fresh_fits_def by auto

lemma reads_only_moved [quiet]: "reads_only (publish_moved env base staging d)"
  unfolding publish_moved_def Let_def by (intro quiet)

lemma object_keeps:
  assumes env: "dated env" "honest_names env" "records_fit env" and wf: "declaration_wf d"
    and s: "staged_phase env base sid t p d (pu_fs s)" "source_fits env base t (pu_fs s) d \<or> moved_fits env base t (pu_fs s) d"
      "receiver_ok env base (pu_fs s)"
  shows "outcome (if pu_fs s (slash (staging_place base t) ''bundle'') \<noteq> None then publish_source env base (staging_place base t) d
      else publish_moved env base (staging_place base t) d) s (object_post env base sid t p d)"
proof (rule outcome_if)
  assume "pu_fs s (slash (staging_place base t) ''bundle'') \<noteq> None"
  with s(2) have "source_fits env base t (pu_fs s) d" by (auto simp: moved_fits_def source_place_def)
  with source_keeps [OF env wf s(1) _ s(3)] show "outcome (publish_source env base (staging_place base t) d) s (object_post env base sid t p d)" .
next
  assume n: "\<not> pu_fs s (slash (staging_place base t) ''bundle'') \<noteq> None"
  with s(2) have m: "moved_fits env base t (pu_fs s) d"
    by (auto simp: source_fits_def bundle_fits_def folders_fit_def source_place_def)
  have "b = final_object env d" if "publish_moved env base (staging_place base t) d s = (Inr b, s')" for b s'
    using moved_run [OF _ that] n by (simp add: source_place_def)
  then show "outcome (publish_moved env base (staging_place base t) d) s (object_post env base sid t p d)"
    using reads_only_moved [of env base "staging_place base t" d] m s(1)
    unfolding outcome_def object_post_def reads_only_def by (metis surjective_pairing)
qed

lemma fresh_keeps:
  assumes env: "dated env" "honest_names env" "records_fit env"
    and s: "storage_fits base (pu_fs s)" "pu_fs s (marker_path base p) = None" "fresh_fits env base sid t p (pu_fs s) v" "receiver_ok env base (pu_fs s)"
  shows "outcome (publish_fresh env base (receiver_place base) sid t p) s (\<lambda>r s'. good env base sid t p v (pu_fs s'))"
proof -
  from s(3) obtain d where st: "staged_fits env base sid t p (pu_fs s) d"
    and ph: "source_fits env base t (pu_fs s) d \<or> moved_fits env base t (pu_fs s) d"
    and v: "v = published_result t sid p (final_object env d)" unfolding fresh_fits_def by blast
  from st obtain rec0 where rec0: "json_at env (pu_fs s) (slash (staging_place base t) ''transfer.json'') rec0"
    and d: "declaration_of env rec0 t sid p = Inr d" unfolding staged_fits_def by blast
  have ids: "declaration_wf d" "td_transfer_id d = t" "td_storage_id d = sid" "td_restore_point_id d = p"
    using declaration_of_Inr [OF d] by simp_all
  have phase: "staged_phase env base sid t p d (pu_fs s)" using s st by (simp add: staged_phase_def)
  have same: "good env base sid t p v (pu_fs s1)" if "pu_fs s1 = pu_fs s" for s1 :: pub
    using phase_good [OF phase ph] that v by simp
  have rest: "outcome (reading (\<lambda>s. andthen (if pu_fs s (slash (staging_place base t) ''bundle'') \<noteq> None
      then publish_source env base (staging_place base t) d else publish_moved env base (staging_place base t) d)
      (\<lambda>ob. andthen (write_json env (marker_path base p) (replica_record ''PUBLISHED'' d ob)) (\<lambda>_.
      ret (published_result t sid p ob))))) s6 (\<lambda>r s'. good env base sid t p v (pu_fs s'))" if "pu_fs s6 = pu_fs s" for s6
  proof (rule outcome_basic(3), rule outcome_andthen)
    fix e s7 assume run: "(if pu_fs s6 (slash (staging_place base t) ''bundle'') \<noteq> None
      then publish_source env base (staging_place base t) d else publish_moved env base (staging_place base t) d) s6 = (Inl e, s7)"
    have "object_post env base sid t p d (Inl e) s7"
      by (rule outcomeD [OF object_keeps [OF env ids(1)] run]) (simp_all add: that phase ph s(4))
    then show "good env base sid t p v (pu_fs s7)" using phase_good v unfolding object_post_def by blast
  next
    fix ob s7 assume run: "(if pu_fs s6 (slash (staging_place base t) ''bundle'') \<noteq> None
      then publish_source env base (staging_place base t) d else publish_moved env base (staging_place base t) d) s6 = (Inr ob, s7)"
    have post: "object_post env base sid t p d (Inr ob) s7"
      by (rule outcomeD [OF object_keeps [OF env ids(1)] run]) (simp_all add: that phase ph s(4))
    then have ob: "ob = final_object env d" and st7: "staged_phase env base sid t p d (pu_fs s7)" and m7: "moved_fits env base t (pu_fs s7) d"
      by (simp_all add: object_post_def)
    have kept: "good env base sid t p v (pu_fs s8)"
      if "(\<exists>e. r = Inl e) \<and> pu_fs s8 = pu_fs s7 \<or>
        pu_fs s8 = (pu_fs s7)(marker_path base p \<mapsto> JsonFile (JObj (replica_record ''PUBLISHED'' d (final_object env d))))" for r and s8 :: pub
      using that phase_good [OF st7 disjI2 [OF m7]] published_phase [OF env(3) ids(1) st7 m7 ids(2-4)] v
      by (auto simp: good_def inner_fits_def)
    show "outcome (andthen (write_json env (marker_path base p) (replica_record ''PUBLISHED'' d ob)) (\<lambda>_. ret (published_result t sid p ob))) s7
        (\<lambda>r s'. good env base sid t p v (pu_fs s'))"
      unfolding ob
    proof (rule outcome_andthen)
      fix e s8 assume "write_json env (marker_path base p) (replica_record ''PUBLISHED'' d (final_object env d)) s7 = (Inl e, s8)"
      from kept [OF outcomeD [OF write_json_effect this]] show "good env base sid t p v (pu_fs s8)" .
    next
      fix u s8 assume "write_json env (marker_path base p) (replica_record ''PUBLISHED'' d (final_object env d)) s7 = (Inr u, s8)"
      from kept [OF outcomeD [OF write_json_effect this]]
      show "outcome (ret (published_result t sid p (final_object env d))) s8 (\<lambda>r s'. good env base sid t p v (pu_fs s'))"
        by (simp add: outcome_def ret_def)
    qed
  qed
  show ?thesis unfolding publish_fresh_def Let_def staging_place_def [symmetric]
  proof (rule outcome_quiet, rule reads_only_calls, erule same, rule outcome_quiet, rule reads_only_calls, rule same, simp,
      rule outcome_quiet, rule reads_only_intros, rule same, simp, rule outcome_quiet, rule reads_only_calls, rule same, simp,
      rule outcome_quiet, rule reads_only_intros, rule same, simp, rule outcome_quiet, rule reads_only_check_parent, rule same, simp)
    fix u u2 u3 rec1 d1 receipt and s1 s2 s3 s4 s5 s6 :: pub
    assume fs: "pu_fs s1 = pu_fs s" "pu_fs s2 = pu_fs s1" "pu_fs s3 = pu_fs s2" "pu_fs s4 = pu_fs s3" "pu_fs s5 = pu_fs s4" "pu_fs s6 = pu_fs s5"
      and rec1: "read_json env (slash (staging_place base t) ''transfer.json'') s1 = (Inr rec1, s2)"
      and d1: "lift (declaration_of env rec1 t sid p) s2 = (Inr d1, s3)"
    have "rec1 = rec0" using json_at_eq [OF rec0] read_json_at [OF rec1] fs(1) by simp
    with d1 d have d1: "d1 = d" by (simp add: op_Inr)
    show "outcome (reading (\<lambda>s. andthen (if pu_fs s (slash (staging_place base t) ''bundle'') \<noteq> None
      then publish_source env base (staging_place base t) d1 else publish_moved env base (staging_place base t) d1)
      (\<lambda>ob. andthen (write_json env (marker_path base p) (replica_record ''PUBLISHED'' d1 ob)) (\<lambda>_.
      ret (published_result t sid p ob))))) s6 (\<lambda>r s'. good env base sid t p v (pu_fs s'))"
      unfolding d1 by (rule rest) (simp add: fs)
  qed
qed

lemma body_keeps:
  assumes env: "dated env" "honest_names env" "records_fit env" and ok: "receiver_ok env base (pu_fs s)" and g: "good env base sid t p v (pu_fs s)"
  shows "outcome (publish_body env base sid t p) s (\<lambda>r s'. good env base sid t p v (pu_fs s'))"
proof -
  have shelled: "good env base sid t p v fs'" if "shell base (pu_fs s) fs'" for fs'
    using g shell_storage [OF that] inner_cong [OF env(2) that] by (simp add: good_def)
  have known: "reads_only (publish_known env base sid t p)" unfolding publish_known_def by (intro quiet)
  show ?thesis unfolding publish_body_def
  proof (rule outcome_quiet, rule reads_only_calls, simp add: g, rule outcome_quiet, rule reads_only_calls, simp add: g, rule outcome_andthen)
    fix u1 u2 e and s1 s2 s3 :: pub assume "pu_fs s1 = pu_fs s" "pu_fs s2 = pu_fs s1" "ensure_state env base s2 = (Inl e, s3)"
    with outcomeD [OF ensure_state_shell] shelled show "good env base sid t p v (pu_fs s3)" by metis
  next
    fix u1 u2 u3 and s1 s2 s3 :: pub assume s2: "pu_fs s1 = pu_fs s" "pu_fs s2 = pu_fs s1" and st: "ensure_state env base s2 = (Inr u3, s3)"
    from outcomeD [OF ensure_state_shell st] s2 have sh3: "shell base (pu_fs s) (pu_fs s3)" by simp
    from state_calm [OF dated_plain [OF env(1)] st] s2 have c3: "calm env base (pu_fs s) (pu_fs s3)" by simp
    show "outcome (andthen (take_lock env base) (\<lambda>_. reading (\<lambda>s. if pu_fs s (marker_path base p) \<noteq> None then publish_known env base sid t p
     else publish_fresh env base (receiver_place base) sid t p))) s3 (\<lambda>r s'. good env base sid t p v (pu_fs s'))"
    proof (rule outcome_andthen)
      fix e s4 assume "take_lock env base s3 = (Inl e, s4)"
      from outcomeD [OF take_lock_shell this] sh3 shell_trans shelled show "good env base sid t p v (pu_fs s4)" by blast
    next
      fix u4 s4 assume l: "take_lock env base s3 = (Inr u4, s4)"
      from outcomeD [OF take_lock_shell l] sh3 shell_trans shelled have g4: "good env base sid t p v (pu_fs s4)" by blast
      from lock_calm [OF dated_plain [OF env(1)] l] c3 have ok4: "receiver_ok env base (pu_fs s4)" using calm_ok ok by (metis calm_trans)
      show "outcome (reading (\<lambda>s. if pu_fs s (marker_path base p) \<noteq> None then publish_known env base sid t p
        else publish_fresh env base (receiver_place base) sid t p)) s4 (\<lambda>r s'. good env base sid t p v (pu_fs s'))"
      proof (rule outcome_basic(3), rule outcome_if)
        show "outcome (publish_known env base sid t p) s4 (\<lambda>r s'. good env base sid t p v (pu_fs s'))"
          using known g4 by (simp add: outcome_def reads_only_def)
        assume "\<not> pu_fs s4 (marker_path base p) \<noteq> None"
        with g4 ok4 show "outcome (publish_fresh env base (receiver_place base) sid t p) s4 (\<lambda>r s'. good env base sid t p v (pu_fs s'))"
          by (intro fresh_keeps [OF env]) (simp_all add: good_def inner_fits_def)
      qed
    qed
  qed
qed

section \<open>Repeating an interrupted publication\<close>

lemma steady_fits:
  "dated (steady env) = dated env" "honest_names (steady env) = honest_names env" "inner_fits (steady env) = inner_fits env"
proof -
  show "dated (steady env) = dated env" "honest_names (steady env) = honest_names env"
    by (simp_all add: dated_def honest_names_def)
  have n: "node_at (steady env) = node_at env" by (simp add: fun_eq_iff node_at_def)
  have j: "json_at (steady env) = json_at env" by (simp add: fun_eq_iff json_at_def n)
  have b: "bundle_fits (steady env) = bundle_fits env"
    by (simp add: fun_eq_iff bundle_fits_def folders_fit_def sizes_hold_def disk_fits_def j n)
  have i: "intent_exact (steady env) = intent_exact env" "intent_fits (steady env) = intent_fits env"
    by (simp_all add: fun_eq_iff intent_exact_def intent_fits_def j steady_intent)
  show "inner_fits (steady env) = inner_fits env"
    by (simp add: fun_eq_iff inner_fits_def known_fits_def fresh_fits_def staged_fits_def parent_fits_def source_fits_def
        moved_fits_def i j b steady_intent)
qed

lemma publish_keeps_ok:
  assumes "plain_times env" "receiver_ok env (storage_root storage) (pu_fs s)"
    and "publish_staged_replica env storage tid pid s = (r, s')"
  shows "receiver_ok env (storage_root storage) (pu_fs s')"
proof (cases "publish_uuid pid")
  case (Inl e)
  with assms(3) have "pu_fs s' = pu_fs s"
    by (auto simp: publish_staged_replica_def op_defs split: sum.splits)
  with assms(2) show ?thesis by simp
next
  case (Inr p)
  from outcomeD [OF publish_effect [OF assms(1) Inr] assms(3)] show ?thesis
    unfolding publish_post_def using calm_ok assms(2) inserts_ok [OF assms(1,2)] by blast
qed

lemma interrupted_once:
  assumes env: "dated env" "honest_names env" "records_fit env" and ok: "receiver_ok env (storage_root storage) (pu_fs s)"
    and can: "publish_staged_replica (steady env) storage tid pid s = (Inr v, s0)"
    and run: "publish_staged_replica env storage tid pid s = (r, s1)"
  shows "\<exists>s2. publish_staged_replica (steady env) storage tid pid s1 = (Inr v, s2)"
proof -
  from publish_is_body [OF can] obtain sid t p where
    body: "\<And>env. publish_staged_replica env storage tid pid = publish_body env (storage_root storage) sid t p" by blast
  have "dated (steady env)" "honest_names (steady env)" using env by (simp_all add: steady_fits)
  from body_run [OF this can [unfolded body]] have "good env (storage_root storage) sid t p v (pu_fs s)"
    by (simp add: good_def steady_fits)
  from outcomeD [OF body_keeps [OF env ok this] run [unfolded body]] show ?thesis
    unfolding body good_def using body_steady [OF env] by blast
qed

text \<open>Any number of runs of one publication, each stopped at any call or not at all.\<close>

inductive attempted :: "pub_env \<Rightarrow> dict \<Rightarrow> json \<Rightarrow> json \<Rightarrow> pub \<Rightarrow> pub \<Rightarrow> bool" for env storage tid pid where
  attempted_none: "attempted env storage tid pid s s"
| attempted_again: "attempted env storage tid pid s s1 \<Longrightarrow> publish_staged_replica env storage tid pid s1 = (r, s2) \<Longrightarrow>
    attempted env storage tid pid s s2"

lemma attempts_resume:
  assumes env: "dated env" "honest_names env" "records_fit env"
    and "attempted env storage tid pid s s1" "receiver_ok env (storage_root storage) (pu_fs s)"
    and "publish_staged_replica (steady env) storage tid pid s = (Inr v, s0)"
  shows "receiver_ok env (storage_root storage) (pu_fs s1) \<and>
    (\<exists>s2. publish_staged_replica (steady env) storage tid pid s1 = (Inr v, s2))"
  using assms(4-6)
proof induction
  case (attempted_again s sa r sb)
  then show ?case using interrupted_once [OF env] publish_keeps_ok [OF dated_plain [OF env(1)]] by blast
qed auto

text \<open>C37: a publication survives interruption. If it would return \<open>v\<close> from the files as they are, then
  after any number of runs of it, each of which may have failed at any system call, a run in which
  no call fails still returns \<open>v\<close>: the intent, the rename and the marker never leave a state from which
  the publication cannot be completed, and never change its answer.\<close>

theorem publication_resumes:
  assumes "dated env" "honest_names env" "records_fit env" "receiver_ok env (storage_root storage) (pu_fs s)"
    and "publish_staged_replica (steady env) storage transfer_id point_id s = (Inr v, s0)"
    and "attempted env storage transfer_id point_id s s1"
  shows "\<exists>s2. publish_staged_replica (steady env) storage transfer_id point_id s1 = (Inr v, s2)"
  using attempts_resume [OF assms(1-3,6,4,5)] by blast

end
