(* ===== verification/PublishExample.thy ===== *)
theory PublishExample
  imports PublishResume TransferExamples
begin

text \<open>
  The bundle of the transfer example is published, and a child of it is deleted again.
\<close>

definition point_dict :: dict where
  "point_dict =
     [(''backup_kind'', JStr ''FULL''), (''chain_id'', JStr (id_of CHR ''e'')),
      (''disks'', JList [JObj [(''format'', JStr ''qcow2''), (''relative_path'', JStr ''disks/vda.qcow2''),
         (''size_bytes'', JInt 4), (''target'', JStr ''vda''), (''virtual_size'', JInt 8)]]),
      (''format_version'', JInt 1), (''id'', JStr (id_of CHR ''d'')), (''job_id'', JNull),
      (''job_run_id'', JStr (id_of CHR ''f'')), (''libvirt_checkpoint_name'', JNull),
      (''libvirt_domain_uuid'', JStr (id_of CHR ''9'')), (''parent_restore_point_id'', JNull),
      (''run_id'', JStr (id_of CHR ''f'')), (''sequence'', JInt 0), (''status'', JStr ''AVAILABLE''),
      (''storage_destination_id'', JNull), (''vm_id'', JStr (id_of CHR ''c''))]"

definition publish_env :: pub_env where
  "publish_env =
     \<lparr>pe_fail = (\<lambda>_. False), pe_size = (\<lambda>_. 100), pe_loads = map_of [([66], JObj point_dict), ([67], JObj point_dict)],
      pe_isotime = (\<lambda>_. Some True), pe_year = (\<lambda>_. ''2026''), pe_month = (\<lambda>_. ''01''),
      pe_stamp = (\<lambda>_. ''20260101T000000Z''),
      pe_names = (\<lambda>fs p. filter (\<lambda>c. fs (slash p c) \<noteq> None)
        [''metadata'', ''disks'', ''domain.xml'', ''manifest.json'', ''restore-point.json'', ''vda.qcow2'']),
      pe_info = (\<lambda>_. Some (JObj [(''format'', JStr ''qcow2''), (''virtual-size'', JInt 8)])),
      pe_check = (\<lambda>_. Some (JObj [(''check-errors'', JInt 0)])),
      pe_domain_uuid = (\<lambda>_. Some (Some (id_of CHR ''9''))), pe_one_device = True,
      pe_tree = (\<lambda>fs p. [])\<rparr>"

definition staged :: "string \<Rightarrow> string" where
  "staged x = ''/data/.vmbackupd-receiver/staging/'' @ id_of CHR ''a'' @ x"

definition receipt_dict :: dict where
  "receipt_dict = [(''files_completed'', JInt 4), (''payload_bytes'', JInt 5), (''protocol_version'', JInt 1),
     (''restore_point_id'', JStr (id_of CHR ''d'')), (''service'', JStr ''vmbackupd-receiver''),
     (''status'', JStr ''STAGING_COMPLETE''), (''storage_id'', JStr (id_of CHR ''b'')),
     (''transfer_id'', JStr (id_of CHR ''a''))]"

definition staged_fs :: "string \<Rightarrow> node option" where
  "staged_fs = map_of
     [(''/data'', Dir), (''/data/.vmbackupd-receiver'', Dir), (staged '''', Dir), (staged ''/bundle'', Dir),
      (staged ''/bundle/metadata'', Dir), (staged ''/bundle/disks'', Dir),
      (staged ''/bundle/metadata/domain.xml'', File [65]), (staged ''/bundle/metadata/manifest.json'', File [66]),
      (staged ''/bundle/metadata/restore-point.json'', File [67]), (staged ''/bundle/disks/vda.qcow2'', File [68, 69, 0, 0]),
      (staged ''/transfer.json'', JsonFile (JObj (dset (AList.delete ''operation'' begin_dict) ''state'' (JStr ''STAGING_COMPLETE'')))),
      (staged ''/receipt.json'', JsonFile (JObj receipt_dict))]"

definition example_storage :: dict where
  "example_storage = [(''backup_data_root'', JStr ''/data''), (''receiver_namespace'', JStr ''/data/.vmbackupd-receiver''),
     (''storage_id'', JStr (id_of CHR ''b''))]"

definition staged_state :: pub where "staged_state = \<lparr>pu_fs = staged_fs, pu_tick = 0\<rparr>"

lemma example_publish:
  "fst (publish_staged_replica publish_env example_storage (JStr (id_of CHR ''a'')) (JStr (id_of CHR ''d'')) staged_state) =
   Inr (published_result (id_of CHR ''a'') (id_of CHR ''b'') (id_of CHR ''d'') (final_object publish_env example_decl))"
  by code_simp

abbreviation example_run :: "dict result \<times> pub" where
  "example_run \<equiv> publish_staged_replica publish_env example_storage (JStr (id_of CHR ''a'')) (JStr (id_of CHR ''d'')) staged_state"

lemma example_assumptions: "plain_times publish_env" "honest_tree publish_env"
  by (simp_all add: plain_times_def honest_tree_def publish_env_def)

lemma example_root: "storage_root example_storage = ''/data''"
  by code_simp

lemma no_markers: "staged_fs (marker_path ''/data'' p) = None"
  by (simp add: staged_fs_def marker_path_def published_path_def state_path_def slash_def joined_def suffix_def staged_def)

lemma staged_reached: "receiver_reached publish_env ''/data'' staged_state"
  by (rule reached_empty) (simp add: staged_state_def no_markers)

lemma example_step: "receiver_step publish_env ''/data'' staged_state (snd example_run)"
  by (rule step_publish [OF example_root, where r = "fst example_run"]) simp

lemma example_ok: "receiver_ok publish_env (storage_root example_storage) (pu_fs staged_state)"
  using receiver_reached_ok [OF example_assumptions staged_reached] by (simp add: example_root)

lemma example_returns:
  "example_run = (Inr (published_result (id_of CHR ''a'') (id_of CHR ''b'') (id_of CHR ''d'') (final_object publish_env example_decl)), snd example_run)"
  using example_publish by (metis prod.collapse)

theorem publication_complete_witness:
  "\<exists>d ds v. fst example_run = Inr v \<and> v = published_result (td_transfer_id d) (td_storage_id d) (id_of CHR ''d'') (final_object publish_env d) \<and>
    chain_of publish_env ''/data'' (pu_fs (snd example_run)) (id_of CHR ''d'') (d # ds) \<and> int (length ds) = td_sequence d"
  using publication_complete [OF example_assumptions(1) example_ok example_returns] example_publish example_root by metis

lemma example_marker: "pu_fs (snd example_run) (marker_path ''/data'' (id_of CHR ''d'')) \<noteq> None"
  using publication_published [OF example_assumptions(1) example_ok example_returns]
  by (auto simp: example_root dest!: published_marked simp: marked_def)



text \<open>
  The call after the rename fails: the bundle has left staging, its intent is written and its marker is not.
\<close>

definition crash_env :: pub_env where
  "crash_env = publish_env\<lparr>pe_fail := (\<lambda>n. n = 62)\<rparr>"

abbreviation crashed :: pub where
  "crashed \<equiv> snd (publish_staged_replica crash_env example_storage (JStr (id_of CHR ''a'')) (JStr (id_of CHR ''d'')) staged_state)"

lemma crash_calm: "steady crash_env = publish_env"
  by (simp add: steady_def crash_env_def publish_env_def)

lemma crash_dated: "dated crash_env"
  by (simp add: dated_def crash_env_def publish_env_def segment_def)

lemma crash_names: "honest_names crash_env"
  by (simp add: honest_names_def crash_env_def publish_env_def)

lemma crash_records: "records_fit crash_env"
  by (simp add: records_fit_def crash_env_def publish_env_def max_metadata_bytes_def)

lemma crash_ok: "receiver_ok crash_env (storage_root example_storage) (pu_fs staged_state)"
proof -
  have "plain_times crash_env" "honest_tree crash_env"
    by (simp_all add: plain_times_def honest_tree_def crash_env_def publish_env_def)
  moreover have "receiver_reached crash_env ''/data'' staged_state"
    by (rule reached_empty) (simp add: staged_state_def no_markers)
  ultimately show ?thesis using receiver_reached_ok by (metis example_root)
qed

lemma crashed_attempted: "attempted crash_env example_storage (JStr (id_of CHR ''a'')) (JStr (id_of CHR ''d'')) staged_state crashed"
  by (rule attempted_again [OF attempted_none, where r = "fst (publish_staged_replica crash_env example_storage
        (JStr (id_of CHR ''a'')) (JStr (id_of CHR ''d'')) staged_state)"]) simp

theorem publication_resumes_witness:
  "\<exists>s2. publish_staged_replica publish_env example_storage (JStr (id_of CHR ''a'')) (JStr (id_of CHR ''d'')) crashed =
    (Inr (published_result (id_of CHR ''a'') (id_of CHR ''b'') (id_of CHR ''d'') (final_object publish_env example_decl)), s2)"
  using publication_resumes [OF crash_dated crash_names crash_records crash_ok _ crashed_attempted] example_returns
  unfolding crash_calm by blast

end
