(* ===== verification/LocalHost.thy ===== *)
theory LocalHost
  imports ReceivedRestore
begin

text \<open>
  The host on which local backups are made: the compact store, the files below the control and
  data folders, and the commands that were run (\<open>command.py\<close>, \<open>StagingFilesystem\<close> of
  \<open>libvirt_execution.py\<close>).

  A file has the identity \<open>lstat\<close> reports (device, inode) and its bytes. Every system call is
  numbered and the environment says which calls fail; nothing is undone when a call raises, so the
  states after a failed call are also those a crash leaves. A command is a system call as well: what
  it prints and does to the files is the environment's, and \<open>lw_ran\<close> records that it was run.
  File modes and owners are left out. The walk through a folder, listings, free space, JSON and XML texts
  are fields of the environment.
\<close>

section \<open>Texts\<close>

definition lower_char :: "char \<Rightarrow> char" where
  "lower_char c = (let n = (of_char c :: nat) in if 65 \<le> n \<and> n \<le> 90 then char_of (n + 32) else c)"

definition lower :: "string \<Rightarrow> string" where "lower s = map lower_char s"

text \<open>\<open>str.splitlines\<close>: a carriage return followed by a line feed is one line end.\<close>

definition line_end :: "char \<Rightarrow> bool" where
  "line_end c = (let n = (of_char c :: nat) in (10 \<le> n \<and> n \<le> 13) \<or> (28 \<le> n \<and> n \<le> 30) \<or> n = 133)"

function splitlines :: "string \<Rightarrow> string list" where
  "splitlines s =
     (if s = [] then []
      else let line = takeWhile (\<lambda>c. \<not> line_end c) s; rest = dropWhile (\<lambda>c. \<not> line_end c) s
           in line # splitlines (case rest of [] \<Rightarrow> []
             | c # cs \<Rightarrow> if c = char_of (13 :: nat) \<and> cs \<noteq> [] \<and> hd cs = char_of (10 :: nat) then tl cs else cs))"
  by pat_completeness auto
termination
proof (relation "measure length", simp)
  fix s :: string and line rest
  assume "s \<noteq> []" and rest: "rest = dropWhile (\<lambda>c. \<not> line_end c) s"
  have "length rest \<le> length s" unfolding rest by (rule length_dropWhile_le)
  then show "(case rest of [] \<Rightarrow> []
      | c # cs \<Rightarrow> if c = char_of (13 :: nat) \<and> cs \<noteq> [] \<and> hd cs = char_of (10 :: nat) then tl cs else cs, s) \<in> measure length"
    using \<open>s \<noteq> []\<close> by (cases rest) auto
qed

declare splitlines.simps [simp del]

definition has_text :: "string \<Rightarrow> string \<Rightarrow> bool" where
  "has_text w s = sublist w s"

text \<open>\<open>_SAFE_COMPONENT\<close> and \<open>_SAFE_TARGET\<close>.\<close>

definition letter_or_digit :: "char \<Rightarrow> bool" where
  "letter_or_digit c = (let n = (of_char c :: nat) in
     (48 \<le> n \<and> n \<le> 57) \<or> (65 \<le> n \<and> n \<le> 90) \<or> (97 \<le> n \<and> n \<le> 122))"

definition safe_component :: "string \<Rightarrow> bool" where
  "safe_component s =
     (case s of [] \<Rightarrow> False
      | c # cs \<Rightarrow> letter_or_digit c \<and> list_all (\<lambda>c. letter_or_digit c \<or> c \<in> set ''_.-'') cs)"

section \<open>The host\<close>

type_synonym identity = "int \<times> int"

datatype lnode = DirNode | LinkNode | FileNode identity string

type_synonym lfs = "string \<Rightarrow> lnode option"

text \<open>What a command answers: its exit status, standard output and standard error.\<close>

type_synonym answer = "int \<times> string \<times> string"

record lenv =
  le_text :: text_env
  le_fail :: "nat \<Rightarrow> bool"
  le_run :: "nat \<Rightarrow> string list \<Rightarrow> lfs \<Rightarrow> answer result \<times> lfs"
  le_identity :: "nat \<Rightarrow> identity"
  le_names :: "lfs \<Rightarrow> string \<Rightarrow> string list"
  le_tree :: "lfs \<Rightarrow> string \<Rightarrow> string list"
  le_resolve :: "lfs \<Rightarrow> string \<Rightarrow> string option"
  le_usage :: "nat \<Rightarrow> int \<times> int"
  le_one_device :: bool
  le_loads :: "string \<Rightarrow> json option"
  le_dumps :: "json \<Rightarrow> string"
  le_str :: "json \<Rightarrow> string"
  le_parse_xml :: "string \<Rightarrow> xml option"
  le_xml_text :: "xml \<Rightarrow> string"
  le_time :: "nat \<Rightarrow> aware"
  le_uuid :: "nat \<Rightarrow> string"
  le_year :: "string \<Rightarrow> string"
  le_month :: "string \<Rightarrow> string"
  le_stamp :: "string \<Rightarrow> string"
  le_error_text :: "exn \<Rightarrow> string"

record lw =
  lw_db :: db
  lw_fs :: lfs
  lw_tick :: nat
  lw_ran :: "string list list"

type_synonym 'a lop = "(lw, 'a) op"

abbreviation safety :: "string \<Rightarrow> 'a lop" where
  "safety code \<equiv> raise (LibvirtExecutionSafetyError code)"

definition in_db :: "'a dbop \<Rightarrow> 'a lop" where
  "in_db m = (\<lambda>w. case m (lw_db w) of (r, d) \<Rightarrow> (r, w\<lparr>lw_db := d\<rparr>))"

definition from_db :: "(db \<Rightarrow> 'a result) \<Rightarrow> 'a lop" where
  "from_db q = reading (\<lambda>w. lift (q (lw_db w)))"

definition ticking :: "(nat \<Rightarrow> 'a) \<Rightarrow> 'a lop" where
  "ticking f = (\<lambda>w. (Inr (f (lw_tick w)), w\<lparr>lw_tick := lw_tick w + 1\<rparr>))"

definition syscall :: "lenv \<Rightarrow> unit lop" where
  "syscall env = andthen (ticking (le_fail env)) (\<lambda>failed. if failed then raise OSError else ret ())"

definition change_files :: "(lfs \<Rightarrow> lfs) \<Rightarrow> unit lop" where
  "change_files g = update (\<lambda>w. w\<lparr>lw_fs := g (lw_fs w)\<rparr>)"

definition exists_at :: "string \<Rightarrow> lfs \<Rightarrow> bool" where
  "exists_at p fs \<longleftrightarrow> fs p \<noteq> None"

text \<open>\<open>SubprocessCommandRunner.run\<close>: it raises when the program cannot be started or times out.\<close>

definition run_program :: "lenv \<Rightarrow> string list \<Rightarrow> answer lop" where
  "run_program env argv = reading (\<lambda>w.
     case le_run env (lw_tick w) argv (lw_fs w) of (r, fs) \<Rightarrow>
       andthen (update (\<lambda>w. w\<lparr>lw_fs := fs, lw_tick := lw_tick w + 1, lw_ran := lw_ran w @ [argv]\<rparr>)) (\<lambda>_. lift r))"

text \<open>\<open>try\<close> with a handler that catches everything: the result as a value.\<close>

definition attempt :: "('s, 'a) op \<Rightarrow> ('s, 'a result) op" where
  "attempt m = (\<lambda>s. case m s of (r, s') \<Rightarrow> (Inr r, s'))"

definition command_error :: "'a lop" where
  "command_error = raise (RuntimeError ''command failed'')"

section \<open>Paths of a run\<close>

record lconf =
  lc_control_root :: string
  lc_data_root :: string
  lc_uri :: string
  lc_allow_mutation :: bool

definition run_name_char :: "char \<Rightarrow> bool" where
  "run_name_char c = (letter_or_digit c \<or> c \<in> set ''-_.'')"

definition run_directory :: "lconf \<Rightarrow> string \<Rightarrow> string lop" where
  "run_directory cf run_id =
     (if run_id = [] \<or> run_id = ''.'' \<or> run_id = ''..'' \<or> \<not> list_all run_name_char run_id
      then safety ''unsafe run ID'' else ret (joined (lc_control_root cf) run_id))"

definition data_run_path :: "lconf \<Rightarrow> string \<Rightarrow> string" where
  "data_run_path cf run_id = joined (joined (lc_data_root cf) ''.incoming'') run_id"

definition data_run_directory :: "lconf \<Rightarrow> string \<Rightarrow> string lop" where
  "data_run_directory cf run_id = andthen (run_directory cf run_id) (\<lambda>_. ret (data_run_path cf run_id))"

definition data_disks_directory :: "lconf \<Rightarrow> string \<Rightarrow> string lop" where
  "data_disks_directory cf run_id = andthen (data_run_directory cf run_id) (\<lambda>p. ret (joined p ''disks''))"

definition backup_xml_path :: "lconf \<Rightarrow> string \<Rightarrow> string lop" where
  "backup_xml_path cf run_id = andthen (run_directory cf run_id) (\<lambda>p. ret (joined p ''backup.xml''))"

section \<open>Staging\<close>

text \<open>Every ancestor of the path and the path itself.\<close>

definition symlink_free :: "lfs \<Rightarrow> string \<Rightarrow> bool" where
  "symlink_free fs p = list_all (\<lambda>q. fs q \<noteq> Some LinkNode) (path_chain p)"

definition reject_staging_symlinks :: "string \<Rightarrow> unit lop" where
  "reject_staging_symlinks p = reading (\<lambda>w.
     if symlink_free (lw_fs w) p then ret () else safety ''symlink staging path'')"

text \<open>\<open>mkdir\<close> without and with \<open>exist_ok\<close>, and with \<open>parents\<close>.\<close>

definition make_dir :: "lenv \<Rightarrow> string \<Rightarrow> unit lop" where
  "make_dir env p = andthen (syscall env) (\<lambda>_. reading (\<lambda>w.
     if lw_fs w p \<noteq> None \<or> lw_fs w (path_parent p) \<noteq> Some DirNode then raise OSError
     else change_files (\<lambda>fs. fs(p \<mapsto> DirNode))))"

definition ensure_one :: "lenv \<Rightarrow> string \<Rightarrow> unit lop" where
  "ensure_one env p = reading (\<lambda>w. if lw_fs w p = Some DirNode then ret () else make_dir env p)"

definition ensure_path :: "lenv \<Rightarrow> string \<Rightarrow> unit lop" where
  "ensure_path env p = each (ensure_one env) (path_chain p)"

definition require_direct :: "string \<Rightarrow> string \<Rightarrow> string \<Rightarrow> string lop" where
  "require_direct p base folder =
     (if \<not> path_is_absolute p \<or> path_parent p \<noteq> path_str folder
      then safety ''artifact path escapes its staging run directory''
      else if \<not> prefix (path_parts base) (path_parts p)
      then safety ''artifact path is outside its configured root''
      else reading (\<lambda>w.
        if list_ex (\<lambda>q. inside_root q base \<and> q \<noteq> base \<and> lw_fs w q = Some LinkNode) (butlast (path_chain p))
        then safety ''symlink staging component'' else ret p))"

definition require_control_path :: "lconf \<Rightarrow> string \<Rightarrow> string \<Rightarrow> string lop" where
  "require_control_path cf run_id p =
     andthen (run_directory cf run_id) (\<lambda>folder. require_direct p (lc_control_root cf) folder)"

definition require_data_path :: "lconf \<Rightarrow> string \<Rightarrow> string \<Rightarrow> string lop" where
  "require_data_path cf run_id p =
     andthen (data_disks_directory cf run_id) (\<lambda>folder. require_direct p (lc_data_root cf) folder)"

text \<open>
  \<open>atomic_write\<close>: opening the temporary file, writing and synchronising it, the rename and the
  synchronisation of the folder. The temporary file itself is left out.
\<close>

definition staged_write :: "lenv \<Rightarrow> lconf \<Rightarrow> string \<Rightarrow> string \<Rightarrow> string \<Rightarrow> unit lop" where
  "staged_write env cf run_id p data =
     andthen (require_control_path cf run_id p) (\<lambda>_. reading (\<lambda>w.
     if exists_at p (lw_fs w) then safety ''refusing to overwrite''
     else
       andthen (syscall env) (\<lambda>_. andthen (syscall env) (\<lambda>_. andthen (syscall env) (\<lambda>_.
       if lw_fs w (path_parent p) \<noteq> Some DirNode then raise OSError
       else
         andthen (ticking (le_identity env)) (\<lambda>i.
         andthen (change_files (\<lambda>fs. fs(p \<mapsto> FileNode i data))) (\<lambda>_.
         andthen (syscall env) (\<lambda>_. syscall env))))))))"

record lartifact =
  la_id :: string
  la_kind :: artifact_kind
  la_object_id :: string
  la_target :: "string option"
  la_format :: "string option"
  la_created_at :: aware

definition check_destination :: "lconf \<Rightarrow> string \<Rightarrow> lartifact list \<Rightarrow> lartifact \<Rightarrow> unit lop" where
  "check_destination cf run_id artifacts a =
     andthen (if la_kind a = DISK then require_data_path cf run_id (la_object_id a)
              else require_control_path cf run_id (la_object_id a)) (\<lambda>_. reading (\<lambda>w.
     if exists_at (la_object_id a) (lw_fs w) then safety ''artifact destination already exists'' else ret ()))"

definition prepare_new_run :: "lenv \<Rightarrow> lconf \<Rightarrow> string \<Rightarrow> lartifact list \<Rightarrow> unit lop" where
  "prepare_new_run env cf run_id artifacts =
     andthen (each (\<lambda>root. andthen (reject_staging_symlinks root) (\<lambda>_.
         andthen (ensure_path env root) (\<lambda>_. reject_staging_symlinks root)))
       [lc_control_root cf, lc_data_root cf]) (\<lambda>_.
     andthen (run_directory cf run_id) (\<lambda>run_dir.
     andthen (data_run_directory cf run_id) (\<lambda>data_dir. reading (\<lambda>w.
     if exists_at run_dir (lw_fs w) then safety ''control run directory already exists''
     else if exists_at data_dir (lw_fs w) then safety ''backup data run directory already exists''
     else if \<not> distinct (map la_object_id artifacts) then safety ''artifact destinations are not unique''
     else
       andthen (each (check_destination cf run_id artifacts) artifacts) (\<lambda>_.
       andthen (make_dir env run_dir) (\<lambda>_.
       andthen (syscall env) (\<lambda>_. reading (\<lambda>w.
       let incoming = joined (lc_data_root cf) ''.incoming'' in
       if lw_fs w incoming = Some LinkNode then safety ''backup incoming root is a symlink''
       else
         andthen (ensure_one env incoming) (\<lambda>_.
         andthen (reject_staging_symlinks incoming) (\<lambda>_.
         andthen (syscall env) (\<lambda>_.
         andthen (make_dir env data_dir) (\<lambda>_.
         andthen (syscall env) (\<lambda>_.
         andthen (make_dir env (joined data_dir ''disks'')) (\<lambda>_. syscall env))))))))))))))"

definition free_space :: "lenv \<Rightarrow> lconf \<Rightarrow> (int \<times> int) lop" where
  "free_space env cf =
     andthen (reject_staging_symlinks (lc_data_root cf)) (\<lambda>_.
     andthen (ensure_path env (lc_data_root cf)) (\<lambda>_.
     andthen (reject_staging_symlinks (lc_data_root cf)) (\<lambda>_.
     andthen (syscall env) (\<lambda>_. ticking (le_usage env)))))"

section \<open>Preparing an output image\<close>

definition lstat_at :: "lenv \<Rightarrow> string \<Rightarrow> lnode lop" where
  "lstat_at env p = andthen (syscall env) (\<lambda>_. reading (\<lambda>w.
     case lw_fs w p of None \<Rightarrow> raise OSError | Some n \<Rightarrow> ret n))"

text \<open>\<open>QemuImageInspector.inspect\<close>: the format and the virtual size.\<close>

definition image_size :: "json \<Rightarrow> (json \<times> int) result" where
  "image_size v =
     (case v of
        JObj d \<Rightarrow>
          bnd (dindex d ''format'') (\<lambda>format.
          bnd (dindex d ''virtual-size'') (\<lambda>size.
          bnd (py_int size) (\<lambda>n.
          let actual = dget_or d ''actual-size'' JNull in
          if actual = JNull then Inr (format, n) else bnd (py_int actual) (\<lambda>_. Inr (format, n)))))
      | _ \<Rightarrow> Inl TypeError)"

definition inspect_image :: "lenv \<Rightarrow> string \<Rightarrow> (string \<times> int) lop" where
  "inspect_image env p =
     andthen (run_program env [''qemu-img'', ''info'', ''--output=json'', p]) (\<lambda>(code, out, err).
     if code \<noteq> 0 then command_error
     else case le_loads env out of
       None \<Rightarrow> safety ''unreliable qemu-img information''
     | Some v \<Rightarrow>
         (case image_size v of
            Inr (format, n) \<Rightarrow> ret (case format of JStr s \<Rightarrow> s | _ \<Rightarrow> le_str env format, n)
          | Inl OverflowError \<Rightarrow> raise OverflowError
          | Inl _ \<Rightarrow> safety ''unreliable qemu-img information''))"

definition remove_exact :: "lenv \<Rightarrow> string \<Rightarrow> identity \<Rightarrow> unit lop" where
  "remove_exact env p i = reading (\<lambda>w. case lw_fs w p of
     Some (FileNode j _) \<Rightarrow>
       (if j = i then andthen (syscall env) (\<lambda>_. change_files (\<lambda>fs. fs(p := None))) else ret ())
   | _ \<Rightarrow> ret ())"

definition temporary_output :: "string \<Rightarrow> string \<Rightarrow> string" where
  "temporary_output p i = joined (path_parent p) (''.'' @ last_name p @ ''.prepare-'' @ i)"

text \<open>\<open>finally\<close>: the clean-up runs after a return and after an exception; if it raises, that exception wins.\<close>

definition finally_do :: "('s, 'a) op \<Rightarrow> ('a result \<Rightarrow> ('s, unit) op) \<Rightarrow> ('s, 'a) op" where
  "finally_do m g = (\<lambda>s. case m s of (r, s1) \<Rightarrow>
     (case g r s1 of (Inl e, s2) \<Rightarrow> (Inl e, s2) | (Inr _, s2) \<Rightarrow> (r, s2)))"

definition link_output :: "lenv \<Rightarrow> string \<Rightarrow> string \<Rightarrow> identity \<Rightarrow> identity lop" where
  "link_output env temporary p i =
     andthen (syscall env) (\<lambda>_. reading (\<lambda>w.
     if exists_at p (lw_fs w) \<or> lw_fs w (path_parent p) \<noteq> Some DirNode then raise OSError
     else
       andthen (change_files (\<lambda>fs. fs(p := fs temporary))) (\<lambda>_.
       andthen (lstat_at env p) (\<lambda>n. case n of
         FileNode j _ \<Rightarrow>
           finally_do
             (if j \<noteq> i then safety ''prepared output identity changed during publish''
              else andthen (syscall env) (\<lambda>_. andthen (syscall env) (\<lambda>_. ret j)))
             (\<lambda>r. if isl r then remove_exact env p j else ret ())
       | _ \<Rightarrow> safety ''prepared output identity changed during publish''))))"

definition prepare_output :: "lenv \<Rightarrow> lconf \<Rightarrow> string \<Rightarrow> lartifact \<Rightarrow> int \<Rightarrow> identity lop" where
  "prepare_output env cf run_id a capacity =
     andthen (require_data_path cf run_id (la_object_id a)) (\<lambda>p. reading (\<lambda>w.
     if la_format a \<noteq> Some ''qcow2'' \<or> capacity \<le> 0 then safety ''prepared output must be positive-size qcow2''
     else if exists_at p (lw_fs w) then safety ''artifact destination already exists''
     else
       let temporary = temporary_output p (la_id a) in
       if exists_at temporary (lw_fs w) then safety ''prepared output temporary path already exists''
       else
         andthen (run_program env [''qemu-img'', ''create'', ''-f'', ''qcow2'', temporary, int_text capacity])
           (\<lambda>(code, out, err).
         if code \<noteq> 0 then command_error
         else
           finally_do
             (andthen (lstat_at env temporary) (\<lambda>n. case n of
                FileNode i _ \<Rightarrow>
                  andthen (inspect_image env temporary) (\<lambda>(format, size).
                  if la_format a \<noteq> Some format \<or> size \<noteq> capacity
                  then safety ''prepared output format or virtual capacity does not match its plan''
                  else
                    andthen (syscall env) (\<lambda>_. link_output env temporary p i))
              | _ \<Rightarrow> safety ''qemu-img did not create a regular output''))
             (\<lambda>_. reading (\<lambda>w. case lw_fs w temporary of
                Some LinkNode \<Rightarrow> ret ()
              | None \<Rightarrow> ret ()
              | Some _ \<Rightarrow> andthen (syscall env) (\<lambda>_. change_files (\<lambda>fs. fs(temporary := None))))))))"

end
