(* ===== verification/Libvirt.thy ===== *)
theory Libvirt
  imports LocalHost "HOL-Library.Option_ord"
begin

text \<open>
  What the program asks libvirt and how it reads the answers (\<open>libvirt_backend.py\<close>, the mutation
  driver of \<open>libvirt_execution.py\<close>): the \<open>virsh\<close> commands, job statistics, domain disks,
  the identity of a running backup, the documents that start one, and the preflight.
\<close>

section \<open>Read-only commands\<close>

definition virsh_result :: "lenv \<Rightarrow> lconf \<Rightarrow> string list \<Rightarrow> answer lop" where
  "virsh_result env cf args = run_program env ([''virsh'', ''--readonly'', ''--connect'', lc_uri cf] @ args)"

definition virsh :: "lenv \<Rightarrow> lconf \<Rightarrow> string list \<Rightarrow> string lop" where
  "virsh env cf args = andthen (virsh_result env cf args) (\<lambda>(code, out, err).
     if code \<noteq> 0 then command_error else ret (strip out))"

definition domain_uuid :: "lenv \<Rightarrow> lconf \<Rightarrow> string \<Rightarrow> string lop" where
  "domain_uuid env cf name = virsh env cf [''domuuid'', name]"

definition domain_xml :: "lenv \<Rightarrow> lconf \<Rightarrow> string \<Rightarrow> string lop" where
  "domain_xml env cf name = virsh env cf [''dumpxml'', name]"

definition domain_state :: "lenv \<Rightarrow> lconf \<Rightarrow> string \<Rightarrow> string lop" where
  "domain_state env cf name = andthen (virsh env cf [''domstate'', name]) (\<lambda>out. ret (lower (strip out)))"

definition name_lines :: "string \<Rightarrow> string list" where
  "name_lines out = filter (\<lambda>l. l \<noteq> []) (map strip (splitlines out))"

definition checkpoint_names :: "lenv \<Rightarrow> lconf \<Rightarrow> string \<Rightarrow> string list lop" where
  "checkpoint_names env cf name =
     andthen (virsh env cf [''checkpoint-list'', name, ''--name'']) (\<lambda>out. ret (name_lines out))"

definition snapshot_names :: "lenv \<Rightarrow> lconf \<Rightarrow> string \<Rightarrow> string list lop" where
  "snapshot_names env cf name =
     andthen (virsh env cf [''snapshot-list'', name, ''--name'']) (\<lambda>out. ret (name_lines out))"

section \<open>Block sizes\<close>

record block_info =
  bi_capacity :: int
  bi_allocation :: "int option"
  bi_physical :: "int option"

text \<open>One line of \<open>domblkinfo\<close>: a key, a colon and one word.\<close>

definition block_keys :: "string list" where
  "block_keys = [''Capacity'', ''Allocation'', ''Physical'']"

definition block_line :: "string \<Rightarrow> (string \<times> string) option" where
  "block_line line =
     (let t = strip line; colon = dropWhile (\<lambda>c. c \<noteq> CHR '':'') t;
          key = strip (takeWhile (\<lambda>c. c \<noteq> CHR '':'') t); word = strip (drop 1 colon)
      in if colon = [] \<or> key \<notin> set block_keys \<or> word = [] \<or> list_ex is_space word then None
         else Some (lower key, word))"

fun block_values :: "string list \<Rightarrow> (string \<times> int) list \<Rightarrow> (string \<times> int) list result" where
  "block_values [] vs = Inr vs"
| "block_values (line # lines) vs =
     (if strip line = [] then block_values lines vs
      else case block_line line of
        None \<Rightarrow> Inl (RuntimeError ''block capacity inspection failed: malformed output'')
      | Some (key, word) \<Rightarrow>
          if map_of vs key \<noteq> None \<or> \<not> list_all is_decimal word
          then Inl (RuntimeError ''block capacity inspection failed: ambiguous value'')
          else block_values lines ((key, digits_value word) # vs))"

definition read_block_info :: "string \<Rightarrow> block_info result" where
  "read_block_info out =
     bnd (block_values (splitlines out) []) (\<lambda>vs.
     case map_of vs ''capacity'' of
       None \<Rightarrow> Inl (RuntimeError ''block capacity inspection failed: missing or non-positive Capacity'')
     | Some n \<Rightarrow>
         if n \<le> 0 then Inl (RuntimeError ''block capacity inspection failed: missing or non-positive Capacity'')
         else Inr \<lparr>bi_capacity = n, bi_allocation = map_of vs ''allocation'', bi_physical = map_of vs ''physical''\<rparr>)"

definition domain_block_info :: "lenv \<Rightarrow> lconf \<Rightarrow> string \<Rightarrow> string \<Rightarrow> block_info lop" where
  "domain_block_info env cf name target =
     andthen (virsh_result env cf [''domblkinfo'', name, target]) (\<lambda>(code, out, err).
     if code \<noteq> 0 then raise (RuntimeError ''block capacity inspection failed'')
     else lift (read_block_info (strip out)))"

section \<open>Job statistics\<close>

datatype job_state = Job_NONE | Job_BACKUP | Job_OTHER | Job_UNKNOWN

datatype job_type = Type_NONE | Type_BOUNDED | Type_UNBOUNDED | Type_COMPLETED | Type_FAILED
  | Type_CANCELLED | Type_UNKNOWN

datatype job_operation = Op_BACKUP | Op_MIGRATION | Op_SNAPSHOT | Op_SAVE | Op_DUMP | Op_OTHER | Op_UNKNOWN

definition job_field :: "string \<Rightarrow> (string \<times> string) option" where
  "job_field line =
     (let key = takeWhile (\<lambda>c. c \<notin> set '':='') line; rest = dropWhile (\<lambda>c. c \<notin> set '':='') line;
          word = strip (drop 1 rest);
          name = filter (\<lambda>c. letter_or_digit c) (lower key)
      in if key = [] \<or> rest = [] \<or> name = [] \<or> word = [] then None else Some (name, word))"

definition job_fields :: "string \<Rightarrow> (string \<times> string) list" where
  "job_fields raw = foldl (\<lambda>fs line. case job_field line of None \<Rightarrow> fs
     | Some (k, v) \<Rightarrow> AList.update k v fs) [] (splitlines raw)"

definition job_type_names :: "(string \<times> job_type) list" where
  "job_type_names =
     [(''0'', Type_NONE), (''1'', Type_BOUNDED), (''2'', Type_UNBOUNDED), (''3'', Type_COMPLETED),
      (''4'', Type_FAILED), (''5'', Type_CANCELLED), (''none'', Type_NONE), (''no job'', Type_NONE),
      (''no active job'', Type_NONE), (''bounded'', Type_BOUNDED), (''unbounded'', Type_UNBOUNDED),
      (''completed'', Type_COMPLETED), (''failed'', Type_FAILED), (''cancelled'', Type_CANCELLED),
      (''canceled'', Type_CANCELLED)]"

definition parse_job_type :: "string option \<Rightarrow> job_type" where
  "parse_job_type v =
     (case v of None \<Rightarrow> Type_UNKNOWN
      | Some s \<Rightarrow> (case map_of job_type_names (lower (strip s)) of None \<Rightarrow> Type_UNKNOWN | Some t \<Rightarrow> t))"

definition job_operation_numbers :: "(string \<times> job_operation) list" where
  "job_operation_numbers =
     [(''0'', Op_UNKNOWN), (''1'', Op_OTHER), (''2'', Op_SAVE), (''3'', Op_OTHER), (''4'', Op_MIGRATION),
      (''5'', Op_MIGRATION), (''6'', Op_SNAPSHOT), (''7'', Op_SNAPSHOT), (''8'', Op_DUMP), (''9'', Op_BACKUP)]"

definition parse_job_operation :: "string option \<Rightarrow> job_operation" where
  "parse_job_operation v =
     (case v of None \<Rightarrow> Op_UNKNOWN
      | Some s \<Rightarrow> (let n = lower (strip s) in
          case map_of job_operation_numbers n of Some t \<Rightarrow> t
          | None \<Rightarrow>
              if n = ''backup'' then Op_BACKUP
              else if prefix ''migration'' n \<or> n \<in> {''migrate in'', ''migrate out''} then Op_MIGRATION
              else if prefix ''snapshot'' n then Op_SNAPSHOT
              else if prefix ''save'' n then Op_SAVE
              else if prefix ''dump'' n then Op_DUMP
              else if n \<in> {''start'', ''restore'', ''block commit'', ''block copy'', ''block pull''} then Op_OTHER
              else Op_UNKNOWN))"

definition terminal_types :: "job_type set" where
  "terminal_types = {Type_COMPLETED, Type_FAILED, Type_CANCELLED}"

definition is_domainbackup :: "lenv \<Rightarrow> string \<Rightarrow> bool" where
  "is_domainbackup env s = (case le_parse_xml env s of None \<Rightarrow> False | Some x \<Rightarrow> tag_of x = ''domainbackup'')"

text \<open>\<open>BackupInspection\<close>: the state and, of a running backup, its document.\<close>

type_synonym inspection = "job_state \<times> string option"

definition job_answer :: "lenv \<Rightarrow> lconf \<Rightarrow> string \<Rightarrow> (bool \<times> job_type \<times> job_operation) lop" where
  "job_answer env cf name =
     andthen (virsh_result env cf [''domjobinfo'', name, ''--rawstats'']) (\<lambda>(code, out, err).
     let fields = job_fields (strip out)
     in ret (code = 0, parse_job_type (map_of fields ''jobtype''), parse_job_operation (map_of fields ''operation'')))"

definition inspect_backup :: "lenv \<Rightarrow> lconf \<Rightarrow> string \<Rightarrow> inspection lop" where
  "inspect_backup env cf name =
     andthen (job_answer env cf name) (\<lambda>(good, job_type, operation).
     if \<not> good \<or> job_type = Type_UNKNOWN then ret (Job_UNKNOWN, None)
     else if job_type = Type_NONE \<or> job_type \<in> terminal_types then ret (Job_NONE, None)
     else if operation = Op_UNKNOWN then ret (Job_UNKNOWN, None)
     else if operation \<noteq> Op_BACKUP then ret (Job_OTHER, None)
     else
       andthen (virsh_result env cf [''backup-dumpxml'', name]) (\<lambda>(code, out, err).
       if code = 0 \<and> is_domainbackup env out then ret (Job_BACKUP, Some (strip out))
       else
         andthen (job_answer env cf name) (\<lambda>(again, type_again, _).
         if again \<and> (type_again = Type_NONE \<or> type_again \<in> terminal_types) then ret (Job_NONE, None)
         else ret (Job_UNKNOWN, None))))"

text \<open>\<open>inspect_domain_backup\<close>: an exception means that the state is not known.\<close>

definition inspect_domain_backup :: "lenv \<Rightarrow> lconf \<Rightarrow> string \<Rightarrow> inspection lop" where
  "inspect_domain_backup env cf name = andthen (attempt (inspect_backup env cf name)) (\<lambda>r.
     ret (case r of Inr v \<Rightarrow> v | Inl _ \<Rightarrow> (Job_UNKNOWN, None)))"

record completed_job =
  cj_available :: "bool option"
  cj_type :: job_type
  cj_operation :: job_operation
  cj_success :: "bool option"

definition read_completed_job :: "answer \<Rightarrow> completed_job" where
  "read_completed_job = (\<lambda>(code, out, err).
     if code \<noteq> 0 then
       (let e = lower (strip err) in
        if has_text ''no completed job'' e \<or> has_text ''no job statistics'' e
        then \<lparr>cj_available = Some False, cj_type = Type_NONE, cj_operation = Op_UNKNOWN, cj_success = None\<rparr>
        else \<lparr>cj_available = None, cj_type = Type_UNKNOWN, cj_operation = Op_UNKNOWN, cj_success = None\<rparr>)
     else
       (let fields = job_fields (strip out);
            t = parse_job_type (map_of fields ''jobtype''); p = parse_job_operation (map_of fields ''operation'')
        in if t = Type_NONE
           then \<lparr>cj_available = Some False, cj_type = t, cj_operation = p, cj_success = None\<rparr>
           else if t = Type_UNKNOWN \<or> p = Op_UNKNOWN
           then \<lparr>cj_available = None, cj_type = t, cj_operation = p, cj_success = None\<rparr>
           else if p \<noteq> Op_BACKUP
           then \<lparr>cj_available = Some True, cj_type = t, cj_operation = p, cj_success = None\<rparr>
           else \<lparr>cj_available = Some True, cj_type = t, cj_operation = p,
                 cj_success = (if t = Type_COMPLETED then Some True
                   else if t \<in> {Type_FAILED, Type_CANCELLED} then Some False else None)\<rparr>))"

definition inspect_completed_job :: "lenv \<Rightarrow> lconf \<Rightarrow> string \<Rightarrow> completed_job lop" where
  "inspect_completed_job env cf name =
     andthen (virsh_result env cf [''domjobinfo'', name, ''--completed'', ''--keep-completed'', ''--anystats'',
       ''--rawstats'']) (\<lambda>answer. ret (read_completed_job answer))"

section \<open>Domain disks\<close>

record domain_disk =
  dd_target :: string
  dd_source_type :: string
  dd_source_path :: "string option"
  dd_source_format :: "string option"
  dd_supported :: bool

definition attr :: "xml \<Rightarrow> string \<Rightarrow> string option" where "attr x k = map_of (attrs_of x) k"

definition child :: "xml \<Rightarrow> string \<Rightarrow> xml option" where
  "child x t = find (\<lambda>c. tag_of c = t) (kids_of x)"

definition below_paths :: "xml \<Rightarrow> string \<Rightarrow> string \<Rightarrow> xml list" where
  "below_paths x a b =
     concat (map (\<lambda>c. filter (\<lambda>k. tag_of k = b) (kids_of c)) (filter (\<lambda>c. tag_of c = a) (kids_of x)))"

definition disk_source :: "xml option \<Rightarrow> string \<times> string option \<times> bool" where
  "disk_source source =
     (case source of None \<Rightarrow> (''unsupported'', None, False)
      | Some s \<Rightarrow>
          if attr s ''file'' \<noteq> None then (''file'', attr s ''file'', True)
          else if attr s ''dev'' \<noteq> None then (''block'', attr s ''dev'', True)
          else if attr s ''volume'' \<noteq> None then (''volume'', attr s ''volume'', False)
          else (''unsupported'', None, False))"

definition domain_disk_of :: "xml \<Rightarrow> domain_disk option" where
  "domain_disk_of x =
     (if attr x ''device'' \<noteq> Some ''disk'' then None
      else case child x ''target'' of None \<Rightarrow> None
      | Some t \<Rightarrow>
          (case attr t ''dev'' of None \<Rightarrow> None
           | Some dev \<Rightarrow>
               if dev = [] then None
               else case disk_source (child x ''source'') of (kind, path, supported) \<Rightarrow>
                 Some \<lparr>dd_target = dev, dd_source_type = kind, dd_source_path = path,
                   dd_source_format = Option.bind (child x ''driver'') (\<lambda>d. attr d ''type''),
                   dd_supported = supported\<rparr>))"

definition parse_domain_disks :: "lenv \<Rightarrow> string \<Rightarrow> domain_disk list result" where
  "parse_domain_disks env s =
     (case le_parse_xml env s of None \<Rightarrow> Inl OtherException
      | Some x \<Rightarrow> Inr (List.map_filter domain_disk_of (below_paths x ''devices'' ''disk'')))"

section \<open>The identity of a backup\<close>

record backup_disk =
  bd_name :: string
  bd_type :: string
  bd_destination :: string
  bd_format :: "string option"

type_synonym backup_identity = "string \<times> string option \<times> backup_disk list"

definition backup_disk_of :: "xml \<Rightarrow> backup_disk result" where
  "backup_disk_of x =
     (case (attr x ''name'', child x ''target'') of
        (Some name, Some t) \<Rightarrow>
          (if name = [] then Inl (ValueError ''participating disk lacks name or target'')
           else
             let format = Option.bind (child x ''driver'') (\<lambda>d. attr d ''type'') in
             case (attr t ''file'', attr t ''dev'') of
               (Some p, _) \<Rightarrow> Inr \<lparr>bd_name = name, bd_type = ''file'', bd_destination = p, bd_format = format\<rparr>
             | (None, Some p) \<Rightarrow> Inr \<lparr>bd_name = name, bd_type = ''block'', bd_destination = p, bd_format = format\<rparr>
             | _ \<Rightarrow> Inl (ValueError ''backup target lacks file or dev destination''))
      | _ \<Rightarrow> Inl (ValueError ''participating disk lacks name or target''))"

definition disk_key :: "backup_disk \<Rightarrow> string \<times> string \<times> string \<times> string option" where
  "disk_key d = (bd_name d, bd_type d, bd_destination d, bd_format d)"

text \<open>\<open>sorted\<close> compares two disks field by field; \<open>None\<close> and a text cannot be compared.\<close>

definition uncomparable :: "backup_disk list \<Rightarrow> bool" where
  "uncomparable ds \<longleftrightarrow> (\<exists>a \<in> set ds. \<exists>b \<in> set ds. bd_name a = bd_name b \<and> bd_type a = bd_type b \<and>
     bd_destination a = bd_destination b \<and> bd_format a = None \<and> bd_format b \<noteq> None)"

definition parse_backup_identity :: "lenv \<Rightarrow> string \<Rightarrow> backup_identity result" where
  "parse_backup_identity env s =
     (case le_parse_xml env s of None \<Rightarrow> Inl OtherException
      | Some x \<Rightarrow>
          if tag_of x \<noteq> ''domainbackup'' then Inl (ValueError ''not domainbackup XML'')
          else
            let mode = lower (case attr x ''mode'' of None \<Rightarrow> ''push'' | Some m \<Rightarrow> m);
                base = Option.bind (child x ''incremental'') (\<lambda>c. let t = strip (text_in c) in
                  if t = [] then None else Some t);
                disks = filter (\<lambda>d. lower (case attr d ''backup'' of None \<Rightarrow> ''yes'' | Some b \<Rightarrow> b)
                  \<in> {''yes'', ''true'', ''1''}) (below_paths x ''disks'' ''disk'')
            in bnd (map_result backup_disk_of disks) (\<lambda>ds.
               if uncomparable ds then Inl TypeError else Inr (mode, base, sort_key disk_key ds)))"

section \<open>The documents that start a backup\<close>

definition checkpoint_name :: "string \<Rightarrow> string result" where
  "checkpoint_name run_id =
     (if run_id \<in> {''.'', ''..''} \<or> \<not> safe_component run_id then Inl (ValueError ''unsafe run ID'')
      else Inr (''vmbackupd-'' @ run_id))"

text \<open>A dict comprehension keeps the last artifact of a target.\<close>

definition artifact_for :: "lartifact list \<Rightarrow> string \<Rightarrow> lartifact option" where
  "artifact_for artifacts target =
     find (\<lambda>a. la_kind a = DISK \<and> la_target a = Some target) (rev artifacts)"

definition disk_element :: "lartifact list \<Rightarrow> domain_disk \<Rightarrow> xml result" where
  "disk_element artifacts d =
     (case artifact_for artifacts (dd_target d) of None \<Rightarrow> Inl KeyError
      | Some a \<Rightarrow> Inr (Xml ''disk'' [(''name'', dd_target d), (''backup'', ''yes''), (''type'', ''file'')] []
          [Xml ''target'' [(''file'', la_object_id a)] [] [],
           Xml ''driver'' [(''type'', case la_format a of None \<Rightarrow> ''qcow2'' | Some f \<Rightarrow> if f = [] then ''qcow2'' else f)]
             [] []]))"

definition build_backup_xml :: "domain_disk list \<Rightarrow> lartifact list \<Rightarrow> string option \<Rightarrow> xml result" where
  "build_backup_xml disks artifacts base =
     bnd (map_result (disk_element artifacts) (sort_key dd_target (filter dd_supported disks))) (\<lambda>ds.
     Inr (Xml ''domainbackup'' [(''mode'', ''push'')] []
       ((case base of None \<Rightarrow> [] | Some b \<Rightarrow> [Xml ''incremental'' [] b []]) @ [Xml ''disks'' [] [] ds])))"

definition build_checkpoint_xml :: "string \<Rightarrow> domain_disk list \<Rightarrow> xml result" where
  "build_checkpoint_xml run_id disks =
     bnd (checkpoint_name run_id) (\<lambda>name.
     Inr (Xml ''domaincheckpoint'' [] []
       [Xml ''name'' [] name [], Xml ''description'' [] (''vmbackupd restore point for run '' @ run_id) [],
        Xml ''disks'' [] [] (map (\<lambda>d. Xml ''disk'' [(''name'', dd_target d), (''checkpoint'', ''bitmap'')] [] [])
          (sort_key dd_target (filter dd_supported disks)))]))"

section \<open>Preflight\<close>

definition disk_issues :: "domain_disk list \<Rightarrow> string list" where
  "disk_issues disks =
     (if list_ex dd_supported disks then [] else [''NO_SUPPORTED_DISKS'']) @
     map (\<lambda>_. ''UNSUPPORTED_DISK_SOURCE'') (filter (\<lambda>d. \<not> dd_supported d) disks)"

definition job_issues :: "inspection \<Rightarrow> string list" where
  "job_issues v =
     (case fst v of Job_NONE \<Rightarrow> [] | Job_BACKUP \<Rightarrow> [''ACTIVE_BACKUP''] | Job_OTHER \<Rightarrow> [''ACTIVE_DOMAIN_JOB'']
      | Job_UNKNOWN \<Rightarrow> [''JOB_INSPECTION_FAILED''])"

definition format_issues :: "string \<Rightarrow> domain_disk list \<Rightarrow> string list" where
  "format_issues code disks = map (\<lambda>_. code) (filter (\<lambda>d. dd_supported d \<and> dd_source_format d \<noteq> Some ''qcow2'') disks)"

definition checkpoint_issues :: "string option \<Rightarrow> string list \<Rightarrow> string list \<Rightarrow> domain_disk list \<Rightarrow> string list" where
  "checkpoint_issues create snapshots checkpoints disks =
     (case create of None \<Rightarrow> []
      | Some name \<Rightarrow>
          if name = [] then []
          else (if snapshots \<noteq> [] then [''SNAPSHOT_CONFLICT''] else []) @
               (if name \<in> set checkpoints then [''CHECKPOINT_NAME_CONFLICT''] else []) @
               format_issues ''CHECKPOINT_DISK_FORMAT_UNSUPPORTED'' disks)"

definition incremental_issues :: "backup_kind option \<Rightarrow> string option \<Rightarrow> string list \<Rightarrow> domain_disk list \<Rightarrow> string list" where
  "incremental_issues planned base checkpoints disks =
     (if planned \<noteq> Some INCREMENTAL then []
      else format_issues ''INCREMENTAL_FORMAT_UNSUPPORTED'' disks @
        (case base of
           None \<Rightarrow> [''INCREMENTAL_CHECKPOINT_MISSING'']
         | Some b \<Rightarrow> if b = [] \<or> b \<notin> set checkpoints then [''INCREMENTAL_CHECKPOINT_MISSING''] else []))"

definition artifact_issues :: "domain_disk list \<Rightarrow> lartifact list \<Rightarrow> string list" where
  "artifact_issues disks artifacts =
     map (\<lambda>_. ''ARTIFACT_MAPPING_MISSING'')
       (filter (\<lambda>d. dd_supported d \<and> Some (dd_target d) \<notin> la_target ` set (filter (\<lambda>a. la_kind a = DISK) artifacts)) disks) @
     (if distinct (map la_object_id artifacts) then [] else [''DUPLICATE_DESTINATION''])"

text \<open>The commands after the identity check; an exception in one of them ends the preflight.\<close>

definition preflight_facts ::
  "lenv \<Rightarrow> lconf \<Rightarrow> string \<Rightarrow> (string list \<times> string list \<times> inspection) lop" where
  "preflight_facts env cf name =
     andthen (checkpoint_names env cf name) (\<lambda>checkpoints.
     andthen (snapshot_names env cf name) (\<lambda>snapshots.
     andthen (inspect_domain_backup env cf name) (\<lambda>v.
     ret (checkpoints, snapshots, v))))"

definition preflight ::
  "lenv \<Rightarrow> lconf \<Rightarrow> string \<Rightarrow> backup_kind option \<Rightarrow> domain_disk list \<Rightarrow> lartifact list \<Rightarrow> string option \<Rightarrow> string option \<Rightarrow>
   string \<Rightarrow> string list lop" where
  "preflight env cf name planned disks artifacts create base expected =
     andthen (attempt (domain_uuid env cf name)) (\<lambda>actual. case actual of
       Inl _ \<Rightarrow> ret [''DOMAIN_NOT_FOUND'']
     | Inr uuid \<Rightarrow>
         let changed = (if uuid \<noteq> expected then [''DOMAIN_UUID_CHANGED''] else []) in
         andthen (attempt (domain_state env cf name)) (\<lambda>state. case state of
           Inl _ \<Rightarrow> ret (changed @ [''INSPECTION_FAILED''])
         | Inr state \<Rightarrow>
         let running = (if state = ''running'' then [] else [''DOMAIN_NOT_RUNNING'']) in
         andthen (attempt (preflight_facts env cf name)) (\<lambda>facts. case facts of
           Inl _ \<Rightarrow> ret (changed @ running @ [''INSPECTION_FAILED''])
         | Inr (checkpoints, snapshots, v) \<Rightarrow>
             ret (changed @ running @ disk_issues disks @ job_issues v @
               checkpoint_issues create snapshots checkpoints disks @
               incremental_issues planned base checkpoints disks @ artifact_issues disks artifacts))))"

section \<open>The mutation driver\<close>

definition answer_text :: "string \<Rightarrow> string \<Rightarrow> string" where
  "answer_text out err = lower (join_with (char_of (10 :: nat)) (filter (\<lambda>s. s \<noteq> []) [out, err]))"

definition manage_auth_failure :: "string \<Rightarrow> string \<Rightarrow> bool" where
  "manage_auth_failure out err \<longleftrightarrow>
     (let t = answer_text out err in
      list_ex (\<lambda>w. has_text w t) [''authentication unavailable'', ''authentication failed'',
        ''authorization failed'', ''not authorized''] \<and>
      list_ex (\<lambda>w. has_text w t) [''org.libvirt.unix.manage'', ''polkit''])"

definition start_rejection :: "string \<Rightarrow> string \<Rightarrow> bool" where
  "start_rejection out err \<longleftrightarrow>
     (let t = answer_text out err in
      has_text ''blockdev-add'' t \<and> has_text ''could not open'' t \<and> has_text ''permission denied'' t)"

definition require_success :: "answer \<Rightarrow> unit lop" where
  "require_success = (\<lambda>(code, out, err).
     if code = 0 then ret ()
     else if manage_auth_failure out err then safety ''libvirt management authorization failed''
     else command_error)"

definition require_manage_access :: "lenv \<Rightarrow> lconf \<Rightarrow> unit lop" where
  "require_manage_access env cf =
     andthen (run_program env [''virsh'', ''--connect'', lc_uri cf, ''uri'']) require_success"

definition backup_begin_argv :: "lconf \<Rightarrow> string \<Rightarrow> string \<Rightarrow> string option \<Rightarrow> string list" where
  "backup_begin_argv cf domain backup checkpoint =
     [''virsh'', ''--connect'', lc_uri cf, ''backup-begin'', domain, backup] @
     (case checkpoint of None \<Rightarrow> [] | Some p \<Rightarrow> [p]) @ [''--reuse-external'']"

definition begin_backup :: "lenv \<Rightarrow> lconf \<Rightarrow> string \<Rightarrow> string \<Rightarrow> string option \<Rightarrow> unit lop" where
  "begin_backup env cf domain backup checkpoint =
     andthen (run_program env (backup_begin_argv cf domain backup checkpoint)) (\<lambda>(code, out, err).
     if code \<noteq> 0 \<and> start_rejection out err then safety ''libvirt backup start was rejected before execution''
     else require_success (code, out, err))"

end
