(* ===== verification/LocalCatalog.thy ===== *)
theory LocalCatalog
  imports LocalHost
begin

text \<open>
  The catalogue of local backups (\<open>repository_v2.py\<close>) and the deletion of one of them
  (\<open>backup_catalog_v2.py\<close>): the latest point of a job, its lineage down to a FULL, the points
  reclaimed oldest first, and the chain below a FULL, newest first.

  What \<open>json_extract\<close> gives for an array or object is the value itself, for a boolean 0 or 1;
  a parent that is a number names no point.
\<close>

section \<open>Values in queries\<close>

fun extracted :: "json \<Rightarrow> json" where
  "extracted (JBool b) = JInt (if b then 1 else 0)"
| "extracted v = v"

definition queried :: "point_row \<Rightarrow> string \<Rightarrow> json" where
  "queried p k = extracted (dget_or (pr_metadata p) k JNull)"

text \<open>\<open>a = b\<close> in SQL: nothing equals NULL, numbers compare by value.\<close>

fun sql_number :: "json \<Rightarrow> rat option" where
  "sql_number (JInt i) = Some (of_int i)"
| "sql_number (JFloat r) = Some r"
| "sql_number _ = None"

definition sql_eq :: "json \<Rightarrow> json \<Rightarrow> bool" where
  "sql_eq a b \<longleftrightarrow> a \<noteq> JNull \<and> b \<noteq> JNull \<and>
     (case (sql_number a, sql_number b) of (Some x, Some y) \<Rightarrow> x = y | (None, None) \<Rightarrow> a = b | _ \<Rightarrow> False)"

text \<open>\<open>CAST(v AS INTEGER)\<close>: the longest prefix of a text that is an integer.\<close>

definition text_integer :: "string \<Rightarrow> int" where
  "text_integer s =
     (let t = dropWhile is_space s;
          u = (case t of [] \<Rightarrow> [] | c # cs \<Rightarrow> if c = CHR ''-'' \<or> c = CHR ''+'' then cs else t);
          n = digits_value (takeWhile is_decimal u)
      in if prefix ''-'' t then - n else n)"

fun sql_integer :: "json \<Rightarrow> int" where
  "sql_integer (JInt i) = i"
| "sql_integer (JFloat r) = trunc r"
| "sql_integer (JStr s) = text_integer s"
| "sql_integer _ = 0"

text \<open>The truth value of a value that came from a query.\<close>

definition present :: "json \<Rightarrow> bool" where
  "present v = (case v of JList _ \<Rightarrow> True | JObj _ \<Rightarrow> True | _ \<Rightarrow> truthy v)"

section \<open>Points of a job\<close>

definition local_to :: "db \<Rightarrow> string \<Rightarrow> string \<Rightarrow> point_row \<Rightarrow> bool" where
  "local_to d job storage p \<longleftrightarrow>
     (case run_row_of d p of None \<Rightarrow> False | Some r \<Rightarrow> rr_job_id r = job \<and> rr_storage_id r = storage) \<and>
     pr_status p = ''AVAILABLE''"

definition age :: "point_row \<Rightarrow> string \<times> string" where
  "age p = (pr_created_at p, pr_id p)"

definition available_point :: "db \<Rightarrow> string \<Rightarrow> point_row option" where
  "available_point d i = find (\<lambda>p. pr_id p = i \<and> pr_status p = ''AVAILABLE'') (db_points d)"

record lineage =
  ln_chain_id :: json
  ln_sequence :: int
  ln_base :: string

text \<open>The walk along parent links; \<open>seen\<close> are the points it has met.\<close>

function walk_lineage :: "text_env \<Rightarrow> db \<Rightarrow> string list \<Rightarrow> int \<Rightarrow> string \<Rightarrow> lineage option result" where
  "walk_lineage te d seen depth i =
     (if i = [] \<or> i \<in> set seen then Inr None
      else case available_point d i of None \<Rightarrow> Inr None
      | Some p \<Rightarrow>
          bnd (compact_point te p) (\<lambda>point.
          if po_kind point = FULL
          then Inr (Some \<lparr>ln_chain_id = po_chain_id point, ln_sequence = depth, ln_base = po_id point\<rparr>)
          else if \<not> truthy (po_parent point) then Inr None
          else if unhashable (po_parent point) then Inl TypeError
          else walk_lineage te d (i # seen) (depth + 1) (enum_text (po_parent point))))"
  by pat_completeness auto
termination
proof (relation "measure (\<lambda>(te, d, seen, depth, i). card (set (map pr_id (db_points d)) - set seen))", simp)
  fix te :: text_env and d :: db and seen :: "string list" and depth :: int and i :: string
  fix p :: point_row and point :: rpoint
  assume new: "\<not> (i = [] \<or> i \<in> set seen)" and "available_point d i = Some p"
  then have "i \<in> set (map pr_id (db_points d))"
    unfolding available_point_def by (auto dest!: find_SomeD)
  with new have "set (map pr_id (db_points d)) - set (i # seen) \<subset> set (map pr_id (db_points d)) - set seen" by auto
  then show "((te, d, i # seen, depth + 1, enum_text (po_parent point)), te, d, seen, depth, i)
      \<in> measure (\<lambda>(te, d, seen, depth, i). card (set (map pr_id (db_points d)) - set seen))"
    by (simp add: psubset_card_mono)
qed

declare walk_lineage.simps [simp del]

definition resolve_lineage :: "text_env \<Rightarrow> db \<Rightarrow> string \<Rightarrow> lineage option result" where
  "resolve_lineage te d i = walk_lineage te d [] 0 i"

text \<open>The newest point of the job; the true chain and sequence of an incremental come from its lineage.\<close>

definition newest_point :: "db \<Rightarrow> string \<Rightarrow> string \<Rightarrow> point_row option" where
  "newest_point d job storage =
     (let ps = sort_key_desc age (filter (local_to d job storage) (db_points d))
      in if ps = [] then None else Some (hd ps))"

definition latest_local_point :: "text_env \<Rightarrow> db \<Rightarrow> string \<Rightarrow> string \<Rightarrow> rpoint option result" where
  "latest_local_point te d job storage =
     (case newest_point d job storage of None \<Rightarrow> Inr None
      | Some p \<Rightarrow>
          bnd (compact_point te p) (\<lambda>point.
          if po_kind point = FULL then Inr (Some point)
          else bnd (resolve_lineage te d (po_id point)) (\<lambda>found. Inr (Some (case found of
            None \<Rightarrow> point
          | Some l \<Rightarrow> point\<lparr>po_chain_id := ln_chain_id l, po_sequence := ln_sequence l\<rparr>)))))"

definition fulls_for_reclaim :: "db \<Rightarrow> string \<Rightarrow> string \<Rightarrow> point_row list" where
  "fulls_for_reclaim d job storage =
     sort_key age (filter (\<lambda>p. local_to d job storage p \<and> pr_kind p = ''FULL'') (db_points d))"

section \<open>The chain below a FULL\<close>

definition grow_chain :: "db \<Rightarrow> string \<Rightarrow> string \<Rightarrow> string list \<Rightarrow> string list" where
  "grow_chain d job storage ids =
     ids @ filter (\<lambda>i. i \<notin> set ids) (map pr_id (filter (\<lambda>p. local_to d job storage p \<and>
       (case queried p ''parent_restore_point_id'' of JStr i \<Rightarrow> i \<in> set ids | _ \<Rightarrow> False)) (db_points d)))"

definition chain_ids :: "db \<Rightarrow> string \<Rightarrow> string \<Rightarrow> string \<Rightarrow> string list" where
  "chain_ids d job storage full = (grow_chain d job storage ^^ length (db_points d)) [full]"

definition chain_rank :: "string \<Rightarrow> point_row \<Rightarrow> int" where
  "chain_rank full p = (if pr_id p = full then - 1
     else let v = queried p ''sequence'' in if v = JNull then 0 else sql_integer v)"

definition check_sequence :: "point_row \<Rightarrow> point_row result" where
  "check_sequence p = (let v = queried p ''sequence'' in
     if v = JNull then Inr p
     else bnd (case v of JList _ \<Rightarrow> Inl (ValueError ''invalid literal'') | JObj _ \<Rightarrow> Inl (ValueError ''invalid literal'')
       | _ \<Rightarrow> py_int v) (\<lambda>_. Inr p))"

definition points_of_full_chain :: "db \<Rightarrow> string \<Rightarrow> string \<Rightarrow> string \<Rightarrow> json \<Rightarrow> point_row list result" where
  "points_of_full_chain d job storage full chain =
     (let ids = chain_ids d job storage full;
          rows = filter (\<lambda>p. local_to d job storage p \<and>
            (pr_id p \<in> set ids \<or> sql_eq (queried p ''chain_id'') chain)) (db_points d)
      in bnd (map_result check_sequence (sort_key_desc (\<lambda>p. (chain_rank full p, pr_created_at p)) rows)) (\<lambda>ps.
         Inr (sort_key (\<lambda>p. pr_id p = full) ps)))"

section \<open>Deleting a backup\<close>

definition catalog_refuse :: "string \<Rightarrow> 'a lop" where
  "catalog_refuse code = raise (BackupCatalogError code)"

record delete_candidate =
  dc_id :: string
  dc_run_id :: string
  dc_job_id :: string
  dc_storage_id :: string
  dc_node_id :: string
  dc_status :: string
  dc_run_state :: string
  dc_bundle :: json

definition delete_candidate_of :: "db \<Rightarrow> string \<Rightarrow> delete_candidate option" where
  "delete_candidate_of d i =
     (case point_by_id d i of None \<Rightarrow> None
      | Some p \<Rightarrow>
          (case run_row_of d p of None \<Rightarrow> None
           | Some r \<Rightarrow>
               (case vm_of_run d (rr_id r) of None \<Rightarrow> None
                | Some v \<Rightarrow> Some
                    \<lparr>dc_id = i, dc_run_id = pr_run_id p, dc_job_id = rr_job_id r, dc_storage_id = rr_storage_id r,
                     dc_node_id = vr_node_id v, dc_status = pr_status p, dc_run_state = rr_state r,
                     dc_bundle = dget_or (pr_metadata p) ''bundle_object_id'' JNull\<rparr>)))"

text \<open>\<open>Path(v).resolve()\<close>.\<close>

definition resolve_path :: "lenv \<Rightarrow> json \<Rightarrow> string lop" where
  "resolve_path env v =
     (case v of
        JStr s \<Rightarrow> reading (\<lambda>w. case le_resolve env (lw_fs w) s of None \<Rightarrow> raise OSError | Some p \<Rightarrow> ret p)
      | _ \<Rightarrow> raise TypeError)"

definition strictly_inside :: "string \<Rightarrow> string \<Rightarrow> bool" where
  "strictly_inside p base \<longleftrightarrow> strict_prefix (path_parts base) (path_parts p)"

definition validated_bundle_path :: "lenv \<Rightarrow> storage \<Rightarrow> json \<Rightarrow> string lop" where
  "validated_bundle_path env s bundle_id =
     (if \<not> truthy bundle_id then catalog_refuse ''BACKUP_PATH_MISSING''
      else
        andthen (resolve_path env (storage_value s ''backup_data_root'')) (\<lambda>base.
        andthen (resolve_path env bundle_id) (\<lambda>target.
        if \<not> strictly_inside target base then catalog_refuse ''BACKUP_PATH_OUTSIDE_DESTINATION'' else ret target)))"

text \<open>\<open>merge_run_context\<close> and \<open>transition_run\<close>.\<close>

definition stamp_now :: "lenv \<Rightarrow> string lop" where
  "stamp_now env = ticking (\<lambda>n. te_iso (le_text env) (le_time env n))"

definition merge_run_context :: "lenv \<Rightarrow> string \<Rightarrow> dict \<Rightarrow> dict lop" where
  "merge_run_context env run_id values =
     andthen (from_db (\<lambda>d. run_context d run_id)) (\<lambda>c.
     let c' = foldl (\<lambda>c (k, v). dset c k v) c values in
     andthen (stamp_now env) (\<lambda>stamp.
     andthen (in_db (set_context run_id c' stamp)) (\<lambda>_. ret c')))"

definition transition_run :: "lenv \<Rightarrow> string \<Rightarrow> string \<Rightarrow> string option \<Rightarrow> run lop" where
  "transition_run env run_id state err =
     andthen (from_db (\<lambda>d. get_run (le_text env) d run_id)) (\<lambda>_.
     andthen (from_db (\<lambda>d. run_context d run_id)) (\<lambda>c.
     andthen (stamp_now env) (\<lambda>stamp.
     andthen (in_db (update (\<lambda>d. d\<lparr>db_runs := map (\<lambda>r. if rr_id r = run_id
       then r\<lparr>rr_state := state, rr_context := (case err of None \<Rightarrow> c | Some e \<Rightarrow> dset c ''error'' (JStr e)),
              rr_updated_at := stamp\<rparr> else r) (db_runs d)\<rparr>))) (\<lambda>_.
     from_db (\<lambda>d. get_run (le_text env) d run_id)))))"

text \<open>Whatever goes wrong while remote deletions are queued is noted in the run, if that works.\<close>

definition queue_remote_deletes :: "lenv \<Rightarrow> delete_candidate \<Rightarrow> unit lop" where
  "queue_remote_deletes env c =
     andthen (stamp_now env) (\<lambda>stamp.
     andthen (attempt (in_db (enqueue_replica_deletes (dc_id c) stamp))) (\<lambda>r. case r of
       Inr _ \<Rightarrow> ret ()
     | Inl e \<Rightarrow>
         andthen (attempt (merge_run_context env (dc_run_id c)
           [(''replica_delete_enqueue_error'', JStr (le_error_text env e))])) (\<lambda>_. ret ())))"

definition remove_file :: "lenv \<Rightarrow> string \<Rightarrow> unit lop" where
  "remove_file env p = andthen (syscall env) (\<lambda>_. change_files (\<lambda>fs. fs(p := None)))"

definition remove_folder_tree :: "lenv \<Rightarrow> string \<Rightarrow> unit lop" where
  "remove_folder_tree env p = reading (\<lambda>w. each (remove_file env) (le_tree env (lw_fs w) p @ [p]))"

definition remove_bundle :: "lenv \<Rightarrow> string \<Rightarrow> unit lop" where
  "remove_bundle env target = reading (\<lambda>w.
     case lw_fs w target of
       None \<Rightarrow> ret ()
     | Some n \<Rightarrow> if n \<noteq> DirNode then catalog_refuse ''BACKUP_BUNDLE_NOT_DIRECTORY'' else remove_folder_tree env target)"

definition delete_restore_point :: "lenv \<Rightarrow> string \<Rightarrow> string option \<Rightarrow> string lop" where
  "delete_restore_point env point_id expected_job = reading (\<lambda>w.
     case delete_candidate_of (lw_db w) point_id of
       None \<Rightarrow> catalog_refuse ''RESTORE_POINT_NOT_FOUND''
     | Some c \<Rightarrow>
         if expected_job \<noteq> None \<and> expected_job \<noteq> Some (dc_job_id c) then catalog_refuse ''RESTORE_POINT_JOB_MISMATCH''
         else if dc_status c \<noteq> ''AVAILABLE'' then catalog_refuse ''RESTORE_POINT_NOT_AVAILABLE''
         else if dc_run_state c \<noteq> ''SUCCESS'' then catalog_refuse ''BACKUP_RUN_NOT_SUCCESS''
         else
           andthen (from_db (\<lambda>d. get_storage_destination d (dc_node_id c) (dc_storage_id c))) (\<lambda>s.
           if st_type s \<noteq> LOCAL then catalog_refuse ''BACKUP_DELETE_STORAGE_UNSUPPORTED''
           else
             andthen (validated_bundle_path env s (dc_bundle c)) (\<lambda>target.
             andthen (queue_remote_deletes env c) (\<lambda>_.
             andthen (remove_bundle env target) (\<lambda>_.
             andthen (in_db (delete_restore_point_catalog (dc_id c) (dc_run_id c))) (\<lambda>removed.
             if removed then ret target else catalog_refuse ''RESTORE_POINT_DELETE_CONFLICT''))))))"

end
