(* ===== verification/LocalBackup.thy ===== *)
theory LocalBackup
  imports Libvirt LocalCatalog TransferProtocol
begin

text \<open>
  The executor of local backups (\<open>local_backup_v2.py\<close>) with the publication of its bundle
  (\<open>BundlePublisher\<close> of \<open>bundle.py\<close>): a run is prepared and started, polled, verified and
  published, one durable step per call of \<open>advance_run\<close>; retention and reclaim for space delete old chains.
  A checkpoint name that is no text, and a lineage with one, is refused when the run is planned.
\<close>

section \<open>Deleting old chains\<close>

definition delete_chain :: "lenv \<Rightarrow> string \<Rightarrow> string \<Rightarrow> point_row \<Rightarrow> unit lop" where
  "delete_chain env job storage p =
     (let chain = queried p ''chain_id'' in
      if \<not> present chain then andthen (delete_restore_point env (pr_id p) None) (\<lambda>_. ret ())
      else
        andthen (from_db (\<lambda>d. points_of_full_chain d job storage (pr_id p) chain)) (\<lambda>ps.
        each (\<lambda>q. andthen (delete_restore_point env (pr_id q) None) (\<lambda>_. ret ())) ps))"

fun reclaim_loop :: "lenv \<Rightarrow> lconf \<Rightarrow> string \<Rightarrow> string \<Rightarrow> int \<Rightarrow> int \<Rightarrow> int \<Rightarrow> point_row list \<Rightarrow> int lop" where
  "reclaim_loop env cf job storage required reserve free [] = ret free"
| "reclaim_loop env cf job storage required reserve free (p # ps) =
     andthen (delete_chain env job storage p) (\<lambda>_.
     andthen (free_space env cf) (\<lambda>(free', _).
     if free' - required \<ge> reserve then ret free'
     else reclaim_loop env cf job storage required reserve free' ps))"

definition reclaim_for_space :: "lenv \<Rightarrow> lconf \<Rightarrow> job \<Rightarrow> string \<Rightarrow> int \<Rightarrow> int \<Rightarrow> int \<Rightarrow> int lop" where
  "reclaim_for_space env cf j storage free required reserve =
     (if free - required \<ge> reserve then ret free
      else if reclaim_mode (jb_retention j) \<noteq> SPACE_OPTIMIZED then ret free
      else reading (\<lambda>w.
        let candidates = fulls_for_reclaim (lw_db w) (jb_id j) storage;
            deletable = max 0 (int (length candidates) - minimum_full_chains (jb_retention j))
        in reclaim_loop env cf (jb_id j) storage required reserve free (slice_to deletable candidates)))"

definition enforce_full_retention :: "lenv \<Rightarrow> job \<Rightarrow> string \<Rightarrow> unit lop" where
  "enforce_full_retention env j storage = reading (\<lambda>w.
     let candidates = fulls_for_reclaim (lw_db w) (jb_id j) storage;
         keep = max (minimum_full_chains (jb_retention j)) (full_chains_to_retain (jb_retention j));
         surplus = max 0 (int (length candidates) - keep)
     in each (delete_chain env (jb_id j) storage) (slice_to surplus candidates))"

section \<open>Planning a run\<close>

definition run_identity :: "lenv \<Rightarrow> run \<Rightarrow> (job \<times> vm_row \<times> storage) lop" where
  "run_identity env r =
     andthen (from_db (\<lambda>d. get_job (le_text env) d (ru_job_id r))) (\<lambda>j.
     andthen (from_db (\<lambda>d. vm_by_id d (jb_vm_id j))) (\<lambda>v.
     andthen (from_db (\<lambda>d. get_storage_destination d (vr_node_id v) (ru_storage_id r))) (\<lambda>s.
     if st_type s \<noteq> LOCAL then safety ''LOCAL executor requires LOCAL storage''
     else case vr_domain_uuid v of
       None \<Rightarrow> safety ''registered VM has no libvirt UUID''
     | Some u \<Rightarrow> if u = [] then safety ''registered VM has no libvirt UUID'' else ret (j, v, s))))"

definition upper_text :: "lenv \<Rightarrow> json \<Rightarrow> string" where
  "upper_text env v = map upper_char (case v of JStr s \<Rightarrow> s | _ \<Rightarrow> le_str env v)"

record backup_plan =
  pl_kind :: backup_kind
  pl_chain_id :: json
  pl_sequence :: int
  pl_parent_id :: "string option"
  pl_base :: "string option"

text \<open>No incremental can be made: none are wanted, none can be linked to a FULL, or the chain is full.\<close>

definition needs_full :: "int \<Rightarrow> rpoint option \<Rightarrow> lineage option \<Rightarrow> bool" where
  "needs_full max_inc parent found \<longleftrightarrow>
     max_inc \<le> 0 \<or> parent = None \<or> found = None \<or> (case parent of None \<Rightarrow> True | Some p \<Rightarrow> po_sequence p \<ge> max_inc)"

definition refuse_incremental :: "int \<Rightarrow> rpoint option \<Rightarrow> lineage option \<Rightarrow> unit result" where
  "refuse_incremental max_inc parent found =
     (if max_inc \<le> 0 then Inl (LibvirtExecutionSafetyError ''INCREMENTAL_DISABLED'')
      else case parent of None \<Rightarrow> Inl (LibvirtExecutionSafetyError ''INCREMENTAL_BASE_NOT_AVAILABLE'')
      | Some p \<Rightarrow>
          if found = None then Inl (LibvirtExecutionSafetyError ''INCREMENTAL_BASE_NOT_AVAILABLE'')
          else if po_sequence p \<ge> max_inc then Inl (LibvirtExecutionSafetyError ''INCREMENTAL_CHAIN_LIMIT_REACHED'')
          else Inr ())"

definition plan_full :: "string \<Rightarrow> backup_plan" where
  "plan_full run_id = \<lparr>pl_kind = FULL, pl_chain_id = JStr run_id, pl_sequence = 0, pl_parent_id = None, pl_base = None\<rparr>"

definition plan_incremental :: "rpoint \<Rightarrow> backup_plan result" where
  "plan_incremental p =
     (if \<not> truthy (po_checkpoint p) then Inl (LibvirtExecutionSafetyError ''INCREMENTAL_CHECKPOINT_MISSING'')
      else case po_checkpoint p of
        JStr base \<Rightarrow> Inr \<lparr>pl_kind = INCREMENTAL, pl_chain_id = po_chain_id p, pl_sequence = po_sequence p + 1,
          pl_parent_id = Some (po_id p), pl_base = Some base\<rparr>
      | _ \<Rightarrow> Inl TypeError)"

definition plan_kind ::
  "string \<Rightarrow> int \<Rightarrow> string \<Rightarrow> string \<Rightarrow> rpoint option \<Rightarrow> lineage option \<Rightarrow> backup_plan result" where
  "plan_kind run_id max_inc requested source parent found =
     (if requested \<notin> {''AUTO'', ''FULL'', ''INCREMENTAL''} then Inl (LibvirtExecutionSafetyError ''INVALID_BACKUP_KIND'')
      else if requested = ''INCREMENTAL'' \<and> source = ''SCHEDULE'' \<and> needs_full max_inc parent found
      then Inr (plan_full run_id)
      else
        bnd (if requested = ''INCREMENTAL'' then refuse_incremental max_inc parent found else Inr ()) (\<lambda>_.
        if requested = ''FULL'' \<or> requested \<noteq> ''INCREMENTAL'' \<and> needs_full max_inc parent found
        then Inr (plan_full run_id)
        else case parent of None \<Rightarrow> Inl OtherException | Some p \<Rightarrow> plan_incremental p))"

definition planned_backup :: "lenv \<Rightarrow> run \<Rightarrow> job \<Rightarrow> storage \<Rightarrow> (backup_plan \<times> dict) lop" where
  "planned_backup env r j s =
     andthen (from_db (\<lambda>d. latest_local_point (le_text env) d (jb_id j) (st_id s))) (\<lambda>parent.
     andthen (case parent of None \<Rightarrow> ret None
       | Some p \<Rightarrow> from_db (\<lambda>d. resolve_lineage (le_text env) d (po_id p))) (\<lambda>found.
     andthen (from_db (\<lambda>d. run_context d (ru_id r))) (\<lambda>c.
     andthen (lift (plan_kind (ru_id r) (jb_max_incrementals j)
         (upper_text env (dget_or c ''requested_backup_kind'' (JStr ''AUTO'')))
         (upper_text env (dget_or c ''requested_backup_kind_source'' (JStr ''AUTO''))) parent found)) (\<lambda>p.
     ret (p, c)))))"

section \<open>Artifacts\<close>

definition path_join :: "string \<Rightarrow> string \<Rightarrow> string" where
  "path_join p q = (if prefix ''/'' q then path_str q else path_str (joined p q))"

definition new_artifact :: "lenv \<Rightarrow> artifact_kind \<Rightarrow> string \<Rightarrow> string option \<Rightarrow> lartifact lop" where
  "new_artifact env kind object_id target =
     andthen (ticking (le_uuid env)) (\<lambda>i.
     andthen (ticking (le_time env)) (\<lambda>stamp.
     ret \<lparr>la_id = i, la_kind = kind, la_object_id = object_id, la_target = target,
          la_format = (if kind = DISK then Some ''qcow2'' else None), la_created_at = stamp\<rparr>))"

fun disk_artifacts :: "lenv \<Rightarrow> string \<Rightarrow> domain_disk list \<Rightarrow> lartifact list lop" where
  "disk_artifacts env folder [] = ret []"
| "disk_artifacts env folder (d # ds) =
     andthen (new_artifact env DISK (path_join folder (dd_target d @ ''.qcow2'')) (Some (dd_target d))) (\<lambda>a.
     andthen (disk_artifacts env folder ds) (\<lambda>as. ret (a # as)))"

definition run_artifacts :: "lenv \<Rightarrow> lconf \<Rightarrow> string \<Rightarrow> domain_disk list \<Rightarrow> (lartifact list \<times> lartifact \<times> lartifact) lop" where
  "run_artifacts env cf run_id disks =
     andthen (data_disks_directory cf run_id) (\<lambda>folder.
     andthen (disk_artifacts env folder (filter dd_supported disks)) (\<lambda>ds.
     andthen (run_directory cf run_id) (\<lambda>control.
     andthen (new_artifact env DOMAIN_XML (joined control ''domain.xml'') None) (\<lambda>x.
     andthen (new_artifact env MANIFEST (joined control ''manifest.json'') None) (\<lambda>m.
     ret (ds, x, m))))))"

text \<open>\<open>_artifact_metadata\<close> of a new artifact, updated with what preparing its image found.\<close>

fun kind_text :: "artifact_kind \<Rightarrow> string" where
  "kind_text DISK = ''DISK''" | "kind_text DOMAIN_XML = ''DOMAIN_XML''" | "kind_text MANIFEST = ''MANIFEST''"

definition new_artifact_metadata :: "lartifact \<Rightarrow> (int \<times> identity) option \<Rightarrow> dict" where
  "new_artifact_metadata a prepared =
     (let m = [(''object_id'', JStr (la_object_id a)), (''published_object_id'', JNull), (''state'', JStr ''PLANNED''),
          (''disk_target'', opt_json (la_target a)), (''format'', opt_json (la_format a)), (''size_bytes'', JNull),
          (''planned_capacity'', JNull), (''prepared_device'', JNull), (''prepared_inode'', JNull), (''verified_at'', JNull)]
      in case prepared of None \<Rightarrow> m
         | Some (capacity, device, inode) \<Rightarrow> dset (dset (dset m ''planned_capacity'' (JInt capacity))
             ''prepared_device'' (JInt device)) ''prepared_inode'' (JInt inode))"

definition insert_artifact :: "lenv \<Rightarrow> string \<Rightarrow> (string \<Rightarrow> (int \<times> identity) option) \<Rightarrow> lartifact \<Rightarrow> unit dbop" where
  "insert_artifact env run_id prepared a = reading (\<lambda>d.
     if la_id a \<in> set (map ar_id (db_artifacts d)) \<or> run_id \<notin> set (map rr_id (db_runs d)) then raise OtherException
     else update (\<lambda>d. d\<lparr>db_artifacts := db_artifacts d @
       [\<lparr>ar_id = la_id a, ar_run_id = run_id, ar_kind = kind_text (la_kind a),
         ar_metadata = new_artifact_metadata a (prepared (la_id a)),
         ar_created_at = te_iso (le_text env) (la_created_at a)\<rparr>]\<rparr>))"

definition create_local_backup_artifacts ::
  "lenv \<Rightarrow> string \<Rightarrow> (string \<Rightarrow> (int \<times> identity) option) \<Rightarrow> lartifact list \<Rightarrow> unit lop" where
  "create_local_backup_artifacts env run_id prepared artifacts =
     in_db (atomically (each (insert_artifact env run_id prepared) artifacts))"

section \<open>Space\<close>

definition estimated_bytes :: "rat \<Rightarrow> block_info \<Rightarrow> int" where
  "estimated_bytes margin b =
     (let allocated = (case find (\<lambda>v. case v of None \<Rightarrow> False | Some n \<Rightarrow> n > 0) [bi_allocation b, bi_physical b] of
          Some (Some n) \<Rightarrow> n | _ \<Rightarrow> bi_capacity b)
      in \<lceil>fl (fl (of_int allocated) * fl (1 + fl (margin / 100)))\<rceil>)"

fun disk_sizes :: "lenv \<Rightarrow> lconf \<Rightarrow> string \<Rightarrow> domain_disk list \<Rightarrow> (string \<times> block_info) list lop" where
  "disk_sizes env cf name [] = ret []"
| "disk_sizes env cf name (d # ds) =
     (if \<not> dd_supported d then disk_sizes env cf name ds
      else
        andthen (domain_block_info env cf name (dd_target d)) (\<lambda>b.
        andthen (disk_sizes env cf name ds) (\<lambda>bs. ret ((dd_target d, b) # bs))))"

definition capacity_of :: "(string \<times> block_info) list \<Rightarrow> string \<Rightarrow> int result" where
  "capacity_of sizes target =
     (case map_of (rev sizes) target of None \<Rightarrow> Inl KeyError | Some b \<Rightarrow> Inr (bi_capacity b))"

definition reserve_of :: "lenv \<Rightarrow> storage \<Rightarrow> int \<Rightarrow> int result" where
  "reserve_of env s total_bytes =
     bnd (py_int (storage_value s ''minimum_free_bytes'')) (\<lambda>bytes.
     bnd (py_float (le_text env) (storage_value s ''minimum_free_percent'')) (\<lambda>percent.
     Inr (max bytes (trunc (fl (fl (fl (of_int total_bytes) * percent) / 100))))))"

text \<open>The free space left for the backup after reclaiming, or an exception.\<close>

definition make_room :: "lenv \<Rightarrow> lconf \<Rightarrow> job \<Rightarrow> storage \<Rightarrow> int \<Rightarrow> (int \<times> int) lop" where
  "make_room env cf j s required =
     andthen (free_space env cf) (\<lambda>(free, total_bytes).
     andthen (lift (reserve_of env s total_bytes)) (\<lambda>reserve.
     andthen (reclaim_for_space env cf j (st_id s) free required reserve) (\<lambda>free'.
     if free' - required < reserve then safety ''INSUFFICIENT_STORAGE_CAPACITY'' else ret (free', reserve))))"

section \<open>Preparing and starting\<close>

definition prepare_outputs ::
  "lenv \<Rightarrow> lconf \<Rightarrow> string \<Rightarrow> (string \<times> block_info) list \<Rightarrow> lartifact list \<Rightarrow> (string \<times> int \<times> identity) list lop" where
  "prepare_outputs env cf run_id sizes artifacts =
     foldr (\<lambda>a rest.
       andthen (lift (capacity_of sizes (case la_target a of None \<Rightarrow> [] | Some t \<Rightarrow> t))) (\<lambda>capacity.
       andthen (prepare_output env cf run_id a capacity) (\<lambda>i.
       andthen rest (\<lambda>found. ret ((la_id a, capacity, i) # found)))))
     artifacts (ret [])"

definition execution_context ::
  "string \<Rightarrow> string \<Rightarrow> string \<Rightarrow> string option \<Rightarrow> string option \<Rightarrow> string option \<Rightarrow> json \<Rightarrow> int \<Rightarrow> int \<Rightarrow> int \<Rightarrow> dict" where
  "execution_context uuid name backup checkpoint create base dest_root free reserve required =
     [(''phase'', JStr ''START_REQUESTED''), (''domain_uuid'', JStr uuid), (''domain_external_id'', JStr name),
      (''backup_xml'', JStr backup), (''checkpoint_xml'', opt_json checkpoint),
      (''checkpoint_name'', opt_json create), (''incremental_base'', opt_json base),
      (''destination_root'', dest_root), (''free_bytes_before'', JInt free), (''reserve_bytes'', JInt reserve),
      (''required_bytes'', JInt required)]"

fun kind_value :: "backup_kind \<Rightarrow> string" where
  "kind_value FULL = ''FULL''" | "kind_value INCREMENTAL = ''INCREMENTAL''"

definition start_context :: "backup_plan \<Rightarrow> dict \<Rightarrow> dict" where
  "start_context p execution =
     [(''planned_kind'', JStr (kind_value (pl_kind p))), (''planned_chain_id'', pl_chain_id p),
      (''planned_sequence'', JInt (pl_sequence p)), (''parent_restore_point_id'', opt_json (pl_parent_id p)),
      (''local_execution'', JObj execution)]"

definition set_phase :: "lenv \<Rightarrow> string \<Rightarrow> string \<Rightarrow> unit lop" where
  "set_phase env run_id phase =
     andthen (from_db (\<lambda>d. run_context d run_id)) (\<lambda>c.
     andthen (lift (dindex c ''local_execution'')) (\<lambda>v. case v of
       JObj x \<Rightarrow> andthen (merge_run_context env run_id [(''local_execution'', JObj (dset x ''phase'' (JStr phase)))]) (\<lambda>_. ret ())
     | _ \<Rightarrow> raise TypeError))"

text \<open>The documents written for libvirt: the domain, the backup and, if one is made, the checkpoint.\<close>

definition write_documents ::
  "lenv \<Rightarrow> lconf \<Rightarrow> string \<Rightarrow> domain_disk list \<Rightarrow> lartifact list \<Rightarrow> lartifact \<Rightarrow> string \<Rightarrow> string option \<Rightarrow> string option \<Rightarrow>
   (string \<times> string \<times> (string \<times> string) option) lop" where
  "write_documents env cf run_id disks artifacts domain_artifact domain_text base create =
     andthen (staged_write env cf run_id (la_object_id domain_artifact) domain_text) (\<lambda>_.
     andthen (lift (build_backup_xml disks artifacts base)) (\<lambda>x.
     let backup = le_xml_text env x in
     andthen (backup_xml_path cf run_id) (\<lambda>backup_path.
     andthen (staged_write env cf run_id backup_path backup) (\<lambda>_.
     andthen (run_directory cf run_id) (\<lambda>control.
     let checkpoint_path = joined control ''checkpoint.xml'' in
     case create of None \<Rightarrow> ret (backup, backup_path, None)
     | Some _ \<Rightarrow>
         andthen (lift (build_checkpoint_xml run_id disks)) (\<lambda>c.
         andthen (staged_write env cf run_id checkpoint_path (le_xml_text env c)) (\<lambda>_.
         ret (backup, backup_path, Some (le_xml_text env c, checkpoint_path)))))))))"

text \<open>A start that raises is recorded before the exception goes on.\<close>

definition request_start :: "lenv \<Rightarrow> lconf \<Rightarrow> string \<Rightarrow> string \<Rightarrow> string \<Rightarrow> string option \<Rightarrow> run lop" where
  "request_start env cf run_id uuid backup_path checkpoint_path =
     andthen (attempt (begin_backup env cf uuid backup_path checkpoint_path)) (\<lambda>r. case r of
       Inl e \<Rightarrow> andthen (set_phase env run_id ''START_REJECTED'') (\<lambda>_. raise e)
     | Inr _ \<Rightarrow>
         andthen (set_phase env run_id ''RUNNING'') (\<lambda>_.
         transition_run env run_id ''BACKING_UP'' None))"

definition stage_and_start ::
  "lenv \<Rightarrow> lconf \<Rightarrow> run \<Rightarrow> storage \<Rightarrow> backup_plan \<Rightarrow> string \<Rightarrow> string \<Rightarrow> string \<Rightarrow> domain_disk list \<Rightarrow>
   lartifact list \<Rightarrow> lartifact \<Rightarrow> lartifact \<Rightarrow> string option \<Rightarrow> (string \<times> block_info) list \<Rightarrow> int \<Rightarrow> int \<Rightarrow> int \<Rightarrow> run lop" where
  "stage_and_start env cf r s p name uuid domain_text disks ds x m create sizes free reserve required =
     andthen (require_manage_access env cf) (\<lambda>_.
     andthen (prepare_new_run env cf (ru_id r) (ds @ [x, m])) (\<lambda>_.
     andthen (prepare_outputs env cf (ru_id r) sizes ds) (\<lambda>prepared.
     andthen (write_documents env cf (ru_id r) disks (ds @ [x, m]) x domain_text (pl_base p) create)
       (\<lambda>(backup, backup_path, checkpoint).
     andthen (create_local_backup_artifacts env (ru_id r) (map_of prepared) (ds @ [x, m])) (\<lambda>_.
     andthen (merge_run_context env (ru_id r) (start_context p
       (execution_context uuid name backup (map_option fst checkpoint) create (pl_base p)
         (storage_value s ''backup_data_root'') free reserve required))) (\<lambda>_.
     request_start env cf (ru_id r) uuid backup_path (map_option snd checkpoint)))))))"

definition prepare_and_start :: "lenv \<Rightarrow> lconf \<Rightarrow> run \<Rightarrow> run lop" where
  "prepare_and_start env cf r =
     andthen (run_identity env r) (\<lambda>(j, v, s).
     andthen (planned_backup env r j s) (\<lambda>(p, c).
     if truthy (dget_or c ''local_execution'' JNull) then safety ''LOCAL_BACKUP_PREPARATION_INTERRUPTED''
     else if \<not> lc_allow_mutation cf then safety ''libvirt mutation opt-in is disabled''
     else
       let name = (case vr_external_id v of None \<Rightarrow> ''None'' | Some n \<Rightarrow> n) in
       andthen (domain_xml env cf name) (\<lambda>domain_text.
       andthen (domain_uuid env cf name) (\<lambda>uuid.
       if Some uuid \<noteq> vr_domain_uuid v then safety ''libvirt domain UUID changed''
       else
         andthen (lift (parse_domain_disks env domain_text)) (\<lambda>disks.
         andthen (run_artifacts env cf (ru_id r) disks) (\<lambda>(ds, x, m).
         andthen (if jb_max_incrementals j > 0
           then andthen (lift (checkpoint_name (ru_id r))) (\<lambda>n. ret (Some n)) else ret None) (\<lambda>create.
         andthen (preflight env cf name (ru_planned_kind r) disks (ds @ [x, m]) create (pl_base p) uuid) (\<lambda>issues.
         if issues \<noteq> [] then safety (concat issues)
         else
           andthen (disk_sizes env cf name disks) (\<lambda>sizes.
           let required = sum_list (map (\<lambda>(_, b). estimated_bytes (backup_size_margin_percent (jb_retention j)) b) sizes) in
           andthen (make_room env cf j s required) (\<lambda>(free, reserve).
           stage_and_start env cf r s p name uuid domain_text disks ds x m create sizes free reserve required))))))))))"

section \<open>Polling\<close>

definition poll_run :: "lenv \<Rightarrow> lconf \<Rightarrow> run \<Rightarrow> run lop" where
  "poll_run env cf r =
     andthen (from_db (\<lambda>d. run_context d (ru_id r))) (\<lambda>c.
     andthen (lift (dindex c ''local_execution'')) (\<lambda>v. case v of
       JObj x \<Rightarrow>
         andthen (lift (dindex x ''domain_uuid'')) (\<lambda>u.
         let name = (case u of JStr n \<Rightarrow> n | _ \<Rightarrow> le_str env u) in
         andthen (inspect_backup env cf name) (\<lambda>(state, active).
         if state = Job_BACKUP \<and> active \<noteq> None \<and> active \<noteq> Some [] then
           andthen (lift (case active of None \<Rightarrow> Inl TypeError | Some t \<Rightarrow> parse_backup_identity env t)) (\<lambda>now_running.
           andthen (lift (dindex x ''backup_xml'')) (\<lambda>t.
           andthen (lift (case t of JStr t \<Rightarrow> parse_backup_identity env t | _ \<Rightarrow> Inl TypeError)) (\<lambda>requested.
           if now_running \<noteq> requested then safety ''active libvirt backup identity mismatch'' else ret r)))
         else if state \<noteq> Job_NONE then safety ''unexpected libvirt job state''
         else
           andthen (inspect_completed_job env cf name) (\<lambda>done_job.
           if cj_available done_job = Some True \<and> cj_type done_job = Type_COMPLETED \<and>
              cj_operation done_job = Op_BACKUP \<and> cj_success done_job = Some True
           then transition_run env (ru_id r) ''VERIFYING'' None
           else safety ''libvirt backup has no successful completion evidence'')))
     | _ \<Rightarrow> raise TypeError))"

section \<open>Publishing\<close>

definition bundle_uuid :: "string \<Rightarrow> string result" where
  "bundle_uuid s =
     (if safe_component s \<and> uuid_form (lower s) then Inr (lower s) else Inl (ValueError ''unsafe component''))"

definition final_bundle_path :: "lenv \<Rightarrow> lconf \<Rightarrow> string \<Rightarrow> string \<Rightarrow> string \<Rightarrow> string result" where
  "final_bundle_path env cf machine run_id created =
     bnd (bundle_uuid machine) (\<lambda>vm.
     bnd (bundle_uuid run_id) (\<lambda>run.
     Inr (joined (joined (joined (joined (joined (lc_data_root cf) ''vms'') vm) (le_year env created))
       (le_month env created)) (le_stamp env created @ CHR ''_'' # run))))"

definition publication_error :: "'a lop" where
  "publication_error = raise (RuntimeError ''bundle publication failed'')"

definition bundle_write :: "lenv \<Rightarrow> string \<Rightarrow> string \<Rightarrow> unit lop" where
  "bundle_write env p data = reading (\<lambda>w.
     if exists_at p (lw_fs w) then publication_error
     else
       andthen (syscall env) (\<lambda>_. andthen (syscall env) (\<lambda>_. andthen (syscall env) (\<lambda>_.
       andthen (syscall env) (\<lambda>_.
       andthen (ticking (le_identity env)) (\<lambda>i. change_files (\<lambda>fs. fs(p \<mapsto> FileNode i data))))))))"

definition read_bytes :: "lenv \<Rightarrow> string \<Rightarrow> string lop" where
  "read_bytes env p = andthen (lstat_at env p) (\<lambda>n. case n of FileNode _ data \<Rightarrow> ret data | _ \<Rightarrow> raise OSError)"

text \<open>\<open>_open_final_parent\<close>: each folder is opened, or made and opened; nothing else is followed.\<close>

definition open_or_make :: "lenv \<Rightarrow> string \<Rightarrow> unit lop" where
  "open_or_make env p = reading (\<lambda>w.
     case lw_fs w p of
       None \<Rightarrow> andthen (attempt (andthen (syscall env) (\<lambda>_.
           andthen (change_files (\<lambda>fs. fs(p \<mapsto> DirNode))) (\<lambda>_. andthen (syscall env) (\<lambda>_. syscall env))))) (\<lambda>r.
           if isl r then publication_error else ret ())
     | Some n \<Rightarrow> if n \<noteq> DirNode then publication_error
         else andthen (attempt (syscall env)) (\<lambda>r. if isl r then publication_error else ret ()))"

definition open_final_parent :: "lenv \<Rightarrow> lconf \<Rightarrow> string \<Rightarrow> unit lop" where
  "open_final_parent env cf final = reading (\<lambda>w.
     if lw_fs w (lc_data_root cf) \<noteq> Some DirNode then publication_error
     else each (open_or_make env)
       (filter (\<lambda>q. inside_root q (lc_data_root cf) \<and> q \<noteq> lc_data_root cf) (path_chain (path_parent final))))"

definition disk_relative :: "string \<Rightarrow> string result" where
  "disk_relative target =
     (if safe_component target then Inr (''disks/'' @ target @ ''.qcow2'') else Inl (ValueError ''unsafe disk target''))"

fun published_disks :: "lenv \<Rightarrow> string \<Rightarrow> (string \<times> json \<times> json) list \<Rightarrow> (string \<times> string) list lop" where
  "published_disks env final [] = ret []"
| "published_disks env final ((target, device, inode) # ds) =
     andthen (lift (disk_relative target)) (\<lambda>q.
     andthen (lstat_at env (joined final q)) (\<lambda>n. case n of
       FileNode (dev, ino) _ \<Rightarrow>
         (if (JInt dev, JInt ino) \<noteq> (device, inode) then publication_error
          else andthen (published_disks env final ds) (\<lambda>ps. ret ((target, joined final q) # ps)))
     | _ \<Rightarrow> publication_error))"

definition rename_to_final :: "lenv \<Rightarrow> string \<Rightarrow> string \<Rightarrow> unit lop" where
  "rename_to_final env incoming final = reading (\<lambda>w.
     if lw_fs w final \<noteq> None then publication_error
     else if \<not> le_one_device env then publication_error
     else
       andthen (syscall env) (\<lambda>_.
       andthen (change_files (moved_tree incoming final)) (\<lambda>_.
       andthen (syscall env) (\<lambda>_. syscall env))))"

definition publish_bundle ::
  "lenv \<Rightarrow> lconf \<Rightarrow> string \<Rightarrow> string \<Rightarrow> string \<Rightarrow> string \<Rightarrow> string \<Rightarrow> string \<Rightarrow> (string \<times> json \<times> json) list \<Rightarrow>
   (string \<times> (string \<times> string) list) lop" where
  "publish_bundle env cf run_id machine created domain_path manifest restore_point disks =
     andthen (lift (bundle_uuid run_id)) (\<lambda>run.
     let incoming = data_run_path cf run in
     andthen (lift (final_bundle_path env cf machine run_id created)) (\<lambda>final. reading (\<lambda>w.
     if \<not> symlink_free (lw_fs w) (lc_data_root cf) \<or> \<not> symlink_free (lw_fs w) incoming then publication_error
     else if lw_fs w incoming \<noteq> Some DirNode \<or> lw_fs w final \<noteq> None then publication_error
     else
       let metadata = joined incoming ''metadata'' in
       andthen (make_dir env metadata) (\<lambda>_.
       andthen (read_bytes env domain_path) (\<lambda>domain_text.
       andthen (bundle_write env (joined metadata ''domain.xml'') domain_text) (\<lambda>_.
       andthen (bundle_write env (joined metadata ''manifest.json'') manifest) (\<lambda>_.
       andthen (bundle_write env (joined metadata ''restore-point.json'') restore_point) (\<lambda>_.
       andthen (syscall env) (\<lambda>_.
       andthen (open_final_parent env cf final) (\<lambda>_.
       andthen (attempt (syscall env)) (\<lambda>opened.
       if isl opened then publication_error else
       andthen (rename_to_final env incoming final) (\<lambda>_.
       andthen (published_disks env final disks) (\<lambda>paths. ret (final, paths))))))))))))))"

section \<open>Verifying\<close>

type_synonym stored_artifact = "string \<times> artifact_kind \<times> dict"

definition local_artifacts :: "lenv \<Rightarrow> db \<Rightarrow> string \<Rightarrow> stored_artifact list result" where
  "local_artifacts env d run_id =
     map_result (\<lambda>a. bnd (artifact_fields (le_text env) a) (\<lambda>m. bnd (artifact_kind_of (ar_kind a)) (\<lambda>k. Inr (ar_id a, k, m))))
       (sort_key (\<lambda>a. (ar_created_at a, ar_id a)) (filter (\<lambda>a. ar_run_id a = run_id) (db_artifacts d)))"

definition text_value :: "json \<Rightarrow> string result" where
  "text_value v = (case v of JStr s \<Rightarrow> Inr s | _ \<Rightarrow> Inl TypeError)"

definition verify_disk :: "lenv \<Rightarrow> dict \<Rightarrow> (dict \<times> string \<times> json \<times> json) lop" where
  "verify_disk env m =
     andthen (lift (text_value (dget_or m ''object_id'' JNull))) (\<lambda>p.
     andthen (lstat_at env p) (\<lambda>n. case n of
       FileNode (dev, ino) data \<Rightarrow>
         if (JInt dev, JInt ino) \<noteq> (dget_or m ''prepared_device'' JNull, dget_or m ''prepared_inode'' JNull)
         then safety ''prepared disk identity changed''
         else
           andthen (inspect_image env p) (\<lambda>(format, size).
           if format \<noteq> ''qcow2'' \<or> \<not> py_eq_int (dget_or m ''planned_capacity'' JNull) size
           then safety ''backup image verification failed''
           else
             andthen (lift (text_value (dget_or m ''disk_target'' JNull))) (\<lambda>target.
             andthen (lift (disk_relative target)) (\<lambda>q.
             ret ([(''target'', JStr target), (''relative_path'', JStr q), (''format'', JStr format),
                   (''virtual_size'', JInt size), (''size_bytes'', JInt (int (length data)))],
                  target, JInt dev, JInt ino))))
     | _ \<Rightarrow> safety ''prepared disk identity changed''))"

fun verify_disks :: "lenv \<Rightarrow> stored_artifact list \<Rightarrow> (dict \<times> string \<times> json \<times> json) list lop" where
  "verify_disks env [] = ret []"
| "verify_disks env ((i, kind, m) # as) =
     (if kind \<noteq> DISK then verify_disks env as
      else andthen (verify_disk env m) (\<lambda>v. andthen (verify_disks env as) (\<lambda>vs. ret (v # vs))))"

definition first_of :: "artifact_kind \<Rightarrow> stored_artifact list \<Rightarrow> dict result" where
  "first_of kind as = (case find (\<lambda>(_, k, _). k = kind) as of None \<Rightarrow> Inl OtherException | Some (_, _, m) \<Rightarrow> Inr m)"

definition run_manifest :: "run \<Rightarrow> job \<Rightarrow> vm_row \<Rightarrow> storage \<Rightarrow> dict \<Rightarrow> dict list \<Rightarrow> dict result" where
  "run_manifest r j v s c disks =
     bnd (bnd (dindex c ''planned_kind'') backup_kind_of) (\<lambda>kind.
     bnd (dindex c ''planned_chain_id'') (\<lambda>chain.
     bnd (bnd (dindex c ''planned_sequence'') py_int) (\<lambda>sequence.
     bnd (dindex c ''local_execution'') (\<lambda>x.
     bnd (case x of JObj x \<Rightarrow> dindex x ''checkpoint_name'' | _ \<Rightarrow> Inl TypeError) (\<lambda>checkpoint.
     Inr [(''format_version'', JInt 1), (''run_id'', JStr (ru_id r)), (''job_id'', JStr (jb_id j)),
          (''vm_id'', JStr (vr_id v)), (''storage_destination_id'', JStr (st_id s)),
          (''backup_kind'', JStr (kind_value kind)), (''chain_id'', chain), (''sequence'', JInt sequence),
          (''parent_restore_point_id'', dget_or c ''parent_restore_point_id'' JNull),
          (''libvirt_checkpoint_name'', checkpoint), (''libvirt_domain_uuid'', opt_json (vr_domain_uuid v)),
          (''disks'', JList (map JObj disks))])))))"

definition encoded :: "lenv \<Rightarrow> dict \<Rightarrow> string" where
  "encoded env v = le_dumps env (JObj v) @ [char_of (10 :: nat)]"

text \<open>Where each artifact was published; an artifact of a disk without a published file raises.\<close>

definition published_path_of :: "string \<Rightarrow> (string \<times> string) list \<Rightarrow> stored_artifact \<Rightarrow> (string \<times> string) result" where
  "published_path_of final paths = (\<lambda>(i, kind, m).
     case kind of
       DISK \<Rightarrow> bnd (text_value (dget_or m ''disk_target'' JNull)) (\<lambda>t.
         (case map_of (rev paths) t of None \<Rightarrow> Inl KeyError | Some p \<Rightarrow> Inr (i, p)))
     | DOMAIN_XML \<Rightarrow> Inr (i, joined final ''metadata/domain.xml'')
     | MANIFEST \<Rightarrow> Inr (i, joined final ''metadata/manifest.json''))"

definition size_at :: "lw \<Rightarrow> string \<Rightarrow> int result" where
  "size_at w p = (case lw_fs w p of Some (FileNode _ data) \<Rightarrow> Inr (int (length data)) | _ \<Rightarrow> Inl OSError)"

definition finalize_run :: "lenv \<Rightarrow> string \<Rightarrow> string \<Rightarrow> string \<Rightarrow> dict \<Rightarrow> (string \<times> string) list \<Rightarrow> run lop" where
  "finalize_run env run_id point_id final restore_metadata published =
     andthen (stamp_now env) (\<lambda>stamp. reading (\<lambda>w.
     in_db (finalize_local_backup (le_text env) (\<lambda>i. le_uuid env (lw_tick w)) (size_at w) stamp run_id point_id final
       restore_metadata (map_of published))))"

definition verify_and_publish :: "lenv \<Rightarrow> lconf \<Rightarrow> run \<Rightarrow> run lop" where
  "verify_and_publish env cf r =
     andthen (run_identity env r) (\<lambda>(j, v, s).
     andthen (from_db (\<lambda>d. local_artifacts env d (ru_id r))) (\<lambda>as.
     andthen (verify_disks env as) (\<lambda>found.
     andthen (from_db (\<lambda>d. run_context d (ru_id r))) (\<lambda>c.
     andthen (lift (run_manifest r j v s c (map fst found))) (\<lambda>manifest.
     andthen (lift (bnd (first_of MANIFEST as) (\<lambda>m. text_value (dget_or m ''object_id'' JNull)))) (\<lambda>manifest_path.
     andthen (staged_write env cf (ru_id r) manifest_path (encoded env manifest)) (\<lambda>_.
     andthen (lift (bnd (first_of DOMAIN_XML as) (\<lambda>m. text_value (dget_or m ''object_id'' JNull)))) (\<lambda>domain_path.
     andthen (ticking (le_uuid env)) (\<lambda>point_id.
     let restore_metadata = manifest @ [(''id'', JStr point_id), (''job_run_id'', JStr (ru_id r)), (''status'', JStr ''AVAILABLE'')] in
     andthen (transition_run env (ru_id r) ''FINALIZING'' None) (\<lambda>_.
     andthen (publish_bundle env cf (ru_id r) (vr_id v) (ru_created_at r) domain_path (encoded env manifest)
       (encoded env restore_metadata) (map snd found)) (\<lambda>(final, paths).
     andthen (lift (map_result (published_path_of final paths) as)) (\<lambda>published.
     andthen (finalize_run env (ru_id r) point_id final restore_metadata published) (\<lambda>_.
     andthen (if dget c ''planned_kind'' = Some (JStr ''FULL'') then enforce_full_retention env j (st_id s) else ret ()) (\<lambda>_.
     from_db (\<lambda>d. get_run (le_text env) d (ru_id r))))))))))))))))"

section \<open>One durable step\<close>

definition advance_run :: "lenv \<Rightarrow> lconf \<Rightarrow> string \<Rightarrow> run lop" where
  "advance_run env cf run_id =
     andthen (from_db (\<lambda>d. get_run (le_text env) d run_id)) (\<lambda>r. case ru_state r of
       Run_SCHEDULED \<Rightarrow> transition_run env run_id ''PREPARING'' None
     | Run_PREPARING \<Rightarrow> prepare_and_start env cf r
     | Run_BACKING_UP \<Rightarrow> poll_run env cf r
     | Run_VERIFYING \<Rightarrow> verify_and_publish env cf r
     | Run_FINALIZING \<Rightarrow> safety ''LOCAL_BACKUP_FINALIZATION_INTERRUPTED''
     | _ \<Rightarrow> ret r)"

end
