(* ===== verification/LocalProps.thy ===== *)
theory LocalProps
  imports LocalBackup
begin

text \<open>
  Properties of local backups: what a planned backup is based on and what a deletion removes.
\<close>

section \<open>What a backup is based on\<close>

definition names_parent :: "point_row \<Rightarrow> point_row \<Rightarrow> bool" where
  "names_parent p q \<longleftrightarrow> dget_or (pr_metadata p) ''parent_restore_point_id'' JNull = JStr (pr_id q)"

definition chain_of_point :: "point_row \<Rightarrow> json" where
  "chain_of_point p = dget_or (pr_metadata p) ''chain_id'' (JStr (pr_run_id p))"

text \<open>A path of available points along parent links, the incrementals first and a FULL at the end.\<close>

definition lineage_path :: "db \<Rightarrow> point_row list \<Rightarrow> bool" where
  "lineage_path d ps \<longleftrightarrow> ps \<noteq> [] \<and> distinct (map pr_id ps) \<and> successively names_parent ps \<and>
     (\<forall>p \<in> set ps. p \<in> set (db_points d) \<and> pr_status p = ''AVAILABLE'') \<and>
     (\<forall>p \<in> set (butlast ps). pr_kind p = ''INCREMENTAL'') \<and> pr_kind (last ps) = ''FULL''"

lemma available_pointD: "available_point d i = Some p \<Longrightarrow> p \<in> set (db_points d) \<and> pr_id p = i \<and> pr_status p = ''AVAILABLE''"
  unfolding available_point_def by (auto dest!: find_SomeD)

lemma compact_pointD:
  assumes "compact_point te p = Inr point"
  shows "po_id point = pr_id p" "po_chain_id point = chain_of_point p"
    "po_parent point = dget_or (pr_metadata p) ''parent_restore_point_id'' JNull"
    "po_checkpoint point = dget_or (pr_metadata p) ''libvirt_checkpoint_name'' JNull"
    "py_int (dget_or (pr_metadata p) ''sequence'' (JInt 0)) = Inr (po_sequence point)"
    "po_kind point = FULL \<longleftrightarrow> pr_kind p = ''FULL''" "po_kind point \<noteq> FULL \<longleftrightarrow> pr_kind p = ''INCREMENTAL''"
  using assms
  by (auto simp: compact_point_def Let_def bnd_eq_Inr chain_of_point_def backup_kind_of_def split: if_splits)

lemma walk_lineage_path:
  "walk_lineage te d seen depth i = Inr (Some l) \<Longrightarrow>
     \<exists>ps. lineage_path d ps \<and> pr_id (hd ps) = i \<and> set (map pr_id ps) \<inter> set seen = {} \<and>
       ln_sequence l = depth + int (length ps) - 1 \<and> ln_base l = pr_id (last ps) \<and>
       ln_chain_id l = chain_of_point (last ps)"
proof (induction te d seen depth i rule: walk_lineage.induct)
  case (1 te d seen depth i)
  from "1.prems" have i: "i \<noteq> []" "i \<notin> set seen" by (auto simp: walk_lineage.simps [of te d seen] split: if_splits)
  with "1.prems" obtain p where p: "available_point d i = Some p"
    by (auto simp: walk_lineage.simps [of te d seen] split: option.splits)
  with "1.prems" i obtain point where point: "compact_point te p = Inr point"
    by (auto simp: walk_lineage.simps [of te d seen] bnd_eq_Inr)
  note facts = available_pointD [OF p] compact_pointD [OF point]
  show ?case
  proof (cases "po_kind point = FULL")
    case True
    with "1.prems" i p point have "l = \<lparr>ln_chain_id = po_chain_id point, ln_sequence = depth, ln_base = po_id point\<rparr>"
      by (simp add: walk_lineage.simps [of te d seen])
    with facts True i show ?thesis by (intro exI [of _ "[p]"]) (auto simp: lineage_path_def)
  next
    case False
    let ?next = "enum_text (po_parent point)"
    from "1.prems" i p point False have rec: "walk_lineage te d (i # seen) (depth + 1) ?next = Inr (Some l)"
      and up: "truthy (po_parent point)" "\<not> unhashable (po_parent point)"
      by (auto simp: walk_lineage.simps [of te d seen] split: if_splits)
    from "1.IH" [OF _ p point False _ _ rec] i up obtain ps where ps: "lineage_path d ps" "pr_id (hd ps) = ?next"
      "set (map pr_id ps) \<inter> set (i # seen) = {}" "ln_sequence l = depth + 1 + int (length ps) - 1"
      "ln_base l = pr_id (last ps)" "ln_chain_id l = chain_of_point (last ps)" by auto
    have "?next \<noteq> []" using rec by (auto simp: walk_lineage.simps [of te d "i # seen"])
    then have "po_parent point = JStr ?next" by (auto simp: enum_text_def split: json.splits)
    with facts ps(2) have link: "names_parent p (hd ps)" by (simp add: names_parent_def)
    have ne: "ps \<noteq> []" using ps(1) by (simp add: lineage_path_def)
    with link ps(1) have "successively names_parent (p # ps)" by (cases ps) (auto simp: lineage_path_def)
    with ps ne facts False i have "lineage_path d (p # ps)" by (auto simp: lineage_path_def)
    with ps ne facts i show ?thesis by (intro exI [of _ "p # ps"]) auto
  qed
qed

lemma lineage_path_end: "lineage_path d [p] \<longleftrightarrow> p \<in> set (db_points d) \<and> pr_status p = ''AVAILABLE'' \<and> pr_kind p = ''FULL''"
  by (auto simp: lineage_path_def)

lemma newest_pointD:
  assumes "newest_point d job storage = Some p"
  shows "p \<in> set (db_points d)" "local_to d job storage p"
    "\<forall>q \<in> set (db_points d). local_to d job storage q \<longrightarrow> age q \<le> age p"
proof -
  let ?ps = "filter (local_to d job storage) (db_points d)"
  let ?l = "sort_key_desc age ?ps"
  from assms have ne: "?l \<noteq> []" and p: "p = hd ?l" by (auto simp: newest_point_def Let_def split: if_splits)
  then have "p \<in> set ?l" by (metis hd_in_set)
  then show "p \<in> set (db_points d)" "local_to d job storage p" by simp_all
  have "age q \<le> age p" if "q \<in> set ?ps" for q
  proof (cases "q = p")
    case False
    have "sorted_wrt (\<ge>) (map age ?l)" using sorted_sort_key_desc [of age ?ps] by (simp add: sorted_wrt_rev)
    moreover from that False ne p have "q \<in> set (tl ?l)"
      by (metis hd_Cons_tl set_ConsD set_sort_key_desc)
    ultimately show ?thesis using ne p by (cases ?l) auto
  qed simp
  then show "\<forall>q \<in> set (db_points d). local_to d job storage q \<longrightarrow> age q \<le> age p" by simp
qed

text \<open>A FULL is stored with sequence 0.\<close>

definition fulls_start :: "db \<Rightarrow> bool" where
  "fulls_start d \<longleftrightarrow> (\<forall>p \<in> set (db_points d). pr_kind p = ''FULL'' \<longrightarrow> dget_or (pr_metadata p) ''sequence'' (JInt 0) = JInt 0)"

lemma from_db_Inr: "from_db q w = (Inr x, w') \<longleftrightarrow> q (lw_db w) = Inr x \<and> w' = w"
  by (auto simp: from_db_def op_defs)

lemma latest_with_lineage:
  assumes start: "fulls_start d" and latest: "latest_local_point te d job storage = Inr (Some point)"
    and found: "resolve_lineage te d (po_id point) = Inr (Some l)" and keyed: "points_keyed d"
  shows "\<exists>ps. lineage_path d ps \<and> pr_id (hd ps) = po_id point \<and> local_to d job storage (hd ps) \<and>
    (\<forall>q \<in> set (db_points d). local_to d job storage q \<longrightarrow> age q \<le> age (hd ps)) \<and>
    po_sequence point = int (length ps) - 1 \<and> po_chain_id point = chain_of_point (last ps) \<and>
    po_checkpoint point = dget_or (pr_metadata (hd ps)) ''libvirt_checkpoint_name'' JNull"
proof -
  from latest obtain p where p: "newest_point d job storage = Some p"
    by (auto simp: latest_local_point_def split: option.splits)
  with latest obtain c where c: "compact_point te p = Inr c"
    and point: "point = c \<and> po_kind c = FULL \<or> po_kind c \<noteq> FULL \<and> (\<exists>f. resolve_lineage te d (po_id c) = Inr f \<and>
      point = (case f of None \<Rightarrow> c | Some l \<Rightarrow> c\<lparr>po_chain_id := ln_chain_id l, po_sequence := ln_sequence l\<rparr>))"
    by (auto simp: latest_local_point_def bnd_eq_Inr split: if_splits)
  have "po_id point = po_id c" using point by (auto split: option.splits)
  with found have f: "resolve_lineage te d (po_id c) = Inr (Some l)" by simp
  from walk_lineage_path [OF this [unfolded resolve_lineage_def]] obtain ps where
    ps: "lineage_path d ps" "pr_id (hd ps) = po_id c" "ln_sequence l = int (length ps) - 1"
      "ln_chain_id l = chain_of_point (last ps)" by auto
  note cp = compact_pointD [OF c] and np = newest_pointD [OF p]
  from ps(1) have "hd ps \<in> set (db_points d)" by (auto simp: lineage_path_def)
  with keyed np(1) ps(2) cp(1) have hd: "hd ps = p"
    by (metis inj_onD distinct_map points_keyed_def)
  have "po_sequence point = int (length ps) - 1 \<and> po_chain_id point = chain_of_point (last ps)"
  proof (cases "po_kind c = FULL")
    case True
    with cp hd have "pr_kind (hd ps) = ''FULL''" by simp
    with ps(1) have "ps = [hd ps]" by (cases ps) (auto simp: lineage_path_def split: if_splits)
    with hd have "ps = [p]" by simp
    moreover from True cp start np(1) have "po_sequence c = 0" by (auto simp: fulls_start_def)
    ultimately show ?thesis using True point cp by simp
  qed (use point f ps in auto)
  moreover have "po_checkpoint point = po_checkpoint c" using point by (auto split: option.splits)
  ultimately show ?thesis using ps hd np cp \<open>po_id point = po_id c\<close> by (intro exI [of _ ps]) simp
qed

lemma plan_kind_cases:
  assumes "plan_kind run_id max_inc requested source parent found = Inr p"
  shows "p = plan_full run_id \<or> (\<exists>point l b. parent = Some point \<and> found = Some l \<and> po_sequence point < max_inc \<and>
    po_checkpoint point = JStr b \<and> b \<noteq> [] \<and> requested \<noteq> ''FULL'' \<and>
    p = \<lparr>pl_kind = INCREMENTAL, pl_chain_id = po_chain_id point, pl_sequence = po_sequence point + 1,
         pl_parent_id = Some (po_id point), pl_base = Some b\<rparr>)"
proof (rule disjCI)
  assume other: "\<not> (\<exists>point l b. parent = Some point \<and> found = Some l \<and> po_sequence point < max_inc \<and>
    po_checkpoint point = JStr b \<and> b \<noteq> [] \<and> requested \<noteq> ''FULL'' \<and>
    p = \<lparr>pl_kind = INCREMENTAL, pl_chain_id = po_chain_id point, pl_sequence = po_sequence point + 1,
         pl_parent_id = Some (po_id point), pl_base = Some b\<rparr>)"
  show "p = plan_full run_id"
  proof (rule ccontr)
    assume no: "p \<noteq> plan_full run_id"
    with assms have inc: "requested = ''INCREMENTAL'' \<longrightarrow> refuse_incremental max_inc parent found = Inr ()"
      and req: "requested \<noteq> ''FULL''" "requested \<noteq> ''INCREMENTAL'' \<longrightarrow> \<not> needs_full max_inc parent found"
      by (auto simp: plan_kind_def bnd_eq_Inr split: if_splits)
    then have "\<not> needs_full max_inc parent found"
      by (auto simp: needs_full_def refuse_incremental_def split: if_splits option.splits)
    then obtain point l where pt: "parent = Some point" "found = Some l" "po_sequence point < max_inc"
      by (auto simp: needs_full_def split: option.splits)
    with assms no req inc have "plan_incremental point = Inr p"
      by (auto simp: plan_kind_def bnd_eq_Inr split: if_splits)
    with pt req other show False
      by (cases "po_checkpoint point") (auto simp: plan_incremental_def split: if_splits)
  qed
qed

text \<open>C38: a run is planned either as a FULL that starts a chain of its own, or as an incremental on the
  newest available point of the job, from which parent links lead through available incrementals to a FULL:
  its sequence is its distance from that FULL and at most the limit of the job, its chain is the chain of
  that FULL, and its base is the checkpoint of the parent.\<close>

theorem planned_backup_linked:
  assumes "planned_backup env r j s w = (Inr (p, c), w')" and "points_keyed (lw_db w)" and "fulls_start (lw_db w)"
  shows "w' = w \<and> (p = plan_full (ru_id r) \<or>
    (\<exists>ps b. lineage_path (lw_db w) ps \<and> local_to (lw_db w) (jb_id j) (st_id s) (hd ps) \<and>
      (\<forall>q \<in> set (db_points (lw_db w)). local_to (lw_db w) (jb_id j) (st_id s) q \<longrightarrow> age q \<le> age (hd ps)) \<and>
      dget_or (pr_metadata (hd ps)) ''libvirt_checkpoint_name'' JNull = JStr b \<and>
      p = \<lparr>pl_kind = INCREMENTAL, pl_chain_id = chain_of_point (last ps), pl_sequence = int (length ps),
           pl_parent_id = Some (pr_id (hd ps)), pl_base = Some b\<rparr> \<and>
      int (length ps) \<le> jb_max_incrementals j))"
proof -
  let ?d = "lw_db w"
  from assms(1) obtain parent found where
    parent: "latest_local_point (le_text env) ?d (jb_id j) (st_id s) = Inr parent" and
    found: "\<And>q. parent = Some q \<Longrightarrow> resolve_lineage (le_text env) ?d (po_id q) = Inr found" and
    kind: "plan_kind (ru_id r) (jb_max_incrementals j)
         (upper_text env (dget_or c ''requested_backup_kind'' (JStr ''AUTO'')))
         (upper_text env (dget_or c ''requested_backup_kind_source'' (JStr ''AUTO''))) parent found = Inr p" and
    w': "w' = w"
    unfolding planned_backup_def andthen_Inr op_Inr from_db_Inr
    by (elim exE conjE, rename_tac parent w1 found w2 c' w3 p' w4, case_tac parent) (auto simp: op_Inr from_db_Inr)
  from plan_kind_cases [OF kind] consider "p = plan_full (ru_id r)"
    | point l b where "parent = Some point" "found = Some l" "po_sequence point < jb_max_incrementals j"
      "po_checkpoint point = JStr b"
      "p = \<lparr>pl_kind = INCREMENTAL, pl_chain_id = po_chain_id point, pl_sequence = po_sequence point + 1,
         pl_parent_id = Some (po_id point), pl_base = Some b\<rparr>" by blast
  then show ?thesis
  proof cases
    case 2
    with found have "resolve_lineage (le_text env) ?d (po_id point) = Inr (Some l)" by simp
    from latest_with_lineage [OF assms(3) _ this assms(2)] parent 2 obtain ps where
      "lineage_path ?d ps" "pr_id (hd ps) = po_id point" "local_to ?d (jb_id j) (st_id s) (hd ps)"
      "\<forall>q \<in> set (db_points ?d). local_to ?d (jb_id j) (st_id s) q \<longrightarrow> age q \<le> age (hd ps)"
      "po_sequence point = int (length ps) - 1" "po_chain_id point = chain_of_point (last ps)"
      "po_checkpoint point = dget_or (pr_metadata (hd ps)) ''libvirt_checkpoint_name'' JNull" by blast
    with 2 w' show ?thesis by (intro conjI disjI2 exI [of _ ps] exI [of _ b]) auto
  qed (use w' in simp)
qed

section \<open>What a call changes\<close>

text \<open>\<open>moves R m\<close>: whether it returns or raises, \<open>m\<close> goes from a state to one related by \<open>R\<close>.\<close>

definition moves :: "('s \<Rightarrow> 's \<Rightarrow> bool) \<Rightarrow> ('s, 'a) op \<Rightarrow> bool" where
  "moves R m \<longleftrightarrow> (\<forall>s. R s (snd (m s)))"

named_theorems moves_intros \<open>rules for what a call changes\<close>

lemma movesD: "moves R m \<Longrightarrow> m s = (r, s') \<Longrightarrow> R s s'"
  unfolding moves_def by (metis snd_conv)

lemma moves_basic [moves_intros]: "reflp R \<Longrightarrow> moves R (ret x)" "reflp R \<Longrightarrow> moves R (raise e)" "reflp R \<Longrightarrow> moves R (lift q)"
  by (simp_all add: moves_def op_defs reflpD)

lemma moves_reading [moves_intros]: "(\<And>t. moves R (f t)) \<Longrightarrow> moves R (reading f)"
  by (simp add: moves_def reading_def)

lemma moves_andthen [moves_intros]: "transp R \<Longrightarrow> moves R m \<Longrightarrow> (\<And>x. moves R (f x)) \<Longrightarrow> moves R (andthen m f)"
proof (unfold moves_def, rule allI)
  fix s assume t: "transp R" and m: "\<forall>s. R s (snd (m s))" and f: "\<And>x. \<forall>s. R s (snd (f x s))"
  obtain q s1 where q: "m s = (q, s1)" by fastforce
  with m have "R s s1" by (metis snd_conv)
  with q t f show "R s (snd (andthen m f s))" by (cases q) (auto simp: andthen_def dest: transpD)
qed

lemma moves_attempt [moves_intros]: "moves R m \<Longrightarrow> moves R (attempt m)"
  by (auto simp: moves_def attempt_def split: prod.split, metis snd_conv)

lemma moves_each [moves_intros]: "reflp R \<Longrightarrow> transp R \<Longrightarrow> (\<And>x. x \<in> set xs \<Longrightarrow> moves R (f x)) \<Longrightarrow> moves R (each f xs)"
  by (induction xs) (auto intro!: moves_intros)

lemma moves_if [moves_intros]: "(b \<Longrightarrow> moves R m) \<Longrightarrow> (\<not> b \<Longrightarrow> moves R n) \<Longrightarrow> moves R (if b then m else n)"
  by simp

lemma moves_option [moves_intros]:
  "(x = None \<Longrightarrow> moves R m) \<Longrightarrow> (\<And>y. x = Some y \<Longrightarrow> moves R (f y)) \<Longrightarrow> moves R (case x of None \<Rightarrow> m | Some y \<Rightarrow> f y)"
  by (cases x) simp_all

lemma moves_sum [moves_intros]:
  "(\<And>e. x = Inl e \<Longrightarrow> moves R (f e)) \<Longrightarrow> (\<And>y. x = Inr y \<Longrightarrow> moves R (g y)) \<Longrightarrow> moves R (case x of Inl e \<Rightarrow> f e | Inr y \<Rightarrow> g y)"
  by (cases x) simp_all

lemma moves_pair [moves_intros]: "(\<And>a b. moves R (f a b)) \<Longrightarrow> moves R (case x of (a, b) \<Rightarrow> f a b)"
  by (cases x) simp

text \<open>Relations on the store alone, and on the files alone.\<close>

definition on_db :: "(db \<Rightarrow> db \<Rightarrow> bool) \<Rightarrow> lw \<Rightarrow> lw \<Rightarrow> bool" where "on_db Q w w' \<longleftrightarrow> Q (lw_db w) (lw_db w')"

definition on_fs :: "(lfs \<Rightarrow> lfs \<Rightarrow> bool) \<Rightarrow> lw \<Rightarrow> lw \<Rightarrow> bool" where "on_fs Q w w' \<longleftrightarrow> Q (lw_fs w) (lw_fs w')"

lemma on_preorder [moves_intros]:
  "reflp Q \<Longrightarrow> reflp (on_db Q)" "transp Q \<Longrightarrow> transp (on_db Q)" "reflp P \<Longrightarrow> reflp (on_fs P)" "transp P \<Longrightarrow> transp (on_fs P)"
  by (auto simp: on_db_def on_fs_def reflp_def transp_def)

lemma moves_in_db [moves_intros]: "moves Q m \<Longrightarrow> moves (on_db Q) (in_db m)" "reflp P \<Longrightarrow> moves (on_fs P) (in_db m)"
  by (auto simp: moves_def on_db_def on_fs_def in_db_def reflpD split: prod.split, metis snd_conv)

lemma moves_host [moves_intros]:
  "reflp R \<Longrightarrow> moves R (from_db q)"
  "reflp Q \<Longrightarrow> moves (on_db Q) (ticking g)" "reflp P \<Longrightarrow> moves (on_fs P) (ticking g)"
  "reflp Q \<Longrightarrow> moves (on_db Q) (change_files h)" "(\<And>fs. P fs (h fs)) \<Longrightarrow> moves (on_fs P) (change_files h)"
  by (simp_all add: moves_def on_db_def on_fs_def ticking_def change_files_def from_db_def op_defs reflpD)

lemma moves_syscall [moves_intros]:
  "reflp Q \<Longrightarrow> transp Q \<Longrightarrow> moves (on_db Q) (syscall env)" "reflp P \<Longrightarrow> transp P \<Longrightarrow> moves (on_fs P) (syscall env)"
  unfolding syscall_def by (intro moves_intros; assumption)+

lemma moves_update [moves_intros]: "(\<And>s. R s (g s)) \<Longrightarrow> moves R (update g)"
  by (simp add: moves_def update_def)

lemma andthen_nested: "andthen (andthen m f) h = andthen m (\<lambda>x. andthen (f x) h)" "andthen (ret x) f = f x"
  by (auto simp: fun_eq_iff op_run)

lemma from_db_then: "andthen (from_db q) f w = (case q (lw_db w) of Inl e \<Rightarrow> (Inl e, w) | Inr x \<Rightarrow> f x w)"
  by (simp add: from_db_def op_defs split: sum.split)

section \<open>Deleting one restore point\<close>

text \<open>Contexts and times of runs may change, and nothing else of the runs.\<close>

definition run_shape :: "run_row \<Rightarrow> string \<times> string \<times> string \<times> string" where
  "run_shape r = (rr_id r, rr_job_id r, rr_storage_id r, rr_state r)"

definition same_shape :: "db \<Rightarrow> db \<Rightarrow> bool" where
  "same_shape d d' \<longleftrightarrow> map run_shape (db_runs d') = map run_shape (db_runs d) \<and> db_jobs d' = db_jobs d \<and>
     db_vms d' = db_vms d \<and> db_storages d' = db_storages d"

definition rows_kept :: "db \<Rightarrow> db \<Rightarrow> bool" where
  "rows_kept d d' \<longleftrightarrow> same_shape d d' \<and> db_points d' = db_points d \<and> db_artifacts d' = db_artifacts d"

lemma rows_kept_preorder [moves_intros]: "reflp rows_kept" "transp rows_kept"
  by (auto simp: rows_kept_def same_shape_def reflp_def transp_def)

lemma set_context_kept [moves_intros]: "moves rows_kept (set_context i c stamp)"
  by (auto simp: set_context_def rows_kept_def same_shape_def run_shape_def intro!: moves_intros)

lemma enqueue_kept [moves_intros]: "moves rows_kept (enqueue_replica_deletes i stamp)"
  unfolding enqueue_replica_deletes_def by (intro moves_intros)

lemma stamp_kept [moves_intros]:
  "reflp Q \<Longrightarrow> transp Q \<Longrightarrow> moves (on_db Q) (stamp_now env)" "reflp P \<Longrightarrow> transp P \<Longrightarrow> moves (on_fs P) (stamp_now env)"
  unfolding stamp_now_def by (intro moves_intros; assumption)+

lemma merge_context_kept [moves_intros]: "moves (on_db rows_kept) (merge_run_context env i vs)"
  unfolding merge_run_context_def Let_def by (intro moves_intros)

lemma queue_kept [moves_intros]: "moves (on_db rows_kept) (queue_remote_deletes env c)"
  unfolding queue_remote_deletes_def by (intro moves_intros)

lemma remove_bundle_kept [moves_intros]: "moves (on_db rows_kept) (remove_bundle env target)"
  unfolding remove_bundle_def remove_folder_tree_def remove_file_def catalog_refuse_def by (intro moves_intros)

lemma validated_path_kept [moves_intros]: "reflp R \<Longrightarrow> transp R \<Longrightarrow> moves R (validated_bundle_path env s v)"
  unfolding validated_bundle_path_def resolve_path_def catalog_refuse_def
  by (auto split: json.split intro!: moves_intros)

definition point_gone :: "string \<Rightarrow> db \<Rightarrow> db" where
  "point_gone i d = d\<lparr>db_points := filter (\<lambda>p. pr_id p \<noteq> i) (db_points d)\<rparr>"

text \<open>A deletion that returns removes the row of the point, one that raises removes no row.\<close>

lemma delete_point_rows:
  assumes "delete_restore_point env i e w = (r, w')"
  shows "same_shape (lw_db w) (lw_db w') \<and>
    db_points (lw_db w') = (case r of Inl _ \<Rightarrow> db_points (lw_db w) | Inr _ \<Rightarrow> filter (\<lambda>p. pr_id p \<noteq> i) (db_points (lw_db w)))"
proof (cases "delete_candidate_of (lw_db w) i")
  case None
  with assms show ?thesis by (auto simp: delete_restore_point_def op_defs catalog_refuse_def same_shape_def)
next
  case (Some c)
  have i: "dc_id c = i" using Some by (auto simp: delete_candidate_of_def split: option.splits)
  let ?before = "\<lambda>s. andthen (validated_bundle_path env s (dc_bundle c)) (\<lambda>target.
    andthen (queue_remote_deletes env c) (\<lambda>_. andthen (remove_bundle env target) (\<lambda>_. ret target)))"
  let ?after = "\<lambda>target. andthen (in_db (delete_restore_point_catalog (dc_id c) (dc_run_id c))) (\<lambda>removed.
    if removed then ret target else catalog_refuse ''RESTORE_POINT_DELETE_CONFLICT'')"
  have moved: "moves (on_db rows_kept) (?before s)" for s by (intro moves_intros)
  have last: "same_shape (lw_db v) (lw_db v') \<and>
    db_points (lw_db v') = (case r of Inl _ \<Rightarrow> db_points (lw_db v) | Inr _ \<Rightarrow> filter (\<lambda>p. pr_id p \<noteq> i) (db_points (lw_db v)))"
    if "?after target v = (r, v')" for target v r v'
    using that unfolding i
    by (auto simp: in_db_def delete_restore_point_catalog_def op_defs catalog_refuse_def same_shape_def
        split: option.splits if_splits)
  have shape: "same_shape d d'' \<and> P" if "rows_kept d d'" "same_shape d' d'' \<and> P" for d d' d'' P
    using that by (auto simp: rows_kept_def same_shape_def)
  have whole: "andthen (?before s) ?after v = (r, v') \<Longrightarrow> same_shape (lw_db v) (lw_db v') \<and>
    db_points (lw_db v') = (case r of Inl _ \<Rightarrow> db_points (lw_db v) | Inr _ \<Rightarrow> filter (\<lambda>p. pr_id p \<noteq> i) (db_points (lw_db v)))" for s v r v'
  proof -
    assume run: "andthen (?before s) ?after v = (r, v')"
    obtain q v1 where v1: "?before s v = (q, v1)" by fastforce
    with movesD [OF moved] have kept: "rows_kept (lw_db v) (lw_db v1)" by (auto simp: on_db_def)
    show ?thesis
    proof (cases q)
      case (Inl x)
      with run v1 kept show ?thesis by (auto simp: andthen_def rows_kept_def)
    next
      case (Inr target)
      with run v1 have "?after target v1 = (r, v')" by (simp add: andthen_def)
      from shape [OF kept last [OF this]] kept show ?thesis by (simp add: rows_kept_def cong: sum.case_cong)
    qed
  qed
  have "andthen (validated_bundle_path env s (dc_bundle c)) (\<lambda>target. andthen (queue_remote_deletes env c) (\<lambda>_.
      andthen (remove_bundle env target) (\<lambda>_. ?after target))) = andthen (?before s) ?after" for s
    by (simp add: andthen_nested)
  note same = this
  have "(\<exists>x. r = Inl x) \<and> w' = w \<or> (\<exists>s. andthen (?before s) ?after w = (r, w'))"
    using assms Some unfolding delete_restore_point_def
    by (auto simp: reading_def from_db_then catalog_refuse_def raise_def same split: if_splits sum.splits)
  then show ?thesis using whole by (auto simp: same_shape_def)
qed

text \<open>The walk through a folder lists paths below it.\<close>

definition honest_walk :: "lenv \<Rightarrow> bool" where
  "honest_walk env \<longleftrightarrow> (\<forall>fs p. \<forall>q \<in> set (le_tree env fs p). prefix (p @ ''/'') q)"

definition only_removed :: "string \<Rightarrow> lfs \<Rightarrow> lfs \<Rightarrow> bool" where
  "only_removed target fs fs' \<longleftrightarrow>
     (\<forall>p. fs' p \<noteq> fs p \<longrightarrow> fs' p = None \<and> (p = target \<or> prefix (target @ ''/'') p))"

lemma only_removed_preorder [moves_intros]: "reflp (only_removed t)" "transp (only_removed t)"
  by (auto simp: only_removed_def reflp_def transp_def) metis+

lemma remove_file_only: "p = t \<or> prefix (t @ ''/'') p \<Longrightarrow> moves (on_fs (only_removed t)) (remove_file env p)"
  unfolding remove_file_def by (intro moves_intros) (auto simp: only_removed_def)

lemma remove_bundle_only: "honest_walk env \<Longrightarrow> moves (on_fs (only_removed t)) (remove_bundle env t)"
  unfolding remove_bundle_def remove_folder_tree_def catalog_refuse_def honest_walk_def
  by (intro moves_intros remove_file_only) auto

lemma context_files [moves_intros]: "reflp P \<Longrightarrow> transp P \<Longrightarrow> moves (on_fs P) (merge_run_context env i vs)"
  unfolding merge_run_context_def Let_def by (intro moves_intros; assumption)

lemma queue_files [moves_intros]: "reflp P \<Longrightarrow> transp P \<Longrightarrow> moves (on_fs P) (queue_remote_deletes env c)"
  unfolding queue_remote_deletes_def by (intro moves_intros; assumption)

lemma each_append: "each f (xs @ ys) = andthen (each f xs) (\<lambda>_. each f ys)"
  by (induction xs) (simp_all add: andthen_nested)

lemma remove_bundle_gone: "remove_bundle env t w = (Inr u, w') \<Longrightarrow> lw_fs w' t = None"
  by (auto simp: remove_bundle_def remove_folder_tree_def remove_file_def each_append andthen_Inr op_Inr change_files_def
      catalog_refuse_def split: option.splits if_splits)

definition bundle_target :: "lenv \<Rightarrow> lw \<Rightarrow> string \<Rightarrow> string \<Rightarrow> bool" where
  "bundle_target env w i target \<longleftrightarrow> (\<exists>c s root base object_id.
     delete_candidate_of (lw_db w) i = Some c \<and> dc_status c = ''AVAILABLE'' \<and> dc_run_state c = ''SUCCESS'' \<and>
     get_storage_destination (lw_db w) (dc_node_id c) (dc_storage_id c) = Inr s \<and> st_type s = LOCAL \<and>
     storage_value s ''backup_data_root'' = JStr root \<and> le_resolve env (lw_fs w) root = Some base \<and>
     dc_bundle c = JStr object_id \<and> le_resolve env (lw_fs w) object_id = Some target \<and>
     strictly_inside target base)"

lemma validated_path:
  "validated_bundle_path env s v w = (Inr target, w') \<Longrightarrow> w' = w \<and> (\<exists>root base object_id.
     storage_value s ''backup_data_root'' = JStr root \<and> le_resolve env (lw_fs w) root = Some base \<and>
     v = JStr object_id \<and> le_resolve env (lw_fs w) object_id = Some target \<and> strictly_inside target base)"
  by (auto simp: validated_bundle_path_def resolve_path_def catalog_refuse_def andthen_Inr op_Inr
      split: if_splits json.splits option.splits)

lemma validated_path_same: "snd (validated_bundle_path env s v w) = w"
  by (auto simp: validated_bundle_path_def resolve_path_def catalog_refuse_def op_defs
      split: json.split option.split sum.split prod.split)

text \<open>C39: deleting a local backup touches no file but its bundle: whatever call fails, a path that changed
  is gone and is the resolved path of the bundle, strictly inside the resolved root of the LOCAL destination
  of the point, or lies below it. If the deletion returns, the bundle and the row of the point are gone; if it
  raises, no row of a point has changed.\<close>

theorem local_deletion_safe:
  assumes "honest_walk env" and "delete_restore_point env i expected w = (r, w')"
  shows "(\<forall>p. lw_fs w' p \<noteq> lw_fs w p \<longrightarrow>
      (\<exists>target. bundle_target env w i target \<and> lw_fs w' p = None \<and> (p = target \<or> prefix (target @ ''/'') p))) \<and>
    (case r of Inl _ \<Rightarrow> db_points (lw_db w') = db_points (lw_db w)
     | Inr target \<Rightarrow> bundle_target env w i target \<and> lw_fs w' target = None \<and>
         db_points (lw_db w') = filter (\<lambda>p. pr_id p \<noteq> i) (db_points (lw_db w)))"
proof (cases "lw_fs w' = lw_fs w \<and> isl r")
  case True
  with delete_point_rows [OF assms(2)] show ?thesis by (cases r) auto
next
  case changed: False
  obtain c s where c: "delete_candidate_of (lw_db w) i = Some c" "dc_status c = ''AVAILABLE''" "dc_run_state c = ''SUCCESS''"
    and s: "get_storage_destination (lw_db w) (dc_node_id c) (dc_storage_id c) = Inr s" "st_type s = LOCAL"
    and run: "andthen (validated_bundle_path env s (dc_bundle c)) (\<lambda>target. andthen (queue_remote_deletes env c) (\<lambda>_.
      andthen (remove_bundle env target) (\<lambda>_.
      andthen (in_db (delete_restore_point_catalog (dc_id c) (dc_run_id c))) (\<lambda>removed.
      if removed then ret target else catalog_refuse ''RESTORE_POINT_DELETE_CONFLICT'')))) w = (r, w')"
    using assms(2) changed unfolding delete_restore_point_def
    by (auto simp: reading_def from_db_then catalog_refuse_def raise_def split: if_splits sum.splits option.splits)
  obtain q w1 where q: "validated_bundle_path env s (dc_bundle c) w = (q, w1)" by fastforce
  with validated_path_same [of env s "dc_bundle c" w] have w1: "w1 = w" by simp
  show ?thesis
  proof (cases q)
    case (Inl x)
    with q w1 run changed show ?thesis by (auto simp: andthen_def)
  next
    case (Inr target)
    with validated_path q c s have target: "bundle_target env w i target" unfolding bundle_target_def by fast
    let ?rest = "andthen (queue_remote_deletes env c) (\<lambda>_. andthen (remove_bundle env target) (\<lambda>_.
      andthen (in_db (delete_restore_point_catalog (dc_id c) (dc_run_id c))) (\<lambda>removed.
      if removed then ret target else catalog_refuse ''RESTORE_POINT_DELETE_CONFLICT'')))"
    from run q Inr w1 have rest: "?rest w = (r, w')" by (simp add: andthen_def)
    have "moves (on_fs (only_removed target)) ?rest"
      unfolding catalog_refuse_def by (intro moves_intros remove_bundle_only assms(1))
    from movesD [OF this rest] have "only_removed target (lw_fs w) (lw_fs w')" by (simp add: on_fs_def)
    moreover have "case r of Inl _ \<Rightarrow> True | Inr t \<Rightarrow> t = target \<and> lw_fs w' t = None"
    proof (cases r)
      case (Inr t)
      from rest [unfolded this andthen_Inr] obtain u w2 u2 w3 removed w4 where
        "remove_bundle env target w2 = (Inr u2, w3)"
        "in_db (delete_restore_point_catalog (dc_id c) (dc_run_id c)) w3 = (Inr removed, w4)"
        "(if removed then ret target else catalog_refuse ''RESTORE_POINT_DELETE_CONFLICT'') w4 = (Inr t, w')" by blast
      with remove_bundle_gone show ?thesis
        unfolding Inr by (auto simp: in_db_def catalog_refuse_def op_Inr split: if_splits prod.splits)
    qed simp
    ultimately show ?thesis
      using target delete_point_rows [OF assms(2)] unfolding only_removed_def by (auto split: sum.splits)
  qed
qed

end
