(* ===== verification/LocalRetention.thy ===== *)
theory LocalRetention
  imports LocalProps
begin

text \<open>
  Retention of local backups: the order in which a chain is deleted, which chains go, and what is left,
  also when a deletion fails halfway.
\<close>

section \<open>Deleting a chain\<close>

abbreviation local_points :: "db \<Rightarrow> string \<Rightarrow> string \<Rightarrow> point_row set" where
  "local_points d job storage \<equiv> {p \<in> set (db_points d). local_to d job storage p}"

definition child_of :: "point_row \<Rightarrow> point_row \<Rightarrow> bool" where
  "child_of p q \<longleftrightarrow> queried p ''parent_restore_point_id'' = JStr (pr_id q)"

definition order_of :: "point_row \<Rightarrow> int" where
  "order_of p = (let v = queried p ''sequence'' in if v = JNull then 0 else sql_integer v)"

text \<open>
  The available backups of a job form chains: each incremental has its parent among them, of the same
  chain and with a smaller sequence unless it is the FULL; each FULL has a chain of its own.
\<close>

definition chains_wf :: "db \<Rightarrow> string \<Rightarrow> string \<Rightarrow> bool" where
  "chains_wf d job storage \<longleftrightarrow> points_keyed d \<and>
     (\<forall>p \<in> local_points d job storage. pr_kind p \<noteq> ''FULL'' \<longrightarrow>
        (\<exists>q \<in> local_points d job storage. child_of p q \<and> queried p ''chain_id'' = queried q ''chain_id'' \<and>
           (pr_kind q \<noteq> ''FULL'' \<longrightarrow> order_of q < order_of p))) \<and>
     (\<forall>p \<in> local_points d job storage. pr_kind p = ''FULL'' \<longrightarrow>
        present (queried p ''chain_id'') \<and> (\<forall>q. \<not> child_of p q) \<and>
        (\<forall>q \<in> local_points d job storage. pr_kind q = ''FULL'' \<longrightarrow>
           sql_eq (queried q ''chain_id'') (queried p ''chain_id'') \<longrightarrow> q = p))"

lemma chains_keyed: "chains_wf d job storage \<Longrightarrow> p \<in> set (db_points d) \<Longrightarrow> q \<in> set (db_points d) \<Longrightarrow> pr_id p = pr_id q \<Longrightarrow> p = q"
  unfolding chains_wf_def points_keyed_def by (auto simp: distinct_map dest: inj_onD)

lemma chain_parent:
  assumes "chains_wf d job storage" "p \<in> local_points d job storage" "pr_kind p \<noteq> ''FULL''"
  obtains q where "q \<in> local_points d job storage" "child_of p q" "queried p ''chain_id'' = queried q ''chain_id''"
    "pr_kind q \<noteq> ''FULL'' \<Longrightarrow> order_of q < order_of p"
  using assms unfolding chains_wf_def by blast

lemma parent_in_chain:
  "chains_wf d job storage \<Longrightarrow> p \<in> local_points d job storage \<Longrightarrow> pr_kind p \<noteq> ''FULL'' \<Longrightarrow>
     \<exists>q \<in> local_points d job storage. child_of p q \<and> queried p ''chain_id'' = queried q ''chain_id'' \<and>
       (pr_kind q \<noteq> ''FULL'' \<longrightarrow> order_of q < order_of p)"
  unfolding chains_wf_def by blast

lemma chain_full:
  assumes "chains_wf d job storage" "p \<in> local_points d job storage" "pr_kind p = ''FULL''"
  shows "present (queried p ''chain_id'')" "\<not> child_of p q"
    "q \<in> local_points d job storage \<Longrightarrow> pr_kind q = ''FULL'' \<Longrightarrow> sql_eq (queried q ''chain_id'') (queried p ''chain_id'') \<Longrightarrow> q = p"
  using assms unfolding chains_wf_def by blast+

lemma sql_eq_refl: "v \<noteq> JNull \<Longrightarrow> sql_eq v v"
  by (auto simp: sql_eq_def split: option.split)

lemma present_not_null: "present v \<Longrightarrow> v \<noteq> JNull"
  by (auto simp: present_def)

lemma grow_member:
  "i \<in> set (grow_chain d job storage ids) \<longleftrightarrow> i \<in> set ids \<or> (\<exists>p \<in> local_points d job storage. pr_id p = i \<and>
     (\<exists>j \<in> set ids. queried p ''parent_restore_point_id'' = JStr j))"
proof -
  have only_text: "(case v of JStr j \<Rightarrow> P j | _ \<Rightarrow> False) \<longleftrightarrow> (\<exists>j. v = JStr j \<and> P j)" for v P by (cases v) auto
  show ?thesis unfolding grow_chain_def only_text by auto
qed

lemma grown_member:
  assumes "i \<in> set ((grow_chain d job storage ^^ n) [full])"
  shows "i = full \<or> (\<exists>p \<in> local_points d job storage. pr_id p = i \<and>
    (\<exists>j. queried p ''parent_restore_point_id'' = JStr j \<and> (j = full \<or> (\<exists>m < n. j \<in> set ((grow_chain d job storage ^^ m) [full])))))"
  using assms
proof (induction n)
  case (Suc n)
  let ?g = "(grow_chain d job storage ^^ n) [full]"
  from Suc.prems have "i \<in> set (grow_chain d job storage ?g)" by simp
  then show ?case
    unfolding grow_member using Suc.IH by (meson lessI less_SucI)
qed simp

lemma chain_ids_same:
  assumes wf: "chains_wf d job storage" and full: "f \<in> local_points d job storage" "pr_kind f = ''FULL''"
  shows "p \<in> local_points d job storage \<Longrightarrow> pr_id p \<in> set ((grow_chain d job storage ^^ n) [pr_id f]) \<Longrightarrow>
    queried p ''chain_id'' = queried f ''chain_id''"
proof (induction n arbitrary: p rule: less_induct)
  case (less n)
  show ?case
  proof (cases "pr_id p = pr_id f")
    case True
    with chains_keyed [OF wf _ _ True] less.prems full show ?thesis by simp
  next
    case False
    with grown_member [OF less.prems(2)] obtain p' j where p': "p' \<in> local_points d job storage" "pr_id p' = pr_id p"
      "queried p' ''parent_restore_point_id'' = JStr j" and
      j: "j = pr_id f \<or> (\<exists>m < n. j \<in> set ((grow_chain d job storage ^^ m) [pr_id f]))" by blast
    from chains_keyed [OF wf _ _ p'(2)] p'(1) less.prems(1) have [simp]: "p' = p" by simp
    have "pr_kind p \<noteq> ''FULL''"
    proof
      assume "pr_kind p = ''FULL''"
      moreover have "child_of p (p\<lparr>pr_id := j\<rparr>)" using p'(3) by (simp add: child_of_def)
      ultimately show False using chain_full(2) [OF wf less.prems(1)] by blast
    qed
    from chain_parent [OF wf less.prems(1) this] obtain q where q: "q \<in> local_points d job storage" "child_of p q"
      "queried p ''chain_id'' = queried q ''chain_id''" by blast
    with p'(3) have "pr_id q = j" by (simp add: child_of_def)
    with j less.IH [OF _ q(1)] chains_keyed [OF wf, of q f] q(1) full have "queried q ''chain_id'' = queried f ''chain_id''" by blast
    with q(3) show ?thesis by simp
  qed
qed

lemma check_sequence_same: "check_sequence p = Inr q \<Longrightarrow> q = p"
  by (auto simp: check_sequence_def Let_def bnd_eq_Inr split: if_splits)

lemma check_sequences_same: "map_result check_sequence ps = Inr qs \<Longrightarrow> qs = ps"
  by (induction ps arbitrary: qs) (auto simp: bnd_eq_Inr dest: check_sequence_same)

lemma sort_by_flag: "sort_key (k :: 'a \<Rightarrow> bool) xs = filter (\<lambda>x. \<not> k x) xs @ filter k xs"
proof (induction xs)
  case (Cons x xs)
  have front: "\<not> k x \<Longrightarrow> insort_key k x ys = x # ys" for ys by (cases ys) auto
  have rear: "k x \<Longrightarrow> list_all (\<lambda>y. \<not> k y) ys \<Longrightarrow> list_all k zs \<Longrightarrow> insort_key k x (ys @ zs) = ys @ x # zs" for ys zs
    by (induction ys) (cases zs; auto)+
  show ?case
    using front rear [of "filter (\<lambda>x. \<not> k x) xs" "filter k xs"] Cons.IH by (auto simp: list_all_iff)
qed simp

text \<open>What is deleted, and in which order.\<close>

lemma full_chain_points:
  assumes wf: "chains_wf d job storage" and full: "f \<in> local_points d job storage" "pr_kind f = ''FULL''"
    and run: "points_of_full_chain d job storage (pr_id f) (queried f ''chain_id'') = Inr ps"
  shows "set ps = {p \<in> local_points d job storage. sql_eq (queried p ''chain_id'') (queried f ''chain_id'')}"
    and "distinct (map pr_id ps)" and "sorted_wrt (\<lambda>x y. \<not> child_of y x) ps"
proof -
  let ?in = "\<lambda>p. local_to d job storage p \<and> (pr_id p \<in> set (chain_ids d job storage (pr_id f)) \<or>
    sql_eq (queried p ''chain_id'') (queried f ''chain_id''))"
  let ?key = "\<lambda>p. (chain_rank (pr_id f) p, pr_created_at p)"
  let ?l = "sort_key_desc ?key (filter ?in (db_points d))"
  from run have ps: "ps = filter (\<lambda>p. pr_id p \<noteq> pr_id f) ?l @ filter (\<lambda>p. pr_id p = pr_id f) ?l"
    by (auto simp: points_of_full_chain_def Let_def bnd_eq_Inr sort_by_flag dest!: check_sequences_same)
  have refl: "sql_eq (queried f ''chain_id'') (queried f ''chain_id'')"
    using chain_full(1) [OF wf full] by (simp add: sql_eq_refl present_not_null)
  show rows: "set ps = {p \<in> local_points d job storage. sql_eq (queried p ''chain_id'') (queried f ''chain_id'')}"
  proof -
    have "sql_eq (queried p ''chain_id'') (queried f ''chain_id'')"
      if "p \<in> local_points d job storage" "pr_id p \<in> set (chain_ids d job storage (pr_id f))" for p
      using chain_ids_same [OF wf full that(1) that(2) [unfolded chain_ids_def]] refl by simp
    then show ?thesis unfolding ps by auto
  qed
  have keyed: "distinct (map pr_id (db_points d))" using wf by (simp add: chains_wf_def points_keyed_def)
  then have "distinct (map pr_id ?l)" by (auto simp: distinct_map inj_on_def)
  then show "distinct (map pr_id ps)" unfolding ps by (simp add: distinct_map_filter) (auto simp: distinct_map inj_on_def)
  have desc: "sorted_wrt (\<lambda>x y. chain_rank (pr_id f) y \<le> chain_rank (pr_id f) x) ?l"
  proof -
    have "sorted_wrt (\<ge>) (map ?key ?l)" using sorted_sort_key_desc [of ?key "filter ?in (db_points d)"] by (simp add: sorted_wrt_rev)
    then show ?thesis unfolding sorted_wrt_map by (rule sorted_wrt_mono_rel [rotated]) (auto simp: less_eq_prod_def)
  qed
  have no: "\<not> child_of y x" if xy: "x \<in> set ps" "y \<in> set ps" and r: "x \<noteq> f \<and> (y = f \<or> chain_rank (pr_id f) y \<le> chain_rank (pr_id f) x) \<or> y = f" for x y
  proof
    assume child: "child_of y x"
    from xy rows have l: "x \<in> local_points d job storage" "y \<in> local_points d job storage"
      "sql_eq (queried x ''chain_id'') (queried f ''chain_id'')" by auto
    then have y: "pr_kind y \<noteq> ''FULL''" "y \<noteq> f" using chain_full(2) [OF wf l(2)] full child by blast+
    from chain_parent [OF wf l(2) y(1)] obtain q where q: "q \<in> local_points d job storage" "child_of y q"
      "pr_kind q \<noteq> ''FULL'' \<Longrightarrow> order_of q < order_of y" by metis
    from q(2) child have "pr_id q = pr_id x" by (simp add: child_of_def)
    with chains_keyed [OF wf] q(1) l(1) have "q = x" by blast
    from r y(2) have x: "x \<noteq> f" "chain_rank (pr_id f) y \<le> chain_rank (pr_id f) x" by auto
    with chain_full(3) [OF wf full l(1)] l(3) have "pr_kind x \<noteq> ''FULL''" by blast
    with q(3) \<open>q = x\<close> have "order_of x < order_of y" by blast
    moreover have "pr_id x \<noteq> pr_id f" "pr_id y \<noteq> pr_id f" using chains_keyed [OF wf] l full x(1) y(2) by blast+
    ultimately show False using x(2) by (simp add: chain_rank_def order_of_def Let_def)
  qed
  have idf: "pr_id x = pr_id f \<longleftrightarrow> x = f" if "x \<in> set ps" for x
  proof -
    from that rows have x: "x \<in> set (db_points d)" by simp
    from full(1) have f: "f \<in> set (db_points d)" by simp
    show ?thesis using chains_keyed [OF wf x f] by auto
  qed
  let ?a = "filter (\<lambda>p. pr_id p \<noteq> pr_id f) ?l" and ?b = "filter (\<lambda>p. pr_id p = pr_id f) ?l"
  have parts: "set ?a \<subseteq> set ps" "set ?b \<subseteq> set ps" unfolding ps by (simp_all only: set_append Un_upper1 Un_upper2)
  have a: "x \<in> set ps \<and> x \<noteq> f" if "x \<in> set ?a" for x using subsetD [OF parts(1) that] that by auto
  have b: "x = f \<and> x \<in> set ps" if "x \<in> set ?b" for x
    using subsetD [OF parts(2) that] idf [of x] filter_set that by (metis (mono_tags, lifting) mem_Collect_eq set_filter)
  have "sorted_wrt (\<lambda>x y. \<not> child_of y x) ?a"
    by (rule sorted_wrt_mono_rel [OF _ sorted_wrt_filter [OF desc]]) (use no a in blast)
  moreover have "sorted_wrt (\<lambda>x y. \<not> child_of y x) ?b"
    by (rule sorted_wrt_mono_rel [OF _ sorted_wrt_filter [OF desc]]) (use no b in blast)
  moreover have "\<not> child_of y x" if "x \<in> set ?a" "y \<in> set ?b" for x y
    using no [of x y] a [OF that(1)] b [OF that(2)] by blast
  ultimately show "sorted_wrt (\<lambda>x y. \<not> child_of y x) ps" unfolding ps sorted_wrt_append by blast
qed

text \<open>Rows that are gone, and the runs as they were.\<close>

definition points_removed :: "string set \<Rightarrow> db \<Rightarrow> db \<Rightarrow> bool" where
  "points_removed gone d d' \<longleftrightarrow> same_shape d d' \<and> db_points d' = filter (\<lambda>p. pr_id p \<notin> gone) (db_points d)"

lemma find_shape:
  "map run_shape rs' = map run_shape rs \<Longrightarrow>
     map_option run_shape (find (\<lambda>r. rr_id r = i) rs') = map_option run_shape (find (\<lambda>r. rr_id r = i) rs)"
proof (induction rs arbitrary: rs')
  case (Cons r rs)
  then obtain r' rs1 where "rs' = r' # rs1" "run_shape r' = run_shape r" "map run_shape rs1 = map run_shape rs"
    by (auto simp: Cons_eq_map_conv [symmetric] map_eq_Cons_conv)
  moreover from this have "rr_id r' = rr_id r" by (simp add: run_shape_def)
  ultimately show ?case using Cons.IH [of rs1] by simp
qed simp

lemma local_to_shape: "same_shape d d' \<Longrightarrow> local_to d' = local_to d"
proof -
  assume "same_shape d d'"
  then have "map_option run_shape (run_row_of d' p) = map_option run_shape (run_row_of d p)" for p
    unfolding same_shape_def run_row_of_def by (intro find_shape) simp
  then have shapes: "map_option run_shape (run_row_of d' p) = map_option run_shape (run_row_of d p)" for p .
  have "(case run_row_of d' p of None \<Rightarrow> False | Some r \<Rightarrow> rr_job_id r = job \<and> rr_storage_id r = storage) =
      (case run_row_of d p of None \<Rightarrow> False | Some r \<Rightarrow> rr_job_id r = job \<and> rr_storage_id r = storage)" for p job storage
    using shapes [of p] by (cases "run_row_of d' p"; cases "run_row_of d p") (simp_all add: run_shape_def)
  then show ?thesis by (simp add: local_to_def fun_eq_iff)
qed

lemma removed_refl: "points_removed {} d d"
  by (simp add: points_removed_def same_shape_def)

lemma removed_trans: "points_removed a d d' \<Longrightarrow> points_removed b d' d'' \<Longrightarrow> points_removed (a \<union> b) d d''"
  by (auto simp: points_removed_def same_shape_def intro: filter_cong)

lemma removed_local:
  "points_removed gone d d' \<Longrightarrow> local_points d' job storage = {p \<in> local_points d job storage. pr_id p \<notin> gone}"
  by (auto simp: points_removed_def local_to_shape)

text \<open>Chains stay well formed if nobody loses a parent that stays itself.\<close>

lemma chains_wf_removed:
  assumes wf: "chains_wf d job storage" and removed: "points_removed gone d d'"
    and closed: "\<And>x y. x \<in> local_points d job storage \<Longrightarrow> y \<in> local_points d job storage \<Longrightarrow> child_of y x \<Longrightarrow>
      pr_id x \<in> gone \<Longrightarrow> pr_id y \<in> gone"
  shows "chains_wf d' job storage"
proof -
  have l: "local_points d' job storage = {p \<in> local_points d job storage. pr_id p \<notin> gone}" by (rule removed_local [OF removed])
  have "points_keyed d'" using wf removed by (simp add: chains_wf_def points_keyed_def points_removed_def distinct_map_filter)
  moreover have "\<exists>q \<in> local_points d' job storage. child_of p q \<and> queried p ''chain_id'' = queried q ''chain_id'' \<and>
      (pr_kind q \<noteq> ''FULL'' \<longrightarrow> order_of q < order_of p)"
    if "p \<in> local_points d' job storage" "pr_kind p \<noteq> ''FULL''" for p
  proof -
    from that l have p: "p \<in> local_points d job storage" "pr_id p \<notin> gone" by auto
    from parent_in_chain [OF wf p(1) that(2)] obtain q where q: "q \<in> local_points d job storage" "child_of p q"
      "queried p ''chain_id'' = queried q ''chain_id'' \<and> (pr_kind q \<noteq> ''FULL'' \<longrightarrow> order_of q < order_of p)" by blast
    then have "q \<in> local_points d' job storage" using closed [OF q(1) p(1) q(2)] p(2) l by blast
    with q(2,3) show ?thesis by blast
  qed
  moreover have "present (queried p ''chain_id'') \<and> (\<forall>q. \<not> child_of p q) \<and>
      (\<forall>q \<in> local_points d' job storage. pr_kind q = ''FULL'' \<longrightarrow>
         sql_eq (queried q ''chain_id'') (queried p ''chain_id'') \<longrightarrow> q = p)"
    if "p \<in> local_points d' job storage" "pr_kind p = ''FULL''" for p
    using that chain_full [OF wf, of p] unfolding l by blast
  ultimately show ?thesis unfolding chains_wf_def by blast
qed

lemma each_delete:
  "each (\<lambda>q. andthen (delete_restore_point env (pr_id q) None) (\<lambda>_. ret ())) ps w = (r, w') \<Longrightarrow>
     \<exists>k \<le> length ps. points_removed (pr_id ` set (take k ps)) (lw_db w) (lw_db w') \<and> (r = Inr () \<longrightarrow> k = length ps)"
proof (induction ps arbitrary: w)
  case (Cons p ps)
  obtain q w1 where q: "delete_restore_point env (pr_id p) None w = (q, w1)" by fastforce
  note rows = delete_point_rows [OF this]
  show ?case
  proof (cases q)
    case (Inl e)
    with Cons.prems q rows show ?thesis
      by (intro exI [of _ 0]) (auto simp: op_run andthen_def points_removed_def)
  next
    case (Inr t)
    with Cons.prems q have "each (\<lambda>q. andthen (delete_restore_point env (pr_id q) None) (\<lambda>_. ret ())) ps w1 = (r, w')"
      by (simp add: andthen_def ret_def)
    from Cons.IH [OF this] obtain k where k: "k \<le> length ps" "r = Inr () \<longrightarrow> k = length ps"
      "points_removed (pr_id ` set (take k ps)) (lw_db w1) (lw_db w')" by blast
    moreover have "points_removed {pr_id p} (lw_db w) (lw_db w1)" using rows Inr by (auto simp: points_removed_def)
    ultimately show ?thesis using removed_trans by (intro exI [of _ "Suc k"]) fastforce
  qed
qed (simp add: ret_def removed_refl)

lemma from_db_result: "andthen (from_db q) f w = (r, w') \<Longrightarrow> (\<exists>e. r = Inl e \<and> w' = w) \<or> (\<exists>x. q (lw_db w) = Inr x \<and> f x w = (r, w'))"
  by (auto simp: from_db_then split: sum.splits)

lemma delete_chain_effect:
  assumes wf: "chains_wf (lw_db w) job storage" and full: "f \<in> local_points (lw_db w) job storage" "pr_kind f = ''FULL''"
    and run: "delete_chain env job storage f w = (r, w')"
  shows "\<exists>gone. points_removed gone (lw_db w) (lw_db w') \<and> chains_wf (lw_db w') job storage \<and>
    (\<forall>p \<in> local_points (lw_db w) job storage. pr_kind p = ''FULL'' \<longrightarrow> pr_id p \<in> gone \<longrightarrow> p = f) \<and>
    (r = Inr () \<longrightarrow> pr_id f \<in> gone)"
proof -
  let ?d = "lw_db w"
  have "present (queried f ''chain_id'')" by (rule chain_full(1) [OF wf full])
  with run have "andthen (from_db (\<lambda>d. points_of_full_chain d job storage (pr_id f) (queried f ''chain_id''))) (\<lambda>ps.
      each (\<lambda>q. andthen (delete_restore_point env (pr_id q) None) (\<lambda>_. ret ())) ps) w = (r, w')"
    by (simp add: delete_chain_def Let_def)
  from from_db_result [OF this] show ?thesis
  proof (elim disjE exE conjE)
    fix e assume "r = Inl e" "w' = w"
    with wf show ?thesis by (intro exI [of _ "{}"]) (simp add: removed_refl)
  next
    fix ps assume ps: "points_of_full_chain ?d job storage (pr_id f) (queried f ''chain_id'') = Inr ps"
      and "each (\<lambda>q. andthen (delete_restore_point env (pr_id q) None) (\<lambda>_. ret ())) ps w = (r, w')"
    from each_delete [OF this(2)] obtain k where k: "r = Inr () \<longrightarrow> k = length ps"
      "points_removed (pr_id ` set (take k ps)) ?d (lw_db w')" by blast
    note chain = full_chain_points [OF wf full ps]
    have same: "p \<in> set (take k ps)" if "p \<in> local_points ?d job storage" "pr_id p \<in> pr_id ` set (take k ps)" for p
    proof -
      from that(2) obtain q where q: "q \<in> set (take k ps)" "pr_id p = pr_id q" by auto
      then have "q \<in> set ps" by (meson in_set_takeD)
      then have "q \<in> set (db_points ?d)" using chain(1) by simp
      with chains_keyed [OF wf _ this q(2)] that(1) q(1) show ?thesis by simp
    qed
    have "pr_id y \<in> pr_id ` set (take k ps)"
      if x: "x \<in> local_points ?d job storage" and y: "y \<in> local_points ?d job storage" "child_of y x"
        "pr_id x \<in> pr_id ` set (take k ps)" for x y
    proof -
      have xk: "x \<in> set (take k ps)" by (rule same [OF x y(3)])
      then have "sql_eq (queried x ''chain_id'') (queried f ''chain_id'')" using chain(1) by (auto dest: in_set_takeD)
      moreover have "pr_kind y \<noteq> ''FULL''" using chain_full(2) [OF wf y(1)] y(2) by blast
      with parent_in_chain [OF wf y(1)] obtain z where "z \<in> local_points ?d job storage" "child_of y z"
        "queried y ''chain_id'' = queried z ''chain_id''" by blast
      moreover from this y(2) have "pr_id z = pr_id x" by (simp add: child_of_def)
      with chains_keyed [OF wf] x \<open>z \<in> _\<close> have "z = x" by auto
      ultimately have "y \<in> set ps" using chain(1) y(1) by simp
      have "y \<notin> set (drop k ps)"
      proof
        assume "y \<in> set (drop k ps)"
        with chain(3) xk have "\<not> child_of y x"
          by (metis append_take_drop_id sorted_wrt_append)
        with y(2) show False by simp
      qed
      with \<open>y \<in> set ps\<close> have "y \<in> set (take k ps)" by (metis Un_iff append_take_drop_id set_append)
      then show ?thesis by blast
    qed
    then have "chains_wf (lw_db w') job storage" by (rule chains_wf_removed [OF wf k(2)])
    moreover have "p = f" if "p \<in> local_points ?d job storage" "pr_kind p = ''FULL''" "pr_id p \<in> pr_id ` set (take k ps)" for p
      using same [OF that(1,3)] chain(1) chain_full(3) [OF wf full that(1,2)] by (auto dest: in_set_takeD)
    moreover have "f \<in> set ps"
      using chain(1) full chain_full(1) [OF wf full] by (simp add: sql_eq_refl present_not_null)
    ultimately show ?thesis using k by (intro exI [of _ "pr_id ` set (take k ps)"]) auto
  qed
qed

section \<open>Deleting the oldest chains\<close>

lemma fulls_set: "set (fulls_for_reclaim d job storage) = {p \<in> local_points d job storage. pr_kind p = ''FULL''}"
  by (auto simp: fulls_for_reclaim_def)

lemma fulls_distinct: "chains_wf d job storage \<Longrightarrow> distinct (fulls_for_reclaim d job storage)"
  by (auto simp: fulls_for_reclaim_def chains_wf_def points_keyed_def distinct_map)

lemma fulls_removed:
  "points_removed gone d d' \<Longrightarrow>
     fulls_for_reclaim d' job storage = filter (\<lambda>p. pr_id p \<notin> gone) (fulls_for_reclaim d job storage)"
  by (auto simp: fulls_for_reclaim_def points_removed_def local_to_shape filter_sort conj_commute intro: arg_cong [where f = "sort_key age"])

lemma delete_oldest:
  assumes wf: "chains_wf (lw_db w) job storage" and fulls: "fulls_for_reclaim (lw_db w) job storage = f # fs"
    and run: "delete_chain env job storage f w = (r, w')"
  shows "chains_wf (lw_db w') job storage \<and> fulls_for_reclaim (lw_db w') job storage \<in> {f # fs, fs} \<and>
    (r = Inr () \<longrightarrow> fulls_for_reclaim (lw_db w') job storage = fs)"
proof -
  have in_f: "f \<in> local_points (lw_db w) job storage" "pr_kind f = ''FULL''"
    using fulls_set [of "lw_db w" job storage] fulls by auto
  from delete_chain_effect [OF wf in_f run] obtain gone where g: "points_removed gone (lw_db w) (lw_db w')"
    "chains_wf (lw_db w') job storage" "r = Inr () \<longrightarrow> pr_id f \<in> gone"
    "\<forall>p \<in> local_points (lw_db w) job storage. pr_kind p = ''FULL'' \<longrightarrow> pr_id p \<in> gone \<longrightarrow> p = f" by blast
  have "\<forall>p \<in> set fs. pr_id p \<notin> gone"
  proof
    fix p assume "p \<in> set fs"
    moreover have "f \<notin> set fs" using fulls_distinct [OF wf] fulls by simp
    moreover have "p \<in> {p \<in> local_points (lw_db w) job storage. pr_kind p = ''FULL''}"
      using fulls_set [of "lw_db w" job storage] fulls \<open>p \<in> set fs\<close> by auto
    ultimately show "pr_id p \<notin> gone" using g(4) by auto
  qed
  then have "filter (\<lambda>p. pr_id p \<notin> gone) fs = fs" by (simp add: filter_id_conv)
  with fulls_removed [OF g(1), of job storage] fulls g(2,3) show ?thesis by auto
qed

lemma delete_oldest_chains:
  "chains_wf (lw_db w) job storage \<Longrightarrow> fulls_for_reclaim (lw_db w) job storage = xs @ ys \<Longrightarrow>
     each (delete_chain env job storage) xs w = (r, w') \<Longrightarrow>
     chains_wf (lw_db w') job storage \<and> (\<exists>k \<le> length xs. fulls_for_reclaim (lw_db w') job storage = drop k (xs @ ys) \<and>
       (r = Inr () \<longrightarrow> k = length xs))"
proof (induction xs arbitrary: w)
  case (Cons f fs)
  obtain q w1 where q: "delete_chain env job storage f w = (q, w1)" by fastforce
  from delete_oldest [OF Cons.prems(1) _ q, of "fs @ ys"] Cons.prems(2)
  have step: "chains_wf (lw_db w1) job storage" "fulls_for_reclaim (lw_db w1) job storage \<in> {f # fs @ ys, fs @ ys}"
    "q = Inr () \<longrightarrow> fulls_for_reclaim (lw_db w1) job storage = fs @ ys" by auto
  show ?case
  proof (cases q)
    case (Inl e)
    with Cons.prems(3) q have "w' = w1" "r = Inl e" by (auto simp: andthen_def)
    moreover have "\<exists>k \<le> length (f # fs). fulls_for_reclaim (lw_db w1) job storage = drop k ((f # fs) @ ys)"
      using step(2) by (auto intro: exI [of _ 0] exI [of _ 1])
    ultimately show ?thesis using step(1) by blast
  next
    case (Inr u)
    with Cons.prems(3) q have "each (delete_chain env job storage) fs w1 = (r, w')" by (simp add: andthen_def)
    from Cons.IH [OF step(1) _ this] step(3) Inr obtain k where "chains_wf (lw_db w') job storage" "k \<le> length fs"
      "fulls_for_reclaim (lw_db w') job storage = drop k (fs @ ys)" "r = Inr () \<longrightarrow> k = length fs" by auto
    then show ?thesis by (intro conjI exI [of _ "Suc k"]) auto
  qed
qed (auto simp: ret_def)

lemma free_space_db: "moves (on_db (=)) (free_space env cf)"
proof -
  have p: "reflp ((=) :: db \<Rightarrow> db \<Rightarrow> bool)" "transp ((=) :: db \<Rightarrow> db \<Rightarrow> bool)" by (auto simp: reflp_def transp_def)
  show ?thesis
    unfolding free_space_def reject_staging_symlinks_def ensure_path_def ensure_one_def make_dir_def
    by (intro moves_intros p)
qed

lemma reclaim_loop_oldest:
  "chains_wf (lw_db w) job storage \<Longrightarrow> fulls_for_reclaim (lw_db w) job storage = xs @ ys \<Longrightarrow>
     reclaim_loop env cf job storage required reserve free xs w = (r, w') \<Longrightarrow>
     chains_wf (lw_db w') job storage \<and> (\<exists>k \<le> length xs. fulls_for_reclaim (lw_db w') job storage = drop k (xs @ ys))"
proof (induction xs arbitrary: w free)
  case (Cons f fs)
  obtain q w1 where q: "delete_chain env job storage f w = (q, w1)" by fastforce
  from delete_oldest [OF Cons.prems(1) _ q, of "fs @ ys"] Cons.prems(2)
  have step: "chains_wf (lw_db w1) job storage" "fulls_for_reclaim (lw_db w1) job storage \<in> {f # fs @ ys, fs @ ys}"
    "q = Inr () \<longrightarrow> fulls_for_reclaim (lw_db w1) job storage = fs @ ys" by auto
  have here: "\<exists>k \<le> length (f # fs). fulls_for_reclaim (lw_db w1) job storage = drop k ((f # fs) @ ys)"
    using step(2) by (auto intro: exI [of _ 0] exI [of _ 1])
  obtain v w2 where v: "free_space env cf w1 = (v, w2)" by fastforce
  with movesD [OF free_space_db] have db: "lw_db w2 = lw_db w1" by (auto simp: on_db_def)
  show ?case
  proof (cases "q = Inr () \<and> (\<exists>n t. v = Inr (n, t) \<and> \<not> reserve \<le> n - required)")
    case True
    then obtain n t where "q = Inr ()" "v = Inr (n, t)" "\<not> reserve \<le> n - required" by blast
    with Cons.prems(3) q v have "reclaim_loop env cf job storage required reserve n fs w2 = (r, w')"
      by (simp add: andthen_def)
    from Cons.IH [OF _ _ this] step \<open>q = Inr ()\<close> db obtain k where "chains_wf (lw_db w') job storage" "k \<le> length fs"
      "fulls_for_reclaim (lw_db w') job storage = drop k (fs @ ys)" by auto
    then show ?thesis by (intro conjI exI [of _ "Suc k"]) auto
  next
    case False
    with Cons.prems(3) q v have "w' = w1 \<or> w' = w2"
      by (cases q; cases v) (auto simp: andthen_def ret_def split: if_splits)
    with db step(1) here show ?thesis by auto
  qed
qed (auto simp: ret_def)

lemma slice_to_take: "0 \<le> n \<Longrightarrow> slice_to n xs = take (nat n) xs"
  by (simp add: slice_to_def)

text \<open>From \<open>d\<close> to \<open>d'\<close> the oldest chains of a job are gone, but at least \<open>keep\<close> are left, if there were so many.\<close>

definition oldest_gone :: "db \<Rightarrow> db \<Rightarrow> string \<Rightarrow> string \<Rightarrow> int \<Rightarrow> bool" where
  "oldest_gone d d' job storage keep \<longleftrightarrow> chains_wf d' job storage \<and>
     (\<exists>k. fulls_for_reclaim d' job storage = drop k (fulls_for_reclaim d job storage) \<and>
       int k \<le> max 0 (int (length (fulls_for_reclaim d job storage)) - keep))"

lemma enforce_oldest:
  assumes "chains_wf (lw_db w) (jb_id j) storage" and run: "enforce_full_retention env j storage w = (r, w')"
    and keep: "keep = max (minimum_full_chains (jb_retention j)) (full_chains_to_retain (jb_retention j))"
  shows "oldest_gone (lw_db w) (lw_db w') (jb_id j) storage keep"
    and "r = Inr () \<Longrightarrow> length (fulls_for_reclaim (lw_db w') (jb_id j) storage) =
      min (length (fulls_for_reclaim (lw_db w) (jb_id j) storage)) (nat keep)"
proof -
  let ?fulls = "fulls_for_reclaim (lw_db w) (jb_id j) storage"
  let ?n = "max 0 (int (length ?fulls) - keep)"
  from run have "each (delete_chain env (jb_id j) storage) (take (nat ?n) ?fulls) w = (r, w')"
    by (simp add: enforce_full_retention_def Let_def reading_def slice_to_take keep)
  from delete_oldest_chains [OF assms(1) _ this, of "drop (nat ?n) ?fulls"] obtain k where
    k: "chains_wf (lw_db w') (jb_id j) storage" "k \<le> length (take (nat ?n) ?fulls)"
    "fulls_for_reclaim (lw_db w') (jb_id j) storage = drop k ?fulls" "r = Inr () \<longrightarrow> k = length (take (nat ?n) ?fulls)"
    by auto
  then show "oldest_gone (lw_db w) (lw_db w') (jb_id j) storage keep"
    unfolding oldest_gone_def by (intro conjI exI [of _ k]) auto
  show "length (fulls_for_reclaim (lw_db w') (jb_id j) storage) = min (length ?fulls) (nat keep)" if "r = Inr ()"
    using k that by auto
qed

lemma reclaim_oldest:
  assumes "chains_wf (lw_db w) (jb_id j) storage"
    and run: "reclaim_for_space env cf j storage free required reserve w = (r, w')"
  shows "oldest_gone (lw_db w) (lw_db w') (jb_id j) storage (minimum_full_chains (jb_retention j))"
proof (cases "reserve \<le> free - required \<or> reclaim_mode (jb_retention j) \<noteq> SPACE_OPTIMIZED")
  case True
  with run assms show ?thesis
    by (auto simp: reclaim_for_space_def ret_def oldest_gone_def intro!: exI [of _ 0] split: if_splits)
next
  case False
  let ?fulls = "fulls_for_reclaim (lw_db w) (jb_id j) storage"
  let ?n = "max 0 (int (length ?fulls) - minimum_full_chains (jb_retention j))"
  from False run have "reclaim_loop env cf (jb_id j) storage required reserve free (take (nat ?n) ?fulls) w = (r, w')"
    by (simp add: reclaim_for_space_def Let_def reading_def slice_to_take)
  from reclaim_loop_oldest [OF assms(1) _ this, of "drop (nat ?n) ?fulls"] show ?thesis
    unfolding oldest_gone_def by auto
qed


end
