(* ===== verification/LocalExample.thy ===== *)
theory LocalExample
  imports LocalRetention
begin

text \<open>
  Two chains of a job on the storage root \<open>/r\<close>: a FULL \<open>f\<close>, and a newer FULL \<open>g\<close> with an incremental \<open>i\<close>.
  The next run is planned, and the older chain is deleted.
\<close>

definition plain_text :: text_env where
  "plain_text = \<lparr>te_tzdb = (\<lambda>_. None), te_iso = (\<lambda>_. ''9''), te_from_iso = (\<lambda>_. Inr (example_time 5)), te_float = (\<lambda>_. None)\<rparr>"

definition catalogued :: "string \<Rightarrow> string \<Rightarrow> int \<Rightarrow> string option \<Rightarrow> string \<Rightarrow> string \<Rightarrow> point_row" where
  "catalogued i kind n parent chain stamp =
     \<lparr>pr_id = i, pr_run_id = ''run-'' @ i, pr_kind = kind, pr_status = ''AVAILABLE'',
      pr_metadata = [(''sequence'', JInt n), (''chain_id'', JStr chain), (''parent_restore_point_id'', opt_json parent),
        (''libvirt_checkpoint_name'', JStr (''check-'' @ i)), (''bundle_object_id'', JStr (''/r/'' @ i))],
      pr_created_at = stamp\<rparr>"

definition finished_run :: "string \<Rightarrow> run_row" where
  "finished_run i = \<lparr>rr_id = ''run-'' @ i, rr_job_id = ''j'', rr_storage_id = ''a'', rr_state = ''SUCCESS'', rr_context = [],
     rr_created_at = ''1'', rr_updated_at = ''1''\<rparr>"

definition local_storage :: storage where
  "local_storage = (sample_storage ''a'' ''new'')\<lparr>st_values := dset storage_fields ''backup_data_root'' (JStr ''/r'')\<rparr>"

definition local_store :: db where
  "local_store = (snd (create_storage_destination local_storage True empty_db))\<lparr>
     db_vms := db_vms job_store, db_jobs := [JobScheduling.job_row_of plain_text (sample_job None) [] None],
     db_runs := [finished_run ''f'', finished_run ''g'', finished_run ''i'', finished_run ''x''],
     db_points := [catalogued ''f'' ''FULL'' 0 None ''run-f'' ''1'', catalogued ''g'' ''FULL'' 0 None ''run-g'' ''2'',
       catalogued ''i'' ''INCREMENTAL'' 1 (Some ''g'') ''run-g'' ''3'']\<rparr>"

definition local_files :: lfs where
  "local_files = map_of [(''/'', DirNode), (''/r'', DirNode), (''/r/f'', DirNode), (''/r/f/disk'', FileNode (1, 2) ''data''),
     (''/r/g'', DirNode), (''/r/i'', DirNode), (''/r/other'', FileNode (1, 3) ''kept'')]"

definition local_world :: lw where
  "local_world = \<lparr>lw_db = local_store, lw_fs = local_files, lw_tick = 0, lw_ran = []\<rparr>"

definition local_env :: lenv where
  "local_env =
     \<lparr>le_text = plain_text, le_fail = (\<lambda>_. False), le_run = (\<lambda>_ _ fs. (Inr (0, [], []), fs)), le_identity = (\<lambda>n. (1, int n)),
      le_names = (\<lambda>_ _. []),
      le_tree = (\<lambda>fs p. filter (\<lambda>q. fs q \<noteq> None) [p @ ''/disk'']),
      le_resolve = (\<lambda>_ p. Some p), le_usage = (\<lambda>n. (10, 100)), le_one_device = True,
      le_loads = (\<lambda>_. None), le_dumps = (\<lambda>_. []), le_str = (\<lambda>_. []), le_parse_xml = (\<lambda>_. None), le_xml_text = (\<lambda>_. []),
      le_time = example_time \<circ> int, le_uuid = (\<lambda>_. []), le_year = (\<lambda>_. []), le_month = (\<lambda>_. []), le_stamp = (\<lambda>_. []),
      le_error_text = (\<lambda>_. [])\<rparr>"

definition local_conf :: lconf where
  "local_conf = \<lparr>lc_control_root = ''/c'', lc_data_root = ''/r'', lc_uri = ''qemu'', lc_allow_mutation = True\<rparr>"

definition local_job :: job where
  "local_job = (sample_job None)\<lparr>jb_retention := \<lparr>restore_points_to_retain = 7, minimum_full_chains = 1, full_chains_to_retain = 1,
     reclaim_mode = SPACE_OPTIMIZED, backup_size_margin_percent = 20\<rparr>\<rparr>"

definition next_run :: run where
  "next_run = projr (get_run plain_text local_store ''run-x'')"

lemma honest_local: "honest_walk local_env"
  by (auto simp: honest_walk_def local_env_def)

definition ids_left :: "lw \<Rightarrow> string list" where
  "ids_left w = map pr_id (db_points (lw_db w))"

lemma local_deleted: "(case delete_restore_point local_env ''f'' (Some ''j'') local_world of
    (r, w) \<Rightarrow> r = Inr ''/r/f'' \<and> ids_left w = [''g'', ''i''] \<and> lw_fs w ''/r/f'' = None \<and> lw_fs w ''/r/f/disk'' = None)"
  by code_simp

lemma local_enforced: "(case enforce_full_retention local_env local_job ''a'' local_world of
    (r, w) \<Rightarrow> r = Inr () \<and> ids_left w = [''g'', ''i''])"
  by code_simp

lemma local_reclaimed: "(case reclaim_for_space local_env local_conf local_job ''a'' 0 5 5 local_world of
    (r, w) \<Rightarrow> r = Inr 10 \<and> ids_left w = [''g'', ''i''])"
  by code_simp

lemma local_planned: "(case planned_backup local_env next_run local_job local_storage local_world of
    (Inr (p, c), w) \<Rightarrow> pl_kind p = INCREMENTAL \<and> pl_sequence p = 2 \<and> pl_base p = Some ''check-i'' | _ \<Rightarrow> False)"
  by code_simp

lemma local_keyed: "points_keyed local_store"
  by code_simp

lemma local_start: "fulls_start local_store"
  by code_simp

lemma local_chains: "chains_wf local_store ''j'' ''a''"
proof -
  have points: "local_points local_store ''j'' ''a'' = set (db_points local_store)" by code_simp
  have "db_points local_store = [catalogued ''f'' ''FULL'' 0 None ''run-f'' ''1'', catalogued ''g'' ''FULL'' 0 None ''run-g'' ''2'',
       catalogued ''i'' ''INCREMENTAL'' 1 (Some ''g'') ''run-g'' ''3'']" by (simp add: local_store_def)
  then show ?thesis
    unfolding chains_wf_def points using local_keyed
    by (simp add: child_of_def order_of_def queried_def catalogued_def dget_or_def present_def sql_eq_def opt_json_def)
qed

theorem planned_backup_linked_witness:
  "\<exists>ps. lineage_path local_store ps \<and> length ps = 2 \<and> pr_id (hd ps) = ''i''"
proof -
  obtain p c w where run: "planned_backup local_env next_run local_job local_storage local_world = (Inr (p, c), w)"
    and p: "pl_kind p = INCREMENTAL" "pl_sequence p = 2" "pl_base p = Some ''check-i''"
    using local_planned by (auto split: prod.splits sum.splits)
  have store: "lw_db local_world = local_store" by (simp add: local_world_def)
  from planned_backup_linked [OF run] p(1) local_keyed local_start obtain ps b where
    "lineage_path local_store ps" and q: "dget_or (pr_metadata (hd ps)) ''libvirt_checkpoint_name'' JNull = JStr b"
      "pl_sequence p = int (length ps)" "pl_base p = Some b"
    unfolding store by (auto simp: plan_full_def)
  moreover from this have "hd ps \<in> set (db_points local_store)" by (auto simp: lineage_path_def)
  with q p(3) have "pr_id (hd ps) = ''i''" by (auto simp: local_store_def catalogued_def dget_or_def)
  ultimately show ?thesis using p(2) by auto
qed

theorem local_deletion_safe_witness:
  "\<exists>w. delete_restore_point local_env ''f'' (Some ''j'') local_world = (Inr ''/r/f'', w) \<and>
     lw_fs w ''/r/f'' = None \<and> lw_fs w ''/r/other'' = local_files ''/r/other''"
proof -
  obtain w where run: "delete_restore_point local_env ''f'' (Some ''j'') local_world = (Inr ''/r/f'', w)"
    using local_deleted by (auto split: prod.splits)
  from local_deletion_safe [OF honest_local run] have gone: "lw_fs w ''/r/f'' = None" "bundle_target local_env local_world ''f'' ''/r/f''"
    and kept: "lw_fs w p \<noteq> lw_fs local_world p \<Longrightarrow>
      \<exists>t. bundle_target local_env local_world ''f'' t \<and> (p = t \<or> prefix (t @ ''/'') p)" for p
    by auto
  have one: "bundle_target local_env local_world ''f'' t \<Longrightarrow> t = ''/r/f''" for t
    using gone(2) by (auto simp: bundle_target_def)
  have "lw_fs w ''/r/other'' = lw_fs local_world ''/r/other''" using kept [of "''/r/other''"] one by fastforce
  with run gone show ?thesis by (auto simp: local_world_def)
qed


end
