(* ===== verification/Spec2Isabelle.thy ===== *)
theory Spec2Isabelle
  imports RunStates Capacity EndToEndExample ReceivedRestoreExample PublishExample LocalExample
begin

text \<open>
  Verification of \<open>vmbackupd\<close>, a daemon that backs up virtual machines into chains of FULL and
  INCREMENTAL restore points, keeps a compact SQLite catalogue of them, copies published bundles
  to other nodes over SSH and restores them. Paths below are relative to \<open>src/src/vmbackupd\<close>.

  \<^bold>\<open>Theories and the code they model.\<close>
  \<^item> \<open>Prelude\<close>: exceptions as a datatype and results as \<open>exn + 'a\<close>; the state operations
    \<open>ret\<close>, \<open>raise\<close>, \<open>reading\<close>, \<open>update\<close>, \<open>andthen\<close>; JSON values with Python's truth value,
    \<open>int\<close> and stable sorting; \<open>PurePosixPath\<close>; the rules \<open>keeps\<close>, \<open>yields\<close> and \<open>gives\<close>.
  \<^item> \<open>Models\<close> (\<open>models.py\<close>): enums as datatypes, dataclasses as records, their checks.
  \<^item> \<open>RunStates\<close> (\<open>state_machine.py\<close>, \<open>state_machine_v2.py\<close>): both tables of allowed
    transitions; a locale of transition tables is interpreted on each.
  \<^item> \<open>Schedule\<close> (\<open>chain_schedule_v2.py\<close>, \<open>SchedulePolicy\<close> of \<open>models.py\<close>): wall-clock slots,
    the next FULL and INCREMENTAL slot, cursors over missed slots. A zone is a function from
    instants to offsets; a locale of slot steppers is interpreted on both cursors.
  \<^item> \<open>Retention\<close> (\<open>retention.py\<close>) and \<open>Capacity\<close> (\<open>capacity.py\<close>): which chains expire, and
    which are reclaimed for space.
  \<^item> \<open>TransferProtocol\<close>, \<open>TransferStaging\<close>, \<open>TransferProps\<close>, \<open>TransferExamples\<close>
    (\<open>receiver_transfer.py\<close>): the control records, the staging session over a filesystem whose
    calls can fail and write short, and the command loop.
  \<^item> \<open>Store\<close> (\<open>schema_v2.py\<close>, \<open>repository_v2.py\<close>): the tables as lists of rows, the job record
    and its JSON policy.
  \<^item> \<open>Storages\<close>: storage destinations. \<open>JobScheduling\<close>: jobs, due slots, ticks and runs
    (\<open>scheduler_v2.py\<close> too). \<open>Replicas\<close>: replica entries, their claims, retries and remote
    deletions, and the executors of \<open>replica_v2.py\<close>; the publication of a local backup.
  \<^item> \<open>Received\<close>: the catalogue of replicas this node received, their deletion order and the
    chain a received point is restored from.
  \<^item> \<open>Sender\<close>, \<open>SenderProps\<close> (\<open>replica_sender.py\<close>): the inspection of a published bundle, the
    transfer plan, the seed negotiation and the sending side of the transfer, publish and delete
    commands over a pipe. \<open>EndToEnd\<close> composes it with the receiver; \<open>EndToEndExample\<close> runs both.
  \<^item> \<open>ReceivedRestore\<close>, \<open>ReceivedRestoreProps\<close>, \<open>ReceivedRestoreExample\<close> (\<open>received_restore_v2.py\<close>,
    restore operations of \<open>repository_v2.py\<close>): the runtime that restores a received point on a world
    of store, files and libvirt domains. What \<open>qemu-img\<close>, \<open>cp\<close> and \<open>rename\<close> do when they succeed is
    the hypothesis \<open>commands_ok\<close>; that a stored timestamp can be read again is \<open>clock_ok\<close>.

  \<^item> \<open>Publish\<close>, \<open>PublishProps\<close>, \<open>PublishHistory\<close>, \<open>PublishResume\<close>,
    \<open>PublishExample\<close> (\<open>receiver_publish.py\<close>,
    \<open>receiver_reclaim_delete.py\<close>, the path checks of \<open>bundle.py\<close>): the receiver checks a staged bundle,
    records an intent, renames the bundle to its canonical path and writes the published marker.
    System calls are numbered and any of them may fail, so an interrupted publication is also a
    crash; histories interleave publications, transfers and deletions. That the walk through a tree stays
    in it and that dates contain no slash are the hypotheses \<open>honest_tree\<close> and \<open>plain_times\<close>.
    \<open>PublishResume\<close> shows that a publication stopped at any call can be repeated; there \<open>dated\<close> says that
    years and months are path segments, \<open>honest_names\<close> that a listing depends on the entries listed and
    \<open>records_fit\<close> that a replica record is shorter than the limit for metadata.
  \<^item> \<open>LocalHost\<close>, \<open>Libvirt\<close>, \<open>LocalCatalog\<close>, \<open>LocalBackup\<close> (staging and mutation driver of
    \<open>libvirt_execution.py\<close>, \<open>libvirt_backend.py\<close>, restore points of \<open>repository_v2.py\<close>, \<open>backup_catalog_v2.py\<close>,
    \<open>local_backup_v2.py\<close>, \<open>BundlePublisher\<close> of \<open>bundle.py\<close>): a local backup from its plan over preflight, space,
    staging and the start of the libvirt job to verification, publication and retention, on a host of store, files
    and commands run. \<open>LocalProps\<close>, \<open>LocalRetention\<close>, \<open>LocalExample\<close> prove what a backup is based on, what a
    deletion removes and which chains retention keeps; \<open>moves\<close> is the calculus for what a call may change.
    \<open>honest_walk\<close> says that a listing of a folder stays in it, \<open>points_keyed\<close> that identifiers of points are unique,
    \<open>fulls_start\<close> that a FULL has sequence 0, \<open>chains_wf\<close> that every available incremental has its parent.

  \<^bold>\<open>Correspondence.\<close> A method that changes the store is an \<open>op\<close>: a function from the store to
  a result and the store it leaves, also when it raises. SQLite rolls back only inside the explicit
  transactions of the source; these are wrapped in \<open>atomically\<close>. The SSH process is the list of
  bytes it answers and its exit status; \<open>json.dumps\<close>, \<open>json.loads\<close> and \<open>lseek\<close> are fields of an
  environment, with the laws \<open>codec_ok\<close> (what is written is read back, on one line) and \<open>bundle_ok\<close>
  (between data extents the file is zero; unchanged stat data means unchanged content). Identifiers that \<open>uuid4\<close> makes
  and the current time are arguments. Timestamps that SQL compares are texts; what \<open>isoformat\<close> and
  \<open>fromisoformat\<close> do is the field of an environment (\<open>text_env\<close>) with the law \<open>iso_ok\<close>.

  \<^bold>\<open>What the lemmas show.\<close> Invariants of the store kept by every operation on every branch
  (one default destination per node, one active run per machine, replicas only after their parent's
  replica); safety of the planners and of the transfer session (nothing outside staging is written,
  success means complete and hashed content); a transfer that succeeds on both sides copies every
  file of the source bundle byte for byte, sparse files included; on the receiver every published
  marker has a complete chain, whatever calls failed, publication refines an abstract catalogue and can be
  repeated after a crash; exactness of schedules, deletion orders and restore
  chains; termination of the slot searches and chain walks; round trips of stored jobs.

  \<^bold>\<open>Bounds.\<close> Loops whose end the source bounds by a data set carry it as the measure of a
  \<open>function\<close>: the calendar searches count days, the graph walks the identifiers not yet met, the
  transfer loop the bytes left in the input. The recursion limit of the interpreter is not modelled:
  a chain of about a thousand received increments makes the nested \<open>visit\<close> fail there.

  \<^bold>\<open>Not modelled.\<close> Drivers of libvirt, qemu and OpenSSH (parameters where a component calls them),
  argument parsing and JSON serialisation of the API, the SQL text of the first-generation schema,
  file modes and ownership. Local restore, recovery and reclaim execution are not modelled either.
\<close>

end
